(* ===== verification/Prelude.thy ===== *)
theory Prelude
  imports Complex_Main "HOL-Library.Word"
begin

text \<open>
  The shared vocabulary of the H2Fleet development: Go's fixed-width integers as \<open>int\<close> with the
  wrap-around written out, JSON values, HTTP replies, SQL-like row tables as lists, and the generic
  lemmas on them that the component theories use. Nothing here models a particular service.
\<close>

named_theorems money \<open>facts that move an amount between two accounts\<close>
named_theorems rows \<open>facts on row tables: find, update, append\<close>

section \<open>Fixed-width integers\<close>

text \<open>
  Go's \<open>int64\<close> arithmetic wraps modulo \<open>2 ^ 64\<close> into the signed range; conversions between
  \<open>int64\<close> and \<open>uint64\<close> keep the bit pattern. Integer division truncates towards zero.
\<close>

definition i64 :: "int \<Rightarrow> int" where
  "i64 x = (x + 2 ^ 63) mod 2 ^ 64 - 2 ^ 63"

definition u64 :: "int \<Rightarrow> int" where
  "u64 x = x mod 2 ^ 64"

definition in_i64 :: "int \<Rightarrow> bool" where
  "in_i64 x \<longleftrightarrow> - (2 ^ 63) \<le> x \<and> x < 2 ^ 63"

definition in_i32 :: "int \<Rightarrow> bool" where
  "in_i32 x \<longleftrightarrow> - (2 ^ 31) \<le> x \<and> x < 2 ^ 31"

definition go_div :: "int \<Rightarrow> int \<Rightarrow> int" where
  "go_div a b = sgn a * sgn b * (\<bar>a\<bar> div \<bar>b\<bar>)"

lemma i64_id [simp]: "in_i64 x \<Longrightarrow> i64 x = x"
  by (simp add: i64_def in_i64_def)

lemma i64_small: "0 \<le> x \<Longrightarrow> x < 2 ^ 63 \<Longrightarrow> i64 x = x"
  by (simp add: i64_def)

lemma i64_range: "in_i64 (i64 x)"
proof -
  have "0 \<le> (x + 2 ^ 63) mod 2 ^ 64" and "(x + 2 ^ 63) mod 2 ^ 64 < (2 ^ 64 :: int)"
    by (simp_all add: pos_mod_bound)
  then show ?thesis by (simp add: i64_def in_i64_def)
qed

lemma u64_small: "0 \<le> x \<Longrightarrow> x < 2 ^ 64 \<Longrightarrow> u64 x = x"
  by (simp add: u64_def)

lemma u64_pos: "0 \<le> x \<Longrightarrow> in_i64 x \<Longrightarrow> u64 x = x"
  by (simp add: u64_def in_i64_def)

lemma go_div_nonneg: "0 \<le> a \<Longrightarrow> 0 < b \<Longrightarrow> go_div a b = a div b"
  by (cases "a = 0") (simp_all add: go_div_def)

lemma go_div_mono_bound: "0 \<le> a \<Longrightarrow> 0 < b \<Longrightarrow> 0 \<le> go_div a b \<and> go_div a b \<le> a"
  using zdiv_mono2 [of a 1 b] by (simp add: go_div_nonneg pos_imp_zdiv_nonneg_iff)

section \<open>JSON values and HTTP replies\<close>

datatype json =
    JNull
  | JBool bool
  | JNum int
  | JStr string
  | JTime int
  | JFloat rat
  | JArr "json list"
  | JObj "(string \<times> json) list"

text \<open>
  A handler ends in exactly one \<open>writeJSON\<close>: a value with a status, an error object
  \<open>{"error": msg}\<close> with a status, an error that also carries the current row, or
  \<open>h.internal(w, op, err)\<close>, which logs \<open>op\<close> and answers 500.
\<close>

datatype 'a resp =
    Reply nat 'a
  | Err nat string
  | ErrWith nat string 'a
  | Internal string

fun status_code :: "'a resp \<Rightarrow> nat" where
  "status_code (Reply n _) = n"
| "status_code (Err n _) = n"
| "status_code (ErrWith n _ _) = n"
| "status_code (Internal _) = 500"

section \<open>Row tables\<close>

text \<open>
  A table is the list of its rows. \<open>find\<close> is a query for one row, \<open>upd_rows\<close> an
  \<open>UPDATE ... WHERE\<close>, \<open>sum_where\<close> a \<open>COALESCE(sum(...), 0)\<close>.
\<close>

definition upd_rows :: "('r \<Rightarrow> bool) \<Rightarrow> ('r \<Rightarrow> 'r) \<Rightarrow> 'r list \<Rightarrow> 'r list" where
  "upd_rows P f xs = map (\<lambda>x. if P x then f x else x) xs"

definition sum_where :: "('r \<Rightarrow> bool) \<Rightarrow> ('r \<Rightarrow> int) \<Rightarrow> 'r list \<Rightarrow> int" where
  "sum_where P f xs = sum_list (map f (filter P xs))"

lemma upd_rows_Nil [simp, rows]: "upd_rows P f [] = []"
  by (simp add: upd_rows_def)

lemma upd_rows_Cons [simp, rows]:
  "upd_rows P f (x # xs) = (if P x then f x else x) # upd_rows P f xs"
  by (simp add: upd_rows_def)

lemma upd_rows_append [simp, rows]: "upd_rows P f (xs @ ys) = upd_rows P f xs @ upd_rows P f ys"
  by (simp add: upd_rows_def)

lemma length_upd_rows [simp]: "length (upd_rows P f xs) = length xs"
  by (simp add: upd_rows_def)

lemma upd_rows_none [rows]: "(\<And>x. x \<in> set xs \<Longrightarrow> \<not> P x) \<Longrightarrow> upd_rows P f xs = xs"
  by (induction xs) auto

lemma map_upd_rows [rows]: "(\<And>x. g (f x) = g x) \<Longrightarrow> map g (upd_rows P f xs) = map g xs"
  by (induction xs) auto

lemma set_upd_rowsD [rows]:
  "y \<in> set (upd_rows P f xs) \<Longrightarrow> \<exists>x \<in> set xs. y = (if P x then f x else x)"
  by (auto simp: upd_rows_def)

lemma upd_rows_misses: "y \<in> set (upd_rows P f xs) \<Longrightarrow> (\<And>x. \<not> P (f x)) \<Longrightarrow> \<not> P y"
  by (auto simp: upd_rows_def split: if_splits)

lemma filter_upd_rows_other:
  "(\<And>x. Q (f x) = Q x) \<Longrightarrow> (\<And>x. P x \<Longrightarrow> \<not> Q x) \<Longrightarrow> filter Q (upd_rows P f xs) = filter Q xs"
  by (induction xs) auto

lemma sum_where_Nil [simp, rows]: "sum_where P f [] = 0"
  by (simp add: sum_where_def)

lemma sum_where_Cons [simp, rows]:
  "sum_where P f (x # xs) = (if P x then f x else 0) + sum_where P f xs"
  by (simp add: sum_where_def)

lemma sum_where_append [simp, rows]:
  "sum_where P f (xs @ ys) = sum_where P f xs + sum_where P f ys"
  by (simp add: sum_where_def)

lemma sum_where_nonneg [rows]:
  "(\<And>x. x \<in> set xs \<Longrightarrow> P x \<Longrightarrow> 0 \<le> f x) \<Longrightarrow> 0 \<le> sum_where P f xs"
  by (induction xs) auto

lemma sum_where_cong [rows]:
  "(\<And>x. x \<in> set xs \<Longrightarrow> P x = Q x) \<Longrightarrow> (\<And>x. x \<in> set xs \<Longrightarrow> P x \<Longrightarrow> f x = g x) \<Longrightarrow>
   sum_where P f xs = sum_where Q g xs"
  by (induction xs) auto

lemma find_Some_prop [rows]: "find P xs = Some x \<Longrightarrow> P x \<and> x \<in> set xs"
  by (induction xs) (auto split: if_splits)

lemma find_None_all [rows]: "find P xs = None \<longleftrightarrow> (\<forall>x \<in> set xs. \<not> P x)"
  by (induction xs) auto

lemma find_append [rows]:
  "find P (xs @ ys) = (case find P xs of None \<Rightarrow> find P ys | Some x \<Rightarrow> Some x)"
  by (induction xs) auto

lemma find_upd_rows_same [rows]:
  "(\<And>x. P (f x) = P x) \<Longrightarrow>
   find P (upd_rows Q f xs) = map_option (\<lambda>x. if Q x then f x else x) (find P xs)"
  by (induction xs) auto

lemma distinct_map_find [rows]:
  "distinct (map k xs) \<Longrightarrow> x \<in> set xs \<Longrightarrow> find (\<lambda>y. k y = k x) xs = Some x"
  by (induction xs) (auto simp: image_iff)

lemma distinct_key: "distinct (map k xs) \<Longrightarrow> x \<in> set xs \<Longrightarrow> y \<in> set xs \<Longrightarrow> k x = k y \<Longrightarrow> x = y"
  by (auto simp: distinct_map dest: inj_onD)

text \<open>What holds on every branch of a handler holds of the handler.\<close>

lemma if_holds: "(b \<Longrightarrow> P x) \<Longrightarrow> (\<not> b \<Longrightarrow> P y) \<Longrightarrow> P (if b then x else y)"
  by simp

lemma option_holds: "(m = None \<Longrightarrow> P x) \<Longrightarrow> (\<And>a. m = Some a \<Longrightarrow> P (f a)) \<Longrightarrow> P (case m of None \<Rightarrow> x | Some a \<Rightarrow> f a)"
  by (cases m) simp_all

lemma prod_holds: "(\<And>a b. p = (a, b) \<Longrightarrow> P (f a b)) \<Longrightarrow> P (case p of (a, b) \<Rightarrow> f a b)"
  by (cases p) simp

lemma sum_holds: "(\<And>a. m = Inl a \<Longrightarrow> P (f a)) \<Longrightarrow> (\<And>b. m = Inr b \<Longrightarrow> P (g b)) \<Longrightarrow> P (case m of Inl a \<Rightarrow> f a | Inr b \<Rightarrow> g b)"
  by (cases m) simp_all

lemmas branches = if_holds option_holds prod_holds sum_holds

section \<open>Strings\<close>

text \<open>Go's \<open>strings\<close> functions the sources use, on byte strings.\<close>

definition has_prefix :: "string \<Rightarrow> string \<Rightarrow> bool" where
  "has_prefix s p \<longleftrightarrow> take (length p) s = p"

definition trim_prefix :: "string \<Rightarrow> string \<Rightarrow> string" where
  "trim_prefix s p = (if has_prefix s p then drop (length p) s else s)"

definition has_suffix :: "string \<Rightarrow> string \<Rightarrow> bool" where
  "has_suffix s p \<longleftrightarrow> has_prefix (rev s) (rev p)"

definition trim_suffix :: "string \<Rightarrow> string \<Rightarrow> string" where
  "trim_suffix s p = (if has_suffix s p then take (length s - length p) s else s)"

text \<open>\<open>strconv.Quote\<close> on printable ASCII.\<close>

definition go_quote :: "string \<Rightarrow> string" where
  "go_quote s = ''\"'' @ concat (map (\<lambda>c. if c = CHR 0x22 \<or> c = CHR 0x5C then [CHR 0x5C, c] else [c]) s) @ ''\"''"

text \<open>\<open>strings.ToLower\<close> and \<open>strings.EqualFold\<close> on ASCII text.\<close>

definition to_lower :: "string \<Rightarrow> string" where
  "to_lower s = map (\<lambda>c. let n = of_char c :: nat in if 65 \<le> n \<and> n \<le> 90 then char_of (n + 32) else c) s"

definition equal_fold :: "string \<Rightarrow> string \<Rightarrow> bool" where
  "equal_fold a b \<longleftrightarrow> to_lower a = to_lower b"

definition is_space :: "char \<Rightarrow> bool" where
  "is_space c \<longleftrightarrow> c \<in> {CHR '' '', CHR 0x09, CHR 0x0A, CHR 0x0B, CHR 0x0C, CHR 0x0D}"

definition trim_space :: "string \<Rightarrow> string" where
  "trim_space s = rev (dropWhile is_space (rev (dropWhile is_space s)))"

fun split_on :: "char \<Rightarrow> string \<Rightarrow> string list" where
  "split_on c [] = [[]]"
| "split_on c (x # xs) =
     (case split_on c xs of
        [] \<Rightarrow> [[x]]
      | w # ws \<Rightarrow> if x = c then [] # w # ws else (x # w) # ws)"

text \<open>\<open>strconv.Itoa\<close> and \<open>fmt\<close>'s \<open>%d\<close>: the decimal numeral of an integer.\<close>

fun show_nat :: "nat \<Rightarrow> string" where
  "show_nat n = (if n < 10 then [char_of (48 + n)] else show_nat (n div 10) @ [char_of (48 + n mod 10)])"

declare show_nat.simps [simp del]

definition show_int :: "int \<Rightarrow> string" where
  "show_int x = (if x < 0 then ''-'' @ show_nat (nat (- x)) else show_nat (nat x))"

fun join_with :: "string \<Rightarrow> string list \<Rightarrow> string" where
  "join_with sep [] = []"
| "join_with sep [s] = s"
| "join_with sep (s # t # ts) = s @ sep @ join_with sep (t # ts)"

text \<open>Reading a decimal numeral back.\<close>

definition read_dec :: "string \<Rightarrow> nat" where
  "read_dec s = foldl (\<lambda>a c. a * 10 + (of_char c - 48)) 0 s"

text \<open>\<open>strconv.ParseInt(s, 10, 64)\<close>: an optional sign and at least one digit, in range.\<close>

definition parse_int64 :: "string \<Rightarrow> int option" where
  "parse_int64 s =
     (let neg = (take 1 s = ''-''); ds = (if take 1 s = ''-'' \<or> take 1 s = ''+'' then drop 1 s else s);
          v = (if neg then - int (read_dec ds) else int (read_dec ds)) in
      if ds = [] \<or> \<not> list_all (\<lambda>c. 48 \<le> (of_char c :: nat) \<and> (of_char c :: nat) \<le> 57) ds \<or> \<not> in_i64 v
      then None else Some v)"

lemma read_dec_snoc: "read_dec (s @ [c]) = read_dec s * 10 + (of_char c - 48)"
  by (simp add: read_dec_def)

lemma read_show_nat [simp]: "read_dec (show_nat n) = n"
proof (induction n rule: show_nat.induct)
  case (1 n)
  show ?case
  proof (cases "n < 10")
    case True
    then show ?thesis by (subst show_nat.simps) (simp add: read_dec_def)
  next
    case False
    have "n mod 10 < 10" by simp
    with 1 False show ?thesis by (subst show_nat.simps) (simp add: read_dec_snoc)
  qed
qed

lemma show_nat_inject [simp]: "show_nat m = show_nat n \<longleftrightarrow> m = n"
  by (metis read_show_nat)

lemma show_nat_digits: "c \<in> set (show_nat n) \<Longrightarrow> 48 \<le> (of_char c :: nat) \<and> (of_char c :: nat) \<le> 57"
proof (induction n rule: show_nat.induct)
  case (1 n)
  have m: "n mod 10 < 10" by simp
  from 1 m show ?case by (subst (asm) (2) show_nat.simps) (auto split: if_splits)
qed

text \<open>
  \<open>base64.RawURLEncoding.DecodeString\<close>: the URL alphabet without padding; carriage returns and
  line feeds are skipped, any other foreign character or a dangling single digit is an error.
\<close>

definition b64_digit :: "char \<Rightarrow> nat option" where
  "b64_digit c =
     (let n = of_char c in
      if 65 \<le> n \<and> n \<le> 90 then Some (n - 65)
      else if 97 \<le> n \<and> n \<le> 122 then Some (n - 71)
      else if 48 \<le> n \<and> n \<le> 57 then Some (n + 4)
      else if n = 45 then Some 62
      else if n = 95 then Some 63
      else None)"

fun b64_groups :: "nat list \<Rightarrow> nat list option" where
  "b64_groups [] = Some []"
| "b64_groups [a] = None"
| "b64_groups [a, b] = Some [(a * 64 + b) div 16]"
| "b64_groups [a, b, c] =
     (let v = a * 4096 + b * 64 + c in Some [v div 1024, v div 4 mod 256])"
| "b64_groups (a # b # c # d # ds) =
     (let v = a * 262144 + b * 4096 + c * 64 + d in
      map_option (\<lambda>r. (v div 65536) # (v div 256 mod 256) # (v mod 256) # r) (b64_groups ds))"

definition b64_decode :: "string \<Rightarrow> nat list option" where
  "b64_decode s =
     (let ds = map b64_digit (filter (\<lambda>c. c \<noteq> CHR 0x0A \<and> c \<noteq> CHR 0x0D) s) in
      if None \<in> set ds then None else b64_groups (map the ds))"

end
