(* ===== verification/Ledger.thy ===== *)
theory Ledger
  imports Prelude
begin

text \<open>
  The double-entry ledger client of commerce-api
  (src/services/go/commerce-api/internal/ledger/ledger.go): the account ranges, the in-memory
  simulated ledger and the TigerBeetle-backed one. The TigerBeetle client library is a parameter of
  \<open>tb_ensure_account\<close> and \<open>tb_transfer\<close>. The locale \<open>ledger_contract\<close> is the Go interface
  \<open>Ledger\<close> with what its comments promise; the simulated ledger is shown to implement it.
\<close>

section \<open>Accounts and codes\<close>

definition LedgerID :: int where "LedgerID = 1"

definition CodeFare :: int where "CodeFare = 100"
definition CodeEnergy :: int where "CodeEnergy = 300"
definition CodeCarbon :: int where "CodeCarbon = 400"
definition CodeBilling :: int where "CodeBilling = 500"

definition OperatorRevenueAccount :: int where "OperatorRevenueAccount = 2001"
definition RiderFundingAccount :: int where "RiderFundingAccount = 2002"
definition EnergyTradeAccount :: int where "EnergyTradeAccount = 3001"
definition CarbonFundAccount :: int where "CarbonFundAccount = 4001"
definition CarbonIssuanceAccount :: int where "CarbonIssuanceAccount = 4002"

definition FirstBillingAccountID :: int where "FirstBillingAccountID = 5001"

definition isRiderWallet :: "int \<Rightarrow> bool" where
  "isRiderWallet a \<longleftrightarrow> a \<ge> 1001 \<and> a < 2000"

definition isBillingAccount :: "int \<Rightarrow> bool" where
  "isBillingAccount a \<longleftrightarrow> a \<ge> 5001 \<and> a < 6000"

lemmas account_defs = OperatorRevenueAccount_def RiderFundingAccount_def EnergyTradeAccount_def
  CarbonFundAccount_def CarbonIssuanceAccount_def FirstBillingAccountID_def
  isRiderWallet_def isBillingAccount_def

datatype ledger_error = InsufficientFunds int | LedgerFailure string

fun is_insufficient :: "ledger_error \<Rightarrow> bool" where
  "is_insufficient (InsufficientFunds _) = True"
| "is_insufficient (LedgerFailure _) = False"

type_synonym tid = "128 word"

text \<open>
  \<open>DeterministicTransferID\<close>: the digest function is the argument \<open>hash16\<close> (the first 16 bytes of
  SHA-256 as a 128-bit number), applied to the namespaced key. Every fact below holds for any
  digest function.
\<close>

definition DeterministicTransferID :: "(string \<Rightarrow> tid) \<Rightarrow> string \<Rightarrow> tid" where
  "DeterministicTransferID hash16 idempotencyKey = hash16 (''h2fleet:tb-transfer:'' @ idempotencyKey)"

type_synonym 'l transfer_fn =
  "tid \<Rightarrow> int \<Rightarrow> int \<Rightarrow> int \<Rightarrow> int \<Rightarrow> 'l \<Rightarrow> (ledger_error + string) \<times> 'l"

section \<open>The simulated ledger\<close>

record simulated =
  balances :: "int \<rightharpoonup> int"
  transfers :: "tid \<rightharpoonup> string"

definition newSimulated :: simulated where
  "newSimulated = \<lparr>balances = Map.empty, transfers = Map.empty\<rparr>"

definition ensure :: "int \<Rightarrow> (int \<rightharpoonup> int) \<Rightarrow> (int \<rightharpoonup> int)" where
  "ensure a b = (case b a of None \<Rightarrow> b(a \<mapsto> 0) | Some _ \<Rightarrow> b)"

definition bal_of :: "(int \<rightharpoonup> int) \<Rightarrow> int \<Rightarrow> int" where
  "bal_of b a = (case b a of None \<Rightarrow> 0 | Some v \<Rightarrow> v)"

definition sim_EnsureAccount :: "int \<Rightarrow> int \<Rightarrow> simulated \<Rightarrow> simulated" where
  "sim_EnsureAccount a code s = s\<lparr>balances := ensure a (balances s)\<rparr>"

text \<open>\<open>show_id\<close> is \<open>Uint128.String\<close> of the TigerBeetle types package.\<close>

definition sim_Transfer :: "(tid \<Rightarrow> string) \<Rightarrow> simulated transfer_fn" where
  "sim_Transfer show_id tid debit credit amount code s =
     (let hexID = show_id tid in
      case transfers s tid of
        Some existing \<Rightarrow> (Inr existing, s)
      | None \<Rightarrow>
          (let b = ensure credit (ensure debit (balances s)) in
           if i64 (bal_of b debit - i64 amount) < 0
           then (Inl (InsufficientFunds debit), s\<lparr>balances := b\<rparr>)
           else
             (let b1 = b(debit \<mapsto> i64 (bal_of b debit - i64 amount));
                  b2 = b1(credit \<mapsto> i64 (bal_of b1 credit + i64 amount))
              in (Inr hexID, s\<lparr>balances := b2, transfers := (transfers s)(tid \<mapsto> hexID)\<rparr>))))"

section \<open>The TigerBeetle ledger\<close>

record tb_account =
  acc_id :: int
  acc_ledger :: int
  acc_code :: int
  debits_must_not_exceed_credits :: bool

record tb_transfer_req =
  tr_id :: tid
  tr_debit :: int
  tr_credit :: int
  tr_amount :: int
  tr_ledger :: int
  tr_code :: int

datatype account_result = AccountExists | AccountOther string
datatype transfer_result = TransferExists | TransferExceedsCredits | TransferOther string

type_synonym 'c create_accounts = "tb_account list \<Rightarrow> 'c \<Rightarrow> (string + account_result list) \<times> 'c"
type_synonym 'c create_transfers = "tb_transfer_req list \<Rightarrow> 'c \<Rightarrow> (string + transfer_result list) \<times> 'c"

fun account_results :: "account_result list \<Rightarrow> string option" where
  "account_results [] = None"
| "account_results (AccountExists # rs) = account_results rs"
| "account_results (AccountOther m # rs) = Some m"

definition overdraft_protected :: "int \<Rightarrow> bool" where
  "overdraft_protected a \<longleftrightarrow> isRiderWallet a \<or> isBillingAccount a \<or> a = EnergyTradeAccount"

definition tb_EnsureAccount ::
  "'c create_accounts \<Rightarrow> int \<Rightarrow> int \<Rightarrow> 'c \<Rightarrow> string option \<times> 'c" where
  "tb_EnsureAccount create_accounts a code c =
     (case create_accounts
        [\<lparr>acc_id = a, acc_ledger = LedgerID, acc_code = code,
          debits_must_not_exceed_credits = overdraft_protected a\<rparr>] c of
        (Inl e, c') \<Rightarrow> (Some e, c')
      | (Inr rs, c') \<Rightarrow> (account_results rs, c'))"

fun transfer_results :: "int \<Rightarrow> transfer_result list \<Rightarrow> ledger_error option" where
  "transfer_results debit [] = None"
| "transfer_results debit (TransferExists # rs) = transfer_results debit rs"
| "transfer_results debit (TransferExceedsCredits # rs) = Some (InsufficientFunds debit)"
| "transfer_results debit (TransferOther m # rs) = Some (LedgerFailure m)"

definition tb_Transfer ::
  "'c create_accounts \<Rightarrow> 'c create_transfers \<Rightarrow> (tid \<Rightarrow> string) \<Rightarrow> 'c transfer_fn" where
  "tb_Transfer create_accounts create_transfers show_id tid debit credit amount code c =
     (case tb_EnsureAccount create_accounts debit code c of
        (Some e, c1) \<Rightarrow> (Inl (LedgerFailure e), c1)
      | (None, c1) \<Rightarrow>
          (case tb_EnsureAccount create_accounts credit code c1 of
             (Some e, c2) \<Rightarrow> (Inl (LedgerFailure e), c2)
           | (None, c2) \<Rightarrow>
               (case create_transfers
                  [\<lparr>tr_id = tid, tr_debit = debit, tr_credit = credit, tr_amount = amount,
                    tr_ledger = LedgerID, tr_code = code\<rparr>] c2 of
                  (Inl e, c3) \<Rightarrow> (Inl (LedgerFailure e), c3)
                | (Inr rs, c3) \<Rightarrow>
                    (case transfer_results debit rs of
                       Some e \<Rightarrow> (Inl e, c3)
                     | None \<Rightarrow> (Inr (show_id tid), c3)))))"

text \<open>
  \<open>New\<close>: without an address the in-memory ledger needs the explicit opt-in; with one the platform
  accounts are bootstrapped in order and the first failure is returned.
\<close>

datatype 'c ledger_impl = SimLedger simulated | TBLedger 'c

definition bootstrap_accounts :: "(int \<times> int) list" where
  "bootstrap_accounts =
     [(OperatorRevenueAccount, CodeFare), (RiderFundingAccount, CodeFare),
      (EnergyTradeAccount, CodeEnergy), (CarbonFundAccount, CodeCarbon),
      (CarbonIssuanceAccount, CodeCarbon)]"

fun bootstrap :: "'c create_accounts \<Rightarrow> (int \<times> int) list \<Rightarrow> 'c \<Rightarrow> string option \<times> 'c" where
  "bootstrap create_accounts [] c = (None, c)"
| "bootstrap create_accounts ((a, code) # as) c =
     (case tb_EnsureAccount create_accounts a code c of
        (Some e, c') \<Rightarrow> (Some e, c')
      | (None, c') \<Rightarrow> bootstrap create_accounts as c')"

definition ledger_New ::
  "(string \<Rightarrow> string) \<Rightarrow> (string \<Rightarrow> string + 'c) \<Rightarrow> 'c create_accounts \<Rightarrow> string \<Rightarrow> string + 'c ledger_impl" where
  "ledger_New getenv new_client create_accounts addr =
     (if addr = [] then
        (if getenv ''H2_SIMULATED_LEDGER'' \<noteq> ''true'' then Inl ''TIGERBEETLE_ADDR is required''
         else Inr (SimLedger newSimulated))
      else
        (case new_client addr of
           Inl e \<Rightarrow> Inl e
         | Inr c \<Rightarrow>
             (case bootstrap create_accounts bootstrap_accounts c of
                (Some e, c') \<Rightarrow> Inl e
              | (None, c') \<Rightarrow> Inr (TBLedger c'))))"

section \<open>The ledger interface\<close>

text \<open>
  \<open>move d c a f\<close> is the double entry: \<open>a\<close> leaves \<open>d\<close> and arrives at \<open>c\<close>. An amount a handler
  passes on is a non-negative \<open>int64\<close> converted to \<open>uint64\<close>.
\<close>

definition move :: "int \<Rightarrow> int \<Rightarrow> int \<Rightarrow> (int \<Rightarrow> int) \<Rightarrow> int \<Rightarrow> int" where
  "move d c a f = (\<lambda>x. f x - (if x = d then a else 0) + (if x = c then a else 0))"

definition amount_ok :: "int \<Rightarrow> bool" where
  "amount_ok a \<longleftrightarrow> 0 \<le> a \<and> a < 2 ^ 63"

lemma move_sum [money]:
  assumes "finite A" and "d \<in> A" and "c \<in> A"
  shows "sum (move d c a f) A = sum f A"
proof -
  have "sum (move d c a f) A =
      sum f A - (\<Sum>x\<in>A. if x = d then a else 0) + (\<Sum>x\<in>A. if x = c then a else 0)"
    by (simp add: move_def sum.distrib sum_subtractf)
  with assms show ?thesis by simp
qed

lemma move_other [money]: "x \<noteq> d \<Longrightarrow> x \<noteq> c \<Longrightarrow> move d c a f x = f x"
  by (simp add: move_def)

lemma move_debit [money]: "d \<noteq> c \<Longrightarrow> move d c a f d = f d - a"
  by (simp add: move_def)

lemma move_credit [money]: "d \<noteq> c \<Longrightarrow> move d c a f c = f c + a"
  by (simp add: move_def)

locale ledger_contract =
  fixes transfer :: "'l transfer_fn"
    and bal :: "'l \<Rightarrow> int \<Rightarrow> int"
    and posted :: "'l \<Rightarrow> tid \<Rightarrow> bool"
    and inv :: "'l \<Rightarrow> bool"
  assumes transfer_inv: "inv l \<Longrightarrow> amount_ok a \<Longrightarrow> inv (snd (transfer t d c a k l))"
    and transfer_posts: "inv l \<Longrightarrow> amount_ok a \<Longrightarrow> \<not> posted l t \<Longrightarrow>
      transfer t d c a k l = (Inr h, l') \<Longrightarrow> bal l' = move d c a (bal l)"
    and transfer_replays: "posted l t \<Longrightarrow> \<exists>h. transfer t d c a k l = (Inr h, l)"
    and transfer_marks: "inv l \<Longrightarrow> amount_ok a \<Longrightarrow> transfer t d c a k l = (Inr h, l') \<Longrightarrow>
      posted l' u \<longleftrightarrow> posted l u \<or> u = t"
    and transfer_fails: "inv l \<Longrightarrow> amount_ok a \<Longrightarrow> transfer t d c a k l = (Inl e, l') \<Longrightarrow>
      bal l' = bal l \<and> posted l' = posted l"
    and no_overdraft: "inv l \<Longrightarrow> overdraft_protected x \<Longrightarrow> 0 \<le> bal l x"
begin

text \<open>What a client can rely on: retries are safe, a failure moves nothing, money is conserved.\<close>

lemma transfer_retry:
  assumes "inv l" and "amount_ok a" and "transfer t d c a k l = (Inr h, l')"
  shows "\<exists>h'. transfer t d2 c2 a2 k2 l' = (Inr h', l')"
proof -
  from transfer_marks [OF assms, of t] have "posted l' t" by simp
  then show ?thesis by (rule transfer_replays)
qed

lemma transfer_cases:
  assumes "inv l" and "amount_ok a" and "transfer t d c a k l = (res, l')"
  shows "bal l' = bal l \<or> (bal l' = move d c a (bal l) \<and> \<not> posted l t)"
proof (cases res)
  case (Inl e)
  with assms show ?thesis by (auto dest: transfer_fails)
next
  case (Inr h)
  show ?thesis
  proof (cases "posted l t")
    case True
    from transfer_replays [OF this, of d c a k] assms(3) show ?thesis by auto
  next
    case False
    with assms Inr have "bal l' = move d c a (bal l)"
      by (intro transfer_posts) auto
    with False show ?thesis by simp
  qed
qed

lemma transfer_conserves:
  assumes "inv l" and "amount_ok a" and "transfer t d c a k l = (res, l')"
    and "finite A" and "d \<in> A" and "c \<in> A"
  shows "sum (bal l') A = sum (bal l) A"
  using transfer_cases [OF assms(1-3)] move_sum [OF assms(4-6), of a "bal l"] by auto

lemma transfer_frame:
  assumes "inv l" and "amount_ok a" and "transfer t d c a k l = (res, l')" and "x \<noteq> d" and "x \<noteq> c"
  shows "bal l' x = bal l x"
  using transfer_cases [OF assms(1-3)] move_other [OF assms(4,5), of a "bal l"] by auto

end

section \<open>The simulated ledger implements the interface\<close>

definition sim_bal :: "simulated \<Rightarrow> int \<Rightarrow> int" where
  "sim_bal s = bal_of (balances s)"

definition sim_posted :: "simulated \<Rightarrow> tid \<Rightarrow> bool" where
  "sim_posted s t \<longleftrightarrow> transfers s t \<noteq> None"

text \<open>
  The invariant: finitely many accounts, none negative, and all money together fits \<open>int64\<close>, so
  that no single balance can overflow.
\<close>

definition sim_inv :: "simulated \<Rightarrow> bool" where
  "sim_inv s \<longleftrightarrow> finite (dom (balances s)) \<and> (\<forall>x. 0 \<le> sim_bal s x) \<and>
     sum (sim_bal s) (dom (balances s)) < 2 ^ 63"

lemma bal_of_ensure [simp]: "bal_of (ensure a b) = bal_of b"
  by (auto simp: ensure_def bal_of_def fun_eq_iff split: option.splits)

lemma dom_ensure [simp]: "dom (ensure a b) = insert a (dom b)"
  by (auto simp: ensure_def split: option.splits)

lemma bal_of_upd [simp]: "bal_of (b(x \<mapsto> v)) = (bal_of b)(x := v)"
  by (auto simp: bal_of_def fun_eq_iff)

lemma bal_of_notin: "x \<notin> dom b \<Longrightarrow> bal_of b x = 0"
  by (auto simp: bal_of_def domIff)

lemma sum_bal_insert: "finite A \<Longrightarrow> dom b \<subseteq> A \<Longrightarrow> sum (bal_of b) A = sum (bal_of b) (dom b)"
  by (rule sum.mono_neutral_right) (auto simp: bal_of_notin)

lemma sim_two_bounded:
  assumes "sim_inv s" and "d \<noteq> c"
  shows "sim_bal s d + sim_bal s c < 2 ^ 63"
proof -
  let ?A = "insert d (insert c (dom (balances s)))"
  have fin: "finite ?A" using assms by (simp add: sim_inv_def)
  have "sum (sim_bal s) {d, c} \<le> sum (sim_bal s) ?A"
    using assms fin by (intro sum_mono2) (auto simp: sim_inv_def)
  also have "\<dots> = sum (sim_bal s) (dom (balances s))"
    unfolding sim_bal_def using fin by (intro sum_bal_insert) auto
  finally show ?thesis using assms by (simp add: sim_inv_def)
qed

lemma sim_bounded:
  assumes "sim_inv s"
  shows "in_i64 (sim_bal s d)"
  using sim_two_bounded [OF assms, of d "d + 1"] assms
  by (auto simp: sim_inv_def in_i64_def dest: spec [of _ d] spec [of _ "d + 1"])

text \<open>Under the invariant the wrap-around never happens and a fresh transfer is a double entry.\<close>

lemma sim_Transfer_post:
  assumes inv: "sim_inv s" and a: "amount_ok a" and new: "transfers s t = None"
    and fund: "a \<le> sim_bal s d"
  shows "\<exists>s'. sim_Transfer sh t d c a k s = (Inr (sh t), s') \<and> sim_bal s' = move d c a (sim_bal s) \<and>
    dom (balances s') = insert d (insert c (dom (balances s))) \<and>
    transfers s' = (transfers s)(t \<mapsto> sh t)"
proof -
  from a have i64a: "i64 a = a" by (simp add: amount_ok_def i64_small)
  have d: "i64 (sim_bal s d - a) = sim_bal s d - a"
    using sim_bounded [OF inv, of d] a fund by (simp add: in_i64_def amount_ok_def)
  have c: "c \<noteq> d \<Longrightarrow> i64 (sim_bal s c + a) = sim_bal s c + a"
    using sim_two_bounded [OF inv, of d c] inv a fund
    by (auto simp: in_i64_def amount_ok_def sim_inv_def dest!: spec [of _ c])
  have dd: "i64 (sim_bal s d) = sim_bal s d"
    using sim_bounded [OF inv] by simp
  show ?thesis
    using new fund i64a d c dd
    by (auto simp: sim_Transfer_def Let_def sim_bal_def move_def fun_eq_iff)
qed

lemma sim_Transfer_short:
  assumes inv: "sim_inv s" and a: "amount_ok a" and new: "transfers s t = None"
    and short: "sim_bal s d < a"
  shows "\<exists>s'. sim_Transfer sh t d c a k s = (Inl (InsufficientFunds d), s') \<and> sim_bal s' = sim_bal s \<and>
    dom (balances s') = insert d (insert c (dom (balances s))) \<and> transfers s' = transfers s"
proof -
  from a have i64a: "i64 a = a" by (simp add: amount_ok_def i64_small)
  have d: "i64 (sim_bal s d - a) = sim_bal s d - a"
    using sim_bounded [OF inv, of d] inv a
    by (auto simp: in_i64_def amount_ok_def sim_inv_def dest!: spec [of _ d])
  show ?thesis
    using new short i64a d
    by (auto simp: sim_Transfer_def Let_def sim_bal_def fun_eq_iff)
qed

lemma sim_Transfer_replay:
  "transfers s t = Some h \<Longrightarrow> sim_Transfer sh t d c a k s = (Inr h, s)"
  by (simp add: sim_Transfer_def)

lemma sim_inv_grow:
  assumes "sim_inv s" and "sim_bal s' = sim_bal s" and "dom (balances s') = insert d (insert c (dom (balances s)))"
  shows "sim_inv s'"
proof -
  have "sum (sim_bal s') (dom (balances s')) = sum (bal_of (balances s)) (dom (balances s'))"
    using assms(2) by (simp add: sim_bal_def)
  also have "\<dots> = sum (bal_of (balances s)) (dom (balances s))"
    using assms by (intro sum_bal_insert) (auto simp: sim_inv_def)
  finally show ?thesis using assms by (simp add: sim_inv_def sim_bal_def)
qed

lemma sim_inv_move:
  assumes inv: "sim_inv s" and a: "0 \<le> a" "a \<le> sim_bal s d"
    and bal: "sim_bal s' = move d c a (sim_bal s)"
    and dom: "dom (balances s') = insert d (insert c (dom (balances s)))"
  shows "sim_inv s'"
proof -
  have fin: "finite (dom (balances s'))" using inv dom by (simp add: sim_inv_def)
  have "sum (sim_bal s') (dom (balances s')) = sum (sim_bal s) (dom (balances s'))"
    unfolding bal using dom fin by (intro move_sum) auto
  also have "\<dots> = sum (sim_bal s) (dom (balances s))"
    unfolding sim_bal_def using dom fin by (intro sum_bal_insert) auto
  finally have "sum (sim_bal s') (dom (balances s')) < 2 ^ 63" using inv by (simp add: sim_inv_def)
  moreover have "0 \<le> sim_bal s' x" for x
    using inv a by (simp add: bal move_def sim_inv_def add_nonneg_nonneg)
  ultimately show ?thesis using fin by (simp add: sim_inv_def)
qed

lemma sim_contract: "ledger_contract (sim_Transfer sh) sim_bal sim_posted sim_inv"
proof
  fix s t d c a k
  assume inv: "sim_inv s" and a: "amount_ok a"
  show "sim_inv (snd (sim_Transfer sh t d c a k s))"
  proof (cases "transfers s t")
    case (Some h)
    with inv show ?thesis by (simp add: sim_Transfer_replay)
  next
    case None
    show ?thesis
    proof (cases "a \<le> sim_bal s d")
      case True
      from sim_Transfer_post [OF inv a None True, of sh c k] obtain s' where
        s': "sim_Transfer sh t d c a k s = (Inr (sh t), s')" and
        bal: "sim_bal s' = move d c a (sim_bal s)" and
        dom: "dom (balances s') = insert d (insert c (dom (balances s)))" by blast
      from a have "0 \<le> a" by (simp add: amount_ok_def)
      from sim_inv_move [OF inv this True bal dom] s' show ?thesis by simp
    next
      case False
      then have "sim_bal s d < a" by simp
      from sim_Transfer_short [OF inv a None this, of sh c k] obtain s' where
        s': "sim_Transfer sh t d c a k s = (Inl (InsufficientFunds d), s')" and
        bal: "sim_bal s' = sim_bal s" and
        dom: "dom (balances s') = insert d (insert c (dom (balances s)))" by blast
      from sim_inv_grow [OF inv bal dom] s' show ?thesis by simp
    qed
  qed
next
  fix s t d c a k h s'
  assume inv: "sim_inv s" and a: "amount_ok a" and new: "\<not> sim_posted s t"
    and res: "sim_Transfer sh t d c a k s = (Inr h, s')"
  have none: "transfers s t = None" using new by (simp add: sim_posted_def)
  have "a \<le> sim_bal s d"
    using sim_Transfer_short [OF inv a none, of d sh c k] res by fastforce
  from sim_Transfer_post [OF inv a none this, of sh c k] res
  show "sim_bal s' = move d c a (sim_bal s)" by auto
next
  fix s t d c a k
  assume "sim_posted s t"
  then show "\<exists>h. sim_Transfer sh t d c a k s = (Inr h, s)"
    by (auto simp: sim_posted_def sim_Transfer_replay)
next
  fix s t d c a k h s' u
  assume inv: "sim_inv s" and a: "amount_ok a" and res: "sim_Transfer sh t d c a k s = (Inr h, s')"
  then show "sim_posted s' u \<longleftrightarrow> sim_posted s u \<or> u = t"
    by (auto simp: sim_Transfer_def sim_posted_def Let_def split: option.splits if_splits)
next
  fix s t d c a k e s'
  assume inv: "sim_inv s" and a: "amount_ok a" and res: "sim_Transfer sh t d c a k s = (Inl e, s')"
  then show "sim_bal s' = sim_bal s \<and> sim_posted s' = sim_posted s"
    by (auto simp: sim_Transfer_def sim_posted_def sim_bal_def Let_def split: option.splits if_splits)
next
  fix s x
  assume "sim_inv s" and "overdraft_protected x"
  then show "0 \<le> sim_bal s x" by (simp add: sim_inv_def)
qed

interpretation sim: ledger_contract "sim_Transfer sh" sim_bal sim_posted sim_inv for sh
  by (rule sim_contract)

text \<open>Every outcome of a transfer, in the order the code decides them.\<close>

lemma sim_Transfer_outcome:
  assumes inv: "sim_inv s" and a: "amount_ok a"
  shows "fst (sim_Transfer sh t d c a k s) =
    (case transfers s t of
       Some h \<Rightarrow> Inr h
     | None \<Rightarrow> if a \<le> sim_bal s d then Inr (sh t) else Inl (InsufficientFunds d))"
proof (cases "transfers s t")
  case None
  then show ?thesis
    using sim_Transfer_post [OF inv a None, of d sh c k] sim_Transfer_short [OF inv a None, of d sh c k]
    by (cases "a \<le> sim_bal s d") fastforce+
qed (simp add: sim_Transfer_replay)

section \<open>Runs of the simulated ledger\<close>

datatype sim_op = OpEnsure int int | OpTransfer tid int int int int

fun sim_step :: "(tid \<Rightarrow> string) \<Rightarrow> sim_op \<Rightarrow> simulated \<Rightarrow> simulated" where
  "sim_step sh (OpEnsure a k) s = sim_EnsureAccount a k s"
| "sim_step sh (OpTransfer t d c a k) s = snd (sim_Transfer sh t d c a k s)"

fun sim_run :: "(tid \<Rightarrow> string) \<Rightarrow> sim_op list \<Rightarrow> simulated \<Rightarrow> simulated" where
  "sim_run sh [] s = s"
| "sim_run sh (x # xs) s = sim_run sh xs (sim_step sh x s)"

fun op_ok :: "sim_op \<Rightarrow> bool" where
  "op_ok (OpEnsure a k) = True"
| "op_ok (OpTransfer t d c a k) = amount_ok a"

definition sim_total :: "simulated \<Rightarrow> int" where
  "sim_total s = sum (sim_bal s) (dom (balances s))"

lemma sim_dom_eq:
  "dom (balances (snd (sim_Transfer sh t d c a k s))) =
     (if transfers s t = None then insert d (insert c (dom (balances s))) else dom (balances s))"
proof (cases "transfers s t")
  case None
  define b where "b = ensure c (ensure d (balances s))"
  have b: "dom b = insert d (insert c (dom (balances s)))" by (auto simp only: b_def dom_ensure)
  show ?thesis
  proof (cases "i64 (bal_of b d - i64 a) < 0")
    case True
    then show ?thesis using None b
      by (simp add: sim_Transfer_def Let_def b_def [symmetric] del: bal_of_ensure)
  next
    case False
    have "insert c (insert d (insert d (insert c (dom (balances s))))) =
        insert d (insert c (dom (balances s)))" by auto
    with False show ?thesis using None b
      by (simp add: sim_Transfer_def Let_def b_def [symmetric] del: bal_of_ensure bal_of_upd)
  qed
qed (simp add: sim_Transfer_replay)

lemma sim_dom_Transfer: "dom (balances s) \<subseteq> dom (balances (snd (sim_Transfer sh t d c a k s)))"
  by (auto simp only: sim_dom_eq split: if_splits)

lemma sim_step_total:
  assumes inv: "sim_inv s" and ok: "op_ok x"
  shows "sim_inv (sim_step sh x s) \<and> sim_total (sim_step sh x s) = sim_total s"
proof (cases x)
  case (OpEnsure a k)
  have "sim_inv (sim_EnsureAccount a k s)"
    by (rule sim_inv_grow [OF inv, of _ a a]) (simp_all add: sim_EnsureAccount_def sim_bal_def)
  moreover have "sim_total (sim_EnsureAccount a k s) = sim_total s"
    using inv sum_bal_insert [of "insert a (dom (balances s))" "balances s"]
    by (auto simp: sim_total_def sim_EnsureAccount_def sim_bal_def sim_inv_def)
  ultimately show ?thesis using OpEnsure by simp
next
  case (OpTransfer t d c a k)
  let ?s' = "snd (sim_Transfer sh t d c a k s)"
  let ?A = "insert d (insert c (dom (balances ?s')))"
  from ok OpTransfer have a: "amount_ok a" by simp
  have inv': "sim_inv ?s'" by (rule sim.transfer_inv [OF inv a])
  have fin: "finite ?A" using inv' by (simp add: sim_inv_def)
  have "sum (sim_bal ?s') ?A = sum (sim_bal s) ?A"
    by (rule sim.transfer_conserves [OF inv a, of sh t d c k "fst (sim_Transfer sh t d c a k s)"])
      (use fin in auto)
  moreover have "sum (sim_bal ?s') ?A = sim_total ?s'"
    unfolding sim_total_def sim_bal_def using fin by (intro sum_bal_insert) auto
  moreover have "sum (sim_bal s) ?A = sim_total s"
    unfolding sim_total_def sim_bal_def using fin sim_dom_Transfer [of s sh t d c a k]
    by (intro sum_bal_insert) blast+
  ultimately show ?thesis using OpTransfer inv' by simp
qed

lemma sim_run_total:
  "sim_inv s \<Longrightarrow> list_all op_ok xs \<Longrightarrow> sim_inv (sim_run sh xs s) \<and> sim_total (sim_run sh xs s) = sim_total s"
proof (induction xs arbitrary: s)
  case (Cons x xs)
  then have step: "sim_inv (sim_step sh x s)" "sim_total (sim_step sh x s) = sim_total s"
    using sim_step_total [of s x sh] by auto
  from Cons.IH [OF step(1)] Cons.prems step(2) show ?case by simp
qed simp

lemma sim_inv_new: "sim_inv newSimulated"
  by (simp add: sim_inv_def newSimulated_def sim_bal_def bal_of_def)

lemma sum_zero_all_zero:
  fixes f :: "'a \<Rightarrow> int"
  assumes "finite A" and "\<And>x. 0 \<le> f x" and "sum f A = 0" and "x \<in> A"
  shows "f x = 0"
proof -
  have "(sum f A = 0) = (\<forall>x\<in>A. f x = 0)"
    using assms(1,2) by (intro sum_nonneg_eq_0_iff) auto
  with assms(3,4) show ?thesis by simp
qed

lemma sim_total_zero: "sim_inv s \<Longrightarrow> sim_total s = 0 \<Longrightarrow> sim_bal s x = 0"
proof (cases "x \<in> dom (balances s)")
  case True
  assume "sim_inv s" and "sim_total s = 0"
  with True show ?thesis
    using sum_zero_all_zero [of "dom (balances s)" "sim_bal s" x]
    by (simp add: sim_inv_def sim_total_def)
next
  case False
  then show ?thesis by (simp add: sim_bal_def bal_of_notin)
qed

text \<open>What an id once recorded promises of every later call: it stays recorded, and a call that
  repeats it is the identity.\<close>

fun op_id :: "sim_op \<Rightarrow> tid option" where
  "op_id (OpEnsure a k) = None"
| "op_id (OpTransfer t d c a k) = Some t"

lemma sim_Transfer_records:
  "sim_Transfer sh t d c a k s = (Inr h, s') \<Longrightarrow> transfers s' t = Some h"
  by (auto simp: sim_Transfer_def Let_def split: option.splits if_splits)

lemma sim_step_records: "transfers s t = Some h \<Longrightarrow> transfers (sim_step sh x s) t = Some h"
  by (cases x) (auto simp: sim_EnsureAccount_def sim_Transfer_def Let_def split: option.splits)

lemma sim_run_records: "transfers s t = Some h \<Longrightarrow> transfers (sim_run sh xs s) t = Some h"
  by (induction xs arbitrary: s) (auto intro: sim_step_records)

lemma sim_step_repeat: "transfers s t = Some h \<Longrightarrow> op_id x = Some t \<Longrightarrow> sim_step sh x s = s"
  by (cases x) (auto simp: sim_Transfer_replay)

lemma sim_run_skips:
  "transfers s t = Some h \<Longrightarrow> sim_run sh xs s = sim_run sh (filter (\<lambda>x. op_id x \<noteq> Some t) xs) s"
proof (induction xs arbitrary: s)
  case (Cons x xs)
  then show ?case
    using sim_step_records [OF Cons.prems, of sh x] sim_step_repeat [OF Cons.prems, of x sh]
    by (cases "op_id x = Some t") auto
qed simp

section \<open>Properties\<close>

text \<open>
  C4. The simulated ledger keeps its books: for every sequence of \<open>EnsureAccount\<close> and
  \<open>Transfer\<close> calls with \<open>int64\<close>-sized amounts, from any state whose balances are non-negative and
  fit \<open>int64\<close> together, no account is ever negative and the sum of all balances never changes.
\<close>

theorem sim_ledger_conserves_money:
  assumes "sim_inv s" and "list_all op_ok ops"
  shows "sim_total (sim_run sh ops s) = sim_total s \<and> (\<forall>x. 0 \<le> sim_bal (sim_run sh ops s) x)"
  using sim_run_total [OF assms, of sh] by (simp add: sim_inv_def)

theorem sim_ledger_conserves_money_witness:
  "sim_total (sim_run (\<lambda>_. ''id'') [OpTransfer 7 1001 2001 300 100, OpTransfer 8 1001 2001 900 100]
       \<lparr>balances = [1001 \<mapsto> 500], transfers = Map.empty\<rparr>) =
     sim_total \<lparr>balances = [1001 \<mapsto> 500], transfers = Map.empty\<rparr> \<and>
   (\<forall>x. 0 \<le> sim_bal (sim_run (\<lambda>_. ''id'') [OpTransfer 7 1001 2001 300 100, OpTransfer 8 1001 2001 900 100]
       \<lparr>balances = [1001 \<mapsto> 500], transfers = Map.empty\<rparr>) x)"
proof -
  have "sim_inv \<lparr>balances = [1001 \<mapsto> 500], transfers = Map.empty\<rparr>"
    by (auto simp: sim_inv_def sim_bal_def bal_of_def)
  then show ?thesis
    by (rule sim_ledger_conserves_money) (simp add: amount_ok_def)
qed

text \<open>
  C5. A transfer id is posted at most once: after a successful \<open>Transfer\<close> under an id on the
  simulated ledger, and after any further sequence of \<open>EnsureAccount\<close> and \<open>Transfer\<close> calls, a call
  with that id returns the transfer id first recorded and changes nothing; the calls of the
  sequence that repeat the id could as well not have been made; and the first call moved exactly
  its amount when the id was new. The starting state has non-negative balances that fit \<open>int64\<close>
  together (\<open>sim_inv\<close>) and the first amount is non-negative and fits \<open>int64\<close> (\<open>amount_ok\<close>); the
  later calls are arbitrary. The interface comment promises success for a repeat with identical
  parameters; the in-memory ledger does not compare them, so the same holds for a repeat with
  other accounts or another amount (\<open>d2\<close>, \<open>c2\<close>, \<open>a2\<close>), whose amount is then never moved.
\<close>

theorem sim_transfer_at_most_once:
  assumes "sim_inv s" and "amount_ok a" and "sim_Transfer sh t d c a k s = (Inr h, s')"
  shows "sim_Transfer sh t d2 c2 a2 k2 (sim_run sh ops s') = (Inr h, sim_run sh ops s') \<and>
    sim_run sh ops s' = sim_run sh (filter (\<lambda>x. op_id x \<noteq> Some t) ops) s' \<and>
    sim_bal s' = (if sim_posted s t then sim_bal s else move d c a (sim_bal s))"
proof -
  have rec: "transfers s' t = Some h" by (rule sim_Transfer_records [OF assms(3)])
  have "sim_bal s' = (if sim_posted s t then sim_bal s else move d c a (sim_bal s))"
  proof (cases "sim_posted s t")
    case True
    with assms(3) show ?thesis by (auto simp: sim_posted_def sim_Transfer_replay)
  next
    case False
    with sim.transfer_posts [OF assms(1,2) False assms(3)] show ?thesis by simp
  qed
  with sim_run_records [OF rec] sim_run_skips [OF rec] show ?thesis
    by (auto intro: sim_Transfer_replay)
qed

theorem sim_transfer_at_most_once_witness:
  "sim_Transfer (\<lambda>_. ''id'') 7 1002 2002 999 100
      (sim_run (\<lambda>_. ''id'') [OpTransfer 8 1001 2001 100 100, OpTransfer 7 1001 2001 300 100]
        (snd (sim_Transfer (\<lambda>_. ''id'') 7 1001 2001 300 100 \<lparr>balances = [1001 \<mapsto> 500], transfers = Map.empty\<rparr>))) =
    (Inr ''id'', sim_run (\<lambda>_. ''id'') [OpTransfer 8 1001 2001 100 100]
        (snd (sim_Transfer (\<lambda>_. ''id'') 7 1001 2001 300 100 \<lparr>balances = [1001 \<mapsto> 500], transfers = Map.empty\<rparr>)))"
proof -
  let ?s = "\<lparr>balances = [1001 \<mapsto> 500], transfers = Map.empty\<rparr>"
  let ?s' = "snd (sim_Transfer (\<lambda>_. ''id'') 7 1001 2001 300 100 ?s)"
  let ?ops = "[OpTransfer 8 1001 2001 100 100, OpTransfer 7 1001 2001 300 100]"
  have inv: "sim_inv ?s" by (auto simp: sim_inv_def sim_bal_def bal_of_def)
  have ok: "amount_ok 300" by (simp add: amount_ok_def)
  have "sim_bal ?s 1001 = 500" by (simp add: sim_bal_def bal_of_def)
  then have "fst (sim_Transfer (\<lambda>_. ''id'') 7 1001 2001 300 100 ?s) = Inr ''id''"
    by (simp add: sim_Transfer_outcome [OF inv ok])
  then have res: "sim_Transfer (\<lambda>_. ''id'') 7 1001 2001 300 100 ?s = (Inr ''id'', ?s')"
    by (metis prod.collapse)
  have "filter (\<lambda>x. op_id x \<noteq> Some 7) ?ops = [OpTransfer 8 1001 2001 100 100]" by simp
  with sim_transfer_at_most_once [OF inv ok res, of 1002 2002 999 100 ?ops] show ?thesis by metis
qed

text \<open>
  The in-memory ledger the dev opt-in starts (\<open>newSimulated\<close>) can never be funded: every
  account starts at 0, the overdraft check also covers the platform's own funding account, and so
  after any calls every balance is still 0 and a fresh transfer of a positive amount is refused,
  for every pair of accounts including the funding account the top-up endpoint debits.
\<close>

theorem simulated_ledger_cannot_be_funded:
  assumes "list_all op_ok ops" and "amount_ok a" and "0 < a"
    and "\<not> sim_posted (sim_run sh ops newSimulated) t"
  shows "(\<forall>x. sim_bal (sim_run sh ops newSimulated) x = 0) \<and>
    fst (sim_Transfer sh t d c a k (sim_run sh ops newSimulated)) = Inl (InsufficientFunds d)"
proof -
  have inv: "sim_inv (sim_run sh ops newSimulated)" and "sim_total (sim_run sh ops newSimulated) = 0"
    using sim_run_total [OF sim_inv_new assms(1), of sh]
    by (auto simp: sim_total_def newSimulated_def)
  then have zero: "sim_bal (sim_run sh ops newSimulated) x = 0" for x
    by (rule sim_total_zero)
  show ?thesis
    using zero assms sim_Transfer_outcome [OF inv assms(2), of sh t d c k]
    by (simp add: sim_posted_def)
qed

theorem simulated_ledger_cannot_be_funded_witness:
  "(\<forall>x. sim_bal (sim_run (\<lambda>_. ''id'') [OpEnsure 1001 100] newSimulated) x = 0) \<and>
   fst (sim_Transfer (\<lambda>_. ''id'') 9 RiderFundingAccount 1001 1000 100
     (sim_run (\<lambda>_. ''id'') [OpEnsure 1001 100] newSimulated)) = Inl (InsufficientFunds RiderFundingAccount)"
  by (rule simulated_ledger_cannot_be_funded)
    (simp_all add: amount_ok_def sim_posted_def sim_EnsureAccount_def newSimulated_def)

end
