(* ===== verification/Auth.thy ===== *)
theory Auth
  imports Prelude
begin

text \<open>
  The shared JWT middleware (src/packages/go-auth/jwt.go): claims and roles, issuer and audience
  checks, the JWKS key cache, and the guards in front of every handler. The JWT library and the
  HTTP fetch of the key document are parameters (\<open>jwt_lib\<close>, \<open>fetch\<close>).
\<close>

section \<open>Claims and roles\<close>

type_synonym claims = "(string \<times> json) list"

text \<open>A request context carries the validated claims, if any.\<close>

type_synonym ctx = "claims option"

definition Subject :: "ctx \<Rightarrow> string" where
  "Subject c = (case c of
     None \<Rightarrow> []
   | Some cl \<Rightarrow> (case map_of cl ''sub'' of Some (JStr s) \<Rightarrow> s | _ \<Rightarrow> []))"

definition hasRole :: "ctx \<Rightarrow> string \<Rightarrow> bool" where
  "hasRole c role = (case c of
     None \<Rightarrow> False
   | Some cl \<Rightarrow> (case map_of cl ''realm_access'' of
       Some (JObj realm) \<Rightarrow> (case map_of realm ''roles'' of
         Some (JArr roles) \<Rightarrow> JStr role \<in> set roles
       | _ \<Rightarrow> False)
     | _ \<Rightarrow> False))"

definition HasAnyRole :: "ctx \<Rightarrow> string list \<Rightarrow> bool" where
  "HasAnyRole c roles \<longleftrightarrow> list_ex (hasRole c) roles"

section \<open>Configuration\<close>

definition defaultAltIssuer :: string where
  "defaultAltIssuer = ''http://localhost:8088/realms/h2fleet''"

record rsa_key =
  modulus :: nat
  exponent :: int

record jwks_key =
  kty :: string
  kid :: string
  key_use :: string
  key_alg :: string
  key_n :: string
  key_e :: string

record middleware =
  issuers :: "string list"
  audience :: string
  jwksURL :: string
  mkeys :: "string \<rightharpoonup> rsa_key"
  fetchedAt :: "int option"

fun add_issuers :: "string list \<Rightarrow> string list \<Rightarrow> string list" where
  "add_issuers [] acc = acc"
| "add_issuers (a # as) acc =
     (let a' = trim_suffix (trim_space a) ''/'' in
      if a' = [] then add_issuers as acc
      else if a' \<in> set acc then add_issuers as acc
      else add_issuers as (acc @ [a']))"

definition auth_New :: "(string \<Rightarrow> string) \<Rightarrow> string \<Rightarrow> middleware" where
  "auth_New getenv issuer0 =
     (let issuer = trim_suffix issuer0 ''/'';
          start = (if issuer \<noteq> [] then [issuer] else []);
          alt = (if getenv ''KEYCLOAK_ISSUER_ALT'' = [] then defaultAltIssuer else getenv ''KEYCLOAK_ISSUER_ALT'')
      in \<lparr>issuers = add_issuers (split_on (CHR '','') alt) start,
          audience = trim_space (getenv ''KEYCLOAK_AUDIENCE''),
          jwksURL = (if issuer \<noteq> [] then issuer @ ''/protocol/openid-connect/certs'' else []),
          mkeys = Map.empty,
          fetchedAt = None\<rparr>)"

section \<open>The key cache\<close>

text \<open>
  Times are nanoseconds; \<open>fetchedAt = None\<close> is Go's zero time, longer ago than any bound here.
  \<open>fetch\<close> is the HTTP GET with the JSON decoding of the document: an error text (transport, status
  or decoding), or the listed keys in order.
\<close>

definition since :: "int \<Rightarrow> int option \<Rightarrow> int option" where
  "since now t = map_option (\<lambda>t. now - t) t"

definition older_than :: "int \<Rightarrow> int \<Rightarrow> int option \<Rightarrow> bool" where
  "older_than bound now t = (case since now t of None \<Rightarrow> True | Some d \<Rightarrow> d > bound)"

definition younger_than :: "int \<Rightarrow> int \<Rightarrow> int option \<Rightarrow> bool" where
  "younger_than bound now t = (case since now t of None \<Rightarrow> False | Some d \<Rightarrow> d < bound)"

fun exponent_of :: "nat list \<Rightarrow> int \<Rightarrow> int" where
  "exponent_of [] e = e"
| "exponent_of (b # bs) e = exponent_of bs (i64 (i64 (e * 256) + int b))"

definition parseRSAPublicKey :: "string \<Rightarrow> string \<Rightarrow> string + rsa_key" where
  "parseRSAPublicKey nB64 eB64 =
     (case b64_decode nB64 of
        None \<Rightarrow> Inl ''illegal base64 data''
      | Some nBytes \<Rightarrow>
          (case b64_decode eB64 of
             None \<Rightarrow> Inl ''illegal base64 data''
           | Some eBytes \<Rightarrow>
               let e = exponent_of eBytes 0 in
               if e = 0 then Inl ''invalid exponent''
               else Inr \<lparr>modulus = foldl (\<lambda>n b. n * 256 + b) 0 nBytes, exponent = e\<rparr>))"

fun usable_keys :: "jwks_key list \<Rightarrow> (string \<times> rsa_key) list" where
  "usable_keys [] = []"
| "usable_keys (k # ks) =
     (if kty k \<noteq> ''RSA'' then usable_keys ks
      else case parseRSAPublicKey (key_n k) (key_e k) of
        Inl _ \<Rightarrow> usable_keys ks
      | Inr pub \<Rightarrow> (kid k, pub) # usable_keys ks)"

definition refreshJWKS ::
  "(string \<Rightarrow> string + jwks_key list) \<Rightarrow> int \<Rightarrow> middleware \<Rightarrow> string option \<times> middleware" where
  "refreshJWKS fetch now m =
     (if younger_than (10 * 10 ^ 9) now (fetchedAt m) then (None, m)
      else case fetch (jwksURL m) of
        Inl e \<Rightarrow> (Some e, m)
      | Inr ks \<Rightarrow>
          if usable_keys ks = []
          then (Some ''jwks document contained no usable RSA keys'', m)
          else (None, m\<lparr>mkeys := map_of (rev (usable_keys ks)), fetchedAt := Some now\<rparr>))"

definition publicKey ::
  "(string \<Rightarrow> string + jwks_key list) \<Rightarrow> int \<Rightarrow> string \<Rightarrow> middleware \<Rightarrow> (string + rsa_key) \<times> middleware" where
  "publicKey fetch now key_id m =
     (let cached = mkeys m key_id; stale = older_than (5 * 60 * 10 ^ 9) now (fetchedAt m) in
      case (cached, stale) of
        (Some key, False) \<Rightarrow> (Inr key, m)
      | _ \<Rightarrow>
          (case refreshJWKS fetch now m of
             (Some e, m') \<Rightarrow> (case cached of Some key \<Rightarrow> (Inr key, m') | None \<Rightarrow> (Inl e, m'))
           | (None, m') \<Rightarrow>
               (case mkeys m' key_id of Some key \<Rightarrow> (Inr key, m') | None \<Rightarrow> (Inl ''unknown kid'', m'))))"

section \<open>Verification and guards\<close>

text \<open>
  The JWT library: \<open>decode\<close> splits a token into the key id of its header, whether its method is
  RS256, and its claims; \<open>sig_ok\<close> checks the signature under a key and \<open>unexpired\<close> the required
  expiry claim.
\<close>

record jwt_lib =
  decode :: "string \<Rightarrow> (string \<times> bool \<times> claims) option"
  sig_ok :: "string \<Rightarrow> rsa_key \<Rightarrow> bool"
  unexpired :: "claims \<Rightarrow> int \<Rightarrow> bool"

definition audienceContains :: "json option \<Rightarrow> string \<Rightarrow> bool" where
  "audienceContains aud want = (case aud of
     Some (JStr s) \<Rightarrow> s = want
   | Some (JArr as) \<Rightarrow> JStr want \<in> set as
   | _ \<Rightarrow> False)"

definition acceptsIssuer :: "middleware \<Rightarrow> string \<Rightarrow> bool" where
  "acceptsIssuer m iss \<longleftrightarrow> trim_suffix iss ''/'' \<in> set (issuers m)"

definition verify ::
  "jwt_lib \<Rightarrow> (string \<Rightarrow> string + jwks_key list) \<Rightarrow> int \<Rightarrow> string \<Rightarrow> middleware \<Rightarrow>
   (string + claims) \<times> middleware" where
  "verify lib fetch now raw m =
     (case decode lib raw of
        None \<Rightarrow> (Inl ''token is malformed'', m)
      | Some (key_id, rs256, cl) \<Rightarrow>
          if \<not> rs256 then (Inl ''unexpected signing method'', m)
          else case publicKey fetch now key_id m of
            (Inl e, m') \<Rightarrow> (Inl e, m')
          | (Inr key, m') \<Rightarrow>
              if \<not> sig_ok lib raw key then (Inl ''signature is invalid'', m')
              else if \<not> unexpired lib cl now then (Inl ''token is expired'', m')
              else
                let iss = (case map_of cl ''iss'' of Some (JStr s) \<Rightarrow> s | _ \<Rightarrow> []) in
                if \<not> acceptsIssuer m' iss then (Inl ''unexpected issuer'', m')
                else if audience m' \<noteq> [] \<and> \<not> audienceContains (map_of cl ''aud'') (audience m')
                then (Inl ''token audience does not include the required one'', m')
                else (Inr cl, m'))"

definition bearerToken :: "string \<Rightarrow> string" where
  "bearerToken h = (if \<not> has_prefix h ''Bearer '' then [] else trim_space (trim_prefix h ''Bearer ''))"

text \<open>
  A guarded route: \<open>Inl\<close> is the status and message the middleware answers with, \<open>Inr\<close> the context
  the wrapped handler runs with.
\<close>

definition guard ::
  "jwt_lib \<Rightarrow> (string \<Rightarrow> string + jwks_key list) \<Rightarrow> int \<Rightarrow> string \<Rightarrow> middleware \<Rightarrow>
   ((nat \<times> string) + ctx) \<times> middleware" where
  "guard lib fetch now authorization m =
     (if jwksURL m = [] then (Inl (503, ''authentication not configured (KEYCLOAK_ISSUER unset)''), m)
      else
        let token = bearerToken authorization in
        if token = [] then (Inl (401, ''missing bearer token''), m)
        else case verify lib fetch now token m of
          (Inl e, m') \<Rightarrow> (Inl (401, ''invalid token''), m')
        | (Inr cl, m') \<Rightarrow> (Inr (Some cl), m'))"

definition RequireAnyRole ::
  "jwt_lib \<Rightarrow> (string \<Rightarrow> string + jwks_key list) \<Rightarrow> string list \<Rightarrow> int \<Rightarrow> string \<Rightarrow> middleware \<Rightarrow>
   ((nat \<times> string) + ctx) \<times> middleware" where
  "RequireAnyRole lib fetch roles now authorization m =
     (case guard lib fetch now authorization m of
        (Inl r, m') \<Rightarrow> (Inl r, m')
      | (Inr c, m') \<Rightarrow>
          if HasAnyRole c roles then (Inr c, m')
          else (Inl (403, ''missing required realm role (any of): '' @ join_with '', '' roles), m'))"

definition RequireRole ::
  "jwt_lib \<Rightarrow> (string \<Rightarrow> string + jwks_key list) \<Rightarrow> string \<Rightarrow> int \<Rightarrow> string \<Rightarrow> middleware \<Rightarrow>
   ((nat \<times> string) + ctx) \<times> middleware" where
  "RequireRole lib fetch role now authorization m =
     (case guard lib fetch now authorization m of
        (Inl r, m') \<Rightarrow> (Inl r, m')
      | (Inr c, m') \<Rightarrow>
          if hasRole c role then (Inr c, m')
          else (Inl (403, ''missing required realm role: '' @ role), m'))"

section \<open>What a passed guard guarantees\<close>

lemma refreshJWKS_keys:
  "refreshJWKS fetch now m = (r, m') \<Longrightarrow>
   issuers m' = issuers m \<and> audience m' = audience m \<and> jwksURL m' = jwksURL m \<and>
   (mkeys m' = mkeys m \<or>
    (\<exists>ks. fetch (jwksURL m) = Inr ks \<and> usable_keys ks \<noteq> [] \<and> mkeys m' = map_of (rev (usable_keys ks))))"
  by (auto simp: refreshJWKS_def split: if_splits sum.splits)

lemma publicKey_source:
  assumes "publicKey fetch now key_id m = (Inr key, m')"
  shows "issuers m' = issuers m \<and> audience m' = audience m \<and>
    (mkeys m key_id = Some key \<or>
     (\<exists>ks. fetch (jwksURL m) = Inr ks \<and> map_of (rev (usable_keys ks)) key_id = Some key))"
proof (cases "mkeys m key_id \<noteq> None \<and> \<not> older_than (5 * 60 * 10 ^ 9) now (fetchedAt m)")
  case True
  with assms show ?thesis by (auto simp: publicKey_def Let_def)
next
  case False
  obtain r m1 where ref: "refreshJWKS fetch now m = (r, m1)" by fastforce
  from refreshJWKS_keys [OF this] False assms ref show ?thesis
    by (auto simp: publicKey_def Let_def split: option.splits bool.splits prod.splits)
qed

lemma publicKey_failure:
  "publicKey fetch now key_id m = (Inl e, m') \<Longrightarrow> issuers m' = issuers m \<and> audience m' = audience m"
  by (auto simp: publicKey_def Let_def split: option.splits bool.splits prod.splits
      dest!: refreshJWKS_keys)

lemma verify_sound:
  assumes "verify lib fetch now raw m = (Inr cl, m')"
  shows "\<exists>key_id key. decode lib raw = Some (key_id, True, cl) \<and> sig_ok lib raw key \<and>
    unexpired lib cl now \<and>
    (mkeys m key_id = Some key \<or>
     (\<exists>ks. fetch (jwksURL m) = Inr ks \<and> map_of (rev (usable_keys ks)) key_id = Some key)) \<and>
    (\<exists>iss. (map_of cl ''iss'' = Some (JStr iss) \<or> iss = []) \<and> acceptsIssuer m iss) \<and>
    (audience m \<noteq> [] \<longrightarrow> audienceContains (map_of cl ''aud'') (audience m))"
proof -
  from assms obtain key_id where dec: "decode lib raw = Some (key_id, True, cl)"
    by (auto simp: verify_def Let_def split: option.splits if_splits prod.splits sum.splits)
  with assms obtain key where key: "publicKey fetch now key_id m = (Inr key, m')"
    and chk: "sig_ok lib raw key" "unexpired lib cl now"
      "acceptsIssuer m' (case map_of cl ''iss'' of Some (JStr s) \<Rightarrow> s | _ \<Rightarrow> [])"
      "audience m' \<noteq> [] \<longrightarrow> audienceContains (map_of cl ''aud'') (audience m')"
    by (auto simp: verify_def Let_def split: if_splits prod.splits sum.splits)
  from publicKey_source [OF key] have same: "issuers m' = issuers m" "audience m' = audience m"
    and src: "mkeys m key_id = Some key \<or>
      (\<exists>ks. fetch (jwksURL m) = Inr ks \<and> map_of (rev (usable_keys ks)) key_id = Some key)" by auto
  have "\<exists>iss. (map_of cl ''iss'' = Some (JStr iss) \<or> iss = []) \<and> acceptsIssuer m iss"
    using chk(3) same(1)
    by (intro exI [of _ "case map_of cl ''iss'' of Some (JStr s) \<Rightarrow> s | _ \<Rightarrow> []"])
      (auto simp: acceptsIssuer_def split: option.splits json.splits)
  with dec chk(1,2,4) src same show ?thesis by auto
qed

text \<open>
  C18. A handler behind \<open>RequireAnyRole\<close> runs only for a verified principal: the identity provider is
  configured, the bearer token is an unexpired RS256 token whose signature checks under a key that
  was cached or published by the configured key endpoint, its issuer (the empty text when the token
  names none) is accepted, its audience
  contains the required one when one is configured, and its claims carry one of the roles.
\<close>

theorem require_any_role_sound:
  assumes "RequireAnyRole lib fetch roles now authorization m = (Inr c, m')"
  shows "jwksURL m \<noteq> [] \<and> (\<exists>r \<in> set roles. hasRole c r) \<and>
    (\<exists>cl key_id key. c = Some cl \<and> decode lib (bearerToken authorization) = Some (key_id, True, cl) \<and>
      sig_ok lib (bearerToken authorization) key \<and> unexpired lib cl now \<and>
      (mkeys m key_id = Some key \<or>
       (\<exists>ks. fetch (jwksURL m) = Inr ks \<and> map_of (rev (usable_keys ks)) key_id = Some key)) \<and>
      (\<exists>iss. (map_of cl ''iss'' = Some (JStr iss) \<or> iss = []) \<and> acceptsIssuer m iss) \<and>
      (audience m \<noteq> [] \<longrightarrow> audienceContains (map_of cl ''aud'') (audience m)))"
proof -
  from assms have g: "guard lib fetch now authorization m = (Inr c, m')"
    and role: "HasAnyRole c roles"
    by (auto simp: RequireAnyRole_def split: prod.splits sum.splits if_splits)
  from g obtain cl where c: "c = Some cl" and url: "jwksURL m \<noteq> []"
    and v: "verify lib fetch now (bearerToken authorization) m = (Inr cl, m')"
    by (auto simp: guard_def Let_def split: prod.splits sum.splits if_splits)
  from role have "\<exists>r \<in> set roles. hasRole c r" by (simp add: HasAnyRole_def list_ex_iff)
  with url verify_sound [OF v] c show ?thesis by simp
qed

theorem require_any_role_sound_witness:
  "let cl = [(''sub'', JStr ''op-1''), (''iss'', JStr ''http://kc/realms/h2fleet''),
             (''realm_access'', JObj [(''roles'', JArr [JStr ''operator''])])];
       lib = \<lparr>decode = (\<lambda>_. Some (''k1'', True, cl)), sig_ok = (\<lambda>_ _. True), unexpired = (\<lambda>_ _. True)\<rparr>;
       m = \<lparr>issuers = [''http://kc/realms/h2fleet''], audience = [], jwksURL = ''http://kc/certs'',
            mkeys = [''k1'' \<mapsto> \<lparr>modulus = 33, exponent = 3\<rparr>], fetchedAt = Some 0\<rparr>
   in RequireAnyRole lib (\<lambda>_. Inl ''down'') [''operator''] 5 ''Bearer t'' m = (Inr (Some cl), m) \<and>
      (\<exists>r \<in> set [''operator'']. hasRole (Some cl) r)"
proof -
  let ?cl = "[(''sub'', JStr ''op-1''), (''iss'', JStr ''http://kc/realms/h2fleet''),
             (''realm_access'', JObj [(''roles'', JArr [JStr ''operator''])])]"
  let ?lib = "\<lparr>decode = (\<lambda>_. Some (''k1'', True, ?cl)), sig_ok = (\<lambda>_ _. True), unexpired = (\<lambda>_ _. True)\<rparr>"
  let ?m = "\<lparr>issuers = [''http://kc/realms/h2fleet''], audience = [], jwksURL = ''http://kc/certs'',
            mkeys = [''k1'' \<mapsto> \<lparr>modulus = 33, exponent = 3\<rparr>], fetchedAt = Some 0\<rparr>"
  have "RequireAnyRole ?lib (\<lambda>_. Inl ''down'') [''operator''] 5 ''Bearer t'' ?m = (Inr (Some ?cl), ?m)"
    by (simp add: RequireAnyRole_def guard_def verify_def publicKey_def older_than_def since_def
        bearerToken_def has_prefix_def trim_prefix_def trim_space_def is_space_def acceptsIssuer_def
        trim_suffix_def has_suffix_def HasAnyRole_def hasRole_def Let_def)
  with require_any_role_sound [OF this] show ?thesis by (simp add: Let_def)
qed

end
