(* ===== verification/Store.thy ===== *)
theory Store
  imports Ledger Auth
begin

text \<open>
  The state commerce-api works on: the rows of its Postgres tables (the schema is
  src/services/go/commerce-api/internal/handlers/common.go, \<open>EnsureSchema\<close>, with the Go structs that
  mirror them), the ledger behind the \<open>Ledger\<close> interface, and the events published so far. The
  environment of one request is a record too: configuration, the clock, generated ids, which
  database calls fail, and the third-party functions the handlers call.
\<close>

section \<open>Rows\<close>

record payment =
  p_id :: string
  p_rider_sub :: string
  p_amount_minor :: int
  p_charged_minor :: "int option"
  p_currency :: string
  p_mojaloop_transfer_id :: "string option"
  p_tb_transfer_id :: "string option"
  p_idempotency_key :: "string option"
  p_status :: string
  p_refunded_minor :: int
  p_created_at :: int

record rider_account =
  ra_rider_sub :: string
  ra_account_id :: int

record fare_product =
  fp_id :: string
  fp_code :: string
  fp_kind :: string
  fp_discount_pct :: "int option"
  fp_price_minor :: int
  fp_duration_days :: int
  fp_description :: string
  fp_active :: bool
  fp_created_at :: int

record entitlement =
  e_id :: string
  e_rider_sub :: string
  e_product_id :: string
  e_valid_from :: int
  e_valid_to :: int
  e_payer_account :: "string option"
  e_created_by :: string
  e_created_at :: int

record billing_account =
  ba_id :: string
  ba_name :: string
  ba_kind :: string
  ba_contact_email :: string
  ba_ledger_account_id :: int
  ba_status :: string
  ba_created_at :: int

record billing_charge =
  bc_id :: string
  bc_billing_account_id :: string
  bc_payment_id :: string
  bc_entitlement_id :: string
  bc_amount_minor :: int
  bc_invoice_id :: "string option"
  bc_created_at :: int

record invoice =
  inv_id :: string
  inv_billing_account_id :: string
  inv_period_start :: int
  inv_period_end :: int
  inv_amount_minor :: int
  inv_charge_count :: int
  inv_status :: string
  inv_tb_transfer_id :: "string option"
  inv_issued_at :: int
  inv_paid_at :: "int option"
  inv_created_at :: int

record loyalty_account =
  la_rider_sub :: string
  la_points :: int
  la_updated_at :: int

record loyalty_entry =
  le_id :: string
  le_rider_sub :: string
  le_delta :: int
  le_reason :: string
  le_ref_id :: string

record offer =
  o_id :: string
  o_title :: string
  o_description :: string
  o_partner :: string
  o_cost_points :: int
  o_active :: bool
  o_created_at :: int

record redemption =
  red_id :: string
  red_rider_sub :: string
  red_offer_id :: string
  red_points_spent :: int
  red_idempotency_key :: string
  red_status :: string
  red_created_at :: int

section \<open>The store of one deployment\<close>

record 'l store =
  fare_payments :: "payment list"
  rider_accounts :: "rider_account list"
  fare_products :: "fare_product list"
  rider_entitlements :: "entitlement list"
  billing_accounts :: "billing_account list"
  billing_charges :: "billing_charge list"
  invoices :: "invoice list"
  loyalty_accounts :: "loyalty_account list"
  loyalty_ledger :: "loyalty_entry list"
  marketplace_offers :: "offer list"
  loyalty_redemptions :: "redemption list"
  led :: 'l
  published :: "(string \<times> json) list"

definition empty_store :: "'l \<Rightarrow> 'l store" where
  "empty_store l =
     \<lparr>fare_payments = [], rider_accounts = [], fare_products = [], rider_entitlements = [],
      billing_accounts = [], billing_charges = [], invoices = [], loyalty_accounts = [],
      loyalty_ledger = [], marketplace_offers = [], loyalty_redemptions = [], led = l,
      published = []\<rparr>"

section \<open>The environment of a request\<close>

text \<open>
  \<open>fault op\<close>: the database call the code reports under \<open>op\<close> (the text it passes to
  \<open>h.internal\<close>) fails for a reason outside the model. \<open>pub_fault topic\<close>: publishing fails (the
  handlers log it and go on). \<open>raced n\<close>: the \<open>n\<close>-th attempt of a sequential account allocation loses
  the race on the unique index to another request. \<open>new_id n\<close> is the \<open>n\<close>-th generated uuid,
  \<open>day_start tz t\<close> Postgres' civic midnight at or before \<open>t\<close> in the zone \<open>tz\<close>. \<open>post\<close> is the ledger
  interface's \<open>Transfer\<close>, \<open>hash16\<close> the digest under transfer ids.
\<close>

record 'l env =
  getenv :: "string \<Rightarrow> string"
  fault :: "string \<Rightarrow> bool"
  pub_fault :: "string \<Rightarrow> bool"
  raced :: "nat \<Rightarrow> bool"
  new_id :: "nat \<Rightarrow> string"
  now :: int
  day_start :: "string \<Rightarrow> int \<Rightarrow> int"
  post :: "'l transfer_fn"
  hash16 :: "string \<Rightarrow> tid"

text \<open>Handlers that do not touch the ledger.\<close>

type_synonym db_env = "unit env"

definition publish :: "'l env \<Rightarrow> string \<Rightarrow> (string \<times> json) list \<Rightarrow> 'l store \<Rightarrow> 'l store" where
  "publish E topic payload s =
     (if pub_fault E topic then s else s\<lparr>published := published s @ [(topic, JObj payload)]\<rparr>)"

lemma publish_frame [simp]:
  "fare_payments (publish E t f s) = fare_payments s"
  "rider_accounts (publish E t f s) = rider_accounts s"
  "fare_products (publish E t f s) = fare_products s"
  "rider_entitlements (publish E t f s) = rider_entitlements s"
  "billing_accounts (publish E t f s) = billing_accounts s"
  "billing_charges (publish E t f s) = billing_charges s"
  "invoices (publish E t f s) = invoices s"
  "loyalty_accounts (publish E t f s) = loyalty_accounts s"
  "loyalty_ledger (publish E t f s) = loyalty_ledger s"
  "marketplace_offers (publish E t f s) = marketplace_offers s"
  "loyalty_redemptions (publish E t f s) = loyalty_redemptions s"
  "led (publish E t f s) = led s"
  by (simp_all add: publish_def)

definition opt_str :: "string option \<Rightarrow> json" where
  "opt_str x = (case x of None \<Rightarrow> JNull | Some s \<Rightarrow> JStr s)"

text \<open>\<open>ORDER BY k DESC LIMIT n\<close>: newest first; ties keep table order.\<close>

definition newest :: "('r \<Rightarrow> int) \<Rightarrow> nat \<Rightarrow> 'r list \<Rightarrow> 'r list" where
  "newest k n xs = take n (sort_key (\<lambda>x. - k x) xs)"

lemma newest_subset: "set (newest k n xs) \<subseteq> set xs"
  using set_take_subset [of n "sort_key (\<lambda>x. - k x) xs"] by (auto simp: newest_def)

lemma newest_sorted: "sorted (map (\<lambda>x. - k x) (newest k n xs))"
  unfolding newest_def
  using sorted_sort_key [of "\<lambda>x. - k x" xs] by (metis sorted_wrt_take take_map)

lemma newest_length: "length (newest k n xs) \<le> n"
  by (simp add: newest_def)

text \<open>An environment in which nothing fails, over a given ledger; the worked examples use it.\<close>

definition quiet_env :: "'l transfer_fn \<Rightarrow> 'l env" where
  "quiet_env tr = \<lparr>getenv = (\<lambda>_. []), fault = (\<lambda>_. False), pub_fault = (\<lambda>_. False), raced = (\<lambda>_. False),
     new_id = (\<lambda>n. ''id'' @ replicate n CHR ''x''), now = 1000, day_start = (\<lambda>_ t. t - t mod 1000), post = tr,
     hash16 = (\<lambda>k. of_nat (length k))\<rparr>"

lemma quiet_env_no_fault: "\<not> fault (quiet_env tr) op"
  by (simp add: quiet_env_def)

end
