(* ===== verification/Wallets.thy ===== *)
theory Wallets
  imports Store
begin

text \<open>
  Rider wallets: the persisted rider-to-account mapping (\<open>riderAccount\<close> in
  src/services/go/commerce-api/internal/handlers/payments.go) and the development top-up endpoint
  (handlers/wallets.go).
\<close>

section \<open>Account allocation\<close>

definition max_account :: "rider_account list \<Rightarrow> int" where
  "max_account ras = (if ras = [] then 1000 else Max (set (map ra_account_id ras)))"

text \<open>
  One attempt: \<open>INSERT ... SELECT COALESCE(MAX(account_id), 1000) + 1 ... ON CONFLICT (rider_sub) DO
  NOTHING\<close>, then the SELECT, then the commit. The loop makes at most three attempts and only retries
  after losing the race on \<open>account_id\<close>.
\<close>

definition allocate :: "string \<Rightarrow> rider_account list \<Rightarrow> rider_account list" where
  "allocate riderSub ras =
     (if \<exists>r \<in> set ras. ra_rider_sub r = riderSub then ras
      else ras @ [\<lparr>ra_rider_sub = riderSub, ra_account_id = max_account ras + 1\<rparr>])"

fun riderAccount_loop ::
  "'l env \<Rightarrow> string \<Rightarrow> nat \<Rightarrow> nat \<Rightarrow> 'l store \<Rightarrow> (string + int) \<times> 'l store" where
  "riderAccount_loop E riderSub attempt 0 s = (Inl ''allocate rider account'', s)"
| "riderAccount_loop E riderSub attempt (Suc left) s =
     (if fault E ''rider account: begin'' then (Inl ''begin'', s)
      else if fault E ''rider account: insert'' then (Inl ''insert'', s)
      else if raced E attempt \<and> \<not> (\<exists>r \<in> set (rider_accounts s). ra_rider_sub r = riderSub)
      then riderAccount_loop E riderSub (Suc attempt) left s
      else
        (let ras = allocate riderSub (rider_accounts s) in
         case find (\<lambda>r. ra_rider_sub r = riderSub) ras of
           None \<Rightarrow> (Inl ''select'', s)
         | Some r \<Rightarrow>
             if fault E ''rider account: select'' then (Inl ''select'', s)
             else if fault E ''rider account: commit'' then (Inl ''commit'', s)
             else (Inr (ra_account_id r), s\<lparr>rider_accounts := ras\<rparr>)))"

definition riderAccount :: "'l env \<Rightarrow> string \<Rightarrow> 'l store \<Rightarrow> (string + int) \<times> 'l store" where
  "riderAccount E riderSub s = riderAccount_loop E riderSub 0 3 s"

section \<open>Top-up\<close>

definition maxTopUpMinor :: int where "maxTopUpMinor = 1000000"

definition TopUpEnabled :: "(string \<Rightarrow> string) \<Rightarrow> bool" where
  "TopUpEnabled ge =
     (if ge ''WALLET_TOPUP_ENABLED'' \<noteq> [] then ge ''WALLET_TOPUP_ENABLED'' = ''true''
      else ge ''H2_SIMULATED_LEDGER'' = ''true'')"

text \<open>The body is \<open>None\<close> when it does not decode, otherwise its \<open>amount_minor\<close>, an \<open>int64\<close>.\<close>

definition TopUpWallet ::
  "'l env \<Rightarrow> ctx \<Rightarrow> string \<Rightarrow> int option \<Rightarrow> 'l store \<Rightarrow> (string \<times> int \<times> int \<times> string) resp \<times> 'l store" where
  "TopUpWallet E c idemKey body s =
     (if \<not> TopUpEnabled (getenv E) then (Err 404 ''wallet top-up is disabled'', s)
      else
        let sub = Subject c in
        if sub = [] then (Err 401 ''authenticated subject required'', s)
        else if idemKey = [] then (Err 400 ''Idempotency-Key header is required'', s)
        else case body of
          None \<Rightarrow> (Err 400 ''invalid JSON body'', s)
        | Some amount \<Rightarrow>
            if amount \<le> 0 \<or> amount > maxTopUpMinor
            then (Err 400 ''amount_minor must be between 1 and 1000000'', s)
            else case riderAccount E sub s of
              (Inl e, s1) \<Rightarrow> (Internal ''ensure rider ledger account'', s1)
            | (Inr account, s1) \<Rightarrow>
                (case post E (DeterministicTransferID (hash16 E) (''topup:'' @ idemKey))
                   RiderFundingAccount account (u64 amount) CodeFare (led s1) of
                   (Inl e, l) \<Rightarrow> (Internal ''top up wallet'', s1\<lparr>led := l\<rparr>)
                 | (Inr transferID, l) \<Rightarrow>
                     (Reply 201 (sub, account, amount, transferID), s1\<lparr>led := l\<rparr>)))"

section \<open>The allocation invariant\<close>

text \<open>Accounts are handed out one after the other from 1001, one per rider.\<close>

definition wallets_ok :: "rider_account list \<Rightarrow> bool" where
  "wallets_ok ras \<longleftrightarrow> distinct (map ra_rider_sub ras) \<and>
     map ra_account_id ras = map (\<lambda>i. 1001 + int i) [0..<length ras]"

lemma max_account_seq:
  assumes "map ra_account_id ras = map (\<lambda>i. 1001 + int i) [0..<length ras]"
  shows "max_account ras = 1000 + int (length ras)"
proof (cases "ras = []")
  case False
  have "set (map ra_account_id ras) = (\<lambda>i. 1001 + int i) ` {0..<length ras}"
    by (simp only: assms set_map set_upt)
  also have "Max \<dots> = 1001 + int (length ras - 1)"
    using False by (intro Max_eqI) auto
  finally show ?thesis using False by (simp add: max_account_def of_nat_diff Suc_leI)
qed (simp add: max_account_def)

lemma wallets_ok_allocate: "wallets_ok ras \<Longrightarrow> wallets_ok (allocate sub ras)"
  by (auto simp: wallets_ok_def allocate_def max_account_seq)

lemma allocate_find:
  "wallets_ok ras \<Longrightarrow>
   find (\<lambda>r. ra_rider_sub r = sub) (allocate sub ras) =
     (case find (\<lambda>r. ra_rider_sub r = sub) ras of
        Some r \<Rightarrow> Some r
      | None \<Rightarrow> Some \<lparr>ra_rider_sub = sub, ra_account_id = 1001 + int (length ras)\<rparr>)"
  by (auto simp: allocate_def find_append find_None_all wallets_ok_def max_account_seq
      split: option.splits dest: find_Some_prop)

lemma allocate_other:
  "sub' \<noteq> sub \<Longrightarrow> find (\<lambda>r. ra_rider_sub r = sub') (allocate sub ras) = find (\<lambda>r. ra_rider_sub r = sub') ras"
  by (auto simp: allocate_def find_append split: option.splits)

lemma riderAccount_loop_cases:
  "riderAccount_loop E sub n k s = (r, s') \<Longrightarrow>
   (\<exists>e. r = Inl e \<and> s' = s) \<or>
   (\<exists>ra. r = Inr (ra_account_id ra) \<and>
     find (\<lambda>r. ra_rider_sub r = sub) (allocate sub (rider_accounts s)) = Some ra \<and>
     s' = s\<lparr>rider_accounts := allocate sub (rider_accounts s)\<rparr>)"
  by (induction E sub n k s rule: riderAccount_loop.induct)
    (auto simp: Let_def split: if_splits option.splits)

lemma riderAccount_cases [consumes 1, case_names error account]:
  assumes "riderAccount E sub s = (r, s')"
  obtains (error) e where "r = Inl e" and "s' = s"
  | (account) ra where "r = Inr (ra_account_id ra)"
      and "find (\<lambda>r. ra_rider_sub r = sub) (allocate sub (rider_accounts s)) = Some ra"
      and "s' = s\<lparr>rider_accounts := allocate sub (rider_accounts s)\<rparr>"
  using riderAccount_loop_cases [of E sub 0 3 s r s'] assms that unfolding riderAccount_def by blast

text \<open>All a caller sees of the rest of the store is unchanged.\<close>

lemma riderAccount_frame:
  assumes "riderAccount E sub s = (r, s')"
  shows "\<exists>ras. s' = s\<lparr>rider_accounts := ras\<rparr>"
  using assms
proof (cases rule: riderAccount_cases)
  case (error e)
  then have "s' = s\<lparr>rider_accounts := rider_accounts s\<rparr>" by simp
  then show ?thesis ..
next
  case (account ra)
  then show ?thesis by blast
qed

lemma riderAccount_no_fault:
  assumes "\<not> raced E 0" and "\<And>op. op \<in> {''rider account: begin'', ''rider account: insert'',
      ''rider account: select'', ''rider account: commit''} \<Longrightarrow> \<not> fault E op"
    and "find (\<lambda>r. ra_rider_sub r = sub) (allocate sub (rider_accounts s)) = Some ra"
  shows "riderAccount E sub s =
    (Inr (ra_account_id ra), s\<lparr>rider_accounts := allocate sub (rider_accounts s)\<rparr>)"
  using assms by (simp add: riderAccount_def numeral_3_eq_3 Let_def)

section \<open>Properties\<close>

text \<open>
  Wallet allocation: a successful \<open>riderAccount\<close> keeps the mapping one-to-one and sequential,
  returns the account a known rider already had and the next free number from 1001 for a new one,
  and changes no other rider's account; an error changes nothing.
\<close>

theorem rider_account_allocation:
  assumes "wallets_ok (rider_accounts s)" and "riderAccount E sub s = (r, s')"
  shows "wallets_ok (rider_accounts s') \<and>
    (\<forall>other. other \<noteq> sub \<longrightarrow>
       find (\<lambda>x. ra_rider_sub x = other) (rider_accounts s') = find (\<lambda>x. ra_rider_sub x = other) (rider_accounts s)) \<and>
    (case r of
       Inl e \<Rightarrow> s' = s
     | Inr a \<Rightarrow> a = (case find (\<lambda>x. ra_rider_sub x = sub) (rider_accounts s) of
           Some ra \<Rightarrow> ra_account_id ra
         | None \<Rightarrow> 1001 + int (length (rider_accounts s))) \<and>
         (\<exists>ra. find (\<lambda>x. ra_rider_sub x = sub) (rider_accounts s') = Some ra \<and> ra_account_id ra = a))"
  using assms(2)
proof (cases rule: riderAccount_cases)
  case (error e)
  with assms(1) show ?thesis by simp
next
  case (account ra)
  with assms(1) allocate_find [OF assms(1), of sub] show ?thesis
    by (auto simp: wallets_ok_allocate allocate_other split: option.splits)
qed

theorem rider_account_allocation_witness:
  "wallets_ok (rider_accounts (snd (riderAccount (quiet_env (sim_Transfer (\<lambda>_. ''h''))) ''bob''
      ((empty_store newSimulated)\<lparr>rider_accounts := [\<lparr>ra_rider_sub = ''ann'', ra_account_id = 1001\<rparr>]\<rparr>))))"
proof -
  let ?s = "(empty_store newSimulated)\<lparr>rider_accounts := [\<lparr>ra_rider_sub = ''ann'', ra_account_id = 1001\<rparr>]\<rparr>"
  let ?E = "quiet_env (sim_Transfer (\<lambda>_. ''h''))"
  have "wallets_ok (rider_accounts ?s)" by (simp add: wallets_ok_def)
  from rider_account_allocation [OF this, of ?E "''bob''" "fst (riderAccount ?E ''bob'' ?s)"
      "snd (riderAccount ?E ''bob'' ?s)"]
  show ?thesis by simp
qed

text \<open>
  The allocation is not bounded by the wallet range \<open>1001..1999\<close>: with 1000 riders on file the
  next new rider is given account 2001, the operator revenue account, so that rider's fares would be
  transferred from operator revenue to itself.
\<close>

theorem rider_1001_gets_operator_revenue:
  assumes "wallets_ok (rider_accounts s)" and "length (rider_accounts s) = 1000"
    and "sub \<notin> set (map ra_rider_sub (rider_accounts s))" and "\<not> raced E 0" and "\<And>op. \<not> fault E op"
  shows "fst (riderAccount E sub s) = Inr OperatorRevenueAccount \<and> \<not> isRiderWallet OperatorRevenueAccount"
proof -
  have "find (\<lambda>r. ra_rider_sub r = sub) (rider_accounts s) = None"
    using assms(3) by (auto simp: find_None_all)
  with allocate_find [OF assms(1), of sub] assms(2)
  have "find (\<lambda>r. ra_rider_sub r = sub) (allocate sub (rider_accounts s)) =
      Some \<lparr>ra_rider_sub = sub, ra_account_id = 2001\<rparr>" by simp
  from riderAccount_no_fault [OF assms(4) _ this] assms(5) show ?thesis
    by (simp add: account_defs)
qed

theorem rider_1001_gets_operator_revenue_witness:
  "fst (riderAccount (quiet_env (sim_Transfer (\<lambda>_. ''h''))) ''new''
     ((empty_store newSimulated)\<lparr>rider_accounts :=
        map (\<lambda>i. \<lparr>ra_rider_sub = replicate i CHR ''a'', ra_account_id = 1001 + int i\<rparr>) [0..<1000]\<rparr>)) =
   Inr OperatorRevenueAccount \<and> \<not> isRiderWallet OperatorRevenueAccount"
proof (rule rider_1001_gets_operator_revenue)
  let ?ras = "map (\<lambda>i. \<lparr>ra_rider_sub = replicate i CHR ''a'', ra_account_id = 1001 + int i\<rparr>) [0..<1000]"
  have "inj_on (\<lambda>i. replicate i CHR ''a'') {0..<1000}"
    by (rule inj_onI) (metis length_replicate)
  then show "wallets_ok (rider_accounts ((empty_store newSimulated)\<lparr>rider_accounts := ?ras\<rparr>))"
    by (simp add: wallets_ok_def comp_def distinct_map)
  have "''new'' \<noteq> replicate i CHR ''a''" for i
    by (cases i) auto
  then show "''new'' \<notin> set (map ra_rider_sub (rider_accounts ((empty_store newSimulated)\<lparr>rider_accounts := ?ras\<rparr>)))"
    by auto
qed (simp_all add: quiet_env_def)

end
