(* ===== verification/Entitlements.thy ===== *)
theory Entitlements
  imports Store
begin

text \<open>
  Fare products and rider entitlements
  (src/services/go/commerce-api/internal/handlers/entitlements.go) and how a payment resolves them
  (\<open>resolveEntitlement\<close> in handlers/payments.go). Times are nanoseconds since the epoch.
\<close>

section \<open>Fare products\<close>

record product_request =
  pr_code :: string
  pr_kind :: string
  pr_discount_pct :: "int option"
  pr_price_minor :: int
  pr_duration_days :: int
  pr_description :: string

text \<open>The table's constraints: unique code, percentage in 0..100, \<open>integer\<close> columns.\<close>

definition product_insert_ok :: "product_request \<Rightarrow> 'l store \<Rightarrow> bool" where
  "product_insert_ok req s \<longleftrightarrow>
     pr_code req \<notin> set (map fp_code (fare_products s)) \<and>
     (case pr_discount_pct req of None \<Rightarrow> True | Some p \<Rightarrow> 0 \<le> p \<and> p \<le> 100) \<and>
     0 \<le> pr_price_minor req \<and> 0 < pr_duration_days req \<and> in_i32 (pr_duration_days req)"

definition CreateFareProduct ::
  "'l env \<Rightarrow> product_request option \<Rightarrow> 'l store \<Rightarrow> fare_product resp \<times> 'l store" where
  "CreateFareProduct E body s =
     (case body of
        None \<Rightarrow> (Err 400 ''body must include \"code\"'', s)
      | Some req \<Rightarrow>
          if pr_code req = [] then (Err 400 ''body must include \"code\"'', s)
          else if pr_kind req \<notin> {''pass'', ''free'', ''discount''}
          then (Err 400 ''kind must be pass, discount or free'', s)
          else if pr_kind req = ''discount'' \<and>
            (case pr_discount_pct req of None \<Rightarrow> True | Some p \<Rightarrow> p \<le> 0 \<or> p > 100)
          then (Err 400 ''discount products require 0 < discount_pct <= 100'', s)
          else if pr_duration_days req \<le> 0 then (Err 400 ''duration_days must be positive'', s)
          else if pr_price_minor req < 0 then (Err 400 ''price_minor must be >= 0'', s)
          else if fault E ''create fare product'' \<or> \<not> product_insert_ok req s
          then (Internal ''create fare product'', s)
          else
            let p = \<lparr>fp_id = new_id E 0, fp_code = pr_code req, fp_kind = pr_kind req,
                     fp_discount_pct = pr_discount_pct req, fp_price_minor = pr_price_minor req,
                     fp_duration_days = pr_duration_days req, fp_description = pr_description req,
                     fp_active = True, fp_created_at = now E\<rparr>
            in (Reply 201 p, s\<lparr>fare_products := fare_products s @ [p]\<rparr>))"

text \<open>\<open>ORDER BY code\<close> follows the database's collation, the key function \<open>collate\<close>.\<close>

definition ListFareProducts ::
  "'l env \<Rightarrow> (string \<Rightarrow> int) \<Rightarrow> string \<Rightarrow> 'l store \<Rightarrow> fare_product list resp" where
  "ListFareProducts E collate active s =
     (if fault E ''list fare products'' then Internal ''list fare products''
      else if fault E ''iterate fare products'' then Internal ''iterate fare products''
      else Reply 200 (sort_key (\<lambda>p. collate (fp_code p))
        (filter (\<lambda>p. active = ''true'' \<longrightarrow> fp_active p) (fare_products s))))"

section \<open>Granting and listing entitlements\<close>

record grant_request =
  gr_rider_sub :: string
  gr_product_id :: string
  gr_valid_from :: "int option"
  gr_valid_to :: "int option"
  gr_payer_account :: "string option"

definition day_ns :: int where "day_ns = 24 * 60 * 60 * 10 ^ 9"

text \<open>\<open>time.Duration(durationDays) * 24 * time.Hour\<close> is \<open>int64\<close> arithmetic in nanoseconds.\<close>

definition duration_of_days :: "int \<Rightarrow> int" where
  "duration_of_days d = i64 (d * day_ns)"

definition payer_check :: "'l env \<Rightarrow> string option \<Rightarrow> 'l store \<Rightarrow> entitlement resp option" where
  "payer_check E payer s =
     (case payer of
        None \<Rightarrow> None
      | Some acc \<Rightarrow>
          if fault E ''load billing account'' then Some (Internal ''load billing account'')
          else case find (\<lambda>b. ba_id b = acc) (billing_accounts s) of
            None \<Rightarrow> Some (Err 404 ''unknown payer_account'')
          | Some b \<Rightarrow>
              if ba_status b \<noteq> ''active''
              then Some (Err 422 (''payer_account billing account is '' @ ba_status b))
              else None)"

definition GrantEntitlement ::
  "'l env \<Rightarrow> ctx \<Rightarrow> grant_request option \<Rightarrow> 'l store \<Rightarrow> entitlement resp \<times> 'l store" where
  "GrantEntitlement E c body s =
     (case body of
        None \<Rightarrow> (Err 400 ''body must include \"rider_sub\" and \"product_id\"'', s)
      | Some req \<Rightarrow>
          if gr_rider_sub req = [] \<or> gr_product_id req = []
          then (Err 400 ''body must include \"rider_sub\" and \"product_id\"'', s)
          else if fault E ''load fare product'' then (Internal ''load fare product'', s)
          else case find (\<lambda>p. fp_id p = gr_product_id req \<and> fp_active p) (fare_products s) of
            None \<Rightarrow> (Err 404 ''unknown or inactive product_id'', s)
          | Some p \<Rightarrow>
              (case payer_check E (gr_payer_account req) s of
                 Some r \<Rightarrow> (r, s)
               | None \<Rightarrow>
                   let start = (case gr_valid_from req of Some t \<Rightarrow> t | None \<Rightarrow> now E);
                       finish = (case gr_valid_to req of Some t \<Rightarrow> t
                                 | None \<Rightarrow> start + duration_of_days (fp_duration_days p))
                   in if \<not> finish > start then (Err 400 ''valid_to must be after valid_from'', s)
                      else if fault E ''grant entitlement'' then (Internal ''grant entitlement'', s)
                      else
                        let e = \<lparr>e_id = new_id E 0, e_rider_sub = gr_rider_sub req,
                                 e_product_id = gr_product_id req, e_valid_from = start, e_valid_to = finish,
                                 e_payer_account = gr_payer_account req, e_created_by = Subject c,
                                 e_created_at = now E\<rparr>
                        in (Reply 201 e, s\<lparr>rider_entitlements := rider_entitlements s @ [e]\<rparr>)))"

definition is_operator :: "ctx \<Rightarrow> bool" where
  "is_operator c \<longleftrightarrow> HasAnyRole c [''operator'', ''platform-admin'']"

definition ListEntitlements :: "'l env \<Rightarrow> ctx \<Rightarrow> string \<Rightarrow> 'l store \<Rightarrow> entitlement list resp" where
  "ListEntitlements E c rider_q s =
     (let rider = (if is_operator c then rider_q else Subject c) in
      if fault E ''list entitlements'' then Internal ''list entitlements''
      else if fault E ''iterate entitlements'' then Internal ''iterate entitlements''
      else Reply 200 (newest e_valid_to 200
        (filter (\<lambda>e. rider \<noteq> [] \<longrightarrow> e_rider_sub e = rider) (rider_entitlements s))))"

section \<open>Resolving the best entitlement\<close>

text \<open>A row of the join: kind, percentage, product code, entitlement id, payer.\<close>

type_synonym ent_row = "string \<times> int \<times> string \<times> string \<times> string option"

definition entitlement_rows :: "int \<Rightarrow> string \<Rightarrow> 'l store \<Rightarrow> ent_row list" where
  "entitlement_rows t riderSub s =
     concat (map (\<lambda>e. map (\<lambda>p. (fp_kind p, case fp_discount_pct p of None \<Rightarrow> 0 | Some d \<Rightarrow> d,
                              fp_code p, e_id e, e_payer_account e))
                    (filter (\<lambda>p. fp_id p = e_product_id e \<and> fp_active p) (fare_products s)))
       (filter (\<lambda>e. e_rider_sub e = riderSub \<and> e_valid_from e \<le> t \<and> e_valid_to e > t)
          (rider_entitlements s)))"

text \<open>
  The loop: a covering row ends it, a larger discount replaces the best so far. The result says
  whether a covering row ended it, the best percentage and what was chosen.
\<close>

fun resolve_loop ::
  "ent_row list \<Rightarrow> int \<Rightarrow> string \<Rightarrow> string \<Rightarrow> string option \<Rightarrow> bool \<times> int \<times> string \<times> string \<times> string option" where
  "resolve_loop [] best code ent payer = (False, best, code, ent, payer)"
| "resolve_loop ((kind, pct, pcode, entID, py) # rows) best code ent payer =
     (if kind = ''free'' \<or> kind = ''pass'' then (True, best, pcode, entID, py)
      else if kind = ''discount'' \<and> pct > best then resolve_loop rows pct pcode entID py
      else resolve_loop rows best code ent payer)"

definition discounted :: "int \<Rightarrow> int \<Rightarrow> int" where
  "discounted amount pct = go_div (i64 (amount * (100 - pct))) 100"

definition resolveEntitlement ::
  "'l env \<Rightarrow> string \<Rightarrow> int \<Rightarrow> 'l store \<Rightarrow> string + (int \<times> string \<times> string \<times> string option)" where
  "resolveEntitlement E riderSub amount s =
     (if fault E ''resolve fare entitlement'' then Inl ''resolve fare entitlement''
      else case resolve_loop (entitlement_rows (now E) riderSub s) 0 [] [] None of
        (True, _, code, ent, payer) \<Rightarrow> Inr (0, code, ent, payer)
      | (False, best, code, ent, payer) \<Rightarrow>
          Inr (if best > 0 then discounted amount best else amount, code, ent, payer))"

section \<open>Correctness of the resolution\<close>

definition covers :: "string \<Rightarrow> bool" where
  "covers kind \<longleftrightarrow> kind = ''free'' \<or> kind = ''pass''"

text \<open>What a ride would cost under one row alone.\<close>

fun price_under :: "int \<Rightarrow> ent_row \<Rightarrow> int" where
  "price_under amount (kind, pct, code, ent, payer) =
     (if covers kind then 0
      else if kind = ''discount'' \<and> pct > 0 then discounted amount pct
      else amount)"

lemma resolve_loop_covered:
  "resolve_loop rows best code ent payer = (True, b, c, e, py) \<Longrightarrow>
   \<exists>kind pct. (kind, pct, c, e, py) \<in> set rows \<and> covers kind"
  by (induction rows best code ent payer rule: resolve_loop.induct)
    (auto simp: covers_def split: if_splits)

text \<open>A row that neither covers the ride nor discounts it by more than \<open>b\<close>.\<close>

fun beaten :: "int \<Rightarrow> ent_row \<Rightarrow> bool" where
  "beaten b (kind, pct, code, ent, payer) \<longleftrightarrow> \<not> covers kind \<and> (kind = ''discount'' \<longrightarrow> pct \<le> b)"

lemma beaten_mono: "beaten b row \<Longrightarrow> b \<le> b' \<Longrightarrow> beaten b' row"
  by (cases row) auto

lemma resolve_loop_best:
  "resolve_loop rows best code ent payer = (False, b, c, e, py) \<Longrightarrow>
   best \<le> b \<and> (\<forall>row \<in> set rows. beaten b row) \<and>
   ((b, c, e, py) = (best, code, ent, payer) \<or> best < b \<and> (''discount'', b, c, e, py) \<in> set rows)"
proof (induction rows best code ent payer rule: resolve_loop.induct)
  case (2 kind pct pcode entID py0 rows best code ent payer)
  from "2.prems" have nc: "\<not> covers kind" unfolding covers_def by (simp split: if_splits)
  show ?case
  proof (cases "kind = ''discount'' \<and> pct > best")
    case True
    with nc "2.prems" "2.IH"(1) have IH: "pct \<le> b \<and> (\<forall>row \<in> set rows. beaten b row) \<and>
      ((b, c, e, py) = (pct, pcode, entID, py0) \<or> pct < b \<and> (''discount'', b, c, e, py) \<in> set rows)"
      by (simp add: covers_def)
    then have "beaten b (kind, pct, pcode, entID, py0)" using nc by simp
    with IH True show ?thesis by force
  next
    case False
    from nc have nc': "\<not> (kind = ''free'' \<or> kind = ''pass'')" unfolding covers_def .
    from "2.prems" have "resolve_loop rows best code ent payer = (False, b, c, e, py)"
      unfolding resolve_loop.simps if_not_P [OF nc'] if_not_P [OF False] .
    note IH = "2.IH"(2) [OF nc' False this]
    have "beaten b (kind, pct, pcode, entID, py0)" using IH nc False by auto
    with IH show ?thesis by force
  qed
qed simp

lemma discounted_exact:
  assumes "0 \<le> amount" and "amount * 100 < 2 ^ 63" and "0 \<le> pct" and "pct \<le> 100"
  shows "discounted amount pct = amount * (100 - pct) div 100"
proof -
  have le: "amount * (100 - pct) \<le> amount * 100" using assms by (intro mult_left_mono) auto
  have pos: "0 \<le> amount * (100 - pct)" using assms by simp
  from le pos assms(2) have "i64 (amount * (100 - pct)) = amount * (100 - pct)"
    by (intro i64_small) auto
  with pos show ?thesis by (simp add: discounted_def go_div_nonneg)
qed

lemma discounted_mono:
  assumes "0 \<le> amount" and "amount * 100 < 2 ^ 63" and "0 \<le> p" and "p \<le> q" and "q \<le> 100"
  shows "discounted amount q \<le> discounted amount p"
proof -
  have "amount * (100 - q) \<le> amount * (100 - p)" using assms by (intro mult_left_mono) auto
  then show ?thesis using assms by (simp add: discounted_exact zdiv_mono1)
qed

lemma discounted_bounds:
  assumes "0 \<le> amount" and "amount * 100 < 2 ^ 63" and "0 \<le> p" and "p \<le> 100"
  shows "0 \<le> discounted amount p" and "discounted amount p \<le> amount"
proof -
  show "0 \<le> discounted amount p" using assms by (simp add: discounted_exact pos_imp_zdiv_nonneg_iff)
  have "amount * (100 - p) \<le> amount * 100" using assms by (intro mult_left_mono) auto
  then have "amount * (100 - p) div 100 \<le> amount * 100 div 100" by (rule zdiv_mono1) simp
  then show "discounted amount p \<le> amount" using assms by (simp add: discounted_exact)
qed

definition products_ok :: "'l store \<Rightarrow> bool" where
  "products_ok s \<longleftrightarrow> (\<forall>p \<in> set (fare_products s).
     case fp_discount_pct p of None \<Rightarrow> True | Some d \<Rightarrow> 0 \<le> d \<and> d \<le> 100)"

lemma entitlement_rows_pct:
  "products_ok s \<Longrightarrow> (kind, pct, c, e, py) \<in> set (entitlement_rows t sub s) \<Longrightarrow> 0 \<le> pct \<and> pct \<le> 100"
  by (auto simp: entitlement_rows_def products_ok_def split: option.splits)

lemma CreateFareProduct_products_ok:
  "products_ok s \<Longrightarrow> CreateFareProduct E body s = (r, s') \<Longrightarrow> products_ok s'"
  by (auto simp: CreateFareProduct_def products_ok_def product_insert_ok_def Let_def
      split: option.splits if_splits)

lemma resolve_entitlement_total:
  assumes "\<not> fault E ''resolve fare entitlement''"
  shows "\<exists>x. resolveEntitlement E sub amount s = Inr x"
proof -
  obtain cov b c e py where "resolve_loop (entitlement_rows (now E) sub s) 0 [] [] None = (cov, b, c, e, py)"
    by (metis prod.exhaust)
  with assms show ?thesis by (cases cov) (simp_all add: resolveEntitlement_def)
qed

text \<open>The charge lies between 0 and the fare.\<close>

lemma resolve_entitlement_bounds:
  assumes "products_ok s" and "0 \<le> amount" and "amount * 100 < 2 ^ 63"
    and "resolveEntitlement E sub amount s = Inr (charge, code, ent, payer)"
  shows "0 \<le> charge \<and> charge \<le> amount"
proof -
  let ?rows = "entitlement_rows (now E) sub s"
  obtain cov b c e py where loop: "resolve_loop ?rows 0 [] [] None = (cov, b, c, e, py)"
    by (metis prod.exhaust)
  show ?thesis
  proof (cases cov)
    case True
    with loop assms(2,4) show ?thesis by (auto simp: resolveEntitlement_def split: if_splits)
  next
    case False
    with resolve_loop_best [of ?rows 0 "[]" "[]" None b c e py] loop
    have "0 \<le> b" and "b = 0 \<or> (''discount'', b, c, e, py) \<in> set ?rows" by auto
    moreover from this(2) have "b \<le> 100" using entitlement_rows_pct [OF assms(1)] by auto
    ultimately show ?thesis
      using loop False assms(2,4) discounted_bounds [OF assms(2,3), of b]
      by (auto simp: resolveEntitlement_def split: if_splits)
  qed
qed

section \<open>Properties\<close>

text \<open>
  C17. The best entitlement wins: with the schema's percentages and a fare below \<open>2 ^ 63 / 100\<close>, the
  resolved charge lies between 0 and the fare, no active entitlement of the rider alone would make
  the ride cheaper, and the charge is the full fare with no product named or exactly the price under
  the returned product, entitlement and payer.
\<close>

theorem resolve_entitlement_best:
  assumes "products_ok s" and "0 \<le> amount" and "amount * 100 < 2 ^ 63"
    and "resolveEntitlement E sub amount s = Inr (charge, code, ent, payer)"
  shows "0 \<le> charge \<and> charge \<le> amount \<and>
    (\<forall>row \<in> set (entitlement_rows (now E) sub s). charge \<le> price_under amount row) \<and>
    (charge = amount \<and> code = [] \<and> ent = [] \<and> payer = None \<or>
     (\<exists>kind pct. (kind, pct, code, ent, payer) \<in> set (entitlement_rows (now E) sub s) \<and>
        charge = price_under amount (kind, pct, code, ent, payer)))"
proof -
  let ?rows = "entitlement_rows (now E) sub s"
  obtain cov b c e py where loop: "resolve_loop ?rows 0 [] [] None = (cov, b, c, e, py)"
    by (metis prod.exhaust)
  have pct: "0 \<le> pct \<and> pct \<le> 100" if "(kind, pct, c', e', py') \<in> set ?rows" for kind pct c' e' py'
    using entitlement_rows_pct [OF assms(1) that] .
  have price: "0 \<le> price_under amount row" if "row \<in> set ?rows" for row
  proof (cases row)
    case (fields kind q c' e' py')
    with that pct [of kind q] discounted_bounds [OF assms(2,3), of q] assms(2) show ?thesis by simp
  qed
  show ?thesis
  proof (cases cov)
    case True
    with loop assms(4) have "charge = 0" "code = c" "ent = e" "payer = py"
      by (auto simp: resolveEntitlement_def split: if_splits)
    moreover from loop True obtain kind pct where "(kind, pct, c, e, py) \<in> set ?rows" "covers kind"
      using resolve_loop_covered [of ?rows 0 "[]" "[]" None b c e py] by auto
    then have "(kind, pct, c, e, py) \<in> set ?rows \<and> 0 = price_under amount (kind, pct, c, e, py)" by simp
    ultimately show ?thesis using assms(2) price by blast
  next
    case False
    with loop assms(4) have res: "charge = (if b > 0 then discounted amount b else amount)"
      "code = c" "ent = e" "payer = py"
      by (auto simp: resolveEntitlement_def split: if_splits)
    from resolve_loop_best [of ?rows 0 "[]" "[]" None b c e py] loop False
    have b: "0 \<le> b" and rows: "\<forall>row \<in> set ?rows. beaten b row"
      and choice: "(b, c, e, py) = (0, [], [], None) \<or> 0 < b \<and> (''discount'', b, c, e, py) \<in> set ?rows"
      by simp_all
    have b100: "b \<le> 100" using choice pct by auto
    have le: "charge \<le> amount" and ge: "0 \<le> charge"
      using res discounted_bounds [OF assms(2,3) b b100] assms(2) by auto
    have cheap: "charge \<le> price_under amount row" if row: "row \<in> set ?rows" for row
    proof -
      obtain kind q c' e' py' where [simp]: "row = (kind, q, c', e', py')" by (cases row)
      have "beaten b row" using rows row by blast
      with row pct [of kind q] discounted_mono [OF assms(2,3), of q b] le res b100
      show ?thesis by auto
    qed
    show ?thesis using le ge cheap choice res by (auto simp: covers_def)
  qed
qed

definition demo_entitled_store :: "unit store" where
  "demo_entitled_store = (empty_store ())
     \<lparr>fare_products := [\<lparr>fp_id = ''p1'', fp_code = ''STUDENT'', fp_kind = ''discount'', fp_discount_pct = Some 25,
         fp_price_minor = 0, fp_duration_days = 30, fp_description = [], fp_active = True, fp_created_at = 0\<rparr>,
         \<lparr>fp_id = ''p2'', fp_code = ''SENIOR'', fp_kind = ''discount'', fp_discount_pct = Some 50,
         fp_price_minor = 0, fp_duration_days = 30, fp_description = [], fp_active = True, fp_created_at = 0\<rparr>],
      rider_entitlements := [\<lparr>e_id = ''e1'', e_rider_sub = ''ann'', e_product_id = ''p1'', e_valid_from = 0,
         e_valid_to = 5000, e_payer_account = None, e_created_by = ''op'', e_created_at = 0\<rparr>,
         \<lparr>e_id = ''e2'', e_rider_sub = ''ann'', e_product_id = ''p2'', e_valid_from = 0,
         e_valid_to = 5000, e_payer_account = None, e_created_by = ''op'', e_created_at = 0\<rparr>]\<rparr>"

theorem resolve_entitlement_best_witness:
  "resolveEntitlement (quiet_env (\<lambda>_ _ _ _ _ l. (Inr [], l))) ''ann'' 280 demo_entitled_store =
     Inr (140, ''SENIOR'', ''e2'', None) \<and>
   list_all (\<lambda>row. 140 \<le> price_under 280 row) (entitlement_rows 1000 ''ann'' demo_entitled_store)"
proof -
  let ?E = "quiet_env (\<lambda>_ _ _ _ _ l. (Inr [], l))"
  have ok: "products_ok demo_entitled_store" by (simp add: products_ok_def demo_entitled_store_def)
  have res: "resolveEntitlement ?E ''ann'' 280 demo_entitled_store = Inr (140, ''SENIOR'', ''e2'', None)"
    by (simp add: resolveEntitlement_def quiet_env_def demo_entitled_store_def entitlement_rows_def
        empty_store_def discounted_def i64_def go_div_def)
  have t: "now ?E = 1000" by (simp add: quiet_env_def)
  from resolve_entitlement_best [OF ok _ _ res]
  have "\<forall>row \<in> set (entitlement_rows 1000 ''ann'' demo_entitled_store). 140 \<le> price_under 280 row"
    unfolding t by simp
  with res show ?thesis by (simp add: list_all_iff)
qed

text \<open>
  Entitlements are private: a caller without the operator or platform-admin role who has a
  subject only ever lists their own entitlements, at most 200 of them, latest expiry first.
\<close>

theorem list_entitlements_own_only:
  assumes "\<not> is_operator c" and "Subject c \<noteq> []" and "ListEntitlements E c rider_q s = Reply n es"
  shows "(\<forall>e \<in> set es. e_rider_sub e = Subject c \<and> e \<in> set (rider_entitlements s)) \<and>
    length es \<le> 200 \<and> sorted (map (\<lambda>e. - e_valid_to e) es)"
proof -
  from assms have es: "es = newest e_valid_to 200
      (filter (\<lambda>e. Subject c \<noteq> [] \<longrightarrow> e_rider_sub e = Subject c) (rider_entitlements s))"
    by (simp add: ListEntitlements_def Let_def split: if_splits)
  have "e_rider_sub e = Subject c \<and> e \<in> set (rider_entitlements s)" if "e \<in> set es" for e
    using that subsetD [OF newest_subset] assms(2) unfolding es by fastforce
  moreover have "length es \<le> 200" unfolding es by (rule newest_length)
  moreover have "sorted (map (\<lambda>e. - e_valid_to e) es)" unfolding es by (rule newest_sorted)
  ultimately show ?thesis by blast
qed

theorem list_entitlements_own_only_witness:
  "\<exists>es. ListEntitlements (quiet_env (\<lambda>_ _ _ _ _ l. (Inr [], l))) (Some [(''sub'', JStr ''ann'')]) ''bob''
      demo_entitled_store = Reply 200 es \<and> (\<forall>e \<in> set es. e_rider_sub e = ''ann'')"
proof -
  let ?E = "quiet_env (\<lambda>_ _ _ _ _ l. (Inr [], l))" and ?c = "Some [(''sub'', JStr ''ann'')]"
  have op: "\<not> is_operator ?c" and sub: "Subject ?c = ''ann''"
    by (simp_all add: is_operator_def HasAnyRole_def hasRole_def Subject_def)
  obtain es where es: "ListEntitlements ?E ?c ''bob'' demo_entitled_store = Reply 200 es"
    by (simp add: ListEntitlements_def quiet_env_def Let_def)
  from list_entitlements_own_only [OF op _ es] sub es show ?thesis by auto
qed

end
