(* ===== verification/Loyalty.thy ===== *)
theory Loyalty
  imports Entitlements
begin

text \<open>
  Loyalty points and the rewards marketplace
  (src/services/go/commerce-api/internal/handlers/loyalty.go). The balance column is a Postgres
  \<open>integer\<close> with \<open>CHECK (points >= 0)\<close>; the audit ledger is unique in \<open>ref_id\<close>, redemptions in
  their idempotency key. A transaction that does not commit leaves the store as it was.
\<close>

section \<open>Balances\<close>

definition fresh_account :: "'l env \<Rightarrow> string \<Rightarrow> int \<Rightarrow> loyalty_account" where
  "fresh_account E sub pts = \<lparr>la_rider_sub = sub, la_points = pts, la_updated_at = now E\<rparr>"

text \<open>\<open>INSERT ... (rider_sub) ON CONFLICT DO NOTHING\<close>.\<close>

definition ensure_loyalty :: "'l env \<Rightarrow> string \<Rightarrow> loyalty_account list \<Rightarrow> loyalty_account list" where
  "ensure_loyalty E sub las =
     (if \<exists>a \<in> set las. la_rider_sub a = sub then las else las @ [fresh_account E sub 0])"

definition points_of :: "loyalty_account list \<Rightarrow> string \<Rightarrow> int" where
  "points_of las sub = (case find (\<lambda>a. la_rider_sub a = sub) las of None \<Rightarrow> 0 | Some a \<Rightarrow> la_points a)"

definition set_points :: "'l env \<Rightarrow> string \<Rightarrow> (int \<Rightarrow> int) \<Rightarrow> loyalty_account list \<Rightarrow> loyalty_account list" where
  "set_points E sub f las =
     upd_rows (\<lambda>a. la_rider_sub a = sub) (\<lambda>a. a\<lparr>la_points := f (la_points a), la_updated_at := now E\<rparr>) las"

definition GetLoyaltyBalance :: "'l env \<Rightarrow> ctx \<Rightarrow> 'l store \<Rightarrow> loyalty_account resp \<times> 'l store" where
  "GetLoyaltyBalance E c s =
     (let sub = Subject c in
      if sub = [] then (Err 401 ''authenticated subject required'', s)
      else if fault E ''loyalty balance'' then (Internal ''loyalty balance'', s)
      else let las = ensure_loyalty E sub (loyalty_accounts s) in
        case find (\<lambda>a. la_rider_sub a = sub) las of
          None \<Rightarrow> (Internal ''loyalty balance'', s)
        | Some a \<Rightarrow> (Reply 200 a, s\<lparr>loyalty_accounts := las\<rparr>))"

section \<open>Accrual and clawback\<close>

definition ledger_has :: "loyalty_entry list \<Rightarrow> string \<Rightarrow> bool" where
  "ledger_has es ref = (\<exists>e \<in> set es. le_ref_id e = ref)"

text \<open>
  The result is the error returned, if any. An \<open>integer\<close> column refuses a delta outside 32 bits, and
  the balance update one that leaves the range.
\<close>

definition accrueLoyaltyPoints ::
  "'l env \<Rightarrow> string \<Rightarrow> string \<Rightarrow> int \<Rightarrow> 'l store \<Rightarrow> string option \<times> 'l store" where
  "accrueLoyaltyPoints E paymentID riderSub amountMinor s =
     (let points = go_div amountMinor 100 in
      if points \<le> 0 \<or> riderSub = [] then (None, s)
      else if fault E ''accrue: begin'' then (Some ''begin'', s)
      else if fault E ''accrue: ledger insert'' \<or> \<not> in_i32 points then (Some ''ledger insert'', s)
      else if ledger_has (loyalty_ledger s) paymentID
      then (if fault E ''accrue: commit'' then Some ''commit'' else None, s)
      else if fault E ''accrue: balance'' \<or> \<not> in_i32 (points_of (loyalty_accounts s) riderSub + points)
      then (Some ''balance'', s)
      else if fault E ''accrue: commit'' then (Some ''commit'', s)
      else (None, s\<lparr>loyalty_ledger := loyalty_ledger s @
               [\<lparr>le_id = new_id E 0, le_rider_sub = riderSub, le_delta = points,
                 le_reason = ''fare_accrual'', le_ref_id = paymentID\<rparr>],
             loyalty_accounts :=
               set_points E riderSub (\<lambda>p. p + points) (ensure_loyalty E riderSub (loyalty_accounts s))\<rparr>))"

definition clawbackLoyaltyPoints ::
  "'l env \<Rightarrow> string \<Rightarrow> string \<Rightarrow> int \<Rightarrow> 'l store \<Rightarrow> string option \<times> 'l store" where
  "clawbackLoyaltyPoints E refID riderSub refundedMinor s =
     (let points = go_div refundedMinor 100 in
      if points \<le> 0 \<or> riderSub = [] then (None, s)
      else if fault E ''clawback: begin'' then (Some ''begin'', s)
      else if fault E ''clawback: ledger insert'' \<or> \<not> in_i32 (- points) then (Some ''ledger insert'', s)
      else if ledger_has (loyalty_ledger s) refID
      then (if fault E ''clawback: commit'' then Some ''commit'' else None, s)
      else if fault E ''clawback: balance'' \<or> \<not> in_i32 points then (Some ''balance'', s)
      else if fault E ''clawback: commit'' then (Some ''commit'', s)
      else (None, s\<lparr>loyalty_ledger := loyalty_ledger s @
               [\<lparr>le_id = new_id E 0, le_rider_sub = riderSub, le_delta = - points,
                 le_reason = ''refund_clawback'', le_ref_id = refID\<rparr>],
             loyalty_accounts := set_points E riderSub (\<lambda>p. max 0 (p - points)) (loyalty_accounts s)\<rparr>))"

section \<open>Offers\<close>

definition ListOffers :: "'l env \<Rightarrow> 'l store \<Rightarrow> offer list resp" where
  "ListOffers E s =
     (if fault E ''list offers'' then Internal ''list offers''
      else if fault E ''scan offer'' then Internal ''scan offer''
      else if fault E ''iterate offers'' then Internal ''iterate offers''
      else Reply 200 (newest o_created_at 200 (marketplace_offers s)))"

record offer_request =
  or_title :: string
  or_description :: string
  or_partner :: string
  or_cost_points :: int

definition CreateOffer :: "'l env \<Rightarrow> offer_request option \<Rightarrow> 'l store \<Rightarrow> offer resp \<times> 'l store" where
  "CreateOffer E body s =
     (case body of
        None \<Rightarrow> (Err 400 ''title and positive cost_points are required'', s)
      | Some req \<Rightarrow>
          if or_title req = [] \<or> or_cost_points req \<le> 0
          then (Err 400 ''title and positive cost_points are required'', s)
          else if fault E ''create offer'' \<or> \<not> in_i32 (or_cost_points req) then (Internal ''create offer'', s)
          else
            let off = \<lparr>o_id = new_id E 0, o_title = or_title req, o_description = or_description req,
                     o_partner = or_partner req, o_cost_points = or_cost_points req, o_active = True,
                     o_created_at = now E\<rparr>
            in (Reply 201 off, s\<lparr>marketplace_offers := marketplace_offers s @ [off]\<rparr>))"

section \<open>Redemption\<close>

definition redemptionResponse :: "redemption \<Rightarrow> int \<Rightarrow> (string \<times> json) list" where
  "redemptionResponse red remaining =
     [(''redemption_id'', JStr (red_id red)), (''redeemed_offer_id'', JStr (red_offer_id red)),
      (''points_spent'', JNum (red_points_spent red)), (''idempotency_key'', JStr (red_idempotency_key red)),
      (''status'', JStr (red_status red))] @
     (if remaining \<ge> 0 then [(''remaining_points'', JNum remaining)] else [])"

definition replayRedemption :: "'l env \<Rightarrow> string \<Rightarrow> 'l store \<Rightarrow> (string \<times> json) list resp" where
  "replayRedemption E idemKey s =
     (if fault E ''reload redemption'' then Internal ''reload redemption''
      else case find (\<lambda>r. red_idempotency_key r = idemKey) (loyalty_redemptions s) of
        None \<Rightarrow> Internal ''reload redemption''
      | Some red \<Rightarrow> Reply 200 (redemptionResponse red (- 1)))"

text \<open>
  Each statement of the redemption transaction sees what other requests have committed by then. The
  request is therefore two steps: \<open>redeem_check\<close> up to the replay query, and \<open>redeem_tx\<close>, the
  locked part, on the store of that later moment.
\<close>

definition redeem_key :: "string \<Rightarrow> string \<Rightarrow> string \<Rightarrow> string" where
  "redeem_key header offerID sub = (if header = [] then offerID @ '':'' @ sub else header)"

definition redeem_check ::
  "'l env \<Rightarrow> string \<Rightarrow> string \<Rightarrow> string \<Rightarrow> 'l store \<Rightarrow> (string \<times> json) list resp option" where
  "redeem_check E sub offerID idemKey s =
     (if fault E ''begin redeem tx'' then Some (Internal ''begin redeem tx'')
      else if fault E ''check redemption idempotency'' then Some (Internal ''check redemption idempotency'')
      else case find (\<lambda>r. red_idempotency_key r = idemKey) (loyalty_redemptions s) of
        None \<Rightarrow> None
      | Some existing \<Rightarrow>
          Some (if red_rider_sub existing \<noteq> sub \<or> red_offer_id existing \<noteq> offerID
                then Err 409 ''idempotency key already used with different redemption parameters''
                else Reply 200 (redemptionResponse existing (- 1))))"

definition redeem_tx ::
  "'l env \<Rightarrow> string \<Rightarrow> string \<Rightarrow> string \<Rightarrow> 'l store \<Rightarrow> (string \<times> json) list resp \<times> 'l store" where
  "redeem_tx E sub offerID idemKey s =
     (if fault E ''load offer'' then (Internal ''load offer'', s)
      else case find (\<lambda>off. o_id off = offerID \<and> o_active off) (marketplace_offers s) of
        None \<Rightarrow> (Err 404 ''offer not found or inactive'', s)
      | Some off \<Rightarrow>
          let cost = o_cost_points off; las = ensure_loyalty E sub (loyalty_accounts s) in
          if fault E ''ensure loyalty account'' then (Internal ''ensure loyalty account'', s)
          else if fault E ''deduct points'' then (Internal ''deduct points'', s)
          else if \<not> points_of las sub \<ge> cost then (Err 402 ''insufficient loyalty points'', s)
          else
            let balance = points_of las sub - cost;
                red = \<lparr>red_id = new_id E 0, red_rider_sub = sub, red_offer_id = offerID,
                       red_points_spent = cost, red_idempotency_key = idemKey,
                       red_status = ''completed'', red_created_at = now E\<rparr> in
            if fault E ''record redemption'' then (Internal ''record redemption'', s)
            else if \<exists>r \<in> set (loyalty_redemptions s). red_idempotency_key r = idemKey \<or> red_id r = red_id red
            then (replayRedemption E idemKey s, s)
            else if fault E ''record redemption ledger entry''
            then (Internal ''record redemption ledger entry'', s)
            else if fault E ''commit redeem'' then (Internal ''commit redeem'', s)
            else (Reply 200 (redemptionResponse red balance),
                  s\<lparr>loyalty_accounts := set_points E sub (\<lambda>p. p - cost) las,
                    loyalty_redemptions := loyalty_redemptions s @ [red],
                    loyalty_ledger :=
                      (if ledger_has (loyalty_ledger s) (''redeem:'' @ idemKey) then loyalty_ledger s
                       else loyalty_ledger s @
                         [\<lparr>le_id = new_id E 1, le_rider_sub = sub, le_delta = - cost,
                           le_reason = ''offer_redeem'', le_ref_id = ''redeem:'' @ idemKey\<rparr>])\<rparr>))"

definition RedeemOffer ::
  "'l env \<Rightarrow> ctx \<Rightarrow> string \<Rightarrow> string option \<Rightarrow> 'l store \<Rightarrow> (string \<times> json) list resp \<times> 'l store" where
  "RedeemOffer E c header body s =
     (let sub = Subject c in
      if sub = [] then (Err 401 ''authenticated subject required'', s)
      else case body of
        None \<Rightarrow> (Err 400 ''offer_id is required'', s)
      | Some offerID \<Rightarrow>
          if offerID = [] then (Err 400 ''offer_id is required'', s)
          else let idemKey = redeem_key header offerID sub in
            case redeem_check E sub offerID idemKey s of
              Some r \<Rightarrow> (r, s)
            | None \<Rightarrow> redeem_tx E sub offerID idemKey s)"

section \<open>Balances as a function of the rider\<close>

lemma points_of_ensure [simp]: "points_of (ensure_loyalty E sub las) x = points_of las x"
  by (auto simp: points_of_def ensure_loyalty_def fresh_account_def find_append split: option.splits)

lemma ensure_has [simp]: "\<exists>a \<in> set (ensure_loyalty E sub las). la_rider_sub a = sub"
  by (auto simp: ensure_loyalty_def fresh_account_def)

lemma points_of_set:
  "points_of (set_points E sub f las) x =
     (if x = sub \<and> (\<exists>a \<in> set las. la_rider_sub a = sub) then f (points_of las x) else points_of las x)"
  by (induction las) (auto simp: points_of_def set_points_def)

lemma riders_ensure [simp]:
  "distinct (map la_rider_sub las) \<Longrightarrow> distinct (map la_rider_sub (ensure_loyalty E sub las))"
  by (auto simp: ensure_loyalty_def fresh_account_def)

lemma riders_set [simp]: "map la_rider_sub (set_points E sub f las) = map la_rider_sub las"
  by (simp add: set_points_def map_upd_rows)

text \<open>What a rider's audit entries add up to.\<close>

definition audit_sum :: "loyalty_entry list \<Rightarrow> string \<Rightarrow> int" where
  "audit_sum es sub = sum_where (\<lambda>e. le_rider_sub e = sub) le_delta es"

lemma audit_sum_snoc [simp]:
  "audit_sum (es @ [e]) sub = audit_sum es sub + (if le_rider_sub e = sub then le_delta e else 0)"
  by (simp add: audit_sum_def)

definition spent_points :: "redemption list \<Rightarrow> string \<Rightarrow> int" where
  "spent_points rs sub = sum_where (\<lambda>r. red_rider_sub r = sub) red_points_spent rs"

definition redeemed_in_audit :: "loyalty_entry list \<Rightarrow> string \<Rightarrow> int" where
  "redeemed_in_audit es sub =
     - sum_where (\<lambda>e. le_rider_sub e = sub \<and> le_reason e = ''offer_redeem'') le_delta es"

section \<open>The loyalty invariant\<close>

text \<open>
  Balances are one per rider and never negative, references and keys are unique, a reference in the
  \<open>redeem:\<close> name space belongs to a recorded redemption, the audit trail never exceeds the balance
  (clawbacks are floored at 0), and redemptions and their audit entries agree rider by rider.
\<close>

definition loyalty_ok :: "'l store \<Rightarrow> bool" where
  "loyalty_ok s \<longleftrightarrow>
     distinct (map la_rider_sub (loyalty_accounts s)) \<and>
     distinct (map le_ref_id (loyalty_ledger s)) \<and>
     distinct (map red_idempotency_key (loyalty_redemptions s)) \<and>
     (\<forall>off \<in> set (marketplace_offers s). 0 < o_cost_points off) \<and>
     (\<forall>k. ledger_has (loyalty_ledger s) (''redeem:'' @ k) \<longrightarrow>
        k \<in> set (map red_idempotency_key (loyalty_redemptions s))) \<and>
     (\<forall>sub. 0 \<le> points_of (loyalty_accounts s) sub) \<and>
     (\<forall>sub. audit_sum (loyalty_ledger s) sub \<le> points_of (loyalty_accounts s) sub) \<and>
     (\<forall>sub. spent_points (loyalty_redemptions s) sub = redeemed_in_audit (loyalty_ledger s) sub)"

lemma ledger_has_snoc [simp]: "ledger_has (es @ [e]) ref \<longleftrightarrow> ledger_has es ref \<or> le_ref_id e = ref"
  by (auto simp: ledger_has_def)

lemma ledger_has_map: "ledger_has es ref \<longleftrightarrow> ref \<in> set (map le_ref_id es)"
  by (auto simp: ledger_has_def)

lemma spent_points_snoc [simp]:
  "spent_points (rs @ [r]) sub = spent_points rs sub + (if red_rider_sub r = sub then red_points_spent r else 0)"
  by (simp add: spent_points_def)

lemma redeemed_in_audit_snoc [simp]:
  "redeemed_in_audit (es @ [e]) sub = redeemed_in_audit es sub -
     (if le_rider_sub e = sub \<and> le_reason e = ''offer_redeem'' then le_delta e else 0)"
  by (simp add: redeemed_in_audit_def)

lemma accrue_cases:
  assumes "accrueLoyaltyPoints E pid sub amt s = (r, s')"
  shows "s' = s \<or> r = None \<and> 0 < go_div amt 100 \<and> sub \<noteq> [] \<and> \<not> ledger_has (loyalty_ledger s) pid \<and>
    s' = s\<lparr>loyalty_ledger := loyalty_ledger s @
               [\<lparr>le_id = new_id E 0, le_rider_sub = sub, le_delta = go_div amt 100,
                 le_reason = ''fare_accrual'', le_ref_id = pid\<rparr>],
             loyalty_accounts :=
               set_points E sub (\<lambda>p. p + go_div amt 100) (ensure_loyalty E sub (loyalty_accounts s))\<rparr>"
  using assms by (simp add: accrueLoyaltyPoints_def Let_def split: if_splits)

lemma clawback_cases:
  assumes "clawbackLoyaltyPoints E ref sub amt s = (r, s')"
  shows "s' = s \<or> r = None \<and> 0 < go_div amt 100 \<and> sub \<noteq> [] \<and> \<not> ledger_has (loyalty_ledger s) ref \<and>
    s' = s\<lparr>loyalty_ledger := loyalty_ledger s @
               [\<lparr>le_id = new_id E 0, le_rider_sub = sub, le_delta = - go_div amt 100,
                 le_reason = ''refund_clawback'', le_ref_id = ref\<rparr>],
             loyalty_accounts :=
               set_points E sub (\<lambda>p. max 0 (p - go_div amt 100)) (loyalty_accounts s)\<rparr>"
  using assms by (simp add: clawbackLoyaltyPoints_def Let_def split: if_splits)

lemma accrue_ok:
  assumes "loyalty_ok s" and "\<not> has_prefix pid ''redeem:''" and "accrueLoyaltyPoints E pid sub amt s = (r, s')"
  shows "loyalty_ok s'"
  using accrue_cases [OF assms(3)] assms(1,2)
  by (auto simp: loyalty_ok_def points_of_set ledger_has_map has_prefix_def)

lemma clawback_ok:
  assumes "loyalty_ok s" and "\<not> has_prefix ref ''redeem:''" and "clawbackLoyaltyPoints E ref sub amt s = (r, s')"
  shows "loyalty_ok s'"
proof -
  have "audit_sum (loyalty_ledger s) sub \<le> points_of (loyalty_accounts s) sub"
    using assms(1) unfolding loyalty_ok_def by blast
  then have le: "0 < n \<Longrightarrow> audit_sum (loyalty_ledger s) sub - n \<le> points_of (loyalty_accounts s) sub" for n
    by simp
  from clawback_cases [OF assms(3)] assms(1,2) show ?thesis
    by (auto simp: loyalty_ok_def points_of_set ledger_has_map has_prefix_def le_max_iff_disj le)
qed

lemma redeem_tx_cases:
  assumes "redeem_tx E sub offerID key s = (r, s')"
  obtains (kept) "s' = s"
  | (redeemed) off where "find (\<lambda>off. o_id off = offerID \<and> o_active off) (marketplace_offers s) = Some off"
      and "o_cost_points off \<le> points_of (loyalty_accounts s) sub"
      and "key \<notin> set (map red_idempotency_key (loyalty_redemptions s))"
      and "r = Reply 200 (redemptionResponse
        \<lparr>red_id = new_id E 0, red_rider_sub = sub, red_offer_id = offerID, red_points_spent = o_cost_points off,
         red_idempotency_key = key, red_status = ''completed'', red_created_at = now E\<rparr>
        (points_of (loyalty_accounts s) sub - o_cost_points off))"
      and "s' = s\<lparr>loyalty_accounts := set_points E sub (\<lambda>p. p - o_cost_points off)
            (ensure_loyalty E sub (loyalty_accounts s)),
          loyalty_redemptions := loyalty_redemptions s @
            [\<lparr>red_id = new_id E 0, red_rider_sub = sub, red_offer_id = offerID, red_points_spent = o_cost_points off,
              red_idempotency_key = key, red_status = ''completed'', red_created_at = now E\<rparr>],
          loyalty_ledger := (if ledger_has (loyalty_ledger s) (''redeem:'' @ key) then loyalty_ledger s
            else loyalty_ledger s @ [\<lparr>le_id = new_id E 1, le_rider_sub = sub, le_delta = - o_cost_points off,
              le_reason = ''offer_redeem'', le_ref_id = ''redeem:'' @ key\<rparr>])\<rparr>"
  using assms by (fastforce simp: redeem_tx_def Let_def split: if_splits option.splits)

lemma redeem_tx_ok:
  assumes "loyalty_ok s" and "redeem_tx E sub offerID key s = (r, s')"
  shows "loyalty_ok s'"
  using assms(2)
proof (cases rule: redeem_tx_cases)
  case (redeemed off)
  have "off \<in> set (marketplace_offers s)" using redeemed(1) by (auto dest: find_Some_prop)
  then have cost: "0 < o_cost_points off" using assms(1) by (simp add: loyalty_ok_def)
  have new: "\<not> ledger_has (loyalty_ledger s) (''redeem:'' @ key)"
    using assms(1) redeemed(3) unfolding loyalty_ok_def by blast
  show ?thesis
    using assms(1) redeemed(2,3,5) new cost by (auto simp: loyalty_ok_def points_of_set ledger_has_map)
qed (use assms(1) in simp)

lemma balance_ok:
  assumes "loyalty_ok s" and "GetLoyaltyBalance E c s = (r, s')"
  shows "loyalty_ok s'"
  using assms by (auto simp: GetLoyaltyBalance_def Let_def loyalty_ok_def split: if_splits option.splits)

lemma offer_ok:
  assumes "loyalty_ok s" and "CreateOffer E body s = (r, s')"
  shows "loyalty_ok s'"
  using assms by (auto simp: CreateOffer_def Let_def loyalty_ok_def split: if_splits option.splits)

lemma clawback_small: "0 \<le> amt \<Longrightarrow> amt < 100 \<Longrightarrow> clawbackLoyaltyPoints E ref sub amt s = (None, s)"
  by (simp add: clawbackLoyaltyPoints_def go_div_nonneg Let_def)

section \<open>Interleaved requests\<close>

text \<open>
  One committed step of any request, against the store of that moment: accruals and clawbacks under
  references outside the \<open>redeem:\<close> name space (payment ids, and \<open>refund:\<close> references), the locked
  part of a redemption for any rider, offer and key, balance reads and new offers.
\<close>

inductive loyalty_step :: "'l store \<Rightarrow> 'l store \<Rightarrow> bool" where
  accrue_step: "\<not> has_prefix pid ''redeem:'' \<Longrightarrow> accrueLoyaltyPoints E pid sub amt s = (e, s') \<Longrightarrow> loyalty_step s s'"
| clawback_step: "\<not> has_prefix ref ''redeem:'' \<Longrightarrow> clawbackLoyaltyPoints E ref sub amt s = (e, s') \<Longrightarrow> loyalty_step s s'"
| redeem_step: "redeem_tx E sub offerID key s = (r, s') \<Longrightarrow> loyalty_step s s'"
| balance_step: "GetLoyaltyBalance E c s = (b, s') \<Longrightarrow> loyalty_step s s'"
| offer_step: "CreateOffer E body s = (off, s') \<Longrightarrow> loyalty_step s s'"

lemma loyalty_step_ok: "loyalty_step s s' \<Longrightarrow> loyalty_ok s \<Longrightarrow> loyalty_ok s'"
  by (induction rule: loyalty_step.induct)
    (erule (2) accrue_ok, erule (2) clawback_ok, erule (1) redeem_tx_ok, erule (1) balance_ok, erule (1) offer_ok)

lemma loyalty_reachable_ok: "loyalty_step\<^sup>*\<^sup>* s s' \<Longrightarrow> loyalty_ok s \<Longrightarrow> loyalty_ok s'"
  by (induction rule: rtranclp_induct) (auto intro: loyalty_step_ok)

lemma empty_loyalty_ok: "loyalty_ok (empty_store l)"
  by (simp add: loyalty_ok_def empty_store_def ledger_has_def points_of_def audit_sum_def
      spent_points_def redeemed_in_audit_def)

lemma redeem_check_held:
  assumes "\<And>op. \<not> fault E op" and "find (\<lambda>r. red_idempotency_key r = key) (loyalty_redemptions s) = Some red"
  shows "redeem_check E sub offerID key s =
    Some (if red_rider_sub red \<noteq> sub \<or> red_offer_id red \<noteq> offerID
          then Err 409 ''idempotency key already used with different redemption parameters''
          else Reply 200 (redemptionResponse red (- 1)))"
  using assms by (simp add: redeem_check_def)

section \<open>Properties\<close>

text \<open>
  C16. Points are safe under every interleaving of requests: from an empty store no balance is ever
  negative or below what the rider's audit trail adds up to, no payment or refund is booked twice, no
  idempotency key redeems twice, and the points spent on redemptions are exactly those the audit
  trail records as redeemed.
\<close>

theorem loyalty_interleaving_safe:
  assumes "loyalty_step\<^sup>*\<^sup>* (empty_store l) s"
  shows "0 \<le> points_of (loyalty_accounts s) sub \<and>
    audit_sum (loyalty_ledger s) sub \<le> points_of (loyalty_accounts s) sub \<and>
    distinct (map le_ref_id (loyalty_ledger s)) \<and>
    distinct (map red_idempotency_key (loyalty_redemptions s)) \<and>
    spent_points (loyalty_redemptions s) sub = redeemed_in_audit (loyalty_ledger s) sub"
  using loyalty_reachable_ok [OF assms empty_loyalty_ok] by (simp add: loyalty_ok_def)

definition demo_loyalty_store :: "unit store" where
  "demo_loyalty_store = snd (accrueLoyaltyPoints (quiet_env (\<lambda>_ _ _ _ _ l. (Inr [], l))) ''pay-1'' ''ann'' 950
     (snd (CreateOffer (quiet_env (\<lambda>_ _ _ _ _ l. (Inr [], l)))
       (Some \<lparr>or_title = ''coffee'', or_description = [], or_partner = [], or_cost_points = 4\<rparr>) (empty_store ()))))"

lemma demo_loyalty_reachable: "loyalty_step\<^sup>*\<^sup>* (empty_store ()) demo_loyalty_store"
proof -
  let ?E = "quiet_env (\<lambda>_ _ _ _ _ (l::unit). (Inr [], l))"
    and ?b = "Some \<lparr>or_title = ''coffee'', or_description = [], or_partner = [], or_cost_points = 4\<rparr>"
  have "loyalty_step (empty_store ()) (snd (CreateOffer ?E ?b (empty_store ())))"
    by (rule offer_step [OF prod.collapse [symmetric]])
  moreover have "loyalty_step (snd (CreateOffer ?E ?b (empty_store ()))) demo_loyalty_store"
    unfolding demo_loyalty_store_def
    by (rule accrue_step [OF _ prod.collapse [symmetric]]) (simp add: has_prefix_def)
  ultimately show ?thesis by (meson r_into_rtranclp rtranclp.rtrancl_into_rtrancl)
qed

lemmas demo_loyalty_simps = demo_loyalty_store_def accrueLoyaltyPoints_def CreateOffer_def quiet_env_def
  empty_store_def Let_def go_div_def in_i32_def points_of_def ledger_has_def set_points_def
  ensure_loyalty_def fresh_account_def

theorem loyalty_interleaving_safe_witness:
  "points_of (loyalty_accounts demo_loyalty_store) ''ann'' = 9 \<and>
   audit_sum (loyalty_ledger demo_loyalty_store) ''ann'' \<le> points_of (loyalty_accounts demo_loyalty_store) ''ann''"
proof
  show "points_of (loyalty_accounts demo_loyalty_store) ''ann'' = 9" by (simp add: demo_loyalty_simps)
  show "audit_sum (loyalty_ledger demo_loyalty_store) ''ann'' \<le> points_of (loyalty_accounts demo_loyalty_store) ''ann''"
    using loyalty_interleaving_safe [OF demo_loyalty_reachable, of "''ann''"] by blast
qed

text \<open>
  An accrual happens at most once per payment: when it reports success for a positive number of
  points, the rider has gained one point per full 100 minor units unless the payment was already
  booked, the payment is booked, and no later accrual under that payment id changes the store.
\<close>

theorem accrue_at_most_once:
  assumes "accrueLoyaltyPoints E pid sub amt s = (None, s')" and "100 \<le> amt" and "sub \<noteq> []"
  shows "points_of (loyalty_accounts s') sub = points_of (loyalty_accounts s) sub +
      (if ledger_has (loyalty_ledger s) pid then 0 else amt div 100) \<and>
    ledger_has (loyalty_ledger s') pid \<and>
    snd (accrueLoyaltyPoints E' pid sub' amt' s') = s'"
proof -
  have pts: "go_div amt 100 = amt div 100" "0 < amt div 100"
    using assms(2) by (auto simp: go_div_nonneg pos_imp_zdiv_pos_iff)
  have booked: "snd (accrueLoyaltyPoints E' pid sub' amt' s') = s'" if "ledger_has (loyalty_ledger s') pid"
    using that by (simp add: accrueLoyaltyPoints_def Let_def)
  show ?thesis
  proof (cases "ledger_has (loyalty_ledger s) pid")
    case True
    with accrue_cases [OF assms(1)] have "s' = s" by auto
    with True booked show ?thesis by simp
  next
    case False
    with assms pts have "s' = s\<lparr>loyalty_ledger := loyalty_ledger s @
               [\<lparr>le_id = new_id E 0, le_rider_sub = sub, le_delta = amt div 100,
                 le_reason = ''fare_accrual'', le_ref_id = pid\<rparr>],
             loyalty_accounts :=
               set_points E sub (\<lambda>p. p + amt div 100) (ensure_loyalty E sub (loyalty_accounts s))\<rparr>"
      by (simp add: accrueLoyaltyPoints_def Let_def split: if_splits)
    with False booked show ?thesis by (simp add: points_of_set)
  qed
qed

theorem accrue_at_most_once_witness:
  "snd (accrueLoyaltyPoints (quiet_env (\<lambda>_ _ _ _ _ l. (Inr [], l))) ''pay-1'' ''ann'' 950 demo_loyalty_store) =
   demo_loyalty_store"
proof -
  let ?E = "quiet_env (\<lambda>_ _ _ _ _ (l::unit). (Inr [], l))"
  let ?s = "snd (CreateOffer ?E
    (Some \<lparr>or_title = ''coffee'', or_description = [], or_partner = [], or_cost_points = 4\<rparr>) (empty_store ()))"
  have "accrueLoyaltyPoints ?E ''pay-1'' ''ann'' 950 ?s = (None, demo_loyalty_store)"
    by (simp add: demo_loyalty_simps)
  from accrue_at_most_once [OF this] show ?thesis by simp
qed

text \<open>
  Redeeming is retry-safe: a redemption answered 200 is recorded under the request's key for
  this rider and offer; either it already was and nothing changed, or exactly its price left the
  rider's balance, which covered it. Sending the request again on the resulting store answers 200
  with that same redemption and changes nothing.
\<close>

theorem redeem_retry_safe:
  assumes "loyalty_ok s" and "RedeemOffer E c header (Some offerID) s = (Reply 200 body, s')"
    and "\<And>op. \<not> fault E' op"
  shows "\<exists>red. find (\<lambda>r. red_idempotency_key r = redeem_key header offerID (Subject c)) (loyalty_redemptions s') = Some red \<and>
    red_rider_sub red = Subject c \<and> red_offer_id red = offerID \<and>
    RedeemOffer E' c header (Some offerID) s' = (Reply 200 (redemptionResponse red (- 1)), s') \<and>
    (s' = s \<or>
     points_of (loyalty_accounts s') (Subject c) = points_of (loyalty_accounts s) (Subject c) - red_points_spent red \<and>
     0 < red_points_spent red \<and> 0 \<le> points_of (loyalty_accounts s') (Subject c))"
proof -
  let ?sub = "Subject c" and ?key = "redeem_key header offerID (Subject c)"
  have sub: "?sub \<noteq> []" and off: "offerID \<noteq> []"
    using assms(2) by (auto simp: RedeemOffer_def Let_def split: if_splits)
  have again: "RedeemOffer E' c header (Some offerID) s' = (Reply 200 (redemptionResponse red (- 1)), s')"
    if "find (\<lambda>r. red_idempotency_key r = ?key) (loyalty_redemptions s') = Some red"
      "red_rider_sub red = ?sub" "red_offer_id red = offerID" for red
    using redeem_check_held [OF assms(3) that(1)] that(2,3) sub off by (simp add: RedeemOffer_def Let_def)
  show ?thesis
  proof (cases "redeem_check E ?sub offerID ?key s")
    case (Some r)
    with assms(2) sub off have r: "r = Reply 200 body" "s' = s" by (auto simp: RedeemOffer_def Let_def)
    with Some obtain red where red: "find (\<lambda>r. red_idempotency_key r = ?key) (loyalty_redemptions s) = Some red"
      "red_rider_sub red = ?sub" "red_offer_id red = offerID"
      by (auto simp: redeem_check_def split: if_splits option.splits)
    with again [of red] r(2) show ?thesis by blast
  next
    case None
    with assms(2) sub off have tx: "redeem_tx E ?sub offerID ?key s = (Reply 200 body, s')"
      by (auto simp: RedeemOffer_def Let_def)
    from None have free: "find (\<lambda>r. red_idempotency_key r = ?key) (loyalty_redemptions s) = None"
      by (auto simp: redeem_check_def split: if_splits option.splits)
    from tx show ?thesis
    proof (cases rule: redeem_tx_cases)
      case kept
      with tx free show ?thesis
        by (auto simp: redeem_tx_def replayRedemption_def Let_def split: if_splits option.splits
            dest!: arg_cong [where f = loyalty_redemptions])
    next
      case (redeemed o1)
      have "0 < o_cost_points o1"
        using assms(1) redeemed(1) by (auto simp: loyalty_ok_def dest: find_Some_prop)
      moreover have "find (\<lambda>r. red_idempotency_key r = ?key) (loyalty_redemptions s') = Some
          \<lparr>red_id = new_id E 0, red_rider_sub = ?sub, red_offer_id = offerID, red_points_spent = o_cost_points o1,
           red_idempotency_key = ?key, red_status = ''completed'', red_created_at = now E\<rparr>"
        using free redeemed(5) by (simp add: find_append)
      ultimately show ?thesis using redeemed(2,5) again by (simp add: points_of_set)
    qed
  qed
qed

theorem redeem_retry_safe_witness:
  "\<exists>red. RedeemOffer (quiet_env (\<lambda>_ _ _ _ _ l. (Inr [], l))) (Some [(''sub'', JStr ''ann'')]) ''k1'' (Some ''id'')
     (snd (RedeemOffer (quiet_env (\<lambda>_ _ _ _ _ l. (Inr [], l))) (Some [(''sub'', JStr ''ann'')]) ''k1'' (Some ''id'')
       demo_loyalty_store)) =
     (Reply 200 (redemptionResponse red (- 1)),
      snd (RedeemOffer (quiet_env (\<lambda>_ _ _ _ _ l. (Inr [], l))) (Some [(''sub'', JStr ''ann'')]) ''k1'' (Some ''id'')
       demo_loyalty_store))"
proof -
  let ?E = "quiet_env (\<lambda>_ _ _ _ _ (l::unit). (Inr [], l))" and ?c = "Some [(''sub'', JStr ''ann'')]"
  have ok: "loyalty_ok demo_loyalty_store"
    using loyalty_reachable_ok [OF demo_loyalty_reachable empty_loyalty_ok] .
  have quiet: "\<not> fault ?E op" for op by (simp add: quiet_env_def)
  have "fst (RedeemOffer ?E ?c ''k1'' (Some ''id'') demo_loyalty_store) = Reply 200 (redemptionResponse
      \<lparr>red_id = ''id'', red_rider_sub = ''ann'', red_offer_id = ''id'', red_points_spent = 4,
       red_idempotency_key = ''k1'', red_status = ''completed'', red_created_at = 1000\<rparr> 5)"
    by (simp add: demo_loyalty_simps RedeemOffer_def Subject_def redeem_key_def redeem_check_def redeem_tx_def)
  then have "RedeemOffer ?E ?c ''k1'' (Some ''id'') demo_loyalty_store = (Reply 200 (redemptionResponse
      \<lparr>red_id = ''id'', red_rider_sub = ''ann'', red_offer_id = ''id'', red_points_spent = 4,
       red_idempotency_key = ''k1'', red_status = ''completed'', red_created_at = 1000\<rparr> 5),
      snd (RedeemOffer ?E ?c ''k1'' (Some ''id'') demo_loyalty_store))"
    by (metis prod.collapse)
  from redeem_retry_safe [OF ok this quiet] show ?thesis by blast
qed

text \<open>
  The replay after a lost race does not compare the recorded redemption with the request: when
  another rider's redemption under the same key commits between the replay query and the locked part,
  the request answers 200 with the other rider's redemption and spends nothing, while the same
  request arriving a moment later is refused with 409.
\<close>

theorem redeem_race_returns_foreign_redemption:
  assumes "find (\<lambda>r. red_idempotency_key r = key) (loyalty_redemptions s) = Some red"
    and "red_rider_sub red \<noteq> sub" and "\<And>op. \<not> fault E op"
    and "find (\<lambda>off. o_id off = offerID \<and> o_active off) (marketplace_offers s) = Some off"
    and "o_cost_points off \<le> points_of (loyalty_accounts s) sub"
  shows "redeem_tx E sub offerID key s = (Reply 200 (redemptionResponse red (- 1)), s) \<and>
    redeem_check E sub offerID key s =
      Some (Err 409 ''idempotency key already used with different redemption parameters'')"
proof
  have "\<exists>r \<in> set (loyalty_redemptions s). red_idempotency_key r = key"
    using assms(1) by (auto dest: find_Some_prop)
  then show "redeem_tx E sub offerID key s = (Reply 200 (redemptionResponse red (- 1)), s)"
    using assms by (auto simp: redeem_tx_def replayRedemption_def Let_def)
  show "redeem_check E sub offerID key s =
      Some (Err 409 ''idempotency key already used with different redemption parameters'')"
    using redeem_check_held [OF assms(3,1)] assms(2) by simp
qed

theorem redeem_race_returns_foreign_redemption_witness:
  "\<exists>red (s :: unit store). red_rider_sub red = ''bob'' \<and>
     redeem_tx (quiet_env (\<lambda>_ _ _ _ _ l. (Inr [], l))) ''ann'' ''id'' ''k1'' s =
       (Reply 200 (redemptionResponse red (- 1)), s)"
proof -
  let ?red = "\<lparr>red_id = ''r9'', red_rider_sub = ''bob'', red_offer_id = ''id'', red_points_spent = 4,
       red_idempotency_key = ''k1'', red_status = ''completed'', red_created_at = 1000\<rparr>"
  have "redeem_tx (quiet_env (\<lambda>_ _ _ _ _ l. (Inr [], l))) ''ann'' ''id'' ''k1'' (demo_loyalty_store\<lparr>loyalty_redemptions := [?red]\<rparr>) =
       (Reply 200 (redemptionResponse ?red (- 1)), demo_loyalty_store\<lparr>loyalty_redemptions := [?red]\<rparr>)"
    by (rule conjunct1 [OF redeem_race_returns_foreign_redemption
        [where off = "\<lparr>o_id = ''id'', o_title = ''coffee'', o_description = [], o_partner = [], o_cost_points = 4,
          o_active = True, o_created_at = 1000\<rparr>"]])
      (simp_all add: demo_loyalty_simps)
  then show ?thesis
    by (intro exI [of _ ?red] exI [of _ "demo_loyalty_store\<lparr>loyalty_redemptions := [?red]\<rparr>"] conjI) simp_all
qed

text \<open>
  A clawback is rounded down refund by refund: refunds below 100 minor units take back no points
  however many there are, so a payment refunded in such parts keeps all the points it earned.
\<close>

theorem small_refunds_keep_points:
  assumes "list_all (\<lambda>(ref, amt). 0 \<le> amt \<and> amt < 100) refunds"
  shows "foldl (\<lambda>s (ref, amt). snd (clawbackLoyaltyPoints E ref sub amt s)) s refunds = s"
  using assms by (induction refunds) (auto simp: clawback_small)

theorem small_refunds_keep_points_witness:
  "points_of (loyalty_accounts (foldl (\<lambda>s (ref, amt).
     snd (clawbackLoyaltyPoints (quiet_env (\<lambda>_ _ _ _ _ l. (Inr [], l))) ref ''ann'' amt s)) demo_loyalty_store
     (map (\<lambda>i. (''refund:pay-1:'' @ show_nat (95 * Suc i), 95)) [0..<10]))) ''ann'' = 9"
  by (subst small_refunds_keep_points) (simp_all add: list_all_iff demo_loyalty_simps)

end
