(* ===== verification/Ilp.thy ===== *)
theory Ilp
  imports Prelude
begin

text \<open>
  Interledger packets, conditions and fulfilments
  (src/services/go/commerce-api/internal/mojaloop/ilp.go). Bytes are numbers below 256. SHA-256 is
  the parameter \<open>sha\<close>, of which only the digest length is used; \<open>fmt_ts\<close> renders a time in the OER
  layout \<open>YYYYMMDDHHMMSS.mmmZ\<close>.
\<close>

type_synonym bytes = "nat list"

definition byte_list :: "bytes \<Rightarrow> bool" where
  "byte_list bs \<longleftrightarrow> (\<forall>b \<in> set bs. b < 256)"

definition bytes_of :: "string \<Rightarrow> bytes" where
  "bytes_of s = map of_char s"

section \<open>Unpadded base64url\<close>

definition b64_char :: "nat \<Rightarrow> char" where
  "b64_char d =
     (if d < 26 then char_of (65 + d)
      else if d < 52 then char_of (71 + d)
      else if d < 62 then char_of (d - 4)
      else if d = 62 then CHR ''-''
      else CHR ''_'')"

fun b64_split :: "bytes \<Rightarrow> nat list" where
  "b64_split [] = []"
| "b64_split [a] = [a div 4, a mod 4 * 16]"
| "b64_split [a, b] = (let v = a * 256 + b in [v div 1024, v div 16 mod 64, v mod 16 * 4])"
| "b64_split (a # b # c # bs) =
     (let v = a * 65536 + b * 256 + c in
      (v div 262144) # (v div 4096 mod 64) # (v div 64 mod 64) # (v mod 64) # b64_split bs)"

definition b64_encode :: "bytes \<Rightarrow> string" where
  "b64_encode bs = map b64_char (b64_split bs)"

section \<open>Fulfilments, conditions and packets\<close>

definition ilpTypePrepare :: nat where "ilpTypePrepare = 12"

definition ilpDestination :: string where "ilpDestination = ''g.moja.h2fleet''"

definition deriveFulfilment :: "(bytes \<Rightarrow> bytes) \<Rightarrow> string \<Rightarrow> string \<Rightarrow> bytes" where
  "deriveFulfilment sha transferID secret =
     sha (bytes_of (''h2fleet:ilp-fulfilment:v1:'' @ secret @ '':'' @ transferID))"

definition conditionFor :: "(bytes \<Rightarrow> bytes) \<Rightarrow> bytes \<Rightarrow> string \<times> bytes" where
  "conditionFor sha fulfilment = (let raw = sha fulfilment in (b64_encode raw, raw))"

text \<open>\<open>binary.BigEndian.PutUint64\<close> and \<open>PutUint32\<close>: \<open>k\<close> bytes, most significant first.\<close>

fun big_endian :: "nat \<Rightarrow> nat \<Rightarrow> bytes" where
  "big_endian 0 n = []"
| "big_endian (Suc k) n = big_endian k (n div 256) @ [n mod 256]"

definition encodeILPPrepare :: "string \<Rightarrow> nat \<Rightarrow> string \<Rightarrow> bytes \<Rightarrow> bytes" where
  "encodeILPPrepare destination amountMinor expiry condition =
     [ilpTypePrepare, length destination mod 256] @ bytes_of destination @ big_endian 8 amountMinor @
     bytes_of expiry @ big_endian 4 (length condition) @ condition @ big_endian 4 0"

definition buildILP ::
  "(bytes \<Rightarrow> bytes) \<Rightarrow> (int \<Rightarrow> string) \<Rightarrow> string \<Rightarrow> string \<Rightarrow> nat \<Rightarrow> int \<Rightarrow> string \<times> string \<times> string" where
  "buildILP sha fmt_ts transferID secret amountMinor expiresAt =
     (let f = deriveFulfilment sha transferID secret;
          (condB64, condRaw) = conditionFor sha f;
          pkt = encodeILPPrepare ilpDestination amountMinor (fmt_ts expiresAt) condRaw
      in (b64_encode pkt, condB64, b64_encode f))"

definition verifyFulfilment :: "(bytes \<Rightarrow> bytes) \<Rightarrow> string \<Rightarrow> string \<Rightarrow> bool" where
  "verifyFulfilment sha fulfilmentB64 conditionB64 =
     (case b64_decode fulfilmentB64 of
        None \<Rightarrow> False
      | Some f \<Rightarrow> (case b64_decode conditionB64 of None \<Rightarrow> False | Some c \<Rightarrow> sha f = c))"

section \<open>Decoding is the inverse of encoding\<close>

lemma b64_split_bound: "byte_list bs \<Longrightarrow> \<forall>d \<in> set (b64_split bs). d < 64"
  by (induction bs rule: b64_split.induct) (auto simp: byte_list_def Let_def)

lemma b64_groups_split: "byte_list bs \<Longrightarrow> b64_groups (b64_split bs) = Some bs"
proof (induction bs rule: b64_split.induct)
  case (2 a)
  have "a div 4 * 64 + a mod 4 * 16 = 16 * a" by presburger
  then show ?case by simp
next
  case (3 a b)
  define v where "v = a * 256 + b"
  have "v div 1024 * 4096 + v div 16 mod 64 * 64 + v mod 16 * 4 = 4 * v"
    using div_mult_mod_eq [of v 16] div_mult_mod_eq [of "v div 16" 64] unfolding div_mult2_eq [symmetric]
    by (simp only: mult_numeral_1 numeral_times_numeral semiring_norm)
  moreover have "4 * v div 1024 = a" "4 * v div 4 mod 256 = b"
    using 3 by (auto simp: v_def byte_list_def)
  ultimately show ?case by (simp add: Let_def flip: v_def)
next
  case (4 a b c bs)
  define v where "v = a * 65536 + b * 256 + c"
  have "v div 262144 * 262144 + v div 4096 mod 64 * 4096 + v div 64 mod 64 * 64 + v mod 64 = v"
    using div_mult_mod_eq [of v 64] div_mult_mod_eq [of "v div 64" 64] div_mult_mod_eq [of "v div 4096" 64]
    unfolding div_mult2_eq [symmetric] by (simp only: mult_numeral_1 numeral_times_numeral semiring_norm)
  moreover have lo: "v div 256 = a * 256 + b" "v mod 256 = c"
  proof -
    define x where "x = a * 256 + b"
    have "v = x * 256 + c" by (simp add: v_def x_def)
    with 4(2) have "v div 256 = x" "v mod 256 = c" by (simp_all add: byte_list_def)
    then show "v div 256 = a * 256 + b" "v mod 256 = c" by (simp_all add: x_def)
  qed
  moreover have "v div 65536 = a" "v div 256 mod 256 = b"
    using 4(2) lo div_mult2_eq [of v 256 256] by (simp_all add: byte_list_def)
  moreover have "byte_list bs" using 4(2) by (simp add: byte_list_def)
  ultimately show ?case using 4(1) by (simp add: Let_def flip: v_def)
qed simp

lemma b64_digit_char: "d < 64 \<Longrightarrow> b64_digit (b64_char d) = Some d"
  by (auto simp: b64_char_def b64_digit_def Let_def)

lemma b64_char_no_newline: "d < 64 \<Longrightarrow> b64_char d \<noteq> CHR 0x0A \<and> b64_char d \<noteq> CHR 0x0D"
proof -
  assume "d < 64"
  moreover have "b64_digit (CHR 0x0A) = None" "b64_digit (CHR 0x0D) = None"
    by (simp_all add: b64_digit_def Let_def)
  ultimately show ?thesis using b64_digit_char [of d] by auto
qed

lemma b64_decode_digits:
  assumes "\<forall>d \<in> set ds. d < 64"
  shows "b64_decode (map b64_char ds) = b64_groups ds"
proof -
  have "filter (\<lambda>c. c \<noteq> CHR 0x0A \<and> c \<noteq> CHR 0x0D) (map b64_char ds) = map b64_char ds"
    using assms b64_char_no_newline by (auto simp: filter_id_conv)
  moreover have "map b64_digit (map b64_char ds) = map Some ds"
    using assms b64_digit_char by simp
  moreover have "map the (map Some ds) = ds" by (simp add: comp_def)
  moreover have "None \<notin> set (map Some ds)" by auto
  ultimately show ?thesis unfolding b64_decode_def Let_def by (simp only: if_False simp_thms)
qed

lemma b64_roundtrip: "byte_list bs \<Longrightarrow> b64_decode (b64_encode bs) = Some bs"
  by (simp add: b64_encode_def b64_decode_digits b64_split_bound b64_groups_split)

fun from_big_endian :: "nat \<Rightarrow> bytes \<Rightarrow> nat" where
  "from_big_endian acc [] = acc"
| "from_big_endian acc (b # bs) = from_big_endian (acc * 256 + b) bs"

lemma length_big_endian [simp]: "length (big_endian k n) = k"
  by (induction k arbitrary: n) auto

lemma from_big_endian_append: "from_big_endian acc (xs @ [b]) = from_big_endian acc xs * 256 + b"
  by (induction xs arbitrary: acc) auto

lemma big_endian_roundtrip: "n < 256 ^ k \<Longrightarrow> from_big_endian 0 (big_endian k n) = n"
proof (induction k arbitrary: n)
  case (Suc k)
  then have "n div 256 < 256 ^ k" by (simp add: less_mult_imp_div_less)
  with Suc.IH show ?case by (simp add: from_big_endian_append div_mult_mod_eq)
qed simp

lemma byte_list_append [simp]: "byte_list (xs @ ys) \<longleftrightarrow> byte_list xs \<and> byte_list ys"
  by (auto simp: byte_list_def)

lemma byte_list_big_endian [simp]: "byte_list (big_endian k n)"
  by (induction k arbitrary: n) (auto simp: byte_list_def)

lemma byte_list_bytes_of [simp]: "byte_list (bytes_of s)"
  by (auto simp: byte_list_def bytes_of_def)

text \<open>What SHA-256 promises here: a digest of 32 bytes.\<close>

definition sha_ok :: "(bytes \<Rightarrow> bytes) \<Rightarrow> bool" where
  "sha_ok sha \<longleftrightarrow> (\<forall>m. length (sha m) = 32 \<and> byte_list (sha m))"

text \<open>The fields of a Prepare packet, read back by the layout the comment of \<open>encodeILPPrepare\<close> gives.\<close>

definition read_prepare :: "bytes \<Rightarrow> nat \<times> bytes \<times> nat \<times> bytes \<times> bytes \<times> bytes" where
  "read_prepare pkt =
     (let n = pkt ! 1; rest = drop (2 + n) pkt in
      (pkt ! 0, take n (drop 2 pkt), from_big_endian 0 (take 8 rest), take 19 (drop 8 rest),
       take (from_big_endian 0 (take 4 (drop 27 rest))) (drop 31 rest),
       drop (31 + from_big_endian 0 (take 4 (drop 27 rest))) rest))"

section \<open>Properties\<close>

text \<open>
  Packets can be read back: a Prepare packet for a destination below 256 bytes, a \<open>uint64\<close>
  amount, a 19-byte timestamp and a 32-byte condition has exactly those fields at the documented
  offsets, followed by an empty data field.
\<close>

theorem ilp_prepare_layout:
  assumes "length destination < 256" and "amount < 2 ^ 64" and "length expiry = 19" and "length condition = 32"
  shows "read_prepare (encodeILPPrepare destination amount expiry condition) =
    (12, bytes_of destination, amount, bytes_of expiry, condition, [0, 0, 0, 0])"
proof -
  have len: "length (bytes_of expiry) = 19" "length (bytes_of destination) = length destination"
    using assms(3) by (simp_all add: bytes_of_def)
  have amt: "from_big_endian 0 (big_endian 8 amount) = amount"
    by (rule big_endian_roundtrip) (use assms(2) in simp)
  have clen: "from_big_endian 0 (big_endian 4 32) = 32" by (rule big_endian_roundtrip) simp
  have zero: "big_endian 4 0 = [0, 0, 0, 0]" by code_simp
  define A where "A = big_endian 8 amount"
  define L where "L = big_endian 4 32"
  have pkt: "encodeILPPrepare destination amount expiry condition =
      12 # length destination # bytes_of destination @ A @ bytes_of expiry @ L @ condition @ [0, 0, 0, 0]"
    using assms(1,4) by (simp add: encodeILPPrepare_def ilpTypePrepare_def zero A_def L_def)
  have rest: "drop (2 + length destination) (12 # length destination # bytes_of destination @ R) = R" for R
    using len(2) by simp
  have dest: "take (length destination) (drop 2 (12 # length destination # bytes_of destination @ R)) =
      bytes_of destination" for R
    using len(2) by simp
  have fields: "take 8 (A @ X) = A" "take 4 (drop 27 (A @ bytes_of expiry @ L @ X)) = L"
    "take 19 (drop 8 (A @ bytes_of expiry @ X)) = bytes_of expiry"
    "drop 31 (A @ bytes_of expiry @ L @ X) = X" "drop 63 (A @ bytes_of expiry @ L @ X) = drop 32 X" for X
    using len(1) by (simp_all add: A_def L_def)
  show ?thesis
    unfolding read_prepare_def pkt Let_def nth_Cons_0 One_nat_def nth_Cons_Suc rest dest fields
    using assms(4) amt clen by (simp add: A_def L_def len fields)
qed

theorem ilp_prepare_layout_witness:
  "read_prepare (encodeILPPrepare ilpDestination 280 ''20260101120000.000Z'' (replicate 32 7)) =
    (12, bytes_of ilpDestination, 280, bytes_of ''20260101120000.000Z'', replicate 32 7, [0, 0, 0, 0])"
  by (rule ilp_prepare_layout) (simp_all add: ilpDestination_def)

text \<open>
  The locally generated material is consistent: the fulfilment \<open>buildILP\<close> returns verifies
  against the condition it returns, and a fulfilment verifies against that condition only if it
  decodes to a preimage of the same digest.
\<close>

theorem ilp_fulfilment_verifies:
  assumes "sha_ok sha" and "buildILP sha fmt_ts transferID secret amount expiresAt = (packet, condition, fulfilment)"
  shows "verifyFulfilment sha fulfilment condition \<and>
    (\<forall>f. verifyFulfilment sha f condition \<longleftrightarrow>
      (\<exists>p. b64_decode f = Some p \<and> sha p = sha (deriveFulfilment sha transferID secret)))"
proof -
  let ?f = "deriveFulfilment sha transferID secret"
  from assms(2) have parts: "condition = b64_encode (sha ?f)" "fulfilment = b64_encode ?f"
    by (simp_all add: buildILP_def conditionFor_def Let_def)
  have "byte_list ?f" "byte_list (sha ?f)" using assms(1) by (simp_all add: sha_ok_def deriveFulfilment_def)
  then have dec: "b64_decode condition = Some (sha ?f)" "b64_decode fulfilment = Some ?f"
    by (simp_all add: parts b64_roundtrip)
  have "verifyFulfilment sha g condition \<longleftrightarrow> (\<exists>p. b64_decode g = Some p \<and> sha p = sha ?f)" for g
    unfolding verifyFulfilment_def dec by (cases "b64_decode g") simp_all
  with dec show ?thesis by blast
qed

theorem ilp_fulfilment_verifies_witness:
  "verifyFulfilment (\<lambda>m. replicate 32 (sum_list m mod 256))
     (snd (snd (buildILP (\<lambda>m. replicate 32 (sum_list m mod 256)) (\<lambda>_. ''20260101120000.000Z'') ''t1'' [] 280 0)))
     (fst (snd (buildILP (\<lambda>m. replicate 32 (sum_list m mod 256)) (\<lambda>_. ''20260101120000.000Z'') ''t1'' [] 280 0)))"
proof -
  let ?sha = "\<lambda>m :: bytes. replicate 32 (sum_list m mod 256)" and ?ts = "\<lambda>_ :: int. ''20260101120000.000Z''"
  have "sha_ok ?sha" by (simp add: sha_ok_def byte_list_def)
  moreover obtain p c f where b: "buildILP ?sha ?ts ''t1'' [] 280 0 = (p, c, f)" by (metis prod.exhaust)
  ultimately have "verifyFulfilment ?sha f c"
    using ilp_fulfilment_verifies [of ?sha ?ts "''t1''" "[]" 280 0 p c f] by blast
  with b show ?thesis by simp
qed

end
