(* ===== verification/Mojaloop.thy ===== *)
theory Mojaloop
  imports Ilp
begin

text \<open>
  The payer-side Mojaloop client: error classification
  (src/services/go/commerce-api/internal/mojaloop/errors.go) and the parties, quotes, transfers flow
  with its retry loop (mojaloop/client.go). Times are nanoseconds. The switch, the network and the
  JSON decoder are fields of the record \<open>net\<close>: every attempt asks it for an answer and how long the
  answer took. Every request that leaves the client is recorded, in order.
\<close>

section \<open>Errors\<close>

datatype ErrorKind =
    KindValidation
  | KindPayeeNotFound
  | KindQuoteRejected
  | KindTransferRejected
  | KindDuplicate
  | KindTimeout
  | KindUnavailable

fun kind_string :: "ErrorKind \<Rightarrow> string" where
  "kind_string KindValidation = ''validation''"
| "kind_string KindPayeeNotFound = ''payee_not_found''"
| "kind_string KindQuoteRejected = ''quote_rejected''"
| "kind_string KindTransferRejected = ''transfer_rejected''"
| "kind_string KindDuplicate = ''duplicate''"
| "kind_string KindTimeout = ''timeout''"
| "kind_string KindUnavailable = ''switch_unavailable''"

record ml_error =
  me_Op :: string
  me_Kind :: ErrorKind
  me_HTTPStatus :: nat
  me_Message :: string

text \<open>A Go \<open>error\<close> of this package: the classified one or a plain one.\<close>

datatype go_error = MlError ml_error | PlainError string

fun error_string :: "go_error \<Rightarrow> string" where
  "error_string (PlainError msg) = msg"
| "error_string (MlError e) =
     (if me_HTTPStatus e \<noteq> 0
      then ''mojaloop '' @ me_Op e @ '': '' @ kind_string (me_Kind e) @ '' (http '' @
             show_nat (me_HTTPStatus e) @ ''): '' @ me_Message e
      else ''mojaloop '' @ me_Op e @ '': '' @ kind_string (me_Kind e) @ '': '' @ me_Message e)"

definition PaymentStatus :: "go_error option \<Rightarrow> string" where
  "PaymentStatus err =
     (case err of
        None \<Rightarrow> ''settled''
      | Some e \<Rightarrow>
          (case (case e of MlError m \<Rightarrow> me_Kind m | PlainError _ \<Rightarrow> KindUnavailable) of
             KindPayeeNotFound \<Rightarrow> ''mojaloop_payee_not_found''
           | KindQuoteRejected \<Rightarrow> ''mojaloop_quote_rejected''
           | KindTransferRejected \<Rightarrow> ''mojaloop_transfer_rejected''
           | KindTimeout \<Rightarrow> ''mojaloop_timeout''
           | KindValidation \<Rightarrow> ''failed''
           | _ \<Rightarrow> ''mojaloop_unavailable''))"

text \<open>\<open>code\<close> is \<open>fspiopCode(body)\<close>, read with the JSON decoder.\<close>

definition fspiopCode :: "(string \<Rightarrow> string option) \<Rightarrow> string \<Rightarrow> string" where
  "fspiopCode dec_error body = (case dec_error body of None \<Rightarrow> [] | Some code \<Rightarrow> code)"

definition classify :: "string \<Rightarrow> nat \<Rightarrow> string \<Rightarrow> ErrorKind" where
  "classify path status code =
     (if code = ''3208'' then KindDuplicate
      else if has_prefix path ''/parties'' then KindPayeeNotFound
      else if has_prefix path ''/quotes'' then (if status \<ge> 500 then KindUnavailable else KindQuoteRejected)
      else if has_prefix path ''/transfers'' then (if status \<ge> 500 then KindUnavailable else KindTransferRejected)
      else if status \<ge> 500 then KindUnavailable
      else KindTransferRejected)"

section \<open>Configuration, messages and the network\<close>

definition second_ns :: int where "second_ns = 10 ^ 9"

record ml_config =
  mc_Endpoint :: string
  mc_DFSPID :: string
  mc_PayeePartyID :: string
  mc_PayeePartyType :: string
  mc_Secret :: string
  mc_GenerateILP :: bool
  mc_AttemptTimeout :: int
  mc_RetryBudget :: int

definition trim_right :: "char \<Rightarrow> string \<Rightarrow> string" where
  "trim_right c s = rev (dropWhile (\<lambda>x. x = c) (rev s))"

definition ml_New :: "ml_config \<Rightarrow> string + ml_config" where
  "ml_New cfg =
     (let ep = trim_right (CHR ''/'') (mc_Endpoint cfg) in
      if ep = [] then Inl ''mojaloop: Endpoint is required''
      else
        let attempt = (if mc_AttemptTimeout cfg \<le> 0 then 10 * second_ns else mc_AttemptTimeout cfg);
            rb = (if mc_RetryBudget cfg \<le> 0 then 30 * second_ns else mc_RetryBudget cfg)
        in Inr (cfg\<lparr>mc_Endpoint := ep,
             mc_DFSPID := (if mc_DFSPID cfg = [] then ''h2fleet'' else mc_DFSPID cfg),
             mc_PayeePartyID := (if mc_PayeePartyID cfg = [] then ''h2fleet-operator'' else mc_PayeePartyID cfg),
             mc_PayeePartyType := (if mc_PayeePartyType cfg = [] then ''BUSINESS'' else mc_PayeePartyType cfg),
             mc_AttemptTimeout := attempt,
             mc_RetryBudget := (if rb < attempt then attempt else rb)\<rparr>))"

text \<open>\<open>%02d\<close>, and Go's remainder, which has the sign of the dividend.\<close>

definition pad2 :: "int \<Rightarrow> string" where
  "pad2 x = (let d = show_int x in if length d < 2 then CHR ''0'' # d else d)"

definition go_rem :: "int \<Rightarrow> int \<Rightarrow> int" where
  "go_rem a b = a - b * go_div a b"

definition minorToMajor :: "int \<Rightarrow> string" where
  "minorToMajor minor =
     (let m = (if minor < 0 then i64 (- minor) else minor) in
      (if minor < 0 then ''-'' else []) @ show_int (go_div m 100) @ ''.'' @ pad2 (go_rem m 100))"

record party =
  pt_FSPID :: string
  pt_Name :: string

record quote_response =
  q_Currency :: string
  q_Expiration :: string
  q_ILPPacket :: string
  q_Condition :: string

record transfer_response =
  tr_TransferID :: string
  tr_TransferState :: string
  tr_Fulfilment :: string

record ml_request =
  mr_IdempotencyKey :: string
  mr_PayerPartyID :: string
  mr_PayerPartyType :: string
  mr_AmountMinor :: int
  mr_Currency :: string

record ml_result =
  res_TransferID :: string
  res_TransferState :: string
  res_PayeeFSPID :: string
  res_QuoteID :: string
  res_FulfilmentVerified :: bool

record http_request =
  hr_method :: string
  hr_url :: string
  hr_path :: string
  hr_accept :: string
  hr_content_type :: "string option"
  hr_source :: string
  hr_date :: int
  hr_timeout :: int
  hr_payload :: "json option"

datatype http_outcome = NetError bool string | HttpResponse nat string

text \<open>
  \<open>hc_do rq t\<close>: the outcome of sending \<open>rq\<close> at time \<open>t\<close> and how long it took (\<open>NetError\<close> says
  whether the attempt's deadline had passed). \<open>url_error\<close>: \<open>http.NewRequest\<close> refuses a URL. The
  \<open>dec_\<close> functions are \<open>json.Unmarshal\<close> into the response types. \<open>ctx_deadline\<close> and \<open>ctx_done\<close> are
  the request context's deadline and the moment it ends.
\<close>

record net =
  hc_do :: "http_request \<Rightarrow> int \<Rightarrow> http_outcome \<times> nat"
  url_error :: "string \<Rightarrow> string option"
  dec_error :: "string \<Rightarrow> string option"
  dec_party :: "string \<Rightarrow> string + party"
  dec_quote :: "string \<Rightarrow> string + quote_response"
  dec_transfer :: "string \<Rightarrow> string + transfer_response"
  fmt_rfc3339 :: "int \<Rightarrow> string"
  parse_rfc3339 :: "string \<Rightarrow> int option"
  fmt_ilp :: "int \<Rightarrow> string"
  sha256 :: "bytes \<Rightarrow> bytes"
  ctx_deadline :: "int option"
  ctx_done :: "int option"

section \<open>Deterministic ids\<close>

definition hex_digit :: "nat \<Rightarrow> char" where
  "hex_digit d = (if d < 10 then char_of (48 + d) else char_of (87 + d))"

definition hex_encode :: "bytes \<Rightarrow> string" where
  "hex_encode bs = concat (map (\<lambda>b. [hex_digit (b div 16), hex_digit (b mod 16)]) bs)"

text \<open>
  The version and variant nibbles: \<open>(b AND 0x0f) OR 0x40\<close> is \<open>64 + b mod 16\<close>, and
  \<open>(b AND 0x3f) OR 0x80\<close> is \<open>128 + b mod 64\<close>.
\<close>

definition deterministicID :: "(bytes \<Rightarrow> bytes) \<Rightarrow> string \<Rightarrow> string \<Rightarrow> string" where
  "deterministicID sha namespace key =
     (let sum = take 16 (sha (bytes_of (''h2fleet:mojaloop:'' @ namespace @ '':'' @ key)));
          id0 = sum[6 := 64 + sum ! 6 mod 16];
          i = id0[8 := 128 + id0 ! 8 mod 64]
      in hex_encode (take 4 i) @ ''-'' @ hex_encode (take 2 (drop 4 i)) @ ''-'' @
         hex_encode (take 2 (drop 6 i)) @ ''-'' @ hex_encode (take 2 (drop 8 i)) @ ''-'' @
         hex_encode (drop 10 i))"

section \<open>The retry loop\<close>

definition nextBackoff :: "int \<Rightarrow> int" where
  "nextBackoff d = (if d * 2 > 2 * second_ns then 2 * second_ns else d * 2)"

text \<open>The backoff before the attempt after the \<open>n\<close>-th retry; it starts at 100 ms.\<close>

primrec backoff_at :: "nat \<Rightarrow> int" where
  "backoff_at 0 = 100 * 10 ^ 6"
| "backoff_at (Suc n) = nextBackoff (backoff_at n)"

definition isRetryableStatus :: "nat \<Rightarrow> bool" where
  "isRetryableStatus code \<longleftrightarrow> code = 408 \<or> code = 429 \<or> code \<ge> 500"

definition truncate_string :: "string \<Rightarrow> nat \<Rightarrow> string" where
  "truncate_string s n = (if length s > n then take n s @ [CHR 0xE2, CHR 0x80, CHR 0xA6] else s)"

definition ctx_live :: "net \<Rightarrow> int \<Rightarrow> bool" where
  "ctx_live N t = (case ctx_done N of None \<Rightarrow> True | Some d \<Rightarrow> t < d)"

definition retryableAfter :: "net \<Rightarrow> int \<Rightarrow> int \<Rightarrow> int \<Rightarrow> bool" where
  "retryableAfter N deadline backoff t \<longleftrightarrow> ctx_live N t \<and> t + backoff < deadline"

text \<open>\<open>sleep\<close> ends when the timer fires or the context is done.\<close>

definition sleep_until :: "net \<Rightarrow> int \<Rightarrow> int \<Rightarrow> int" where
  "sleep_until N t d = (case ctx_done N of None \<Rightarrow> t + d | Some e \<Rightarrow> min (t + d) (max t e))"

definition resource_of :: "string \<Rightarrow> string" where
  "resource_of path = hd (split_on (CHR ''/'') (trim_prefix path ''/''))"

definition fspiop_type :: "string \<Rightarrow> string" where
  "fspiop_type path = ''application/vnd.interoperability.'' @ resource_of path @ ''+json;version=1.0''"

definition mk_request ::
  "ml_config \<Rightarrow> string \<Rightarrow> string \<Rightarrow> json option \<Rightarrow> int \<Rightarrow> http_request" where
  "mk_request cfg meth path body t =
     \<lparr>hr_method = meth, hr_url = mc_Endpoint cfg @ path, hr_path = path,
      hr_accept = fspiop_type path @ '', application/json'',
      hr_content_type = (if body = None then None else Some (fspiop_type path)),
      hr_source = mc_DFSPID cfg, hr_date = t, hr_timeout = mc_AttemptTimeout cfg, hr_payload = body\<rparr>"

definition ml_err :: "string \<Rightarrow> ErrorKind \<Rightarrow> nat \<Rightarrow> string \<Rightarrow> go_error" where
  "ml_err op kind status msg =
     MlError \<lparr>me_Op = op, me_Kind = kind, me_HTTPStatus = status, me_Message = msg\<rparr>"

lemma backoff_at_min: "100 * 10 ^ 6 \<le> backoff_at n"
  by (induction n) (auto simp: nextBackoff_def second_ns_def)

lemma sleep_until_later: "ctx_live N t \<Longrightarrow> 0 < d \<Longrightarrow> t < sleep_until N t d"
  by (auto simp: sleep_until_def ctx_live_def split: option.splits)

text \<open>
  One call of \<open>do\<close>: the status and body of a 2xx answer or the classified error, the requests sent,
  and the time at the end. The loop ends because each retry begins later than the attempt before it
  and no retry begins after the deadline.
\<close>

function do_loop ::
  "net \<Rightarrow> ml_config \<Rightarrow> string \<Rightarrow> string \<Rightarrow> json option \<Rightarrow> int \<Rightarrow> nat \<Rightarrow> int \<Rightarrow>
   (go_error + nat \<times> string) \<times> http_request list \<times> int" where
  "do_loop N cfg meth path body deadline attempt t =
     (let op = meth @ '' '' @ path; rq = mk_request cfg meth path body t; backoff = backoff_at attempt in
      case url_error N (hr_url rq) of
        Some e \<Rightarrow> (Inl (ml_err op KindValidation 0 e), [], t)
      | None \<Rightarrow>
          let t1 = t + int (snd (hc_do N rq t)) in
          (case fst (hc_do N rq t) of
             NetError timed_out msg \<Rightarrow>
               if retryableAfter N deadline backoff t1 then
                 (let r = do_loop N cfg meth path body deadline (Suc attempt) (sleep_until N t1 backoff)
                  in (fst r, rq # fst (snd r), snd (snd r)))
               else (Inl (ml_err op (if timed_out then KindTimeout else KindUnavailable) 0 msg), [rq], t1)
           | HttpResponse status respBody \<Rightarrow>
               if 200 \<le> status \<and> status < 300 then (Inr (status, respBody), [rq], t1)
               else if status = 409 then (Inl (ml_err op KindDuplicate status respBody), [rq], t1)
               else if isRetryableStatus status \<and> retryableAfter N deadline backoff t1 then
                 (let r = do_loop N cfg meth path body deadline (Suc attempt) (sleep_until N t1 backoff)
                  in (fst r, rq # fst (snd r), snd (snd r)))
               else (Inl (ml_err op (classify path status (fspiopCode (dec_error N) respBody)) status
                       (truncate_string respBody 512)), [rq], t1)))"
  by pat_completeness auto

lemma retry_later:
  assumes "retryableAfter N deadline (backoff_at n) (t + int k)"
  shows "t < deadline \<and> t < sleep_until N (t + int k) (backoff_at n)"
proof -
  have pos: "0 < backoff_at n" using backoff_at_min [of n] by simp
  with assms have "t + int k < sleep_until N (t + int k) (backoff_at n)"
    by (simp add: retryableAfter_def sleep_until_later)
  with assms pos show ?thesis by (simp add: retryableAfter_def)
qed

termination do_loop
  by (relation "measure (\<lambda>(N, cfg, meth, path, body, deadline, attempt, t). nat (deadline - t))")
    (auto dest: retry_later)

declare do_loop.simps [simp del]

definition ml_deadline :: "net \<Rightarrow> ml_config \<Rightarrow> int \<Rightarrow> int" where
  "ml_deadline N cfg t =
     (case ctx_deadline N of
        None \<Rightarrow> t + mc_RetryBudget cfg
      | Some d \<Rightarrow> if d < t + mc_RetryBudget cfg then d else t + mc_RetryBudget cfg)"

definition ml_do ::
  "net \<Rightarrow> ml_config \<Rightarrow> string \<Rightarrow> string \<Rightarrow> json option \<Rightarrow> (string \<Rightarrow> string + 'o) \<Rightarrow> 'o \<Rightarrow> int \<Rightarrow>
   (go_error + 'o) \<times> http_request list \<times> int" where
  "ml_do N cfg meth path body dec zero t =
     (case do_loop N cfg meth path body (ml_deadline N cfg t) 0 t of
        (Inl e, rqs, t') \<Rightarrow> (Inl e, rqs, t')
      | (Inr (status, respBody), rqs, t') \<Rightarrow>
          if respBody = [] then (Inr zero, rqs, t')
          else (case dec respBody of
                  Inr x \<Rightarrow> (Inr x, rqs, t')
                | Inl e \<Rightarrow> (Inl (ml_err (meth @ '' '' @ path) KindUnavailable status
                            (''invalid JSON from switch: '' @ e)), rqs, t')))"

section \<open>The flow\<close>

definition GetParty ::
  "net \<Rightarrow> ml_config \<Rightarrow> string \<Rightarrow> string \<Rightarrow> int \<Rightarrow> (go_error + party) \<times> http_request list \<times> int" where
  "GetParty N cfg partyType partyID t =
     (case ml_do N cfg ''GET'' (''/parties/'' @ partyType @ ''/'' @ partyID) None (dec_party N)
         \<lparr>pt_FSPID = [], pt_Name = []\<rparr> t of
        (Inl e, rqs, t') \<Rightarrow> (Inl e, rqs, t')
      | (Inr p, rqs, t') \<Rightarrow>
          if pt_FSPID p = []
          then (Inl (ml_err ''GET /parties'' KindPayeeNotFound 0 ''party resolved without an fspId''), rqs, t')
          else (Inr p, rqs, t'))"

definition money_json :: "int \<Rightarrow> string \<Rightarrow> json" where
  "money_json minor currency = JObj [(''amount'', JStr (minorToMajor minor)), (''currency'', JStr currency)]"

definition party_json :: "string \<Rightarrow> string \<Rightarrow> json" where
  "party_json ty pid = JObj [(''partyIdType'', JStr ty), (''partyIdentifier'', JStr pid)]"

definition quote_body :: "net \<Rightarrow> ml_config \<Rightarrow> ml_request \<Rightarrow> string \<Rightarrow> string \<Rightarrow> int \<Rightarrow> json" where
  "quote_body N cfg req quoteID transferID t =
     JObj [(''quoteId'', JStr quoteID), (''transactionId'', JStr transferID),
       (''payee'', party_json (mc_PayeePartyType cfg) (mc_PayeePartyID cfg)),
       (''payer'', party_json (if mr_PayerPartyType req = [] then ''ALIAS'' else mr_PayerPartyType req)
          (mr_PayerPartyID req)),
       (''amountType'', JStr ''SEND''), (''amount'', money_json (mr_AmountMinor req) (mr_Currency req)),
       (''transactionType'', JObj [(''scenario'', JStr ''PAYMENT''), (''initiator'', JStr ''PAYER''),
          (''initiatorType'', JStr ''CONSUMER'')]),
       (''expiration'', JStr (fmt_rfc3339 N (t + 120 * second_ns)))]"

definition RequestQuote ::
  "net \<Rightarrow> ml_config \<Rightarrow> ml_request \<Rightarrow> string \<Rightarrow> string \<Rightarrow> int \<Rightarrow>
   (go_error + quote_response) \<times> http_request list \<times> int" where
  "RequestQuote N cfg req quoteID transferID t =
     (case ml_do N cfg ''POST'' ''/quotes'' (Some (quote_body N cfg req quoteID transferID t)) (dec_quote N)
         \<lparr>q_Currency = [], q_Expiration = [], q_ILPPacket = [], q_Condition = []\<rparr> t of
        (Inl e, rqs, t') \<Rightarrow> (Inl e, rqs, t')
      | (Inr q, rqs, t') \<Rightarrow>
          if q_Currency q \<noteq> [] \<and> \<not> equal_fold (q_Currency q) (mr_Currency req)
          then (Inl (ml_err ''POST /quotes'' KindQuoteRejected 0
                  (''quote currency mismatch: asked '' @ mr_Currency req @ '', got '' @ q_Currency q)), rqs, t')
          else (Inr q, rqs, t'))"

definition SendTransfer ::
  "net \<Rightarrow> ml_config \<Rightarrow> json \<Rightarrow> string \<Rightarrow> string \<Rightarrow> int \<Rightarrow>
   (go_error + transfer_response) \<times> http_request list \<times> int" where
  "SendTransfer N cfg body transferID condition t =
     (case ml_do N cfg ''POST'' ''/transfers'' (Some body) (dec_transfer N)
         \<lparr>tr_TransferID = [], tr_TransferState = [], tr_Fulfilment = []\<rparr> t of
        (Inl (MlError e), rqs, t') \<Rightarrow>
          if me_Kind e = KindDuplicate
          then (Inr \<lparr>tr_TransferID = transferID, tr_TransferState = ''COMMITTED'', tr_Fulfilment = []\<rparr>, rqs, t')
          else (Inl (MlError e), rqs, t')
      | (Inl e, rqs, t') \<Rightarrow> (Inl e, rqs, t')
      | (Inr out, rqs, t') \<Rightarrow>
          let out' = (if tr_TransferID out = [] then out\<lparr>tr_TransferID := transferID\<rparr> else out) in
          if tr_TransferState out' = ''ABORTED''
          then (Inl (ml_err ''POST /transfers'' KindTransferRejected 0 ''transfer aborted by switch''), rqs, t')
          else if tr_Fulfilment out' \<noteq> [] \<and> condition \<noteq> [] \<and>
            \<not> verifyFulfilment (sha256 N) (tr_Fulfilment out') condition
          then (Inl (ml_err ''POST /transfers'' KindTransferRejected 0 ''fulfilment does not satisfy condition''), rqs, t')
          else (Inr out', rqs, t'))"

definition transfer_body ::
  "net \<Rightarrow> ml_config \<Rightarrow> ml_request \<Rightarrow> string \<Rightarrow> string \<Rightarrow> string \<Rightarrow> string \<Rightarrow> int \<Rightarrow> json" where
  "transfer_body N cfg req transferID payeeFSP packet condition t =
     JObj [(''transferId'', JStr transferID), (''payeeFsp'', JStr payeeFSP), (''payerFsp'', JStr (mc_DFSPID cfg)),
       (''amount'', money_json (mr_AmountMinor req) (mr_Currency req)), (''ilpPacket'', JStr packet),
       (''condition'', JStr condition), (''expiration'', JStr (fmt_rfc3339 N (t + 120 * second_ns)))]"

definition ilp_material :: "net \<Rightarrow> ml_config \<Rightarrow> ml_request \<Rightarrow> string \<Rightarrow> quote_response \<Rightarrow> int \<Rightarrow> string \<times> string" where
  "ilp_material N cfg req transferID q t =
     (if q_ILPPacket q = [] \<or> q_Condition q = [] \<or> mc_GenerateILP cfg then
        (let expiry = (if q_Expiration q = [] then t + 120 * second_ns
                       else case parse_rfc3339 N (q_Expiration q) of None \<Rightarrow> t + 120 * second_ns | Some e \<Rightarrow> e);
             (packet, condition, _) = buildILP (sha256 N) (fmt_ilp N) transferID (mc_Secret cfg)
                (nat (u64 (mr_AmountMinor req))) expiry
         in (packet, condition))
      else (q_ILPPacket q, q_Condition q))"

definition ml_Transfer ::
  "net \<Rightarrow> ml_config \<Rightarrow> ml_request \<Rightarrow> int \<Rightarrow> (go_error + ml_result) \<times> http_request list \<times> int" where
  "ml_Transfer N cfg req t =
     (if mr_IdempotencyKey req = [] then (Inl (ml_err ''Transfer'' KindValidation 0 ''idempotency key is required''), [], t)
      else if mr_AmountMinor req \<le> 0 then (Inl (ml_err ''Transfer'' KindValidation 0 ''amount must be positive''), [], t)
      else if mr_Currency req = [] then (Inl (ml_err ''Transfer'' KindValidation 0 ''currency is required''), [], t)
      else
        let transferID = deterministicID (sha256 N) ''transfer'' (mr_IdempotencyKey req);
            quoteID = deterministicID (sha256 N) ''quote'' (mr_IdempotencyKey req) in
        case GetParty N cfg (mc_PayeePartyType cfg) (mc_PayeePartyID cfg) t of
          (Inl e, r1, t1) \<Rightarrow> (Inl e, r1, t1)
        | (Inr payee, r1, t1) \<Rightarrow>
            (case RequestQuote N cfg req quoteID transferID t1 of
               (Inl e, r2, t2) \<Rightarrow> (Inl e, r1 @ r2, t2)
             | (Inr quote, r2, t2) \<Rightarrow>
                 let (packet, condition) = ilp_material N cfg req transferID quote t2 in
                 (case SendTransfer N cfg (transfer_body N cfg req transferID (pt_FSPID payee) packet condition t2)
                     transferID condition t2 of
                    (Inl e, r3, t3) \<Rightarrow> (Inl e, r1 @ r2 @ r3, t3)
                  | (Inr tr, r3, t3) \<Rightarrow>
                      (Inr \<lparr>res_TransferID = tr_TransferID tr, res_TransferState = tr_TransferState tr,
                            res_PayeeFSPID = pt_FSPID payee, res_QuoteID = quoteID,
                            res_FulfilmentVerified = (tr_Fulfilment tr \<noteq> [])\<rparr>, r1 @ r2 @ r3, t3))))"

section \<open>What the retry loop sends\<close>

lemma do_loop_requests:
  "rq \<in> set (fst (snd (do_loop N cfg meth path body dl n t))) \<Longrightarrow> \<exists>t'. rq = mk_request cfg meth path body t'"
proof (induction N cfg meth path body dl n t rule: do_loop.induct)
  case (1 N cfg meth path body dl n t)
  from "1.prems" show ?case
    by (subst (asm) do_loop.simps)
      (use "1.IH" [OF refl refl refl _ refl] in
        \<open>auto simp: Let_def split: option.splits http_outcome.splits if_splits\<close>)
qed

lemma do_loop_silent:
  "fst (snd (do_loop N cfg meth path body dl n t)) = [] \<Longrightarrow>
   \<exists>e. fst (do_loop N cfg meth path body dl n t) = Inl (ml_err (meth @ '' '' @ path) KindValidation 0 e)"
  by (subst (asm) do_loop.simps, subst do_loop.simps)
    (auto simp: Let_def split: option.splits http_outcome.splits if_splits)

lemma do_loop_dead:
  assumes "\<not> ctx_live N t"
  shows "length (fst (snd (do_loop N cfg meth path body dl n t))) \<le> 1"
proof -
  have "\<not> retryableAfter N dl b (t + int k)" for b k
    using assms by (auto simp: retryableAfter_def ctx_live_def split: option.splits)
  then show ?thesis
    by (subst do_loop.simps) (simp add: Let_def split: option.splits http_outcome.splits)
qed

lemma retry_cost:
  assumes "retryableAfter N dl (backoff_at n) (t + int k)"
    and "\<not> ctx_live N u \<Longrightarrow> m \<le> 1" and "int m * (100 * 10 ^ 6) \<le> max 0 (dl - u) + 200 * 10 ^ 6"
    and u: "u = sleep_until N (t + int k) (backoff_at n)"
  shows "int (Suc m) * (100 * 10 ^ 6) \<le> max 0 (dl - t) + 200 * 10 ^ 6"
proof (cases "ctx_live N u")
  case True
  then have "u = t + int k + backoff_at n"
    using u by (auto simp: sleep_until_def ctx_live_def split: option.splits)
  with assms backoff_at_min [of n] show ?thesis by (simp add: retryableAfter_def algebra_simps)
next
  case False
  with assms(2) have "m \<le> 1" .
  then show ?thesis by (cases m) auto
qed

lemma do_loop_bounded:
  "int (length (fst (snd (do_loop N cfg meth path body dl n t)))) * (100 * 10 ^ 6) \<le>
   max 0 (dl - t) + 200 * 10 ^ 6"
proof (induction N cfg meth path body dl n t rule: do_loop.induct)
  case (1 N cfg meth path body dl n t)
  let ?rq = "mk_request cfg meth path body t"
  let ?t1 = "t + int (snd (hc_do N ?rq t))"
  have step: "int (Suc (length (fst (snd (do_loop N cfg meth path body dl (Suc n)
        (sleep_until N ?t1 (backoff_at n))))))) * (100 * 10 ^ 6) \<le> max 0 (dl - t) + 200 * 10 ^ 6"
    if "retryableAfter N dl (backoff_at n) ?t1" and "int (length (fst (snd (do_loop N cfg meth path body dl (Suc n)
        (sleep_until N ?t1 (backoff_at n)))))) * (100 * 10 ^ 6) \<le>
        max 0 (dl - sleep_until N ?t1 (backoff_at n)) + 200 * 10 ^ 6"
    by (rule retry_cost [OF that(1) _ that(2) refl]) (rule do_loop_dead)
  show ?case
    by (subst do_loop.simps)
      (use 1 [OF refl refl refl _ refl] step in
        \<open>auto simp: Let_def split: option.splits http_outcome.splits\<close>)
qed

lemma ml_do_requests:
  "ml_do N cfg meth path body dec zero t = (r, rqs, t') \<Longrightarrow> rq \<in> set rqs \<Longrightarrow>
   hr_path rq = path \<and> hr_payload rq = body \<and> hr_method rq = meth"
  using do_loop_requests [of rq N cfg meth path body "ml_deadline N cfg t" 0 t]
  by (cases "do_loop N cfg meth path body (ml_deadline N cfg t) 0 t")
    (auto simp: ml_do_def mk_request_def split: sum.splits if_splits)

lemma ml_do_silent:
  "ml_do N cfg meth path body dec zero t = (r, [], t') \<Longrightarrow>
   \<exists>e. r = Inl (ml_err (meth @ '' '' @ path) KindValidation 0 e)"
  using do_loop_silent [of N cfg meth path body "ml_deadline N cfg t" 0 t]
  by (cases "do_loop N cfg meth path body (ml_deadline N cfg t) 0 t")
    (auto simp: ml_do_def split: sum.splits if_splits)

lemma GetParty_requests:
  "GetParty N cfg ty pid t = (r, rqs, t') \<Longrightarrow> rq \<in> set rqs \<Longrightarrow> hr_path rq \<noteq> ''/transfers''"
  by (auto simp: GetParty_def split: prod.splits sum.splits if_splits dest!: ml_do_requests)

lemma RequestQuote_requests:
  "RequestQuote N cfg req q tr t = (r, rqs, t') \<Longrightarrow> rq \<in> set rqs \<Longrightarrow> hr_path rq = ''/quotes''"
  by (auto simp: RequestQuote_def split: prod.splits sum.splits if_splits dest!: ml_do_requests)

lemma SendTransfer_requests:
  "SendTransfer N cfg body tr c t = (r, rqs, t') \<Longrightarrow> rq \<in> set rqs \<Longrightarrow>
   hr_path rq = ''/transfers'' \<and> hr_payload rq = Some body"
  by (auto simp: SendTransfer_def Let_def split: prod.splits sum.splits go_error.splits if_splits
      dest!: ml_do_requests)

lemma SendTransfer_ok:
  assumes "SendTransfer N cfg body tid c t = (Inr tr, rqs, t')"
  shows "tr_TransferState tr \<noteq> ''ABORTED''" and "rqs \<noteq> []"
    and "tr_Fulfilment tr \<noteq> [] \<Longrightarrow> c \<noteq> [] \<Longrightarrow> verifyFulfilment (sha256 N) (tr_Fulfilment tr) c"
  using assms
  by (auto simp: SendTransfer_def Let_def ml_err_def split: prod.splits sum.splits go_error.splits if_splits
      dest!: ml_do_silent)

text \<open>The payload fields a request carries.\<close>

fun json_field :: "string \<Rightarrow> json \<Rightarrow> json option" where
  "json_field k (JObj fs) = map_of fs k"
| "json_field k _ = None"

lemma ml_Transfer_cases:
  assumes "ml_Transfer N cfg req t = (r, rqs, t')"
  obtains (invalid) e where "r = Inl (ml_err ''Transfer'' KindValidation 0 e)" and "rqs = []"
      and "mr_IdempotencyKey req = [] \<or> mr_AmountMinor req \<le> 0 \<or> mr_Currency req = []"
  | (party) e where "r = Inl e" and "GetParty N cfg (mc_PayeePartyType cfg) (mc_PayeePartyID cfg) t = (Inl e, rqs, t')"
  | (quote) e p r1 t1 r2 where "r = Inl e" and "rqs = r1 @ r2"
      and "GetParty N cfg (mc_PayeePartyType cfg) (mc_PayeePartyID cfg) t = (Inr p, r1, t1)"
      and "RequestQuote N cfg req (deterministicID (sha256 N) ''quote'' (mr_IdempotencyKey req))
          (deterministicID (sha256 N) ''transfer'' (mr_IdempotencyKey req)) t1 = (Inl e, r2, t')"
  | (sent) p r1 t1 q r2 t2 packet condition r3 x where "rqs = r1 @ r2 @ r3"
      and "GetParty N cfg (mc_PayeePartyType cfg) (mc_PayeePartyID cfg) t = (Inr p, r1, t1)"
      and "RequestQuote N cfg req (deterministicID (sha256 N) ''quote'' (mr_IdempotencyKey req))
          (deterministicID (sha256 N) ''transfer'' (mr_IdempotencyKey req)) t1 = (Inr q, r2, t2)"
      and "ilp_material N cfg req (deterministicID (sha256 N) ''transfer'' (mr_IdempotencyKey req)) q t2 =
          (packet, condition)"
      and "SendTransfer N cfg (transfer_body N cfg req (deterministicID (sha256 N) ''transfer'' (mr_IdempotencyKey req))
          (pt_FSPID p) packet condition t2) (deterministicID (sha256 N) ''transfer'' (mr_IdempotencyKey req))
          condition t2 = (x, r3, t')"
      and "r = (case x of Inl e \<Rightarrow> Inl e | Inr tr \<Rightarrow> Inr \<lparr>res_TransferID = tr_TransferID tr,
          res_TransferState = tr_TransferState tr, res_PayeeFSPID = pt_FSPID p,
          res_QuoteID = deterministicID (sha256 N) ''quote'' (mr_IdempotencyKey req),
          res_FulfilmentVerified = (tr_Fulfilment tr \<noteq> [])\<rparr>)"
      and "mr_IdempotencyKey req \<noteq> []" and "0 < mr_AmountMinor req" and "mr_Currency req \<noteq> []"
  using assms
  by (auto simp: ml_Transfer_def Let_def split: prod.splits sum.splits if_splits)

lemma ml_Transfer_requests:
  assumes "ml_Transfer N cfg req t = (r, rqs, t')" and "rq \<in> set rqs" and "hr_path rq = ''/transfers''"
  shows "\<exists>payee packet condition u. hr_payload rq = Some (transfer_body N cfg req
    (deterministicID (sha256 N) ''transfer'' (mr_IdempotencyKey req)) payee packet condition u)"
  using assms(1)
proof (cases rule: ml_Transfer_cases)
  case (sent p r1 t1 q r2 t2 packet condition r3 x)
  have "rq \<notin> set r1" using GetParty_requests [OF sent(2)] assms(3) by blast
  moreover have "rq \<notin> set r2" using RequestQuote_requests [OF sent(3)] assms(3) by auto
  ultimately have "rq \<in> set r3" using assms(2) sent(1) by simp
  with SendTransfer_requests [OF sent(5)] show ?thesis by blast
next
  case (quote e p r1 t1 r2)
  with GetParty_requests [OF quote(3)] RequestQuote_requests [OF quote(4)] assms(2,3) show ?thesis by auto
next
  case (party e)
  with GetParty_requests assms(2,3) show ?thesis by blast
qed (use assms(2) in simp)

lemma PaymentStatus_error: "PaymentStatus (Some e) \<noteq> ''settled''"
  by (auto simp: PaymentStatus_def split: go_error.splits ErrorKind.splits)

lemma b64_encode_nonempty: "bs \<noteq> [] \<Longrightarrow> b64_encode bs \<noteq> []"
  by (cases bs rule: b64_split.cases) (auto simp: b64_encode_def Let_def)

lemma ilp_material_condition:
  assumes "sha_ok (sha256 N)" and "ilp_material N cfg req tid q t = (packet, condition)"
  shows "condition \<noteq> []"
proof -
  have "sha256 N m \<noteq> []" for m using assms(1) by (metis sha_ok_def list.size(3) zero_neq_numeral)
  then show ?thesis using assms(2)
    by (auto simp: ilp_material_def buildILP_def conditionFor_def b64_encode_nonempty Let_def
        split: if_splits)
qed

section \<open>A worked flow\<close>

lemma ml_do_ok:
  assumes "url_error N (mc_Endpoint cfg @ path) = None" and "200 \<le> status" and "status < 300"
    and "hc_do N (mk_request cfg meth path body t) t = (HttpResponse status b, d)"
    and "b \<noteq> []" and "dec b = Inr x"
  shows "ml_do N cfg meth path body dec zero t = (Inr x, [mk_request cfg meth path body t], t + int d)"
  using assms by (simp add: ml_do_def do_loop.simps Let_def mk_request_def)

definition demo_net :: net where
  "demo_net =
     \<lparr>hc_do = (\<lambda>rq t. (HttpResponse 200 ''body'', 5)),
      url_error = (\<lambda>_. None), dec_error = (\<lambda>_. None),
      dec_party = (\<lambda>_. Inr \<lparr>pt_FSPID = ''payeefsp'', pt_Name = ''Operator''\<rparr>),
      dec_quote = (\<lambda>_. Inr \<lparr>q_Currency = ''eur'', q_Expiration = [], q_ILPPacket = [], q_Condition = []\<rparr>),
      dec_transfer = (\<lambda>_. Inr \<lparr>tr_TransferID = [], tr_TransferState = ''COMMITTED'', tr_Fulfilment = []\<rparr>),
      fmt_rfc3339 = (\<lambda>_. ''2026-01-01T12:00:00Z''), parse_rfc3339 = (\<lambda>_. None),
      fmt_ilp = (\<lambda>_. ''20260101120000.000Z''), sha256 = (\<lambda>m. replicate 32 (sum_list m mod 256)),
      ctx_deadline = None, ctx_done = None\<rparr>"

definition demo_config :: ml_config where
  "demo_config =
     \<lparr>mc_Endpoint = ''http://switch'', mc_DFSPID = ''h2fleet'', mc_PayeePartyID = ''h2fleet-operator'',
      mc_PayeePartyType = ''BUSINESS'', mc_Secret = [], mc_GenerateILP = True,
      mc_AttemptTimeout = 8 * second_ns, mc_RetryBudget = 20 * second_ns\<rparr>"

definition demo_request :: ml_request where
  "demo_request =
     \<lparr>mr_IdempotencyKey = ''k1'', mr_PayerPartyID = ''ann'', mr_PayerPartyType = ''ALIAS'',
      mr_AmountMinor = 250, mr_Currency = ''EUR''\<rparr>"

lemma demo_sha_ok: "sha_ok (sha256 demo_net)"
  by (simp add: sha_ok_def byte_list_def demo_net_def)

lemma demo_ml_do:
  "dec ''body'' = Inr x \<Longrightarrow>
   ml_do demo_net cfg meth path body dec zero t = (Inr x, [mk_request cfg meth path body t], t + 5)"
  by (subst ml_do_ok [where status = 200 and b = "''body''" and d = 5]) (simp_all add: demo_net_def)

lemma demo_flow:
  "\<exists>res r1 r2 rq. ml_Transfer demo_net demo_config demo_request 0 = (Inr res, [r1, r2, rq], 15) \<and>
     hr_path rq = ''/transfers''"
proof -
  let ?tid = "deterministicID (sha256 demo_net) ''transfer'' ''k1''"
  obtain p c where ilp: "ilp_material demo_net demo_config demo_request ?tid
      \<lparr>q_Currency = ''eur'', q_Expiration = [], q_ILPPacket = [], q_Condition = []\<rparr> 10 = (p, c)"
    by (metis prod.exhaust)
  have dec: "dec_party demo_net b = Inr \<lparr>pt_FSPID = ''payeefsp'', pt_Name = ''Operator''\<rparr>"
    "dec_quote demo_net b = Inr \<lparr>q_Currency = ''eur'', q_Expiration = [], q_ILPPacket = [], q_Condition = []\<rparr>"
    "dec_transfer demo_net b = Inr \<lparr>tr_TransferID = [], tr_TransferState = ''COMMITTED'', tr_Fulfilment = []\<rparr>" for b
    by (simp_all add: demo_net_def)
  have party: "GetParty demo_net cfg ty pid t = (Inr \<lparr>pt_FSPID = ''payeefsp'', pt_Name = ''Operator''\<rparr>,
      [mk_request cfg ''GET'' (''/parties/'' @ ty @ ''/'' @ pid) None t], t + 5)" for cfg ty pid t
    unfolding GetParty_def by (simp add: demo_ml_do dec)
  have quote: "RequestQuote demo_net cfg demo_request q tr t =
      (Inr \<lparr>q_Currency = ''eur'', q_Expiration = [], q_ILPPacket = [], q_Condition = []\<rparr>,
       [mk_request cfg ''POST'' ''/quotes'' (Some (quote_body demo_net cfg demo_request q tr t)) t], t + 5)" for cfg q tr t
    unfolding RequestQuote_def
    by (simp add: demo_ml_do dec demo_request_def equal_fold_def to_lower_def char_of_def bit_0)
  have send: "\<exists>tr. SendTransfer demo_net cfg body tr' c t =
      (Inr tr, [mk_request cfg ''POST'' ''/transfers'' (Some body) t], t + 5)" for cfg body tr' t
    unfolding SendTransfer_def by (simp add: demo_ml_do dec)
  have req: "mr_IdempotencyKey demo_request = ''k1''" "\<not> mr_AmountMinor demo_request \<le> 0"
    "mr_Currency demo_request \<noteq> []" by (simp_all add: demo_request_def)
  obtain tr where "SendTransfer demo_net demo_config (transfer_body demo_net demo_config demo_request ?tid
      ''payeefsp'' p c 10) ?tid c 10 = (Inr tr, [mk_request demo_config ''POST'' ''/transfers''
        (Some (transfer_body demo_net demo_config demo_request ?tid ''payeefsp'' p c 10)) 10], 15)"
    using send [of demo_config "transfer_body demo_net demo_config demo_request ?tid ''payeefsp'' p c 10" ?tid 10]
    by auto
  then show ?thesis
    by (simp add: ml_Transfer_def party quote req Let_def ilp) (simp add: mk_request_def)
qed

section \<open>Properties\<close>

text \<open>
  A retry can never become a second transfer: every \<open>POST /transfers\<close> the flow sends, whatever
  the network answers, carries the transfer id derived from the idempotency key alone and the
  requested amount and currency.
\<close>

theorem mojaloop_transfer_id_fixed:
  assumes "ml_Transfer N cfg req t = (r, rqs, t')" and "rq \<in> set rqs" and "hr_path rq = ''/transfers''"
  shows "\<exists>payload. hr_payload rq = Some payload \<and>
    json_field ''transferId'' payload =
      Some (JStr (deterministicID (sha256 N) ''transfer'' (mr_IdempotencyKey req))) \<and>
    json_field ''amount'' payload = Some (money_json (mr_AmountMinor req) (mr_Currency req))"
  using ml_Transfer_requests [OF assms] by (auto simp: transfer_body_def)

theorem mojaloop_transfer_id_fixed_witness:
  "\<exists>rq payload. rq \<in> set (fst (snd (ml_Transfer demo_net demo_config demo_request 0))) \<and>
    hr_payload rq = Some payload \<and> json_field ''amount'' payload = Some (money_json 250 ''EUR'')"
proof -
  obtain res r1 r2 rq where flow: "ml_Transfer demo_net demo_config demo_request 0 = (Inr res, [r1, r2, rq], 15)"
    and path: "hr_path rq = ''/transfers''" using demo_flow by blast
  from mojaloop_transfer_id_fixed [OF flow _ path] flow show ?thesis by (auto simp: demo_request_def)
qed

text \<open>
  C23. The retry loop is bounded: one call of \<open>do\<close> sends at most two requests more than one per
  100 milliseconds of its retry budget.
\<close>

theorem mojaloop_retries_bounded:
  assumes "0 \<le> mc_RetryBudget cfg" and "ml_do N cfg meth path body dec zero t = (r, rqs, t')"
  shows "int (length rqs) * (100 * 10 ^ 6) \<le> mc_RetryBudget cfg + 200 * 10 ^ 6"
proof -
  have "rqs = fst (snd (do_loop N cfg meth path body (ml_deadline N cfg t) 0 t))"
    using assms(2) by (auto simp: ml_do_def split: prod.splits sum.splits if_splits)
  moreover have "ml_deadline N cfg t - t \<le> mc_RetryBudget cfg"
    by (auto simp: ml_deadline_def split: option.splits)
  ultimately show ?thesis
    using assms(1) do_loop_bounded [of N cfg meth path body "ml_deadline N cfg t" 0 t] by simp
qed

theorem mojaloop_retries_bounded_witness:
  "\<exists>rqs t'. ml_do demo_net demo_config ''GET'' ''/parties/x/y'' None (dec_party demo_net)
      \<lparr>pt_FSPID = [], pt_Name = []\<rparr> 0 = (Inr \<lparr>pt_FSPID = ''payeefsp'', pt_Name = ''Operator''\<rparr>, rqs, t') \<and>
    int (length rqs) * (100 * 10 ^ 6) \<le> mc_RetryBudget demo_config + 200 * 10 ^ 6"
proof -
  have run: "ml_do demo_net demo_config ''GET'' ''/parties/x/y'' None (dec_party demo_net)
      \<lparr>pt_FSPID = [], pt_Name = []\<rparr> 0 = (Inr \<lparr>pt_FSPID = ''payeefsp'', pt_Name = ''Operator''\<rparr>,
        [mk_request demo_config ''GET'' ''/parties/x/y'' None 0], 0 + 5)"
    by (rule demo_ml_do) (simp add: demo_net_def)
  have "0 \<le> mc_RetryBudget demo_config" by (simp add: demo_config_def second_ns_def)
  from mojaloop_retries_bounded [OF this run] run show ?thesis by blast
qed

text \<open>
  A reported success is one: the flow only succeeds for a positive amount, after a transfer
  request was sent, in a state other than \<open>ABORTED\<close>; and it reports a verified fulfilment only when
  the switch returned one that satisfies the condition of the transfer request. A failure never maps
  to the status \<open>settled\<close>.
\<close>

theorem mojaloop_success_sound:
  assumes "ml_Transfer N cfg req t = (Inr res, rqs, t')" and "sha_ok (sha256 N)"
  shows "0 < mr_AmountMinor req \<and> res_TransferState res \<noteq> ''ABORTED'' \<and>
    (\<exists>rq \<in> set rqs. \<exists>payload c. hr_path rq = ''/transfers'' \<and> hr_payload rq = Some payload \<and>
      json_field ''condition'' payload = Some (JStr c) \<and>
      (res_FulfilmentVerified res \<longrightarrow> (\<exists>f. f \<noteq> [] \<and> verifyFulfilment (sha256 N) f c))) \<and>
    (\<forall>e. PaymentStatus (Some e) \<noteq> ''settled'')"
  using assms(1)
proof (cases rule: ml_Transfer_cases)
  case (sent p r1 t1 q r2 t2 packet condition r3 x)
  then obtain tr where x: "x = Inr tr" by (cases x) auto
  with sent have res: "res_TransferState res = tr_TransferState tr"
    "res_FulfilmentVerified res = (tr_Fulfilment tr \<noteq> [])" by simp_all
  note ok = SendTransfer_ok [OF sent(5) [unfolded x]]
  from ok(2) obtain rq where rq: "rq \<in> set r3" by (cases r3) auto
  have cond: "condition \<noteq> []" using ilp_material_condition [OF assms(2) sent(4)] .
  have "json_field ''condition'' (the (hr_payload rq)) = Some (JStr condition)" "hr_payload rq \<noteq> None"
    "hr_path rq = ''/transfers''"
    using SendTransfer_requests [OF sent(5) rq] by (simp_all add: transfer_body_def)
  with rq sent(1,8) ok(1,3) cond res PaymentStatus_error show ?thesis by fastforce
qed (simp_all add: ml_err_def)

theorem mojaloop_success_sound_witness:
  "\<exists>res rqs. ml_Transfer demo_net demo_config demo_request 0 = (Inr res, rqs, 15) \<and>
    res_TransferState res \<noteq> ''ABORTED'' \<and> (\<exists>rq \<in> set rqs. hr_path rq = ''/transfers'')"
proof -
  obtain res r1 r2 rq where flow: "ml_Transfer demo_net demo_config demo_request 0 = (Inr res, [r1, r2, rq], 15)"
    using demo_flow by blast
  from mojaloop_success_sound [OF flow demo_sha_ok] flow show ?thesis by blast
qed

text \<open>
  The flow is not safe to retry from any point: when the switch answers a repeated quote id with
  409, which the client classifies as a duplicate, the flow ends there with that error, no transfer
  is sent, and the payment is marked \<open>mojaloop_unavailable\<close>. Only \<open>SendTransfer\<close> treats a duplicate
  as the replay of a success.
\<close>

theorem mojaloop_duplicate_quote_fails:
  assumes "ml_Transfer N cfg req t = (r, rqs, t')" and "url_error N (mc_Endpoint cfg @ ''/quotes'') = None"
    and "\<And>rq u. hr_path rq = ''/quotes'' \<Longrightarrow> fst (hc_do N rq u) = HttpResponse 409 b"
    and "mr_IdempotencyKey req \<noteq> []" and "0 < mr_AmountMinor req" and "mr_Currency req \<noteq> []"
    and "GetParty N cfg (mc_PayeePartyType cfg) (mc_PayeePartyID cfg) t = (Inr payee, r1, t1)"
  shows "\<exists>e. r = Inl e \<and> PaymentStatus (Some e) = ''mojaloop_unavailable'' \<and>
    (\<forall>rq. rq \<in> set rqs \<longrightarrow> hr_path rq \<noteq> ''/transfers'')"
proof -
  have "fst (ml_do N cfg ''POST'' ''/quotes'' body dec zero u) = Inl (ml_err ''POST /quotes'' KindDuplicate 409 b)"
    for body dec zero u
    using assms(2,3) by (simp add: ml_do_def do_loop.simps mk_request_def Let_def)
  note dup = this
  have "fst (RequestQuote N cfg req q tr u) = Inl (ml_err ''POST /quotes'' KindDuplicate 409 b)" for q tr u
  proof -
    obtain rs t'' where "ml_do N cfg ''POST'' ''/quotes'' (Some (quote_body N cfg req q tr u)) (dec_quote N)
        \<lparr>q_Currency = [], q_Expiration = [], q_ILPPacket = [], q_Condition = []\<rparr> u =
        (Inl (ml_err ''POST /quotes'' KindDuplicate 409 b), rs, t'')"
      using dup by (metis prod.collapse)
    then show ?thesis by (simp add: RequestQuote_def)
  qed
  then obtain r2 t2 where rq: "RequestQuote N cfg req (deterministicID (sha256 N) ''quote'' (mr_IdempotencyKey req))
      (deterministicID (sha256 N) ''transfer'' (mr_IdempotencyKey req)) t1 =
      (Inl (ml_err ''POST /quotes'' KindDuplicate 409 b), r2, t2)"
    by (metis prod.collapse)
  with assms have "r = Inl (ml_err ''POST /quotes'' KindDuplicate 409 b)" and "rqs = r1 @ r2"
    by (simp_all add: ml_Transfer_def Let_def)
  moreover have "hr_path x \<noteq> ''/transfers''" if "x \<in> set (r1 @ r2)" for x
    using that GetParty_requests [OF assms(7)] RequestQuote_requests [OF rq] by auto
  ultimately show ?thesis by (simp add: PaymentStatus_def ml_err_def)
qed

definition dup_net :: net where
  "dup_net = demo_net\<lparr>hc_do := (\<lambda>rq t.
     (if hr_path rq = ''/quotes'' then HttpResponse 409 ''known'' else HttpResponse 200 ''body'', 5))\<rparr>"

theorem mojaloop_duplicate_quote_fails_witness:
  "\<exists>e. fst (ml_Transfer dup_net demo_config demo_request 0) = Inl e \<and>
     PaymentStatus (Some e) = ''mojaloop_unavailable''"
proof -
  have party: "GetParty dup_net cfg ty pid t = (Inr \<lparr>pt_FSPID = ''payeefsp'', pt_Name = ''Operator''\<rparr>,
      [mk_request cfg ''GET'' (''/parties/'' @ ty @ ''/'' @ pid) None t], t + 5)" for cfg ty pid t
  proof -
    have "ml_do dup_net cfg ''GET'' (''/parties/'' @ ty @ ''/'' @ pid) None (dec_party dup_net) zero t =
        (Inr \<lparr>pt_FSPID = ''payeefsp'', pt_Name = ''Operator''\<rparr>,
         [mk_request cfg ''GET'' (''/parties/'' @ ty @ ''/'' @ pid) None t], t + int 5)" for zero
      by (rule ml_do_ok [where status = 200 and b = "''body''"])
        (simp_all add: dup_net_def demo_net_def mk_request_def)
    then show ?thesis by (simp add: GetParty_def)
  qed
  obtain r rqs t' where run: "ml_Transfer dup_net demo_config demo_request 0 = (r, rqs, t')"
    by (metis prod.exhaust)
  have "\<exists>e. r = Inl e \<and> PaymentStatus (Some e) = ''mojaloop_unavailable'' \<and>
      (\<forall>rq. rq \<in> set rqs \<longrightarrow> hr_path rq \<noteq> ''/transfers'')"
    by (rule mojaloop_duplicate_quote_fails [OF run _ _ _ _ _ party, where b = "''known''"])
      (simp_all add: dup_net_def demo_net_def demo_request_def)
  with run show ?thesis by auto
qed

definition read_minor :: "string \<Rightarrow> nat" where
  "read_minor s = read_dec (filter (\<lambda>c. c \<noteq> CHR ''.'') s)"

lemma pad2_digits:
  assumes "n < 100"
  shows "pad2 (int n) = [char_of (48 + n div 10), char_of (48 + n mod 10)]"
proof (cases "n < 10")
  case True
  then have "show_nat n = [char_of (48 + n)]" by (subst show_nat.simps) simp
  moreover have "char_of (48 :: nat) = CHR ''0''" by code_simp
  ultimately show ?thesis using True by (simp add: pad2_def show_int_def)
next
  case False
  have "n div 10 < 10" using assms by (simp add: div_less_iff_less_mult)
  then have "show_nat (n div 10) = [char_of (48 + n div 10)]" by (subst show_nat.simps) simp
  with False have "show_nat n = [char_of (48 + n div 10), char_of (48 + n mod 10)]"
    by (subst show_nat.simps) simp
  then show ?thesis by (simp add: pad2_def show_int_def)
qed

text \<open>
  The decimal amount sent to the switch is exact: for every non-negative \<open>int64\<close> number of minor
  units, dropping the point of \<open>minorToMajor\<close> and reading the digits gives the minor units back, and
  the point stands before exactly two digits.
\<close>

theorem minor_to_major_exact:
  assumes "0 \<le> m" and "in_i64 m"
  shows "read_minor (minorToMajor m) = nat m \<and>
    (\<exists>whole d1 d2. minorToMajor m = whole @ ''.'' @ [d1, d2] \<and> CHR ''.'' \<notin> set whole)"
proof -
  define k where "k = nat m"
  have m: "m = int k" using assms(1) by (simp add: k_def)
  have str: "minorToMajor m = show_nat (k div 100) @ ''.'' @ [char_of (48 + k mod 100 div 10), char_of (48 + k mod 100 mod 10)]"
  proof -
    have "go_div m 100 = int (k div 100)" "go_rem m 100 = int (k mod 100)"
      by (simp_all add: m go_div_nonneg go_rem_def zdiv_int zmod_int minus_mult_div_eq_mod)
    then show ?thesis using pad2_digits [of "k mod 100"] by (simp add: minorToMajor_def Let_def m show_int_def)
  qed
  have nodot: "CHR ''.'' \<notin> set (show_nat n)" for n
    using show_nat_digits [of "CHR ''.''" n] by auto
  have digit: "char_of (48 + d) \<noteq> CHR ''.''" "of_char (char_of (48 + d) :: char) = 48 + d" if "d < 10" for d :: nat
  proof -
    show d: "of_char (char_of (48 + d) :: char) = 48 + d" using that by simp
    show "char_of (48 + d) \<noteq> CHR ''.''"
    proof
      assume "char_of (48 + d) = CHR ''.''"
      then have "of_char (char_of (48 + d) :: char) = (of_char (CHR ''.'') :: nat)" by (rule arg_cong)
      with that show False by simp
    qed
  qed
  have digits: "(a * 10 + b) * 10 + c = k" if "a * 100 + n = k" "b * 10 + c = n" for a b c n k :: nat
    using that by simp
  have "k mod 100 div 10 < 10" "k mod 100 mod 10 < 10" by auto
  note ds = digit [OF this(1)] digit [OF this(2)]
  have "filter (\<lambda>c. c \<noteq> CHR ''.'') (show_nat (k div 100)) = show_nat (k div 100)"
    using nodot [of "k div 100"] by (auto simp: filter_id_conv)
  then have "read_minor (minorToMajor m) = read_dec ((show_nat (k div 100) @ [char_of (48 + k mod 100 div 10)]) @
      [char_of (48 + k mod 100 mod 10)])"
    using ds by (simp add: read_minor_def str)
  also have "\<dots> = (k div 100 * 10 + k mod 100 div 10) * 10 + k mod 100 mod 10"
    using ds by (simp only: read_dec_snoc read_show_nat) simp
  also have "\<dots> = k" by (rule digits [OF div_mult_mod_eq div_mult_mod_eq])
  finally show ?thesis using str nodot by (simp add: k_def)
qed

theorem minor_to_major_exact_witness: "read_minor (minorToMajor 250) = 250"
  using minor_to_major_exact [of 250] by (simp add: in_i64_def)

end
