(* ===== verification/Payments.thy ===== *)
theory Payments
  imports Wallets Loyalty Mojaloop
begin

text \<open>
  Fare payments (src/services/go/commerce-api/internal/handlers/payments.go): pricing with
  entitlements and the daily cap, the payment transaction with its ledger and Mojaloop legs, refunds,
  and the two read handlers. The whole of \<open>CreatePayment\<close> up to its commit runs under a per-rider
  advisory lock, so a call is one step against the rider's rows. What the transaction wrote is undone
  when it does not commit; the rider account (its own transaction) and the ledger posting are not.
\<close>

section \<open>Configuration\<close>

definition effectiveCharged :: "payment \<Rightarrow> int" where
  "effectiveCharged p = (case p_charged_minor p of Some c \<Rightarrow> c | None \<Rightarrow> p_amount_minor p)"

definition dailyCapMinor :: "(string \<Rightarrow> string) \<Rightarrow> int" where
  "dailyCapMinor ge =
     (if ge ''FARE_DAILY_CAP_MINOR'' = [] then 800
      else case parse_int64 (ge ''FARE_DAILY_CAP_MINOR'') of
        None \<Rightarrow> 800
      | Some n \<Rightarrow> if n < 0 then 800 else n)"

definition fareCapTimezone :: "(string \<Rightarrow> string) \<Rightarrow> string" where
  "fareCapTimezone ge = (if ge ''FARE_CAP_TIMEZONE'' \<noteq> [] then ge ''FARE_CAP_TIMEZONE'' else ''UTC'')"

definition platformCurrency :: "(string \<Rightarrow> string) \<Rightarrow> string" where
  "platformCurrency ge = (if ge ''PLATFORM_CURRENCY'' \<noteq> [] then ge ''PLATFORM_CURRENCY'' else ''EUR'')"

definition envOr :: "(string \<Rightarrow> string) \<Rightarrow> string \<Rightarrow> string \<Rightarrow> string" where
  "envOr ge key fallback = (if ge key \<noteq> [] then ge key else fallback)"

section \<open>The request\<close>

record payment_request =
  pq_amount_minor :: int
  pq_currency :: string
  pq_rider_sub :: string
  pq_use_mojaloop :: bool

text \<open>The checks before the transaction: a refusal, or the request with its defaults filled in.\<close>

definition payment_checks ::
  "(string \<Rightarrow> string) \<Rightarrow> ctx \<Rightarrow> string \<Rightarrow> payment_request option \<Rightarrow> payment resp + payment_request" where
  "payment_checks ge c idemKey body =
     (if idemKey = [] then Inl (Err 400 ''Idempotency-Key header is required'')
      else case body of
        None \<Rightarrow> Inl (Err 400 ''invalid JSON body'')
      | Some req0 \<Rightarrow>
          if pq_amount_minor req0 \<le> 0 then Inl (Err 400 ''amount_minor must be positive'')
          else
            let req = (if pq_currency req0 = [] then req0\<lparr>pq_currency := ''EUR''\<rparr> else req0);
                subject = Subject c in
            if subject = [] then Inl (Err 401 ''authenticated subject required'')
            else if pq_rider_sub req \<noteq> [] \<and> pq_rider_sub req \<noteq> subject
            then Inl (Err 403 ''rider_sub does not match the authenticated subject'')
            else if pq_currency req \<noteq> platformCurrency ge
            then Inl (Err 422 (''unsupported currency '' @ go_quote (pq_currency req) @
                   '' (platform settles in '' @ platformCurrency ge @ '')''))
            else Inr (req\<lparr>pq_rider_sub := subject\<rparr>))"

section \<open>Pricing\<close>

text \<open>Today's settled spend of a rider, from the civic midnight on.\<close>

definition spent_since :: "int \<Rightarrow> string \<Rightarrow> payment list \<Rightarrow> int" where
  "spent_since midnight sub ps =
     sum_where (\<lambda>p. p_rider_sub p = sub \<and> p_status p = ''settled'' \<and> p_created_at p \<ge> midnight)
       effectiveCharged ps"

definition midnight_of :: "'l env \<Rightarrow> int" where
  "midnight_of E = day_start E (fareCapTimezone (getenv E)) (now E)"

definition spent_today :: "'l env \<Rightarrow> string \<Rightarrow> payment list \<Rightarrow> int" where
  "spent_today E sub ps = spent_since (midnight_of E) sub ps"

definition price_payment ::
  "'l env \<Rightarrow> string \<Rightarrow> int \<Rightarrow> 'l store \<Rightarrow> string + (int \<times> string \<times> string \<times> string option \<times> int)" where
  "price_payment E sub amount s =
     (case resolveEntitlement E sub amount s of
        Inl e \<Rightarrow> Inl ''resolve fare entitlement''
      | Inr (charge, code, ent, payer) \<Rightarrow>
          let cap = dailyCapMinor (getenv E) in
          if cap > 0 \<and> charge > 0 then
            (let spent = spent_today E sub (fare_payments s) in
             if fault E ''compute daily fare spend'' \<or> \<not> in_i64 spent then Inl ''compute daily fare spend''
             else
               let remaining = i64 (cap - spent) in
               Inr (if remaining < charge then max remaining 0 else charge, code, ent, payer, spent))
          else Inr (charge, code, ent, payer, 0))"

section \<open>The Mojaloop leg\<close>

definition mojaloopTransfer ::
  "'l env \<Rightarrow> net \<Rightarrow> string \<Rightarrow> string \<Rightarrow> payment_request \<Rightarrow> int \<Rightarrow> go_error + string" where
  "mojaloopTransfer E N endpoint idemKey req amountMinor =
     (if endpoint = [] then
        (if envOr (getenv E) ''H2_SIMULATED_MOJALOOP'' [] \<noteq> ''true''
         then Inl (ml_err ''transfer'' KindUnavailable 0
           ''MOJALOOP_ENDPOINT is not configured (set H2_SIMULATED_MOJALOOP=true to opt into the simulated dev transfer)'')
         else Inr (''ml-simulated-'' @ new_id E 5))
      else case ml_New
          \<lparr>mc_Endpoint = endpoint, mc_DFSPID = envOr (getenv E) ''MOJALOOP_DFSP_ID'' ''h2fleet'',
           mc_PayeePartyID = envOr (getenv E) ''MOJALOOP_PAYEE_PARTY_ID'' ''h2fleet-operator'',
           mc_PayeePartyType = envOr (getenv E) ''MOJALOOP_PAYEE_PARTY_TYPE'' ''BUSINESS'',
           mc_Secret = getenv E ''MOJALOOP_ILP_SECRET'',
           mc_GenerateILP = (envOr (getenv E) ''MOJALOOP_GENERATE_ILP'' ''true'' = ''true''),
           mc_AttemptTimeout = 8 * second_ns, mc_RetryBudget = 20 * second_ns\<rparr> of
          Inl e \<Rightarrow> Inl (PlainError e)
        | Inr cfg \<Rightarrow>
            (case fst (ml_Transfer N cfg
                \<lparr>mr_IdempotencyKey = idemKey, mr_PayerPartyID = pq_rider_sub req, mr_PayerPartyType = ''ALIAS'',
                 mr_AmountMinor = amountMinor, mr_Currency = pq_currency req\<rparr> (now E)) of
               Inl e \<Rightarrow> Inl e
             | Inr res \<Rightarrow> Inr (res_TransferID res)))"

definition mojaloop_leg ::
  "'l env \<Rightarrow> net \<Rightarrow> string \<Rightarrow> string \<Rightarrow> payment_request \<Rightarrow> int \<Rightarrow> string \<Rightarrow>
   string \<times> string option \<times> go_error option" where
  "mojaloop_leg E N endpoint idemKey req charge status =
     (if pq_use_mojaloop req \<and> status = ''settled'' then
        (case mojaloopTransfer E N endpoint idemKey req charge of
           Inl e \<Rightarrow> (PaymentStatus (Some e), None, Some e)
         | Inr mid \<Rightarrow> (status, Some mid, None))
      else (status, None, None))"

section \<open>The ledger leg\<close>

text \<open>
  The result: \<open>None\<close> when the rider account cannot be read (the handler answers 500), otherwise the
  status, the transfer id and whether the wallet lacked funds.
\<close>

definition ledger_leg ::
  "'l env \<Rightarrow> string \<Rightarrow> string \<Rightarrow> int \<Rightarrow> 'l store \<Rightarrow> (string \<times> string option \<times> bool) option \<times> 'l store" where
  "ledger_leg E idemKey sub charge s =
     (if charge > 0 then
        (case riderAccount E sub s of
           (Inl e, s1) \<Rightarrow> (None, s1)
         | (Inr account, s1) \<Rightarrow>
             (case post E (DeterministicTransferID (hash16 E) idemKey) account OperatorRevenueAccount
                 (u64 charge) CodeFare (led s1) of
                (Inl e, l) \<Rightarrow> (Some (''failed'', None, is_insufficient e), s1\<lparr>led := l\<rparr>)
              | (Inr transferID, l) \<Rightarrow> (Some (''settled'', Some transferID, False), s1\<lparr>led := l\<rparr>)))
      else (Some (''settled'', None, False), s))"

section \<open>Creating a payment\<close>

definition payment_event :: "string \<Rightarrow> payment_request \<Rightarrow> int \<Rightarrow> string \<Rightarrow> (string \<times> json) list" where
  "payment_event pid req charge code =
     [(''payment_id'', JStr pid), (''rider_sub'', JStr (pq_rider_sub req)),
      (''amount_minor'', JNum (pq_amount_minor req)), (''charged_minor'', JNum charge),
      (''currency'', JStr (pq_currency req))] @
     (if code \<noteq> [] then [(''entitlement'', JObj [(''product_code'', JStr code)])] else [])"

text \<open>The idempotent replay after a unique violation, read outside the failed transaction.\<close>

definition replay_payment :: "'l env \<Rightarrow> ctx \<Rightarrow> string \<Rightarrow> 'l store \<Rightarrow> payment resp" where
  "replay_payment E c idemKey s =
     (if fault E ''load idempotent payment'' then Internal ''load idempotent payment''
      else case find (\<lambda>p. p_idempotency_key p = Some idemKey) (fare_payments s) of
        None \<Rightarrow> Internal ''load idempotent payment''
      | Some existing \<Rightarrow>
          if p_rider_sub existing \<noteq> Subject c \<and> \<not> is_operator c then Err 404 ''payment not found''
          else Reply 200 existing)"

text \<open>
  The corporate accrual: the row to insert when a payer covers part of the fare, \<open>Inl\<close> when the
  insert fails (the payer must exist, a payment accrues once).
\<close>

definition accrue_charge ::
  "'l env \<Rightarrow> string option \<Rightarrow> string \<Rightarrow> string \<Rightarrow> int \<Rightarrow> int \<Rightarrow> 'l store \<Rightarrow> string + billing_charge list" where
  "accrue_charge E payer pid ent amount charge s =
     (case payer of
        None \<Rightarrow> Inr []
      | Some acc \<Rightarrow>
          let covered = i64 (amount - charge) in
          if \<not> covered > 0 then Inr []
          else if fault E ''accrue corporate billing charge'' \<or>
            \<not> (\<exists>b \<in> set (billing_accounts s). ba_id b = acc) \<or>
            (\<exists>b \<in> set (billing_charges s). bc_payment_id b = pid)
          then Inl ''accrue corporate billing charge''
          else Inr [\<lparr>bc_id = new_id E 1, bc_billing_account_id = acc, bc_payment_id = pid,
                     bc_entitlement_id = ent, bc_amount_minor = covered, bc_invoice_id = None,
                     bc_created_at = now E\<rparr>])"

definition payer_event :: "billing_charge list \<Rightarrow> (string \<times> json) list" where
  "payer_event bcs =
     map (\<lambda>b. (''payer_account'', JObj [(''billing_account_id'', JStr (bc_billing_account_id b)),
                (''covered_minor'', JNum (bc_amount_minor b))])) bcs"

definition cap_event :: "int \<Rightarrow> int \<Rightarrow> string \<Rightarrow> int \<Rightarrow> (string \<times> json) list" where
  "cap_event charge amount code spent =
     (if charge < amount \<and> code = []
      then [(''fare_cap'', JObj [(''applied'', JBool True), (''spent_today_minor'', JNum spent)])] else [])"

definition later_ids :: "'l env \<Rightarrow> 'l env" where
  "later_ids E = E\<lparr>new_id := (\<lambda>n. new_id E (n + 10))\<rparr>"

text \<open>After the commit: events, loyalty points, and the reply.\<close>

definition announce_payment ::
  "'l env \<Rightarrow> (string \<times> json) list \<Rightarrow> payment \<Rightarrow> bool \<Rightarrow> go_error option \<Rightarrow> 'l store \<Rightarrow> payment resp \<times> 'l store" where
  "announce_payment E event p insufficient mlErr s =
     (let s1 = publish E ''fare.payment.initiated'' event s in
      if p_status p \<noteq> ''settled'' then
        (let reason = (case mlErr of None \<Rightarrow> ''ledger transfer failed''
                       | Some e \<Rightarrow> ''mojaloop transfer failed: '' @ error_string e);
             s2 = publish E ''fare.payment.failed''
               (event @ [(''reason'', JStr reason), (''failed_at'', JTime (now E))]) s1
         in (ErrWith (if insufficient then 402 else 502) (if insufficient then ''insufficient_funds'' else reason) p, s2))
      else
        (let s2 = publish E ''fare.payment.settled''
               (event @ [(''tb_transfer_id'', opt_str (p_tb_transfer_id p))] @
                (case p_mojaloop_transfer_id p of None \<Rightarrow> [] | Some m \<Rightarrow> [(''mojaloop_transfer_id'', JStr m)]) @
                [(''settled_at'', JTime (now E))]) s1;
             (e, s3) = accrueLoyaltyPoints (later_ids E) (p_id p) (p_rider_sub p) (effectiveCharged p) s2
         in (Reply 201 p, s3)))"

text \<open>
  From the inserted row on: billing accrual, ledger leg, Mojaloop leg, final update and commit.
\<close>

definition settle_payment ::
  "'l env \<Rightarrow> net \<Rightarrow> string \<Rightarrow> string \<Rightarrow> payment_request \<Rightarrow> int \<times> string \<times> string \<times> string option \<times> int \<Rightarrow>
   'l store \<Rightarrow> payment resp \<times> 'l store" where
  "settle_payment E N endpoint idemKey req price s =
     (case price of (charge, code, ent, payer, spent) \<Rightarrow>
      let pid = new_id E 0; sub = pq_rider_sub req; amount = pq_amount_minor req in
      case accrue_charge E payer pid ent amount charge s of
        Inl op \<Rightarrow> (Internal op, s)
      | Inr bcs \<Rightarrow>
          (case ledger_leg E idemKey sub charge s of
             (None, s1) \<Rightarrow> (Internal ''ensure rider ledger account'', s1)
           | (Some (status0, tb, insufficient), s1) \<Rightarrow>
               (case mojaloop_leg E N endpoint idemKey req charge status0 of (status, ml, mlErr) \<Rightarrow>
                let p = \<lparr>p_id = pid, p_rider_sub = sub, p_amount_minor = amount, p_charged_minor = Some charge,
                         p_currency = pq_currency req, p_mojaloop_transfer_id = ml, p_tb_transfer_id = tb,
                         p_idempotency_key = Some idemKey, p_status = status, p_refunded_minor = 0,
                         p_created_at = now E\<rparr> in
                if fault E ''finalize payment'' then (Internal ''finalize payment'', s1)
                else if fault E ''commit payment'' then (Internal ''commit payment'', s1)
                else announce_payment E
                       (payment_event pid req charge code @ payer_event bcs @ cap_event charge amount code spent)
                       p insufficient mlErr
                       (s1\<lparr>fare_payments := fare_payments s1 @ [p],
                          billing_charges := billing_charges s1 @ bcs\<rparr>))))"

definition CreatePayment ::
  "'l env \<Rightarrow> net \<Rightarrow> string \<Rightarrow> ctx \<Rightarrow> string \<Rightarrow> payment_request option \<Rightarrow> 'l store \<Rightarrow> payment resp \<times> 'l store" where
  "CreatePayment E N endpoint c idemKey body s =
     (case payment_checks (getenv E) c idemKey body of
        Inl r \<Rightarrow> (r, s)
      | Inr req \<Rightarrow>
          if fault E ''begin payment transaction'' then (Internal ''begin payment transaction'', s)
          else if fault E ''lock rider payment stream'' then (Internal ''lock rider payment stream'', s)
          else case price_payment E (pq_rider_sub req) (pq_amount_minor req) s of
            Inl op \<Rightarrow> (Internal op, s)
          | Inr price \<Rightarrow>
              if fault E ''insert payment'' then (Internal ''insert payment'', s)
              else if \<exists>p \<in> set (fare_payments s). p_idempotency_key p = Some idemKey \<or> p_id p = new_id E 0
              then (replay_payment E c idemKey s, s)
              else settle_payment E N endpoint idemKey req price s)"

section \<open>Reading payments\<close>

definition GetPayment :: "'l env \<Rightarrow> ctx \<Rightarrow> string \<Rightarrow> 'l store \<Rightarrow> payment resp" where
  "GetPayment E c pid s =
     (if fault E ''get payment'' then Internal ''get payment''
      else case find (\<lambda>p. p_id p = pid) (fare_payments s) of
        None \<Rightarrow> Err 404 ''payment not found''
      | Some p \<Rightarrow>
          if p_rider_sub p \<noteq> Subject c \<and> \<not> is_operator c then Err 404 ''payment not found'' else Reply 200 p)"

definition ListPayments :: "'l env \<Rightarrow> ctx \<Rightarrow> string \<Rightarrow> string \<Rightarrow> 'l store \<Rightarrow> payment list resp" where
  "ListPayments E c rider_q status s =
     (let rider = (if is_operator c then rider_q else Subject c) in
      if fault E ''list payments'' then Internal ''list payments''
      else if fault E ''scan payment'' then Internal ''scan payment''
      else if fault E ''iterate payments'' then Internal ''iterate payments''
      else Reply 200 (newest p_created_at 200
        (filter (\<lambda>p. (rider \<noteq> [] \<longrightarrow> p_rider_sub p = rider) \<and> (status \<noteq> [] \<longrightarrow> p_status p = status))
          (fare_payments s))))"

section \<open>Refunds\<close>

text \<open>
  A refund reads the row, posts the reversal, and then updates the row on the condition that nobody
  else changed it: three steps with other requests in between. The body is \<open>None\<close> when it does not
  decode, \<open>Some None\<close> when it is empty or has no amount.
\<close>

definition refund_ref :: "string \<Rightarrow> int \<Rightarrow> string" where
  "refund_ref pid newTotal = ''refund:'' @ pid @ '':'' @ show_int newTotal"

text \<open>What the read decides: an answer, or the row as read with the amount to refund.\<close>

definition refund_check :: "'l env \<Rightarrow> string \<Rightarrow> int option option \<Rightarrow> 'l store \<Rightarrow> payment resp + payment \<times> int" where
  "refund_check E pid body s =
     (case body of
        None \<Rightarrow> Inl (Err 400 ''invalid JSON body'')
      | Some want \<Rightarrow>
          if fault E ''load payment for refund'' then Inl (Internal ''load payment for refund'')
          else case find (\<lambda>p. p_id p = pid) (fare_payments s) of
            None \<Rightarrow> Inl (Err 404 ''payment not found'')
          | Some p \<Rightarrow>
              if p_status p = ''refunded'' then Inl (Reply 200 p)
              else if p_status p \<noteq> ''settled'' \<and> p_status p \<noteq> ''partially_refunded''
              then Inl (Err 409 (''only settled payments can be refunded (status '' @ p_status p @ '')''))
              else
                let remainder = max 0 (i64 (effectiveCharged p - p_refunded_minor p)) in
                (case want of
                   None \<Rightarrow> Inr (p, remainder)
                 | Some n \<Rightarrow>
                     if n \<le> 0 \<or> n > remainder
                     then Inl (Err 422 (''amount_minor must be between 1 and the refundable remainder ('' @
                            show_int remainder @ '')''))
                     else Inr (p, n)))"

definition refund_post :: "'l env \<Rightarrow> payment \<Rightarrow> int \<Rightarrow> 'l store \<Rightarrow> (string + string option) \<times> 'l store" where
  "refund_post E p amount s =
     (if amount > 0 then
        (case riderAccount E (p_rider_sub p) s of
           (Inl e, s1) \<Rightarrow> (Inl ''load rider ledger account'', s1)
         | (Inr account, s1) \<Rightarrow>
             (case post E (DeterministicTransferID (hash16 E)
                   (refund_ref (p_id p) (i64 (p_refunded_minor p + amount))))
                 OperatorRevenueAccount account (u64 amount) CodeFare (led s1) of
                (Inl e, l) \<Rightarrow> (Inl ''refund ledger transfer'', s1\<lparr>led := l\<rparr>)
              | (Inr transferID, l) \<Rightarrow> (Inr (Some transferID), s1\<lparr>led := l\<rparr>)))
      else (Inr None, s))"

definition refund_hit :: "payment \<Rightarrow> payment \<Rightarrow> bool" where
  "refund_hit p q \<longleftrightarrow> p_id q = p_id p \<and> p_status q \<in> {''settled'', ''partially_refunded''} \<and>
     p_refunded_minor q = p_refunded_minor p"

definition refund_row :: "payment \<Rightarrow> int \<Rightarrow> payment \<Rightarrow> payment" where
  "refund_row p newTotal q =
     q\<lparr>p_refunded_minor := newTotal,
       p_status := (if newTotal \<ge> effectiveCharged p then ''refunded'' else ''partially_refunded'')\<rparr>"

definition refund_mark ::
  "'l env \<Rightarrow> payment \<Rightarrow> int \<Rightarrow> string option \<Rightarrow> 'l store \<Rightarrow> payment resp \<times> 'l store" where
  "refund_mark E p amount tb s =
     (let newTotal = i64 (p_refunded_minor p + amount) in
      if fault E ''mark payment refunded'' \<or> newTotal < 0 then (Internal ''mark payment refunded'', s)
      else case find (refund_hit p) (fare_payments s) of
        None \<Rightarrow>
          (case find (\<lambda>q. p_id q = p_id p) (fare_payments s) of
             Some q \<Rightarrow> (ErrWith 409 ''concurrent refund changed the refundable remainder; retry against the current state'' q, s)
           | None \<Rightarrow> (Internal ''mark payment refunded'', s))
      | Some q \<Rightarrow>
          let q' = refund_row p newTotal q;
              s1 = s\<lparr>fare_payments := upd_rows (refund_hit p) (refund_row p newTotal) (fare_payments s)\<rparr>;
              (e, s2) = clawbackLoyaltyPoints (later_ids E) (refund_ref (p_id q') newTotal) (p_rider_sub q') amount s1;
              s3 = publish E ''fare.payment.refunded''
                [(''payment_id'', JStr (p_id q')), (''rider_sub'', JStr (p_rider_sub q')), (''amount_minor'', JNum amount),
                 (''refunded_minor'', JNum (p_refunded_minor q')), (''status'', JStr (p_status q')),
                 (''currency'', JStr (p_currency q')), (''tb_transfer_id'', opt_str tb),
                 (''refunded_at'', JTime (now E))] s2
          in (Reply 200 q', s3))"

definition RefundPayment ::
  "'l env \<Rightarrow> string \<Rightarrow> int option option \<Rightarrow> 'l store \<Rightarrow> payment resp \<times> 'l store" where
  "RefundPayment E pid body s =
     (case refund_check E pid body s of
        Inl r \<Rightarrow> (r, s)
      | Inr (p, amount) \<Rightarrow>
          (case refund_post E p amount s of
             (Inl op, s1) \<Rightarrow> (Internal op, s1)
           | (Inr tb, s1) \<Rightarrow> refund_mark E p amount tb s1))"

section \<open>What a payment does to the store\<close>

lemma accrue_frame [simp]:
  "fare_payments (snd (accrueLoyaltyPoints E pid sub amt s)) = fare_payments s"
  "rider_accounts (snd (accrueLoyaltyPoints E pid sub amt s)) = rider_accounts s"
  "fare_products (snd (accrueLoyaltyPoints E pid sub amt s)) = fare_products s"
  "rider_entitlements (snd (accrueLoyaltyPoints E pid sub amt s)) = rider_entitlements s"
  "billing_accounts (snd (accrueLoyaltyPoints E pid sub amt s)) = billing_accounts s"
  "billing_charges (snd (accrueLoyaltyPoints E pid sub amt s)) = billing_charges s"
  "invoices (snd (accrueLoyaltyPoints E pid sub amt s)) = invoices s"
  "led (snd (accrueLoyaltyPoints E pid sub amt s)) = led s"
  by (simp_all add: accrueLoyaltyPoints_def Let_def)

lemma clawback_frame [simp]:
  "fare_payments (snd (clawbackLoyaltyPoints E pid sub amt s)) = fare_payments s"
  "rider_accounts (snd (clawbackLoyaltyPoints E pid sub amt s)) = rider_accounts s"
  "fare_products (snd (clawbackLoyaltyPoints E pid sub amt s)) = fare_products s"
  "rider_entitlements (snd (clawbackLoyaltyPoints E pid sub amt s)) = rider_entitlements s"
  "billing_accounts (snd (clawbackLoyaltyPoints E pid sub amt s)) = billing_accounts s"
  "billing_charges (snd (clawbackLoyaltyPoints E pid sub amt s)) = billing_charges s"
  "invoices (snd (clawbackLoyaltyPoints E pid sub amt s)) = invoices s"
  "led (snd (clawbackLoyaltyPoints E pid sub amt s)) = led s"
  by (simp_all add: clawbackLoyaltyPoints_def Let_def)

lemma announce_frame [simp]:
  "fare_payments (snd (announce_payment E ev p i m s)) = fare_payments s"
  "rider_accounts (snd (announce_payment E ev p i m s)) = rider_accounts s"
  "fare_products (snd (announce_payment E ev p i m s)) = fare_products s"
  "rider_entitlements (snd (announce_payment E ev p i m s)) = rider_entitlements s"
  "billing_accounts (snd (announce_payment E ev p i m s)) = billing_accounts s"
  "billing_charges (snd (announce_payment E ev p i m s)) = billing_charges s"
  "invoices (snd (announce_payment E ev p i m s)) = invoices s"
  "led (snd (announce_payment E ev p i m s)) = led s"
  by (simp_all add: announce_payment_def Let_def split_def)

lemma ledger_leg_frame:
  assumes "ledger_leg E key sub charge s = (res, s1)"
  shows "\<exists>ras l. s1 = s\<lparr>rider_accounts := ras, led := l\<rparr>"
proof (cases "charge > 0")
  case False
  with assms have "s1 = s\<lparr>rider_accounts := rider_accounts s, led := led s\<rparr>" by (simp add: ledger_leg_def)
  then show ?thesis by blast
next
  case True
  obtain ra s2 where ra: "riderAccount E sub s = (ra, s2)" by (metis prod.exhaust)
  from riderAccount_frame [OF this] obtain ras where s2: "s2 = s\<lparr>rider_accounts := ras\<rparr>" ..
  show ?thesis
  proof (cases ra)
    case (Inl e)
    with assms True ra s2 have "s1 = s\<lparr>rider_accounts := ras, led := led s\<rparr>" by (auto simp: ledger_leg_def)
    then show ?thesis by blast
  next
    case (Inr a)
    with assms True ra s2 show ?thesis by (auto simp: ledger_leg_def split: prod.splits sum.splits)
  qed
qed

definition payment_of ::
  "'l env \<Rightarrow> string \<Rightarrow> payment_request \<Rightarrow> int \<Rightarrow> string option \<Rightarrow> string option \<Rightarrow> string \<Rightarrow> payment" where
  "payment_of E key req charge ml tb status =
     \<lparr>p_id = new_id E 0, p_rider_sub = pq_rider_sub req, p_amount_minor = pq_amount_minor req,
      p_charged_minor = Some charge, p_currency = pq_currency req, p_mojaloop_transfer_id = ml,
      p_tb_transfer_id = tb, p_idempotency_key = Some key, p_status = status, p_refunded_minor = 0,
      p_created_at = now E\<rparr>"

lemma checks_status:
  "payment_checks ge c key body = Inl r \<Longrightarrow> status_code r \<noteq> 201 \<and> status_code r \<noteq> 402 \<and> status_code r \<noteq> 502"
  by (auto simp: payment_checks_def Let_def split: if_splits option.splits)

lemma replay_status:
  "status_code (replay_payment E c key s) \<noteq> 201 \<and> status_code (replay_payment E c key s) \<noteq> 402 \<and>
   status_code (replay_payment E c key s) \<noteq> 502"
  by (auto simp: replay_payment_def split: option.splits)

lemma CreatePayment_cases:
  assumes "CreatePayment E N endpoint c key body s = (r, s')"
  obtains (kept) "s' = s" and "status_code r \<notin> {201, 402, 502}"
  | (aborted) req charge code ent payer spent res op where
      "payment_checks (getenv E) c key body = Inr req"
      and "price_payment E (pq_rider_sub req) (pq_amount_minor req) s = Inr (charge, code, ent, payer, spent)"
      and "ledger_leg E key (pq_rider_sub req) charge s = (res, s')" and "r = Internal op"
  | (recorded) req charge code ent payer spent bcs status0 tb insufficient s1 status ml mlErr ev where
      "payment_checks (getenv E) c key body = Inr req"
      and "price_payment E (pq_rider_sub req) (pq_amount_minor req) s = Inr (charge, code, ent, payer, spent)"
      and "accrue_charge E payer (new_id E 0) ent (pq_amount_minor req) charge s = Inr bcs"
      and "ledger_leg E key (pq_rider_sub req) charge s = (Some (status0, tb, insufficient), s1)"
      and "mojaloop_leg E N endpoint key req charge status0 = (status, ml, mlErr)"
      and "\<not> (\<exists>p \<in> set (fare_payments s). p_idempotency_key p = Some key \<or> p_id p = new_id E 0)"
      and "announce_payment E ev (payment_of E key req charge ml tb status) insufficient mlErr
          (s1\<lparr>fare_payments := fare_payments s1 @ [payment_of E key req charge ml tb status],
             billing_charges := billing_charges s1 @ bcs\<rparr>) = (r, s')"
  using assms unfolding CreatePayment_def settle_payment_def Let_def
  by (auto simp: checks_status replay_status simp flip: payment_of_def
      split: if_splits sum.splits prod.splits option.splits)

section \<open>The price\<close>

lemma parse_int64_range: "parse_int64 s = Some n \<Longrightarrow> in_i64 n"
  by (auto simp: parse_int64_def Let_def split: if_splits)

lemma dailyCapMinor_range: "0 \<le> dailyCapMinor ge \<and> dailyCapMinor ge < 2 ^ 63"
  by (auto simp: dailyCapMinor_def in_i64_def split: option.splits dest: parse_int64_range)

definition charges_ok :: "payment list \<Rightarrow> bool" where
  "charges_ok ps \<longleftrightarrow> (\<forall>p \<in> set ps. 0 \<le> effectiveCharged p)"

lemma spent_since_nonneg: "charges_ok ps \<Longrightarrow> 0 \<le> spent_since d sub ps"
  by (auto simp: spent_since_def charges_ok_def intro: sum_where_nonneg)

lemma spent_since_snoc:
  "spent_since d sub (ps @ [p]) = spent_since d sub ps +
     (if p_rider_sub p = sub \<and> p_status p = ''settled'' \<and> p_created_at p \<ge> d then effectiveCharged p else 0)"
  by (simp add: spent_since_def)

lemma price_payment_cap:
  assumes "products_ok s" and "0 \<le> amount" and "amount * 100 < 2 ^ 63" and "charges_ok (fare_payments s)"
    and "price_payment E sub amount s = Inr (charge, code, ent, payer, spent)"
  shows "0 \<le> charge" and "charge \<le> amount"
    and "0 < dailyCapMinor (getenv E) \<Longrightarrow> 0 < charge \<Longrightarrow>
      spent_today E sub (fare_payments s) + charge \<le> dailyCapMinor (getenv E)"
proof -
  let ?cap = "dailyCapMinor (getenv E)" and ?spent = "spent_today E sub (fare_payments s)"
  from assms(5) obtain c0 code0 ent0 payer0 where res: "resolveEntitlement E sub amount s = Inr (c0, code0, ent0, payer0)"
    by (cases "resolveEntitlement E sub amount s") (auto simp: price_payment_def)
  from resolve_entitlement_bounds [OF assms(1-3) res] have c0: "0 \<le> c0" "c0 \<le> amount" by auto
  have spent0: "0 \<le> ?spent" using spent_since_nonneg [OF assms(4)] by (simp add: spent_today_def)
  show "0 \<le> charge" "charge \<le> amount"
    using assms(5) res c0 by (auto simp: price_payment_def Let_def split: if_splits)
  assume "0 < ?cap" "0 < charge"
  moreover have "i64 (?cap - ?spent) = ?cap - ?spent" if "in_i64 ?spent"
    using that spent0 dailyCapMinor_range [of "getenv E"] by (intro i64_id) (simp add: in_i64_def)
  ultimately show "?spent + charge \<le> ?cap"
    using assms(5) res by (auto simp: price_payment_def Let_def split: if_splits)
qed

lemma payment_checks_ok:
  assumes "payment_checks ge c key body = Inr req"
  shows "0 < pq_amount_minor req" and "pq_rider_sub req = Subject c" and "Subject c \<noteq> []" and "key \<noteq> []"
    and "pq_currency req = platformCurrency ge"
    and "\<exists>req0. body = Some req0 \<and> pq_amount_minor req0 = pq_amount_minor req \<and>
      pq_use_mojaloop req0 = pq_use_mojaloop req"
  using assms by (auto simp: payment_checks_def Let_def split: if_splits option.splits)

section \<open>Capping over a day of payments\<close>

type_synonym 'l payment_call = "'l env \<times> ctx \<times> string \<times> payment_request option"

fun payment_run :: "net \<Rightarrow> string \<Rightarrow> 'l payment_call list \<Rightarrow> 'l store \<Rightarrow> 'l store" where
  "payment_run N endpoint [] s = s"
| "payment_run N endpoint ((E, c, key, body) # calls) s =
     payment_run N endpoint calls (snd (CreatePayment E N endpoint c key body s))"

text \<open>A call on the day that began at \<open>d\<close>, under the cap \<open>cap\<close>, for a fare below \<open>2 ^ 63 / 100\<close>.\<close>

fun call_on :: "int \<Rightarrow> int \<Rightarrow> 'l payment_call \<Rightarrow> bool" where
  "call_on d cap (E, c, key, body) \<longleftrightarrow> midnight_of E = d \<and> dailyCapMinor (getenv E) = cap \<and>
     (case body of None \<Rightarrow> True | Some req \<Rightarrow> pq_amount_minor req * 100 < 2 ^ 63)"

lemma CreatePayment_spent:
  assumes "products_ok s" and "charges_ok (fare_payments s)" and "call_on d cap (E, c, key, body)" and "0 < cap"
    and "CreatePayment E N endpoint c key body s = (r, s')"
  shows "products_ok s' \<and> charges_ok (fare_payments s') \<and>
    (spent_since d sub (fare_payments s) \<le> cap \<longrightarrow> spent_since d sub (fare_payments s') \<le> cap)"
  using assms(5)
proof (cases rule: CreatePayment_cases)
  case kept
  with assms(1,2) show ?thesis by simp
next
  case (aborted req charge code ent payer spent res op)
  from ledger_leg_frame [OF aborted(3)] assms(1,2) show ?thesis by (auto simp: products_ok_def)
next
  case (recorded req charge code ent payer spent bcs status0 tb insufficient s1 status ml mlErr ev)
  have small: "pq_amount_minor req * 100 < 2 ^ 63"
    using assms(3) payment_checks_ok(6) [OF recorded(1)] by auto
  have pos: "0 \<le> pq_amount_minor req" using payment_checks_ok(1) [OF recorded(1)] by simp
  note price = price_payment_cap [OF assms(1) pos small assms(2) recorded(2)]
  have day: "midnight_of E = d" "dailyCapMinor (getenv E) = cap" using assms(3) by simp_all
  have ps: "fare_payments s1 = fare_payments s" "fare_products s1 = fare_products s"
    using ledger_leg_frame [OF recorded(4)] by auto
  let ?p = "payment_of E key req charge ml tb status"
  have s': "fare_payments s' = fare_payments s @ [?p]" "fare_products s' = fare_products s"
    using arg_cong [OF recorded(7), of "\<lambda>x. fare_payments (snd x)"]
      arg_cong [OF recorded(7), of "\<lambda>x. fare_products (snd x)"] ps by simp_all
  have p: "effectiveCharged ?p = charge" "p_rider_sub ?p = pq_rider_sub req"
    by (simp_all add: effectiveCharged_def payment_of_def)
  have "spent_since d sub (fare_payments s) \<le> cap \<longrightarrow> spent_since d sub (fare_payments s @ [?p]) \<le> cap"
    using price(1) price(3) assms(4) p day by (cases "charge = 0") (auto simp: spent_since_snoc spent_today_def)
  with s' assms(1,2) p price(1) show ?thesis by (simp add: products_ok_def charges_ok_def)
qed

text \<open>
  C1. The daily cap holds: along any sequence of payment requests of one civic day, by any riders
  and with any failures in between, a rider whose settled spend was within the cap stays within it.
\<close>

theorem daily_cap_kept:
  assumes "products_ok s" and "charges_ok (fare_payments s)" and "0 < cap"
    and "list_all (call_on d cap) calls" and "spent_since d sub (fare_payments s) \<le> cap"
  shows "spent_since d sub (fare_payments (payment_run N endpoint calls s)) \<le> cap"
  using assms
proof (induction N endpoint calls s rule: payment_run.induct)
  case (2 N endpoint E c key body calls s)
  obtain r s' where call: "CreatePayment E N endpoint c key body s = (r, s')" by (metis prod.exhaust)
  from CreatePayment_spent [OF "2.prems"(1,2) _ "2.prems"(3) call, of d sub] "2.prems"(4,5)
  have "products_ok s'" "charges_ok (fare_payments s')" "spent_since d sub (fare_payments s') \<le> cap" by auto
  with "2.IH" "2.prems"(3,4) call show ?case by simp
qed simp

text \<open>A funded rider: account 1001 holds 2000 minor units.\<close>

definition funded_store :: "simulated store" where
  "funded_store = (empty_store \<lparr>balances = [1001 \<mapsto> 2000, 2001 \<mapsto> 0], transfers = Map.empty\<rparr>)
     \<lparr>rider_accounts := [\<lparr>ra_rider_sub = ''ann'', ra_account_id = 1001\<rparr>]\<rparr>"

abbreviation sim_env :: "simulated env" where
  "sim_env \<equiv> quiet_env (sim_Transfer (\<lambda>_. ''h''))"

abbreviation ann :: ctx where
  "ann \<equiv> Some [(''sub'', JStr ''ann'')]"

definition fare_request :: "int \<Rightarrow> payment_request" where
  "fare_request n = \<lparr>pq_amount_minor = n, pq_currency = [], pq_rider_sub = [], pq_use_mojaloop = False\<rparr>"

lemmas payment_eval = CreatePayment_def payment_checks_def fare_request_def funded_store_def quiet_env_def
  empty_store_def Subject_def platformCurrency_def price_payment_def resolveEntitlement_def entitlement_rows_def
  dailyCapMinor_def settle_payment_def accrue_charge_def ledger_leg_def riderAccount_def numeral_3_eq_3
  allocate_def sim_Transfer_def ensure_def bal_of_def u64_def i64_def in_i64_def mojaloop_leg_def
  announce_payment_def Let_def account_defs spent_today_def spent_since_def effectiveCharged_def in_i32_def
  DeterministicTransferID_def publish_def accrueLoyaltyPoints_def later_ids_def go_div_def ledger_has_def
  points_of_def set_points_def ensure_loyalty_def fresh_account_def midnight_of_def

text \<open>A first ride of 500 and a second of 450, clamped to the 300 left under the cap of 800.\<close>

lemma capped_rides:
  "map effectiveCharged (fare_payments (payment_run demo_net []
     [(sim_env, ann, ''k1'', Some (fare_request 500)),
      (sim_env\<lparr>new_id := (\<lambda>n. ''second'' @ replicate n CHR ''x''), hash16 := (\<lambda>_. 7)\<rparr>, ann, ''k2'',
       Some (fare_request 450))] funded_store)) = [500, 300]"
  by (simp add: payment_eval)

theorem daily_cap_kept_witness:
  "spent_since 1000 ''ann'' (fare_payments (payment_run demo_net []
     [(sim_env, ann, ''k1'', Some (fare_request 500)),
      (sim_env\<lparr>new_id := (\<lambda>n. ''second'' @ replicate n CHR ''x''), hash16 := (\<lambda>_. 7)\<rparr>, ann, ''k2'',
       Some (fare_request 450))] funded_store)) \<le> 800"
  by (rule daily_cap_kept)
    (simp_all add: funded_store_def products_ok_def charges_ok_def empty_store_def midnight_of_def quiet_env_def
      dailyCapMinor_def fare_request_def spent_since_def)

section \<open>Payments over any ledger\<close>

definition payment_tid :: "'l env \<Rightarrow> string \<Rightarrow> tid" where
  "payment_tid E key = DeterministicTransferID (hash16 E) key"

lemma ledger_leg_cases:
  assumes "ledger_leg E key sub charge s = (res, s1)"
  obtains (free) "charge \<le> 0" and "res = Some (''settled'', None, False)" and "s1 = s"
  | (no_account) "0 < charge" and "res = None" and "led s1 = led s"
  | (sent) ra x where "0 < charge" and "find (\<lambda>a. ra_rider_sub a = sub) (rider_accounts s1) = Some ra"
      and "post E (payment_tid E key) (ra_account_id ra) OperatorRevenueAccount (u64 charge) CodeFare (led s) = (x, led s1)"
      and "res = Some (case x of Inl e \<Rightarrow> (''failed'', None, is_insufficient e) | Inr h \<Rightarrow> (''settled'', Some h, False))"
proof (cases "charge > 0")
  case False
  with assms free show ?thesis by (simp add: ledger_leg_def)
next
  case True
  obtain r2 s2 where acc: "riderAccount E sub s = (r2, s2)" by (metis prod.exhaust)
  then show ?thesis
  proof (cases rule: riderAccount_cases)
    case (error e)
    with assms True acc no_account show ?thesis by (simp add: ledger_leg_def)
  next
    case (account ra)
    obtain x l where "post E (payment_tid E key) (ra_account_id ra) OperatorRevenueAccount (u64 charge) CodeFare
        (led s) = (x, l)" by (metis prod.exhaust)
    with account assms True acc sent [of ra x] show ?thesis
      by (cases x) (auto simp: ledger_leg_def payment_tid_def)
  qed
qed

definition debited :: "('l \<Rightarrow> int \<Rightarrow> int) \<Rightarrow> string \<Rightarrow> int \<Rightarrow> 'l store \<Rightarrow> 'l store \<Rightarrow> bool" where
  "debited bal sub charge s s' \<longleftrightarrow>
     (\<exists>ra. find (\<lambda>x. ra_rider_sub x = sub) (rider_accounts s') = Some ra \<and>
        bal (led s') = move (ra_account_id ra) OperatorRevenueAccount charge (bal (led s)))"

text \<open>
  The money a payment moves, for any ledger that keeps the contract: the invariant survives, and the
  balances are unchanged or exactly the charge went from the rider's wallet to operator revenue.
\<close>

context ledger_contract
begin

lemma ledger_leg_money:
  assumes tr: "post E = transfer" and inv: "inv (led s)" and charge: "0 \<le> charge" "charge < 2 ^ 63"
    and leg: "ledger_leg E key sub charge s = (res, s1)"
  shows "inv (led s1) \<and> (bal (led s1) = bal (led s) \<or>
    0 < charge \<and> \<not> posted (led s) (payment_tid E key) \<and> debited bal sub charge s s1)"
  using leg
proof (cases rule: ledger_leg_cases)
  case (sent ra x)
  have ok: "amount_ok charge" and u: "u64 charge = charge" using charge by (simp_all add: amount_ok_def u64_def)
  note tx = sent(3) [unfolded tr u]
  have "inv (led s1)" using transfer_inv [OF inv ok] tx by (metis snd_conv)
  with transfer_cases [OF inv ok tx] sent(1,2) show ?thesis by (auto simp: debited_def)
qed (use inv in simp_all)

lemma ledger_leg_settled:
  assumes tr: "post E = transfer" and inv: "inv (led s)" and charge: "0 \<le> charge" "charge < 2 ^ 63"
    and leg: "ledger_leg E key sub charge s = (Some (''settled'', tb, ins), s1)"
    and new: "\<not> posted (led s) (payment_tid E key)"
  shows "if charge = 0 then bal (led s1) = bal (led s)
    else debited bal sub charge s s1 \<and> posted (led s1) (payment_tid E key)"
  using leg
proof (cases rule: ledger_leg_cases)
  case (sent ra x)
  have ok: "amount_ok charge" and u: "u64 charge = charge" using charge by (simp_all add: amount_ok_def u64_def)
  from sent(4) obtain h where x: "x = Inr h" by (cases x) auto
  note tx = sent(3) [unfolded tr u x]
  from transfer_posts [OF inv ok new tx] transfer_marks [OF inv ok tx, of "payment_tid E key"] sent(1,2)
  show ?thesis by (auto simp: debited_def)
qed (use charge in simp_all)

lemma ledger_leg_failed:
  assumes tr: "post E = transfer" and inv: "inv (led s)" and charge: "0 \<le> charge" "charge < 2 ^ 63"
    and leg: "ledger_leg E key sub charge s = (Some (st, tb, ins), s1)" and st: "st \<noteq> ''settled''"
  shows "bal (led s1) = bal (led s) \<and> st = ''failed'' \<and> 0 < charge"
  using leg
proof (cases rule: ledger_leg_cases)
  case (sent ra x)
  have ok: "amount_ok charge" and u: "u64 charge = charge" using charge by (simp_all add: amount_ok_def u64_def)
  from sent(4) st obtain e where x: "x = Inl e" by (cases x) auto
  from transfer_fails [OF inv ok sent(3) [unfolded tr u x]] sent(1,4) x show ?thesis by simp
qed (use st in simp_all)

end

section \<open>Properties of payments\<close>

lemma announce_reply:
  assumes "announce_payment E ev p ins mlErr s = (r, s')"
  shows "if p_status p = ''settled'' then r = Reply 201 p
    else \<exists>m. r = ErrWith (if ins then 402 else 502) m p"
  using assms by (auto simp: announce_payment_def Let_def split: prod.splits)

lemma mojaloop_leg_settled:
  "mojaloop_leg E N endpoint key req charge status0 = (''settled'', ml, e) \<Longrightarrow> status0 = ''settled''"
  using PaymentStatus_error by (auto simp: mojaloop_leg_def split: if_splits sum.splits)

lemma ledger_leg_insufficient:
  "ledger_leg E key sub charge s = (Some (''settled'', tb, ins), s1) \<Longrightarrow> \<not> ins"
  by (erule ledger_leg_cases) (auto split: sum.splits)

text \<open>
  C2. Money: over the simulated ledger, whatever \<open>CreatePayment\<close> answers, the ledger invariant is
  kept and the balances are either unchanged or exactly one charge between 1 and the fare has moved
  from the rider's wallet to operator revenue under a transfer id not used before. A payment answered
  201 under an unused id has debited exactly its charged amount, or nothing when it charges 0; one
  answered 402 has moved nothing.
\<close>

theorem create_payment_money:
  assumes "post E = sim_Transfer sh" and "sim_inv (led s)" and "products_ok s" and "charges_ok (fare_payments s)"
    and "call_on d cap (E, c, key, body)" and "CreatePayment E N endpoint c key body s = (r, s')"
  shows "sim_inv (led s') \<and>
    (sim_bal (led s') = sim_bal (led s) \<or>
     (\<exists>charge req. body = Some req \<and> 0 < charge \<and> charge \<le> pq_amount_minor req \<and>
        \<not> sim_posted (led s) (payment_tid E key) \<and> debited sim_bal (Subject c) charge s s')) \<and>
    (\<forall>p. r = Reply 201 p \<longrightarrow> \<not> sim_posted (led s) (payment_tid E key) \<longrightarrow>
       (if effectiveCharged p = 0 then sim_bal (led s') = sim_bal (led s)
        else debited sim_bal (Subject c) (effectiveCharged p) s s')) \<and>
    (\<forall>m p. r = ErrWith 402 m p \<longrightarrow> sim_bal (led s') = sim_bal (led s))"
  using assms(6)
proof (cases rule: CreatePayment_cases)
  case kept
  with assms(2) show ?thesis by auto
next
  case (aborted req charge code ent payer spent res op)
  note req = payment_checks_ok [OF aborted(1)]
  from assms(5) req(6) have small: "pq_amount_minor req * 100 < 2 ^ 63" by auto
  note price = price_payment_cap(1,2) [OF assms(3) _ small assms(4) aborted(2)]
  have c: "0 \<le> charge" "charge \<le> pq_amount_minor req" "charge < 2 ^ 63" using price req(1) small by auto
  from sim.ledger_leg_money [OF assms(1,2) c(1,3) aborted(3)] aborted(4) c(2) req(2,6) show ?thesis by auto
next
  case (recorded req charge code ent payer spent bcs status0 tb insufficient s1 status ml mlErr ev)
  note req = payment_checks_ok [OF recorded(1)]
  from assms(5) req(6) have small: "pq_amount_minor req * 100 < 2 ^ 63" by auto
  note price = price_payment_cap(1,2) [OF assms(3) _ small assms(4) recorded(2)]
  have c: "0 \<le> charge" "charge \<le> pq_amount_minor req" "charge < 2 ^ 63" using price req(1) small by auto
  have s': "led s' = led s1" "rider_accounts s' = rider_accounts s1"
    using arg_cong [OF recorded(7), of "\<lambda>x. led (snd x)"]
      arg_cong [OF recorded(7), of "\<lambda>x. rider_accounts (snd x)"] by simp_all
  then have deb: "debited sim_bal sub ch s s1 = debited sim_bal sub ch s s'" for sub ch by (simp add: debited_def)
  note reply = announce_reply [OF recorded(7)]
  have A: "sim_inv (led s')" "sim_bal (led s') = sim_bal (led s) \<or> 0 < charge \<and>
      \<not> sim_posted (led s) (payment_tid E key) \<and> debited sim_bal (Subject c) charge s s'"
    using sim.ledger_leg_money [OF assms(1,2) c(1,3) recorded(4)] s' req(2) deb by auto
  have B: "if effectiveCharged p = 0 then sim_bal (led s') = sim_bal (led s)
      else debited sim_bal (Subject c) (effectiveCharged p) s s'"
    if "r = Reply 201 p" and new: "\<not> sim_posted (led s) (payment_tid E key)" for p
  proof -
    from that(1) reply have p: "p = payment_of E key req charge ml tb status" "status = ''settled''"
      by (auto simp: payment_of_def split: if_splits)
    with recorded(5) have "status0 = ''settled''" by (auto dest: mojaloop_leg_settled)
    with sim.ledger_leg_settled [OF assms(1,2) c(1,3) recorded(4) [unfolded this] new] p(1) s' deb req(2)
    show ?thesis by (auto simp: effectiveCharged_def payment_of_def split: if_splits)
  qed
  have C: "sim_bal (led s') = sim_bal (led s)" if "r = ErrWith 402 m p" for m p
  proof -
    from that reply have "insufficient" by (auto split: if_splits)
    with recorded(4) have "status0 \<noteq> ''settled''" by (auto dest: ledger_leg_insufficient)
    with sim.ledger_leg_failed [OF assms(1,2) c(1,3) recorded(4)] s' show ?thesis by simp
  qed
  from A B C c(2) req(2,6) show ?thesis by metis
qed

theorem create_payment_money_witness:
  "\<exists>p. fst (CreatePayment sim_env demo_net [] ann ''k1'' (Some (fare_request 280)) funded_store) = Reply 201 p \<and>
     effectiveCharged p = 280 \<and>
     debited sim_bal ''ann'' 280 funded_store
       (snd (CreatePayment sim_env demo_net [] ann ''k1'' (Some (fare_request 280)) funded_store))"
proof -
  let ?call = "CreatePayment sim_env demo_net [] ann ''k1'' (Some (fare_request 280)) funded_store"
  have inv: "sim_inv (led funded_store)"
    by (auto simp: sim_inv_def sim_bal_def bal_of_def funded_store_def empty_store_def)
  have day: "call_on 1000 800 (sim_env, ann, ''k1'', Some (fare_request 280))"
    by (simp add: midnight_of_def quiet_env_def dailyCapMinor_def fare_request_def)
  have ok: "products_ok funded_store" "charges_ok (fare_payments funded_store)"
    by (simp_all add: funded_store_def empty_store_def products_ok_def charges_ok_def)
  have new: "\<not> sim_posted (led funded_store) (payment_tid sim_env ''k1'')"
    by (simp add: sim_posted_def funded_store_def empty_store_def)
  obtain p where p: "fst ?call = Reply 201 p" "effectiveCharged p = 280"
    by (simp add: payment_eval)
  then have run: "?call = (Reply 201 p, snd ?call)" by (metis prod.collapse)
  have tr: "post sim_env = sim_Transfer (\<lambda>_. ''h'')" by (simp add: quiet_env_def)
  have "Subject ann = ''ann''" by (simp add: Subject_def)
  with create_payment_money [OF tr inv ok day run] new p show ?thesis by auto
qed

lemma recorded_payment:
  assumes "CreatePayment E N endpoint c key body s = (r, s')"
    and "r = Reply 201 p \<or> r = ErrWith 402 m p \<or> r = ErrWith 502 m p"
  shows "\<exists>req. payment_checks (getenv E) c key body = Inr req \<and> p_rider_sub p = Subject c \<and>
    p_idempotency_key p = Some key \<and>
    \<not> (\<exists>q \<in> set (fare_payments s). p_idempotency_key q = Some key) \<and> fare_payments s' = fare_payments s @ [p]"
  using assms(1)
proof (cases rule: CreatePayment_cases)
  case (recorded req charge code ent payer spent bcs status0 tb insufficient s1 status ml mlErr ev)
  have "fare_payments s1 = fare_payments s" using ledger_leg_frame [OF recorded(4)] by auto
  moreover have "fare_payments s' = fare_payments s1 @ [payment_of E key req charge ml tb status]"
    using arg_cong [OF recorded(7), of "\<lambda>x. fare_payments (snd x)"] by simp
  moreover have "p = payment_of E key req charge ml tb status"
    using announce_reply [OF recorded(7)] assms(2) by (auto split: if_splits)
  ultimately show ?thesis using recorded(1,6) payment_checks_ok(2) [OF recorded(1)] by (auto simp: payment_of_def)
qed (use assms(2) in auto)

text \<open>
  C3. Payments are retry-safe: once a request has recorded a payment, settled or failed, the same
  request under the same configuration answers 200 with exactly that payment and changes nothing,
  neither rows nor ledger nor events.
\<close>

theorem payment_retry_safe:
  assumes "CreatePayment E N endpoint c key body s = (r, s')"
    and "r = Reply 201 p \<or> r = ErrWith 402 m p \<or> r = ErrWith 502 m p"
    and "getenv E' = getenv E" and "\<And>op. \<not> fault E' op"
    and "in_i64 (spent_today E' (Subject c) (fare_payments s'))"
  shows "CreatePayment E' N' endpoint' c key body s' = (Reply 200 p, s')"
proof -
  from recorded_payment [OF assms(1,2)] obtain req where
    req: "payment_checks (getenv E) c key body = Inr req" and p: "p_rider_sub p = Subject c" "p_idempotency_key p = Some key"
    and fresh: "\<not> (\<exists>q \<in> set (fare_payments s). p_idempotency_key q = Some key)"
    and s': "fare_payments s' = fare_payments s @ [p]" by blast
  have sub: "pq_rider_sub req = Subject c" using payment_checks_ok(2) [OF req] .
  obtain x where "resolveEntitlement E' (Subject c) (pq_amount_minor req) s' = Inr x"
    using resolve_entitlement_total [of E'] assms(4) by blast
  then have "\<exists>y. price_payment E' (Subject c) (pq_amount_minor req) s' = Inr y"
    using assms(4,5) by (cases x) (simp add: price_payment_def Let_def)
  then obtain y where price: "price_payment E' (Subject c) (pq_amount_minor req) s' = Inr y" ..
  have "find (\<lambda>q. p_idempotency_key q = Some key) (fare_payments s) = None"
    using fresh by (auto simp: find_None_all)
  then have "find (\<lambda>q. p_idempotency_key q = Some key) (fare_payments s') = Some p"
    using s' p by (simp add: find_append)
  with req sub price assms(3,4) s' p show ?thesis
    by (simp add: CreatePayment_def replay_payment_def)
qed

theorem payment_retry_safe_witness:
  "\<exists>p s'. CreatePayment sim_env demo_net [] ann ''k1'' (Some (fare_request 280)) funded_store = (Reply 201 p, s') \<and>
     CreatePayment sim_env demo_net [] ann ''k1'' (Some (fare_request 280)) s' = (Reply 200 p, s')"
proof -
  let ?call = "CreatePayment sim_env demo_net [] ann ''k1'' (Some (fare_request 280)) funded_store"
  obtain p where p: "fst ?call = Reply 201 p" by (simp add: payment_eval)
  then have run: "?call = (Reply 201 p, snd ?call)" by (metis prod.collapse)
  have "in_i64 (spent_today sim_env (Subject ann) (fare_payments (snd ?call)))"
    by (simp add: payment_eval)
  from payment_retry_safe [OF run _ refl _ this] have "CreatePayment sim_env demo_net [] ann ''k1''
      (Some (fare_request 280)) (snd ?call) = (Reply 200 p, snd ?call)"
    by (simp add: quiet_env_def)
  with run show ?thesis by blast
qed

text \<open>
  A crash cannot debit twice: once the transfer of an idempotency key is on the simulated ledger
  (its payment row committed or lost in a rollback), no later \<open>CreatePayment\<close> under that key, by
  whatever rider and for whatever fare, moves any money.
\<close>

theorem payment_crash_retry:
  assumes "post E = sim_Transfer sh" and "sim_inv (led s)" and "products_ok s" and "charges_ok (fare_payments s)"
    and "call_on d cap (E, c, key, body)" and "sim_posted (led s) (payment_tid E key)"
  shows "sim_bal (led (snd (CreatePayment E N endpoint c key body s))) = sim_bal (led s)"
proof -
  obtain r s' where run: "CreatePayment E N endpoint c key body s = (r, s')" by (metis prod.exhaust)
  have leg: "sim_bal (led s1) = sim_bal (led s)"
    if "payment_checks (getenv E) c key body = Inr req"
      and "price_payment E (pq_rider_sub req) (pq_amount_minor req) s = Inr (charge, code, ent, payer, spent)"
      and "ledger_leg E key (pq_rider_sub req) charge s = (res, s1)"
    for req charge code ent payer spent res s1
  proof -
    note req = payment_checks_ok [OF that(1)]
    from assms(5) req(6) have small: "pq_amount_minor req * 100 < 2 ^ 63" by auto
    note price = price_payment_cap(1,2) [OF assms(3) _ small assms(4) that(2)]
    have "0 \<le> charge" "charge < 2 ^ 63" using price req(1) small by auto
    from sim.ledger_leg_money [OF assms(1,2) this that(3)] assms(6) show ?thesis by auto
  qed
  from run show ?thesis
  proof (cases rule: CreatePayment_cases)
    case (recorded req charge code ent payer spent bcs status0 tb insufficient s1 status ml mlErr ev)
    have "led s' = led s1" using arg_cong [OF recorded(7), of "\<lambda>x. led (snd x)"] by simp
    with leg [OF recorded(1,2,4)] run show ?thesis by simp
  qed (use leg run in auto)
qed

theorem payment_crash_retry_witness:
  "sim_bal (led (snd (CreatePayment sim_env demo_net [] ann ''k1'' (Some (fare_request 280))
     (funded_store\<lparr>led := (led funded_store)\<lparr>transfers := [payment_tid sim_env ''k1'' \<mapsto> ''h'']\<rparr>\<rparr>)))) 1001 = 2000"
proof -
  let ?s = "funded_store\<lparr>led := (led funded_store)\<lparr>transfers := [payment_tid sim_env ''k1'' \<mapsto> ''h'']\<rparr>\<rparr>"
  have "sim_bal (led (snd (CreatePayment sim_env demo_net [] ann ''k1'' (Some (fare_request 280)) ?s))) = sim_bal (led ?s)"
    by (rule payment_crash_retry [where sh = "\<lambda>_. ''h''" and d = 1000 and cap = 800])
      (auto simp: quiet_env_def sim_inv_def sim_bal_def bal_of_def funded_store_def empty_store_def products_ok_def
        charges_ok_def midnight_of_def dailyCapMinor_def fare_request_def sim_posted_def)
  then show ?thesis by (simp add: sim_bal_def bal_of_def funded_store_def empty_store_def)
qed

text \<open>
  Payments are private: a caller with a subject and without the operator or platform-admin role
  never gets another rider's payment, neither by id, nor in a list, nor by replaying another rider's
  idempotency key; another rider's payment is answered as a payment that does not exist.
\<close>

theorem payments_private:
  assumes "\<not> is_operator c" and "Subject c \<noteq> []"
  shows "(\<forall>n p. GetPayment E c pid s = Reply n p \<longrightarrow> p_rider_sub p = Subject c) \<and>
    (\<forall>n ps. ListPayments E c rider_q status s = Reply n ps \<longrightarrow>
       (\<forall>p. p \<in> set ps \<longrightarrow> p_rider_sub p = Subject c) \<and> length ps \<le> 200) \<and>
    (\<forall>n p. fst (CreatePayment E N endpoint c key body s) = Reply n p \<longrightarrow> p_rider_sub p = Subject c)"
proof (intro conjI allI impI)
  fix n p assume "GetPayment E c pid s = Reply n p"
  with assms(1) show "p_rider_sub p = Subject c" by (auto simp: GetPayment_def split: if_splits option.splits)
next
  fix n ps p
  assume l: "ListPayments E c rider_q status s = Reply n ps"
  then have ps: "ps = newest p_created_at 200 (filter (\<lambda>p. (Subject c \<noteq> [] \<longrightarrow> p_rider_sub p = Subject c) \<and>
      (status \<noteq> [] \<longrightarrow> p_status p = status)) (fare_payments s))"
    using assms(1) by (simp add: ListPayments_def Let_def split: if_splits)
  show "length ps \<le> 200" unfolding ps by (rule newest_length)
  assume "p \<in> set ps"
  with subsetD [OF newest_subset] assms(2) show "p_rider_sub p = Subject c" unfolding ps by fastforce
next
  fix n p assume r: "fst (CreatePayment E N endpoint c key body s) = Reply n p"
  then obtain s' where run: "CreatePayment E N endpoint c key body s = (Reply n p, s')" by (metis prod.collapse)
  show "p_rider_sub p = Subject c"
  proof (cases "n = 201")
    case True
    with recorded_payment [OF run] show ?thesis by auto
  next
    case False
    with run announce_reply have "replay_payment E c key s = Reply n p"
      by (auto simp: CreatePayment_def settle_payment_def payment_checks_def Let_def
          split: if_splits sum.splits option.splits prod.splits dest!: announce_reply)
    with assms(1) show ?thesis by (auto simp: replay_payment_def split: if_splits option.splits)
  qed
qed

theorem payments_private_witness:
  "GetPayment sim_env ann ''id''
     (snd (CreatePayment sim_env demo_net [] (Some [(''sub'', JStr ''bob'')]) ''k1'' (Some (fare_request 280))
       (funded_store\<lparr>rider_accounts := [\<lparr>ra_rider_sub = ''bob'', ra_account_id = 1001\<rparr>]\<rparr>))) =
     Err 404 ''payment not found'' \<and>
   (\<exists>ps. ListPayments sim_env ann ''bob'' [] funded_store = Reply 200 ps \<and> length ps \<le> 200)"
proof
  have op: "\<not> is_operator ann" and sub: "Subject ann \<noteq> []"
    by (simp_all add: is_operator_def HasAnyRole_def hasRole_def Subject_def)
  show "GetPayment sim_env ann ''id''
     (snd (CreatePayment sim_env demo_net [] (Some [(''sub'', JStr ''bob'')]) ''k1'' (Some (fare_request 280))
       (funded_store\<lparr>rider_accounts := [\<lparr>ra_rider_sub = ''bob'', ra_account_id = 1001\<rparr>]\<rparr>))) =
     Err 404 ''payment not found''"
    using op by (simp add: GetPayment_def payment_eval)
  obtain ps where "ListPayments sim_env ann ''bob'' [] funded_store = Reply 200 ps"
    by (simp add: ListPayments_def quiet_env_def Let_def)
  with payments_private [OF op sub] show "\<exists>ps. ListPayments sim_env ann ''bob'' [] funded_store = Reply 200 ps \<and>
      length ps \<le> 200" by blast
qed

text \<open>
  The scoping rests on the subject claim: a caller whose token has no subject and no operator
  role is not refused but gets the newest payments of all riders.
\<close>

theorem list_payments_without_subject:
  assumes "Subject c = []" and "\<not> is_operator c" and "\<And>op. \<not> fault E op"
  shows "ListPayments E c rider_q [] s = Reply 200 (newest p_created_at 200 (fare_payments s))"
  using assms by (simp add: ListPayments_def Let_def)

theorem list_payments_without_subject_witness:
  "\<exists>s :: simulated store. ListPayments sim_env (Some []) [] [] s = Reply 200 (newest p_created_at 200 (fare_payments s)) \<and>
     fare_payments s \<noteq> []"
proof -
  let ?s = "snd (CreatePayment sim_env demo_net [] ann ''k1'' (Some (fare_request 280)) funded_store)"
  have "ListPayments sim_env (Some []) [] [] ?s = Reply 200 (newest p_created_at 200 (fare_payments ?s))"
    by (rule list_payments_without_subject)
      (simp_all add: Subject_def is_operator_def HasAnyRole_def hasRole_def quiet_env_def)
  moreover have "fare_payments ?s \<noteq> []" by (simp add: payment_eval)
  ultimately show ?thesis by blast
qed

end
