(* ===== verification/Refunds.thy ===== *)
theory Refunds
  imports Payments
begin

text \<open>
  Refunds (\<open>RefundPayment\<close> in src/services/go/commerce-api/internal/handlers/payments.go): a refund by
  itself, and several refunds of one payment whose read, ledger posting and conditional update
  interleave.
\<close>

section \<open>Rows\<close>

text \<open>Payment ids are unique and a row never shows more refunded than charged.\<close>

definition row_ok :: "payment \<Rightarrow> bool" where
  "row_ok p \<longleftrightarrow> 0 \<le> p_refunded_minor p \<and> p_refunded_minor p \<le> effectiveCharged p \<and> effectiveCharged p < 2 ^ 63"

definition rows_ok :: "payment list \<Rightarrow> bool" where
  "rows_ok ps \<longleftrightarrow> distinct (map p_id ps) \<and> (\<forall>p \<in> set ps. row_ok p)"

lemma refund_row_frame [simp]:
  "p_id (refund_row p n q) = p_id q" "effectiveCharged (refund_row p n q) = effectiveCharged q"
  "p_rider_sub (refund_row p n q) = p_rider_sub q" "p_created_at (refund_row p n q) = p_created_at q"
  "p_refunded_minor (refund_row p n q) = n"
  by (simp_all add: refund_row_def effectiveCharged_def split: option.splits)

lemma find_id: "distinct (map p_id ps) \<Longrightarrow> p \<in> set ps \<Longrightarrow> find (\<lambda>q. p_id q = p_id p) ps = Some p"
  by (rule distinct_map_find)

lemma same_id: "distinct (map p_id ps) \<Longrightarrow> p \<in> set ps \<Longrightarrow> q \<in> set ps \<Longrightarrow> p_id p = p_id q \<Longrightarrow> p = q"
  by (meson distinct_map inj_onD)

lemma refund_check_read:
  assumes "refund_check E pid body s = Inr (p, amount)" and "rows_ok (fare_payments s)"
  shows "p \<in> set (fare_payments s)" and "p_id p = pid" and "p_status p \<in> {''settled'', ''partially_refunded''}"
    and "0 \<le> amount" and "p_refunded_minor p + amount \<le> effectiveCharged p"
    and "i64 (p_refunded_minor p + amount) = p_refunded_minor p + amount"
    and "body = Some None \<Longrightarrow> amount = effectiveCharged p - p_refunded_minor p"
    and "body = Some (Some n) \<Longrightarrow> amount = n \<and> 0 < n"
proof -
  from assms(1) obtain want where find: "find (\<lambda>p. p_id p = pid) (fare_payments s) = Some p"
    and body: "body = Some want" and st: "p_status p \<in> {''settled'', ''partially_refunded''}"
    and amt: "(case want of None \<Rightarrow> amount = max 0 (i64 (effectiveCharged p - p_refunded_minor p))
      | Some n \<Rightarrow> amount = n \<and> 0 < n \<and> n \<le> max 0 (i64 (effectiveCharged p - p_refunded_minor p)))"
    by (auto simp: refund_check_def Let_def split: option.splits if_splits)
  from find show p: "p \<in> set (fare_payments s)" "p_id p = pid" by (auto dest: find_Some_prop)
  with assms(2) have row: "0 \<le> p_refunded_minor p" "p_refunded_minor p \<le> effectiveCharged p" "effectiveCharged p < 2 ^ 63"
    by (auto simp: rows_ok_def row_ok_def)
  then have rem: "i64 (effectiveCharged p - p_refunded_minor p) = effectiveCharged p - p_refunded_minor p"
    by (intro i64_small) auto
  show "p_status p \<in> {''settled'', ''partially_refunded''}" by (fact st)
  show a: "0 \<le> amount" "p_refunded_minor p + amount \<le> effectiveCharged p"
    using amt rem row by (auto split: option.splits)
  then show "i64 (p_refunded_minor p + amount) = p_refunded_minor p + amount"
    using row by (intro i64_small) auto
  show "body = Some None \<Longrightarrow> amount = effectiveCharged p - p_refunded_minor p"
    and "body = Some (Some n) \<Longrightarrow> amount = n \<and> 0 < n" using amt body rem row by auto
qed

lemma refund_post_frame:
  "refund_post E p a s = (r, s') \<Longrightarrow> fare_payments s' = fare_payments s"
  using riderAccount_frame [of E "p_rider_sub p" s]
  by (auto simp: refund_post_def split: if_splits prod.splits sum.splits)

lemma refund_mark_cases:
  assumes "refund_mark E p a tb s = (r, s')"
  obtains (refused) "s' = s" and "\<And>q. r \<noteq> Reply 200 q"
  | (marked) q where "find (refund_hit p) (fare_payments s) = Some q"
      and "r = Reply 200 (refund_row p (i64 (p_refunded_minor p + a)) q)"
      and "fare_payments s' = upd_rows (refund_hit p) (refund_row p (i64 (p_refunded_minor p + a))) (fare_payments s)"
      and "led s' = led s" and "rider_accounts s' = rider_accounts s"
proof (cases "fault E ''mark payment refunded'' \<or> i64 (p_refunded_minor p + a) < 0 \<or>
    find (refund_hit p) (fare_payments s) = None")
  case True
  then show ?thesis
    using assms by (intro refused) (auto simp: refund_mark_def Let_def split: option.splits if_splits)
next
  case False
  then obtain q where q: "find (refund_hit p) (fare_payments s) = Some q" by blast
  let ?t = "i64 (p_refunded_minor p + a)"
  let ?s1 = "s\<lparr>fare_payments := upd_rows (refund_hit p) (refund_row p ?t) (fare_payments s)\<rparr>"
  obtain e s2 where cl: "clawbackLoyaltyPoints (later_ids E) (refund_ref (p_id q) ?t) (p_rider_sub q) a ?s1 = (e, s2)"
    by (metis prod.exhaust)
  have s2: "fare_payments s2 = fare_payments ?s1" "led s2 = led s" "rider_accounts s2 = rider_accounts s"
    using clawback_frame(1,2,8) [of "later_ids E" "refund_ref (p_id q) ?t" "p_rider_sub q" a ?s1] cl by simp_all
  show ?thesis
    using assms False q cl s2 by (intro marked [OF q]) (auto simp: refund_mark_def Let_def)
qed

lemma rows_ok_upd:
  assumes "rows_ok ps" and "\<And>q. q \<in> set ps \<Longrightarrow> refund_hit p q \<Longrightarrow> n \<le> effectiveCharged q" and "0 \<le> n"
  shows "rows_ok (upd_rows (refund_hit p) (refund_row p n) ps)"
proof -
  have "map p_id (upd_rows (refund_hit p) (refund_row p n) ps) = map p_id ps" by (simp add: map_upd_rows)
  moreover have "row_ok q" if q: "q \<in> set (upd_rows (refund_hit p) (refund_row p n) ps)" for q
  proof -
    from set_upd_rowsD [OF q] obtain q0 where q0: "q0 \<in> set ps" "q = (if refund_hit p q0 then refund_row p n q0 else q0)"
      by blast
    with assms show ?thesis by (auto simp: rows_ok_def row_ok_def)
  qed
  ultimately show ?thesis using assms(1) by (simp add: rows_ok_def)
qed

section \<open>Interleaved refunds of one payment\<close>

text \<open>Where a refund request stands: not started, row read, ledger posted, answered. An answered
  request keeps the amount it held if it got as far as the update of the row.\<close>

datatype refund_pc =
    RWant "int option option"
  | RRead payment int
  | RPaid payment int "string option"
  | RDone "int option" "payment resp"

type_synonym 'l refund_state = "'l store \<times> (nat \<Rightarrow> refund_pc)"

inductive refund_step :: "'l env \<Rightarrow> string \<Rightarrow> 'l refund_state \<Rightarrow> 'l refund_state \<Rightarrow> bool" for E pid where
  answer: "pcs i = RWant body \<Longrightarrow> refund_check E pid body s = Inl r \<Longrightarrow>
     refund_step E pid (s, pcs) (s, pcs(i := RDone None r))"
| read: "pcs i = RWant body \<Longrightarrow> refund_check E pid body s = Inr (p, a) \<Longrightarrow>
     refund_step E pid (s, pcs) (s, pcs(i := RRead p a))"
| pay: "pcs i = RRead p a \<Longrightarrow> refund_post E p a s = (Inr tb, s') \<Longrightarrow>
     refund_step E pid (s, pcs) (s', pcs(i := RPaid p a tb))"
| pay_fail: "pcs i = RRead p a \<Longrightarrow> refund_post E p a s = (Inl op, s') \<Longrightarrow>
     refund_step E pid (s, pcs) (s', pcs(i := RDone None (Internal op)))"
| mark: "pcs i = RPaid p a tb \<Longrightarrow> refund_mark E p a tb s = (r, s') \<Longrightarrow>
     refund_step E pid (s, pcs) (s', pcs(i := RDone (Some a) r))"

inductive_cases refund_stepE: "refund_step E pid (s, pcs) (s', pcs')"

text \<open>A request holding a row it read: the row is still there with the same charge.\<close>

definition held_ok :: "payment list \<Rightarrow> payment \<Rightarrow> int \<Rightarrow> bool" where
  "held_ok ps p a \<longleftrightarrow> 0 \<le> a \<and> 0 \<le> p_refunded_minor p \<and> p_refunded_minor p + a \<le> effectiveCharged p \<and>
     effectiveCharged p < 2 ^ 63 \<and> (\<exists>q \<in> set ps. p_id q = p_id p \<and> effectiveCharged q = effectiveCharged p)"

fun pc_ok :: "payment list \<Rightarrow> refund_pc \<Rightarrow> bool" where
  "pc_ok ps (RRead p a) = held_ok ps p a"
| "pc_ok ps (RPaid p a tb) = held_ok ps p a"
| "pc_ok ps _ = True"

definition refund_inv :: "'l refund_state \<Rightarrow> bool" where
  "refund_inv st \<longleftrightarrow> rows_ok (fare_payments (fst st)) \<and> (\<forall>i. pc_ok (fare_payments (fst st)) (snd st i))"

lemma held_upd:
  assumes "held_ok ps p a"
  shows "held_ok (upd_rows P (refund_row r n) ps) p a"
proof -
  from assms obtain q where q: "q \<in> set ps" "p_id q = p_id p" "effectiveCharged q = effectiveCharged p"
    by (auto simp: held_ok_def)
  let ?q = "if P q then refund_row r n q else q"
  have "?q \<in> set (upd_rows P (refund_row r n) ps)" using q(1) by (auto simp: upd_rows_def)
  moreover have "p_id ?q = p_id p" "effectiveCharged ?q = effectiveCharged p" using q by simp_all
  ultimately show ?thesis using assms unfolding held_ok_def by blast
qed

lemma pc_upd: "pc_ok ps x \<Longrightarrow> pc_ok (upd_rows P (refund_row r n) ps) x"
  by (cases x) (auto simp: held_upd)

lemma mark_inv:
  assumes "rows_ok (fare_payments s)" and "held_ok (fare_payments s) p a" and "refund_mark E p a tb s = (r, s')"
  shows "rows_ok (fare_payments s') \<and> (\<forall>x. pc_ok (fare_payments s) x \<longrightarrow> pc_ok (fare_payments s') x)"
  using assms(3)
proof (cases rule: refund_mark_cases)
  case (marked q)
  let ?t = "i64 (p_refunded_minor p + a)"
  have t: "?t = p_refunded_minor p + a" using assms(2) by (intro i64_small) (auto simp: held_ok_def)
  have "?t \<le> effectiveCharged q'" if "q' \<in> set (fare_payments s)" "refund_hit p q'" for q'
  proof -
    from assms(2) obtain q0 where "q0 \<in> set (fare_payments s)" "p_id q0 = p_id p" "effectiveCharged q0 = effectiveCharged p"
      by (auto simp: held_ok_def)
    with that same_id [of "fare_payments s" q' q0] assms(1) have "effectiveCharged q' = effectiveCharged p"
      by (auto simp: rows_ok_def refund_hit_def)
    with t assms(2) show ?thesis by (simp add: held_ok_def)
  qed
  moreover have "0 \<le> ?t" using t assms(2) by (simp add: held_ok_def)
  ultimately have "rows_ok (upd_rows (refund_hit p) (refund_row p ?t) (fare_payments s))"
    using assms(1) by (intro rows_ok_upd) auto
  with marked(3) pc_upd show ?thesis by simp
qed (use assms(1) in simp)

lemma refund_step_inv: "refund_step E pid st st' \<Longrightarrow> refund_inv st \<Longrightarrow> refund_inv st'"
proof (induction rule: refund_step.induct)
  case (read pcs i body s p a)
  from read(3) have rows: "rows_ok (fare_payments s)" by (simp add: refund_inv_def)
  note r = refund_check_read(1-5) [OF read(2) rows]
  have "0 \<le> p_refunded_minor p" "effectiveCharged p < 2 ^ 63"
    using r(1) rows by (auto simp: rows_ok_def row_ok_def)
  with r have "held_ok (fare_payments s) p a" by (auto simp: held_ok_def)
  with read(3) show ?case by (simp add: refund_inv_def)
next
  case (pay pcs i p a s tb s')
  have "pc_ok (fare_payments s) (pcs i)" using pay(3) by (simp add: refund_inv_def)
  with pay refund_post_frame [OF pay(2)] show ?case by (simp add: refund_inv_def)
next
  case (pay_fail pcs i p a s op s')
  with refund_post_frame [OF pay_fail(2)] show ?case by (simp add: refund_inv_def)
next
  case (mark pcs i p a tb s r s')
  have "held_ok (fare_payments s) p a" using mark(1,3) by (auto simp: refund_inv_def dest!: spec [of _ i])
  with mark_inv [OF _ this mark(2)] mark(3) show ?case by (auto simp: refund_inv_def)
qed (simp add: refund_inv_def)

lemma refund_reachable_inv: "(refund_step E pid)\<^sup>*\<^sup>* st st' \<Longrightarrow> refund_inv st \<Longrightarrow> refund_inv st'"
  by (induction rule: rtranclp_induct) (auto intro: refund_step_inv)

text \<open>The refunds a run accepted: the requests whose update of the row was answered 200, with the
  amounts they asked back.\<close>

fun accepted_amount :: "refund_pc \<Rightarrow> int" where
  "accepted_amount (RDone (Some a) (Reply code q)) = (if code = 200 then a else 0)"
| "accepted_amount _ = 0"

definition accepted_total :: "(nat \<Rightarrow> refund_pc) \<Rightarrow> int" where
  "accepted_total pcs = (\<Sum>i \<in> {i. accepted_amount (pcs i) \<noteq> 0}. accepted_amount (pcs i))"

lemma accepted_total_upd:
  assumes "finite {i. accepted_amount (pcs i) \<noteq> 0}" and "accepted_amount (pcs i) = 0"
  shows "finite {j. accepted_amount ((pcs(i := x)) j) \<noteq> 0}"
    and "accepted_total (pcs(i := x)) = accepted_total pcs + accepted_amount x"
proof -
  let ?A = "{j. accepted_amount (pcs j) \<noteq> 0}"
  have A: "{j. accepted_amount ((pcs(i := x)) j) \<noteq> 0} = (if accepted_amount x = 0 then ?A else insert i ?A)"
    using assms(2) by auto
  show "finite {j. accepted_amount ((pcs(i := x)) j) \<noteq> 0}" unfolding A using assms(1) by simp
  have "i \<notin> ?A" using assms(2) by simp
  moreover have "(\<Sum>j \<in> ?A. accepted_amount ((pcs(i := x)) j)) = accepted_total pcs"
    unfolding accepted_total_def using assms(2) by (intro sum.cong) auto
  moreover have "accepted_total (pcs(i := x)) =
      (\<Sum>j \<in> (if accepted_amount x = 0 then ?A else insert i ?A). accepted_amount ((pcs(i := x)) j))"
    unfolding accepted_total_def A ..
  ultimately show "accepted_total (pcs(i := x)) = accepted_total pcs + accepted_amount x"
    using assms(1) by (cases "accepted_amount x = 0") simp_all
qed

text \<open>The books of one payment during a run: every request holds a reading of that payment, the
  row's refunded total is where it started plus what the accepted refunds asked, and no other row has
  changed.\<close>

fun holds_pid :: "string \<Rightarrow> refund_pc \<Rightarrow> bool" where
  "holds_pid pid (RRead p a) = (p_id p = pid)"
| "holds_pid pid (RPaid p a tb) = (p_id p = pid)"
| "holds_pid pid _ = True"

definition tally_ok :: "string \<Rightarrow> payment list \<Rightarrow> payment \<Rightarrow> 'l refund_state \<Rightarrow> bool" where
  "tally_ok pid ps0 p0 st \<longleftrightarrow> (\<forall>i. holds_pid pid (snd st i)) \<and> finite {i. accepted_amount (snd st i) \<noteq> 0} \<and>
     (\<forall>q \<in> set (fare_payments (fst st)). p_id q = pid \<longrightarrow> effectiveCharged q = effectiveCharged p0 \<and>
        p_refunded_minor q = p_refunded_minor p0 + accepted_total (snd st)) \<and>
     filter (\<lambda>q. p_id q \<noteq> pid) (fare_payments (fst st)) = filter (\<lambda>q. p_id q \<noteq> pid) ps0"

lemma tally_quiet:
  assumes "tally_ok pid ps0 p0 (s, pcs)" and "accepted_amount (pcs i) = 0" and "accepted_amount x = 0"
    and "holds_pid pid x" and "fare_payments s' = fare_payments s"
  shows "tally_ok pid ps0 p0 (s', pcs(i := x))"
  using assms accepted_total_upd [of pcs i x] unfolding tally_ok_def by simp

lemma tally_mark:
  assumes tally: "tally_ok pid ps0 p0 (s, pcs)" and held: "held_ok (fare_payments s) p a"
    and pc: "pcs i = RPaid p a tb" and run: "refund_mark E p a tb s = (r, s')" and dist: "distinct (map p_id (fare_payments s))"
  shows "tally_ok pid ps0 p0 (s', pcs(i := RDone (Some a) r))"
  using run
proof (cases rule: refund_mark_cases)
  case refused
  then have "accepted_amount (RDone (Some a) r) = 0"
    by (cases "RDone (Some a) r" rule: accepted_amount.cases) auto
  with refused tally pc show ?thesis by (intro tally_quiet [where s = s]) simp_all
next
  case (marked q)
  let ?n = "p_refunded_minor p + a" and ?ps = "fare_payments s"
  have n: "i64 ?n = ?n" using held by (intro i64_small) (auto simp: held_ok_def)
  have pid: "p_id p = pid" using tally pc unfolding tally_ok_def by (auto dest!: spec [of _ i])
  have fin: "finite {j. accepted_amount (pcs j) \<noteq> 0}" using tally by (simp add: tally_ok_def)
  note upd = accepted_total_upd [OF fin, of i "RDone (Some a) r"]
  from marked(1) have q: "q \<in> set ?ps" "refund_hit p q" by (auto dest: find_Some_prop)
  have old: "effectiveCharged q = effectiveCharged p0" "p_refunded_minor p = p_refunded_minor p0 + accepted_total pcs"
    using tally q pid by (auto simp: tally_ok_def refund_hit_def)
  have new: "effectiveCharged x = effectiveCharged p0 \<and>
      p_refunded_minor x = p_refunded_minor p0 + accepted_total (pcs(i := RDone (Some a) r))"
    if x: "x \<in> set (fare_payments s')" "p_id x = pid" for x
  proof -
    from set_upd_rowsD [OF x(1) [unfolded marked(3)]] obtain y where y: "y \<in> set ?ps"
      "x = (if refund_hit p y then refund_row p (i64 ?n) y else y)" by blast
    then have "p_id y = p_id q" using x(2) q(2) pid by (auto simp: refund_hit_def split: if_splits)
    with same_id [OF dist y(1) q(1)] have "y = q" by simp
    with y(2) q(2) n have "x = refund_row p ?n q" by simp
    moreover have "accepted_total (pcs(i := RDone (Some a) r)) = accepted_total pcs + a"
      using upd(2) pc marked(2) by simp
    ultimately show ?thesis using old by simp
  qed
  have other: "refund_hit p x \<Longrightarrow> p_id x = pid" for x using pid by (simp add: refund_hit_def)
  have "filter (\<lambda>x. p_id x \<noteq> pid) (upd_rows (refund_hit p) (refund_row p (i64 ?n)) xs) = filter (\<lambda>x. p_id x \<noteq> pid) xs" for xs
    by (induction xs) (auto dest: other)
  then have rest: "filter (\<lambda>x. p_id x \<noteq> pid) (fare_payments s') = filter (\<lambda>x. p_id x \<noteq> pid) ps0"
    using tally unfolding tally_ok_def marked(3) fst_conv by metis
  have "\<forall>j. holds_pid pid ((pcs(i := RDone (Some a) r)) j)" using tally by (simp add: tally_ok_def)
  moreover have "finite {j. accepted_amount ((pcs(i := RDone (Some a) r)) j) \<noteq> 0}" by (rule upd(1)) (simp add: pc)
  ultimately show ?thesis using new rest unfolding tally_ok_def fst_conv snd_conv by blast
qed

lemma tally_step:
  "refund_step E pid st st' \<Longrightarrow> refund_inv st \<Longrightarrow> tally_ok pid ps0 p0 st \<Longrightarrow> tally_ok pid ps0 p0 st'"
proof (induction rule: refund_step.induct)
  case (read pcs i body s p a)
  from read(3) have rows: "rows_ok (fare_payments s)" by (simp add: refund_inv_def)
  from read(1,4) refund_check_read(2) [OF read(2) rows] show ?case by (intro tally_quiet) simp_all
next
  case (pay pcs i p a s tb s')
  have "holds_pid pid (pcs i)" using pay(4) by (simp add: tally_ok_def)
  with pay(1,4) refund_post_frame [OF pay(2)] show ?case by (intro tally_quiet) simp_all
next
  case (pay_fail pcs i p a s op s')
  with refund_post_frame [OF pay_fail(2)] show ?case by (intro tally_quiet) simp_all
next
  case (mark pcs i p a tb s r s')
  from mark(3) have "pc_ok (fare_payments s) (pcs i)" and "distinct (map p_id (fare_payments s))"
    by (simp_all add: refund_inv_def rows_ok_def)
  with mark show ?case by (intro tally_mark) simp_all
qed (auto intro: tally_quiet)

lemma tally_reachable:
  "(refund_step E pid)\<^sup>*\<^sup>* st st' \<Longrightarrow> refund_inv st \<Longrightarrow> tally_ok pid ps0 p0 st \<Longrightarrow>
    refund_inv st' \<and> tally_ok pid ps0 p0 st'"
  by (induction rule: rtranclp_induct) (auto intro: refund_step_inv tally_step)

lemma tally_start:
  assumes "rows_ok (fare_payments s)" and "p0 \<in> set (fare_payments s)" and "p_id p0 = pid"
  shows "tally_ok pid (fare_payments s) p0 (s, \<lambda>i. RWant (bodies i))"
proof -
  have "q = p0" if "q \<in> set (fare_payments s)" "p_id q = pid" for q
    using same_id [of "fare_payments s" q p0] that assms by (simp add: rows_ok_def)
  then show ?thesis by (auto simp: tally_ok_def accepted_total_def)
qed

section \<open>Properties of refunds\<close>

definition demo_payment :: payment where
  "demo_payment = \<lparr>p_id = ''pay'', p_rider_sub = ''ann'', p_amount_minor = 100, p_charged_minor = Some 100,
     p_currency = ''EUR'', p_mojaloop_transfer_id = None, p_tb_transfer_id = Some ''h'',
     p_idempotency_key = Some ''k'', p_status = ''settled'', p_refunded_minor = 0, p_created_at = 1000\<rparr>"

definition paid_store :: "simulated store" where
  "paid_store = (empty_store \<lparr>balances = [1001 \<mapsto> 0, 2001 \<mapsto> 500], transfers = Map.empty\<rparr>)
     \<lparr>rider_accounts := [\<lparr>ra_rider_sub = ''ann'', ra_account_id = 1001\<rparr>], fare_payments := [demo_payment]\<rparr>"

text \<open>The run: two operators refund 95 and 9 of a payment of 100; both read it before either marks it.\<close>

lemma show_two: "show_nat 95 = ''95''" "show_nat 9 = ''9''"
  by code_simp+

lemmas refund_eval = refund_check_def refund_post_def refund_mark_def refund_hit_def refund_row_def
  refund_ref_def demo_payment_def paid_store_def show_two show_int_def

definition race_s1 :: "simulated store" where
  "race_s1 = snd (refund_post sim_env demo_payment 95 paid_store)"

definition race_s2 :: "simulated store" where
  "race_s2 = snd (refund_post sim_env demo_payment 9 race_s1)"

definition race_s3 :: "simulated store" where
  "race_s3 = snd (refund_mark sim_env demo_payment 95 (Some ''h'') race_s2)"

lemma race_reads:
  "refund_check sim_env ''pay'' (Some (Some 95)) paid_store = Inr (demo_payment, 95)"
  "refund_check sim_env ''pay'' (Some (Some 9)) paid_store = Inr (demo_payment, 9)"
  by (simp_all add: refund_eval payment_eval)

lemma race_pays:
  "refund_post sim_env demo_payment 95 paid_store = (Inr (Some ''h''), race_s1)"
  "refund_post sim_env demo_payment 9 race_s1 = (Inr (Some ''h''), race_s2)"
  by (simp_all add: race_s1_def race_s2_def refund_eval payment_eval)

lemma race_marks:
  "\<exists>q. refund_mark sim_env demo_payment 95 (Some ''h'') race_s2 = (Reply 200 q, race_s3)"
  "\<exists>m q. refund_mark sim_env demo_payment 9 (Some ''h'') race_s3 = (ErrWith 409 m q, race_s3)"
  by (simp_all add: race_s3_def race_s1_def race_s2_def refund_eval payment_eval clawbackLoyaltyPoints_def)

lemma race_end:
  "sim_bal (led race_s3) 1001 = 104" "map p_refunded_minor (fare_payments race_s3) = [95]"
  by (simp_all add: race_s3_def race_s1_def race_s2_def refund_eval payment_eval clawbackLoyaltyPoints_def sim_bal_def)

lemma race_run:
  "\<exists>pcs. (refund_step sim_env ''pay'')\<^sup>*\<^sup>*
     (paid_store, \<lambda>i. RWant (Some (Some (if i = 0 then 95 else 9)))) (race_s3, pcs) \<and> accepted_total pcs = 95"
proof -
  let ?R = "refund_step sim_env ''pay''"
  let ?p0 = "\<lambda>i :: nat. RWant (Some (Some (if i = 0 then 95 else 9)))"
  let ?p1 = "?p0(0 := RRead demo_payment 95)"
  let ?p2 = "?p1(1 := RRead demo_payment 9)"
  let ?p3 = "?p2(0 := RPaid demo_payment 95 (Some ''h''))"
  let ?p4 = "?p3(1 := RPaid demo_payment 9 (Some ''h''))"
  obtain q where m1: "refund_mark sim_env demo_payment 95 (Some ''h'') race_s2 = (Reply 200 q, race_s3)"
    using race_marks(1) by blast
  obtain m q' where m2: "refund_mark sim_env demo_payment 9 (Some ''h'') race_s3 = (ErrWith 409 m q', race_s3)"
    using race_marks(2) by blast
  have "?R (paid_store, ?p0) (paid_store, ?p1)" by (rule refund_step.read [OF _ race_reads(1)]) simp
  moreover have "?R (paid_store, ?p1) (paid_store, ?p2)" by (rule refund_step.read [OF _ race_reads(2)]) simp
  moreover have "?R (paid_store, ?p2) (race_s1, ?p3)" by (rule refund_step.pay [OF _ race_pays(1)]) simp
  moreover have "?R (race_s1, ?p3) (race_s2, ?p4)" by (rule refund_step.pay [OF _ race_pays(2)]) simp
  moreover have "?R (race_s2, ?p4) (race_s3, ?p4(0 := RDone (Some 95) (Reply 200 q)))"
    by (rule refund_step.mark [OF _ m1]) simp
  moreover have "?R (race_s3, ?p4(0 := RDone (Some 95) (Reply 200 q)))
      (race_s3, (?p4(0 := RDone (Some 95) (Reply 200 q)))(1 := RDone (Some 9) (ErrWith 409 m q')))"
    by (rule refund_step.mark [OF _ m2]) simp
  ultimately have "?R\<^sup>*\<^sup>* (paid_store, ?p0) (race_s3, (?p4(0 := RDone (Some 95) (Reply 200 q)))(1 := RDone (Some 9) (ErrWith 409 m q')))"
    by (meson converse_rtranclp_into_rtranclp rtranclp.rtrancl_refl)
  moreover have "accepted_total ((?p4(0 := RDone (Some 95) (Reply 200 q)))(1 := RDone (Some 9) (ErrWith 409 m q'))) = 95"
  proof -
    let ?pcs = "(?p4(0 := RDone (Some 95) (Reply 200 q)))(1 := RDone (Some 9) (ErrWith 409 m q'))"
    have "{i. accepted_amount (?pcs i) \<noteq> 0} = {0}" by auto
    then show ?thesis by (simp add: accepted_total_def)
  qed
  ultimately show ?thesis by blast
qed

text \<open>
  C6. No refund recorded on a payment is lost and none goes past the charge: however many refunds
  of a payment run concurrently and however their reads, ledger postings and conditional updates
  interleave (any of them failing), the row's refunded total is at every moment the total it started
  with plus the amounts of the refunds answered 200 by their update, it lies between 0 and the charge,
  the charge has not changed, and no other payment row has changed. This is what the compare-and-set
  on status and refunded total protects; the ledger postings before it are not protected
  (\<open>concurrent_refunds_overpay\<close> below).
\<close>

theorem refunded_never_exceeds_charged:
  assumes "rows_ok (fare_payments s)" and "(refund_step E pid)\<^sup>*\<^sup>* (s, \<lambda>i. RWant (bodies i)) (s', pcs)"
    and "p0 \<in> set (fare_payments s)" and "p_id p0 = pid" and "p \<in> set (fare_payments s')" and "p_id p = pid"
  shows "p_refunded_minor p = p_refunded_minor p0 + accepted_total pcs \<and>
    0 \<le> p_refunded_minor p \<and> p_refunded_minor p \<le> effectiveCharged p \<and> effectiveCharged p = effectiveCharged p0 \<and>
    filter (\<lambda>q. p_id q \<noteq> pid) (fare_payments s') = filter (\<lambda>q. p_id q \<noteq> pid) (fare_payments s)"
proof -
  have "refund_inv (s, \<lambda>i. RWant (bodies i))" using assms(1) by (simp add: refund_inv_def)
  from tally_reachable [OF assms(2) this tally_start [OF assms(1,3,4)]]
  have "row_ok p" and "tally_ok pid (fare_payments s) p0 (s', pcs)"
    using assms(5) by (simp_all add: refund_inv_def rows_ok_def)
  with assms(5,6) show ?thesis unfolding row_ok_def tally_ok_def fst_conv snd_conv by blast
qed

theorem refunded_never_exceeds_charged_witness:
  "\<exists>pcs. (refund_step sim_env ''pay'')\<^sup>*\<^sup>*
     (paid_store, \<lambda>i. RWant (Some (Some (if i = 0 then 95 else 9)))) (race_s3, pcs) \<and> accepted_total pcs = 95 \<and>
     (\<exists>p. fare_payments race_s3 = [p] \<and> p_refunded_minor p = 0 + accepted_total pcs \<and> effectiveCharged p = 100)"
proof -
  obtain pcs where run: "(refund_step sim_env ''pay'')\<^sup>*\<^sup>*
      (paid_store, \<lambda>i. RWant (Some (Some (if i = 0 then 95 else 9)))) (race_s3, pcs)" and acc: "accepted_total pcs = 95"
    using race_run by blast
  have rows: "rows_ok (fare_payments paid_store)"
    by (simp add: rows_ok_def row_ok_def paid_store_def demo_payment_def effectiveCharged_def)
  have p0: "demo_payment \<in> set (fare_payments paid_store)" "p_id demo_payment = ''pay''"
    by (simp_all add: paid_store_def demo_payment_def)
  obtain p where p: "fare_payments race_s3 = [p]" "p_id p = ''pay''"
    by (simp add: race_s3_def race_s1_def race_s2_def refund_eval payment_eval clawbackLoyaltyPoints_def)
  then have "p \<in> set (fare_payments race_s3)" by simp
  from refunded_never_exceeds_charged [OF rows run p0 this p(2)] have "p_refunded_minor p = 0 + accepted_total pcs"
    and "effectiveCharged p = 100" by (simp_all add: demo_payment_def effectiveCharged_def)
  with run acc p(1) show ?thesis by blast
qed

text \<open>
  The ledger is not protected by the conditional update: two concurrent partial refunds of
  different amounts, 95 and 9 of a payment of 100, both post their reversal before either marks the
  row, since their transfer ids differ. The rider is paid back 104 of 100, while the row records 95
  and the second request is answered 409.
\<close>

theorem concurrent_refunds_overpay:
  "\<exists>s' pcs. (refund_step sim_env ''pay'')\<^sup>*\<^sup>*
     (paid_store, \<lambda>i. RWant (Some (Some (if i = 0 then 95 else 9)))) (s', pcs) \<and>
     map effectiveCharged (fare_payments paid_store) = [100] \<and> sim_bal (led paid_store) 1001 = 0 \<and>
     sim_bal (led s') 1001 = 104 \<and> map p_refunded_minor (fare_payments s') = [95]"
proof -
  have "map effectiveCharged (fare_payments paid_store) = [100]" "sim_bal (led paid_store) 1001 = 0"
    by (simp_all add: paid_store_def demo_payment_def effectiveCharged_def sim_bal_def bal_of_def empty_store_def)
  moreover obtain pcs where "(refund_step sim_env ''pay'')\<^sup>*\<^sup>*
      (paid_store, \<lambda>i. RWant (Some (Some (if i = 0 then 95 else 9)))) (race_s3, pcs)"
    using race_run by blast
  ultimately show ?thesis using race_end by (intro exI [of _ race_s3] exI [of _ pcs]) simp
qed

text \<open>The money a refund moves, for any ledger that keeps the contract.\<close>

context ledger_contract
begin

lemma refund_post_money:
  assumes tr: "post E = transfer" and inv: "inv (led s)" and a: "0 \<le> a" "a < 2 ^ 63"
    and new: "\<not> posted (led s) (payment_tid E (refund_ref (p_id p) (i64 (p_refunded_minor p + a))))"
    and res: "refund_post E p a s = (Inr tb, s1)"
  shows "inv (led s1) \<and> (if a = 0 then bal (led s1) = bal (led s)
    else \<exists>ra. find (\<lambda>x. ra_rider_sub x = p_rider_sub p) (rider_accounts s1) = Some ra \<and>
      bal (led s1) = move OperatorRevenueAccount (ra_account_id ra) a (bal (led s)))"
proof (cases "a > 0")
  case False
  with res a inv show ?thesis by (simp add: refund_post_def)
next
  case True
  have ok: "amount_ok a" and u: "u64 a = a" using a by (simp_all add: amount_ok_def u64_def)
  obtain r2 s2 where acc: "riderAccount E (p_rider_sub p) s = (r2, s2)" by (metis prod.exhaust)
  then show ?thesis
  proof (cases rule: riderAccount_cases)
    case (error e)
    with res True acc show ?thesis by (simp add: refund_post_def)
  next
    case (account ra)
    let ?t = "payment_tid E (refund_ref (p_id p) (i64 (p_refunded_minor p + a)))"
    obtain x l where tx: "transfer ?t OperatorRevenueAccount (ra_account_id ra) a CodeFare (led s) = (x, l)"
      by (metis prod.exhaust)
    with res True acc account tr u obtain h where x: "x = Inr h" and s1: "s1 = s2\<lparr>led := l\<rparr>"
      by (cases x) (auto simp: refund_post_def payment_tid_def)
    from transfer_posts [OF inv ok new tx [unfolded x]] transfer_inv [OF inv ok, of ?t OperatorRevenueAccount "ra_account_id ra" CodeFare]
      tx s1 account True show ?thesis by simp
  qed
qed

end

text \<open>
  A refund on its own is exact: over the simulated ledger a refund answered 200 of a payment not
  yet fully refunded adds the requested amount (the whole remainder when none is given) to the row's
  refunded total, which stays within the charge, marks the row \<open>refunded\<close> exactly when the total
  reaches the charge, leaves every other row alone, and, under a transfer id not used before, moves
  exactly that amount from operator revenue to the rider's wallet.
\<close>

theorem refund_exact:
  assumes "post E = sim_Transfer sh" and "sim_inv (led s)" and "rows_ok (fare_payments s)"
    and "refund_check E pid (Some want) s = Inr (p, amount)"
    and "\<not> sim_posted (led s) (payment_tid E (refund_ref pid (p_refunded_minor p + amount)))"
    and "RefundPayment E pid (Some want) s = (Reply 200 q, s')"
  shows "q = refund_row p (p_refunded_minor p + amount) p \<and>
    amount = (case want of None \<Rightarrow> effectiveCharged p - p_refunded_minor p | Some n \<Rightarrow> n) \<and>
    p_refunded_minor q \<le> effectiveCharged q \<and>
    (p_status q = ''refunded'' \<longleftrightarrow> p_refunded_minor q = effectiveCharged q) \<and>
    fare_payments s' = map (\<lambda>x. if p_id x = pid then q else x) (fare_payments s) \<and>
    (if amount = 0 then sim_bal (led s') = sim_bal (led s)
     else \<exists>ra. find (\<lambda>x. ra_rider_sub x = p_rider_sub p) (rider_accounts s') = Some ra \<and>
       sim_bal (led s') = move OperatorRevenueAccount (ra_account_id ra) amount (sim_bal (led s)))"
proof -
  note chk = refund_check_read [OF assms(4,3)]
  have row: "0 \<le> p_refunded_minor p" "effectiveCharged p < 2 ^ 63"
    using chk(1) assms(3) by (auto simp: rows_ok_def row_ok_def)
  have a: "0 \<le> amount" "amount < 2 ^ 63" using chk(4,5) row by auto
  from assms(4,6) obtain tb s1 where post: "refund_post E p amount s = (Inr tb, s1)"
    and mark: "refund_mark E p amount tb s1 = (Reply 200 q, s')"
    by (auto simp: RefundPayment_def split: prod.splits sum.splits)
  have new: "\<not> sim_posted (led s) (payment_tid E (refund_ref (p_id p) (i64 (p_refunded_minor p + amount))))"
    using assms(5) chk(2,6) by simp
  note money = sim.refund_post_money [OF assms(1,2) a new post]
  have ps: "fare_payments s1 = fare_payments s" using refund_post_frame [OF post] .
  have hits: "refund_hit p x \<longleftrightarrow> p_id x = pid" if "x \<in> set (fare_payments s)" for x
    using that chk(1-3) same_id [of "fare_payments s" x p] assms(3) by (auto simp: refund_hit_def rows_ok_def)
  from mark show ?thesis
  proof (cases rule: refund_mark_cases)
    case (marked q0)
    let ?n = "p_refunded_minor p + amount"
    from marked(1) ps have "q0 \<in> set (fare_payments s)" "refund_hit p q0" by (auto dest: find_Some_prop)
    with hits chk(1,2) same_id [of "fare_payments s" q0 p] assms(3) have q0: "q0 = p" by (auto simp: rows_ok_def)
    with marked(2) chk(6) have q: "q = refund_row p ?n p" by simp
    have rows: "fare_payments s' = map (\<lambda>x. if p_id x = pid then q else x) (fare_payments s)"
      unfolding marked(3) ps upd_rows_def
    proof (rule map_cong [OF refl])
      fix x assume x: "x \<in> set (fare_payments s)"
      show "(if refund_hit p x then refund_row p (i64 ?n) x else x) = (if p_id x = pid then q else x)"
        using hits [OF x] q chk(1,2,6) same_id [of "fare_payments s" x p] x assms(3) by (auto simp: rows_ok_def)
    qed
    have st: "p_status q = ''refunded'' \<longleftrightarrow> p_refunded_minor q = effectiveCharged q"
      using q chk(5) by (auto simp: refund_row_def effectiveCharged_def split: option.splits)
    have amt: "amount = (case want of None \<Rightarrow> effectiveCharged p - p_refunded_minor p | Some n \<Rightarrow> n)"
      using chk(7,8) by (cases want) auto
    have le: "p_refunded_minor q \<le> effectiveCharged q" using q chk(5) by simp
    show ?thesis using money unfolding marked(4,5) [symmetric] by (intro conjI q amt le st rows) blast
  qed blast
qed

theorem refund_exact_witness:
  "\<exists>q. fst (RefundPayment sim_env ''pay'' (Some (Some 95)) paid_store) = Reply 200 q \<and> p_refunded_minor q = 95 \<and>
     sim_bal (led (snd (RefundPayment sim_env ''pay'' (Some (Some 95)) paid_store))) 1001 = 95"
proof -
  let ?r = "RefundPayment sim_env ''pay'' (Some (Some 95)) paid_store"
  obtain q where q: "refund_mark sim_env demo_payment 95 (Some ''h'') race_s1 = (Reply 200 q, snd ?r)"
    by (simp add: RefundPayment_def race_s1_def refund_eval payment_eval clawbackLoyaltyPoints_def)
  then have run: "?r = (Reply 200 q, snd ?r)" by (simp add: RefundPayment_def race_reads race_pays)
  have pre: "post sim_env = sim_Transfer (\<lambda>_. ''h'')" "sim_inv (led paid_store)" "rows_ok (fare_payments paid_store)"
    "\<not> sim_posted (led paid_store) (payment_tid sim_env (refund_ref ''pay'' (p_refunded_minor demo_payment + 95)))"
    by (auto simp: quiet_env_def sim_inv_def sim_bal_def bal_of_def paid_store_def empty_store_def rows_ok_def row_ok_def
        demo_payment_def effectiveCharged_def sim_posted_def)
  note ex = refund_exact [OF pre(1-3) race_reads(1) pre(4) run]
  have "rider_accounts (snd ?r) = [\<lparr>ra_rider_sub = ''ann'', ra_account_id = 1001\<rparr>]"
    by (simp add: RefundPayment_def refund_eval payment_eval clawbackLoyaltyPoints_def)
  with ex have "p_refunded_minor q = 95" "sim_bal (led (snd ?r)) = move OperatorRevenueAccount 1001 95 (sim_bal (led paid_store))"
    by (auto simp: demo_payment_def)
  moreover have "sim_bal (led paid_store) 1001 = 0"
    by (simp add: paid_store_def empty_store_def sim_bal_def bal_of_def)
  moreover have "fst ?r = Reply 200 q" by (subst run) simp
  ultimately show ?thesis by (auto simp: move_def account_defs)
qed

text \<open>
  A refund, however small, takes the whole payment out of the rider's daily spend: the cap only
  counts rows with status \<open>settled\<close>, so after a partial refund of today's payment the spend that
  limits the next ride has dropped by the full charge although the rider got back only a part of it.
\<close>

theorem refund_reopens_cap:
  assumes "rows_ok (fare_payments s)" and "refund_check E pid body s = Inr (p, amount)" and "p_status p = ''settled''"
    and "d \<le> p_created_at p" and "RefundPayment E pid body s = (Reply 200 q, s')"
  shows "spent_since d (p_rider_sub p) (fare_payments s') =
    spent_since d (p_rider_sub p) (fare_payments s) - effectiveCharged p"
proof -
  note chk = refund_check_read [OF assms(2,1)]
  from assms(2,5) obtain tb s1 where post: "refund_post E p amount s = (Inr tb, s1)"
    and mark: "refund_mark E p amount tb s1 = (Reply 200 q, s')"
    by (auto simp: RefundPayment_def split: prod.splits sum.splits)
  have ps: "fare_payments s1 = fare_payments s" using refund_post_frame [OF post] .
  let ?P = "\<lambda>x. p_rider_sub x = p_rider_sub p \<and> p_status x = ''settled'' \<and> d \<le> p_created_at x"
  let ?n = "i64 (p_refunded_minor p + amount)"
  have one: "sum_where ?P effectiveCharged (upd_rows (refund_hit p) (refund_row p ?n) xs) =
      sum_where ?P effectiveCharged xs - effectiveCharged p"
    if "distinct (map p_id xs)" "p \<in> set xs" for xs
    using that
  proof (induction xs)
    case (Cons x xs)
    have gone: "p_status (refund_row p ?n y) \<noteq> ''settled''" for y by (simp add: refund_row_def)
    have hit: "refund_hit p p" using chk(3) by (auto simp: refund_hit_def)
    show ?case
    proof (cases "x = p")
      case True
      with Cons.prems(1) have "\<And>y. y \<in> set xs \<Longrightarrow> \<not> refund_hit p y"
        by (auto simp: refund_hit_def image_iff)
      then have "upd_rows (refund_hit p) (refund_row p ?n) xs = xs" by (rule upd_rows_none)
      with True hit gone assms(3,4) show ?thesis by simp
    next
      case False
      with Cons.prems have "p \<in> set xs" and "\<not> refund_hit p x" by (auto simp: refund_hit_def image_iff)
      with Cons show ?thesis by simp
    qed
  qed simp
  from mark show ?thesis
  proof (cases rule: refund_mark_cases)
    case (marked q0)
    with ps one [of "fare_payments s"] chk(1) assms(1) show ?thesis by (simp add: spent_since_def rows_ok_def)
  qed blast
qed

theorem refund_reopens_cap_witness:
  "spent_since 1000 ''ann'' (fare_payments paid_store) = 100 \<and>
   spent_since 1000 ''ann'' (fare_payments (snd (RefundPayment sim_env ''pay'' (Some (Some 9)) paid_store))) = 0"
proof -
  let ?r = "RefundPayment sim_env ''pay'' (Some (Some 9)) paid_store"
  have rows: "rows_ok (fare_payments paid_store)"
    by (simp add: rows_ok_def row_ok_def paid_store_def demo_payment_def effectiveCharged_def)
  have spent: "spent_since 1000 ''ann'' (fare_payments paid_store) = 100"
    by (simp add: spent_since_def paid_store_def demo_payment_def effectiveCharged_def)
  obtain q where "fst ?r = Reply 200 q"
    by (simp add: RefundPayment_def refund_eval payment_eval clawbackLoyaltyPoints_def)
  then have run: "?r = (Reply 200 q, snd ?r)" by (metis prod.collapse)
  from refund_reopens_cap [OF rows race_reads(2) _ _ run, of 1000] spent show ?thesis
    by (simp add: demo_payment_def effectiveCharged_def)
qed

section \<open>Failed payments\<close>

lemma PaymentStatus_not_refundable:
  "PaymentStatus (Some e) \<notin> {''settled'', ''partially_refunded'', ''refunded''}"
  by (auto simp: PaymentStatus_def split: go_error.splits ErrorKind.splits)

lemma mojaloop_leg_failed:
  "mojaloop_leg E N endpoint key req charge st0 = (st, ml, e) \<Longrightarrow> st \<noteq> ''settled'' \<Longrightarrow> st0 = ''settled'' \<Longrightarrow>
   st \<notin> {''settled'', ''partially_refunded'', ''refunded''}"
  using PaymentStatus_not_refundable by (auto simp: mojaloop_leg_def split: if_splits sum.splits)

lemma ledger_leg_tb:
  "ledger_leg E key sub charge s = (Some (st, Some h, ins), s1) \<Longrightarrow> st = ''settled'' \<and> 0 < charge"
  by (erule ledger_leg_cases) (auto split: sum.splits)

text \<open>
  A Mojaloop failure is not compensated: when the ledger leg of a payment succeeded and the
  Mojaloop leg then fails, the rider's wallet stays debited by the full charge, the payment is
  recorded under a failure status, and a refund of it is refused with 409, so that no endpoint of the
  service returns the money.
\<close>

theorem mojaloop_failure_keeps_debit:
  assumes "post E = sim_Transfer sh" and "sim_inv (led s)" and "products_ok s" and "charges_ok (fare_payments s)"
    and "call_on d cap (E, c, key, body)" and "\<not> sim_posted (led s) (payment_tid E key)"
    and "CreatePayment E N endpoint c key body s = (ErrWith 502 m p, s')" and "p_tb_transfer_id p = Some h"
    and "\<And>op. \<not> fault E' op"
  shows "debited sim_bal (Subject c) (effectiveCharged p) s s' \<and> 0 < effectiveCharged p \<and>
    fst (RefundPayment E' (p_id p) (Some want) s') =
      Err 409 (''only settled payments can be refunded (status '' @ p_status p @ '')'')"
  using assms(7)
proof (cases rule: CreatePayment_cases)
  case kept
  then show ?thesis by simp
next
  case (recorded req charge code ent payer spent bcs status0 tb insufficient s1 status ml mlErr ev)
  note req = payment_checks_ok [OF recorded(1)]
  from assms(5) req(6) have small: "pq_amount_minor req * 100 < 2 ^ 63" by auto
  note price = price_payment_cap(1,2) [OF assms(3) _ small assms(4) recorded(2)]
  have ch: "0 \<le> charge" "charge < 2 ^ 63" using price req(1) small by auto
  have p: "p = payment_of E key req charge ml tb status" and st: "status \<noteq> ''settled''"
    using announce_reply [OF recorded(7)] by (auto simp: payment_of_def split: if_splits)
  with assms(8) have tb: "tb = Some h" by (simp add: payment_of_def)
  from ledger_leg_tb [OF recorded(4) [unfolded tb]] have s0: "status0 = ''settled''" and pos: "0 < charge" by simp_all
  have eff: "effectiveCharged p = charge" by (simp add: p payment_of_def effectiveCharged_def)
  have s': "led s' = led s1" "rider_accounts s' = rider_accounts s1"
    "fare_payments s' = fare_payments s1 @ [p]"
    using arg_cong [OF recorded(7), of "\<lambda>x. led (snd x)"] arg_cong [OF recorded(7), of "\<lambda>x. rider_accounts (snd x)"]
      arg_cong [OF recorded(7), of "\<lambda>x. fare_payments (snd x)"] p by simp_all
  have deb: "debited sim_bal (Subject c) charge s s'"
    using sim.ledger_leg_settled [OF assms(1,2) ch recorded(4) [unfolded s0] assms(6)] pos s' req(2)
    by (simp add: debited_def)
  have "fare_payments s1 = fare_payments s" using ledger_leg_frame [OF recorded(4)] by auto
  moreover have "find (\<lambda>q. p_id q = p_id p) (fare_payments s) = None"
    using recorded(6) by (auto simp: find_None_all p payment_of_def)
  ultimately have "find (\<lambda>q. p_id q = p_id p) (fare_payments s') = Some p" using s'(3) by (simp add: find_append)
  moreover have "p_status p \<notin> {''settled'', ''partially_refunded'', ''refunded''}"
    using mojaloop_leg_failed [OF recorded(5) st s0] by (simp add: p payment_of_def)
  ultimately show ?thesis using deb eff pos assms(9) by (simp add: RefundPayment_def refund_check_def)
qed simp

definition moja_request :: payment_request where
  "moja_request = (fare_request 280)\<lparr>pq_use_mojaloop := True\<rparr>"

theorem mojaloop_failure_keeps_debit_witness:
  "\<exists>m p s'. CreatePayment sim_env demo_net [] ann ''k1'' (Some moja_request) funded_store = (ErrWith 502 m p, s') \<and>
     debited sim_bal ''ann'' 280 funded_store s' \<and> p_status p = ''mojaloop_unavailable''"
proof -
  let ?call = "CreatePayment sim_env demo_net [] ann ''k1'' (Some moja_request) funded_store"
  have pre: "post sim_env = sim_Transfer (\<lambda>_. ''h'')" "sim_inv (led funded_store)" "products_ok funded_store"
    "charges_ok (fare_payments funded_store)" "call_on 1000 800 (sim_env, ann, ''k1'', Some moja_request)"
    "\<not> sim_posted (led funded_store) (payment_tid sim_env ''k1'')" "\<And>op. \<not> fault sim_env op"
    by (auto simp: quiet_env_def sim_inv_def sim_bal_def bal_of_def funded_store_def empty_store_def products_ok_def
        charges_ok_def midnight_of_def dailyCapMinor_def fare_request_def moja_request_def sim_posted_def)
  obtain m p where p: "fst ?call = ErrWith 502 m p" "p_tb_transfer_id p = Some ''h''" "effectiveCharged p = 280"
    "p_status p = ''mojaloop_unavailable''"
    by (simp add: payment_eval moja_request_def mojaloopTransfer_def envOr_def ml_err_def PaymentStatus_def)
  then have run: "?call = (ErrWith 502 m p, snd ?call)" by (metis prod.collapse)
  have "Subject ann = ''ann''" by (simp add: Subject_def)
  with mojaloop_failure_keeps_debit [OF pre(1-6) run p(2) pre(7)] p run show ?thesis by metis
qed

text \<open>
  A ride that costs nothing cannot be paid with Mojaloop: with an endpoint configured, a payment
  whose charge is 0 (covered by a pass or capped) and that asks for the Mojaloop leg fails as
  \<open>failed\<close> with 502, because the client refuses a transfer of 0, instead of settling without a
  posting.
\<close>

theorem mojaloop_free_ride_fails:
  assumes "payment_checks (getenv E) c key body = Inr req" and "pq_use_mojaloop req"
    and "price_payment E (pq_rider_sub req) (pq_amount_minor req) s = Inr (0, code, ent, None, spent)"
    and "\<not> (\<exists>p \<in> set (fare_payments s). p_idempotency_key p = Some key \<or> p_id p = new_id E 0)"
    and "\<And>op. \<not> fault E op" and "trim_right (CHR ''/'') endpoint \<noteq> []"
  shows "\<exists>m p. fst (CreatePayment E N endpoint c key body s) = ErrWith 502 m p \<and> p_status p = ''failed'' \<and>
    effectiveCharged p = 0 \<and> p \<in> set (fare_payments (snd (CreatePayment E N endpoint c key body s)))"
proof -
  have key: "key \<noteq> []" and ep: "endpoint \<noteq> []"
    using payment_checks_ok(4) [OF assms(1)] assms(6) by (auto simp: trim_right_def)
  let ?e = "ml_err ''Transfer'' KindValidation 0 ''amount must be positive''"
  have "mojaloopTransfer E N endpoint key req 0 = Inl ?e"
    using key ep assms(6) by (simp add: mojaloopTransfer_def ml_New_def ml_Transfer_def Let_def)
  then have leg: "mojaloop_leg E N endpoint key req 0 ''settled'' = (''failed'', None, Some ?e)"
    using assms(2) by (simp add: mojaloop_leg_def PaymentStatus_def ml_err_def)
  let ?p = "payment_of E key req 0 None None ''failed''"
  let ?ev = "payment_event (new_id E 0) req 0 code @ payer_event [] @ cap_event 0 (pq_amount_minor req) code spent"
  let ?s1 = "s\<lparr>fare_payments := fare_payments s @ [?p], billing_charges := billing_charges s @ []\<rparr>"
  have run: "CreatePayment E N endpoint c key body s = announce_payment E ?ev ?p False (Some ?e) ?s1"
    using assms(1,3,4,5) leg
    by (simp add: CreatePayment_def settle_payment_def accrue_charge_def ledger_leg_def payment_of_def Let_def)
  have "\<exists>m. fst (announce_payment E ?ev ?p False (Some ?e) ?s1) = ErrWith 502 m ?p"
    by (simp add: announce_payment_def payment_of_def Let_def)
  moreover have "p_status ?p = ''failed''" "effectiveCharged ?p = 0" by (simp_all add: payment_of_def effectiveCharged_def)
  ultimately show ?thesis unfolding run by (auto simp del: append_Nil2)
qed

text \<open>A rider with a pass.\<close>

definition pass_store :: "simulated store" where
  "pass_store = funded_store
     \<lparr>fare_products := [\<lparr>fp_id = ''p1'', fp_code = ''PASS'', fp_kind = ''pass'', fp_discount_pct = None,
         fp_price_minor = 0, fp_duration_days = 30, fp_description = [], fp_active = True, fp_created_at = 0\<rparr>],
      rider_entitlements := [\<lparr>e_id = ''e1'', e_rider_sub = ''ann'', e_product_id = ''p1'', e_valid_from = 0,
         e_valid_to = 5000, e_payer_account = None, e_created_by = ''op'', e_created_at = 0\<rparr>]\<rparr>"

theorem mojaloop_free_ride_fails_witness:
  "\<exists>m p. fst (CreatePayment sim_env demo_net ''http://switch'' ann ''k1'' (Some moja_request) pass_store) =
     ErrWith 502 m p \<and> p_status p = ''failed''"
proof -
  have chk: "payment_checks (getenv sim_env) ann ''k1'' (Some moja_request) =
      Inr (moja_request\<lparr>pq_currency := ''EUR'', pq_rider_sub := ''ann''\<rparr>)"
    by (simp add: payment_eval moja_request_def)
  have "\<exists>m p. fst (CreatePayment sim_env demo_net ''http://switch'' ann ''k1'' (Some moja_request) pass_store) =
      ErrWith 502 m p \<and> p_status p = ''failed'' \<and> effectiveCharged p = 0 \<and>
      p \<in> set (fare_payments (snd (CreatePayment sim_env demo_net ''http://switch'' ann ''k1'' (Some moja_request) pass_store)))"
    by (rule mojaloop_free_ride_fails [OF chk, where code = "''PASS''" and ent = "''e1''" and spent = 0])
      (simp_all add: moja_request_def payment_eval pass_store_def trim_right_def)
  then show ?thesis by blast
qed

end
