(* ===== verification/Billing.thy ===== *)
theory Billing
  imports Payments
begin

text \<open>
  Corporate settlement (src/services/go/commerce-api/internal/handlers/billing.go): billing accounts,
  the periodic invoice that sweeps accrued charges, and its payment from the corporate clearing
  account. Invoice generation runs under a per-account advisory lock and invoice payment under a row
  lock, so each is one step.
\<close>

section \<open>Accounts\<close>

record account_request =
  bq_name :: string
  bq_kind :: string
  bq_contact_email :: string

definition max_billing_account :: "billing_account list \<Rightarrow> int" where
  "max_billing_account bas =
     (if bas = [] then FirstBillingAccountID - 1 else Max (set (map ba_ledger_account_id bas)))"

text \<open>Three attempts; only losing the race on the unique \<open>ledger_account_id\<close> is retried.\<close>

fun create_account_loop ::
  "'l env \<Rightarrow> account_request \<Rightarrow> nat \<Rightarrow> nat \<Rightarrow> 'l store \<Rightarrow> billing_account option \<times> 'l store" where
  "create_account_loop E req attempt 0 s = (None, s)"
| "create_account_loop E req attempt (Suc left) s =
     (if fault E ''create billing account'' then (None, s)
      else if raced E attempt then create_account_loop E req (Suc attempt) left s
      else
        let a = \<lparr>ba_id = new_id E 0, ba_name = bq_name req, ba_kind = bq_kind req,
                 ba_contact_email = bq_contact_email req,
                 ba_ledger_account_id = max_billing_account (billing_accounts s) + 1,
                 ba_status = ''active'', ba_created_at = now E\<rparr>
        in (Some a, s\<lparr>billing_accounts := billing_accounts s @ [a]\<rparr>))"

definition CreateBillingAccount ::
  "'l env \<Rightarrow> ctx \<Rightarrow> account_request option \<Rightarrow> 'l store \<Rightarrow> billing_account resp \<times> 'l store" where
  "CreateBillingAccount E c body s =
     (case body of
        None \<Rightarrow> (Err 400 ''body must include \"name\"'', s)
      | Some req \<Rightarrow>
          if bq_name req = [] then (Err 400 ''body must include \"name\"'', s)
          else if bq_kind req \<notin> {''corporate'', ''school'', ''agency'', ''municipal''}
          then (Err 400 ''kind must be corporate, school, agency or municipal'', s)
          else case create_account_loop E req 0 3 s of
            (None, s1) \<Rightarrow> (Internal ''create billing account'', s1)
          | (Some a, s1) \<Rightarrow>
              (Reply 201 a, publish E ''billing.account.created''
                [(''billing_account_id'', JStr (ba_id a)), (''name'', JStr (ba_name a)), (''kind'', JStr (ba_kind a)),
                 (''ledger_account_id'', JNum (ba_ledger_account_id a)), (''created_by'', JStr (Subject c)),
                 (''created_at'', JTime (now E))] s1))"

definition uninvoiced :: "string \<Rightarrow> billing_charge list \<Rightarrow> int" where
  "uninvoiced acc bcs =
     sum_where (\<lambda>b. bc_billing_account_id b = acc \<and> bc_invoice_id b = None) bc_amount_minor bcs"

text \<open>
  The query of \<open>ListBillingAccounts\<close> prefixes only the first column of \<open>billingAccountCols\<close> with the
  alias of the accounts table, so the other names must be unique over both joined tables: Postgres
  refuses an ambiguous column reference.
\<close>

definition unqualified_columns :: "string list" where
  "unqualified_columns = [''name'', ''kind'', ''contact_email'', ''ledger_account_id'', ''status'', ''created_at'']"

definition charge_columns :: "string list" where
  "charge_columns = [''id'', ''billing_account_id'', ''payment_id'', ''entitlement_id'', ''amount_minor'',
     ''invoice_id'', ''created_at'']"

definition ListBillingAccounts :: "'l env \<Rightarrow> 'l store \<Rightarrow> (billing_account \<times> int) list resp" where
  "ListBillingAccounts E s =
     (if fault E ''list billing accounts'' \<or> (\<exists>col \<in> set unqualified_columns. col \<in> set charge_columns)
      then Internal ''list billing accounts''
      else if fault E ''scan billing account'' then Internal ''scan billing account''
      else if fault E ''iterate billing accounts'' then Internal ''iterate billing accounts''
      else Reply 200 (map (\<lambda>a. (a, uninvoiced (ba_id a) (billing_charges s)))
        (newest ba_created_at 200 (billing_accounts s))))"

definition GetBillingAccount :: "'l env \<Rightarrow> string \<Rightarrow> 'l store \<Rightarrow> (billing_account \<times> int) resp" where
  "GetBillingAccount E acc s =
     (if fault E ''get billing account'' then Internal ''get billing account''
      else case find (\<lambda>a. ba_id a = acc) (billing_accounts s) of
        None \<Rightarrow> Err 404 ''billing account not found''
      | Some a \<Rightarrow>
          if fault E ''billing account accrual total'' \<or> \<not> in_i64 (uninvoiced acc (billing_charges s))
          then Internal ''billing account accrual total''
          else Reply 200 (a, uninvoiced acc (billing_charges s)))"

section \<open>Invoices\<close>

definition in_sweep :: "string \<Rightarrow> int \<Rightarrow> int \<Rightarrow> billing_charge \<Rightarrow> bool" where
  "in_sweep acc start finish b \<longleftrightarrow> bc_billing_account_id b = acc \<and> bc_invoice_id b = None \<and>
     start \<le> bc_created_at b \<and> bc_created_at b < finish"

definition has_invoice :: "string \<Rightarrow> billing_charge \<Rightarrow> bool" where
  "has_invoice iid b \<longleftrightarrow> bc_invoice_id b = Some iid"

definition invoice_sum :: "string \<Rightarrow> billing_charge list \<Rightarrow> int" where
  "invoice_sum iid bcs = sum_where (has_invoice iid) bc_amount_minor bcs"

definition invoice_count :: "string \<Rightarrow> billing_charge list \<Rightarrow> int" where
  "invoice_count iid bcs = int (length (filter (has_invoice iid) bcs))"

text \<open>
  The transaction after the checks. A period bound is \<open>None\<close> when the body leaves it out; columns
  are 64 and 32 bits wide.
\<close>

definition sweep_tx ::
  "'l env \<Rightarrow> string \<Rightarrow> int \<Rightarrow> int \<Rightarrow> 'l store \<Rightarrow> invoice resp \<times> 'l store" where
  "sweep_tx E acc start finish s =
     (let iid = new_id E 0;
          swept = upd_rows (in_sweep acc start finish) (\<lambda>b. b\<lparr>bc_invoice_id := Some iid\<rparr>) (billing_charges s) in
      if fault E ''sweep billing charges'' then (Internal ''sweep billing charges'', s)
      else if \<not> (\<exists>b \<in> set (billing_charges s). in_sweep acc start finish b)
      then (Err 422 ''no uninvoiced charges in the period'', s)
      else if fault E ''insert invoice'' \<or> (\<exists>v \<in> set (invoices s). inv_id v = iid) \<or>
        \<not> in_i64 (invoice_sum iid swept) \<or> \<not> in_i32 (invoice_count iid swept)
      then (Internal ''insert invoice'', s)
      else if fault E ''commit invoice'' then (Internal ''commit invoice'', s)
      else
        let v = \<lparr>inv_id = iid, inv_billing_account_id = acc, inv_period_start = start, inv_period_end = finish,
                 inv_amount_minor = invoice_sum iid swept, inv_charge_count = invoice_count iid swept,
                 inv_status = ''issued'', inv_tb_transfer_id = None, inv_issued_at = now E,
                 inv_paid_at = None, inv_created_at = now E\<rparr>
        in (Reply 201 v, publish E ''billing.invoice.issued''
             [(''invoice_id'', JStr iid), (''billing_account_id'', JStr acc), (''period_start'', JTime start),
              (''period_end'', JTime finish), (''amount_minor'', JNum (inv_amount_minor v)),
              (''charge_count'', JNum (inv_charge_count v)), (''issued_at'', JTime (now E))]
             (s\<lparr>billing_charges := swept, invoices := invoices s @ [v]\<rparr>)))"

definition same_period :: "string \<Rightarrow> int \<Rightarrow> int \<Rightarrow> invoice \<Rightarrow> bool" where
  "same_period acc start finish v \<longleftrightarrow>
     inv_billing_account_id v = acc \<and> inv_period_start v = start \<and> inv_period_end v = finish"

definition GenerateInvoice ::
  "'l env \<Rightarrow> string \<Rightarrow> (int option \<times> int option) option \<Rightarrow> 'l store \<Rightarrow> invoice resp \<times> 'l store" where
  "GenerateInvoice E acc body s =
     (case body of
        Some (Some start, Some finish) \<Rightarrow>
          if \<not> finish > start then (Err 400 ''period_end must be after period_start'', s)
          else if fault E ''begin invoice generation'' then (Internal ''begin invoice generation'', s)
          else if fault E ''lock billing account'' then (Internal ''lock billing account'', s)
          else if fault E ''check existing invoice'' then (Internal ''check existing invoice'', s)
          else (case find (same_period acc start finish) (invoices s) of
             Some existing \<Rightarrow> (Reply 200 existing, s)
           | None \<Rightarrow>
               if fault E ''lock billing account row'' then (Internal ''lock billing account row'', s)
               else (case find (\<lambda>a. ba_id a = acc) (billing_accounts s) of
                  None \<Rightarrow> (Err 404 ''billing account not found'', s)
                | Some a \<Rightarrow>
                    if ba_status a \<noteq> ''active'' then (Err 422 (''billing account is '' @ ba_status a), s)
                    else sweep_tx E acc start finish s))
      | _ \<Rightarrow> (Err 400 ''body must include \"period_start\" and \"period_end\"'', s))"

definition ListInvoices :: "'l env \<Rightarrow> string \<Rightarrow> string \<Rightarrow> 'l store \<Rightarrow> invoice list resp" where
  "ListInvoices E acc status s =
     (if fault E ''list invoices'' then Internal ''list invoices''
      else if fault E ''scan invoice'' then Internal ''scan invoice''
      else if fault E ''iterate invoices'' then Internal ''iterate invoices''
      else Reply 200 (newest inv_issued_at 200
        (filter (\<lambda>v. (acc \<noteq> [] \<longrightarrow> inv_billing_account_id v = acc) \<and> (status \<noteq> [] \<longrightarrow> inv_status v = status))
          (invoices s))))"

definition GetInvoice :: "'l env \<Rightarrow> string \<Rightarrow> 'l store \<Rightarrow> (invoice \<times> billing_charge list) resp" where
  "GetInvoice E iid s =
     (if fault E ''get invoice'' then Internal ''get invoice''
      else case find (\<lambda>v. inv_id v = iid) (invoices s) of
        None \<Rightarrow> Err 404 ''invoice not found''
      | Some v \<Rightarrow>
          if fault E ''list invoice charges'' then Internal ''list invoice charges''
          else if fault E ''scan invoice charge'' then Internal ''scan invoice charge''
          else if fault E ''iterate invoice charges'' then Internal ''iterate invoice charges''
          else Reply 200 (v, sort_key bc_created_at (filter (has_invoice iid) (billing_charges s))))"

definition invoice_tid :: "'l env \<Rightarrow> string \<Rightarrow> tid" where
  "invoice_tid E iid = DeterministicTransferID (hash16 E) (''invoice:'' @ iid)"

definition mark_paid :: "'l env \<Rightarrow> string \<Rightarrow> invoice \<Rightarrow> invoice" where
  "mark_paid E transferID v = v\<lparr>inv_status := ''paid'', inv_paid_at := Some (now E), inv_tb_transfer_id := Some transferID\<rparr>"

definition PayInvoice :: "'l env \<Rightarrow> string \<Rightarrow> 'l store \<Rightarrow> invoice resp \<times> 'l store" where
  "PayInvoice E iid s =
     (if fault E ''begin invoice payment'' then (Internal ''begin invoice payment'', s)
      else if fault E ''load invoice'' then (Internal ''load invoice'', s)
      else case find (\<lambda>v. inv_id v = iid) (invoices s) of
        None \<Rightarrow> (Err 404 ''invoice not found'', s)
      | Some v \<Rightarrow>
          if inv_status v = ''paid'' then (Reply 200 v, s)
          else if inv_status v \<noteq> ''issued''
          then (Err 409 (''only issued invoices can be paid (status '' @ inv_status v @ '')''), s)
          else if fault E ''load billing account ledger id'' then (Internal ''load billing account ledger id'', s)
          else (case find (\<lambda>a. ba_id a = inv_billing_account_id v) (billing_accounts s) of
             None \<Rightarrow> (Internal ''load billing account ledger id'', s)
           | Some a \<Rightarrow>
               (case post E (invoice_tid E (inv_id v)) (ba_ledger_account_id a) OperatorRevenueAccount
                   (u64 (inv_amount_minor v)) CodeBilling (led s) of
                  (Inl e, l) \<Rightarrow>
                    (if is_insufficient e then ErrWith 402 ''insufficient_funds'' v
                     else Internal ''invoice ledger transfer'', s\<lparr>led := l\<rparr>)
                | (Inr transferID, l) \<Rightarrow>
                    let s1 = s\<lparr>led := l\<rparr>; paid = mark_paid E transferID v in
                    if fault E ''mark invoice paid'' then (Internal ''mark invoice paid'', s1)
                    else if fault E ''commit invoice payment'' then (Internal ''commit invoice payment'', s1)
                    else (Reply 200 paid, publish E ''billing.invoice.paid''
                           [(''invoice_id'', JStr (inv_id paid)),
                            (''billing_account_id'', JStr (inv_billing_account_id paid)),
                            (''amount_minor'', JNum (inv_amount_minor paid)), (''tb_transfer_id'', JStr transferID),
                            (''paid_at'', JTime (now E))]
                           (s1\<lparr>invoices := upd_rows (\<lambda>x. inv_id x = iid \<and> inv_status x = ''issued'')
                                 (mark_paid E transferID) (invoices s1)\<rparr>)))))"

section \<open>The billing invariant\<close>

text \<open>
  Charges are positive, a swept charge belongs to a recorded invoice, and every invoice shows the sum
  and the number of its line charges.
\<close>

definition billing_ok :: "'l store \<Rightarrow> bool" where
  "billing_ok s \<longleftrightarrow> distinct (map inv_id (invoices s)) \<and>
     (\<forall>v \<in> set (invoices s). inv_amount_minor v = invoice_sum (inv_id v) (billing_charges s) \<and>
        inv_charge_count v = invoice_count (inv_id v) (billing_charges s)) \<and>
     (\<forall>b \<in> set (billing_charges s). 0 < bc_amount_minor b \<and>
        (\<forall>i. bc_invoice_id b = Some i \<longrightarrow> i \<in> set (map inv_id (invoices s))))"

definition sweep :: "string \<Rightarrow> int \<Rightarrow> int \<Rightarrow> string \<Rightarrow> billing_charge list \<Rightarrow> billing_charge list" where
  "sweep acc start finish iid bcs =
     upd_rows (in_sweep acc start finish) (\<lambda>b. b\<lparr>bc_invoice_id := Some iid\<rparr>) bcs"

lemma sweep_other:
  "i \<noteq> iid \<Longrightarrow> invoice_sum i (sweep acc st fi iid bcs) = invoice_sum i bcs \<and>
    invoice_count i (sweep acc st fi iid bcs) = invoice_count i bcs"
  by (induction bcs) (auto simp: sweep_def invoice_sum_def invoice_count_def has_invoice_def in_sweep_def)

lemma sweep_new:
  "(\<And>b. b \<in> set bcs \<Longrightarrow> bc_invoice_id b \<noteq> Some iid) \<Longrightarrow>
   invoice_sum iid (sweep acc st fi iid bcs) = sum_where (in_sweep acc st fi) bc_amount_minor bcs \<and>
   invoice_count iid (sweep acc st fi iid bcs) = int (length (filter (in_sweep acc st fi) bcs))"
  by (induction bcs) (auto simp: sweep_def invoice_sum_def invoice_count_def has_invoice_def)

lemma sweep_rows:
  "b \<in> set (sweep acc st fi iid bcs) \<Longrightarrow>
   \<exists>b0 \<in> set bcs. bc_amount_minor b = bc_amount_minor b0 \<and>
     (bc_invoice_id b = bc_invoice_id b0 \<or> bc_invoice_id b = Some iid)"
  unfolding sweep_def by (drule set_upd_rowsD) (auto split: if_splits)

lemma sum_where_pos:
  "(\<And>x. x \<in> set xs \<Longrightarrow> 0 < f x) \<Longrightarrow> \<exists>x \<in> set xs. P x \<Longrightarrow> 0 < sum_where P f xs"
proof (induction xs)
  case (Cons x xs)
  have "0 \<le> sum_where P f xs" using Cons.prems(1) by (intro sum_where_nonneg) (auto intro: less_imp_le)
  with Cons show ?case by (auto intro: add_pos_nonneg)
qed simp

definition invoice_of :: "'l env \<Rightarrow> string \<Rightarrow> int \<Rightarrow> int \<Rightarrow> billing_charge list \<Rightarrow> invoice" where
  "invoice_of E acc st fi bcs =
     \<lparr>inv_id = new_id E 0, inv_billing_account_id = acc, inv_period_start = st, inv_period_end = fi,
      inv_amount_minor = invoice_sum (new_id E 0) (sweep acc st fi (new_id E 0) bcs),
      inv_charge_count = invoice_count (new_id E 0) (sweep acc st fi (new_id E 0) bcs),
      inv_status = ''issued'', inv_tb_transfer_id = None, inv_issued_at = now E,
      inv_paid_at = None, inv_created_at = now E\<rparr>"

text \<open>Either nothing changes, or the charges are swept into exactly this invoice.\<close>

definition swept_to :: "'l env \<Rightarrow> string \<Rightarrow> int \<Rightarrow> int \<Rightarrow> 'l store \<Rightarrow> 'l store \<Rightarrow> bool" where
  "swept_to E acc st fi s s' \<longleftrightarrow>
     (\<exists>b \<in> set (billing_charges s). in_sweep acc st fi b) \<and>
     \<not> (\<exists>v \<in> set (invoices s). inv_id v = new_id E 0) \<and>
     billing_charges s' = sweep acc st fi (new_id E 0) (billing_charges s) \<and>
     invoices s' = invoices s @ [invoice_of E acc st fi (billing_charges s)] \<and> led s' = led s"

lemma sweep_tx_cases:
  assumes "sweep_tx E acc st fi s = (r, s')"
  shows "s' = s \<and> (\<forall>v. r \<noteq> Reply 201 v) \<or>
    r = Reply 201 (invoice_of E acc st fi (billing_charges s)) \<and> swept_to E acc st fi s s'"
proof -
  let ?i = "new_id E 0" and ?sw = "sweep acc st fi (new_id E 0) (billing_charges s)"
  show ?thesis
  proof (cases "fault E ''sweep billing charges'' \<or> \<not> (\<exists>b \<in> set (billing_charges s). in_sweep acc st fi b) \<or>
      fault E ''insert invoice'' \<or> (\<exists>v \<in> set (invoices s). inv_id v = ?i) \<or>
      \<not> in_i64 (invoice_sum ?i ?sw) \<or> \<not> in_i32 (invoice_count ?i ?sw) \<or> fault E ''commit invoice''")
    case True
    then have "s' = s \<and> (\<forall>v. r \<noteq> Reply 201 v)"
      using assms unfolding sweep_tx_def Let_def sweep_def [symmetric] by (auto split: if_splits)
    then show ?thesis ..
  next
    case False
    then show ?thesis
      using assms unfolding sweep_tx_def Let_def sweep_def [symmetric]
      by (auto simp: swept_to_def invoice_of_def)
  qed
qed

lemma GenerateInvoice_cases:
  assumes "GenerateInvoice E acc body s = (r, s')"
  obtains (kept) "s' = s" and "\<And>v. r \<noteq> Reply 201 v"
  | (issued) st fi where "body = Some (Some st, Some fi)" and "st < fi"
      and "find (same_period acc st fi) (invoices s) = None"
      and "r = Reply 201 (invoice_of E acc st fi (billing_charges s))" and "swept_to E acc st fi s s'"
proof -
  consider (sw) st fi where "body = Some (Some st, Some fi)" "st < fi"
      "find (same_period acc st fi) (invoices s) = None" "sweep_tx E acc st fi s = (r, s')"
    | (no) "s' = s" "\<And>v. r \<noteq> Reply 201 v"
    using assms unfolding GenerateInvoice_def by (auto split: option.splits if_splits prod.splits)
  then show ?thesis
  proof cases
    case (sw st fi)
    from sweep_tx_cases [OF sw(4)] kept issued [OF sw(1-3)] show ?thesis by blast
  qed (rule kept)
qed

lemma GenerateInvoice_ok:
  assumes "billing_ok s" and "GenerateInvoice E acc body s = (r, s')"
  shows "billing_ok s'"
  using assms(2)
proof (cases rule: GenerateInvoice_cases)
  case (issued st fi)
  let ?i = "new_id E 0" and ?v = "invoice_of E acc st fi (billing_charges s)"
  from issued(5) have fresh: "?i \<notin> set (map inv_id (invoices s))"
    and bcs: "billing_charges s' = sweep acc st fi ?i (billing_charges s)" and inv: "invoices s' = invoices s @ [?v]"
    by (auto simp: swept_to_def)
  have v: "inv_id ?v = ?i" "inv_amount_minor ?v = invoice_sum ?i (billing_charges s')"
    "inv_charge_count ?v = invoice_count ?i (billing_charges s')" by (simp_all add: invoice_of_def bcs)
  have old: "inv_amount_minor w = invoice_sum (inv_id w) (billing_charges s') \<and>
      inv_charge_count w = invoice_count (inv_id w) (billing_charges s')" if "w \<in> set (invoices s)" for w
  proof -
    have "inv_id w \<noteq> ?i" using that fresh by (auto simp: image_iff)
    from sweep_other [OF this] that assms(1) show ?thesis by (simp add: bcs billing_ok_def)
  qed
  have rows: "0 < bc_amount_minor b \<and> (\<forall>i. bc_invoice_id b = Some i \<longrightarrow> i \<in> set (map inv_id (invoices s')))"
    if "b \<in> set (billing_charges s')" for b
  proof -
    from sweep_rows [OF that [unfolded bcs]] obtain b0 where "b0 \<in> set (billing_charges s)"
      "bc_amount_minor b = bc_amount_minor b0" "bc_invoice_id b = bc_invoice_id b0 \<or> bc_invoice_id b = Some ?i" by blast
    with assms(1) inv v(1) show ?thesis by (auto simp: billing_ok_def)
  qed
  have "distinct (map inv_id (invoices s'))" using assms(1) fresh inv v(1) by (simp add: billing_ok_def)
  moreover have "inv_amount_minor w = invoice_sum (inv_id w) (billing_charges s') \<and>
      inv_charge_count w = invoice_count (inv_id w) (billing_charges s')" if "w \<in> set (invoices s')" for w
    using that inv v old by auto
  ultimately show ?thesis unfolding billing_ok_def using rows by blast
qed (use assms(1) in simp)

lemma PayInvoice_frame:
  assumes "PayInvoice E iid s = (r, s')"
  shows "billing_charges s' = billing_charges s \<and>
    (invoices s' = invoices s \<or>
     (\<exists>t. invoices s' = upd_rows (\<lambda>x. inv_id x = iid \<and> inv_status x = ''issued'') (mark_paid E t) (invoices s)))"
  using assms unfolding PayInvoice_def Let_def
  by (simp split: if_splits option.splits prod.splits sum.splits; force)

lemma PayInvoice_ok:
  assumes "billing_ok s" and "PayInvoice E iid s = (r, s')"
  shows "billing_ok s'"
proof -
  have paid: "billing_ok (s\<lparr>invoices := upd_rows P (mark_paid E t) (invoices s)\<rparr>)" for P t
  proof -
    have ids: "map inv_id (upd_rows P (mark_paid E t) (invoices s)) = map inv_id (invoices s)"
      by (simp add: map_upd_rows mark_paid_def)
    have "\<exists>v \<in> set (invoices s). inv_id w = inv_id v \<and> inv_amount_minor w = inv_amount_minor v \<and>
        inv_charge_count w = inv_charge_count v" if "w \<in> set (upd_rows P (mark_paid E t) (invoices s))" for w
      using set_upd_rowsD [OF that] by (auto simp: mark_paid_def split: if_splits)
    with assms(1) ids show ?thesis unfolding billing_ok_def by (simp del: set_map) metis
  qed
  with PayInvoice_frame [OF assms(2)] assms(1) show ?thesis by (auto simp: billing_ok_def)
qed

section \<open>Reachable books\<close>

definition period_of :: "invoice \<Rightarrow> string \<times> int \<times> int" where
  "period_of v = (inv_billing_account_id v, inv_period_start v, inv_period_end v)"

definition books_ok :: "'l store \<Rightarrow> bool" where
  "books_ok s \<longleftrightarrow> billing_ok s \<and> distinct (map period_of (invoices s)) \<and>
     distinct (map bc_payment_id (billing_charges s))"

lemma same_period_iff: "same_period acc st fi v \<longleftrightarrow> period_of v = (acc, st, fi)"
  by (auto simp: same_period_def period_of_def)

lemma sweep_payments: "map bc_payment_id (sweep acc st fi iid bcs) = map bc_payment_id bcs"
  by (simp add: sweep_def map_upd_rows)

lemma GenerateInvoice_books:
  assumes "books_ok s" and "GenerateInvoice E acc body s = (r, s')"
  shows "books_ok s'"
  using assms(2)
proof (cases rule: GenerateInvoice_cases)
  case (issued st fi)
  have "\<forall>v \<in> set (invoices s). period_of v \<noteq> (acc, st, fi)"
    using issued(3) by (simp add: find_None_all same_period_iff)
  with issued(5) assms(1) have "distinct (map period_of (invoices s'))"
    by (auto simp: books_ok_def swept_to_def period_of_def invoice_of_def)
  moreover have "distinct (map bc_payment_id (billing_charges s'))"
    using issued(5) assms(1) by (simp add: books_ok_def swept_to_def sweep_payments)
  moreover have "billing_ok s'" using assms by (auto simp: books_ok_def intro: GenerateInvoice_ok)
  ultimately show ?thesis by (simp add: books_ok_def)
qed (use assms(1) in simp)

lemma PayInvoice_books:
  assumes "books_ok s" and "PayInvoice E iid s = (r, s')"
  shows "books_ok s'"
proof -
  have "map period_of (invoices s') = map period_of (invoices s)"
    using PayInvoice_frame [OF assms(2)] by (auto simp: map_upd_rows period_of_def mark_paid_def)
  moreover have "billing_charges s' = billing_charges s" using PayInvoice_frame [OF assms(2)] ..
  moreover have "billing_ok s'" using assms by (auto simp: books_ok_def intro: PayInvoice_ok)
  ultimately show ?thesis using assms(1) by (simp add: books_ok_def)
qed

lemma accrue_charge_cases:
  assumes "accrue_charge E payer pid ent amount charge s = Inr bcs"
  obtains (none) "bcs = []" | (one) b where "bcs = [b]" and "payer = Some (bc_billing_account_id b)"
      and "bc_payment_id b = pid" and "bc_amount_minor b = i64 (amount - charge)" and "0 < bc_amount_minor b"
      and "bc_invoice_id b = None" and "bc_entitlement_id b = ent"
      and "pid \<notin> set (map bc_payment_id (billing_charges s))"
proof (cases "bcs = []")
  case False
  let ?b = "\<lparr>bc_id = new_id E 1, bc_billing_account_id = the payer, bc_payment_id = pid, bc_entitlement_id = ent,
    bc_amount_minor = i64 (amount - charge), bc_invoice_id = None, bc_created_at = now E\<rparr>"
  from assms False have "bcs = [?b]" "payer \<noteq> None" "0 < i64 (amount - charge)"
    "pid \<notin> set (map bc_payment_id (billing_charges s))"
    by (auto simp: accrue_charge_def Let_def image_iff split: option.splits if_splits)
  then show ?thesis by (intro one [of ?b]) auto
qed (rule none)

lemma CreatePayment_books:
  assumes "books_ok s" and "CreatePayment E N ep c key body s = (r, s')"
  shows "books_ok s'"
  using assms(2)
proof (cases rule: CreatePayment_cases)
  case (aborted req charge code ent payer spent res op)
  from ledger_leg_frame [OF aborted(3)] assms(1) show ?thesis by (auto simp: books_ok_def billing_ok_def)
next
  case (recorded req charge code ent payer spent bcs status0 tb insufficient s1 status ml mlErr ev)
  have s1: "billing_charges s1 = billing_charges s" "invoices s1 = invoices s"
    using ledger_leg_frame [OF recorded(4)] by auto
  have s': "billing_charges s' = billing_charges s @ bcs" "invoices s' = invoices s"
    using arg_cong [OF recorded(7), of snd] s1 by auto
  from recorded(3) show ?thesis
  proof (cases rule: accrue_charge_cases)
    case none
    with s' assms(1) show ?thesis by (simp add: books_ok_def billing_ok_def)
  next
    case (one b)
    have "invoice_sum i (billing_charges s') = invoice_sum i (billing_charges s)"
      "invoice_count i (billing_charges s') = invoice_count i (billing_charges s)" for i
      using one(6) by (simp_all add: s' one(1) invoice_sum_def invoice_count_def has_invoice_def)
    with s' one assms(1) show ?thesis by (auto simp: books_ok_def billing_ok_def)
  qed
qed (use assms(1) in simp)

lemma CreateBillingAccount_frame:
  assumes "CreateBillingAccount E c body s = (r, s')"
  shows "billing_charges s' = billing_charges s \<and> invoices s' = invoices s"
proof -
  have loop: "billing_charges (snd (create_account_loop E req k n s)) = billing_charges s \<and>
      invoices (snd (create_account_loop E req k n s)) = invoices s" for req k n
    by (induction n arbitrary: k) (auto simp: Let_def)
  from assms show ?thesis
    unfolding CreateBillingAccount_def using loop
    by (auto split: option.splits if_splits prod.splits) (metis snd_conv)+
qed

inductive billing_step :: "'l store \<Rightarrow> 'l store \<Rightarrow> bool" where
  account: "CreateBillingAccount E c body s = (r, s') \<Longrightarrow> billing_step s s'"
| ride: "CreatePayment E N ep c key body s = (r, s') \<Longrightarrow> billing_step s s'"
| bill: "GenerateInvoice E acc body s = (r, s') \<Longrightarrow> billing_step s s'"
| settle: "PayInvoice E iid s = (r, s') \<Longrightarrow> billing_step s s'"

lemma billing_step_books: "billing_step s s' \<Longrightarrow> books_ok s \<Longrightarrow> books_ok s'"
proof (induction rule: billing_step.induct)
  case (account E c body s r s')
  with CreateBillingAccount_frame show ?case by (fastforce simp: books_ok_def billing_ok_def)
qed (blast intro: CreatePayment_books GenerateInvoice_books PayInvoice_books)+

lemma billing_reachable: "billing_step\<^sup>*\<^sup>* s s' \<Longrightarrow> books_ok s \<Longrightarrow> books_ok s'"
  by (induction rule: rtranclp_induct) (auto intro: billing_step_books)

lemma invoiced_partition:
  "distinct I \<Longrightarrow> (\<And>b i. b \<in> set bcs \<Longrightarrow> bc_invoice_id b = Some i \<Longrightarrow> i \<in> set I) \<Longrightarrow>
   (\<Sum>i\<leftarrow>I. invoice_sum i bcs) + sum_where (\<lambda>b. bc_invoice_id b = None) bc_amount_minor bcs =
   (\<Sum>b\<leftarrow>bcs. bc_amount_minor b)"
proof (induction bcs)
  case (Cons b bcs)
  have one: "distinct J \<Longrightarrow> (\<Sum>i\<leftarrow>J. if bc_invoice_id b = Some i then a else (0 :: int)) =
      (if \<exists>i \<in> set J. bc_invoice_id b = Some i then a else 0)" for J and a
    by (induction J) auto
  have "(\<Sum>i\<leftarrow>I. invoice_sum i (b # bcs)) =
      (\<Sum>i\<leftarrow>I. if bc_invoice_id b = Some i then bc_amount_minor b else 0) + (\<Sum>i\<leftarrow>I. invoice_sum i bcs)"
    by (simp add: invoice_sum_def has_invoice_def sum_list_addf)
  with one [OF Cons.prems(1)] Cons show ?case by (cases "bc_invoice_id b") auto
qed (simp add: invoice_sum_def sum_list_triv)

text \<open>
  C7. The corporate books balance: in every state reached by creating accounts, paying for rides,
  issuing and paying invoices, in any order and with any failures, the invoiced amounts and the
  charges not yet invoiced add up to all charges, every invoice shows the sum and the number of its
  line charges, no billing account is invoiced twice for a period, and no payment is charged twice.
\<close>

theorem corporate_books_balance:
  assumes "billing_step\<^sup>*\<^sup>* s0 s" and "billing_charges s0 = []" and "invoices s0 = []"
  shows "(\<Sum>v\<leftarrow>invoices s. inv_amount_minor v) +
      sum_where (\<lambda>b. bc_invoice_id b = None) bc_amount_minor (billing_charges s) =
      (\<Sum>b\<leftarrow>billing_charges s. bc_amount_minor b) \<and>
    (\<forall>v \<in> set (invoices s). inv_amount_minor v = invoice_sum (inv_id v) (billing_charges s) \<and>
      inv_charge_count v = invoice_count (inv_id v) (billing_charges s)) \<and>
    distinct (map period_of (invoices s)) \<and> distinct (map bc_payment_id (billing_charges s))"
proof -
  have "books_ok s0" using assms(2,3) by (simp add: books_ok_def billing_ok_def)
  then have ok: "books_ok s" by (rule billing_reachable [OF assms(1)])
  then have rows: "inv_amount_minor v = invoice_sum (inv_id v) (billing_charges s)" if "v \<in> set (invoices s)" for v
    using that by (simp add: books_ok_def billing_ok_def)
  have "(\<Sum>v\<leftarrow>invoices s. inv_amount_minor v) = (\<Sum>i\<leftarrow>map inv_id (invoices s). invoice_sum i (billing_charges s))"
    by (simp add: rows cong: map_cong)
  moreover have "(\<Sum>i\<leftarrow>map inv_id (invoices s). invoice_sum i (billing_charges s)) +
      sum_where (\<lambda>b. bc_invoice_id b = None) bc_amount_minor (billing_charges s) = (\<Sum>b\<leftarrow>billing_charges s. bc_amount_minor b)"
    by (rule invoiced_partition) (use ok in \<open>auto simp: books_ok_def billing_ok_def\<close>)
  ultimately show ?thesis using ok by (simp add: books_ok_def billing_ok_def)
qed

text \<open>A rider whose employer pays half of each fare.\<close>

definition corporate_store :: "int \<Rightarrow> simulated store" where
  "corporate_store wallet = (empty_store \<lparr>balances = [1001 \<mapsto> wallet, 2001 \<mapsto> 0, 5001 \<mapsto> 900], transfers = Map.empty\<rparr>)
     \<lparr>rider_accounts := [\<lparr>ra_rider_sub = ''ann'', ra_account_id = 1001\<rparr>],
      fare_products := [\<lparr>fp_id = ''p1'', fp_code = ''HALF'', fp_kind = ''discount'', fp_discount_pct = Some 50,
         fp_price_minor = 0, fp_duration_days = 30, fp_description = [], fp_active = True, fp_created_at = 0\<rparr>],
      billing_accounts := [\<lparr>ba_id = ''b1'', ba_name = ''Acme'', ba_kind = ''corporate'', ba_contact_email = [],
         ba_ledger_account_id = 5001, ba_status = ''active'', ba_created_at = 0\<rparr>],
      rider_entitlements := [\<lparr>e_id = ''e1'', e_rider_sub = ''ann'', e_product_id = ''p1'', e_valid_from = 0,
         e_valid_to = 5000, e_payer_account = Some ''b1'', e_created_by = ''op'', e_created_at = 0\<rparr>]\<rparr>"

definition ridden :: "int \<Rightarrow> simulated store" where
  "ridden wallet = snd (CreatePayment sim_env demo_net [] ann ''k1'' (Some (fare_request 400)) (corporate_store wallet))"

definition billed :: "simulated store" where
  "billed = snd (GenerateInvoice sim_env ''b1'' (Some (Some 0, Some 2000)) (ridden 2000))"

definition ride_charge :: billing_charge where
  "ride_charge = \<lparr>bc_id = ''idx'', bc_billing_account_id = ''b1'', bc_payment_id = ''id'', bc_entitlement_id = ''e1'',
     bc_amount_minor = 200, bc_invoice_id = None, bc_created_at = 1000\<rparr>"

definition ride_invoice :: invoice where
  "ride_invoice = \<lparr>inv_id = ''id'', inv_billing_account_id = ''b1'', inv_period_start = 0, inv_period_end = 2000,
     inv_amount_minor = 200, inv_charge_count = 1, inv_status = ''issued'', inv_tb_transfer_id = None,
     inv_issued_at = 1000, inv_paid_at = None, inv_created_at = 1000\<rparr>"

lemma ridden_rows:
  "billing_charges (ridden 2000) = [ride_charge] \<and> invoices (ridden 2000) = [] \<and>
   billing_accounts (ridden 2000) = billing_accounts (corporate_store 2000)"
  by (simp add: ridden_def corporate_store_def payment_eval discounted_def ride_charge_def)

lemma billed_run:
  "GenerateInvoice sim_env ''b1'' (Some (Some 0, Some 2000)) (ridden 2000) = (Reply 201 ride_invoice, billed)"
proof -
  have "fst (GenerateInvoice sim_env ''b1'' (Some (Some 0, Some 2000)) (ridden 2000)) = Reply 201 ride_invoice"
    using ridden_rows
    by (simp add: GenerateInvoice_def corporate_store_def sweep_tx_def Let_def quiet_env_def in_sweep_def
        ride_charge_def ride_invoice_def invoice_sum_def invoice_count_def has_invoice_def in_i64_def in_i32_def)
  then show ?thesis unfolding billed_def by (metis prod.collapse)
qed

lemma billed_rows:
  "invoices billed = [ride_invoice] \<and> billing_charges billed = [ride_charge\<lparr>bc_invoice_id := Some ''id''\<rparr>] \<and>
   billing_accounts billed = billing_accounts (corporate_store 2000) \<and> led billed = led (ridden 2000)"
  using ridden_rows unfolding billed_def
  by (simp add: GenerateInvoice_def corporate_store_def sweep_tx_def Let_def quiet_env_def in_sweep_def
      ride_charge_def ride_invoice_def invoice_sum_def invoice_count_def has_invoice_def in_i64_def in_i32_def)

theorem corporate_books_balance_witness:
  "(\<Sum>v\<leftarrow>invoices billed. inv_amount_minor v) = (\<Sum>b\<leftarrow>billing_charges billed. bc_amount_minor b)"
proof -
  have "billing_step (corporate_store 2000) (ridden 2000)"
    unfolding ridden_def by (rule billing_step.ride [OF prod.collapse [symmetric]])
  moreover have "billing_step (ridden 2000) billed" by (rule billing_step.bill [OF billed_run])
  ultimately have "billing_step\<^sup>*\<^sup>* (corporate_store 2000) billed" by auto
  from corporate_books_balance [OF this] billed_rows show ?thesis
    by (simp add: corporate_store_def empty_store_def ride_charge_def)
qed

section \<open>Issuing an invoice\<close>

lemma GenerateInvoice_replay:
  assumes "find (same_period acc st fi) (invoices s) = Some v" and "st < fi" and "\<And>op. \<not> fault E op"
  shows "GenerateInvoice E acc (Some (Some st, Some fi)) s = (Reply 200 v, s)"
  using assms by (simp add: GenerateInvoice_def)

text \<open>
  C8. Issuing an invoice is exact and retry-safe: an invoice answered 201 totals exactly the charges
  of its billing account that lie in the half-open period and were not invoiced yet, of which there
  is at least one; those charges now name it and no other charge changes. Asking for the same period
  again answers 200 with that invoice and changes nothing, even when charges have accrued since.
\<close>

theorem invoice_exact_and_idempotent:
  assumes "books_ok s" and "GenerateInvoice E acc (Some (Some st, Some fi)) s = (Reply 201 v, s')"
  shows "inv_amount_minor v = sum_where (in_sweep acc st fi) bc_amount_minor (billing_charges s) \<and>
    0 < inv_amount_minor v \<and>
    inv_charge_count v = int (length (filter (in_sweep acc st fi) (billing_charges s))) \<and>
    billing_charges s' =
      map (\<lambda>b. if in_sweep acc st fi b then b\<lparr>bc_invoice_id := Some (inv_id v)\<rparr> else b) (billing_charges s) \<and>
    invoices s' = invoices s @ [v] \<and> led s' = led s \<and>
    ((\<forall>op. \<not> fault E2 op) \<longrightarrow>
       GenerateInvoice E2 acc (Some (Some st, Some fi)) (s'\<lparr>billing_charges := bcs\<rparr>) =
         (Reply 200 v, s'\<lparr>billing_charges := bcs\<rparr>))"
  using assms(2)
proof (cases rule: GenerateInvoice_cases)
  case (issued st' fi')
  then have eq: "st' = st" "fi' = fi" and v: "v = invoice_of E acc st fi (billing_charges s)"
    and sw: "swept_to E acc st fi s s'" by auto
  let ?i = "new_id E 0" and ?in = "in_sweep acc st fi"
  have fresh: "bc_invoice_id b \<noteq> Some ?i" if "b \<in> set (billing_charges s)" for b
  proof
    assume "bc_invoice_id b = Some ?i"
    with that assms(1) have "?i \<in> set (map inv_id (invoices s))" by (auto simp: books_ok_def billing_ok_def)
    with sw show False by (auto simp: swept_to_def)
  qed
  have tot: "inv_amount_minor v = sum_where ?in bc_amount_minor (billing_charges s)"
    "inv_charge_count v = int (length (filter ?in (billing_charges s)))"
    using sweep_new [OF fresh] by (simp_all add: v invoice_of_def)
  have "0 < sum_where ?in bc_amount_minor (billing_charges s)"
    using assms(1) sw by (intro sum_where_pos) (auto simp: books_ok_def billing_ok_def swept_to_def)
  moreover have "find (same_period acc st fi) (invoices s') = Some v"
    using issued(3) sw eq by (simp add: swept_to_def v find_append same_period_def invoice_of_def)
  then have "(\<forall>op. \<not> fault E2 op) \<longrightarrow> GenerateInvoice E2 acc (Some (Some st, Some fi)) (s'\<lparr>billing_charges := bcs\<rparr>) =
         (Reply 200 v, s'\<lparr>billing_charges := bcs\<rparr>)"
    using issued(2) eq by (simp add: GenerateInvoice_replay)
  moreover have "inv_id v = ?i" by (simp add: v invoice_of_def)
  ultimately show ?thesis using tot sw by (simp add: swept_to_def v sweep_def upd_rows_def)
qed blast

theorem invoice_exact_and_idempotent_witness:
  "0 < inv_amount_minor ride_invoice \<and> invoices billed = [ride_invoice] \<and>
   GenerateInvoice sim_env ''b1'' (Some (Some 0, Some 2000)) billed = (Reply 200 ride_invoice, billed)"
proof -
  have "books_ok (ridden 2000)"
    using ridden_rows by (simp add: books_ok_def billing_ok_def ride_charge_def)
  from invoice_exact_and_idempotent [OF this billed_run, where ?E2.0 = sim_env and bcs = "billing_charges billed"]
  show ?thesis using ridden_rows by (simp add: quiet_env_def)
qed

section \<open>Paying an invoice\<close>

text \<open>
  C9. Paying an invoice is exact and happens once: over the simulated ledger, with the invoice
  transfer not posted before, a payment answered 200 of an issued invoice moves exactly its amount
  from the account's clearing account to operator revenue and marks the row paid; an answer 402 moves
  nothing and leaves the invoice issued; and after a payment answered 200 every further call answers
  200 with the paid invoice and changes neither rows nor money.
\<close>

theorem invoice_paid_once:
  assumes "post E = sim_Transfer sh" and "sim_inv (led s)" and "distinct (map inv_id (invoices s))"
    and "find (\<lambda>v. inv_id v = iid) (invoices s) = Some v" and "inv_status v = ''issued''"
    and "amount_ok (inv_amount_minor v)" and "\<not> sim_posted (led s) (invoice_tid E iid)"
    and "find (\<lambda>a. ba_id a = inv_billing_account_id v) (billing_accounts s) = Some a"
    and "PayInvoice E iid s = (r, s')"
  shows "sim_inv (led s') \<and>
    (status_code r = 200 \<longrightarrow>
       sim_bal (led s') = move (ba_ledger_account_id a) OperatorRevenueAccount (inv_amount_minor v) (sim_bal (led s)) \<and>
       (\<exists>p. r = Reply 200 p \<and> inv_status p = ''paid'' \<and> p \<in> set (invoices s') \<and>
          inv_amount_minor p = inv_amount_minor v \<and>
          (\<forall>E2. (\<forall>op. \<not> fault E2 op) \<longrightarrow> PayInvoice E2 iid s' = (Reply 200 p, s')))) \<and>
    (status_code r = 402 \<longrightarrow> sim_bal (led s') = sim_bal (led s) \<and> invoices s' = invoices s)"
proof -
  have vid: "inv_id v = iid" using find_Some_prop [OF assms(4)] by simp
  have amt: "u64 (inv_amount_minor v) = inv_amount_minor v"
    using assms(6) by (intro u64_small) (auto simp: amount_ok_def)
  obtain res l where tr: "sim_Transfer sh (invoice_tid E iid) (ba_ledger_account_id a) OperatorRevenueAccount
      (inv_amount_minor v) CodeBilling (led s) = (res, l)" by (metis prod.exhaust)
  have inv: "sim_inv l" using sim.transfer_inv [OF assms(2,6)] tr by (metis snd_conv)
  show ?thesis
  proof (cases res)
    case (Inl e)
    have "sim_bal l = sim_bal (led s)" using sim.transfer_fails [OF assms(2,6)] tr Inl by blast
    moreover have "s' = s\<lparr>led := l\<rparr> \<or> s' = s" "status_code r \<noteq> 200"
      using assms(1,4,5,8,9) tr Inl by (auto simp: PayInvoice_def amt vid split: if_splits)
    ultimately show ?thesis using inv assms(2) by auto
  next
    case (Inr t)
    let ?P = "\<lambda>x. inv_id x = iid \<and> inv_status x = ''issued''" and ?p = "mark_paid E t v"
    have moved: "sim_bal l = move (ba_ledger_account_id a) OperatorRevenueAccount (inv_amount_minor v) (sim_bal (led s))"
      using sim.transfer_posts [OF assms(2,6,7)] tr Inr by blast
    have "find (\<lambda>x. inv_id x = iid) (upd_rows ?P (mark_paid E t) (invoices s)) = Some ?p"
      using assms(4,5) vid by (subst find_upd_rows_same) (simp_all add: mark_paid_def)
    then have fp: "find (\<lambda>x. inv_id x = iid) (invoices s') = Some ?p" if "invoices s' = upd_rows ?P (mark_paid E t) (invoices s)"
      using that by simp
    consider (err) "status_code r \<noteq> 200" "status_code r \<noteq> 402" "sim_inv (led s')"
      | (ok) "r = Reply 200 ?p" "led s' = l" "invoices s' = upd_rows ?P (mark_paid E t) (invoices s)"
      using assms(1,2,4,5,8,9) tr Inr inv by (auto simp: PayInvoice_def amt vid Let_def split: if_splits)
    then show ?thesis
    proof cases
      case ok
      have "PayInvoice E2 iid s' = (Reply 200 ?p, s')" if "\<forall>op. \<not> fault E2 op" for E2 :: "simulated env"
        using that fp [OF ok(3)] by (simp add: PayInvoice_def mark_paid_def)
      moreover have "?p \<in> set (invoices s')" using find_Some_prop [OF fp [OF ok(3)]] by simp
      ultimately show ?thesis using ok moved inv by (simp add: mark_paid_def)
    qed simp
  qed
qed

theorem invoice_paid_once_witness:
  "\<exists>p s'. PayInvoice (sim_env\<lparr>hash16 := (\<lambda>_. 7)\<rparr>) ''id'' billed = (Reply 200 p, s') \<and> inv_status p = ''paid'' \<and>
     sim_bal (led s') = move 5001 2001 200 (sim_bal (led billed)) \<and>
     PayInvoice sim_env ''id'' s' = (Reply 200 p, s')"
proof -
  let ?E = "sim_env\<lparr>hash16 := (\<lambda>_. 7)\<rparr>"
  let ?a = "hd (billing_accounts (corporate_store 2000))"
  have led: "led billed = \<lparr>balances = [1001 \<mapsto> 1800, 2001 \<mapsto> 200, 5001 \<mapsto> 900], transfers = [22 \<mapsto> ''h'']\<rparr>"
    using billed_rows by (simp add: ridden_def corporate_store_def payment_eval discounted_def fun_upd_twist)
  have pre: "post ?E = sim_Transfer (\<lambda>_. ''h'')" "sim_inv (led billed)" "distinct (map inv_id (invoices billed))"
    "find (\<lambda>v. inv_id v = ''id'') (invoices billed) = Some ride_invoice" "inv_status ride_invoice = ''issued''"
    "amount_ok (inv_amount_minor ride_invoice)" "\<not> sim_posted (led billed) (invoice_tid ?E ''id'')"
    "find (\<lambda>a. ba_id a = inv_billing_account_id ride_invoice) (billing_accounts billed) = Some ?a"
    using conjunct1 [OF billed_rows] billed_rows [THEN conjunct2, THEN conjunct2, THEN conjunct1]
    by (auto simp: quiet_env_def led sim_inv_def sim_bal_def bal_of_def ride_invoice_def amount_ok_def sim_posted_def
        invoice_tid_def DeterministicTransferID_def corporate_store_def)
  have "status_code (fst (PayInvoice ?E ''id'' billed)) = 200"
    using conjunct1 [OF billed_rows] billed_rows [THEN conjunct2, THEN conjunct2, THEN conjunct1] led
    by (simp add: PayInvoice_def ride_invoice_def quiet_env_def corporate_store_def sim_Transfer_def Let_def
        invoice_tid_def DeterministicTransferID_def ensure_def bal_of_def u64_def i64_def account_defs)
  moreover have "ba_ledger_account_id ?a = 5001" "inv_amount_minor ride_invoice = 200" "OperatorRevenueAccount = 2001"
    by (simp_all add: corporate_store_def ride_invoice_def account_defs)
  ultimately obtain p where "fst (PayInvoice ?E ''id'' billed) = Reply 200 p" "inv_status p = ''paid''"
    "sim_bal (led (snd (PayInvoice ?E ''id'' billed))) = move 5001 2001 200 (sim_bal (led billed))"
    "PayInvoice sim_env ''id'' (snd (PayInvoice ?E ''id'' billed)) = (Reply 200 p, snd (PayInvoice ?E ''id'' billed))"
    using invoice_paid_once [OF pre prod.collapse [symmetric]] by (auto simp: quiet_env_no_fault)
  then show ?thesis by (metis prod.collapse)
qed

section \<open>Accrual\<close>

text \<open>
  A corporate payer is charged exactly what the rider is not: whenever \<open>CreatePayment\<close> records a
  payment, the billing charges grow by nothing or by one uninvoiced charge for that payment, whose
  amount together with what the rider is charged makes the fare; it is one charge exactly when the
  winning entitlement names a payer and leaves something of the fare uncharged. A request that
  records no payment accrues nothing.
\<close>

theorem corporate_accrual_exact:
  assumes "CreatePayment E N ep c key body s = (r, s')" and "products_ok s" and "charges_ok (fare_payments s)"
    and "\<And>req. body = Some req \<Longrightarrow> pq_amount_minor req * 100 < 2 ^ 63"
  shows "fare_payments s' = fare_payments s \<and> billing_charges s' = billing_charges s \<or>
    (\<exists>p charge code ent payer spent bcs. fare_payments s' = fare_payments s @ [p] \<and>
       billing_charges s' = billing_charges s @ bcs \<and>
       price_payment E (p_rider_sub p) (p_amount_minor p) s = Inr (charge, code, ent, payer, spent) \<and>
       effectiveCharged p = charge \<and>
       (bcs = [] \<and> (payer = None \<or> charge = p_amount_minor p) \<or>
        (\<exists>b. bcs = [b] \<and> payer = Some (bc_billing_account_id b) \<and> bc_payment_id b = p_id p \<and>
           bc_amount_minor b + effectiveCharged p = p_amount_minor p \<and> 0 < bc_amount_minor b \<and>
           bc_invoice_id b = None)))"
  using assms(1)
proof (cases rule: CreatePayment_cases)
  case (aborted req charge code ent payer spent res op)
  from ledger_leg_frame [OF aborted(3)] show ?thesis by auto
next
  case (recorded req charge code ent payer spent bcs status0 tb insufficient s1 status ml mlErr ev)
  let ?p = "payment_of E key req charge ml tb status"
  have s': "fare_payments s' = fare_payments s @ [?p]" "billing_charges s' = billing_charges s @ bcs"
    using arg_cong [OF recorded(7), of snd] ledger_leg_frame [OF recorded(4)] by auto
  have eff: "effectiveCharged ?p = charge" by (simp add: payment_of_def effectiveCharged_def)
  have bounds: "0 \<le> charge \<and> charge \<le> pq_amount_minor req \<and> pq_amount_minor req < 2 ^ 63"
  proof -
    have pos: "0 \<le> pq_amount_minor req" and small: "pq_amount_minor req * 100 < 2 ^ 63"
      using payment_checks_ok(1,6) [OF recorded(1)] assms(4) by fastforce+
    from price_payment_cap(1,2) [OF assms(2) pos small assms(3) recorded(2)] pos small show ?thesis by simp
  qed
  then have cov: "i64 (pq_amount_minor req - charge) = pq_amount_minor req - charge" by (simp add: i64_small)
  have none: "payer = None \<or> charge = pq_amount_minor req" if "bcs = []"
    using recorded(3) that bounds cov by (auto simp: accrue_charge_def Let_def split: option.splits if_splits)
  from recorded(3) have "bcs = [] \<and> (payer = None \<or> charge = p_amount_minor ?p) \<or>
      (\<exists>b. bcs = [b] \<and> payer = Some (bc_billing_account_id b) \<and> bc_payment_id b = p_id ?p \<and>
         bc_amount_minor b + effectiveCharged ?p = p_amount_minor ?p \<and> 0 < bc_amount_minor b \<and> bc_invoice_id b = None)"
    by (cases rule: accrue_charge_cases) (use none eff cov in \<open>auto simp: payment_of_def\<close>)
  moreover have "price_payment E (p_rider_sub ?p) (p_amount_minor ?p) s = Inr (charge, code, ent, payer, spent)"
    using recorded(2) by (simp add: payment_of_def)
  ultimately show ?thesis using s' eff by blast
qed simp

theorem corporate_accrual_exact_witness:
  "\<exists>b p. billing_charges (ridden 2000) = [b] \<and> fare_payments (ridden 2000) = [p] \<and>
     bc_amount_minor b + effectiveCharged p = 400"
proof -
  let ?s = "corporate_store 2000"
  have pre: "products_ok ?s" "charges_ok (fare_payments ?s)" "fare_payments ?s = []" "billing_charges ?s = []"
    "\<And>req. Some (fare_request 400) = Some req \<Longrightarrow> pq_amount_minor req * 100 < 2 ^ 63"
    by (auto simp: corporate_store_def empty_store_def products_ok_def charges_ok_def fare_request_def)
  have amt: "p_amount_minor p = 400" if "fare_payments (ridden 2000) = [p]" for p
    using that by (auto simp: ridden_def corporate_store_def payment_eval discounted_def)
  obtain r where run: "CreatePayment sim_env demo_net [] ann ''k1'' (Some (fare_request 400)) ?s = (r, ridden 2000)"
    unfolding ridden_def by (metis prod.collapse)
  from corporate_accrual_exact [OF run pre(1,2,5)] ridden_rows pre(3,4) amt show ?thesis by auto
qed

text \<open>
  The payer is charged for rides that were refused: the accrual is committed with the payment
  row whatever its status. An employee without funds whose employer covers half of a fare of 400 is
  answered 402, the payment is recorded as \<open>failed\<close>, and the employer's next invoice bills 200 for it.
\<close>

theorem failed_ride_is_invoiced:
  "\<exists>m p v. fst (CreatePayment sim_env demo_net [] ann ''k1'' (Some (fare_request 400)) (corporate_store 0)) =
       ErrWith 402 m p \<and> p_status p = ''failed'' \<and>
     fst (GenerateInvoice sim_env ''b1'' (Some (Some 0, Some 2000)) (ridden 0)) = Reply 201 v \<and>
     inv_amount_minor v = 200"
proof -
  have "billing_charges (ridden 0) = [ride_charge] \<and> invoices (ridden 0) = [] \<and>
      billing_accounts (ridden 0) = billing_accounts (corporate_store 0)"
    by (simp add: ridden_def corporate_store_def payment_eval discounted_def ride_charge_def)
  then have "fst (GenerateInvoice sim_env ''b1'' (Some (Some 0, Some 2000)) (ridden 0)) = Reply 201 ride_invoice"
    by (simp add: GenerateInvoice_def corporate_store_def sweep_tx_def Let_def quiet_env_def in_sweep_def
        ride_charge_def ride_invoice_def invoice_sum_def invoice_count_def has_invoice_def in_i64_def in_i32_def)
  moreover have "\<exists>m p. fst (CreatePayment sim_env demo_net [] ann ''k1'' (Some (fare_request 400)) (corporate_store 0)) =
       ErrWith 402 m p \<and> p_status p = ''failed''"
    by (simp add: corporate_store_def payment_eval discounted_def)
  ultimately show ?thesis by (auto simp: ride_invoice_def)
qed

text \<open>
  The account list is never answered: \<open>created_at\<close> is a column of both joined tables and is not
  qualified in the select list.
\<close>

lemma list_billing_accounts_fails: "status_code (ListBillingAccounts E s) = 500"
  by (simp add: ListBillingAccounts_def unqualified_columns_def charge_columns_def)

end
