(* ===== verification/Trading.thy ===== *)
theory Trading
  imports Store "HOL-Library.List_Lexorder" "HOL-Library.Char_ord"
begin

text \<open>
  The energy-trading module (src/services/go/commerce-api/internal/handlers/trading.go). A trade is
  recorded, backed by drawing down station surplus, settled on the ledger and finalised in four
  separate database or ledger steps, which are the definitions \<open>trade_insert\<close>, \<open>trade_draw\<close>,
  \<open>trade_post\<close> and \<open>trade_finish\<close>; \<open>CreateTrade\<close> runs them one after the other.

  Quantities are Go \<open>float64\<close> values and Postgres \<open>numeric\<close> columns: both are exact rationals here,
  and \<open>fl\<close> is the rounding of an exact result to \<open>float64\<close>. The model and its lemmas hold for every
  \<open>fl\<close>; arithmetic inside Postgres is exact.
\<close>

section \<open>Rows\<close>

record trade =
  t_id :: string
  t_kind :: string
  t_quantity_kg :: rat
  t_price_minor :: int
  t_status :: string
  t_tb_transfer_id :: "string option"
  t_idempotency_key :: "string option"
  t_created_at :: int

record station =
  st_id :: string
  st_available_kg :: "rat option"
  st_available_kwh :: "rat option"

record 'l trade_store =
  trades :: "trade list"
  stations :: "station list"
  trade_led :: 'l
  trade_events :: "(string \<times> json) list"

definition emit :: "'l env \<Rightarrow> string \<Rightarrow> (string \<times> json) list \<Rightarrow> 'l trade_store \<Rightarrow> 'l trade_store" where
  "emit E topic payload s =
     (if pub_fault E topic then s else s\<lparr>trade_events := trade_events s @ [(topic, JObj payload)]\<rparr>)"

lemma emit_frame [simp]:
  "trades (emit E t f s) = trades s" "stations (emit E t f s) = stations s" "trade_led (emit E t f s) = trade_led s"
  by (simp_all add: emit_def)

section \<open>Kinds\<close>

definition validTradeKinds :: "string set" where
  "validTradeKinds = {''h2-sale'', ''h2-purchase'', ''energy-export'', ''ev-v2g-export'', ''ev-charge-purchase''}"

definition surplusColumn :: "string \<Rightarrow> string \<times> string \<times> bool" where
  "surplusColumn kind =
     (if kind = ''ev-v2g-export'' then (''available_kwh'', ''kwh'', True)
      else if kind = ''h2-purchase'' \<or> kind = ''ev-charge-purchase'' then ([], [], False)
      else (''available_kg'', ''kg'', True))"

section \<open>Reading\<close>

definition ListTrades :: "'l env \<Rightarrow> 'l trade_store \<Rightarrow> trade list resp" where
  "ListTrades E s =
     (if fault E ''list trades'' then Internal ''list trades''
      else if fault E ''scan trade'' then Internal ''scan trade''
      else if fault E ''iterate trades'' then Internal ''iterate trades''
      else Reply 200 (newest t_created_at 200 (trades s)))"

section \<open>Physical backing\<close>

definition avail :: "string \<Rightarrow> station \<Rightarrow> rat option" where
  "avail column st = (if column = ''available_kwh'' then st_available_kwh st else st_available_kg st)"

definition add_avail :: "string \<Rightarrow> rat \<Rightarrow> station \<Rightarrow> station" where
  "add_avail column x st =
     (if column = ''available_kwh'' then st\<lparr>st_available_kwh := map_option (\<lambda>a. a + x) (st_available_kwh st)\<rparr>
      else st\<lparr>st_available_kg := map_option (\<lambda>a. a + x) (st_available_kg st)\<rparr>)"

type_synonym station_draw = "string \<times> rat"

definition tolerance :: rat where
  "tolerance = 1 / 10 ^ 9"

text \<open>The rows with something to draw, by id, read into \<open>float64\<close>.\<close>

definition surplus_rows :: "(rat \<Rightarrow> rat) \<Rightarrow> string \<Rightarrow> station list \<Rightarrow> station_draw list" where
  "surplus_rows fl column sts =
     map (\<lambda>st. (st_id st, fl (the (avail column st))))
       (sort_key st_id (filter (\<lambda>st. case avail column st of None \<Rightarrow> False | Some a \<Rightarrow> a > 0) sts))"

definition surplus_total :: "(rat \<Rightarrow> rat) \<Rightarrow> station_draw list \<Rightarrow> rat" where
  "surplus_total fl rows = foldl (\<lambda>total r. fl (total + snd r)) 0 rows"

fun draw_loop :: "(rat \<Rightarrow> rat) \<Rightarrow> station_draw list \<Rightarrow> rat \<Rightarrow> station_draw list" where
  "draw_loop fl [] remaining = []"
| "draw_loop fl ((sid, amount) # rows) remaining =
     (if remaining \<le> tolerance then []
      else
        let take = (if amount > remaining then remaining else amount)
        in (sid, take) # draw_loop fl rows (fl (remaining - take)))"

fun apply_draws :: "string \<Rightarrow> rat \<Rightarrow> station_draw list \<Rightarrow> station list \<Rightarrow> station list" where
  "apply_draws column sign [] sts = sts"
| "apply_draws column sign ((sid, x) # ds) sts =
     apply_draws column sign ds (upd_rows (\<lambda>st. st_id st = sid) (add_avail column (sign * x)) sts)"

datatype draw_error = InsufficientSurplus | DrawFailed

definition drawDownSurplus ::
  "'l env \<Rightarrow> (rat \<Rightarrow> rat) \<Rightarrow> rat \<Rightarrow> string \<Rightarrow> 'l trade_store \<Rightarrow> (draw_error + station_draw list) \<times> 'l trade_store" where
  "drawDownSurplus E fl amount column s =
     (if fault E ''draw: begin'' \<or> fault E ''draw: query'' then (Inl DrawFailed, s)
      else
        let rows = surplus_rows fl column (stations s) in
        if fl (surplus_total fl rows + tolerance) < amount then (Inl InsufficientSurplus, s)
        else
          let draws = draw_loop fl rows amount in
          if fault E ''draw: update'' \<or> fault E ''draw: commit'' then (Inl DrawFailed, s)
          else (Inr draws, s\<lparr>stations := apply_draws column (- 1) draws (stations s)\<rparr>))"

text \<open>The first failing update leaves the rest of the draws unrestored; \<open>fault\<close> names the station.\<close>

fun restoreSurplus :: "'l env \<Rightarrow> station_draw list \<Rightarrow> string \<Rightarrow> 'l trade_store \<Rightarrow> bool \<times> 'l trade_store" where
  "restoreSurplus E [] column s = (True, s)"
| "restoreSurplus E ((sid, x) # ds) column s =
     (if fault E (''restore '' @ sid) then (False, s)
      else restoreSurplus E ds column
        (s\<lparr>stations := upd_rows (\<lambda>st. st_id st = sid) (add_avail column x) (stations s)\<rparr>))"

section \<open>Creating a trade\<close>

record trade_request =
  tq_kind :: string
  tq_quantity_kg :: rat
  tq_price_minor :: int

definition trade_checks :: "string \<Rightarrow> trade_request option \<Rightarrow> trade resp + trade_request" where
  "trade_checks idemKey body =
     (if idemKey = [] then Inl (Err 400 ''Idempotency-Key header is required'')
      else case body of
        None \<Rightarrow> Inl (Err 400 ''invalid JSON body'')
      | Some req \<Rightarrow>
          if tq_kind req \<notin> validTradeKinds
          then Inl (Err 400 ''kind must be one of h2-sale|h2-purchase|energy-export|ev-v2g-export|ev-charge-purchase'')
          else if tq_quantity_kg req \<le> 0 \<or> tq_price_minor req \<le> 0
          then Inl (Err 400 ''positive quantity_kg and price_minor are required'')
          else Inr req)"

definition trade_insert ::
  "'l env \<Rightarrow> string \<Rightarrow> trade_request \<Rightarrow> 'l trade_store \<Rightarrow> trade resp option \<times> 'l trade_store" where
  "trade_insert E idemKey req s =
     (if \<exists>t \<in> set (trades s). t_idempotency_key t = Some idemKey \<or> t_id t = new_id E 0
      then
        (if fault E ''load idempotent trade'' then Some (Internal ''load idempotent trade'')
         else case find (\<lambda>t. t_idempotency_key t = Some idemKey) (trades s) of
           None \<Rightarrow> Some (Internal ''load idempotent trade'')
         | Some existing \<Rightarrow> Some (Reply 200 existing), s)
      else if fault E ''insert trade'' then (Some (Internal ''insert trade''), s)
      else (None, s\<lparr>trades := trades s @
              [\<lparr>t_id = new_id E 0, t_kind = tq_kind req, t_quantity_kg = tq_quantity_kg req,
                t_price_minor = tq_price_minor req, t_status = ''proposed'', t_tb_transfer_id = None,
                t_idempotency_key = Some idemKey, t_created_at = now E\<rparr>]\<rparr>))"

definition trade_event :: "string \<Rightarrow> trade_request \<Rightarrow> (string \<times> json) list" where
  "trade_event tid req = [(''trade_id'', JStr tid), (''kind'', JStr (tq_kind req)),
     (''quantity_kg'', JFloat (tq_quantity_kg req)), (''price_minor'', JNum (tq_price_minor req))]"

definition set_trade :: "string \<Rightarrow> (trade \<Rightarrow> trade) \<Rightarrow> 'l trade_store \<Rightarrow> 'l trade_store" where
  "set_trade tid f s = s\<lparr>trades := upd_rows (\<lambda>t. t_id t = tid) f (trades s)\<rparr>"

text \<open>The handler's \<open>fail\<close> closure.\<close>

definition trade_fail ::
  "'l env \<Rightarrow> string \<Rightarrow> trade_request \<Rightarrow> nat \<Rightarrow> string \<Rightarrow> string \<Rightarrow> 'l trade_store \<Rightarrow> trade resp \<times> 'l trade_store" where
  "trade_fail E tid req status code reason s =
     (if fault E ''mark trade failed'' then (Internal ''mark trade failed'', s)
      else
        let s1 = set_trade tid (\<lambda>t. t\<lparr>t_status := ''failed''\<rparr>) s in
        case find (\<lambda>t. t_id t = tid) (trades s1) of
          None \<Rightarrow> (Internal ''mark trade failed'', s1)
        | Some t \<Rightarrow>
            (ErrWith status code t,
             emit E ''energy.trade.failed''
               (trade_event tid req @ [(''reason'', JStr reason), (''failed_at'', JTime (now E))]) s1))"

text \<open>\<open>%.2f\<close> of a non-negative quantity, ties to even.\<close>

definition fmt2 :: "rat \<Rightarrow> string" where
  "fmt2 x =
     (let q = \<lfloor>x * 100\<rfloor>; r = x * 100 - of_int q;
          n = (if r < 1 / 2 then q else if r > 1 / 2 then q + 1 else if even q then q else q + 1)
      in show_int (n div 100) @ ''.'' @ [char_of (48 + nat (n div 10 mod 10)), char_of (48 + nat (n mod 10))])"

definition trade_draw ::
  "'l env \<Rightarrow> (rat \<Rightarrow> rat) \<Rightarrow> string \<Rightarrow> trade_request \<Rightarrow> 'l trade_store \<Rightarrow> (trade resp + station_draw list) \<times> 'l trade_store" where
  "trade_draw E fl tid req s =
     (case surplusColumn (tq_kind req) of (column, unt, draws) \<Rightarrow>
      if \<not> draws then (Inr [], s)
      else case drawDownSurplus E fl (tq_quantity_kg req) column s of
        (Inl InsufficientSurplus, s1) \<Rightarrow>
          (case trade_fail E tid req 409 ''insufficient_surplus''
              (''trade quantity '' @ fmt2 (tq_quantity_kg req) @ '' '' @ unt @ '' exceeds recorded station surplus'') s1 of
             (r, s2) \<Rightarrow> (Inl r, s2))
      | (Inl DrawFailed, s1) \<Rightarrow> (Inl (Internal ''draw down station surplus''), s1)
      | (Inr ds, s1) \<Rightarrow> (Inr ds, s1))"

definition trade_tid :: "'l env \<Rightarrow> string \<Rightarrow> tid" where
  "trade_tid E idemKey = DeterministicTransferID (hash16 E) (''trade:'' @ idemKey)"

definition trade_accounts :: "string \<Rightarrow> int \<times> int" where
  "trade_accounts kind =
     (if has_suffix kind ''-purchase'' then (OperatorRevenueAccount, EnergyTradeAccount)
      else (EnergyTradeAccount, OperatorRevenueAccount))"

definition trade_post ::
  "'l env \<Rightarrow> string \<Rightarrow> string \<Rightarrow> trade_request \<Rightarrow> station_draw list \<Rightarrow> 'l trade_store \<Rightarrow> (trade resp + string) \<times> 'l trade_store" where
  "trade_post E tid idemKey req draws s =
     (case trade_accounts (tq_kind req) of (debit, credit) \<Rightarrow>
      case post E (trade_tid E idemKey) debit credit (u64 (tq_price_minor req)) CodeEnergy (trade_led s) of
        (Inr transferID, l) \<Rightarrow> (Inr transferID, s\<lparr>trade_led := l\<rparr>)
      | (Inl e, l) \<Rightarrow>
          let s1 = snd (restoreSurplus E draws (fst (surplusColumn (tq_kind req))) (s\<lparr>trade_led := l\<rparr>)) in
          (case (if is_insufficient e
                 then trade_fail E tid req 402 ''insufficient_funds''
                   ''energy clearing account is not funded by a buyer settlement'' s1
                 else trade_fail E tid req 502 ''ledger_error'' ''ledger transfer failed'' s1) of
             (r, s2) \<Rightarrow> (Inl r, s2)))"

definition trade_finish ::
  "'l env \<Rightarrow> string \<Rightarrow> trade_request \<Rightarrow> string \<Rightarrow> 'l trade_store \<Rightarrow> trade resp \<times> 'l trade_store" where
  "trade_finish E tid req transferID s =
     (if fault E ''finalize trade'' then (Internal ''finalize trade'', s)
      else
        let s1 = set_trade tid (\<lambda>t. t\<lparr>t_status := ''executed'', t_tb_transfer_id := Some transferID\<rparr>) s in
        case find (\<lambda>t. t_id t = tid) (trades s1) of
          None \<Rightarrow> (Internal ''finalize trade'', s1)
        | Some t \<Rightarrow>
            (Reply 201 t, emit E ''energy.trade.executed''
               (trade_event tid req @ [(''tb_transfer_id'', JStr transferID), (''executed_at'', JTime (now E))]) s1))"

definition CreateTrade ::
  "'l env \<Rightarrow> (rat \<Rightarrow> rat) \<Rightarrow> string \<Rightarrow> trade_request option \<Rightarrow> 'l trade_store \<Rightarrow> trade resp \<times> 'l trade_store" where
  "CreateTrade E fl idemKey body s =
     (case trade_checks idemKey body of
        Inl r \<Rightarrow> (r, s)
      | Inr req \<Rightarrow>
          (case trade_insert E idemKey req s of
             (Some r, s1) \<Rightarrow> (r, s1)
           | (None, s1) \<Rightarrow>
               (case trade_draw E fl (new_id E 0) req s1 of
                  (Inl r, s2) \<Rightarrow> (r, s2)
                | (Inr draws, s2) \<Rightarrow>
                    (case trade_post E (new_id E 0) idemKey req draws s2 of
                       (Inl r, s3) \<Rightarrow> (r, s3)
                     | (Inr transferID, s3) \<Rightarrow> trade_finish E (new_id E 0) req transferID s3))))"

definition CancelTrade :: "'l env \<Rightarrow> string \<Rightarrow> 'l trade_store \<Rightarrow> trade resp \<times> 'l trade_store" where
  "CancelTrade E tid s =
     (if fault E ''cancel trade'' then (Internal ''cancel trade'', s)
      else if \<not> (\<exists>t \<in> set (trades s). t_id t = tid \<and> t_status t = ''proposed'')
      then (Err 409 ''trade not found or not in proposed status'', s)
      else
        let s1 = s\<lparr>trades := upd_rows (\<lambda>t. t_id t = tid \<and> t_status t = ''proposed'')
              (\<lambda>t. t\<lparr>t_status := ''cancelled''\<rparr>) (trades s)\<rparr> in
        case find (\<lambda>t. t_id t = tid) (trades s1) of
          None \<Rightarrow> (Internal ''cancel trade'', s1)
        | Some t \<Rightarrow>
            (Reply 200 t, emit E ''energy.trade.cancelled''
               [(''trade_id'', JStr (t_id t)), (''kind'', JStr (t_kind t)), (''quantity_kg'', JFloat (t_quantity_kg t)),
                (''price_minor'', JNum (t_price_minor t)), (''cancelled_at'', JTime (now E))] s1))"

section \<open>Drawing and restoring\<close>

definition drawn :: "string \<Rightarrow> station_draw list \<Rightarrow> rat" where
  "drawn sid ds = (\<Sum>d\<leftarrow>ds. if fst d = sid then snd d else 0)"

lemma add_avail_add [simp]: "add_avail column a (add_avail column b st) = add_avail column (b + a) st"
  by (cases "st_available_kg st"; cases "st_available_kwh st") (simp_all add: add_avail_def add.assoc)

lemma add_avail_0 [simp]: "add_avail column 0 st = st"
  by (simp add: add_avail_def option.map_ident)

lemma add_avail_id [simp]: "st_id (add_avail column a st) = st_id st"
  by (simp add: add_avail_def)

lemma avail_add: "avail column (add_avail column x st) = map_option (\<lambda>a. a + x) (avail column st)"
  by (simp add: avail_def add_avail_def)

lemma apply_draws_closed:
  "apply_draws column sign ds sts = map (\<lambda>st. add_avail column (sign * drawn (st_id st) ds) st) sts"
proof (induction column sign ds sts rule: apply_draws.induct)
  case (2 column sign sid x ds sts)
  show ?case
    unfolding apply_draws.simps "2.IH" [unfolded upd_rows_def] upd_rows_def map_map o_def
    by (rule map_cong [OF refl]) (simp add: drawn_def distrib_left)
qed (simp add: drawn_def)

lemma restore_apply:
  "(\<And>sid. \<not> fault E (''restore '' @ sid)) \<Longrightarrow>
   restoreSurplus E ds column s = (True, s\<lparr>stations := apply_draws column 1 ds (stations s)\<rparr>)"
  by (induction E ds column s rule: restoreSurplus.induct) auto

lemma restore_draws: "apply_draws column 1 ds (apply_draws column (- 1) ds sts) = sts"
  by (simp add: apply_draws_closed o_def)

lemma drawDown_cases:
  assumes "drawDownSurplus E fl amount column s = (res, s')"
  obtains (error) e where "res = Inl e" and "s' = s"
  | (drawn) ds where "res = Inr ds" and "ds = draw_loop fl (surplus_rows fl column (stations s)) amount"
      and "\<not> fl (surplus_total fl (surplus_rows fl column (stations s)) + tolerance) < amount"
      and "s' = s\<lparr>stations := apply_draws column (- 1) ds (stations s)\<rparr>"
proof (cases res)
  case (Inl e)
  with assms have "s' = s" by (auto simp: drawDownSurplus_def Let_def split: if_splits)
  with Inl show ?thesis by (rule error)
next
  case (Inr ds)
  with assms show ?thesis by (intro drawn) (auto simp: drawDownSurplus_def Let_def split: if_splits)
qed

lemma trade_fail_frame:
  assumes "trade_fail E tid req n code reason s = (r, s')"
  shows "stations s' = stations s \<and> trade_led s' = trade_led s \<and> (status_code r = n \<or> status_code r = 500) \<and>
    (trades s' = trades s \<or> trades s' = upd_rows (\<lambda>t. t_id t = tid) (\<lambda>t. t\<lparr>t_status := ''failed''\<rparr>) (trades s))"
  using assms by (auto simp: trade_fail_def set_trade_def Let_def split: if_splits option.splits)

lemma trade_draw_cases:
  assumes "trade_draw E fl tid req s = (res, s')"
  obtains (refused) r where "res = Inl r" and "stations s' = stations s" and "trade_led s' = trade_led s"
      and "status_code r \<noteq> 201"
      and "trades s' = trades s \<or> trades s' = upd_rows (\<lambda>t. t_id t = tid) (\<lambda>t. t\<lparr>t_status := ''failed''\<rparr>) (trades s)"
  | (backed) ds where "res = Inr ds"
      and "s' = s\<lparr>stations := apply_draws (fst (surplusColumn (tq_kind req))) (- 1) ds (stations s)\<rparr>"
proof -
  obtain column unt draws where col: "surplusColumn (tq_kind req) = (column, unt, draws)" by (metis prod_cases3)
  show ?thesis
  proof (cases draws)
    case False
    with assms col show ?thesis by (intro backed [of "[]"]) (auto simp: trade_draw_def apply_draws_closed drawn_def)
  next
    case True
    obtain res1 s1 where dd: "drawDownSurplus E fl (tq_quantity_kg req) column s = (res1, s1)" by (metis prod.exhaust)
    then show ?thesis
    proof (cases rule: drawDown_cases)
      case (error e)
      show ?thesis
      proof (cases e)
        case InsufficientSurplus
        with assms col True dd error show ?thesis
          by (auto simp: trade_draw_def split: prod.splits dest: trade_fail_frame intro!: refused)
      next
        case DrawFailed
        with assms col True dd error show ?thesis by (intro refused) (auto simp: trade_draw_def)
      qed
    next
      case (drawn ds)
      with assms col True dd show ?thesis by (intro backed [of ds]) (auto simp: trade_draw_def)
    qed
  qed
qed

section \<open>One trade\<close>

definition proposed :: "'l env \<Rightarrow> string \<Rightarrow> trade_request \<Rightarrow> trade" where
  "proposed E idemKey req =
     \<lparr>t_id = new_id E 0, t_kind = tq_kind req, t_quantity_kg = tq_quantity_kg req, t_price_minor = tq_price_minor req,
      t_status = ''proposed'', t_tb_transfer_id = None, t_idempotency_key = Some idemKey, t_created_at = now E\<rparr>"

lemma trade_insert_cases:
  assumes "trade_insert E key req s = (res, s')"
  obtains (kept) r where "res = Some r" and "s' = s" and "status_code r \<noteq> 201"
  | (fresh) "res = None" and "s' = s\<lparr>trades := trades s @ [proposed E key req]\<rparr>"
      and "\<And>t. t \<in> set (trades s) \<Longrightarrow> t_idempotency_key t \<noteq> Some key \<and> t_id t \<noteq> new_id E 0"
proof (cases res)
  case (Some r)
  with assms have "s' = s" "status_code r \<noteq> 201" by (auto simp: trade_insert_def split: if_splits option.splits)
  with Some show ?thesis by (intro kept)
next
  case None
  with assms show ?thesis
    by (intro fresh) (auto simp: trade_insert_def proposed_def split: if_splits option.splits)
qed

lemma trade_post_cases:
  assumes "post E = sim_Transfer sh" and "sim_inv (trade_led s)" and "amount_ok (tq_price_minor req)"
    and "\<not> sim_posted (trade_led s) (trade_tid E key)" and "\<And>sid. \<not> fault E (''restore '' @ sid)"
    and "trade_post E tid key req ds s = (res, s')" and "trade_accounts (tq_kind req) = (d, c)"
  obtains (failed) r where "res = Inl r" and "status_code r \<noteq> 201" and "sim_inv (trade_led s')"
      and "sim_bal (trade_led s') = sim_bal (trade_led s)"
      and "stations s' = apply_draws (fst (surplusColumn (tq_kind req))) 1 ds (stations s)"
      and "trades s' = trades s \<or> trades s' = upd_rows (\<lambda>t. t_id t = tid) (\<lambda>t. t\<lparr>t_status := ''failed''\<rparr>) (trades s)"
  | (posted) h l where "res = Inr h" and "s' = s\<lparr>trade_led := l\<rparr>" and "sim_inv l"
      and "sim_bal l = move d c (tq_price_minor req) (sim_bal (trade_led s))"
proof -
  have amt: "u64 (tq_price_minor req) = tq_price_minor req"
    using assms(3) by (intro u64_small) (auto simp: amount_ok_def)
  obtain tr l where tr: "sim_Transfer sh (trade_tid E key) d c (tq_price_minor req) CodeEnergy (trade_led s) = (tr, l)"
    by (metis prod.exhaust)
  have inv: "sim_inv l" using sim.transfer_inv [OF assms(2,3)] tr by (metis snd_conv)
  show ?thesis
  proof (cases tr)
    case (Inr h)
    have "sim_bal l = move d c (tq_price_minor req) (sim_bal (trade_led s))"
      using sim.transfer_posts [OF assms(2-4)] tr Inr by blast
    with assms(1,6,7) tr Inr amt inv show ?thesis by (intro posted [of h l]) (auto simp: trade_post_def)
  next
    case (Inl e)
    have bal: "sim_bal l = sim_bal (trade_led s)" using sim.transfer_fails [OF assms(2,3)] tr Inl by blast
    let ?s1 = "s\<lparr>trade_led := l, stations := apply_draws (fst (surplusColumn (tq_kind req))) 1 ds (stations s)\<rparr>"
    obtain n code reason r where fl: "trade_fail E tid req n code reason ?s1 = (r, s')" "res = Inl r" "n = 402 \<or> n = 502"
      using assms(1,6,7) tr Inl amt by (auto simp: trade_post_def restore_apply [OF assms(5)] Let_def split: prod.splits if_splits)
    from trade_fail_frame [OF fl(1)] fl(2,3) bal inv show ?thesis by (intro failed [of r]) auto
  qed
qed

lemma set_trade_find:
  assumes "trades s = ts @ [proposed E key req]" and "\<And>t. t \<in> set ts \<Longrightarrow> t_id t \<noteq> new_id E 0" and "\<And>t. t_id (f t) = t_id t"
  shows "trades (set_trade (new_id E 0) f s) = ts @ [f (proposed E key req)] \<and>
    find (\<lambda>t. t_id t = new_id E 0) (trades (set_trade (new_id E 0) f s)) = Some (f (proposed E key req))"
proof -
  have "upd_rows (\<lambda>t. t_id t = new_id E 0) f ts = ts" using assms(2) by (intro upd_rows_none) auto
  moreover have "find (\<lambda>t. t_id t = new_id E 0) ts = None" using assms(2) by (auto simp: find_None_all)
  moreover have "t_id (proposed E key req) = new_id E 0" by (simp add: proposed_def)
  ultimately show ?thesis using assms(1,3) by (simp add: set_trade_def find_append)
qed

definition executed :: "string \<Rightarrow> trade \<Rightarrow> trade" where
  "executed h t = t\<lparr>t_status := ''executed'', t_tb_transfer_id := Some h\<rparr>"

text \<open>How far a request gets: answered without a row, refused at the draw, refused at the posting, or finished.\<close>

lemma CreateTrade_cases:
  assumes "CreateTrade E fl key (Some req) s = (r, s')"
  obtains (kept) "s' = s" and "status_code r \<noteq> 201"
  | (refused) s1 where "s1 = s\<lparr>trades := trades s @ [proposed E key req]\<rparr>"
      and "\<And>t. t \<in> set (trades s) \<Longrightarrow> t_id t \<noteq> new_id E 0"
      and "trade_draw E fl (new_id E 0) req s1 = (Inl r, s')"
  | (backed) s1 s2 ds res s3 where "s1 = s\<lparr>trades := trades s @ [proposed E key req]\<rparr>"
      and "\<And>t. t \<in> set (trades s) \<Longrightarrow> t_id t \<noteq> new_id E 0"
      and "trade_draw E fl (new_id E 0) req s1 = (Inr ds, s2)"
      and "trade_post E (new_id E 0) key req ds s2 = (res, s3)"
      and "case res of Inl rr \<Rightarrow> r = rr \<and> s' = s3 | Inr h \<Rightarrow> trade_finish E (new_id E 0) req h s3 = (r, s')"
proof (cases "trade_checks key (Some req)")
  case (Inl rr)
  then have "status_code rr \<noteq> 201" by (auto simp: trade_checks_def split: if_splits)
  with Inl assms kept show ?thesis by (auto simp: CreateTrade_def)
next
  case (Inr req')
  then have req': "req' = req" by (auto simp: trade_checks_def split: if_splits)
  obtain res1 s1 where ins: "trade_insert E key req s = (res1, s1)" by (metis prod.exhaust)
  then show ?thesis
  proof (cases rule: trade_insert_cases)
    case (kept rr)
    with Inr req' ins assms that(1) show ?thesis by (auto simp: CreateTrade_def)
  next
    case fresh
    obtain res2 s2 where dr: "trade_draw E fl (new_id E 0) req s1 = (res2, s2)" by (metis prod.exhaust)
    note run = assms [unfolded CreateTrade_def Inr sum.case req' ins prod.case fresh(1) option.case dr]
    show ?thesis
    proof (cases res2)
      case (Inl rr)
      with run dr fresh(3) refused [OF fresh(2)] show ?thesis by simp
    next
      case (Inr ds)
      obtain res3 s3 where "trade_post E (new_id E 0) key req ds s2 = (res3, s3)" by (metis prod.exhaust)
      with run dr fresh(3) Inr show ?thesis by (intro backed [OF fresh(2), of ds s2 res3 s3]) (auto split: sum.splits)
    qed
  qed
qed

definition trade_undone :: "simulated trade_store \<Rightarrow> simulated trade_store \<Rightarrow> bool" where
  "trade_undone s s' \<longleftrightarrow> sim_bal (trade_led s') = sim_bal (trade_led s) \<and> stations s' = stations s \<and>
     (trades s' = trades s \<or> (\<exists>t. trades s' = trades s @ [t] \<and> t_status t \<in> {''proposed'', ''failed''}))"

lemma fail_rows:
  fixes s :: "'l trade_store"
  assumes "s1 = s\<lparr>trades := trades s @ [proposed E key req]\<rparr>" and "\<And>t. t \<in> set (trades s) \<Longrightarrow> t_id t \<noteq> new_id E 0"
    and "ts = trades s1 \<or> ts = upd_rows (\<lambda>t. t_id t = new_id E 0) (\<lambda>t. t\<lparr>t_status := ''failed''\<rparr>) (trades s1)"
  shows "\<exists>t. ts = trades s @ [t] \<and> t_status t \<in> {''proposed'', ''failed''}"
  using set_trade_find [of s1 "trades s" E key req "\<lambda>t. t\<lparr>t_status := ''failed''\<rparr>"] assms
  by (auto simp: set_trade_def proposed_def)

lemma trade_finish_executes:
  assumes "trades s = ts @ [proposed E key req]" and "\<And>t. t \<in> set ts \<Longrightarrow> t_id t \<noteq> new_id E 0"
    and "\<not> fault E ''finalize trade''" and "trade_finish E (new_id E 0) req h s = (r, s')"
  shows "r = Reply 201 (executed h (proposed E key req)) \<and> trades s' = ts @ [executed h (proposed E key req)] \<and>
    trade_led s' = trade_led s \<and> stations s' = stations s"
proof -
  have ids: "t_id (executed h t) = t_id t" for t by (simp add: executed_def)
  have f: "(\<lambda>t. t\<lparr>t_status := ''executed'', t_tb_transfer_id := Some h\<rparr>) = executed h" by (simp add: executed_def fun_eq_iff)
  from set_trade_find [OF assms(1,2) ids] assms(3,4) show ?thesis
    by (auto simp: trade_finish_def f Let_def set_trade_def)
qed

text \<open>
  C10. A trade is all or nothing: over the simulated ledger, when the compensating station updates and
  the final update reach the database, a trade answered 201 under an unused transfer id has moved
  exactly its price, from clearing to operator revenue for a sale and the other way for a purchase,
  and is recorded as executed. On every other answer no money has moved and every station has the
  surplus it had before, to the last digit whatever the floating-point rounding; the trade is then not
  recorded, or recorded as proposed or failed.
\<close>

theorem trade_all_or_nothing:
  assumes "post E = sim_Transfer sh" and "sim_inv (trade_led s)" and "amount_ok (tq_price_minor req)"
    and "\<not> sim_posted (trade_led s) (trade_tid E key)" and "\<And>sid. \<not> fault E (''restore '' @ sid)"
    and "\<not> fault E ''finalize trade''" and "CreateTrade E fl key (Some req) s = (r, s')"
    and "trade_accounts (tq_kind req) = (d, c)"
  shows "sim_inv (trade_led s') \<and>
    (if status_code r = 201
     then sim_bal (trade_led s') = move d c (tq_price_minor req) (sim_bal (trade_led s)) \<and>
       (\<exists>t. r = Reply 201 t \<and> trades s' = trades s @ [t] \<and> t_status t = ''executed'' \<and>
          t_idempotency_key t = Some key \<and> t_price_minor t = tq_price_minor req)
     else sim_bal (trade_led s') = sim_bal (trade_led s) \<and> stations s' = stations s \<and>
       (trades s' = trades s \<or> (\<exists>t. trades s' = trades s @ [t] \<and> t_status t \<in> {''proposed'', ''failed''})))"
proof -
  have undone: ?thesis if "sim_inv (trade_led s')" "status_code r \<noteq> 201" "trade_undone s s'"
    using that by (simp add: trade_undone_def)
  from assms(7) show ?thesis
  proof (cases rule: CreateTrade_cases)
    case kept
    with assms(2) show ?thesis by (intro undone) (auto simp: trade_undone_def)
  next
    case (refused s1)
    note s1 = refused(1,2)
    from refused(3) show ?thesis
    proof (cases rule: trade_draw_cases)
      case (refused rr)
      from fail_rows [OF s1 refused(5)] refused(2-4) s1(1) assms(2) show ?thesis
        using refused(1) by (intro undone) (auto simp: trade_undone_def)
    qed simp
  next
    case (backed s1 s2 ds res s3)
    note s1 = backed(1,2) and out = backed(5)
    from backed(3) have s2: "s2 = s1\<lparr>stations := apply_draws (fst (surplusColumn (tq_kind req))) (- 1) ds (stations s1)\<rparr>"
      by (cases rule: trade_draw_cases) auto
    then have led2: "trade_led s2 = trade_led s" "trades s2 = trades s1" using s1(1) by simp_all
    from assms(1) assms(2) [folded led2] assms(3) assms(4) [folded led2] assms(5) backed(4) assms(8) show ?thesis
    proof (cases rule: trade_post_cases)
      case (failed rr)
      then have r: "r = rr" "s' = s3" using out by simp_all
      have "stations s3 = stations s" using failed(5) s2 s1(1) by (simp add: restore_draws)
      with fail_rows [OF s1 failed(6) [unfolded led2]] failed(2-4) led2 r show ?thesis
        by (intro undone) (auto simp: trade_undone_def)
    next
      case (posted h l)
      have "trades s3 = trades s @ [proposed E key req]" using posted(2) led2 s1(1) by simp
      moreover have "trade_finish E (new_id E 0) req h s3 = (r, s')" using out posted(1) by simp
      ultimately have "r = Reply 201 (executed h (proposed E key req)) \<and>
          trades s' = trades s @ [executed h (proposed E key req)] \<and> trade_led s' = trade_led s3"
        using trade_finish_executes [OF _ s1(2) assms(6)] by blast
      with posted led2 show ?thesis by (simp add: executed_def proposed_def)
    qed
  qed
qed

text \<open>Two stations with 30 and 50 kg; the clearing account holds 400.\<close>

definition energy_store :: "int \<Rightarrow> simulated trade_store" where
  "energy_store clearing =
     \<lparr>trades = [], stations = [\<lparr>st_id = ''a'', st_available_kg = Some 30, st_available_kwh = None\<rparr>,
        \<lparr>st_id = ''b'', st_available_kg = Some 50, st_available_kwh = None\<rparr>],
      trade_led = \<lparr>balances = [2001 \<mapsto> 0, 3001 \<mapsto> clearing], transfers = Map.empty\<rparr>, trade_events = []\<rparr>"

definition sale :: trade_request where
  "sale = \<lparr>tq_kind = ''h2-sale'', tq_quantity_kg = 40, tq_price_minor = 400\<rparr>"

abbreviation trade_env :: "simulated env" where
  "trade_env \<equiv> quiet_env (sim_Transfer (\<lambda>_. ''h''))"

lemmas trade_eval = CreateTrade_def trade_checks_def validTradeKinds_def trade_insert_def trade_draw_def surplusColumn_def
  drawDownSurplus_def surplus_rows_def surplus_total_def tolerance_def avail_def add_avail_def upd_rows_def trade_post_def
  trade_accounts_def has_suffix_def has_prefix_def sim_Transfer_def ensure_def bal_of_def u64_def i64_def account_defs
  trade_tid_def DeterministicTransferID_def trade_finish_def set_trade_def emit_def trade_event_def Let_def quiet_env_def
  energy_store_def sale_def trade_fail_def

lemma trade_env_ok:
  "post trade_env = sim_Transfer (\<lambda>_. ''h'')" "sim_inv (trade_led (energy_store 400))" "amount_ok (tq_price_minor sale)"
  "\<not> sim_posted (trade_led (energy_store 400)) (trade_tid trade_env key)"
  by (auto simp: quiet_env_def sim_inv_def energy_store_def sim_bal_def bal_of_def amount_ok_def sale_def sim_posted_def)

theorem trade_all_or_nothing_witness:
  "\<exists>t s'. CreateTrade trade_env (\<lambda>x. x) ''k'' (Some sale) (energy_store 400) = (Reply 201 t, s') \<and> t_status t = ''executed'' \<and>
     sim_bal (trade_led s') = move 3001 2001 400 (sim_bal (trade_led (energy_store 400)))"
proof -
  let ?run = "CreateTrade trade_env (\<lambda>x. x) ''k'' (Some sale) (energy_store 400)"
  have "status_code (fst ?run) = 201" by (simp add: trade_eval)
  moreover have "trade_accounts (tq_kind sale) = (3001, 2001)"
    by (simp add: trade_accounts_def sale_def has_suffix_def has_prefix_def account_defs)
  moreover have "tq_price_minor sale = 400" by (simp add: sale_def)
  ultimately obtain t where "fst ?run = Reply 201 t" "t_status t = ''executed''"
    "sim_bal (trade_led (snd ?run)) = move 3001 2001 400 (sim_bal (trade_led (energy_store 400)))"
    using trade_all_or_nothing [OF trade_env_ok quiet_env_no_fault quiet_env_no_fault prod.collapse [symmetric],
        where fl = "\<lambda>x. x" and key = "''k''" and d = 3001 and c = 2001] by auto
  then show ?thesis by (metis prod.collapse)
qed

section \<open>How much is drawn\<close>

lemma draw_loop_0 [simp]: "draw_loop fl rows 0 = []"
  by (cases rows) (auto simp: tolerance_def)

lemma draw_loop_bounds:
  "(\<And>r. r \<in> set rows \<Longrightarrow> 0 < snd r) \<Longrightarrow> 0 \<le> rem \<Longrightarrow>
   (\<Sum>d\<leftarrow>draw_loop (\<lambda>x. x) rows rem. snd d) \<le> rem \<and>
   (rem - (\<Sum>d\<leftarrow>draw_loop (\<lambda>x. x) rows rem. snd d) \<le> tolerance \<or>
    (\<Sum>d\<leftarrow>draw_loop (\<lambda>x. x) rows rem. snd d) = (\<Sum>r\<leftarrow>rows. snd r))"
proof (induction rows arbitrary: rem)
  case (Cons r rows)
  obtain sid a where r: "r = (sid, a)" by (metis prod.exhaust)
  show ?case
  proof (cases "rem \<le> tolerance")
    case True
    with Cons.prems show ?thesis by (simp add: r)
  next
    case False
    let ?t = "if a > rem then rem else a"
    have t: "0 \<le> rem - ?t" "a > rem \<Longrightarrow> rem - ?t = 0" by simp_all
    have tol: "0 < tolerance" by (simp add: tolerance_def)
    from Cons.IH [of "rem - ?t"] Cons.prems t tol show ?thesis
      using False by (cases "a > rem") (auto simp: r Let_def)
  qed
qed (simp add: tolerance_def)

lemma draw_loop_within:
  "d \<in> set (draw_loop fl rows rem) \<Longrightarrow> \<exists>r \<in> set rows. fst r = fst d \<and> snd d \<le> snd r"
  by (induction fl rows rem rule: draw_loop.induct) (auto simp: Let_def split: if_splits)

lemma draw_loop_prefix: "\<exists>n. map fst (draw_loop fl rows rem) = take n (map fst rows)"
proof (induction fl rows rem rule: draw_loop.induct)
  case (2 fl sid amount rows remaining)
  show ?case
  proof (cases "remaining \<le> tolerance")
    case False
    with 2 obtain n where "map fst (draw_loop fl rows (fl (remaining - (if amount > remaining then remaining else amount)))) =
        take n (map fst rows)" by blast
    with False show ?thesis by (intro exI [of _ "Suc n"]) (simp add: Let_def)
  qed (auto intro: exI [of _ 0])
qed simp

lemma drawn_distinct:
  "distinct (map fst ds) \<Longrightarrow> d \<in> set ds \<Longrightarrow> drawn (fst d) ds = snd d"
proof (induction ds)
  case (Cons e ds)
  have none: "drawn (fst e) ds = 0" if "fst e \<notin> fst ` set ds"
    using that unfolding drawn_def by (induction ds) auto
  from Cons none show ?case by (auto simp: drawn_def image_iff)
qed simp

lemma drawn_absent: "sid \<notin> set (map fst ds) \<Longrightarrow> drawn sid ds = 0"
  unfolding drawn_def by (induction ds) auto

lemma surplus_total_exact: "surplus_total (\<lambda>x. x) rows = (\<Sum>r\<leftarrow>rows. snd r)"
proof -
  have "foldl (\<lambda>total r. total + snd r) t rows = t + (\<Sum>r\<leftarrow>rows. snd r)" for t
    by (induction rows arbitrary: t) (auto simp: add.assoc)
  then show ?thesis by (simp add: surplus_total_def)
qed

lemma surplus_rows_fst:
  "distinct (map st_id sts) \<Longrightarrow> distinct (map fst (surplus_rows fl column sts))"
  by (simp add: surplus_rows_def o_def distinct_map inj_on_def)

lemma surplus_rows_mem:
  "r \<in> set (surplus_rows (\<lambda>x. x) column sts) \<Longrightarrow> 0 < snd r \<and>
   (\<exists>st \<in> set sts. fst r = st_id st \<and> avail column st = Some (snd r))"
  by (auto simp: surplus_rows_def split: option.splits)

text \<open>
  The surplus is drawn soundly when no rounding occurs: a draw that succeeds takes the requested
  amount from the stations up to the tolerance of \<open>1e-9\<close>, never more than requested, and never more
  from a station than it has, so no station falls below zero; and it only fails for want of surplus
  when all stations together have less than the request by more than the tolerance.
\<close>

theorem surplus_draw_sound:
  assumes "distinct (map st_id (stations s))" and "0 < amount"
    and "\<And>st a. st \<in> set (stations s) \<Longrightarrow> avail column st = Some a \<Longrightarrow> 0 \<le> a"
    and "drawDownSurplus E (\<lambda>x. x) amount column s = (res, s')"
  shows "case res of
      Inr ds \<Rightarrow> amount - tolerance \<le> (\<Sum>d\<leftarrow>ds. snd d) \<and> (\<Sum>d\<leftarrow>ds. snd d) \<le> amount \<and>
        stations s' = map (\<lambda>st. add_avail column (- drawn (st_id st) ds) st) (stations s) \<and>
        (\<forall>st \<in> set (stations s'). \<forall>a. avail column st = Some a \<longrightarrow> 0 \<le> a)
    | Inl e \<Rightarrow> s' = s \<and> (e = InsufficientSurplus \<longrightarrow>
        (\<Sum>r\<leftarrow>surplus_rows (\<lambda>x. x) column (stations s). snd r) + tolerance < amount)"
  using assms(4)
proof (cases rule: drawDown_cases)
  case (error e)
  with assms(4) show ?thesis
    by (auto simp: drawDownSurplus_def surplus_total_exact Let_def split: if_splits)
next
  case (drawn ds)
  let ?rows = "surplus_rows (\<lambda>x. x) column (stations s)"
  have enough: "amount \<le> (\<Sum>r\<leftarrow>?rows. snd r) + tolerance" using drawn(3) by (simp add: surplus_total_exact)
  have sum: "amount - tolerance \<le> (\<Sum>d\<leftarrow>ds. snd d)" "(\<Sum>d\<leftarrow>ds. snd d) \<le> amount"
    using draw_loop_bounds [of ?rows amount] surplus_rows_mem assms(2) enough drawn(2) by fastforce+
  have st': "stations s' = map (\<lambda>st. add_avail column (- drawn (st_id st) ds) st) (stations s)"
    using drawn(4) by (simp add: apply_draws_closed)
  have dist: "distinct (map fst ds)"
    using draw_loop_prefix [of "\<lambda>x. x" ?rows amount] surplus_rows_fst [OF assms(1)] drawn(2)
    by (metis distinct_take)
  have "drawn (st_id st) ds \<le> a" if st: "st \<in> set (stations s)" "avail column st = Some a" for st a
  proof (cases "st_id st \<in> set (map fst ds)")
    case True
    then obtain d where d: "d \<in> set ds" "fst d = st_id st" by auto
    obtain r where r: "r \<in> set ?rows" "fst r = fst d" "snd d \<le> snd r" using draw_loop_within d(1) drawn(2) by metis
    from surplus_rows_mem [OF r(1)] obtain st2 where st2: "st2 \<in> set (stations s)" "fst r = st_id st2" "avail column st2 = Some (snd r)" by blast
    have "st_id st2 = st_id st" using st2(2) d(2) r(2) by metis
    from distinct_key [OF assms(1) st2(1) st(1) this] st2(3) st(2) have "snd r = a" by simp
    moreover have "drawn (st_id st) ds = snd d" using drawn_distinct [OF dist d(1)] d(2) by metis
    ultimately show ?thesis using r(3) by metis
  next
    case False
    from drawn_absent [OF this] assms(3) [OF st] show ?thesis by metis
  qed
  then have "\<forall>st \<in> set (stations s'). \<forall>a. avail column st = Some a \<longrightarrow> 0 \<le> a"
    unfolding st' by (auto simp: avail_add)
  with sum st' drawn(1) show ?thesis by simp
qed

theorem surplus_draw_sound_witness:
  "\<exists>ds s'. drawDownSurplus trade_env (\<lambda>x. x) 40 ''available_kg'' (energy_store 400) = (Inr ds, s') \<and>
     (\<Sum>d\<leftarrow>ds. snd d) \<le> 40 \<and> ds = [(''a'', 30), (''b'', 10)]"
proof -
  let ?run = "drawDownSurplus trade_env (\<lambda>x. x) 40 ''available_kg'' (energy_store 400)"
  have ds: "fst ?run = Inr [(''a'', 30), (''b'', 10)]" by (simp add: trade_eval)
  have pre: "distinct (map st_id (stations (energy_store 400)))"
    "\<And>st a. st \<in> set (stations (energy_store 400)) \<Longrightarrow> avail ''available_kg'' st = Some a \<Longrightarrow> 0 \<le> a"
    by (auto simp: energy_store_def avail_def)
  have "(0 :: rat) < 40" by simp
  moreover have run: "?run = (Inr [(''a'', 30), (''b'', 10)], snd ?run)" using ds by (metis prod.collapse)
  ultimately have "(\<Sum>d\<leftarrow>[(''a'', 30), (''b'', 10)]. snd d) \<le> (40 :: rat)"
    using surplus_draw_sound [OF pre(1) _ pre(2) run] by simp
  with run show ?thesis by blast
qed

section \<open>Retries and cancellation\<close>

text \<open>
  A retry never trades twice, and never resumes: once a trade is recorded under an idempotency
  key, every later valid request under that key answers 200 with the recorded trade, whatever its
  status, and changes neither trades nor stations nor money. A trade left in \<open>proposed\<close> by an error
  is therefore never executed by retrying it.
\<close>

theorem trade_replayed:
  assumes "t \<in> set (trades s)" and "t_idempotency_key t = Some key"
    and "distinct (map t_idempotency_key (trades s))" and "trade_checks key (Some req) = Inr req"
    and "\<not> fault E ''load idempotent trade''"
  shows "CreateTrade E fl key (Some req) s = (Reply 200 t, s)"
proof -
  have "find (\<lambda>x. t_idempotency_key x = Some key) (trades s) = Some t"
    using distinct_map_find [OF assms(3,1)] assms(2) by simp
  with assms(1,2,4,5) show ?thesis by (auto simp: CreateTrade_def trade_insert_def)
qed

definition in_flight :: "simulated trade_store" where
  "in_flight = snd (trade_insert trade_env ''k'' sale (energy_store 400))"

definition sale_trade :: "string \<Rightarrow> string option \<Rightarrow> trade" where
  "sale_trade status tb = \<lparr>t_id = ''id'', t_kind = ''h2-sale'', t_quantity_kg = 40, t_price_minor = 400, t_status = status,
     t_tb_transfer_id = tb, t_idempotency_key = Some ''k'', t_created_at = 1000\<rparr>"

theorem trade_replayed_witness:
  "CreateTrade trade_env (\<lambda>x. x) ''k'' (Some sale) in_flight = (Reply 200 (sale_trade ''proposed'' None), in_flight)"
  by (rule trade_replayed)
    (simp_all add: in_flight_def trade_insert_def energy_store_def quiet_env_def sale_def sale_trade_def trade_checks_def
      validTradeKinds_def)

text \<open>
  A cancellation does not stop a trade: \<open>CancelTrade\<close> accepts a trade that is still proposed
  because its request is being processed, answers 200 and announces the cancellation; the request then
  draws the surplus, moves the money and records the same trade as executed.
\<close>

theorem cancelled_trade_executes:
  "\<exists>s1 s2 s3 s4. CancelTrade trade_env ''id'' in_flight = (Reply 200 (sale_trade ''cancelled'' None), s1) \<and>
     trade_draw trade_env (\<lambda>x. x) ''id'' sale s1 = (Inr [(''a'', 30), (''b'', 10)], s2) \<and>
     trade_post trade_env ''id'' ''k'' sale [(''a'', 30), (''b'', 10)] s2 = (Inr ''h'', s3) \<and>
     trade_finish trade_env ''id'' sale ''h'' s3 = (Reply 201 (sale_trade ''executed'' (Some ''h'')), s4) \<and>
     trades s4 = [sale_trade ''executed'' (Some ''h'')] \<and> sim_bal (trade_led s4) 2001 = 400 \<and>
     map fst (trade_events s4) = [''energy.trade.cancelled'', ''energy.trade.executed'']"
  by (simp add: in_flight_def CancelTrade_def sale_trade_def sim_bal_def trade_eval)

end
