(* ===== verification/Advertising.thy ===== *)
theory Advertising
  imports Store
begin

text \<open>
  The advertising module (src/services/go/commerce-api/internal/handlers/advertising.go): campaigns
  with a budget and a lifecycle, inventory slots, and placements that book a slot for a campaign. The
  exclusion constraint on overlapping placements is the one of
  src/infra/sql/migrations/0005_missing_schemas.sql. Creating a placement locks the campaign row, so
  it is one step; updating a campaign's status reads and writes in two statements and is two steps.
\<close>

section \<open>Rows\<close>

record campaign =
  c_id :: string
  c_name :: string
  c_advertiser :: string
  c_budget_minor :: int
  c_status :: string
  c_starts_at :: "int option"
  c_ends_at :: "int option"
  c_created_at :: int

record ad_slot =
  i_id :: string
  i_kind :: string
  i_bus_id :: "string option"
  i_label :: string
  i_active :: bool
  i_created_at :: int

record ad_placement =
  pl_id :: string
  pl_campaign_id :: string
  pl_inventory_id :: string
  pl_starts_at :: int
  pl_ends_at :: int
  pl_cost_minor :: int
  pl_created_at :: int

record ad_store =
  ad_campaigns :: "campaign list"
  ad_inventory :: "ad_slot list"
  ad_placements :: "ad_placement list"
  vehicles :: "string list"

section \<open>Campaigns\<close>

definition committed_of :: "string \<Rightarrow> ad_placement list \<Rightarrow> int" where
  "committed_of cid pls = sum_where (\<lambda>p. pl_campaign_id p = cid) pl_cost_minor pls"

text \<open>
  A campaign as the API returns it: the row, the committed cost and the remaining budget. Reading a
  sum that does not fit \<open>int64\<close> is a scan error.
\<close>

definition scanCampaign :: "ad_store \<Rightarrow> campaign \<Rightarrow> (campaign \<times> int \<times> int) option" where
  "scanCampaign s c =
     (let committed = committed_of (c_id c) (ad_placements s) in
      if in_i64 committed then Some (c, committed, i64 (c_budget_minor c - committed)) else None)"

fun scan_all :: "('r \<Rightarrow> 'a option) \<Rightarrow> 'r list \<Rightarrow> 'a list option" where
  "scan_all f [] = Some []"
| "scan_all f (x # xs) =
     (case f x of None \<Rightarrow> None | Some y \<Rightarrow> map_option (\<lambda>ys. y # ys) (scan_all f xs))"

definition ListCampaigns :: "db_env \<Rightarrow> string \<Rightarrow> ad_store \<Rightarrow> (campaign \<times> int \<times> int) list resp" where
  "ListCampaigns E status s =
     (if fault E ''list campaigns'' then Internal ''list campaigns''
      else case scan_all (scanCampaign s) (newest c_created_at 200
          (filter (\<lambda>c. status \<noteq> [] \<longrightarrow> c_status c = status) (ad_campaigns s))) of
        None \<Rightarrow> Internal ''scan campaign''
      | Some cs \<Rightarrow>
          if fault E ''iterate campaigns'' then Internal ''iterate campaigns'' else Reply 200 cs)"

definition GetCampaign :: "db_env \<Rightarrow> string \<Rightarrow> ad_store \<Rightarrow> (campaign \<times> int \<times> int) resp" where
  "GetCampaign E cid s =
     (if fault E ''get campaign'' then Internal ''get campaign''
      else case find (\<lambda>c. c_id c = cid) (ad_campaigns s) of
        None \<Rightarrow> Err 404 ''campaign not found''
      | Some c \<Rightarrow>
          (case scanCampaign s c of
             None \<Rightarrow> Internal ''get campaign''
           | Some r \<Rightarrow> Reply 200 r))"

record campaign_request =
  cq_name :: string
  cq_advertiser :: string
  cq_budget_minor :: int
  cq_starts_at :: "int option"
  cq_ends_at :: "int option"

definition maxCampaignNameLen :: nat where
  "maxCampaignNameLen = 200"

definition window_inverted :: "int option \<Rightarrow> int option \<Rightarrow> bool" where
  "window_inverted starts ends =
     (case (starts, ends) of (Some a, Some b) \<Rightarrow> b < a | _ \<Rightarrow> False)"

definition CreateCampaign ::
  "db_env \<Rightarrow> campaign_request option \<Rightarrow> ad_store \<Rightarrow> (campaign \<times> int \<times> int) resp \<times> ad_store" where
  "CreateCampaign E body s =
     (case body of
        None \<Rightarrow> (Err 400 ''invalid JSON body'', s)
      | Some req \<Rightarrow>
          let name = trim_space (cq_name req) in
          if name = [] \<or> length name > maxCampaignNameLen then (Err 400 ''name is required (1-200 chars)'', s)
          else if cq_budget_minor req < 0 then (Err 400 ''budget_minor must not be negative'', s)
          else if window_inverted (cq_starts_at req) (cq_ends_at req)
          then (Err 400 ''ends_at must not be before starts_at'', s)
          else
            let c = \<lparr>c_id = new_id E 0, c_name = name, c_advertiser = cq_advertiser req,
                     c_budget_minor = cq_budget_minor req, c_status = ''draft'', c_starts_at = cq_starts_at req,
                     c_ends_at = cq_ends_at req, c_created_at = now E\<rparr> in
            if fault E ''create campaign'' \<or> (\<exists>x \<in> set (ad_campaigns s). c_id x = c_id c)
            then (Internal ''create campaign'', s)
            else case scanCampaign s c of
              None \<Rightarrow> (Internal ''create campaign'', s\<lparr>ad_campaigns := ad_campaigns s @ [c]\<rparr>)
            | Some r \<Rightarrow> (Reply 201 r, s\<lparr>ad_campaigns := ad_campaigns s @ [c]\<rparr>))"

definition validCampaignStatuses :: "string set" where
  "validCampaignStatuses = {''draft'', ''active'', ''paused'', ''ended''}"

fun campaignStatusTransitions :: "string \<Rightarrow> string set" where
  "campaignStatusTransitions current =
     (if current = ''draft'' then {''draft'', ''active'', ''ended''}
      else if current = ''active'' then {''active'', ''paused'', ''ended''}
      else if current = ''paused'' then {''paused'', ''active'', ''ended''}
      else if current = ''ended'' then {''ended''}
      else {})"

declare campaignStatusTransitions.simps [simp del]

text \<open>\<open>UpdateCampaign\<close> in its two steps: read and decide, then write the status.\<close>

definition update_check ::
  "db_env \<Rightarrow> string \<Rightarrow> string option \<Rightarrow> ad_store \<Rightarrow> (campaign \<times> int \<times> int) resp + string" where
  "update_check E cid body s =
     (case body of
        None \<Rightarrow> Inl (Err 400 ''status must be one of draft|active|paused|ended'')
      | Some status \<Rightarrow>
          if status \<notin> validCampaignStatuses then Inl (Err 400 ''status must be one of draft|active|paused|ended'')
          else if fault E ''load campaign status'' then Inl (Internal ''load campaign status'')
          else case find (\<lambda>c. c_id c = cid) (ad_campaigns s) of
            None \<Rightarrow> Inl (Err 404 ''campaign not found'')
          | Some c \<Rightarrow>
              if status \<notin> campaignStatusTransitions (c_status c)
              then Inl (Err 409 (''invalid status transition from '' @ c_status c @ '' to '' @ status))
              else Inr status)"

definition update_mark ::
  "db_env \<Rightarrow> string \<Rightarrow> string \<Rightarrow> ad_store \<Rightarrow> (campaign \<times> int \<times> int) resp \<times> ad_store" where
  "update_mark E cid status s =
     (if fault E ''update campaign'' then (Internal ''update campaign'', s)
      else
        let s1 = s\<lparr>ad_campaigns := upd_rows (\<lambda>c. c_id c = cid) (\<lambda>c. c\<lparr>c_status := status\<rparr>) (ad_campaigns s)\<rparr> in
        (case find (\<lambda>c. c_id c = cid) (ad_campaigns s1) of
           None \<Rightarrow> (Err 404 ''campaign not found'', s1)
         | Some c \<Rightarrow>
             (case scanCampaign s1 c of
                None \<Rightarrow> (Internal ''update campaign'', s1)
              | Some r \<Rightarrow> (Reply 200 r, s1))))"

definition UpdateCampaign ::
  "db_env \<Rightarrow> string \<Rightarrow> string option \<Rightarrow> ad_store \<Rightarrow> (campaign \<times> int \<times> int) resp \<times> ad_store" where
  "UpdateCampaign E cid body s =
     (case update_check E cid body s of
        Inl r \<Rightarrow> (r, s)
      | Inr status \<Rightarrow> update_mark E cid status s)"

section \<open>Inventory\<close>

definition validInventoryKinds :: "string set" where
  "validInventoryKinds = {''bus-side'', ''bus-interior'', ''shelter'', ''digital-screen''}"

definition ListAdInventory :: "db_env \<Rightarrow> string \<Rightarrow> string \<Rightarrow> ad_store \<Rightarrow> ad_slot list resp" where
  "ListAdInventory E kind active s =
     (if fault E ''list ad inventory'' then Internal ''list ad inventory''
      else if fault E ''scan ad inventory'' then Internal ''scan ad inventory''
      else if fault E ''iterate ad inventory'' then Internal ''iterate ad inventory''
      else Reply 200 (newest i_created_at 200
        (filter (\<lambda>i. (kind \<noteq> [] \<longrightarrow> i_kind i = kind) \<and> (active \<noteq> [] \<longrightarrow> i_active i = (active = ''true'')))
          (ad_inventory s))))"

record inventory_request =
  iq_kind :: string
  iq_bus_id :: "string option"
  iq_label :: string

definition CreateAdInventory ::
  "db_env \<Rightarrow> inventory_request option \<Rightarrow> ad_store \<Rightarrow> ad_slot resp \<times> ad_store" where
  "CreateAdInventory E body s =
     (case body of
        None \<Rightarrow> (Err 400 ''invalid JSON body'', s)
      | Some req \<Rightarrow>
          if iq_kind req \<notin> validInventoryKinds
          then (Err 400 ''kind must be one of bus-side|bus-interior|shelter|digital-screen'', s)
          else
            let label = trim_space (iq_label req) in
            if label = [] then (Err 400 ''label is required'', s)
            else if iq_kind req \<in> {''bus-side'', ''bus-interior''} \<and> iq_bus_id req = None
            then (Err 400 ''bus_id is required for on-bus inventory'', s)
            else
              let i = \<lparr>i_id = new_id E 0, i_kind = iq_kind req, i_bus_id = iq_bus_id req, i_label = label,
                       i_active = True, i_created_at = now E\<rparr> in
              if fault E ''create ad inventory'' \<or> (\<exists>x \<in> set (ad_inventory s). i_id x = i_id i)
              then (Internal ''create ad inventory'', s)
              else if (case iq_bus_id req of None \<Rightarrow> False | Some b \<Rightarrow> b \<notin> set (vehicles s))
              then (Err 422 ''bus_id does not reference a known vehicle'', s)
              else (Reply 201 i, s\<lparr>ad_inventory := ad_inventory s @ [i]\<rparr>))"

section \<open>Placements\<close>

definition ListAdPlacements :: "db_env \<Rightarrow> string \<Rightarrow> string \<Rightarrow> ad_store \<Rightarrow> ad_placement list resp" where
  "ListAdPlacements E cid iid s =
     (if fault E ''list ad placements'' then Internal ''list ad placements''
      else if fault E ''scan ad placement'' then Internal ''scan ad placement''
      else if fault E ''iterate ad placements'' then Internal ''iterate ad placements''
      else Reply 200 (newest pl_starts_at 200
        (filter (\<lambda>p. (cid \<noteq> [] \<longrightarrow> pl_campaign_id p = cid) \<and> (iid \<noteq> [] \<longrightarrow> pl_inventory_id p = iid))
          (ad_placements s))))"

record placement_request =
  lq_campaign_id :: string
  lq_inventory_id :: string
  lq_starts_at :: int
  lq_ends_at :: int
  lq_cost_minor :: int

text \<open>Two bookings of one slot whose half-open windows share a moment.\<close>

definition overlapping :: "ad_placement \<Rightarrow> ad_placement \<Rightarrow> bool" where
  "overlapping p q \<longleftrightarrow> pl_inventory_id p = pl_inventory_id q \<and>
     pl_starts_at p < pl_ends_at q \<and> pl_starts_at q < pl_ends_at p"

text \<open>The locked part: campaign, slot, budget, insert and commit. \<open>Inr\<close> carries the figures of a refusal.\<close>

definition placement_tx ::
  "db_env \<Rightarrow> placement_request \<Rightarrow> ad_store \<Rightarrow> (ad_placement + int \<times> int \<times> int) resp \<times> ad_store" where
  "placement_tx E req s =
     (if fault E ''load campaign for placement'' then (Internal ''load campaign for placement'', s)
      else case find (\<lambda>c. c_id c = lq_campaign_id req) (ad_campaigns s) of
        None \<Rightarrow> (Err 404 ''campaign not found'', s)
      | Some c \<Rightarrow>
          if c_status c = ''ended'' then (Err 409 ''cannot book placements on an ended campaign'', s)
          else if fault E ''load inventory for placement'' then (Internal ''load inventory for placement'', s)
          else (case find (\<lambda>i. i_id i = lq_inventory_id req) (ad_inventory s) of
             None \<Rightarrow> (Err 404 ''inventory slot not found'', s)
           | Some i \<Rightarrow>
               if \<not> i_active i then (Err 409 ''inventory slot is inactive'', s)
               else
                 let committed = committed_of (c_id c) (ad_placements s) in
                 if fault E ''compute committed spend'' \<or> \<not> in_i64 committed
                 then (Internal ''compute committed spend'', s)
                 else if i64 (committed + lq_cost_minor req) > c_budget_minor c
                 then (ErrWith 409 ''budget_exceeded'' (Inr (c_budget_minor c, committed, lq_cost_minor req)), s)
                 else
                   let p = \<lparr>pl_id = new_id E 0, pl_campaign_id = c_id c, pl_inventory_id = i_id i,
                            pl_starts_at = lq_starts_at req, pl_ends_at = lq_ends_at req,
                            pl_cost_minor = lq_cost_minor req, pl_created_at = now E\<rparr> in
                   if fault E ''create ad placement'' \<or> (\<exists>q \<in> set (ad_placements s). pl_id q = pl_id p)
                   then (Internal ''create ad placement'', s)
                   else if \<exists>q \<in> set (ad_placements s). overlapping p q
                   then (Err 409 ''slot_already_booked: an overlapping placement exists for this inventory slot'', s)
                   else if fault E ''commit ad placement'' then (Internal ''commit ad placement'', s)
                   else (Reply 201 (Inl p), s\<lparr>ad_placements := ad_placements s @ [p]\<rparr>)))"

definition CreateAdPlacement ::
  "db_env \<Rightarrow> placement_request option \<Rightarrow> ad_store \<Rightarrow> (ad_placement + int \<times> int \<times> int) resp \<times> ad_store" where
  "CreateAdPlacement E body s =
     (case body of
        None \<Rightarrow> (Err 400 ''invalid JSON body'', s)
      | Some req \<Rightarrow>
          if lq_campaign_id req = [] \<or> lq_inventory_id req = []
          then (Err 400 ''campaign_id and inventory_id are required'', s)
          else if \<not> lq_ends_at req > lq_starts_at req then (Err 400 ''ends_at must be after starts_at'', s)
          else if lq_cost_minor req < 0 then (Err 400 ''cost_minor must not be negative'', s)
          else if fault E ''begin placement tx'' then (Internal ''begin placement tx'', s)
          else placement_tx E req s)"

section \<open>Interleaved requests\<close>

text \<open>
  The second component lists the status updates that have been admitted by \<open>update_check\<close> and not
  written yet. Budgets and costs are below \<open>2 ^ 62\<close>, so that adding a cost to what is committed does
  not wrap around.
\<close>

inductive ad_step :: "ad_store \<times> (string \<times> string) list \<Rightarrow> ad_store \<times> (string \<times> string) list \<Rightarrow> bool" where
  new_campaign: "CreateCampaign E body s = (r, s') \<Longrightarrow> (\<And>req. body = Some req \<Longrightarrow> cq_budget_minor req < 2 ^ 62) \<Longrightarrow>
     ad_step (s, pend) (s', pend)"
| new_slot: "CreateAdInventory E body s = (r, s') \<Longrightarrow> ad_step (s, pend) (s', pend)"
| book: "CreateAdPlacement E body s = (r, s') \<Longrightarrow> (\<And>req. body = Some req \<Longrightarrow> lq_cost_minor req < 2 ^ 62) \<Longrightarrow>
     ad_step (s, pend) (s', pend)"
| admit: "update_check E cid body s = Inr status \<Longrightarrow> ad_step (s, pend) (s, (cid, status) # pend)"
| set_status: "update_mark E cid status s = (r, s') \<Longrightarrow> (cid, status) \<in> set pend \<Longrightarrow>
     ad_step (s, pend) (s', remove1 (cid, status) pend)"

inductive_cases ad_stepE: "ad_step (s, pend) (s', pend')"

definition ads_ok :: "ad_store \<Rightarrow> bool" where
  "ads_ok s \<longleftrightarrow> distinct (map c_id (ad_campaigns s)) \<and>
     (\<forall>c \<in> set (ad_campaigns s). committed_of (c_id c) (ad_placements s) \<le> c_budget_minor c \<and> c_budget_minor c < 2 ^ 62) \<and>
     (\<forall>p \<in> set (ad_placements s). 0 \<le> pl_cost_minor p \<and> pl_starts_at p < pl_ends_at p \<and>
        pl_campaign_id p \<in> set (map c_id (ad_campaigns s)) \<and> pl_inventory_id p \<in> set (map i_id (ad_inventory s))) \<and>
     sorted_wrt (\<lambda>p q. \<not> overlapping p q) (ad_placements s)"

lemma overlapping_sym: "overlapping p q \<longleftrightarrow> overlapping q p"
  by (auto simp: overlapping_def)

lemma committed_nonneg: "ads_ok s \<Longrightarrow> 0 \<le> committed_of cid (ad_placements s)"
  unfolding committed_of_def by (rule sum_where_nonneg) (auto simp: ads_ok_def)

lemma committed_none:
  "ads_ok s \<Longrightarrow> cid \<notin> set (map c_id (ad_campaigns s)) \<Longrightarrow> committed_of cid (ad_placements s) = 0"
  unfolding committed_of_def sum_where_def
  by (subst filter_False) (auto simp: ads_ok_def)

lemma CreateCampaign_cases:
  assumes "CreateCampaign E body s = (r, s')"
  obtains (kept) "s' = s" and "status_code r \<noteq> 201"
  | (created) req c where "body = Some req" and "s' = s\<lparr>ad_campaigns := ad_campaigns s @ [c]\<rparr>"
      and "c_id c \<notin> set (map c_id (ad_campaigns s))" and "c_budget_minor c = cq_budget_minor req"
      and "0 \<le> c_budget_minor c" and "c_status c = ''draft''"
proof (cases "s' = s \<and> status_code r \<noteq> 201")
  case False
  then obtain req where req: "body = Some req" using assms by (cases body) (auto simp: CreateCampaign_def)
  let ?c = "\<lparr>c_id = new_id E 0, c_name = trim_space (cq_name req), c_advertiser = cq_advertiser req,
    c_budget_minor = cq_budget_minor req, c_status = ''draft'', c_starts_at = cq_starts_at req,
    c_ends_at = cq_ends_at req, c_created_at = now E\<rparr>"
  have "s' = s\<lparr>ad_campaigns := ad_campaigns s @ [?c]\<rparr> \<and> c_id ?c \<notin> set (map c_id (ad_campaigns s)) \<and> 0 \<le> c_budget_minor ?c"
    using assms False
    by (auto simp: req CreateCampaign_def Let_def split: option.splits if_splits)
  then show ?thesis using req by (intro created [of req ?c]) auto
qed (use kept in blast)

lemma CreateCampaign_ads_ok:
  assumes "ads_ok s" and "CreateCampaign E body s = (r, s')" and "\<And>req. body = Some req \<Longrightarrow> cq_budget_minor req < 2 ^ 62"
  shows "ads_ok s'"
  using assms(2)
proof (cases rule: CreateCampaign_cases)
  case (created req c)
  from committed_none [OF assms(1) created(3)] created assms(1) assms(3) [OF created(1)]
  show ?thesis by (auto simp: ads_ok_def)
qed (use assms(1) in simp)

lemma CreateAdInventory_ads_ok:
  "ads_ok s \<Longrightarrow> CreateAdInventory E body s = (r, s') \<Longrightarrow> ads_ok s'"
  by (auto simp: CreateAdInventory_def Let_def ads_ok_def split: option.splits if_splits)

lemma CreateAdPlacement_cases:
  assumes "CreateAdPlacement E body s = (r, s')"
  obtains (kept) "s' = s" and "status_code r \<noteq> 201"
  | (booked) req c i p where "body = Some req" and "c \<in> set (ad_campaigns s)" and "i \<in> set (ad_inventory s)"
      and "c_status c \<noteq> ''ended''" and "i_active i" and "r = Reply 201 (Inl p)"
      and "s' = s\<lparr>ad_placements := ad_placements s @ [p]\<rparr>" and "pl_campaign_id p = c_id c"
      and "pl_inventory_id p = i_id i" and "pl_cost_minor p = lq_cost_minor req" and "0 \<le> lq_cost_minor req"
      and "pl_starts_at p < pl_ends_at p" and "\<And>q. q \<in> set (ad_placements s) \<Longrightarrow> \<not> overlapping p q"
      and "i64 (committed_of (c_id c) (ad_placements s) + lq_cost_minor req) \<le> c_budget_minor c"
proof -
  consider "s' = s" "status_code r \<noteq> 201"
    | req where "body = Some req" "lq_starts_at req < lq_ends_at req" "0 \<le> lq_cost_minor req" "placement_tx E req s = (r, s')"
    using assms by (auto simp: CreateAdPlacement_def split: option.splits if_splits)
  then show ?thesis
  proof cases
    case (2 req)
    show ?thesis
    proof (cases "status_code r = 201")
      case False
      with 2(4) have "s' = s" by (auto simp: placement_tx_def Let_def split: option.splits if_splits)
      with False show ?thesis by (rule kept [rotated])
    next
      case True
      with 2(4) obtain c i where c: "find (\<lambda>c. c_id c = lq_campaign_id req) (ad_campaigns s) = Some c"
        and i: "find (\<lambda>i. i_id i = lq_inventory_id req) (ad_inventory s) = Some i"
        by (auto simp: placement_tx_def Let_def split: option.splits if_splits)
      let ?p = "\<lparr>pl_id = new_id E 0, pl_campaign_id = c_id c, pl_inventory_id = i_id i,
        pl_starts_at = lq_starts_at req, pl_ends_at = lq_ends_at req,
        pl_cost_minor = lq_cost_minor req, pl_created_at = now E\<rparr>"
      from True 2(4) c i show ?thesis
        using 2(1-3) find_Some_prop [OF c] find_Some_prop [OF i]
        by (intro booked [of req c i ?p]) (auto simp: placement_tx_def Let_def split: if_splits)
    qed
  qed (rule kept)
qed

lemma CreateAdPlacement_ads_ok:
  assumes "ads_ok s" and "CreateAdPlacement E body s = (r, s')" and "\<And>req. body = Some req \<Longrightarrow> lq_cost_minor req < 2 ^ 62"
  shows "ads_ok s'"
  using assms(2)
proof (cases rule: CreateAdPlacement_cases)
  case (booked req c i p)
  let ?com = "committed_of (c_id c) (ad_placements s)"
  have "?com \<le> c_budget_minor c" "c_budget_minor c < 2 ^ 62" "0 \<le> ?com" "lq_cost_minor req < 2 ^ 62"
    using assms(1) booked(2) committed_nonneg [OF assms(1)] assms(3) [OF booked(1)] by (auto simp: ads_ok_def)
  then have wrap: "i64 (?com + lq_cost_minor req) = ?com + lq_cost_minor req"
    using booked(11) by (intro i64_small) auto
  have "committed_of (c_id d) (ad_placements s') \<le> c_budget_minor d" if "d \<in> set (ad_campaigns s)" for d
  proof (cases "c_id d = c_id c")
    case True
    then have "d = c" using that booked(2) assms(1) by (auto simp: ads_ok_def intro: distinct_key)
    with booked(7,8,10,14) wrap show ?thesis by (simp add: committed_of_def)
  next
    case False
    with booked(7,8) that assms(1) show ?thesis by (simp add: ads_ok_def committed_of_def)
  qed
  moreover have "sorted_wrt (\<lambda>p q. \<not> overlapping p q) (ad_placements s')"
    using booked(7,13) assms(1) by (auto simp: ads_ok_def sorted_wrt_append overlapping_sym)
  ultimately show ?thesis using booked assms(1) by (auto simp: ads_ok_def)
qed (use assms(1) in simp)

lemma update_mark_store:
  assumes "update_mark E cid status s = (r, s')"
  shows "s' = s \<or> s' = s\<lparr>ad_campaigns := upd_rows (\<lambda>c. c_id c = cid) (\<lambda>c. c\<lparr>c_status := status\<rparr>) (ad_campaigns s)\<rparr>"
  using assms by (auto simp: update_mark_def Let_def split: option.splits if_splits)

lemma update_mark_ads_ok:
  assumes "ads_ok s" and "update_mark E cid status s = (r, s')"
  shows "ads_ok s'"
proof -
  let ?u = "upd_rows (\<lambda>c. c_id c = cid) (\<lambda>c. c\<lparr>c_status := status\<rparr>) (ad_campaigns s)"
  have ids: "map c_id ?u = map c_id (ad_campaigns s)" by (simp add: map_upd_rows)
  have "\<exists>d \<in> set (ad_campaigns s). c_id c = c_id d \<and> c_budget_minor c = c_budget_minor d" if "c \<in> set ?u" for c
    using set_upd_rowsD [OF that] by (auto split: if_splits)
  with assms(1) have "\<forall>c \<in> set ?u. committed_of (c_id c) (ad_placements s) \<le> c_budget_minor c \<and> c_budget_minor c < 2 ^ 62"
    unfolding ads_ok_def by metis
  with assms(1) ids have "ads_ok (s\<lparr>ad_campaigns := ?u\<rparr>)" by (simp add: ads_ok_def del: set_map)
  with update_mark_store [OF assms(2)] assms(1) show ?thesis by auto
qed

lemma ad_step_ok: "ad_step st st' \<Longrightarrow> ads_ok (fst st) \<Longrightarrow> ads_ok (fst st')"
  by (induction rule: ad_step.induct)
    (auto intro: CreateCampaign_ads_ok CreateAdInventory_ads_ok CreateAdPlacement_ads_ok update_mark_ads_ok)

lemma ad_reachable_ok: "ad_step\<^sup>*\<^sup>* st st' \<Longrightarrow> ads_ok (fst st) \<Longrightarrow> ads_ok (fst st')"
  by (induction rule: rtranclp_induct) (auto intro: ad_step_ok)

text \<open>
  C11. The advertising stock is never oversold: in every state reached by interleaved requests whose
  budgets and costs are below \<open>2 ^ 62\<close>, the committed cost of each campaign is within its budget, no
  two placements of a slot overlap, and every placement has a known campaign and slot, a positive
  window and a cost that is not negative.
\<close>

theorem ads_never_oversold:
  assumes "ad_step\<^sup>*\<^sup>* (\<lparr>ad_campaigns = [], ad_inventory = [], ad_placements = [], vehicles = vs\<rparr>, []) (s, pend)"
  shows "(\<forall>c \<in> set (ad_campaigns s). committed_of (c_id c) (ad_placements s) \<le> c_budget_minor c) \<and>
    sorted_wrt (\<lambda>p q. \<not> overlapping p q) (ad_placements s) \<and>
    (\<forall>p \<in> set (ad_placements s). pl_campaign_id p \<in> set (map c_id (ad_campaigns s)) \<and>
       pl_inventory_id p \<in> set (map i_id (ad_inventory s)) \<and> pl_starts_at p < pl_ends_at p \<and> 0 \<le> pl_cost_minor p)"
proof -
  have "ads_ok s" using ad_reachable_ok [OF assms] by (simp add: ads_ok_def)
  then show ?thesis by (auto simp: ads_ok_def)
qed

abbreviation ad_env :: "string \<Rightarrow> db_env" where
  "ad_env n \<equiv> (quiet_env (\<lambda>_ _ _ _ _ l. (Inl (LedgerFailure []), l)))\<lparr>new_id := (\<lambda>_. n)\<rparr>"

definition spring_request :: campaign_request where
  "spring_request = \<lparr>cq_name = ''spring'', cq_advertiser = ''Acme'', cq_budget_minor = 100, cq_starts_at = None,
     cq_ends_at = None\<rparr>"

definition shelter_request :: inventory_request where
  "shelter_request = \<lparr>iq_kind = ''shelter'', iq_bus_id = None, iq_label = ''Main St''\<rparr>"

definition book_request :: "int \<Rightarrow> int \<Rightarrow> int \<Rightarrow> placement_request" where
  "book_request a b cost = \<lparr>lq_campaign_id = ''c1'', lq_inventory_id = ''s1'', lq_starts_at = a, lq_ends_at = b,
     lq_cost_minor = cost\<rparr>"

definition ad_start :: ad_store where
  "ad_start = \<lparr>ad_campaigns = [], ad_inventory = [], ad_placements = [], vehicles = []\<rparr>"

definition ad_stocked :: ad_store where
  "ad_stocked = snd (CreateAdInventory (ad_env ''s1'') (Some shelter_request)
     (snd (CreateCampaign (ad_env ''c1'') (Some spring_request) ad_start)))"

definition ad_booked :: ad_store where
  "ad_booked = snd (CreateAdPlacement (ad_env ''p1'') (Some (book_request 0 10 60)) ad_stocked)"

lemmas ad_eval = CreateCampaign_def CreateAdInventory_def CreateAdPlacement_def placement_tx_def spring_request_def
  shelter_request_def book_request_def ad_start_def quiet_env_def Let_def trim_space_def is_space_def
  maxCampaignNameLen_def window_inverted_def scanCampaign_def committed_of_def validInventoryKinds_def in_i64_def
  i64_def overlapping_def

definition spring :: campaign where
  "spring = \<lparr>c_id = ''c1'', c_name = ''spring'', c_advertiser = ''Acme'', c_budget_minor = 100, c_status = ''draft'',
     c_starts_at = None, c_ends_at = None, c_created_at = 1000\<rparr>"

definition shelter :: ad_slot where
  "shelter = \<lparr>i_id = ''s1'', i_kind = ''shelter'', i_bus_id = None, i_label = ''Main St'', i_active = True, i_created_at = 1000\<rparr>"

definition first_booking :: ad_placement where
  "first_booking = \<lparr>pl_id = ''p1'', pl_campaign_id = ''c1'', pl_inventory_id = ''s1'', pl_starts_at = 0, pl_ends_at = 10,
     pl_cost_minor = 60, pl_created_at = 1000\<rparr>"

lemma ad_stocked_rows:
  "ad_stocked = \<lparr>ad_campaigns = [spring], ad_inventory = [shelter], ad_placements = [], vehicles = []\<rparr>"
  by (simp add: ad_stocked_def ad_eval spring_def shelter_def)

lemma ad_booked_rows:
  "ad_booked = \<lparr>ad_campaigns = [spring], ad_inventory = [shelter], ad_placements = [first_booking], vehicles = []\<rparr>"
  by (simp add: ad_booked_def ad_stocked_rows ad_eval spring_def shelter_def first_booking_def)

theorem ads_never_oversold_witness:
  "(\<exists>c. ad_campaigns ad_booked = [c] \<and> committed_of (c_id c) (ad_placements ad_booked) \<le> c_budget_minor c) \<and>
   length (ad_placements ad_booked) = 1"
proof -
  have "ad_step\<^sup>*\<^sup>* (ad_start, []) (ad_booked, [])"
  proof -
    let ?s1 = "snd (CreateCampaign (ad_env ''c1'') (Some spring_request) ad_start)"
    have "ad_step (ad_start, []) (?s1, [])"
      by (rule ad_step.new_campaign [OF prod.collapse [symmetric]]) (simp add: spring_request_def)
    moreover have "ad_step (?s1, []) (ad_stocked, [])"
      unfolding ad_stocked_def by (rule ad_step.new_slot [OF prod.collapse [symmetric]])
    moreover have "ad_step (ad_stocked, []) (ad_booked, [])"
      unfolding ad_booked_def by (rule ad_step.book [OF prod.collapse [symmetric]]) (simp add: book_request_def)
    ultimately show ?thesis by auto
  qed
  from ads_never_oversold [OF this [unfolded ad_start_def]] show ?thesis by (simp add: ad_booked_rows)
qed

text \<open>
  The budget check is done in wrapping \<open>int64\<close> arithmetic: once a campaign with a budget of 100
  has a placement, a second placement that costs \<open>2 ^ 63 - 1\<close> is accepted, and from then on every
  placement on the campaign and every read of it fails with 500.
\<close>

theorem budget_check_overflows:
  "\<exists>p s. CreateAdPlacement (ad_env ''p2'') (Some (book_request 20 30 (2 ^ 63 - 1))) ad_booked = (Reply 201 (Inl p), s) \<and>
     committed_of ''c1'' (ad_placements s) = 2 ^ 63 + 59 \<and>
     status_code (GetCampaign (ad_env ''x'') ''c1'' s) = 500 \<and> status_code (ListCampaigns (ad_env ''x'') [] s) = 500 \<and>
     status_code (fst (CreateAdPlacement (ad_env ''p3'') (Some (book_request 40 50 0)) s)) = 500"
  by (simp add: ad_booked_rows spring_def shelter_def first_booking_def ad_eval GetCampaign_def ListCampaigns_def newest_def)

section \<open>The campaign lifecycle\<close>

text \<open>
  The lifecycle is respected by requests that do not overlap: a status update changes no campaign
  but the one named and nothing of it but the status, which moves along \<open>campaignStatusTransitions\<close>;
  in particular an ended campaign stays ended.
\<close>

theorem campaign_lifecycle:
  assumes "distinct (map c_id (ad_campaigns s))" and "UpdateCampaign E cid body s = (r, s')"
  shows "ad_placements s' = ad_placements s \<and>
    list_all2 (\<lambda>c c'. c' = c \<or> c_id c = cid \<and> (\<exists>st. c' = c\<lparr>c_status := st\<rparr> \<and> st \<in> campaignStatusTransitions (c_status c)))
      (ad_campaigns s) (ad_campaigns s') \<and>
    (\<forall>c \<in> set (ad_campaigns s). c_status c = ''ended'' \<longrightarrow> c \<in> set (ad_campaigns s'))"
proof (cases "s' = s")
  case True
  then show ?thesis by (simp add: list_all2_same)
next
  case False
  then obtain st where chk: "update_check E cid body s = Inr st" and mk: "update_mark E cid st s = (r, s')"
    using assms(2) by (auto simp: UpdateCampaign_def split: sum.splits)
  from chk obtain c where f: "find (\<lambda>c. c_id c = cid) (ad_campaigns s) = Some c"
    and tr: "st \<in> campaignStatusTransitions (c_status c)"
    by (auto simp: update_check_def split: option.splits if_splits)
  note c = find_Some_prop [OF f, THEN conjunct2] find_Some_prop [OF f, THEN conjunct1] tr
  have only: "d = c" if "d \<in> set (ad_campaigns s)" "c_id d = cid" for d
    using that c assms(1) by (auto intro: distinct_key)
  have s': "s' = s\<lparr>ad_campaigns := upd_rows (\<lambda>c. c_id c = cid) (\<lambda>c. c\<lparr>c_status := st\<rparr>) (ad_campaigns s)\<rparr>"
    using update_mark_store [OF mk] False by blast
  have moves: "list_all2 (\<lambda>c c'. c' = c \<or> c_id c = cid \<and> (\<exists>st. c' = c\<lparr>c_status := st\<rparr> \<and> st \<in> campaignStatusTransitions (c_status c)))
      (ad_campaigns s) (ad_campaigns s')"
    using only c(3) by (auto simp: s' upd_rows_def list.rel_map list_all2_same)
  have "d \<in> set (ad_campaigns s')" if d: "d \<in> set (ad_campaigns s)" "c_status d = ''ended''" for d
  proof -
    have "(if c_id d = cid then d\<lparr>c_status := st\<rparr> else d) = d" using only [OF d(1)] c(3) d(2) by (auto simp: campaignStatusTransitions.simps)
    with d(1) show ?thesis unfolding s' by (force simp: upd_rows_def image_iff)
  qed
  with moves show ?thesis by (simp add: s')
qed

theorem campaign_lifecycle_witness:
  "\<exists>s'. UpdateCampaign (ad_env ''x'') ''c1'' (Some ''active'') ad_booked = (Reply 200 (spring\<lparr>c_status := ''active''\<rparr>, 60, 40), s') \<and>
     ad_placements s' = ad_placements ad_booked \<and> ad_campaigns s' = [spring\<lparr>c_status := ''active''\<rparr>]"
proof -
  have run: "UpdateCampaign (ad_env ''x'') ''c1'' (Some ''active'') ad_booked =
      (Reply 200 (spring\<lparr>c_status := ''active''\<rparr>, 60, 40), ad_booked\<lparr>ad_campaigns := [spring\<lparr>c_status := ''active''\<rparr>]\<rparr>)"
    by (simp add: UpdateCampaign_def update_check_def update_mark_def ad_booked_rows spring_def first_booking_def ad_eval
        validCampaignStatuses_def campaignStatusTransitions.simps)
  have "distinct (map c_id (ad_campaigns ad_booked))" by (simp add: ad_booked_rows)
  from campaign_lifecycle [OF this run] run show ?thesis by (simp add: ad_booked_rows)
qed

text \<open>
  Requests that do overlap can resurrect an ended campaign: an activation admitted while the
  campaign was a draft is written after another request has ended it, since the update statement does
  not check the status again.
\<close>

theorem ended_campaign_resurrected:
  "\<exists>s1 s2. ad_step\<^sup>*\<^sup>* (ad_booked, []) (s1, [(''c1'', ''active'')]) \<and> ad_campaigns s1 = [spring\<lparr>c_status := ''ended''\<rparr>] \<and>
     ad_step (s1, [(''c1'', ''active'')]) (s2, []) \<and> ad_campaigns s2 = [spring\<lparr>c_status := ''active''\<rparr>]"
proof -
  let ?E = "ad_env ''x''" and ?in = "\<lambda>st. ad_booked\<lparr>ad_campaigns := [spring\<lparr>c_status := st\<rparr>]\<rparr>"
  have admits: "update_check ?E ''c1'' (Some st) ad_booked = Inr st" if "st = ''active'' \<or> st = ''ended''" for st
    using that by (auto simp: update_check_def ad_booked_rows spring_def quiet_env_def validCampaignStatuses_def
        campaignStatusTransitions.simps)
  have marks: "ad_step (s, [(''c1'', st)] @ rest) (?in st, rest)" if "s = ad_booked \<or> s = ?in ''ended''" for s st rest
  proof -
    have "snd (update_mark ?E ''c1'' st s) = ?in st"
      using that by (auto simp: update_mark_def ad_booked_rows spring_def first_booking_def ad_eval)
    then have "update_mark ?E ''c1'' st s = (fst (update_mark ?E ''c1'' st s), ?in st)" by (metis prod.collapse)
    from ad_step.set_status [OF this, of "[(''c1'', st)] @ rest"] show ?thesis by simp
  qed
  have "ad_step\<^sup>*\<^sup>* (ad_booked, []) (?in ''ended'', [(''c1'', ''active'')])"
    using ad_step.admit [OF admits, of "''active''" "[]"] ad_step.admit [OF admits, of "''ended''" "[(''c1'', ''active'')]"]
      marks [of ad_booked "''ended''" "[(''c1'', ''active'')]"] by auto
  moreover have "ad_step (?in ''ended'', [(''c1'', ''active'')]) (?in ''active'', [])"
    using marks [of "?in ''ended''" "''active''" "[]"] by simp
  ultimately show ?thesis
    by (intro exI [of _ "?in ''ended''"] exI [of _ "?in ''active''"]) simp
qed

end
