(* ===== verification/Carbon.thy ===== *)
theory Carbon
  imports Store
begin

text \<open>
  The consumer that posts the carbon fund leg
  (src/services/go/commerce-api/internal/consumers/carbon.go): the ledger posting of one
  \<open>carbon.credit.issued\<close> event and the processing of a fetched batch of one partition. Committing a
  record moves the partition's committed offset past it, and a restart resumes at that offset; this is
  what \<open>CommitRecords\<close> does, and the outer polling loop only repeats it.
\<close>

record carbon_credit =
  cc_credit_id :: string
  cc_period :: string
  cc_kg_co2_avoided :: rat

text \<open>A message is not an envelope, an envelope without a readable payload, or a credit.\<close>

datatype carbon_message = Malformed | BadPayload | Credit carbon_credit

text \<open>\<open>math.Round(math.Max(x, 0))\<close>: halves go away from zero.\<close>

definition whole_kg :: "rat \<Rightarrow> int" where
  "whole_kg x = \<lfloor>max x 0 + 1 / 2\<rfloor>"

definition carbon_tid :: "'l env \<Rightarrow> string \<Rightarrow> tid" where
  "carbon_tid E credit = DeterministicTransferID (hash16 E) (''carbon:'' @ credit)"

definition PostCarbonFundLeg :: "'l env \<Rightarrow> carbon_credit \<Rightarrow> 'l \<Rightarrow> (ledger_error + string) \<times> 'l" where
  "PostCarbonFundLeg E c l =
     (if cc_credit_id c = [] \<or> cc_period c = []
      then (Inl (LedgerFailure ''carbon.credit.issued payload missing credit_id/period''), l)
      else
        let amount = u64 (whole_kg (cc_kg_co2_avoided c)) in
        if amount = 0 then (Inr [], l)
        else post E (carbon_tid E (cc_credit_id c)) CarbonIssuanceAccount CarbonFundAccount amount CodeCarbon l)"

text \<open>The state: the ledger and the committed offset. A failing offset commit is only logged.\<close>

definition commit_record :: "'l env \<Rightarrow> int \<Rightarrow> 'l \<times> int \<Rightarrow> 'l \<times> int" where
  "commit_record E off st = (if fault E ''offset commit'' then st else (fst st, off + 1))"

fun consume_record :: "'l env \<Rightarrow> int \<times> carbon_message \<Rightarrow> 'l \<times> int \<Rightarrow> 'l \<times> int" where
  "consume_record E (off, Malformed) st = commit_record E off st"
| "consume_record E (off, BadPayload) st = commit_record E off st"
| "consume_record E (off, Credit c) st =
     (case PostCarbonFundLeg E c (fst st) of
        (Inl e, l) \<Rightarrow> (l, snd st)
      | (Inr _, l) \<Rightarrow> commit_record E off (l, snd st))"

fun consume_batch :: "'l env \<Rightarrow> (int \<times> carbon_message) list \<Rightarrow> 'l \<times> int \<Rightarrow> 'l \<times> int" where
  "consume_batch E [] st = st"
| "consume_batch E (r # rs) st = consume_batch E rs (consume_record E r st)"

section \<open>Posting once\<close>

lemma whole_kg_numeral: "whole_kg (numeral n) = numeral n"
proof -
  have "\<lfloor>(of_int (numeral n) :: rat) + 1 / 2\<rfloor> = numeral n" by (rule floor_unique) (simp, linarith)
  then show ?thesis by (simp add: whole_kg_def)
qed

definition credit_ok :: "carbon_credit \<Rightarrow> bool" where
  "credit_ok c \<longleftrightarrow> cc_credit_id c \<noteq> [] \<and> cc_period c \<noteq> [] \<and> 1 / 2 \<le> cc_kg_co2_avoided c \<and> cc_kg_co2_avoided c < 2 ^ 62"

lemma whole_kg_bounds:
  assumes "credit_ok c"
  shows "0 < whole_kg (cc_kg_co2_avoided c)" and "amount_ok (whole_kg (cc_kg_co2_avoided c))"
    and "u64 (whole_kg (cc_kg_co2_avoided c)) = whole_kg (cc_kg_co2_avoided c)"
proof -
  let ?x = "cc_kg_co2_avoided c"
  have "1 \<le> max ?x 0 + 1 / 2" "max ?x 0 + 1 / 2 < 2 ^ 62 + 1" using assms by (auto simp: credit_ok_def)
  then have b: "1 \<le> whole_kg ?x" "whole_kg ?x < 2 ^ 62 + 1"
    unfolding whole_kg_def by (simp_all add: le_floor_iff floor_less_iff)
  then show "0 < whole_kg ?x" "amount_ok (whole_kg ?x)" by (auto simp: amount_ok_def)
  then show "u64 (whole_kg ?x) = whole_kg ?x" by (intro u64_small) (auto simp: amount_ok_def)
qed

context ledger_contract
begin

lemma credit_posted_stays:
  assumes "post E = transfer" and "posted l (carbon_tid E (cc_credit_id c))"
  shows "fst (consume_record E (off, Credit c) (l, k)) = l"
  using assms transfer_replays [OF assms(2)]
  by (auto simp: PostCarbonFundLeg_def commit_record_def Let_def split: prod.splits sum.splits)
    (metis prod.inject)+

lemma credit_moves_once:
  assumes "post E = transfer" and "inv l" and "credit_ok c" and "\<not> posted l (carbon_tid E (cc_credit_id c))"
    and "PostCarbonFundLeg E c l = (Inr h, l')"
  shows "bal l' = move CarbonIssuanceAccount CarbonFundAccount (whole_kg (cc_kg_co2_avoided c)) (bal l) \<and>
    posted l' (carbon_tid E (cc_credit_id c))"
proof -
  note w = whole_kg_bounds [OF assms(3)]
  have tr: "transfer (carbon_tid E (cc_credit_id c)) CarbonIssuanceAccount CarbonFundAccount
      (whole_kg (cc_kg_co2_avoided c)) CodeCarbon l = (Inr h, l')"
    using assms(1,3,5) w by (auto simp: PostCarbonFundLeg_def credit_ok_def Let_def)
  from transfer_posts [OF assms(2) w(2) assms(4) tr] transfer_marks [OF assms(2) w(2) tr] show ?thesis by simp
qed

end

text \<open>
  An issued credit funds the carbon fund once: over the simulated ledger the first successful
  posting of a credit moves its avoided kilograms, rounded to whole ones, from the issuance account to
  the fund, and however often the same credit is delivered again, also with recomputed kilograms, the
  ledger does not change.
\<close>

theorem carbon_credit_once:
  assumes "post E = sim_Transfer sh" and "sim_inv l" and "credit_ok c"
    and "\<not> sim_posted l (carbon_tid E (cc_credit_id c))" and "PostCarbonFundLeg E c l = (Inr h, l')"
    and "\<And>r. r \<in> set rs \<Longrightarrow> \<exists>off c'. r = (off, Credit c') \<and> cc_credit_id c' = cc_credit_id c"
  shows "sim_bal l' = move CarbonIssuanceAccount CarbonFundAccount (whole_kg (cc_kg_co2_avoided c)) (sim_bal l) \<and>
    fst (consume_batch E rs (l', k)) = l'"
proof -
  note m = sim.credit_moves_once [OF assms(1-5)]
  have "fst (consume_batch E rs (l', k)) = l'" using assms(6)
  proof (induction rs arbitrary: k)
    case (Cons r rs)
    obtain off c' where r: "r = (off, Credit c')" "cc_credit_id c' = cc_credit_id c" using Cons.prems [of r] by auto
    have "fst (consume_record E r (l', k)) = l'"
      using sim.credit_posted_stays [OF assms(1)] m unfolding r by (metis r(2))
    then obtain k' where "consume_record E r (l', k) = (l', k')" by (metis prod.collapse)
    with Cons show ?case by simp
  qed simp
  with m show ?thesis by simp
qed

definition credit :: "string \<Rightarrow> rat \<Rightarrow> carbon_credit" where
  "credit i kg = \<lparr>cc_credit_id = i, cc_period = ''2024-01'', cc_kg_co2_avoided = kg\<rparr>"

abbreviation carbon_env :: "simulated env" where
  "carbon_env \<equiv> quiet_env (sim_Transfer (\<lambda>_. ''h''))"

definition issuance :: simulated where
  "issuance = \<lparr>balances = [4001 \<mapsto> 0, 4002 \<mapsto> 5], transfers = Map.empty\<rparr>"

lemmas carbon_eval = PostCarbonFundLeg_def credit_def quiet_env_def issuance_def whole_kg_numeral carbon_tid_def
  DeterministicTransferID_def sim_Transfer_def ensure_def bal_of_def u64_def i64_def account_defs Let_def commit_record_def

theorem carbon_credit_once_witness:
  "\<exists>l'. PostCarbonFundLeg carbon_env (credit ''c1'' 3) issuance = (Inr ''h'', l') \<and>
     sim_bal l' = move 4002 4001 3 (sim_bal issuance) \<and>
     fst (consume_batch carbon_env [(7, Credit (credit ''c1'' 4))] (l', 7)) = l'"
proof -
  have pre: "post carbon_env = sim_Transfer (\<lambda>_. ''h'')" "sim_inv issuance" "credit_ok (credit ''c1'' 3)"
    "\<not> sim_posted issuance (carbon_tid carbon_env (cc_credit_id (credit ''c1'' 3)))"
    by (auto simp: quiet_env_def sim_inv_def issuance_def sim_bal_def bal_of_def credit_ok_def credit_def sim_posted_def)
  have run: "fst (PostCarbonFundLeg carbon_env (credit ''c1'' 3) issuance) = Inr ''h''" by (simp add: carbon_eval)
  have rs: "\<exists>off c'. r = (off, Credit c') \<and> cc_credit_id c' = cc_credit_id (credit ''c1'' 3)"
    if "r \<in> set [(7, Credit (credit ''c1'' 4))]" for r using that by (simp add: credit_def)
  let ?run = "PostCarbonFundLeg carbon_env (credit ''c1'' 3) issuance"
  have eq: "?run = (Inr ''h'', snd ?run)" using run by (metis prod.collapse)
  have "whole_kg (cc_kg_co2_avoided (credit ''c1'' 3)) = 3" by (simp add: whole_kg_numeral credit_def)
  with carbon_credit_once [OF pre eq rs, of "[(7, Credit (credit ''c1'' 4))]" 7] eq show ?thesis
    unfolding account_defs by metis
qed

text \<open>
  A failed posting is not redelivered once a later record of the batch succeeds: committing the
  later record moves the offset past the failed one. Here the first credit does not find enough on the
  issuance account, the second is posted and committed, and the consumer resumes after both.
\<close>

theorem failed_credit_is_skipped:
  "\<exists>l'. consume_batch carbon_env [(0, Credit (credit ''cc1'' 10)), (1, Credit (credit ''c2'' 3))] (issuance, 0) = (l', 2) \<and>
     \<not> sim_posted l' (carbon_tid carbon_env ''cc1'') \<and> sim_posted l' (carbon_tid carbon_env ''c2'')"
  by (simp add: carbon_eval sim_posted_def)

end
