(* ===== verification/Timestamps.thy ===== *)
theory Timestamps
  imports Prelude
begin

text \<open>
  Instants as Go and Postgres have them: nanoseconds since the Unix epoch in the program, whole
  microseconds in a \<open>timestamptz\<close> column, and the RFC 3339 texts the services hash and publish.
\<close>

text \<open>\<open>n\<close> decimal digits of a number, and \<open>t.UTC().Format(time.RFC3339Nano)\<close> (\<open>rfc3339nano\<close>) or \<open>time.RFC3339\<close> (\<open>rfc3339\<close>).\<close>

fun digs :: "nat \<Rightarrow> nat \<Rightarrow> string" where
  "digs 0 f = []"
| "digs (Suc n) f = digs n (f div 10) @ [char_of (48 + f mod 10)]"

definition strip_zeros :: "string \<Rightarrow> string" where
  "strip_zeros s = rev (dropWhile (\<lambda>c. c = CHR ''0'') (rev s))"

definition fraction :: "nat \<Rightarrow> string" where
  "fraction ns = (if ns = 0 then [] else ''.'' @ strip_zeros (digs 9 ns))"

text \<open>The civil date of a day number counted from 1970-01-01 in the proleptic Gregorian calendar.\<close>

definition civil :: "int \<Rightarrow> int \<times> int \<times> int" where
  "civil day =
     (let z = day + 719468; era = z div 146097; doe = z mod 146097;
          yoe = (doe - doe div 1460 + doe div 36524 - doe div 146096) div 365;
          doy = doe - (365 * yoe + yoe div 4 - yoe div 100); mp = (5 * doy + 2) div 153;
          d = doy - (153 * mp + 2) div 5 + 1; m = (if mp < 10 then mp + 3 else mp - 9)
      in (yoe + era * 400 + (if m \<le> 2 then 1 else 0), m, d))"

definition rfc3339_seconds :: "int \<Rightarrow> string" where
  "rfc3339_seconds secs =
     (case civil (secs div 86400) of (y, m, d) \<Rightarrow>
      let r = secs mod 86400 in
      digs 4 (nat y) @ ''-'' @ digs 2 (nat m) @ ''-'' @ digs 2 (nat d) @ ''T'' @
      digs 2 (nat (r div 3600)) @ '':'' @ digs 2 (nat (r div 60 mod 60)) @ '':'' @ digs 2 (nat (r mod 60)))"

definition rfc3339nano :: "int \<Rightarrow> string" where
  "rfc3339nano t = rfc3339_seconds (t div 1000000000) @ fraction (nat (t mod 1000000000)) @ ''Z''"

definition rfc3339 :: "int \<Rightarrow> string" where
  "rfc3339 t = rfc3339_seconds (t div 1000000000) @ ''Z''"

text \<open>What the column keeps of an instant.\<close>

definition to_micros :: "int \<Rightarrow> int" where
  "to_micros t = t - t mod 1000"

end
