(* ===== verification/AuditLog.thy ===== *)
theory AuditLog
  imports Timestamps
begin

text \<open>
  The audit-log service: the hash-chained trail and its verifier
  (src/services/go/audit-log/internal/store/store.go), the HTTP handlers
  (src/services/go/audit-log/internal/handlers/handlers.go) and the anomaly detector
  (src/services/go/audit-log/internal/anomaly/anomaly.go). Instants are nanoseconds since the Unix
  epoch, as Go has them; the \<open>timestamptz\<close> column keeps whole microseconds. SHA-256 in hexadecimal and
  Postgres' canonical \<open>jsonb\<close> text are parameters. Appends hold an advisory lock to the end of their
  transaction, so each is one step.
\<close>

section \<open>Entries and the chain hash\<close>

record entry =
  en_id :: int
  en_actor_sub :: string
  en_actor_roles :: "string list"
  en_action :: string
  en_entity :: string
  en_entity_id :: string
  en_before :: "string option"
  en_after :: "string option"
  en_ip :: string
  en_ua :: string
  en_ts :: int
  en_prev_hash :: string
  en_hash :: string

definition rawText :: "string option \<Rightarrow> string" where
  "rawText r = (case r of None \<Rightarrow> [] | Some s \<Rightarrow> s)"

definition writeField :: "string \<Rightarrow> string" where
  "writeField s = show_nat (length s) @ '':'' @ s"

definition chain_fields :: "string \<Rightarrow> entry \<Rightarrow> string list" where
  "chain_fields prevHash e =
     [prevHash, en_actor_sub e, join_with '','' (en_actor_roles e), en_action e, en_entity e, en_entity_id e,
      rawText (en_before e), rawText (en_after e), en_ip e, en_ua e, rfc3339nano (en_ts e)]"

definition ChainHash :: "(string \<Rightarrow> string) \<Rightarrow> string \<Rightarrow> entry \<Rightarrow> string" where
  "ChainHash sha prevHash e = sha (concat (map writeField (chain_fields prevHash e)))"

section \<open>The store\<close>

record audit_env =
  au_sha :: "string \<Rightarrow> string"
  au_jsonb :: "string \<Rightarrow> string option"
  au_now :: int
  au_fault :: "string \<Rightarrow> bool"

record audit_db =
  audit_log :: "entry list"
  next_serial :: int

text \<open>The table is kept in the order of its serial ids.\<close>

definition norm_json :: "audit_env \<Rightarrow> string option \<Rightarrow> string option option" where
  "norm_json A r = (case r of None \<Rightarrow> Some None | Some s \<Rightarrow> map_option Some (au_jsonb A s))"

definition chain_head :: "entry list \<Rightarrow> string" where
  "chain_head es = (if es = [] then [] else en_hash (last es))"

definition Append :: "audit_env \<Rightarrow> entry \<Rightarrow> int option \<Rightarrow> audit_db \<Rightarrow> (string + entry) \<times> audit_db" where
  "Append A e0 ts db =
     (let e1 = e0\<lparr>en_ts := (case ts of None \<Rightarrow> au_now A | Some t \<Rightarrow> t)\<rparr> in
      if au_fault A ''begin'' then (Inl ''begin'', db)
      else if au_fault A ''chain lock'' then (Inl ''chain lock'', db)
      else if au_fault A ''read chain head'' then (Inl ''read chain head'', db)
      else case norm_json A (en_before e1) of
        None \<Rightarrow> (Inl ''invalid before JSON'', db)
      | Some before \<Rightarrow>
          (case norm_json A (en_after e1) of
             None \<Rightarrow> (Inl ''invalid after JSON'', db)
           | Some after \<Rightarrow>
               let e2 = e1\<lparr>en_before := before, en_after := after\<rparr>;
                   e3 = e2\<lparr>en_prev_hash := chain_head (audit_log db),
                           en_hash := ChainHash (au_sha A) (chain_head (audit_log db)) e2,
                           en_id := next_serial db\<rparr> in
               if au_fault A ''insert audit entry'' \<or> (\<exists>x \<in> set (audit_log db). en_hash x = en_hash e3) \<or>
                 norm_json A before = None \<or> norm_json A after = None
               then (Inl ''insert audit entry'', db)
               else if au_fault A ''commit'' then (Inl ''commit'', db)
               else (Inr e3, db\<lparr>audit_log := audit_log db @
                       [e3\<lparr>en_before := the (norm_json A before), en_after := the (norm_json A after),
                           en_ts := to_micros (en_ts e3)\<rparr>], next_serial := next_serial db + 1\<rparr>)))"

record list_filter =
  lf_actor :: string
  lf_entity :: string
  lf_from :: "int option"
  lf_limit :: int

definition effective_limit :: "int \<Rightarrow> int" where
  "effective_limit n = (if n \<le> 0 \<or> n > 1000 then 100 else n)"

definition audit_List :: "audit_env \<Rightarrow> list_filter \<Rightarrow> audit_db \<Rightarrow> string + entry list" where
  "audit_List A f db =
     (if au_fault A ''list'' then Inl ''list''
      else if au_fault A ''scan'' then Inl ''scan''
      else Inr (take (nat (effective_limit (lf_limit f)))
        (rev (filter (\<lambda>e. (lf_actor f \<noteq> [] \<longrightarrow> en_actor_sub e = lf_actor f) \<and>
                (lf_entity f \<noteq> [] \<longrightarrow> en_entity e = lf_entity f) \<and>
                (case lf_from f of None \<Rightarrow> True | Some t \<Rightarrow> en_ts e \<ge> t)) (audit_log db)))))"

text \<open>The walk of \<open>Verify\<close>: the first offending id or 0, and the number of rows checked.\<close>

fun verify_loop :: "(string \<Rightarrow> string) \<Rightarrow> string \<Rightarrow> int \<Rightarrow> entry list \<Rightarrow> int \<times> int" where
  "verify_loop sha prevHash checked [] = (0, checked)"
| "verify_loop sha prevHash checked (e # es) =
     (if en_prev_hash e \<noteq> prevHash then (en_id e, checked + 1)
      else if ChainHash sha prevHash e \<noteq> en_hash e then (en_id e, checked + 1)
      else verify_loop sha (en_hash e) (checked + 1) es)"

definition Verify :: "audit_env \<Rightarrow> audit_db \<Rightarrow> string + int \<times> int" where
  "Verify A db =
     (if au_fault A ''verify query'' \<or> au_fault A ''verify scan'' then Inl ''verify audit chain''
      else Inr (verify_loop (au_sha A) [] 0 (audit_log db)))"

section \<open>The anomaly detector\<close>

record detector =
  d_threshold :: int
  d_window :: int
  d_cooldown :: int
  d_seen :: "string \<Rightarrow> int list"
  d_alerted :: "string \<rightharpoonup> int"

definition detector_New :: "int \<Rightarrow> int \<Rightarrow> detector" where
  "detector_New threshold window =
     \<lparr>d_threshold = threshold, d_window = window, d_cooldown = 300000000000, d_seen = (\<lambda>_. []), d_alerted = Map.empty\<rparr>"

text \<open>The result says whether an alert is fired.\<close>

definition Observe :: "string \<Rightarrow> int \<Rightarrow> detector \<Rightarrow> bool \<times> detector" where
  "Observe actor now d =
     (if actor = [] then (False, d)
      else
        let kept = filter (\<lambda>t. t > now - d_window d) (d_seen d actor) @ [now];
            d1 = d\<lparr>d_seen := (d_seen d)(actor := kept)\<rparr>;
            onCooldown = (case d_alerted d actor of None \<Rightarrow> False | Some lastAlert \<Rightarrow> now - lastAlert < d_cooldown d) in
        if int (length kept) \<le> d_threshold d \<or> onCooldown then (False, d1)
        else (True, d1\<lparr>d_alerted := (d_alerted d)(actor \<mapsto> now)\<rparr>))"

section \<open>Handlers\<close>

record audit_service =
  svc_db :: audit_db
  svc_detector :: detector
  svc_entries_total :: nat

definition Ingest ::
  "audit_env \<Rightarrow> (entry \<times> int option) option \<Rightarrow> audit_service \<Rightarrow> entry resp \<times> audit_service" where
  "Ingest A body s =
     (case body of
        None \<Rightarrow> (Err 400 ''invalid JSON body'', s)
      | Some (e, ts) \<Rightarrow>
          if en_actor_sub e = [] \<or> en_action e = [] \<or> en_entity e = []
          then (Err 400 ''actor_sub, action and entity are required'', s)
          else (case Append A e ts (svc_db s) of
             (Inl err, db) \<Rightarrow> (Internal ''append audit entry'', s\<lparr>svc_db := db\<rparr>)
           | (Inr e', db) \<Rightarrow>
               (Reply 201 e', s\<lparr>svc_db := db, svc_entries_total := svc_entries_total s + 1,
                  svc_detector := snd (Observe (en_actor_sub e') (au_now A) (svc_detector s))\<rparr>)))"

text \<open>An outer \<open>None\<close> is a query parameter left out, an inner one a parameter that does not parse.\<close>

definition audit_List_handler ::
  "audit_env \<Rightarrow> string \<Rightarrow> string \<Rightarrow> int option option \<Rightarrow> int option option \<Rightarrow> audit_service \<Rightarrow> entry list resp" where
  "audit_List_handler A actor entity from limit s =
     (case from of
        Some None \<Rightarrow> Err 400 ''from must be RFC3339 (e.g. 2025-01-02T03:04:05Z)''
      | _ \<Rightarrow>
          (case limit of
             Some None \<Rightarrow> Err 400 ''limit must be an integer''
           | _ \<Rightarrow>
               (case audit_List A \<lparr>lf_actor = actor, lf_entity = entity, lf_from = Option.bind from id,
                   lf_limit = (case limit of Some (Some n) \<Rightarrow> n | _ \<Rightarrow> 0)\<rparr> (svc_db s) of
                  Inl e \<Rightarrow> Internal ''list audit entries''
                | Inr es \<Rightarrow> Reply 200 es)))"

definition audit_Verify_handler :: "audit_env \<Rightarrow> audit_service \<Rightarrow> (bool \<times> int \<times> int) resp" where
  "audit_Verify_handler A s =
     (case Verify A (svc_db s) of
        Inl e \<Rightarrow> Internal ''verify audit chain''
      | Inr (badID, checked) \<Rightarrow>
          if badID = 0 then Reply 200 (True, checked, badID) else Reply 409 (False, checked, badID))"

definition accepted_tokens :: "string \<Rightarrow> string list" where
  "accepted_tokens ingestToken = filter (\<lambda>tok. tok \<noteq> []) (map trim_space (split_on (CHR '','') ingestToken))"

text \<open>\<open>jwtMW next\<close> is the JWT middleware around the next handler; a handler takes the token header.\<close>

definition RequireIngestAuth ::
  "string \<Rightarrow> ((string \<Rightarrow> 'r) \<Rightarrow> string \<Rightarrow> 'r) \<Rightarrow> (string \<Rightarrow> 'r) \<Rightarrow> string \<Rightarrow> 'r" where
  "RequireIngestAuth ingestToken jwtMW nxt header =
     (if header \<in> set (accepted_tokens ingestToken) then nxt header else jwtMW nxt header)"

section \<open>The encoding is unambiguous\<close>

lemma show_nat_no_colon: "CHR '':'' \<notin> set (show_nat n)"
  using show_nat_digits [of "CHR '':''" n] by auto

lemma takeWhile_field: "takeWhile (\<lambda>c. c \<noteq> CHR '':'') (writeField s @ r) = show_nat (length s)"
proof -
  have "c \<noteq> CHR '':''" if "c \<in> set (show_nat (length s))" for c using that show_nat_no_colon by metis
  then show ?thesis by (simp add: writeField_def takeWhile_append2)
qed

lemma writeField_inject: "writeField s @ r = writeField t @ q \<longleftrightarrow> s = t \<and> r = q"
proof
  assume eq: "writeField s @ r = writeField t @ q"
  then have "show_nat (length s) = show_nat (length t)" by (metis takeWhile_field)
  then have "length s = length t" by simp
  with eq show "s = t \<and> r = q" by (simp add: writeField_def)
qed simp

lemma fields_inject:
  "length fs = length gs \<Longrightarrow> concat (map writeField fs) = concat (map writeField gs) \<longleftrightarrow> fs = gs"
proof (induction fs gs rule: list_induct2)
  case (Cons f fs g gs)
  then show ?case using writeField_inject [of f _ g] by auto
qed simp

lemma ChainHash_inject:
  assumes "inj_on sha S" and "concat (map writeField (chain_fields p e)) \<in> S"
    and "concat (map writeField (chain_fields q f)) \<in> S" and "ChainHash sha p e = ChainHash sha q f"
  shows "chain_fields p e = chain_fields q f"
proof -
  have "concat (map writeField (chain_fields p e)) = concat (map writeField (chain_fields q f))"
    using inj_onD [OF assms(1)] assms(2-4) by (simp add: ChainHash_def)
  moreover have "length (chain_fields p e) = length (chain_fields q f)" by (simp add: chain_fields_def)
  ultimately show ?thesis using fields_inject by blast
qed

section \<open>What the verifier accepts\<close>

fun chained :: "(string \<Rightarrow> string) \<Rightarrow> string \<Rightarrow> entry list \<Rightarrow> bool" where
  "chained sha prev [] \<longleftrightarrow> True"
| "chained sha prev (e # es) \<longleftrightarrow>
     en_prev_hash e = prev \<and> en_hash e = ChainHash sha prev e \<and> chained sha (en_hash e) es"

lemma verify_chained:
  "chained sha prev es \<Longrightarrow> verify_loop sha prev n es = (0, n + int (length es))"
  by (induction sha prev n es rule: verify_loop.induct) auto

lemma verify_zero:
  "\<forall>e \<in> set es. en_id e \<noteq> 0 \<Longrightarrow> fst (verify_loop sha prev n es) = 0 \<longleftrightarrow> chained sha prev es"
  by (induction sha prev n es rule: verify_loop.induct) auto

lemma chained_append:
  "chained sha prev (es @ fs) \<longleftrightarrow> chained sha prev es \<and> chained sha (if es = [] then prev else en_hash (last es)) fs"
  by (induction sha prev es rule: chained.induct) auto

lemma verify_append_bad:
  assumes "chained sha prev es" and "en_hash e \<noteq> ChainHash sha (if es = [] then prev else en_hash (last es)) e"
  shows "verify_loop sha prev n (es @ [e]) = (en_id e, n + int (length es) + 1)"
  using assms by (induction sha prev n es rule: verify_loop.induct) (auto split: if_splits)

section \<open>Appending\<close>

definition jsonb_canonical :: "audit_env \<Rightarrow> bool" where
  "jsonb_canonical A \<longleftrightarrow> (\<forall>x y. au_jsonb A x = Some y \<longrightarrow> au_jsonb A y = Some y)"

lemma norm_json_idem: "jsonb_canonical A \<Longrightarrow> norm_json A r = Some n \<Longrightarrow> norm_json A n = Some n"
  by (auto simp: norm_json_def jsonb_canonical_def split: option.splits)

lemma Append_cases:
  assumes "jsonb_canonical A" and "Append A e0 ts db = (res, db')"
  obtains (failed) err where "res = Inl err" and "db' = db"
  | (appended) e where "res = Inr e" and "db' = db\<lparr>audit_log := audit_log db @ [e\<lparr>en_ts := to_micros (en_ts e)\<rparr>],
        next_serial := next_serial db + 1\<rparr>"
      and "en_id e = next_serial db" and "en_prev_hash e = chain_head (audit_log db)"
      and "en_hash e = ChainHash (au_sha A) (chain_head (audit_log db)) e"
      and "en_ts e = (case ts of None \<Rightarrow> au_now A | Some t \<Rightarrow> t)"
proof (cases res)
  case (Inl err)
  with assms(2) have "db' = db" by (auto simp: Append_def Let_def split: option.splits if_splits)
  with Inl show ?thesis by (rule failed)
next
  case (Inr e)
  with assms(2) obtain bf af where n: "norm_json A (en_before e0) = Some bf" "norm_json A (en_after e0) = Some af"
    by (auto simp: Append_def Let_def split: option.splits if_splits)
  have idem: "norm_json A bf = Some bf" "norm_json A af = Some af" using norm_json_idem [OF assms(1)] n by blast+
  have ch: "ChainHash sha p (x\<lparr>en_prev_hash := a, en_hash := b, en_id := c\<rparr>) = ChainHash sha p x" for sha p x a b c
    by (simp add: ChainHash_def chain_fields_def)
  from assms(2) Inr n idem show ?thesis
    by (intro appended [of e]) (auto simp: Append_def Let_def ch split: if_splits)
qed

lemma ChainHash_ts:
  "en_ts e mod 1000 = 0 \<Longrightarrow> ChainHash sha p (e\<lparr>en_ts := to_micros (en_ts e)\<rparr>) = ChainHash sha p e"
  by (simp add: to_micros_def)

lemma Append_chained:
  assumes "jsonb_canonical A" and "Append A e0 ts db = (res, db')" and "chained (au_sha A) [] (audit_log db)"
    and "(case ts of None \<Rightarrow> au_now A | Some t \<Rightarrow> t) mod 1000 = 0"
  shows "chained (au_sha A) [] (audit_log db')"
  using assms(1,2)
proof (cases rule: Append_cases)
  case (appended e)
  have "en_ts e mod 1000 = 0" using assms(4) appended(6) by simp
  from ChainHash_ts [OF this] appended(2-5) assms(3) show ?thesis
    by (auto simp: chained_append chain_head_def)
qed (use assms(3) in simp)

fun append_all :: "audit_env \<Rightarrow> (int \<times> entry \<times> int option) list \<Rightarrow> audit_db \<Rightarrow> audit_db" where
  "append_all A [] db = db"
| "append_all A ((now, e, ts) # calls) db = append_all A calls (snd (Append (A\<lparr>au_now := now\<rparr>) e ts db))"

definition whole_micros :: "int \<times> entry \<times> int option \<Rightarrow> bool" where
  "whole_micros call \<longleftrightarrow> (case call of (now, e, ts) \<Rightarrow> (case ts of None \<Rightarrow> now | Some t \<Rightarrow> t) mod 1000 = 0)"

lemma append_all_chained:
  "jsonb_canonical A \<Longrightarrow> list_all whole_micros calls \<Longrightarrow> chained (au_sha A) [] (audit_log db) \<Longrightarrow>
   chained (au_sha A) [] (audit_log (append_all A calls db))"
proof (induction A calls db rule: append_all.induct)
  case (2 A now e ts calls db)
  let ?A = "A\<lparr>au_now := now\<rparr>"
  have "jsonb_canonical ?A" using "2.prems"(1) by (simp add: jsonb_canonical_def)
  moreover have "(case ts of None \<Rightarrow> au_now ?A | Some t \<Rightarrow> t) mod 1000 = 0"
    using "2.prems"(2) by (cases ts) (simp_all add: whole_micros_def)
  ultimately have "chained (au_sha A) [] (audit_log (snd (Append ?A e ts db)))"
    using Append_chained [OF _ prod.collapse [symmetric], where A = ?A and ?e0.0 = e and ts = ts] "2.prems"(3) by simp
  with "2.IH" "2.prems" show ?case by simp
qed simp

definition empty_audit :: audit_db where
  "empty_audit = \<lparr>audit_log = [], next_serial = 1\<rparr>"

text \<open>
  C12. An untouched trail verifies, if its clock ticks in whole microseconds: after any sequence of
  appends to an empty trail, successful or not, whose timestamps have no part below a microsecond, the
  verifier reports no bad row and counts all rows.
\<close>

theorem audit_trail_verifies:
  assumes "jsonb_canonical A" and "list_all whole_micros calls"
    and "\<not> au_fault A ''verify query''" and "\<not> au_fault A ''verify scan''"
  shows "Verify A (append_all A calls empty_audit) =
    Inr (0, int (length (audit_log (append_all A calls empty_audit))))"
proof -
  have "chained (au_sha A) [] (audit_log (append_all A calls empty_audit))"
    by (rule append_all_chained [OF assms(1,2)]) (simp add: empty_audit_def)
  with assms(3,4) show ?thesis by (simp add: Verify_def verify_chained)
qed

definition login :: entry where
  "login = \<lparr>en_id = 0, en_actor_sub = ''ann'', en_actor_roles = [''operator''], en_action = ''toggle.update'',
     en_entity = ''feature_toggle'', en_entity_id = [], en_before = None, en_after = None, en_ip = [], en_ua = [],
     en_ts = 0, en_prev_hash = [], en_hash = []\<rparr>"

abbreviation plain_audit :: audit_env where
  "plain_audit \<equiv> \<lparr>au_sha = (\<lambda>s. s), au_jsonb = (\<lambda>s. Some s), au_now = 0, au_fault = (\<lambda>_. False)\<rparr>"

theorem audit_trail_verifies_witness:
  "Verify plain_audit (append_all plain_audit [(5000, login, None), (7000, login, Some 6000)] empty_audit) = Inr (0, 2)"
proof -
  let ?calls = "[(5000, login, None), (7000, login, Some 6000)]"
  have "jsonb_canonical plain_audit" "list_all whole_micros ?calls" by (simp_all add: jsonb_canonical_def whole_micros_def)
  then have "Verify plain_audit (append_all plain_audit ?calls empty_audit) =
      Inr (0, int (length (audit_log (append_all plain_audit ?calls empty_audit))))"
    by (rule audit_trail_verifies) simp_all
  moreover have "length (audit_log (append_all plain_audit ?calls empty_audit)) = 2"
    by (simp add: empty_audit_def Append_def login_def norm_json_def chain_head_def ChainHash_def chain_fields_def
        writeField_def Let_def)
  ultimately show ?thesis by simp
qed

section \<open>Sub-microsecond timestamps\<close>

lemma digs_length [simp]: "length (digs n f) = n"
  by (induction n f rule: digs.induct) auto

lemma digs_inject: "digs n f = digs n g \<Longrightarrow> f < 10 ^ n \<Longrightarrow> g < 10 ^ n \<Longrightarrow> f = g"
proof (induction n arbitrary: f g)
  case (Suc n)
  have "char_of (48 + f mod 10) = (char_of (48 + g mod 10) :: char)" and d: "digs n (f div 10) = digs n (g div 10)"
    using Suc.prems(1) by simp_all
  then have "(of_char (char_of (48 + f mod 10) :: char) :: nat) = of_char (char_of (48 + g mod 10) :: char)" by simp
  then have m: "f mod 10 = g mod 10" by (simp add: of_char_of take_bit_eq_mod) 
  have "f div 10 = g div 10" using Suc.IH [OF d] Suc.prems(2,3) by (simp add: less_mult_imp_div_less mult.commute)
  with m show ?case by (metis div_mult_mod_eq)
qed simp

lemma strip_zeros_inject: "strip_zeros s = strip_zeros t \<Longrightarrow> length s = length t \<Longrightarrow> s = t"
proof -
  have z: "\<exists>k. s = strip_zeros s @ replicate k (CHR ''0'')" for s
  proof -
    let ?t = "takeWhile (\<lambda>c. c = CHR ''0'') (rev s)"
    have "rev s = ?t @ dropWhile (\<lambda>c. c = CHR ''0'') (rev s)" by simp
    then have "s = strip_zeros s @ rev ?t" unfolding strip_zeros_def by (metis rev_append rev_rev_ident)
    moreover have "?t = replicate (length ?t) (CHR ''0'')"
      by (rule replicate_eqI) (auto dest: set_takeWhileD)
    then have "rev ?t = replicate (length ?t) (CHR ''0'')" by (metis rev_replicate)
    ultimately have "s = strip_zeros s @ replicate (length ?t) (CHR ''0'')" by simp
    then show ?thesis ..
  qed
  assume "strip_zeros s = strip_zeros t" "length s = length t"
  moreover obtain k where k: "s = strip_zeros s @ replicate k (CHR ''0'')" using z ..
  moreover obtain l where l: "t = strip_zeros t @ replicate l (CHR ''0'')" using z ..
  moreover have "length s = length (strip_zeros s) + k" "length t = length (strip_zeros t) + l"
    by (subst k, simp, subst l, simp)
  ultimately show "s = t" by (metis add_left_cancel)
qed

lemma fraction_inject:
  assumes "fraction a = fraction b" and "a < 10 ^ 9" and "b < 10 ^ 9"
  shows "a = b"
proof (cases "a = 0 \<or> b = 0")
  case True
  with assms(1) show ?thesis by (auto simp: fraction_def split: if_splits)
next
  case False
  with assms(1) have "strip_zeros (digs 9 a) = strip_zeros (digs 9 b)" by (simp add: fraction_def)
  from strip_zeros_inject [OF this] digs_inject [OF _ assms(2,3)] show ?thesis by simp
qed

lemma to_micros_parts:
  fixes t :: int
  assumes "G = 1000000000"
  shows "to_micros t div G = t div G" and "to_micros t mod G = t mod G - t mod 1000"
proof -
  let ?f = "t mod G - t mod 1000"
  have m: "t mod G mod 1000 = t mod 1000" unfolding assms by (rule mod_mod_cancel) simp
  have G: "0 < G" using assms by simp
  have "t mod G mod 1000 \<le> t mod G" by (rule zmod_le_nonneg_dividend) (use G in simp)
  moreover have "t mod G < G" by (rule pos_mod_bound [OF G])
  moreover have "0 \<le> t mod 1000" by simp
  ultimately have b: "0 \<le> ?f" "?f < G" unfolding m by linarith+
  have eq: "to_micros t = G * (t div G) + ?f" by (simp add: to_micros_def algebra_simps)
  show "to_micros t div G = t div G" by (rule int_div_pos_eq [OF eq b])
  show "to_micros t mod G = ?f" by (rule int_mod_pos_eq [OF eq b])
qed

lemma micros_differ:
  assumes "t mod 1000 \<noteq> 0"
  shows "rfc3339nano (to_micros t) \<noteq> rfc3339nano t"
proof
  let ?G = "1000000000 :: int"
  assume eq: "rfc3339nano (to_micros t) = rfc3339nano t"
  note parts = to_micros_parts [OF refl, of t]
  have "fraction (nat (to_micros t mod ?G)) = fraction (nat (t mod ?G))"
    using eq by (simp add: rfc3339nano_def parts(1))
  moreover have "nat (to_micros t mod ?G) < 10 ^ 9" "nat (t mod ?G) < 10 ^ 9" by simp_all
  ultimately have "nat (to_micros t mod ?G) = nat (t mod ?G)" by (rule fraction_inject)
  then have "to_micros t mod ?G = t mod ?G" by (subst (asm) eq_nat_nat_iff) simp_all
  with parts(2) assms show False by simp
qed

text \<open>
  C40. A timestamp with a part below a microsecond breaks the chain without any tampering: the hash is
  computed over the nanosecond instant, the column keeps microseconds, and so, unless the two texts
  collide under the digest, the verifier reports the freshly appended row of an intact trail as bad.
\<close>

theorem nanosecond_timestamp_breaks_chain:
  assumes "jsonb_canonical A" and "chained (au_sha A) [] (audit_log db)" and "Append A e0 ts db = (Inr e, db')"
    and "en_ts e mod 1000 \<noteq> 0"
    and "inj_on (au_sha A) {concat (map writeField (chain_fields (chain_head (audit_log db)) x)) |
           x. x = e \<or> x = e\<lparr>en_ts := to_micros (en_ts e)\<rparr>}"
    and "\<not> au_fault A ''verify query''" and "\<not> au_fault A ''verify scan''"
  shows "Verify A db' = Inr (en_id e, int (length (audit_log db')))"
  using assms(1,3)
proof (cases rule: Append_cases)
  case (appended e')
  then have e': "e' = e" by simp
  let ?p = "chain_head (audit_log db)" and ?r = "e\<lparr>en_ts := to_micros (en_ts e)\<rparr>"
  have "ChainHash (au_sha A) ?p ?r \<noteq> ChainHash (au_sha A) ?p e"
  proof
    assume "ChainHash (au_sha A) ?p ?r = ChainHash (au_sha A) ?p e"
    then have "chain_fields ?p ?r = chain_fields ?p e" by (intro ChainHash_inject [OF assms(5)]) auto
    then show False using micros_differ [OF assms(4)] by (simp add: chain_fields_def)
  qed
  then have "en_hash ?r \<noteq> ChainHash (au_sha A) (if audit_log db = [] then [] else en_hash (last (audit_log db))) ?r"
    using appended(5) e' by (auto simp: chain_head_def)
  from verify_append_bad [OF assms(2) this, of 0] appended(2) e' assms(6,7) show ?thesis by (simp add: Verify_def)
qed simp

theorem nanosecond_timestamp_breaks_chain_witness:
  "\<exists>e db'. Append plain_audit login (Some 1500) empty_audit = (Inr e, db') \<and> Verify plain_audit db' = Inr (1, 1)"
proof -
  obtain e db' where run: "Append plain_audit login (Some 1500) empty_audit = (Inr e, db')"
    and e: "en_ts e = 1500" "en_id e = 1" "length (audit_log db') = 1"
    by (simp add: empty_audit_def Append_def login_def norm_json_def chain_head_def Let_def)
  have "Verify plain_audit db' = Inr (en_id e, int (length (audit_log db')))"
    by (rule nanosecond_timestamp_breaks_chain [OF _ _ run])
      (simp_all add: jsonb_canonical_def empty_audit_def e)
  with run e show ?thesis by auto
qed

section \<open>Tamper evidence\<close>

definition encodings :: "entry list \<Rightarrow> string set" where
  "encodings es = {concat (map writeField (chain_fields (en_prev_hash e) e)) | e. e \<in> set es}"

lemma chained_same_head:
  assumes "chained sha [] es" and "chained sha [] fs" and "length es = length fs" and "chain_head es = chain_head fs"
    and "inj_on sha (encodings (es @ fs))"
  shows "map (\<lambda>e. chain_fields (en_prev_hash e) e) es = map (\<lambda>e. chain_fields (en_prev_hash e) e) fs"
  using assms
proof (induction es arbitrary: fs rule: rev_induct)
  case (snoc e es)
  then obtain f gs where fs: "fs = gs @ [f]" by (metis length_0_conv neq_Nil_conv rev_exhaust snoc_eq_iff_butlast)
  have he: "en_hash e = ChainHash sha (en_prev_hash e) e" "en_prev_hash e = chain_head es"
    and hf: "en_hash f = ChainHash sha (en_prev_hash f) f" "en_prev_hash f = chain_head gs"
    and ch: "chained sha [] es" "chained sha [] gs"
    using snoc.prems(1,2) by (auto simp: fs chained_append chain_head_def)
  have inj: "inj_on sha (encodings ((es @ [e]) @ (gs @ [f])))" using snoc.prems(5) fs by simp
  have "en_hash e = en_hash f" using snoc.prems(4) by (simp add: fs chain_head_def)
  then have same: "chain_fields (en_prev_hash e) e = chain_fields (en_prev_hash f) f"
    using he(1) hf(1) by (intro ChainHash_inject [OF inj]) (auto simp: encodings_def)
  then have "chain_head es = chain_head gs" using he(2) hf(2) by (simp add: chain_fields_def)
  moreover have "inj_on sha (encodings (es @ gs))"
    by (rule inj_on_subset [OF inj]) (auto simp: encodings_def)
  ultimately have "map (\<lambda>e. chain_fields (en_prev_hash e) e) es = map (\<lambda>e. chain_fields (en_prev_hash e) e) gs"
    using snoc.IH ch snoc.prems(3) fs by simp
  with same fs show ?case by simp
qed simp


text \<open>What the verifier's answer says of the rows it read: bad row 0 means the whole chain holds, and
  the count is the number of rows.\<close>

lemma Verify_accepts:
  assumes "Verify A db = Inr (0, n)" and "\<forall>e \<in> set (audit_log db). en_id e \<noteq> 0"
  shows "chained (au_sha A) [] (audit_log db)" and "n = int (length (audit_log db))"
proof -
  have "verify_loop (au_sha A) [] 0 (audit_log db) = (0, n)" using assms(1) by (simp add: Verify_def split: if_splits)
  moreover from this show "chained (au_sha A) [] (audit_log db)" using verify_zero [OF assms(2)] by (metis fst_conv)
  ultimately show "n = int (length (audit_log db))" by (simp add: verify_chained)
qed

text \<open>
  C13. With an anchored head the trail is tamper-evident: of two tables that the verifier both accepts
  (\<open>Verify\<close> answers bad row 0) with the same number of rows checked and whose last rows carry the
  same hash, every row agrees in all hashed fields (the previous hash, actor, joined roles, action,
  entity, before and after texts, address, agent and formatted timestamp), as long as the digest does
  not collide on the rows involved. Row ids are not 0, as the verifier answers 0 for \<open>no bad row\<close>;
  the column is a bigserial. The head and the count have to be anchored elsewhere: the verifier also
  accepts the table whose newest rows were deleted, with the smaller count.
\<close>

theorem audit_tamper_evident:
  assumes "Verify A db = Inr (0, n)" and "Verify A db' = Inr (0, n)"
    and "\<forall>e \<in> set (audit_log db @ audit_log db'). en_id e \<noteq> 0"
    and "chain_head (audit_log db) = chain_head (audit_log db')"
    and "inj_on (au_sha A) (encodings (audit_log db @ audit_log db'))"
  shows "map (\<lambda>e. chain_fields (en_prev_hash e) e) (audit_log db) =
      map (\<lambda>e. chain_fields (en_prev_hash e) e) (audit_log db') \<and>
    Verify A (db\<lparr>audit_log := take k (audit_log db)\<rparr>) = Inr (0, min (int k) n)"
proof -
  have ids: "\<forall>e \<in> set (audit_log db). en_id e \<noteq> 0" "\<forall>e \<in> set (audit_log db'). en_id e \<noteq> 0"
    using assms(3) by auto
  note ok = Verify_accepts [OF assms(1) ids(1)] Verify_accepts [OF assms(2) ids(2)]
  have "chained (au_sha A) [] (take k (audit_log db))"
    using ok(1) chained_append [of "au_sha A" "[]" "take k (audit_log db)" "drop k (audit_log db)"] by simp
  then have "Verify A (db\<lparr>audit_log := take k (audit_log db)\<rparr>) = Inr (0, min (int k) n)"
    using assms(1) ok(2) by (auto simp: Verify_def verify_chained split: if_splits)
  moreover have "length (audit_log db) = length (audit_log db')" using ok(2,4) by simp
  ultimately show ?thesis using chained_same_head [OF ok(1,3) _ assms(4,5)] by simp
qed

definition two_rows :: audit_db where
  "two_rows = append_all plain_audit [(5000, login, None), (7000, login, None)] empty_audit"

text \<open>The same two rows restored under other ids.\<close>

definition restored_rows :: audit_db where
  "restored_rows = two_rows\<lparr>audit_log := map (\<lambda>e. e\<lparr>en_id := en_id e + 10\<rparr>) (audit_log two_rows)\<rparr>"

lemmas audit_eval = two_rows_def restored_rows_def empty_audit_def Append_def login_def norm_json_def chain_head_def
  ChainHash_def chain_fields_def writeField_def Let_def Verify_def

theorem audit_tamper_evident_witness:
  "Verify plain_audit two_rows = Inr (0, 2) \<and> Verify plain_audit restored_rows = Inr (0, 2) \<and>
   map (\<lambda>e. chain_fields (en_prev_hash e) e) (audit_log two_rows) =
     map (\<lambda>e. chain_fields (en_prev_hash e) e) (audit_log restored_rows) \<and>
   Verify plain_audit (two_rows\<lparr>audit_log := take 1 (audit_log two_rows)\<rparr>) = Inr (0, 1)"
proof -
  have v: "Verify plain_audit two_rows = Inr (0, 2)" "Verify plain_audit restored_rows = Inr (0, 2)"
    by (simp_all add: audit_eval to_micros_def)
  have ids: "\<forall>e \<in> set (audit_log two_rows @ audit_log restored_rows). en_id e \<noteq> 0" by (simp add: audit_eval)
  have "chain_head (audit_log two_rows) = chain_head (audit_log restored_rows)" by (simp add: audit_eval)
  from audit_tamper_evident [OF v ids this, of 1] v show ?thesis by simp
qed

text \<open>The ingest token: an absent or empty header is never a shared token.\<close>

lemma ingest_token:
  "RequireIngestAuth tok mw nxt header =
     (if header \<noteq> [] \<and> header \<in> set (map trim_space (split_on (CHR '','') tok)) then nxt header else mw nxt header)"
  by (auto simp: RequireIngestAuth_def accepted_tokens_def)

section \<open>The detector against its specification\<close>

fun observe_run :: "(string \<times> int) list \<Rightarrow> detector \<Rightarrow> (string \<times> int) list \<times> detector" where
  "observe_run [] d = ([], d)"
| "observe_run ((actor, now) # h) d =
     (case Observe actor now d of (fired, d1) \<Rightarrow>
      case observe_run h d1 of (alerts, d2) \<Rightarrow> ((if fired then [(actor, now)] else []) @ alerts, d2))"

lemma observe_run_snoc:
  "observe_run (h @ [(actor, now)]) d =
     (case observe_run h d of (alerts, d1) \<Rightarrow>
      case Observe actor now d1 of (fired, d2) \<Rightarrow> (alerts @ (if fired then [(actor, now)] else []), d2))"
  by (induction h arbitrary: d) (auto split: prod.splits)

definition times_of :: "string \<Rightarrow> (string \<times> int) list \<Rightarrow> int list" where
  "times_of actor h = map snd (filter (\<lambda>x. fst x = actor) h)"

definition tracks :: "int \<Rightarrow> int \<Rightarrow> (string \<times> int) list \<Rightarrow> (string \<times> int) list \<Rightarrow> detector \<Rightarrow> bool" where
  "tracks th w h alerts d \<longleftrightarrow> d_threshold d = th \<and> d_window d = w \<and> d_cooldown d = 300000000000 \<and>
     (\<forall>actor now. actor \<noteq> [] \<longrightarrow> (\<forall>x \<in> set h. snd x \<le> now) \<longrightarrow>
        filter (\<lambda>t. t > now - w) (d_seen d actor) = filter (\<lambda>t. t > now - w) (times_of actor h)) \<and>
     (\<forall>x \<in> set alerts. x \<in> set h) \<and>
     (\<forall>actor. case d_alerted d actor of
        None \<Rightarrow> actor \<notin> fst ` set alerts
      | Some l \<Rightarrow> (actor, l) \<in> set alerts \<and> (\<forall>t. (actor, t) \<in> set alerts \<longrightarrow> t \<le> l))"

lemma Observe_iff:
  assumes "tracks th w h alerts d" and "\<And>x. x \<in> set h \<Longrightarrow> snd x \<le> now" and "actor \<noteq> []"
  shows "fst (Observe actor now d) \<longleftrightarrow>
    th < int (length (filter (\<lambda>t. t > now - w) (times_of actor h))) + 1 \<and>
    (\<forall>t. (actor, t) \<in> set alerts \<longrightarrow> 300000000000 \<le> now - t)"
proof -
  have seen: "filter (\<lambda>t. t > now - w) (d_seen d actor) = filter (\<lambda>t. t > now - w) (times_of actor h)"
    and cfg: "d_threshold d = th" "d_window d = w" "d_cooldown d = 300000000000"
    using assms by (auto simp: tracks_def)
  have al: "case d_alerted d actor of None \<Rightarrow> actor \<notin> fst ` set alerts
      | Some l \<Rightarrow> (actor, l) \<in> set alerts \<and> (\<forall>t. (actor, t) \<in> set alerts \<longrightarrow> t \<le> l)"
    using assms(1) by (simp add: tracks_def)
  have cool: "(case d_alerted d actor of None \<Rightarrow> False | Some l \<Rightarrow> now - l < d_cooldown d) \<longleftrightarrow>
      \<not> (\<forall>t. (actor, t) \<in> set alerts \<longrightarrow> 300000000000 \<le> now - t)"
    using al by (cases "d_alerted d actor") (force simp: cfg)+
  show ?thesis using assms(3) by (auto simp: Observe_def Let_def cool cfg(1,2) seen)
qed

lemma Observe_tracks:
  assumes "tracks th w h alerts d" and "\<And>x. x \<in> set h \<Longrightarrow> snd x \<le> now" and "Observe actor now d = (fired, d')"
  shows "tracks th w (h @ [(actor, now)]) (alerts @ (if fired then [(actor, now)] else [])) d'"
proof (cases "actor = []")
  case True
  with assms(3) have "\<not> fired" "d' = d" by (auto simp: Observe_def)
  with True assms(1) show ?thesis by (auto simp: tracks_def times_of_def)
next
  case False
  note T = assms(1) [unfolded tracks_def]
  have seen': "d_seen d' = (d_seen d)(actor := filter (\<lambda>t. t > now - w) (d_seen d actor) @ [now])"
    and cfg: "d_threshold d' = th" "d_window d' = w" "d_cooldown d' = 300000000000"
    and al: "d_alerted d' = (if fired then (d_alerted d)(actor \<mapsto> now) else d_alerted d)"
    using assms(3) False T by (auto simp: Observe_def Let_def split: if_splits)
  have seen: "filter (\<lambda>t. t > n - w) (d_seen d' a) = filter (\<lambda>t. t > n - w) (times_of a (h @ [(actor, now)]))"
    if "a \<noteq> []" and n: "\<forall>x \<in> set (h @ [(actor, now)]). snd x \<le> n" for a n
  proof -
    have old: "filter (\<lambda>t. t > n - w) (d_seen d a) = filter (\<lambda>t. t > n - w) (times_of a h)" using T that by auto
    have "filter (\<lambda>t. t > n - w) (filter (\<lambda>t. t > now - w) ts) = filter (\<lambda>t. t > n - w) ts" for ts
      using n by (induction ts) auto
    then show ?thesis using old by (auto simp: seen' times_of_def)
  qed
  have le: "t \<le> now" if "(a, t) \<in> set alerts" for a t using that T assms(2) by fastforce
  have "case d_alerted d' a of None \<Rightarrow> a \<notin> fst ` set (alerts @ (if fired then [(actor, now)] else []))
      | Some l \<Rightarrow> (a, l) \<in> set (alerts @ (if fired then [(actor, now)] else [])) \<and>
          (\<forall>t. (a, t) \<in> set (alerts @ (if fired then [(actor, now)] else [])) \<longrightarrow> t \<le> l)" for a
  proof -
    have "case d_alerted d a of None \<Rightarrow> a \<notin> fst ` set alerts
      | Some l \<Rightarrow> (a, l) \<in> set alerts \<and> (\<forall>t. (a, t) \<in> set alerts \<longrightarrow> t \<le> l)" using T by blast
    then show ?thesis using le by (auto simp: al split: option.splits)
  qed
  with seen cfg T show ?thesis unfolding tracks_def by auto
qed

lemma observe_run_tracks:
  "sorted (map snd h) \<Longrightarrow> observe_run h (detector_New th w) = (alerts, d) \<Longrightarrow> tracks th w h alerts d"
proof (induction h arbitrary: alerts d rule: rev_induct)
  case Nil
  then show ?case by (auto simp: tracks_def detector_New_def times_of_def)
next
  case (snoc x h)
  obtain actor now where x: "x = (actor, now)" by (metis prod.exhaust)
  obtain al1 d1 where r: "observe_run h (detector_New th w) = (al1, d1)" by (metis prod.exhaust)
  obtain fired d2 where o: "Observe actor now d1 = (fired, d2)" by (metis prod.exhaust)
  have "tracks th w h al1 d1" using snoc.IH r snoc.prems(1) by (simp add: sorted_append)
  moreover have "\<And>y. y \<in> set h \<Longrightarrow> snd y \<le> now" using snoc.prems(1) by (auto simp: sorted_append x)
  ultimately have "tracks th w (h @ [(actor, now)]) (al1 @ (if fired then [(actor, now)] else [])) d2"
    using o by (rule Observe_tracks)
  with snoc.prems(2) r o show ?case by (simp add: observe_run_snoc x)
qed

text \<open>
  C14. The anomaly detector implements its specification although it forgets old actions: after any
  history of observations with a clock that does not run backwards, the next action of an actor fires
  an alert exactly when the actor's actions in the whole history that lie inside the window, this one
  included, exceed the threshold, and the actor's alerts so far are all at least five minutes old.
\<close>

theorem detector_exact:
  assumes "sorted (map snd h)" and "observe_run h (detector_New th w) = (alerts, d)"
    and "\<And>x. x \<in> set h \<Longrightarrow> snd x \<le> now" and "actor \<noteq> []"
  shows "fst (Observe actor now d) \<longleftrightarrow>
    th < int (length (filter (\<lambda>t. t > now - w) (times_of actor h))) + 1 \<and>
    (\<forall>t. (actor, t) \<in> set alerts \<longrightarrow> 300000000000 \<le> now - t)"
  using Observe_iff [OF observe_run_tracks [OF assms(1,2)] assms(3,4)] by simp

theorem detector_exact_witness:
  "\<exists>alerts d. observe_run [(''eve'', 1), (''eve'', 5)] (detector_New 2 10) = (alerts, d) \<and> fst (Observe ''eve'' 9 d) \<and>
     \<not> fst (Observe ''eve'' 12 d)"
proof -
  obtain alerts d where run: "observe_run [(''eve'', 1), (''eve'', 5)] (detector_New 2 10) = (alerts, d)"
    by (metis prod.exhaust)
  then have "alerts = []" by (simp add: Observe_def detector_New_def Let_def)
  moreover have "snd x \<le> n" if "x \<in> set [(''eve'', 1), (''eve'', 5)]" "n = 9 \<or> n = 12" for x :: "string \<times> int" and n
    using that by auto
  ultimately have "fst (Observe ''eve'' 9 d)" "\<not> fst (Observe ''eve'' 12 d)"
    using detector_exact [OF _ run, of 9 "''eve''"] detector_exact [OF _ run, of 12 "''eve''"]
    by (simp_all add: times_of_def)
  with run show ?thesis by blast
qed

end
