(* ===== verification/Queue.thy ===== *)
theory Queue
  imports Store
begin

text \<open>
  Station queue management of infra-api (src/services/go/infra-api/internal/handlers/queue.go). Joining
  counts the active entries and inserts the new one in two statements without a lock, so it is the two
  steps \<open>join_count\<close> and \<open>join_insert\<close>; completing an entry is one transaction followed by the separate
  promotion of the next bus. \<open>fl\<close> rounds an exact result to \<open>float64\<close>. Unique indexes and foreign keys are
  those of src/infra/sql/migrations/0005_missing_schemas.sql.
\<close>

section \<open>Rows\<close>

record queue_entry =
  q_id :: string
  q_station_id :: string
  q_bus_id :: string
  q_joined_at :: int
  q_status :: string
  q_completed_at :: "int option"

record fuel_station =
  fs_id :: string
  fs_status :: "string option"
  fs_type :: "string option"
  fs_available_kg :: "rat option"
  fs_available_kwh :: "rat option"
  fs_name :: string
  fs_capacity_kg :: "rat option"
  fs_charger_count :: "int option"
  fs_geom :: "(rat \<times> rat) option"

record queue_store =
  station_queue :: "queue_entry list"
  fuel_stations :: "fuel_station list"
  fleet_vehicles :: "string list"

text \<open>What the API adds to a row: position and estimated wait, or the dispensed amount.\<close>

datatype queue_extra =
    NoExtra
  | Waiting int int
  | Dispensed rat string rat "(rat \<times> rat) option"

definition active_entry :: "queue_entry \<Rightarrow> bool" where
  "active_entry q \<longleftrightarrow> q_status q \<in> {''waiting'', ''serving''}"

definition inventoryColumn :: "string \<Rightarrow> string \<times> string" where
  "inventoryColumn stationType =
     (if stationType = ''ev_charger'' then (''available_kwh'', ''kwh'')
      else if stationType = ''diesel'' then (''available_kg'', ''liters'')
      else if stationType = ''cng'' then (''available_kg'', ''kg'')
      else (''available_kg'', ''kg''))"

section \<open>Waiting times\<close>

definition service_minutes :: "queue_entry \<Rightarrow> rat" where
  "service_minutes q = (case q_completed_at q of None \<Rightarrow> 0 | Some c \<Rightarrow> of_int (c - q_joined_at q) / 60000000000)"

definition avgServiceMinutes :: "db_env \<Rightarrow> (rat \<Rightarrow> rat) \<Rightarrow> string \<Rightarrow> queue_store \<Rightarrow> rat" where
  "avgServiceMinutes E fl stationID s =
     (let done = filter (\<lambda>q. q_station_id q = stationID \<and> q_status q = ''completed'' \<and> q_completed_at q \<noteq> None) (station_queue s);
          mins = fl (sum_list (map service_minutes done) / of_nat (length done)) in
      if fault E ''average service time'' \<or> done = [] \<or> mins \<le> 0 then 15 else mins)"

definition est_wait :: "(rat \<Rightarrow> rat) \<Rightarrow> int \<Rightarrow> rat \<Rightarrow> int" where
  "est_wait fl ahead mins = \<lfloor>fl (of_int ahead * mins)\<rfloor>"

section \<open>Joining\<close>

definition join_count ::
  "db_env \<Rightarrow> string \<Rightarrow> string option \<Rightarrow> queue_store \<Rightarrow> (queue_entry \<times> queue_extra) resp + string \<times> int" where
  "join_count E stationID body s =
     (case body of
        None \<Rightarrow> Inl (Err 400 ''body must include \"bus_id\"'')
      | Some busID \<Rightarrow>
          if busID = [] then Inl (Err 400 ''body must include \"bus_id\"'')
          else if fault E ''begin queue join'' then Inl (Internal ''begin queue join'')
          else if fault E ''load station for queue join'' then Inl (Internal ''load station for queue join'')
          else (case find (\<lambda>st. fs_id st = stationID) (fuel_stations s) of
             None \<Rightarrow> Inl (Err 404 ''station not found'')
           | Some st \<Rightarrow>
               let status = (case fs_status st of None \<Rightarrow> ''unknown'' | Some x \<Rightarrow> x) in
               if status \<noteq> ''online'' then Inl (Err 409 (''station is not online (status '' @ status @ '')''))
               else if fault E ''count queue'' then Inl (Internal ''count queue'')
               else Inr (busID, int (length (filter (\<lambda>q. q_station_id q = stationID \<and> active_entry q) (station_queue s))))))"

definition join_insert ::
  "db_env \<Rightarrow> (rat \<Rightarrow> rat) \<Rightarrow> string \<Rightarrow> string \<Rightarrow> int \<Rightarrow> queue_store \<Rightarrow> (queue_entry \<times> queue_extra) resp \<times> queue_store" where
  "join_insert E fl stationID busID active s =
     (let q = \<lparr>q_id = new_id E 0, q_station_id = stationID, q_bus_id = busID, q_joined_at = now E,
               q_status = (if active = 0 then ''serving'' else ''waiting''), q_completed_at = None\<rparr> in
      if fault E ''join station queue'' then (Internal ''join station queue'', s)
      else if \<exists>x \<in> set (station_queue s). q_id x = q_id q \<or>
                q_station_id x = stationID \<and> q_bus_id x = busID \<and> active_entry x
      then (Err 409 ''bus already has an active queue entry at this station'', s)
      else if busID \<notin> set (fleet_vehicles s) \<or> (\<forall>st \<in> set (fuel_stations s). fs_id st \<noteq> stationID)
      then (Err 422 ''bus_id does not reference a known vehicle'', s)
      else if fault E ''commit queue join'' then (Internal ''commit queue join'', s)
      else
        let s1 = s\<lparr>station_queue := station_queue s @ [q]\<rparr> in
        (Reply 201 (q, if q_status q = ''waiting''
           then Waiting (active + 1) (est_wait fl active (avgServiceMinutes E fl stationID s1)) else NoExtra), s1))"

definition JoinStationQueue ::
  "db_env \<Rightarrow> (rat \<Rightarrow> rat) \<Rightarrow> string \<Rightarrow> string option \<Rightarrow> queue_store \<Rightarrow> (queue_entry \<times> queue_extra) resp \<times> queue_store" where
  "JoinStationQueue E fl stationID body s =
     (case join_count E stationID body s of
        Inl r \<Rightarrow> (r, s)
      | Inr (busID, active) \<Rightarrow> join_insert E fl stationID busID active s)"

section \<open>Listing\<close>

fun positions :: "(rat \<Rightarrow> rat) \<Rightarrow> rat \<Rightarrow> int \<Rightarrow> queue_entry list \<Rightarrow> (queue_entry \<times> queue_extra) list" where
  "positions fl mins k [] = []"
| "positions fl mins k (q # qs) =
     (if q_status q = ''serving'' then (q, NoExtra) # positions fl mins k qs
      else (q, Waiting (k + 1) (est_wait fl k mins)) # positions fl mins (k + 1) qs)"

definition ListStationQueue ::
  "db_env \<Rightarrow> (rat \<Rightarrow> rat) \<Rightarrow> string \<Rightarrow> queue_store \<Rightarrow> ((queue_entry \<times> queue_extra) list \<times> rat) resp" where
  "ListStationQueue E fl stationID s =
     (if fault E ''list station queue'' then Internal ''list station queue''
      else if fault E ''scan queue entry'' then Internal ''scan queue entry''
      else if fault E ''iterate station queue'' then Internal ''iterate station queue''
      else
        let mins = avgServiceMinutes E fl stationID s in
        Reply 200 (positions fl mins 0 (sort_key q_joined_at
          (filter (\<lambda>q. q_station_id q = stationID \<and> active_entry q) (station_queue s))), mins))"

section \<open>Leaving the dispenser\<close>

definition next_waiting :: "string \<Rightarrow> queue_entry list \<Rightarrow> queue_entry option" where
  "next_waiting stationID qs =
     (case sort_key q_joined_at (filter (\<lambda>q. q_station_id q = stationID \<and> q_status q = ''waiting'') qs) of
        [] \<Rightarrow> None
      | q # _ \<Rightarrow> Some q)"

definition advanceQueue :: "db_env \<Rightarrow> string \<Rightarrow> queue_store \<Rightarrow> queue_store" where
  "advanceQueue E stationID s =
     (if fault E ''advance station queue'' then s
      else case next_waiting stationID (station_queue s) of
        None \<Rightarrow> s
      | Some q \<Rightarrow>
          s\<lparr>station_queue := upd_rows (\<lambda>x. q_id x = q_id q) (\<lambda>x. x\<lparr>q_status := ''serving''\<rparr>) (station_queue s)\<rparr>)"

definition fs_avail :: "string \<Rightarrow> fuel_station \<Rightarrow> rat option" where
  "fs_avail column st = (if column = ''available_kwh'' then fs_available_kwh st else fs_available_kg st)"

definition fs_draw :: "string \<Rightarrow> rat \<Rightarrow> fuel_station \<Rightarrow> fuel_station" where
  "fs_draw column x st =
     (if column = ''available_kwh'' then st\<lparr>fs_available_kwh := map_option (\<lambda>a. a - x) (fs_available_kwh st)\<rparr>
      else st\<lparr>fs_available_kg := map_option (\<lambda>a. a - x) (fs_available_kg st)\<rparr>)"

definition or_zero :: "rat option \<Rightarrow> rat" where
  "or_zero x = (case x of None \<Rightarrow> 0 | Some a \<Rightarrow> a)"

text \<open>The transaction of \<open>CompleteStationQueueEntry\<close>; the body's two amounts are already read.\<close>

definition complete_tx ::
  "db_env \<Rightarrow> (rat \<Rightarrow> rat) \<Rightarrow> string \<Rightarrow> string \<Rightarrow> rat option \<Rightarrow> queue_store \<Rightarrow> (queue_entry \<times> queue_extra) resp \<times> queue_store" where
  "complete_tx E fl stationID entryID amount s =
     (let hit = (\<lambda>q. q_id q = entryID \<and> q_station_id q = stationID \<and> q_status q = ''serving'');
          mark = (\<lambda>q. q\<lparr>q_status := ''completed'', q_completed_at := Some (now E)\<rparr>) in
      if fault E ''begin queue complete'' then (Internal ''begin queue complete'', s)
      else if fault E ''complete queue entry'' then (Internal ''complete queue entry'', s)
      else case find hit (station_queue s) of
        None \<Rightarrow> (Err 409 ''queue entry not found or not in serving status'', s)
      | Some q \<Rightarrow>
          (case find (\<lambda>st. fs_id st = stationID) (fuel_stations s) of
             None \<Rightarrow> (Internal ''complete queue entry'', s)
           | Some st \<Rightarrow>
               let s1 = s\<lparr>station_queue := upd_rows hit mark (station_queue s)\<rparr> in
               if amount = None \<or> the amount \<le> 0
               then (if fault E ''commit queue complete'' then (Internal ''commit queue complete'', s)
                     else (Reply 200 (mark q, NoExtra), s1))
               else (case inventoryColumn (case fs_type st of None \<Rightarrow> ''h2'' | Some t \<Rightarrow> t) of (column, unt) \<Rightarrow>
                 let x = the amount; available = fl (or_zero (fs_avail column st)) in
                 if column = ''available_kwh'' \<and> fault E ''load station kwh inventory''
                 then (Internal ''load station kwh inventory'', s)
                 else if x > fl (available + 1 / 10 ^ 9) then (ErrWith 409 ''insufficient_inventory'' (q, NoExtra), s)
                 else if fault E ''decrement station inventory'' then (Internal ''decrement station inventory'', s)
                 else if fault E ''commit queue complete'' then (Internal ''commit queue complete'', s)
                 else
                   let after = fl (or_zero (fs_avail column (fs_draw column x st))) in
                   (Reply 200 (mark q, Dispensed x unt after (if column = ''available_kg'' then Some (x, after) else None)),
                    s1\<lparr>fuel_stations := upd_rows (\<lambda>y. fs_id y = stationID) (fs_draw column x) (fuel_stations s)\<rparr>))))"

definition CompleteStationQueueEntry ::
  "db_env \<Rightarrow> (rat \<Rightarrow> rat) \<Rightarrow> string \<Rightarrow> string \<Rightarrow> (rat option \<times> rat option) option \<Rightarrow> queue_store \<Rightarrow>
   (queue_entry \<times> queue_extra) resp \<times> queue_store" where
  "CompleteStationQueueEntry E fl stationID entryID body s =
     (case body of
        None \<Rightarrow> (Err 400 ''invalid JSON body'', s)
      | Some (dispensedKg, dispensedAmount) \<Rightarrow>
          let amount = (case dispensedAmount of None \<Rightarrow> dispensedKg | Some x \<Rightarrow> Some x) in
          if (case amount of None \<Rightarrow> False | Some x \<Rightarrow> x < 0) then (Err 400 ''dispensed amount must not be negative'', s)
          else (case complete_tx E fl stationID entryID amount s of
             (Reply n v, s1) \<Rightarrow> (Reply n v, advanceQueue E stationID s1)
           | (r, s1) \<Rightarrow> (r, s1)))"

text \<open>The update of \<open>LeaveStationQueue\<close>, one statement; the promotion that follows it is another one.\<close>

definition leave_mark ::
  "db_env \<Rightarrow> string \<Rightarrow> string \<Rightarrow> queue_store \<Rightarrow> queue_entry resp \<times> queue_store" where
  "leave_mark E stationID entryID s =
     (let hit = (\<lambda>q. q_id q = entryID \<and> q_station_id q = stationID \<and> active_entry q) in
      if fault E ''leave station queue'' then (Internal ''leave station queue'', s)
      else case find hit (station_queue s) of
        None \<Rightarrow> (Err 409 ''queue entry not found or already inactive'', s)
      | Some q \<Rightarrow>
          (Reply 200 (q\<lparr>q_status := ''left''\<rparr>),
           s\<lparr>station_queue := upd_rows hit (\<lambda>x. x\<lparr>q_status := ''left''\<rparr>) (station_queue s)\<rparr>))"

definition LeaveStationQueue ::
  "db_env \<Rightarrow> string \<Rightarrow> string \<Rightarrow> queue_store \<Rightarrow> queue_entry resp \<times> queue_store" where
  "LeaveStationQueue E stationID entryID s =
     (case leave_mark E stationID entryID s of
        (Reply n v, s1) \<Rightarrow> (Reply n v, advanceQueue E stationID s1)
      | (r, s1) \<Rightarrow> (r, s1))"

section \<open>Rows changed one at a time\<close>

lemma upd_one_row:
  assumes d: "distinct (map k xs)" and x: "x \<in> set xs" "P x" and key: "\<And>y. P y \<Longrightarrow> k y = k x"
  shows "\<exists>as bs. xs = as @ x # bs \<and> upd_rows P f xs = as @ f x # bs"
proof -
  obtain as bs where xs: "xs = as @ x # bs" using x(1) by (meson split_list)
  from d xs have "\<not> P y" if "y \<in> set as \<union> set bs" for y
    using key [of y] that by (auto simp: image_iff)
  then have "upd_rows P f as = as" "upd_rows P f bs = bs" by (auto intro!: upd_rows_none)
  with xs x(2) show ?thesis by auto
qed

text \<open>The serving and the waiting entries of a station.\<close>

definition in_state :: "string \<Rightarrow> string \<Rightarrow> queue_entry list \<Rightarrow> queue_entry list" where
  "in_state st status xs = filter (\<lambda>q. q_station_id q = st \<and> q_status q = status) xs"

lemma in_state_append [simp]: "in_state st p (xs @ ys) = in_state st p xs @ in_state st p ys"
  by (simp add: in_state_def)

lemma in_state_Cons [simp]:
  "in_state st p (q # qs) = (if q_station_id q = st \<and> q_status q = p then [q] else []) @ in_state st p qs"
  by (simp add: in_state_def)

lemma in_state_Nil [simp]: "in_state st p [] = []"
  by (simp add: in_state_def)

lemma next_waiting_cases:
  "next_waiting st xs = None \<longleftrightarrow> in_state st ''waiting'' xs = []"
  "next_waiting st xs = Some q \<Longrightarrow> q \<in> set xs \<and> q_station_id q = st \<and> q_status q = ''waiting''"
proof -
  let ?w = "sort_key q_joined_at (in_state st ''waiting'' xs)"
  have n: "next_waiting st xs = (case ?w of [] \<Rightarrow> None | q # _ \<Rightarrow> Some q)"
    by (simp add: next_waiting_def in_state_def)
  have "set ?w = set (in_state st ''waiting'' xs)" by simp
  then show "next_waiting st xs = None \<longleftrightarrow> in_state st ''waiting'' xs = []"
    by (cases ?w) (auto simp: n)
  assume "next_waiting st xs = Some q"
  then obtain r where "?w = q # r" by (auto simp: n split: list.splits)
  then have "q \<in> set ?w" by (metis list.set_intros(1))
  then show "q \<in> set xs \<and> q_station_id q = st \<and> q_status q = ''waiting''" by (simp add: in_state_def)
qed

lemma next_waiting_oldest:
  assumes "next_waiting st xs = Some q" "w \<in> set (in_state st ''waiting'' xs)"
  shows "q_joined_at q \<le> q_joined_at w"
proof -
  let ?w = "sort_key q_joined_at (in_state st ''waiting'' xs)"
  from assms(1) obtain r where r: "?w = q # r"
    by (auto simp: next_waiting_def in_state_def split: list.splits)
  moreover have "sorted (map q_joined_at ?w)" by (rule sorted_sort_key)
  moreover have "w \<in> set ?w" using assms(2) by simp
  ultimately show ?thesis by auto
qed

section \<open>Each step changes one row\<close>

lemma advance_moves:
  assumes d: "distinct (map q_id (station_queue s))"
  shows "(station_queue (advanceQueue E st s) = station_queue s \<and>
           (fault E ''advance station queue'' \<or> in_state st ''waiting'' (station_queue s) = [])) \<or>
         (\<exists>as q bs. station_queue s = as @ q # bs \<and> next_waiting st (station_queue s) = Some q \<and>
            station_queue (advanceQueue E st s) = as @ q\<lparr>q_status := ''serving''\<rparr> # bs)"
proof (cases "next_waiting st (station_queue s)")
  case None
  then have "in_state st ''waiting'' (station_queue s) = []" by (simp only: next_waiting_cases(1))
  with None show ?thesis by (simp add: advanceQueue_def)
next
  case (Some q)
  then have "q \<in> set (station_queue s)" by (simp add: next_waiting_cases(2))
  from upd_one_row [OF d this, where P = "\<lambda>x. q_id x = q_id q" and f = "\<lambda>x. x\<lparr>q_status := ''serving''\<rparr>"]
  obtain as bs where "station_queue s = as @ q # bs"
    "upd_rows (\<lambda>x. q_id x = q_id q) (\<lambda>x. x\<lparr>q_status := ''serving''\<rparr>) (station_queue s) =
       as @ q\<lparr>q_status := ''serving''\<rparr> # bs"
    by blast
  moreover have "station_queue (advanceQueue E st s) =
      (if fault E ''advance station queue'' then station_queue s
       else upd_rows (\<lambda>x. q_id x = q_id q) (\<lambda>x. x\<lparr>q_status := ''serving''\<rparr>) (station_queue s))"
    using Some by (simp add: advanceQueue_def)
  ultimately show ?thesis using Some
    by (cases "fault E ''advance station queue''") (auto simp only: if_True if_False)
qed

lemma complete_tx_result:
  fixes E fl st eid amount s
  defines "hit \<equiv> \<lambda>q. q_id q = eid \<and> q_station_id q = st \<and> q_status q = ''serving''"
  defines "mark \<equiv> \<lambda>q. q\<lparr>q_status := ''completed'', q_completed_at := Some (now E)\<rparr>"
  shows "(\<nexists>n v. fst (complete_tx E fl st eid amount s) = Reply n v) \<and> snd (complete_tx E fl st eid amount s) = s \<or>
   (\<exists>n v q. fst (complete_tx E fl st eid amount s) = Reply n v \<and> find hit (station_queue s) = Some q \<and>
      station_queue (snd (complete_tx E fl st eid amount s)) = upd_rows hit mark (station_queue s))"
proof -
  define P where "P r \<longleftrightarrow> (\<nexists>n v. fst r = Reply n v) \<and> snd r = s \<or>
    (\<exists>n v q. fst r = Reply n v \<and> find hit (station_queue s) = Some q \<and>
       station_queue (snd r) = upd_rows hit mark (station_queue s))"
    for r :: "(queue_entry \<times> queue_extra) resp \<times> queue_store"
  have fail: "P (Internal m, s)" "P (Err n m, s)" "P (ErrWith n m v, s)" for m n v
    by (simp_all add: P_def)
  have good: "find hit (station_queue s) = Some q \<Longrightarrow> station_queue s1 = upd_rows hit mark (station_queue s) \<Longrightarrow>
    P (Reply n v, s1)" for n v q s1
    by (simp add: P_def)
  have "P (complete_tx E fl st eid amount s)"
    unfolding complete_tx_def Let_def hit_def [symmetric] mark_def [symmetric]
    by (intro branches [where P = P] fail good) simp_all
  then show ?thesis by (simp add: P_def)
qed

lemma complete_tx_moves:
  assumes d: "distinct (map q_id (station_queue s))"
  shows "(\<nexists>n v. fst (complete_tx E fl st eid amount s) = Reply n v) \<and> snd (complete_tx E fl st eid amount s) = s \<or>
     (\<exists>n v as q bs. fst (complete_tx E fl st eid amount s) = Reply n v \<and> station_queue s = as @ q # bs \<and>
        q_id q = eid \<and> q_station_id q = st \<and> q_status q = ''serving'' \<and>
        station_queue (snd (complete_tx E fl st eid amount s)) =
          as @ q\<lparr>q_status := ''completed'', q_completed_at := Some (now E)\<rparr> # bs)"
  using complete_tx_result [of E fl st eid amount s]
proof (elim disjE exE conjE)
  fix n v q
  let ?hit = "\<lambda>q. q_id q = eid \<and> q_station_id q = st \<and> q_status q = ''serving''"
  assume r: "fst (complete_tx E fl st eid amount s) = Reply n v" and q: "find ?hit (station_queue s) = Some q"
    and eq: "station_queue (snd (complete_tx E fl st eid amount s)) =
        upd_rows ?hit (\<lambda>q. q\<lparr>q_status := ''completed'', q_completed_at := Some (now E)\<rparr>) (station_queue s)"
  from find_Some_prop [OF q] have h: "?hit q" "q \<in> set (station_queue s)" by auto
  from upd_one_row [OF d h(2), where P = ?hit and f = "\<lambda>q. q\<lparr>q_status := ''completed'', q_completed_at := Some (now E)\<rparr>"]
    h obtain as bs where "station_queue s = as @ q # bs"
    "station_queue (snd (complete_tx E fl st eid amount s)) =
       as @ q\<lparr>q_status := ''completed'', q_completed_at := Some (now E)\<rparr> # bs"
    unfolding eq by auto
  with r h show ?thesis by blast
qed blast

lemma leave_mark_moves:
  assumes d: "distinct (map q_id (station_queue s))"
  shows "(\<nexists>n v. fst (leave_mark E st eid s) = Reply n v) \<and> snd (leave_mark E st eid s) = s \<or>
     (\<exists>n v as q bs. fst (leave_mark E st eid s) = Reply n v \<and> station_queue s = as @ q # bs \<and>
        q_id q = eid \<and> q_station_id q = st \<and> active_entry q \<and>
        station_queue (snd (leave_mark E st eid s)) = as @ q\<lparr>q_status := ''left''\<rparr> # bs)"
proof -
  let ?hit = "\<lambda>q. q_id q = eid \<and> q_station_id q = st \<and> active_entry q"
  show ?thesis
  proof (cases "find ?hit (station_queue s)")
    case None
    then show ?thesis by (auto simp: leave_mark_def Let_def)
  next
    case (Some q)
    from find_Some_prop [OF Some] have h: "?hit q" "q \<in> set (station_queue s)" by auto
    from upd_one_row [OF d h(2), where P = ?hit and f = "\<lambda>x. x\<lparr>q_status := ''left''\<rparr>"] h Some
    show ?thesis by (cases "fault E ''leave station queue''") (auto simp: leave_mark_def Let_def)
  qed
qed

section \<open>One active entry per bus and station\<close>

definition one_active :: "queue_entry list \<Rightarrow> bool" where
  "one_active xs \<longleftrightarrow> distinct (map q_id xs) \<and>
     (\<forall>st b. length (filter (\<lambda>q. q_station_id q = st \<and> q_bus_id q = b \<and> active_entry q) xs) \<le> 1)"

text \<open>
  One database step of some request at the stations: an insertion whose count may have been read at any
  earlier moment, the transaction of a completion, the update of a leave, or a promotion.
\<close>

inductive queue_step :: "queue_store \<Rightarrow> queue_store \<Rightarrow> bool" where
  insert_entry: "queue_step s (snd (join_insert E fl st bus active s))"
| complete_entry: "queue_step s (snd (complete_tx E fl st eid amount s))"
| leave_entry: "queue_step s (snd (leave_mark E st eid s))"
| advance: "queue_step s (advanceQueue E st s)"

lemma one_move_keeps_one_active:
  assumes "one_active (as @ q # bs)" "active_entry q"
    "q_id q' = q_id q" "q_station_id q' = q_station_id q" "q_bus_id q' = q_bus_id q"
  shows "one_active (as @ q' # bs)"
proof -
  have "length (filter (\<lambda>q. q_station_id q = st \<and> q_bus_id q = b \<and> active_entry q) (as @ q' # bs)) \<le>
        length (filter (\<lambda>q. q_station_id q = st \<and> q_bus_id q = b \<and> active_entry q) (as @ q # bs))" for st b
    using assms by simp
  moreover have "distinct (map q_id (as @ q' # bs))" using assms by (simp add: one_active_def)
  ultimately show ?thesis using assms(1) unfolding one_active_def by (meson le_trans)
qed

lemma join_insert_result:
  "snd (join_insert E fl st bus active s) = s \<and> (\<nexists>n v. fst (join_insert E fl st bus active s) = Reply n v) \<or>
   (\<exists>n v q. fst (join_insert E fl st bus active s) = Reply n v \<and> fst v = q \<and>
      station_queue (snd (join_insert E fl st bus active s)) = station_queue s @ [q] \<and>
      q_station_id q = st \<and> q_bus_id q = bus \<and> q_status q = (if active = 0 then ''serving'' else ''waiting'') \<and>
      (\<forall>x \<in> set (station_queue s). q_id x \<noteq> q_id q \<and> \<not> (q_station_id x = st \<and> q_bus_id x = bus \<and> active_entry x)))"
proof -
  define P where "P r \<longleftrightarrow> snd r = s \<and> (\<nexists>n v. fst r = Reply n v) \<or>
    (\<exists>n v q. fst r = Reply n v \<and> fst v = q \<and> station_queue (snd r) = station_queue s @ [q] \<and>
      q_station_id q = st \<and> q_bus_id q = bus \<and> q_status q = (if active = 0 then ''serving'' else ''waiting'') \<and>
      (\<forall>x \<in> set (station_queue s). q_id x \<noteq> q_id q \<and> \<not> (q_station_id x = st \<and> q_bus_id x = bus \<and> active_entry x)))"
    for r :: "(queue_entry \<times> queue_extra) resp \<times> queue_store"
  have fail: "P (Internal m, s)" "P (Err n m, s)" for m n by (simp_all add: P_def)
  have "P (join_insert E fl st bus active s)"
    unfolding join_insert_def Let_def
    by (intro branches [where P = P] fail) (simp add: P_def)
  then show ?thesis by (simp add: P_def)
qed

lemma filter_singleton_le: "(\<forall>x \<in> set xs. \<not> P x) \<Longrightarrow> length (filter P (xs @ [q])) \<le> 1"
  by (simp add: filter_False)

lemma one_active_distinct: "one_active xs \<Longrightarrow> distinct (map q_id xs)"
  by (simp add: one_active_def)

lemma queue_step_one_active:
  assumes "queue_step s s'" "one_active (station_queue s)"
  shows "one_active (station_queue s')"
  using assms(1)
proof cases
  case (insert_entry E fl st bus active)
  show ?thesis
    using join_insert_result [of E fl st bus active s] unfolding insert_entry(1) [symmetric]
  proof (elim disjE exE conjE)
    fix n v q
    assume app: "station_queue s' = station_queue s @ [q]" and q: "q_station_id q = st" "q_bus_id q = bus"
      and fresh: "\<forall>x \<in> set (station_queue s). q_id x \<noteq> q_id q \<and> \<not> (q_station_id x = st \<and> q_bus_id x = bus \<and> active_entry x)"
    have "length (filter (\<lambda>x. q_station_id x = a \<and> q_bus_id x = b \<and> active_entry x) (station_queue s @ [q])) \<le> 1" for a b
    proof (cases "a = st \<and> b = bus")
      case True
      with fresh show ?thesis by (intro filter_singleton_le) blast
    next
      case False
      with q assms(2) show ?thesis by (auto simp: one_active_def)
    qed
    moreover have "distinct (map q_id (station_queue s @ [q]))" using assms(2) fresh by (auto simp: one_active_def)
    ultimately show ?thesis unfolding app one_active_def by blast
  qed (use assms(2) in simp)
next
  case (complete_entry E fl st eid amount)
  from complete_tx_moves [OF one_active_distinct [OF assms(2)], of E fl st eid amount] show ?thesis
    unfolding complete_entry(1) [symmetric]
  proof (elim disjE exE conjE)
    fix n v as q bs
    assume "station_queue s = as @ q # bs" "q_status q = ''serving''"
      "station_queue s' = as @ q\<lparr>q_status := ''completed'', q_completed_at := Some (now E)\<rparr> # bs"
    with assms(2) show ?thesis
      by (simp only: ) (rule one_move_keeps_one_active [where q = q], simp_all add: active_entry_def)
  qed (use assms(2) in simp)
next
  case (leave_entry E st eid)
  from leave_mark_moves [OF one_active_distinct [OF assms(2)], of E st eid] show ?thesis
    unfolding leave_entry(1) [symmetric]
  proof (elim disjE exE conjE)
    fix n v as q bs
    assume "station_queue s = as @ q # bs" "active_entry q" "station_queue s' = as @ q\<lparr>q_status := ''left''\<rparr> # bs"
    with assms(2) show ?thesis
      by (simp only: ) (rule one_move_keeps_one_active [where q = q], simp_all)
  qed (use assms(2) in simp)
next
  case (advance E st)
  from advance_moves [OF one_active_distinct [OF assms(2)], of E st] show ?thesis
    unfolding advance(1) [symmetric]
  proof (elim disjE exE conjE)
    fix as q bs
    assume "station_queue s = as @ q # bs" "next_waiting st (station_queue s) = Some q"
      "station_queue s' = as @ q\<lparr>q_status := ''serving''\<rparr> # bs"
    moreover from this(2) have "active_entry q" by (simp add: next_waiting_cases(2) active_entry_def)
    ultimately show ?thesis using assms(2)
      by (simp only: ) (rule one_move_keeps_one_active [where q = q], simp_all)
  qed (use assms(2) in simp_all)
qed

section \<open>Service in order\<close>

text \<open>At most one bus at the dispenser, and nobody waits for a free one.\<close>

definition queue_ok :: "queue_entry list \<Rightarrow> bool" where
  "queue_ok xs \<longleftrightarrow> distinct (map q_id xs) \<and>
     (\<forall>st. length (in_state st ''serving'' xs) \<le> 1 \<and>
           (in_state st ''serving'' xs = [] \<longrightarrow> in_state st ''waiting'' xs = []))"

text \<open>
  Whole requests, one after the other, whose promotions do not fail, and in which a bus that leaves is not
  a waiting one.
\<close>

inductive queue_run :: "queue_store \<Rightarrow> queue_store \<Rightarrow> bool" where
  join: "queue_run s (snd (JoinStationQueue E fl st body s))"
| complete: "\<not> fault E ''advance station queue'' \<Longrightarrow> queue_run s (snd (CompleteStationQueueEntry E fl st eid body s))"
| leave: "\<not> fault E ''advance station queue'' \<Longrightarrow>
    (\<forall>q \<in> set (station_queue s). q_id q = eid \<longrightarrow> q_status q \<noteq> ''waiting'') \<Longrightarrow>
    queue_run s (snd (LeaveStationQueue E st eid s))"

lemma advance_other:
  assumes "distinct (map q_id (station_queue s))" "st' \<noteq> st"
  shows "in_state st' p (station_queue (advanceQueue E st s)) = in_state st' p (station_queue s)"
  using advance_moves [OF assms(1), of E st]
proof (elim disjE exE conjE)
  fix as q bs
  assume "station_queue s = as @ q # bs" "next_waiting st (station_queue s) = Some q"
    "station_queue (advanceQueue E st s) = as @ q\<lparr>q_status := ''serving''\<rparr> # bs"
  moreover from this(2) have "q_station_id q = st" by (simp add: next_waiting_cases(2))
  ultimately show ?thesis using assms(2) by simp
qed simp_all

lemma advance_same:
  assumes "distinct (map q_id (station_queue s))" "in_state st ''serving'' (station_queue s) = []"
    "\<not> fault E ''advance station queue''"
  shows "in_state st ''serving'' (station_queue (advanceQueue E st s)) =
      map (\<lambda>q. q\<lparr>q_status := ''serving''\<rparr>) (case next_waiting st (station_queue s) of None \<Rightarrow> [] | Some q \<Rightarrow> [q])"
    "in_state st ''waiting'' (station_queue s) = [] \<Longrightarrow>
     in_state st ''waiting'' (station_queue (advanceQueue E st s)) = []"
proof -
  have "in_state st ''serving'' (station_queue (advanceQueue E st s)) =
      map (\<lambda>q. q\<lparr>q_status := ''serving''\<rparr>) (case next_waiting st (station_queue s) of None \<Rightarrow> [] | Some q \<Rightarrow> [q]) \<and>
    (in_state st ''waiting'' (station_queue s) = [] \<longrightarrow>
     in_state st ''waiting'' (station_queue (advanceQueue E st s)) = [])"
    using advance_moves [OF assms(1), of E st]
  proof (elim disjE exE conjE)
    assume "in_state st ''waiting'' (station_queue s) = []"
      and eq: "station_queue (advanceQueue E st s) = station_queue s"
    moreover from this(1) have "next_waiting st (station_queue s) = None" by (simp only: next_waiting_cases(1))
    ultimately show ?thesis using assms(2) by (simp only: eq) simp
  next
    fix as q bs
    assume xs: "station_queue s = as @ q # bs" and q: "next_waiting st (station_queue s) = Some q"
      and ys: "station_queue (advanceQueue E st s) = as @ q\<lparr>q_status := ''serving''\<rparr> # bs"
    from next_waiting_cases(2) [OF q] have w: "q_station_id q = st" "q_status q = ''waiting''" by auto
    from assms(2) w have "in_state st ''serving'' as = []" "in_state st ''serving'' bs = []"
      by (simp_all add: xs)
    then show ?thesis using w by (simp only: q ys) (simp add: xs)
  qed (use assms(3) in simp)
  then show "in_state st ''serving'' (station_queue (advanceQueue E st s)) =
      map (\<lambda>q. q\<lparr>q_status := ''serving''\<rparr>) (case next_waiting st (station_queue s) of None \<Rightarrow> [] | Some q \<Rightarrow> [q])"
    "in_state st ''waiting'' (station_queue s) = [] \<Longrightarrow>
     in_state st ''waiting'' (station_queue (advanceQueue E st s)) = []" by auto
qed

lemma advance_ids [simp]: "map q_id (station_queue (advanceQueue E st s)) = map q_id (station_queue s)"
  by (simp add: advanceQueue_def map_upd_rows split: option.split)

text \<open>A dispenser that was just freed: the promotion restores the invariant.\<close>

lemma free_then_advance:
  assumes ok: "queue_ok (as @ q # bs)" and q: "q_station_id q = st" "q_status q = ''serving''"
    and q': "q_id q' = q_id q" "q_station_id q' = st" "q_status q' \<notin> {''serving'', ''waiting''}"
    and s1: "station_queue s1 = as @ q' # bs" and nf: "\<not> fault E ''advance station queue''"
  shows "queue_ok (station_queue (advanceQueue E st s1)) \<and> in_state st ''serving'' (station_queue s1) = []"
proof -
  have d: "distinct (map q_id (station_queue s1))" using ok q'(1) by (simp add: queue_ok_def s1)
  have "length (in_state st ''serving'' (as @ q # bs)) \<le> 1" using ok by (simp only: queue_ok_def)
  then have free: "in_state st ''serving'' (station_queue s1) = []" using q q' by (simp add: s1)
  have other: "in_state st' p (station_queue s1) = in_state st' p (as @ q # bs)" if "st' \<noteq> st" for st' p
    using that q q' by (simp add: s1)
  note same = advance_same [OF d free nf]
  have "length (in_state a ''serving'' (station_queue (advanceQueue E st s1))) \<le> 1 \<and>
    (in_state a ''serving'' (station_queue (advanceQueue E st s1)) = [] \<longrightarrow>
     in_state a ''waiting'' (station_queue (advanceQueue E st s1)) = [])" for a
  proof (cases "a = st")
    case True
    show ?thesis
    proof (cases "next_waiting st (station_queue s1)")
      case None
      then have "in_state st ''waiting'' (station_queue s1) = []" by (simp only: next_waiting_cases(1))
      from same(2) [OF this] same(1) None True show ?thesis by simp
    qed (use same(1) True in simp)
  next
    case False
    from ok show ?thesis unfolding advance_other [OF d False] other [OF False] queue_ok_def by blast
  qed
  with d free show ?thesis by (simp add: queue_ok_def)
qed

text \<open>The outcome of a request that frees the dispenser: refused and unchanged, or answered and promoted.\<close>

definition freed :: "string \<Rightarrow> queue_store \<Rightarrow> 'a resp \<times> queue_store \<Rightarrow> bool" where
  "freed st s r \<longleftrightarrow> snd r = s \<and> (\<nexists>n v. fst r = Reply n v) \<or>
     (\<exists>n v. fst r = Reply n v) \<and> queue_ok (station_queue (snd r)) \<and>
     in_state st ''serving'' (station_queue (snd r)) =
       map (\<lambda>q. q\<lparr>q_status := ''serving''\<rparr>) (case next_waiting st (station_queue s) of None \<Rightarrow> [] | Some q \<Rightarrow> [q])"

lemma freed_fail: "freed st s (Err n m, s)" "freed st s (Internal m, s)" "freed st s (ErrWith n m v, s)"
  by (simp_all add: freed_def)

lemma freedI:
  assumes ok: "queue_ok (station_queue s)" and nf: "\<not> fault E ''advance station queue''"
    and xs: "station_queue s = as @ q # bs" and q: "q_station_id q = st" "q_status q = ''serving''"
    and q': "q_id q' = q_id q" "q_station_id q' = st" "q_status q' \<notin> {''serving'', ''waiting''}"
    and s1: "station_queue s1 = as @ q' # bs"
  shows "freed st s (Reply n v, advanceQueue E st s1)"
proof -
  have d: "distinct (map q_id (station_queue s1))" using ok q'(1) by (simp add: queue_ok_def s1 xs)
  from free_then_advance [OF ok [unfolded xs] q q' s1 nf]
  have adv: "queue_ok (station_queue (advanceQueue E st s1))" "in_state st ''serving'' (station_queue s1) = []" by auto
  have "in_state st ''waiting'' (station_queue s1) = in_state st ''waiting'' (station_queue s)"
    using q q' by (simp add: s1 xs)
  then have "next_waiting st (station_queue s1) = next_waiting st (station_queue s)"
    by (simp add: next_waiting_def in_state_def)
  with adv advance_same(1) [OF d adv(2) nf] show ?thesis by (simp add: freed_def)
qed

lemma Complete_freed:
  assumes ok: "queue_ok (station_queue s)" and nf: "\<not> fault E ''advance station queue''"
  shows "freed st s (CompleteStationQueueEntry E fl st eid body s)"
proof -
  have d: "distinct (map q_id (station_queue s))" using ok by (simp add: queue_ok_def)
  have tx: "freed st s (case complete_tx E fl st eid amount s of
      (Reply n v, s1) \<Rightarrow> (Reply n v, advanceQueue E st s1) | (r, s1) \<Rightarrow> (r, s1))" for amount
    using complete_tx_moves [OF d, of E fl st eid amount]
  proof (elim disjE exE conjE)
    assume "\<nexists>n v. fst (complete_tx E fl st eid amount s) = Reply n v" "snd (complete_tx E fl st eid amount s) = s"
    then show ?thesis by (cases "complete_tx E fl st eid amount s"; cases "fst (complete_tx E fl st eid amount s)")
      (auto simp: freed_fail)
  next
    fix n v as q bs
    assume r: "fst (complete_tx E fl st eid amount s) = Reply n v" and xs: "station_queue s = as @ q # bs"
      and q: "q_station_id q = st" "q_status q = ''serving''"
      and ys: "station_queue (snd (complete_tx E fl st eid amount s)) =
          as @ q\<lparr>q_status := ''completed'', q_completed_at := Some (now E)\<rparr> # bs"
    obtain s1 where c: "complete_tx E fl st eid amount s = (Reply n v, s1)"
      using r by (cases "complete_tx E fl st eid amount s") simp
    from freedI [OF ok nf xs q _ _ _ ys [unfolded c snd_conv], of n v] q(1) show ?thesis by (simp add: c)
  qed
  show ?thesis
    by (cases body; cases "the body") (simp_all add: CompleteStationQueueEntry_def Let_def freed_fail tx)
qed

lemma Leave_freed:
  assumes ok: "queue_ok (station_queue s)" and nf: "\<not> fault E ''advance station queue''"
    and nw: "\<forall>q \<in> set (station_queue s). q_id q = eid \<longrightarrow> q_status q \<noteq> ''waiting''"
  shows "freed st s (LeaveStationQueue E st eid s)"
proof -
  have d: "distinct (map q_id (station_queue s))" using ok by (simp add: queue_ok_def)
  show ?thesis
    using leave_mark_moves [OF d, of E st eid]
  proof (elim disjE exE conjE)
    assume "\<nexists>n v. fst (leave_mark E st eid s) = Reply n v" "snd (leave_mark E st eid s) = s"
    then show ?thesis by (cases "leave_mark E st eid s"; cases "fst (leave_mark E st eid s)")
      (auto simp: freed_fail LeaveStationQueue_def)
  next
    fix n v as q bs
    assume r: "fst (leave_mark E st eid s) = Reply n v" and xs: "station_queue s = as @ q # bs"
      and i: "q_id q = eid" and q: "q_station_id q = st" "active_entry q"
      and ys: "station_queue (snd (leave_mark E st eid s)) = as @ q\<lparr>q_status := ''left''\<rparr> # bs"
    have q2: "q_status q = ''serving''" using q(2) nw i by (simp add: xs active_entry_def)
    obtain s1 where c: "leave_mark E st eid s = (Reply n v, s1)"
      using r by (cases "leave_mark E st eid s") simp
    from freedI [OF ok nf xs q(1) q2 _ _ _ ys [unfolded c snd_conv], of n v] q(1) show ?thesis
      by (simp add: c LeaveStationQueue_def)
  qed
qed

lemma Join_queue_ok:
  assumes ok: "queue_ok (station_queue s)"
  shows "queue_ok (station_queue (snd (JoinStationQueue E fl st body s)))"
proof (cases "join_count E st body s")
  case (Inr ba)
  obtain bus n where ba: "ba = (bus, n)" by (cases ba)
  have n: "n = int (length (filter (\<lambda>q. q_station_id q = st \<and> active_entry q) (station_queue s)))"
    using Inr ba by (simp add: join_count_def Let_def split: option.splits if_splits)
  then have z: "n = 0 \<longleftrightarrow> in_state st ''serving'' (station_queue s) = [] \<and> in_state st ''waiting'' (station_queue s) = []"
    by (auto simp: filter_empty_conv in_state_def active_entry_def)
  from join_insert_result [of E fl st bus n s] show ?thesis
  proof (elim disjE exE conjE)
    fix m v q
    assume app: "station_queue (snd (join_insert E fl st bus n s)) = station_queue s @ [q]" and "q_station_id q = st"
      "q_status q = (if n = 0 then ''serving'' else ''waiting'')"
      "\<forall>x \<in> set (station_queue s). q_id x \<noteq> q_id q \<and> \<not> (q_station_id x = st \<and> q_bus_id x = bus \<and> active_entry x)"
    then have "queue_ok (station_queue s @ [q])" using ok z by (cases "n = 0") (auto simp: queue_ok_def)
    then show ?thesis using app by (simp add: JoinStationQueue_def Inr ba)
  qed (use ok in \<open>simp add: JoinStationQueue_def Inr ba\<close>)
qed (use ok in \<open>simp add: JoinStationQueue_def\<close>)

lemma queue_steps_one_active: "queue_step\<^sup>*\<^sup>* s s' \<Longrightarrow> one_active (station_queue s) \<Longrightarrow> one_active (station_queue s')"
  by (induction rule: rtranclp_induct) (blast intro: queue_step_one_active)+

lemma promoted_is_oldest:
  assumes "ys = map (\<lambda>q. q\<lparr>q_status := ''serving''\<rparr>) (case next_waiting st xs of None \<Rightarrow> [] | Some q \<Rightarrow> [q])"
  shows "case ys of [] \<Rightarrow> in_state st ''waiting'' xs = []
    | p # ps \<Rightarrow> ps = [] \<and> (\<exists>q \<in> set (in_state st ''waiting'' xs). p = q\<lparr>q_status := ''serving''\<rparr> \<and>
        (\<forall>w \<in> set (in_state st ''waiting'' xs). q_joined_at q \<le> q_joined_at w))"
proof (cases "next_waiting st xs")
  case None
  then have "in_state st ''waiting'' xs = []" by (simp only: next_waiting_cases(1))
  with None assms show ?thesis by simp
next
  case (Some q)
  from next_waiting_cases(2) [OF Some] have "q \<in> set (in_state st ''waiting'' xs)" by (simp add: in_state_def)
  with next_waiting_oldest [OF Some] show ?thesis by (auto simp: assms Some)
qed

lemma queue_run_ok: "queue_run\<^sup>*\<^sup>* s s' \<Longrightarrow> queue_ok (station_queue s) \<Longrightarrow> queue_ok (station_queue s')"
proof (induction rule: rtranclp_induct)
  case (step y z)
  then have y: "queue_ok (station_queue y)" by blast
  from step(2) show ?case
  proof cases
    case (complete E fl st eid body)
    with Complete_freed [OF y complete(2), of st fl eid body] y show ?thesis by (auto simp: freed_def)
  next
    case (leave E eid st)
    with Leave_freed [OF y leave(2,3), of st] y show ?thesis by (auto simp: freed_def)
  qed (use Join_queue_ok [OF y] in simp)
qed

section \<open>A worked example\<close>

definition bus_entry :: "string \<Rightarrow> int \<Rightarrow> string \<Rightarrow> queue_entry" where
  "bus_entry bus joined status = \<lparr>q_id = ''e'' @ bus, q_station_id = ''S'', q_bus_id = bus, q_joined_at = joined,
     q_status = status, q_completed_at = None\<rparr>"

definition three_buses :: queue_store where
  "three_buses = \<lparr>station_queue = [bus_entry ''1'' 1 ''serving'', bus_entry ''2'' 2 ''waiting'', bus_entry ''3'' 3 ''waiting''],
     fuel_stations = [\<lparr>fs_id = ''S'', fs_status = Some ''online'', fs_type = None, fs_available_kg = Some 10,
       fs_available_kwh = None, fs_name = ''North'', fs_capacity_kg = None, fs_charger_count = None, fs_geom = None\<rparr>],
     fleet_vehicles = [''1'', ''2'', ''3'']\<rparr>"

definition queue_env :: db_env where
  "queue_env = quiet_env (\<lambda>_ _ _ _ _ l. (Inr [], l))"

lemma queue_env_no_fault [simp]: "\<not> fault queue_env op"
  by (simp add: queue_env_def quiet_env_no_fault)

lemma three_buses_one_active: "one_active (station_queue three_buses)"
  by (auto simp: one_active_def three_buses_def bus_entry_def active_entry_def)

lemma three_buses_ok: "queue_ok (station_queue three_buses)"
  by (simp add: queue_ok_def three_buses_def bus_entry_def)

section \<open>Properties\<close>

text \<open>
  Starting from a table without double entries, no interleaving of the database steps of any number of
  concurrent requests (joins, completions, leaves, promotions) gives a bus two active entries at a station,
  and entry ids stay unique.
\<close>

theorem queue_one_active_per_bus:
  assumes "queue_step\<^sup>*\<^sup>* s s'" "one_active (station_queue s)"
  shows "distinct (map q_id (station_queue s')) \<and>
    length (filter (\<lambda>q. q_station_id q = st \<and> q_bus_id q = bus \<and> active_entry q) (station_queue s')) \<le> 1"
  using queue_steps_one_active [OF assms] unfolding one_active_def by blast

theorem queue_one_active_per_bus_witness:
  "distinct (map q_id (station_queue (snd (leave_mark queue_env ''S'' ''e1'' three_buses)))) \<and>
   length (filter (\<lambda>q. q_station_id q = ''S'' \<and> q_bus_id q = ''1'' \<and> active_entry q)
     (station_queue (snd (leave_mark queue_env ''S'' ''e1'' three_buses)))) \<le> 1"
  by (rule queue_one_active_per_bus [OF r_into_rtranclp [of queue_step three_buses] three_buses_one_active])
     (rule leave_entry)

text \<open>
  C24. When requests run one after another, promotions do not fail and only served buses leave, then in every state in
  which a completion is accepted no station has two buses at the dispenser or lets a bus wait while it is free, and the
  bus that the completion promotes is the one that has waited longest, if there is one.
\<close>

theorem queue_serves_in_order:
  assumes "queue_run\<^sup>*\<^sup>* s s'" "queue_ok (station_queue s)" "\<not> fault E ''advance station queue''"
    "fst (CompleteStationQueueEntry E fl st eid body s') = Reply n v"
  shows "length (in_state any ''serving'' (station_queue s')) \<le> 1 \<and>
    (in_state any ''waiting'' (station_queue s') \<noteq> [] \<longrightarrow> in_state any ''serving'' (station_queue s') \<noteq> []) \<and>
    (case in_state st ''serving'' (station_queue (snd (CompleteStationQueueEntry E fl st eid body s'))) of
        [] \<Rightarrow> in_state st ''waiting'' (station_queue s') = []
      | p # ps \<Rightarrow> ps = [] \<and> (\<exists>q \<in> set (in_state st ''waiting'' (station_queue s')). p = q\<lparr>q_status := ''serving''\<rparr> \<and>
          (\<forall>w \<in> set (in_state st ''waiting'' (station_queue s')). q_joined_at q \<le> q_joined_at w)))"
proof (intro conjI)
  have ok: "queue_ok (station_queue s')" by (rule queue_run_ok [OF assms(1,2)])
  then show "length (in_state any ''serving'' (station_queue s')) \<le> 1"
    and "in_state any ''waiting'' (station_queue s') \<noteq> [] \<longrightarrow> in_state any ''serving'' (station_queue s') \<noteq> []"
    by (auto simp: queue_ok_def)
  have "in_state st ''serving'' (station_queue (snd (CompleteStationQueueEntry E fl st eid body s'))) =
      map (\<lambda>q. q\<lparr>q_status := ''serving''\<rparr>) (case next_waiting st (station_queue s') of None \<Rightarrow> [] | Some q \<Rightarrow> [q])"
    using Complete_freed [OF ok assms(3), of st fl eid body] assms(4) by (simp add: freed_def)
  then show "case in_state st ''serving'' (station_queue (snd (CompleteStationQueueEntry E fl st eid body s'))) of
        [] \<Rightarrow> in_state st ''waiting'' (station_queue s') = []
      | p # ps \<Rightarrow> ps = [] \<and> (\<exists>q \<in> set (in_state st ''waiting'' (station_queue s')). p = q\<lparr>q_status := ''serving''\<rparr> \<and>
          (\<forall>w \<in> set (in_state st ''waiting'' (station_queue s')). q_joined_at q \<le> q_joined_at w))"
    by (rule promoted_is_oldest)
qed

theorem queue_serves_in_order_witness:
  "in_state ''S'' ''serving'' (station_queue (snd (CompleteStationQueueEntry queue_env id ''S'' ''e1'' (Some (Some 4, None)) three_buses))) \<noteq> [] \<and>
   (case in_state ''S'' ''serving'' (station_queue (snd (CompleteStationQueueEntry queue_env id ''S'' ''e1'' (Some (Some 4, None)) three_buses))) of
        [] \<Rightarrow> in_state ''S'' ''waiting'' (station_queue three_buses) = []
      | p # ps \<Rightarrow> ps = [] \<and> (\<exists>q \<in> set (in_state ''S'' ''waiting'' (station_queue three_buses)). p = q\<lparr>q_status := ''serving''\<rparr> \<and>
          (\<forall>w \<in> set (in_state ''S'' ''waiting'' (station_queue three_buses)). q_joined_at q \<le> q_joined_at w)))"
proof -
  have "fst (CompleteStationQueueEntry queue_env id ''S'' ''e1'' (Some (Some 4, None)) three_buses) =
      Reply 200 ((bus_entry ''1'' 1 ''serving'')\<lparr>q_status := ''completed'', q_completed_at := Some (now queue_env)\<rparr>, Dispensed 4 ''kg'' 6 (Some (4, 6)))"
    by (simp add: CompleteStationQueueEntry_def complete_tx_def three_buses_def bus_entry_def inventoryColumn_def
      fs_avail_def fs_draw_def or_zero_def)
  note th = queue_serves_in_order [OF rtranclp.rtrancl_refl three_buses_ok queue_env_no_fault this]
  have "in_state ''S'' ''waiting'' (station_queue three_buses) \<noteq> []" by (simp add: three_buses_def bus_entry_def)
  with th show ?thesis by (auto split: list.splits)
qed

text \<open>
  A waiting bus that leaves still triggers a promotion: with a bus at the dispenser and another one
  waiting behind it, an accepted leave of a waiting entry puts two buses into service at once.
\<close>

theorem leave_waiting_promotes_second:
  assumes ids: "distinct (map q_id (station_queue s))" and nf: "\<not> fault E ''advance station queue''"
    and busy: "in_state st ''serving'' (station_queue s) = [a]"
    and waits: "in_state st ''waiting'' (station_queue s) = ws" "w \<in> set ws" "length ws > 1"
    and leave: "fst (LeaveStationQueue E st (q_id w) s) = Reply n v"
  shows "length (in_state st ''serving'' (station_queue (snd (LeaveStationQueue E st (q_id w) s)))) = 2"
proof -
  have w: "w \<in> set (station_queue s)" "q_station_id w = st" "q_status w = ''waiting''"
    using waits(1,2) by (auto simp: in_state_def)
  obtain s1 where m: "leave_mark E st (q_id w) s = (Reply n v, s1)"
    using leave by (cases "leave_mark E st (q_id w) s"; cases "fst (leave_mark E st (q_id w) s)")
      (auto simp: LeaveStationQueue_def)
  from leave_mark_moves [OF ids, of E st "q_id w"] m obtain as q bs where q: "station_queue s = as @ q # bs"
    "q_id q = q_id w" "station_queue s1 = as @ q\<lparr>q_status := ''left''\<rparr> # bs" by auto
  have "q = w" using distinct_key [OF ids _ w(1), of q] q by simp
  have d1: "distinct (map q_id (station_queue s1))" using ids q by simp
  have "length (in_state st ''waiting'' (station_queue s1)) = length ws - 1"
    using waits(1) w \<open>q = w\<close> by (auto simp: q)
  then have more: "in_state st ''waiting'' (station_queue s1) \<noteq> []" using waits(3) by auto
  have "length (in_state st ''serving'' (station_queue s1)) = 1" using busy w \<open>q = w\<close> by (auto simp: q)
  with advance_moves [OF d1, of E st] more nf
  have "length (in_state st ''serving'' (station_queue (advanceQueue E st s1))) = 2"
  proof (elim disjE exE conjE)
    fix as q bs
    assume "station_queue s1 = as @ q # bs" "next_waiting st (station_queue s1) = Some q"
      "station_queue (advanceQueue E st s1) = as @ q\<lparr>q_status := ''serving''\<rparr> # bs"
      "length (in_state st ''serving'' (station_queue s1)) = 1"
    with next_waiting_cases(2) [of st "station_queue s1" q] show ?thesis by auto
  qed simp_all
  then show ?thesis by (simp add: LeaveStationQueue_def m)
qed

theorem leave_waiting_promotes_second_witness:
  "length (in_state ''S'' ''serving'' (station_queue (snd (LeaveStationQueue queue_env ''S'' (q_id (bus_entry ''2'' 2 ''waiting'')) three_buses)))) = 2"
  by (rule leave_waiting_promotes_second [where a = "bus_entry ''1'' 1 ''serving''" and n = 200 and
        v = "(bus_entry ''2'' 2 ''waiting'')\<lparr>q_status := ''left''\<rparr>" and ws = "[bus_entry ''2'' 2 ''waiting'', bus_entry ''3'' 3 ''waiting'']"])
     (simp_all add: three_buses_def bus_entry_def LeaveStationQueue_def leave_mark_def active_entry_def)

text \<open>
  Two joins that both count before either inserts: an online station without active entries serves two
  buses at once.
\<close>

lemma concurrent_joins_both_serve:
  assumes "join_count E1 st (Some b1) s = Inr (b1, 0)" "join_count E2 st (Some b2) s = Inr (b2, 0)"
    "fst (join_insert E1 fl st b1 0 s) = Reply n v" "s1 = snd (join_insert E1 fl st b1 0 s)"
    "fst (join_insert E2 fl st b2 0 s1) = Reply m u"
  shows "length (in_state st ''serving'' (station_queue (snd (join_insert E2 fl st b2 0 s1)))) \<ge> 2"
proof -
  from join_insert_result [of E1 fl st b1 0 s] assms(3,4) obtain q where
    "station_queue s1 = station_queue s @ [q]" "q_station_id q = st" "q_status q = ''serving''" by auto
  moreover from join_insert_result [of E2 fl st b2 0 s1] assms(5) obtain p where
    "station_queue (snd (join_insert E2 fl st b2 0 s1)) = station_queue s1 @ [p]" "q_station_id p = st"
    "q_status p = ''serving''" by auto
  ultimately show ?thesis by simp
qed

end
