(* ===== verification/Index.thy ===== *)
theory Index
  imports Prelude
begin

text \<open>
  Partial unique indexes. Several tables of the schema carry an index of the form
  \<open>UNIQUE (key) WHERE live\<close> besides their primary key; \<open>taken\<close> is the test Postgres makes before it writes a
  row. The interface is a locale: a table that refuses the rows for which \<open>taken\<close> holds keeps its live rows
  unique, whatever statements run on it in whatever order.
\<close>

locale partial_unique =
  fixes rid :: "'r \<Rightarrow> 'i"
    and key :: "'r \<Rightarrow> 'k option"
    and live :: "'r \<Rightarrow> bool"
    and taken :: "'r list \<Rightarrow> 'r \<Rightarrow> bool"
  assumes takenI: "x \<in> set xs \<Longrightarrow> rid x \<noteq> rid r \<Longrightarrow> live x \<Longrightarrow> live r \<Longrightarrow> key r \<noteq> None \<Longrightarrow> key x = key r \<Longrightarrow> taken xs r"
begin

definition uniq :: "'r list \<Rightarrow> bool" where
  "uniq xs \<longleftrightarrow> (\<forall>x \<in> set xs. \<forall>y \<in> set xs. live x \<and> live y \<and> key x \<noteq> None \<and> key x = key y \<longrightarrow> rid x = rid y)"

lemma uniq_Nil: "uniq []"
  by (simp add: uniq_def)

lemma uniqD: "uniq xs \<Longrightarrow> x \<in> set xs \<Longrightarrow> y \<in> set xs \<Longrightarrow> live x \<Longrightarrow> live y \<Longrightarrow> key x \<noteq> None \<Longrightarrow> key x = key y \<Longrightarrow> rid x = rid y"
  unfolding uniq_def by blast

lemma uniq_insert:
  assumes "uniq xs" "\<not> taken xs r"
  shows "uniq (xs @ [r])"
  unfolding uniq_def
proof (intro ballI impI, elim conjE)
  fix x y
  assume "x \<in> set (xs @ [r])" "y \<in> set (xs @ [r])" and l: "live x" "live y" "key x \<noteq> None" "key x = key y"
  then consider "x \<in> set xs" "y \<in> set xs" | "x \<in> set xs" "y = r" | "x = r" "y \<in> set xs" | "x = r" "y = r" by auto
  then show "rid x = rid y"
  proof cases
    case 1
    then show ?thesis using uniqD [OF assms(1)] l by blast
  next
    case 2
    then show ?thesis using takenI [of x xs r] assms(2) l by metis
  next
    case 3
    then show ?thesis using takenI [of y xs r] assms(2) l by metis
  qed simp
qed

text \<open>An update that neither revives a row nor changes the key of a live one needs no test.\<close>

lemma uniq_update:
  assumes "uniq xs" "\<And>x. P x \<Longrightarrow> rid (f x) = rid x" "\<And>x. P x \<Longrightarrow> live (f x) \<Longrightarrow> live x \<and> key (f x) = key x"
  shows "uniq (upd_rows P f xs)"
  unfolding uniq_def
proof (intro ballI impI, elim conjE)
  fix x y
  assume xy: "x \<in> set (upd_rows P f xs)" "y \<in> set (upd_rows P f xs)" and l: "live x" "live y" "key x \<noteq> None" "key x = key y"
  from set_upd_rowsD [OF xy(1)] obtain x0 where x0: "x0 \<in> set xs" "x = (if P x0 then f x0 else x0)" by blast
  from set_upd_rowsD [OF xy(2)] obtain y0 where y0: "y0 \<in> set xs" "y = (if P y0 then f y0 else y0)" by blast
  have "live x0 \<and> key x = key x0 \<and> rid x = rid x0" using assms(2,3) [of x0] x0(2) l(1) by auto
  moreover have "live y0 \<and> key y = key y0 \<and> rid y = rid y0" using assms(2,3) [of y0] y0(2) l(2) by auto
  ultimately show "rid x = rid y" using uniqD [OF assms(1) x0(1) y0(1)] l by metis
qed

text \<open>An update of one row whose new version passes the test.\<close>

lemma uniq_update_tested:
  assumes "uniq xs" "\<And>x. rid (f x) = rid x" "\<And>x. x \<in> set xs \<Longrightarrow> rid x = i \<Longrightarrow> \<not> taken xs (f x)"
  shows "uniq (upd_rows (\<lambda>x. rid x = i) f xs)"
  unfolding uniq_def
proof (intro ballI impI, elim conjE)
  fix x y
  let ?P = "\<lambda>x. rid x = i"
  assume xy: "x \<in> set (upd_rows ?P f xs)" "y \<in> set (upd_rows ?P f xs)" and l: "live x" "live y" "key x \<noteq> None" "key x = key y"
  from set_upd_rowsD [OF xy(1)] obtain x0 where x0: "x0 \<in> set xs" "x = (if ?P x0 then f x0 else x0)" by blast
  from set_upd_rowsD [OF xy(2)] obtain y0 where y0: "y0 \<in> set xs" "y = (if ?P y0 then f y0 else y0)" by blast
  have r: "rid x = rid x0" "rid y = rid y0" using x0(2) y0(2) assms(2) by simp_all
  show "rid x = rid y"
  proof (rule ccontr)
    assume ne: "rid x \<noteq> rid y"
    consider "rid x0 = i" "rid y0 \<noteq> i" | "rid x0 \<noteq> i" "rid y0 = i" | "rid x0 \<noteq> i" "rid y0 \<noteq> i" using ne r by metis
    then show False
    proof cases
      case 1
      then have "x = f x0" "y = y0" using x0(2) y0(2) by simp_all
      with takenI [OF y0(1), of "f x0"] assms(3) [OF x0(1) 1(1)] l ne show False by metis
    next
      case 2
      then have "x = x0" "y = f y0" using x0(2) y0(2) by simp_all
      with takenI [OF x0(1), of "f y0"] assms(3) [OF y0(1) 2(2)] l ne show False by metis
    next
      case 3
      then have "x = x0" "y = y0" using x0(2) y0(2) by simp_all
      with uniqD [OF assms(1) x0(1) y0(1)] l ne show False by metis
    qed
  qed
qed

end

end
