(* ===== verification/Dispatch.thy ===== *)
theory Dispatch
  imports Store Timestamps Index
begin

text \<open>
  Dispatch jobs and drivers of infra-api (src/services/go/infra-api/internal/handlers/dispatch.go and
  drivers.go, and the requeue activity of internal/workflow/activities.go). Times are nanoseconds; Postgres
  keeps microseconds. The foreign keys and the partial unique indexes on active jobs exist only where the
  migration 0005 has run (the service's own \<open>EnsureSchema\<close> does not create them), so the store says
  whether it has. Creating a job is three steps, since the hours-of-service total is read outside the
  transaction and the conflict check takes no lock.
\<close>

section \<open>Rows\<close>

record dispatch_job =
  dj_id :: string
  dj_driver_sub :: string
  dj_vehicle_id :: "string option"
  dj_route :: string
  dj_starts_at :: "int option"
  dj_ends_at :: "int option"
  dj_status :: string
  dj_created_at :: int
  dj_accepted_at :: "int option"

record driver_row =
  dr_sub :: string
  dr_name :: string
  dr_license_no :: string
  dr_status :: string

record charter_booking =
  cb_id :: string
  cb_reference :: string
  cb_customer_name :: string
  cb_contact :: string
  cb_starts_at :: int
  cb_ends_at :: int
  cb_status :: string
  cb_notes :: string
  cb_created_by :: string
  cb_created_at :: int
  cb_cancelled_at :: "int option"

record charter_vehicle =
  cv_booking_id :: string
  cv_vehicle_id :: string
  cv_dispatch_job_id :: string

record dispatch_store =
  dispatch_jobs :: "dispatch_job list"
  drivers :: "driver_row list"
  known_buses :: "string list"
  charter_bookings :: "charter_booking list"
  charter_vehicles :: "charter_vehicle list"
  signals :: "(string \<times> string \<times> (string \<times> json) list) list"
  dispatch_events :: "(string \<times> (string \<times> json) list) list"
  migrated :: bool

definition active_job :: "dispatch_job \<Rightarrow> bool" where
  "active_job j \<longleftrightarrow> dj_status j \<in> {''assigned'', ''accepted'', ''in_progress''}"

section \<open>Configuration and durations\<close>

text \<open>
  \<open>shift_env\<close> and \<open>daily_env\<close> are what \<open>strconv.ParseFloat\<close> reads from the two environment variables (nothing
  when it fails), \<open>round64\<close> rounds an exact result to \<open>float64\<close>, and \<open>next_midnight tz t\<close> is Postgres' civic
  midnight after \<open>t\<close> in the zone \<open>tz\<close>.
\<close>

record dispatch_cfg =
  shift_env :: "rat option"
  daily_env :: "rat option"
  round64 :: "rat \<Rightarrow> rat"
  next_midnight :: "string \<Rightarrow> int \<Rightarrow> int"

definition dispatchMaxShiftHours :: "dispatch_cfg \<Rightarrow> rat" where
  "dispatchMaxShiftHours cfg = (case shift_env cfg of Some v \<Rightarrow> if v > 0 then v else 10 | None \<Rightarrow> 10)"

definition dispatchMaxDailyHours :: "dispatch_cfg \<Rightarrow> rat" where
  "dispatchMaxDailyHours cfg = (case daily_env cfg of Some v \<Rightarrow> if v > 0 then v else 10 | None \<Rightarrow> 10)"

definition dispatchTimezone :: "db_env \<Rightarrow> string" where
  "dispatchTimezone E = (if getenv E ''DISPATCH_TIMEZONE'' \<noteq> [] then getenv E ''DISPATCH_TIMEZONE'' else ''UTC'')"

abbreviation hour_ns :: int where
  "hour_ns \<equiv> 3600000000000"

text \<open>\<open>Time.Sub\<close> saturates at the bounds of \<open>int64\<close>; \<open>Duration.Hours\<close> on a positive duration.\<close>

definition time_sub :: "int \<Rightarrow> int \<Rightarrow> int" where
  "time_sub a b = max (- (2 ^ 63)) (min (2 ^ 63 - 1) (a - b))"

definition duration_hours :: "(rat \<Rightarrow> rat) \<Rightarrow> int \<Rightarrow> rat" where
  "duration_hours fl d = fl (of_int (d div hour_ns) + fl (of_int (d mod hour_ns) / of_int hour_ns))"

text \<open>\<open>strconv.FormatFloat(x, 'f', k, 64)\<close> of a non-negative number: rounded to \<open>k\<close> decimals, halves to even.\<close>

definition round_half_even :: "rat \<Rightarrow> int" where
  "round_half_even y =
     (let n = \<lfloor>y\<rfloor>; r = y - of_int n in
      if r < 1 / 2 then n else if r > 1 / 2 then n + 1 else if even n then n else n + 1)"

definition format_fixed :: "nat \<Rightarrow> rat \<Rightarrow> string" where
  "format_fixed k x =
     (let n = round_half_even (x * 10 ^ k); frac = show_int (n mod 10 ^ k) in
      show_int (n div 10 ^ k) @ (if k = 0 then [] else ''.'' @ replicate (k - length frac) CHR ''0'' @ frac))"

section \<open>SQL conditions\<close>

text \<open>Postgres' three-valued conditions: nothing is \<open>NULL\<close>; a row qualifies when its condition is true.\<close>

type_synonym bool3 = "bool option"

fun and3 :: "bool3 \<Rightarrow> bool3 \<Rightarrow> bool3" where
  "and3 (Some False) _ = Some False"
| "and3 (Some True) y = y"
| "and3 None (Some False) = Some False"
| "and3 None _ = None"

fun or3 :: "bool3 \<Rightarrow> bool3 \<Rightarrow> bool3" where
  "or3 (Some True) _ = Some True"
| "or3 (Some False) y = y"
| "or3 None (Some True) = Some True"
| "or3 None _ = None"

fun less3 :: "int option \<Rightarrow> int option \<Rightarrow> bool3" where
  "less3 (Some a) (Some b) = Some (a < b)"
| "less3 _ _ = None"

definition window_conflict :: "int option \<Rightarrow> int option \<Rightarrow> dispatch_job \<Rightarrow> bool3" where
  "window_conflict s e r =
     and3 (or3 (Some (s = None)) (or3 (Some (dj_starts_at r = None)) (less3 (dj_starts_at r) e)))
          (or3 (Some (e = None)) (or3 (Some (dj_ends_at r = None)) (less3 s (dj_ends_at r))))"

section \<open>Listing\<close>

definition ListDispatchJobs :: "db_env \<Rightarrow> string \<Rightarrow> string \<Rightarrow> dispatch_store \<Rightarrow> dispatch_job list resp" where
  "ListDispatchJobs E status driver s =
     (let query_args = (if status \<noteq> [] then 1 else 0) + (if driver \<noteq> [] then 1 else 0 :: nat);
          last_placeholder = (if driver \<noteq> [] then 2 else if status \<noteq> [] then 1 else 0 :: nat) in
      if fault E ''list dispatch jobs'' \<or> last_placeholder > query_args then Internal ''list dispatch jobs''
      else if fault E ''scan dispatch job'' then Internal ''scan dispatch job''
      else if fault E ''iterate dispatch jobs'' then Internal ''iterate dispatch jobs''
      else Reply 200 (newest dj_created_at 200 (filter (\<lambda>j. (status \<noteq> [] \<longrightarrow> dj_status j = status) \<and>
             (driver \<noteq> [] \<longrightarrow> dj_driver_sub j = driver)) (dispatch_jobs s))))"

section \<open>Creating a job\<close>

record create_job_req =
  cj_driver_sub :: string
  cj_vehicle_id :: "string option"
  cj_route :: string
  cj_starts_at :: "int option"
  cj_ends_at :: "int option"

definition daily_hours :: "db_env \<Rightarrow> dispatch_cfg \<Rightarrow> string \<Rightarrow> int \<Rightarrow> dispatch_store \<Rightarrow> rat" where
  "daily_hours E cfg driver t s =
     (let tz = dispatchTimezone E;
          on_day = (\<lambda>a. day_start E tz t \<le> a \<and> a < next_midnight cfg tz t);
          finish = (\<lambda>a j. case dj_ends_at j of Some b \<Rightarrow> b | None \<Rightarrow> a + \<lfloor>dispatchMaxShiftHours cfg\<rfloor> * hour_ns) in
      sum_list (map (\<lambda>j. case dj_starts_at j of None \<Rightarrow> 0 | Some a \<Rightarrow> of_int (finish a j - a) / of_int hour_ns)
        (filter (\<lambda>j. dj_driver_sub j = driver \<and> active_job j \<and>
           (case dj_starts_at j of None \<Rightarrow> False | Some a \<Rightarrow> on_day a)) (dispatch_jobs s))))"

text \<open>The checks before the transaction; \<open>None\<close> lets the request go on.\<close>

definition hours_check :: "db_env \<Rightarrow> dispatch_cfg \<Rightarrow> create_job_req \<Rightarrow> dispatch_store \<Rightarrow> dispatch_job resp option" where
  "hours_check E cfg req s =
     (let maxShift = dispatchMaxShiftHours cfg; maxDaily = dispatchMaxDailyHours cfg;
          planned = (case (cj_starts_at req, cj_ends_at req) of
             (Some a, Some b) \<Rightarrow> duration_hours (round64 cfg) (time_sub b a) | _ \<Rightarrow> maxShift) in
      if cj_starts_at req \<noteq> None \<and> cj_ends_at req \<noteq> None \<and> planned > maxShift
      then Some (Err 422 (''shift exceeds the hours-of-service limit ('' @ format_fixed 1 planned @ ''h > '' @
             format_fixed 0 maxShift @ ''h max)''))
      else case cj_starts_at req of
        None \<Rightarrow> None
      | Some a \<Rightarrow>
          if fault E ''compute driver daily hours'' then Some (Internal ''compute driver daily hours'')
          else
            let dayTotal = round64 cfg (daily_hours E cfg (cj_driver_sub req) (to_micros a) s) in
            if round64 cfg (dayTotal + planned) > maxDaily
            then Some (Err 422 (''driver daily hours-of-service exceeded ('' @ format_fixed 1 dayTotal @ ''h scheduled + '' @
                   format_fixed 1 planned @ ''h new > '' @ format_fixed 0 maxDaily @ ''h max)''))
            else None)"

definition conflict_kind :: "create_job_req \<Rightarrow> dispatch_store \<Rightarrow> string option" where
  "conflict_kind req s =
     map_option (\<lambda>r. if dj_driver_sub r = cj_driver_sub req then ''driver'' else ''vehicle'')
       (find (\<lambda>r. active_job r \<and>
          (dj_driver_sub r = cj_driver_sub req \<or> (cj_vehicle_id req \<noteq> None \<and> dj_vehicle_id r = cj_vehicle_id req)) \<and>
          window_conflict (map_option to_micros (cj_starts_at req)) (map_option to_micros (cj_ends_at req)) r = Some True)
        (dispatch_jobs s))"

definition conflict_check :: "db_env \<Rightarrow> create_job_req \<Rightarrow> dispatch_store \<Rightarrow> dispatch_job resp option" where
  "conflict_check E req s =
     (if fault E ''begin dispatch job transaction'' then Some (Internal ''begin dispatch job transaction'')
      else if fault E ''dispatch conflict check'' then Some (Internal ''dispatch conflict check'')
      else case conflict_kind req s of
        None \<Rightarrow> None
      | Some k \<Rightarrow> Some (Err 409 (if k = ''driver'' then ''driver already has an overlapping active dispatch job''
                                 else ''vehicle already assigned to an overlapping active dispatch job'')))"

text \<open>What the indexes and foreign keys on \<open>dispatch_jobs\<close> refuse (\<open>job_taken\<close>: 23505, \<open>job_dangling\<close>: 23503).\<close>

definition driver_taken :: "dispatch_job list \<Rightarrow> dispatch_job \<Rightarrow> bool" where
  "driver_taken xs j \<longleftrightarrow> active_job j \<and> (\<exists>r \<in> set xs. dj_id r \<noteq> dj_id j \<and> active_job r \<and> dj_driver_sub r = dj_driver_sub j)"

definition vehicle_taken :: "dispatch_job list \<Rightarrow> dispatch_job \<Rightarrow> bool" where
  "vehicle_taken xs j \<longleftrightarrow> active_job j \<and> dj_vehicle_id j \<noteq> None \<and>
     (\<exists>r \<in> set xs. dj_id r \<noteq> dj_id j \<and> active_job r \<and> dj_vehicle_id r = dj_vehicle_id j)"

definition job_taken :: "dispatch_store \<Rightarrow> dispatch_job \<Rightarrow> bool" where
  "job_taken s j \<longleftrightarrow> migrated s \<and> (driver_taken (dispatch_jobs s) j \<or> vehicle_taken (dispatch_jobs s) j)"

definition job_dangling :: "dispatch_store \<Rightarrow> dispatch_job \<Rightarrow> bool" where
  "job_dangling s j \<longleftrightarrow> migrated s \<and> (dj_driver_sub j \<notin> dr_sub ` set (drivers s) \<or>
     (case dj_vehicle_id j of None \<Rightarrow> False | Some v \<Rightarrow> v \<notin> set (known_buses s)))"

definition new_job :: "db_env \<Rightarrow> string \<Rightarrow> create_job_req \<Rightarrow> dispatch_job" where
  "new_job E jid req = \<lparr>dj_id = jid, dj_driver_sub = cj_driver_sub req, dj_vehicle_id = cj_vehicle_id req,
     dj_route = cj_route req, dj_starts_at = map_option to_micros (cj_starts_at req),
     dj_ends_at = map_option to_micros (cj_ends_at req), dj_status = ''assigned'', dj_created_at = to_micros (now E),
     dj_accepted_at = None\<rparr>"

text \<open>\<open>publish\<close> and \<open>Signal\<close> are logged and ignored when they fail.\<close>

definition emit_event :: "db_env \<Rightarrow> string \<Rightarrow> (string \<times> json) list \<Rightarrow> dispatch_store \<Rightarrow> dispatch_store" where
  "emit_event E topic payload s =
     (if pub_fault E topic then s else s\<lparr>dispatch_events := dispatch_events s @ [(topic, payload)]\<rparr>)"

definition signal_job :: "db_env \<Rightarrow> string \<Rightarrow> string \<Rightarrow> (string \<times> json) list \<Rightarrow> dispatch_store \<Rightarrow> dispatch_store" where
  "signal_job E jid name payload s =
     (if pub_fault E name then s else s\<lparr>signals := signals s @ [(''dispatch-'' @ jid, name, payload)]\<rparr>)"

definition timeValue :: "int option \<Rightarrow> json" where
  "timeValue t = (case t of None \<Rightarrow> JNull | Some x \<Rightarrow> JStr (rfc3339 x))"

definition insert_job :: "db_env \<Rightarrow> create_job_req \<Rightarrow> dispatch_store \<Rightarrow> dispatch_job resp \<times> dispatch_store" where
  "insert_job E req s =
     (let j = new_job E (new_id E 0) req;
          event = [(''job_id'', JStr (dj_id j)), (''driver_id'', JStr (dj_driver_sub j)), (''bus_id'', opt_str (dj_vehicle_id j)),
                   (''route_id'', JStr (dj_route j)), (''shift_start'', timeValue (dj_starts_at j)),
                   (''shift_end'', timeValue (dj_ends_at j))] in
      if fault E ''create dispatch job'' then (Internal ''create dispatch job'', s)
      else if dj_id j \<in> dj_id ` set (dispatch_jobs s) \<or> job_taken s j
      then (Err 409 ''driver or vehicle already has an active dispatch job'', s)
      else if job_dangling s j
      then (Err 422 ''vehicle_id or driver_sub does not reference a known vehicle/driver'', s)
      else if fault E ''commit dispatch job'' then (Internal ''commit dispatch job'', s)
      else (Reply 201 j, signal_job E (dj_id j) ''job-assigned'' event
              (emit_event E ''dispatch.job.assigned'' event (s\<lparr>dispatch_jobs := dispatch_jobs s @ [j]\<rparr>))))"

text \<open>The whole request when nothing comes between its checks and its insert; the parts are steps of their own in
  \<open>Charters\<close> and in the hours-of-service property below.\<close>

definition CreateDispatchJob ::
  "db_env \<Rightarrow> dispatch_cfg \<Rightarrow> create_job_req option \<Rightarrow> dispatch_store \<Rightarrow> dispatch_job resp \<times> dispatch_store" where
  "CreateDispatchJob E cfg body s =
     (case body of
        None \<Rightarrow> (Err 400 ''body must include \"driver_sub\"'', s)
      | Some req \<Rightarrow>
          if cj_driver_sub req = [] then (Err 400 ''body must include \"driver_sub\"'', s)
          else if (case (cj_starts_at req, cj_ends_at req) of (Some a, Some b) \<Rightarrow> \<not> b > a | _ \<Rightarrow> False)
          then (Err 400 ''ends_at must be after starts_at'', s)
          else case hours_check E cfg req s of
            Some r \<Rightarrow> (r, s)
          | None \<Rightarrow> (case conflict_check E req s of Some r \<Rightarrow> (r, s) | None \<Rightarrow> insert_job E req s))"

section \<open>Accepting, cancelling, requeueing\<close>

text \<open>The driver's status is read first; the update that follows is a statement of its own.\<close>

definition accept_check :: "db_env \<Rightarrow> string \<Rightarrow> dispatch_store \<Rightarrow> dispatch_job resp option" where
  "accept_check E caller s =
     (if caller = [] then Some (Err 401 ''unauthorized'')
      else if fault E ''check driver status'' then Some (Internal ''check driver status'')
      else case find (\<lambda>d. dr_sub d = caller) (drivers s) of
        None \<Rightarrow> Some (Err 403 ''driver not registered (POST /v1/drivers/register first)'')
      | Some d \<Rightarrow>
          if dr_status d \<noteq> ''active'' then Some (Err 403 (''driver is not active (status='' @ dr_status d @ '')''))
          else None)"

definition accept_mark :: "db_env \<Rightarrow> string \<Rightarrow> string \<Rightarrow> dispatch_store \<Rightarrow> dispatch_job resp \<times> dispatch_store" where
  "accept_mark E caller jid s =
     (let hit = (\<lambda>j. dj_id j = jid \<and> dj_status j = ''assigned'' \<and> dj_driver_sub j = caller);
          mark = (\<lambda>j. j\<lparr>dj_status := ''accepted'', dj_accepted_at := Some (to_micros (now E))\<rparr>) in
      if fault E ''accept dispatch job'' then (Internal ''accept dispatch job'', s)
      else case find hit (dispatch_jobs s) of
        None \<Rightarrow> (Err 404 ''job not found, not in assigned status, or assigned to another driver'', s)
      | Some j \<Rightarrow> (Reply 200 (mark j), signal_job E (dj_id j) ''job-accepted''
          [(''job_id'', JStr (dj_id j)), (''driver_id'', JStr (dj_driver_sub j))]
          (s\<lparr>dispatch_jobs := upd_rows hit mark (dispatch_jobs s)\<rparr>)))"

definition AcceptDispatchJob :: "db_env \<Rightarrow> string \<Rightarrow> string \<Rightarrow> dispatch_store \<Rightarrow> dispatch_job resp \<times> dispatch_store" where
  "AcceptDispatchJob E caller jid s =
     (case accept_check E caller s of Some r \<Rightarrow> (r, s) | None \<Rightarrow> accept_mark E caller jid s)"

definition CancelDispatchJob :: "db_env \<Rightarrow> string \<Rightarrow> dispatch_store \<Rightarrow> dispatch_job resp \<times> dispatch_store" where
  "CancelDispatchJob E jid s =
     (let hit = (\<lambda>j. dj_id j = jid \<and> active_job j); mark = (\<lambda>j. j\<lparr>dj_status := ''cancelled''\<rparr>) in
      if fault E ''cancel dispatch job'' then (Internal ''cancel dispatch job'', s)
      else case find hit (dispatch_jobs s) of
        None \<Rightarrow> (Err 409 ''job not found or not in an active status'', s)
      | Some j \<Rightarrow> (Reply 200 (mark j), signal_job E (dj_id j) ''job-cancelled''
          [(''job_id'', JStr (dj_id j)), (''driver_id'', JStr (dj_driver_sub j))]
          (s\<lparr>dispatch_jobs := upd_rows hit mark (dispatch_jobs s)\<rparr>)))"

text \<open>The activity behind the acceptance timeout of the dispatch workflow.\<close>

definition RequeueDispatchJob :: "db_env \<Rightarrow> string \<Rightarrow> dispatch_store \<Rightarrow> bool \<times> dispatch_store" where
  "RequeueDispatchJob E jid s =
     (if fault E ''requeue dispatch job'' then (False, s)
      else (True, s\<lparr>dispatch_jobs := upd_rows (\<lambda>j. dj_id j = jid \<and> dj_status j = ''assigned'')
              (\<lambda>j. j\<lparr>dj_status := ''requeued''\<rparr>) (dispatch_jobs s)\<rparr>))"

section \<open>Swapping the vehicle\<close>

text \<open>The job's row is locked; the rows the conflict check reads are not, so the check may have been made on an earlier state.\<close>

definition swap_check ::
  "db_env \<Rightarrow> string \<Rightarrow> (string \<times> string) option \<Rightarrow> dispatch_store \<Rightarrow> dispatch_job resp + dispatch_job \<times> string \<times> string" where
  "swap_check E jid body s =
     (case body of
        None \<Rightarrow> Inl (Err 400 ''body must include \"vehicle_id\" and \"reason\"'')
      | Some (vehicleID, reason) \<Rightarrow>
          if vehicleID = [] \<or> reason = [] then Inl (Err 400 ''body must include \"vehicle_id\" and \"reason\"'')
          else if fault E ''begin vehicle swap'' then Inl (Internal ''begin vehicle swap'')
          else if fault E ''load job for vehicle swap'' then Inl (Internal ''load job for vehicle swap'')
          else (case find (\<lambda>j. dj_id j = jid \<and> active_job j) (dispatch_jobs s) of
             None \<Rightarrow> Inl (Err 409 ''job not found or not in an active status'')
           | Some job \<Rightarrow>
               if fault E ''swap conflict check'' then Inl (Internal ''swap conflict check'')
               else if \<exists>r \<in> set (dispatch_jobs s). dj_id r \<noteq> dj_id job \<and> dj_vehicle_id r = Some vehicleID \<and>
                       active_job r \<and> window_conflict (dj_starts_at job) (dj_ends_at job) r = Some True
               then Inl (Err 409 ''vehicle already assigned to an overlapping active dispatch job'')
               else Inr (job, vehicleID, reason)))"

definition swap_mark ::
  "db_env \<Rightarrow> dispatch_job \<Rightarrow> string \<Rightarrow> string \<Rightarrow> dispatch_store \<Rightarrow> dispatch_job resp \<times> dispatch_store" where
  "swap_mark E job vehicleID reason s =
     (let hit = (\<lambda>j. dj_id j = dj_id job); mark = (\<lambda>j. j\<lparr>dj_vehicle_id := Some vehicleID\<rparr>) in
      if fault E ''swap vehicle'' then (Internal ''swap vehicle'', s)
      else case find hit (dispatch_jobs s) of
        None \<Rightarrow> (Internal ''swap vehicle'', s)
      | Some j \<Rightarrow>
          if job_taken s (mark j) then (Internal ''swap vehicle'', s)
          else if migrated s \<and> vehicleID \<notin> set (known_buses s)
          then (Err 422 ''vehicle_id does not reference a known vehicle'', s)
          else if fault E ''commit vehicle swap'' then (Internal ''commit vehicle swap'', s)
          else (Reply 200 (mark j), emit_event E ''dispatch.vehicle_swapped''
             [(''job_id'', JStr (dj_id job)), (''driver_sub'', JStr (dj_driver_sub job)),
              (''old_vehicle_id'', opt_str (dj_vehicle_id job)), (''new_vehicle_id'', JStr vehicleID),
              (''reason'', JStr reason), (''swapped_at'', JStr (rfc3339 (now E)))]
             (s\<lparr>dispatch_jobs := upd_rows hit mark (dispatch_jobs s)\<rparr>)))"

definition SwapDispatchVehicle ::
  "db_env \<Rightarrow> string \<Rightarrow> (string \<times> string) option \<Rightarrow> dispatch_store \<Rightarrow> dispatch_job resp \<times> dispatch_store" where
  "SwapDispatchVehicle E jid body s =
     (case swap_check E jid body s of
        Inl r \<Rightarrow> (r, s)
      | Inr (job, vehicleID, reason) \<Rightarrow> swap_mark E job vehicleID reason s)"

section \<open>Drivers\<close>

definition driver_validate :: "string \<Rightarrow> string \<Rightarrow> (string, string \<times> string) sum" where
  "driver_validate name0 license0 =
     (let nm = trim_space name0; lic = trim_space license0 in
      if nm = [] \<or> length nm > 120 then Inl ''name is required (max 120 chars)''
      else if length lic < 4 \<or> length lic > 64 then Inl (''license_no is required (4'' @ [CHR 0xE2, CHR 0x80, CHR 0x93] @ ''64 chars)'')
      else Inr (nm, lic))"

definition RegisterDriver ::
  "db_env \<Rightarrow> string \<Rightarrow> string + string \<times> string \<Rightarrow> dispatch_store \<Rightarrow> string resp \<times> dispatch_store" where
  "RegisterDriver E sub body s =
     (if sub = [] then (Err 401 ''unauthorized'', s)
      else case body of
        Inl err \<Rightarrow> (Err 400 (''invalid JSON body: '' @ err), s)
      | Inr (name0, license0) \<Rightarrow>
          (case driver_validate name0 license0 of
             Inl msg \<Rightarrow> (Err 400 msg, s)
           | Inr (nm, lic) \<Rightarrow>
               if fault E ''register driver'' then (Internal ''register driver'', s)
               else if sub \<in> dr_sub ` set (drivers s) then (Reply 200 sub, s)
               else (Reply 201 sub, s\<lparr>drivers := drivers s @
                      [\<lparr>dr_sub = sub, dr_name = nm, dr_license_no = lic, dr_status = ''active''\<rparr>]\<rparr>)))"

definition upsertDriver ::
  "db_env \<Rightarrow> string \<Rightarrow> string \<Rightarrow> string \<Rightarrow> dispatch_store \<Rightarrow> bool option \<times> dispatch_store" where
  "upsertDriver E sub nm lic s =
     (if fault E ''upsert driver'' then (None, s)
      else if sub \<in> dr_sub ` set (drivers s)
      then (Some False, s\<lparr>drivers := upd_rows (\<lambda>d. dr_sub d = sub) (\<lambda>d. d\<lparr>dr_name := nm, dr_license_no := lic\<rparr>) (drivers s)\<rparr>)
      else (Some True, s\<lparr>drivers := drivers s @
              [\<lparr>dr_sub = sub, dr_name = nm, dr_license_no = lic, dr_status = ''active''\<rparr>]\<rparr>))"

definition CreateDriver ::
  "db_env \<Rightarrow> string + string \<times> string \<times> string \<Rightarrow> dispatch_store \<Rightarrow> string resp \<times> dispatch_store" where
  "CreateDriver E body s =
     (case body of
        Inl err \<Rightarrow> (Err 400 (''invalid JSON body: '' @ err), s)
      | Inr (sub0, name0, license0) \<Rightarrow>
          let sub = trim_space sub0 in
          if sub = [] \<or> length sub > 128 then (Err 400 ''sub (Keycloak subject) is required (max 128 chars)'', s)
          else (case driver_validate name0 license0 of
             Inl msg \<Rightarrow> (Err 400 msg, s)
           | Inr (nm, lic) \<Rightarrow>
               (case upsertDriver E sub nm lic s of
                  (None, s1) \<Rightarrow> (Internal ''upsert driver'', s1)
                | (Some inserted, s1) \<Rightarrow> (Reply (if inserted then 201 else 200) sub, s1))))"

definition SetDriverStatus ::
  "db_env \<Rightarrow> string \<Rightarrow> string + string \<Rightarrow> dispatch_store \<Rightarrow> string resp \<times> dispatch_store" where
  "SetDriverStatus E sub body s =
     (case body of
        Inl err \<Rightarrow> (Err 400 (''invalid JSON body: '' @ err), s)
      | Inr status \<Rightarrow>
          if status \<notin> {''active'', ''off-duty'', ''suspended''} then (Err 400 ''status must be active|off-duty|suspended'', s)
          else if fault E ''set driver status'' then (Internal ''set driver status'', s)
          else if sub \<notin> dr_sub ` set (drivers s) then (Err 404 ''driver not found'', s)
          else (Reply 200 status, s\<lparr>drivers := upd_rows (\<lambda>d. dr_sub d = sub) (\<lambda>d. d\<lparr>dr_status := status\<rparr>) (drivers s)\<rparr>))"

section \<open>The partial unique indexes\<close>

interpretation by_driver: partial_unique dj_id "\<lambda>j. Some (dj_driver_sub j)" active_job driver_taken
  by unfold_locales (auto simp: driver_taken_def)

interpretation by_vehicle: partial_unique dj_id dj_vehicle_id active_job vehicle_taken
  by unfold_locales (auto simp: vehicle_taken_def)

definition jobs_ok :: "dispatch_store \<Rightarrow> bool" where
  "jobs_ok s \<longleftrightarrow> migrated s \<and> distinct (map dj_id (dispatch_jobs s)) \<and>
     by_driver.uniq (dispatch_jobs s) \<and> by_vehicle.uniq (dispatch_jobs s)"

lemma emit_event_frame [simp]:
  "dispatch_jobs (emit_event E t p s) = dispatch_jobs s" "migrated (emit_event E t p s) = migrated s"
  "drivers (emit_event E t p s) = drivers s" "charter_bookings (emit_event E t p s) = charter_bookings s"
  "charter_vehicles (emit_event E t p s) = charter_vehicles s" "known_buses (emit_event E t p s) = known_buses s"
  by (simp_all add: emit_event_def)

lemma signal_frame [simp]:
  "dispatch_jobs (signal_job E i n p s) = dispatch_jobs s" "migrated (signal_job E i n p s) = migrated s"
  "drivers (signal_job E i n p s) = drivers s" "charter_bookings (signal_job E i n p s) = charter_bookings s"
  "charter_vehicles (signal_job E i n p s) = charter_vehicles s" "known_buses (signal_job E i n p s) = known_buses s"
  by (simp_all add: signal_job_def)

lemma jobs_ok_emit_event [simp]: "jobs_ok (emit_event E t p s) = jobs_ok s"
  by (simp add: jobs_ok_def)

lemma jobs_ok_signal [simp]: "jobs_ok (signal_job E i n p s) = jobs_ok s"
  by (simp add: jobs_ok_def)

lemma jobs_ok_drivers [simp]: "jobs_ok (s\<lparr>drivers := ds\<rparr>) = jobs_ok s"
  by (simp add: jobs_ok_def)

lemma jobs_ok_insert:
  assumes "jobs_ok s" "dj_id j \<notin> dj_id ` set (dispatch_jobs s)" "\<not> job_taken s j"
    "dispatch_jobs s' = dispatch_jobs s @ [j]" "migrated s' = migrated s"
  shows "jobs_ok s'"
  using assms by (auto simp: jobs_ok_def job_taken_def intro: by_driver.uniq_insert by_vehicle.uniq_insert)

lemma jobs_ok_update:
  assumes "jobs_ok s" "\<And>j. P j \<Longrightarrow> dj_id (f j) = dj_id j \<and> dj_driver_sub (f j) = dj_driver_sub j \<and> dj_vehicle_id (f j) = dj_vehicle_id j"
    "\<And>j. P j \<Longrightarrow> active_job (f j) \<Longrightarrow> active_job j"
    "dispatch_jobs s' = upd_rows P f (dispatch_jobs s)" "migrated s' = migrated s"
  shows "jobs_ok s'"
proof -
  have "map dj_id (upd_rows P f (dispatch_jobs s)) = map dj_id (dispatch_jobs s)"
    using assms(2) by (auto simp: upd_rows_def)
  then show ?thesis
    using assms by (auto simp: jobs_ok_def intro!: by_driver.uniq_update by_vehicle.uniq_update)
qed

lemma jobs_ok_swap:
  assumes "jobs_ok s" "\<And>j. j \<in> set (dispatch_jobs s) \<Longrightarrow> dj_id j = i \<Longrightarrow> \<not> job_taken s (j\<lparr>dj_vehicle_id := v\<rparr>)"
    "dispatch_jobs s' = upd_rows (\<lambda>j. dj_id j = i) (\<lambda>j. j\<lparr>dj_vehicle_id := v\<rparr>) (dispatch_jobs s)" "migrated s' = migrated s"
  shows "jobs_ok s'"
proof -
  have "map dj_id (dispatch_jobs s') = map dj_id (dispatch_jobs s)" by (simp add: assms(3) map_upd_rows)
  moreover have "by_driver.uniq (dispatch_jobs s')" unfolding assms(3)
    by (rule by_driver.uniq_update_tested) (use assms(1,2) in \<open>auto simp: jobs_ok_def job_taken_def\<close>)
  moreover have "by_vehicle.uniq (dispatch_jobs s')" unfolding assms(3)
    by (rule by_vehicle.uniq_update_tested) (use assms(1,2) in \<open>auto simp: jobs_ok_def job_taken_def\<close>)
  ultimately show ?thesis using assms(1,4) by (simp add: jobs_ok_def)
qed

lemma jobs_ok_upd:
  assumes "jobs_ok s" "\<And>j. P j \<Longrightarrow> dj_id (f j) = dj_id j \<and> dj_driver_sub (f j) = dj_driver_sub j \<and> dj_vehicle_id (f j) = dj_vehicle_id j"
    "\<And>j. P j \<Longrightarrow> active_job (f j) \<Longrightarrow> active_job j"
  shows "jobs_ok (s\<lparr>dispatch_jobs := upd_rows P f (dispatch_jobs s)\<rparr>)"
  by (rule jobs_ok_update [OF assms]) simp_all

section \<open>Every step keeps them\<close>

lemma insert_job_ok:
  assumes "jobs_ok s"
  shows "jobs_ok (snd (insert_job E req s))"
proof -
  define P where "P r \<longleftrightarrow> jobs_ok (snd r)" for r :: "dispatch_job resp \<times> dispatch_store"
  have fail: "P (r, s)" for r using assms by (simp add: P_def)
  have "P (insert_job E req s)"
    unfolding insert_job_def Let_def
    by (intro branches [where P = P] fail) (auto simp: P_def intro: jobs_ok_insert [OF assms])
  then show ?thesis by (simp add: P_def)
qed

lemma accept_mark_ok: "jobs_ok s \<Longrightarrow> jobs_ok (snd (accept_mark E caller jid s))"
  by (auto simp: accept_mark_def Let_def active_job_def split: option.split intro!: jobs_ok_upd)

lemma CancelDispatchJob_ok: "jobs_ok s \<Longrightarrow> jobs_ok (snd (CancelDispatchJob E jid s))"
  by (auto simp: CancelDispatchJob_def Let_def split: option.split intro!: jobs_ok_upd)

lemma RequeueDispatchJob_ok: "jobs_ok s \<Longrightarrow> jobs_ok (snd (RequeueDispatchJob E jid s))"
  by (auto simp: RequeueDispatchJob_def active_job_def intro!: jobs_ok_upd)

lemma swap_mark_ok:
  assumes ok: "jobs_ok s"
  shows "jobs_ok (snd (swap_mark E job v reason s))"
proof -
  define P where "P r \<longleftrightarrow> jobs_ok (snd r)" for r :: "dispatch_job resp \<times> dispatch_store"
  have fail: "P (r, s)" for r using assms by (simp add: P_def)
  have good: "P (r, emit_event E t p (s\<lparr>dispatch_jobs := upd_rows (\<lambda>j. dj_id j = dj_id job) (\<lambda>j. j\<lparr>dj_vehicle_id := Some v\<rparr>) (dispatch_jobs s)\<rparr>))"
    if f: "find (\<lambda>j. dj_id j = dj_id job) (dispatch_jobs s) = Some j" and n: "\<not> job_taken s (j\<lparr>dj_vehicle_id := Some v\<rparr>)" for r t p j
  proof -
    have d: "distinct (map dj_id (dispatch_jobs s))" using ok by (simp add: jobs_ok_def)
    from find_Some_prop [OF f] have j: "j \<in> set (dispatch_jobs s)" "dj_id j = dj_id job" by auto
    have "k = j" if "k \<in> set (dispatch_jobs s)" "dj_id k = dj_id job" for k
      using distinct_key [OF d that(1) j(1)] that(2) j(2) by simp
    then show ?thesis unfolding P_def using n by (auto intro!: jobs_ok_swap [OF ok])
  qed
  have "P (swap_mark E job v reason s)"
    unfolding swap_mark_def Let_def by (intro branches [where P = P] fail good) assumption+
  then show ?thesis by (simp add: P_def)
qed

section \<open>Hours of service\<close>

lemma CreateDispatchJob_accepted:
  assumes "CreateDispatchJob E cfg (Some req) s = (Reply n j, s')"
  shows "hours_check E cfg req s = None" and "conflict_check E req s = None" and "j = new_job E (new_id E 0) req"
    and "dispatch_jobs s' = dispatch_jobs s @ [j]" and "\<not> job_taken s j" and "dj_id j \<notin> dj_id ` set (dispatch_jobs s)"
    and "\<And>a b. cj_starts_at req = Some a \<Longrightarrow> cj_ends_at req = Some b \<Longrightarrow> a < b"
proof -
  have h: "hours_check E cfg req s \<noteq> Some (Reply m u)" for m u
    by (simp add: hours_check_def Let_def split: option.split)
  have c: "conflict_check E req s \<noteq> Some (Reply m u)" for m u
    by (simp add: conflict_check_def split: option.split)
  let ?bad = "case (cj_starts_at req, cj_ends_at req) of (Some a, Some b) \<Rightarrow> \<not> b > a | _ \<Rightarrow> False"
  from assms have g: "\<not> ?bad" and eq: "(case hours_check E cfg req s of Some r \<Rightarrow> (r, s)
      | None \<Rightarrow> (case conflict_check E req s of Some r \<Rightarrow> (r, s) | None \<Rightarrow> insert_job E req s)) = (Reply n j, s')"
    unfolding CreateDispatchJob_def option.case(2) by (simp_all split: if_split_asm)
  from eq h show h0: "hours_check E cfg req s = None" by (cases "hours_check E cfg req s") auto
  with eq c show c0: "conflict_check E req s = None" by (cases "conflict_check E req s") auto
  from eq h0 c0 have ins: "insert_job E req s = (Reply n j, s')" by simp
  then show "j = new_job E (new_id E 0) req" and "dispatch_jobs s' = dispatch_jobs s @ [j]" and "\<not> job_taken s j"
    and "dj_id j \<notin> dj_id ` set (dispatch_jobs s)"
    unfolding insert_job_def Let_def by (auto simp only: split: if_split_asm) simp_all
  show "a < b" if "cj_starts_at req = Some a" "cj_ends_at req = Some b" for a b using g that by simp
qed

lemma duration_hours_exact: "duration_hours (\<lambda>x. x) d = of_int d / of_int hour_ns"
proof -
  have "(of_int (hour_ns * (d div hour_ns) + d mod hour_ns) :: rat) = of_int d" by (simp only: mult_div_mod_eq)
  then have "(of_int d :: rat) = of_int hour_ns * of_int (d div hour_ns) + of_int (d mod hour_ns)"
    by (simp only: of_int_add of_int_mult)
  then show ?thesis by (simp add: duration_hours_def field_simps)
qed

section \<open>A worked example\<close>

definition depot_env :: "string \<Rightarrow> db_env" where
  "depot_env n = (quiet_env (\<lambda>_ _ _ _ _ l. (Inr [], l)))\<lparr>new_id := (\<lambda>i. n @ replicate i CHR ''x''), day_start := (\<lambda>_ _. 0)\<rparr>"

definition depot_cfg :: dispatch_cfg where
  "depot_cfg = \<lparr>shift_env = None, daily_env = None, round64 = (\<lambda>x. x), next_midnight = (\<lambda>_ _. 24 * hour_ns)\<rparr>"

definition morning :: dispatch_job where
  "morning = \<lparr>dj_id = ''j1'', dj_driver_sub = ''d1'', dj_vehicle_id = Some ''b1'', dj_route = ''7'', dj_starts_at = Some 0,
     dj_ends_at = Some (4 * hour_ns), dj_status = ''accepted'', dj_created_at = 0, dj_accepted_at = None\<rparr>"

definition evening_req :: create_job_req where
  "evening_req = \<lparr>cj_driver_sub = ''d1'', cj_vehicle_id = Some ''b2'', cj_route = ''7'', cj_starts_at = Some (5 * hour_ns),
     cj_ends_at = Some (9 * hour_ns)\<rparr>"

definition depot :: "bool \<Rightarrow> dispatch_store" where
  "depot m = \<lparr>dispatch_jobs = [morning], drivers = [\<lparr>dr_sub = ''d1'', dr_name = ''Ada'', dr_license_no = ''L123'', dr_status = ''active''\<rparr>],
     known_buses = [''b1'', ''b2'', ''b3''], charter_bookings = [], charter_vehicles = [], signals = [], dispatch_events = [],
     migrated = m\<rparr>"

lemma depot_env_simps [simp]:
  "\<not> fault (depot_env n) op" "\<not> pub_fault (depot_env n) op" "new_id (depot_env n) i = n @ replicate i CHR ''x''"
  "day_start (depot_env n) tz t = 0" "getenv (depot_env n) v = []" "now (depot_env n) = 1000"
  by (simp_all add: depot_env_def quiet_env_def)

lemma evening_accepted:
  "CreateDispatchJob (depot_env ''j2'') depot_cfg (Some evening_req) (depot False) =
     insert_job (depot_env ''j2'') evening_req (depot False)"
  by (simp add: CreateDispatchJob_def evening_req_def hours_check_def depot_cfg_def Let_def dispatchMaxShiftHours_def
    dispatchMaxDailyHours_def duration_hours_exact time_sub_def daily_hours_def depot_def morning_def active_job_def to_micros_def
    conflict_check_def conflict_kind_def window_conflict_def)

section \<open>Properties of jobs\<close>

text \<open>
  The roster of a driver on a day, from the rows: the jobs not finished or cancelled that start in the
  window, each with its length, where a job without an end counts as the whole hours of the shift limit.
\<close>

definition job_hours :: "dispatch_cfg \<Rightarrow> dispatch_job \<Rightarrow> rat" where
  "job_hours cfg j =
     (case (dj_starts_at j, dj_ends_at j) of
        (Some a, Some b) \<Rightarrow> of_int (b - a) / of_int hour_ns
      | (Some a, None) \<Rightarrow> of_int \<lfloor>dispatchMaxShiftHours cfg\<rfloor>
      | _ \<Rightarrow> 0)"

definition rostered :: "string \<Rightarrow> int \<Rightarrow> int \<Rightarrow> dispatch_job \<Rightarrow> bool" where
  "rostered d lo hi j \<longleftrightarrow> dj_driver_sub j = d \<and>
     (dj_status j = ''assigned'' \<or> dj_status j = ''accepted'' \<or> dj_status j = ''in_progress'') \<and>
     (case dj_starts_at j of None \<Rightarrow> False | Some a \<Rightarrow> lo \<le> a \<and> a < hi)"

definition day_load :: "dispatch_cfg \<Rightarrow> string \<Rightarrow> int \<Rightarrow> int \<Rightarrow> dispatch_job list \<Rightarrow> rat" where
  "day_load cfg d lo hi js = (\<Sum>j\<leftarrow>js. if rostered d lo hi j then job_hours cfg j else 0)"

lemma daily_hours_load:
  "daily_hours E cfg d t s = day_load cfg d (day_start E (dispatchTimezone E) t) (next_midnight cfg (dispatchTimezone E) t) (dispatch_jobs s)"
proof -
  let ?lo = "day_start E (dispatchTimezone E) t" and ?hi = "next_midnight cfg (dispatchTimezone E) t"
  let ?P = "\<lambda>j. dj_driver_sub j = d \<and> active_job j \<and> (case dj_starts_at j of None \<Rightarrow> False | Some a \<Rightarrow> ?lo \<le> a \<and> a < ?hi)"
  let ?f = "\<lambda>j. case dj_starts_at j of None \<Rightarrow> 0 | Some a \<Rightarrow> of_int ((case dj_ends_at j of Some b \<Rightarrow> b |
      None \<Rightarrow> a + \<lfloor>dispatchMaxShiftHours cfg\<rfloor> * hour_ns) - a) / (of_int hour_ns :: rat)"
  have P: "?P j \<longleftrightarrow> rostered d ?lo ?hi j" for j by (simp add: rostered_def active_job_def)
  have f: "?f j = job_hours cfg j" for j by (simp add: job_hours_def split: option.split)
  have "sum_list (map ?f (filter ?P js)) = day_load cfg d ?lo ?hi js" for js
    unfolding f P by (induction js) (simp_all add: day_load_def)
  then show ?thesis by (simp only: daily_hours_def Let_def)
qed

lemma job_hours_nonneg: "\<forall>a b. dj_starts_at j = Some a \<longrightarrow> dj_ends_at j = Some b \<longrightarrow> a < b \<Longrightarrow> 0 \<le> job_hours cfg j"
proof -
  have "0 \<le> \<lfloor>dispatchMaxShiftHours cfg\<rfloor>" by (simp add: dispatchMaxShiftHours_def split: option.split)
  then show "\<forall>a b. dj_starts_at j = Some a \<longrightarrow> dj_ends_at j = Some b \<longrightarrow> a < b \<Longrightarrow> 0 \<le> job_hours cfg j"
    by (auto simp: job_hours_def intro: less_imp_le split: option.split)
qed

lemma day_load_nonneg:
  "\<forall>j \<in> set js. \<forall>a b. dj_starts_at j = Some a \<longrightarrow> dj_ends_at j = Some b \<longrightarrow> a < b \<Longrightarrow> 0 \<le> day_load cfg d lo hi js"
  unfolding day_load_def by (intro sum_list_nonneg) (auto intro: job_hours_nonneg)

lemma day_load_none: "\<forall>j \<in> set js. \<not> rostered d lo hi j \<Longrightarrow> day_load cfg d lo hi js = 0"
  by (induction js) (simp_all add: day_load_def)

lemma insert_job_accepted:
  assumes "insert_job E req s = (Reply n j, s')"
  shows "j = new_job E (new_id E 0) req" "dispatch_jobs s' = dispatch_jobs s @ [j]" "\<not> job_taken s j" "dj_id j \<notin> dj_id ` set (dispatch_jobs s)"
  using assms unfolding insert_job_def Let_def by (auto simp only: split: if_split_asm) simp_all

text \<open>What is on the roster when the insert succeeds: nothing with the indexes in place, else what was read before.\<close>

lemma load_at_insert:
  assumes "insert_job E req s = (Reply n j, s')" "migrated s \<or> dispatch_jobs s = dispatch_jobs s0"
    "\<forall>k \<in> set (dispatch_jobs s0). \<forall>a b. dj_starts_at k = Some a \<longrightarrow> dj_ends_at k = Some b \<longrightarrow> a < b"
  shows "day_load cfg (cj_driver_sub req) lo hi (dispatch_jobs s) \<le> day_load cfg (cj_driver_sub req) lo hi (dispatch_jobs s0)"
proof (cases "dispatch_jobs s = dispatch_jobs s0")
  case False
  note acc = insert_job_accepted [OF assms(1)]
  have j: "active_job j" "dj_driver_sub j = cj_driver_sub req" by (simp_all add: acc(1) new_job_def active_job_def)
  have "\<not> driver_taken (dispatch_jobs s) j" using acc(3) assms(2) False by (simp add: job_taken_def)
  then have free: "\<And>k. k \<in> set (dispatch_jobs s) \<Longrightarrow> dj_id k \<noteq> dj_id j \<Longrightarrow> active_job k \<Longrightarrow> dj_driver_sub k \<noteq> cj_driver_sub req"
    using j unfolding driver_taken_def by metis
  have "\<not> rostered (cj_driver_sub req) lo hi k" if k: "k \<in> set (dispatch_jobs s)" for k
  proof -
    have "dj_id k \<noteq> dj_id j" using acc(4) k by (metis image_eqI)
    from free [OF k this] show ?thesis unfolding rostered_def active_job_def by blast
  qed
  then have "day_load cfg (cj_driver_sub req) lo hi (dispatch_jobs s) = 0" by (intro day_load_none) simp
  then show ?thesis using day_load_nonneg [OF assms(3)] by simp
qed simp

text \<open>
  C26. Both hours-of-service limits hold for every accepted job with a start: its own length is within the shift
  limit, and the lengths of the driver's assigned, accepted and running jobs that start on the same civic day, the
  new one included, add up to at most the daily limit. The total is read outside the transaction, so the checks run on
  one state (\<open>s0\<close>) and the insert on a later one (\<open>s\<close>): in a migrated database the limit holds whatever happened in
  between, because the unique index admits no other active job of the driver; without the indexes it holds when the jobs have
  not changed in between. The arithmetic is taken to be exact (no rounding of float64), start and end are whole
  microseconds and less than 2 to the 63 nanoseconds apart, the end is after the start (checked first), and the jobs read have
  their ends after their starts. A job without an end counts as the whole hours of the shift limit, as in the
  query.
\<close>

theorem dispatch_hours_of_service:
  assumes exact: "round64 cfg = (\<lambda>x. x)" and chk: "hours_check E cfg req s0 = None"
    and ins: "insert_job E2 req s = (Reply n j, s')" and race: "migrated s \<or> dispatch_jobs s = dispatch_jobs s0"
    and rows: "\<forall>k \<in> set (dispatch_jobs s0). \<forall>a b. dj_starts_at k = Some a \<longrightarrow> dj_ends_at k = Some b \<longrightarrow> a < b"
    and st: "cj_starts_at req = Some a" "a mod 1000 = 0"
    and en: "\<forall>b. cj_ends_at req = Some b \<longrightarrow> a < b \<and> b mod 1000 = 0 \<and> b - a < 2 ^ 63"
  shows "(\<forall>b. cj_ends_at req = Some b \<longrightarrow> of_int (b - a) / of_int hour_ns \<le> dispatchMaxShiftHours cfg) \<and>
    day_load cfg (cj_driver_sub req) (day_start E (dispatchTimezone E) a) (next_midnight cfg (dispatchTimezone E) a)
      (dispatch_jobs s') \<le> dispatchMaxDailyHours cfg"
proof -
  note acc = insert_job_accepted [OF ins]
  let ?load = "day_load cfg (cj_driver_sub req) (day_start E (dispatchTimezone E) a) (next_midnight cfg (dispatchTimezone E) a)"
  have us: "to_micros t = t" if "t mod 1000 = 0" for t using that by (simp add: to_micros_def)
  let ?planned = "case cj_ends_at req of Some b \<Rightarrow> of_int (b - a) / of_int hour_ns | None \<Rightarrow> dispatchMaxShiftHours cfg"
  have sub: "time_sub b a = b - a" if "cj_ends_at req = Some b" for b using en that by (simp add: time_sub_def)
  have pl: "(case (cj_starts_at req, cj_ends_at req) of
      (Some a, Some b) \<Rightarrow> duration_hours (round64 cfg) (time_sub b a) | _ \<Rightarrow> dispatchMaxShiftHours cfg) = ?planned"
    using st(1) sub by (auto simp: exact duration_hours_exact split: option.split)
  from chk have lim: "\<not> (cj_ends_at req \<noteq> None \<and> ?planned > dispatchMaxShiftHours cfg)"
    "\<not> (?load (dispatch_jobs s0) + ?planned > dispatchMaxDailyHours cfg)"
    unfolding hours_check_def Let_def pl daily_hours_load by (auto simp: st us exact split: if_split_asm)
  have ends: "dj_starts_at j = Some a" "dj_ends_at j = cj_ends_at req"
    using st en us by (cases "cj_ends_at req"; simp add: acc(1) new_job_def)+
  have "0 \<le> job_hours cfg j" using ends en by (intro job_hours_nonneg) auto
  moreover have "job_hours cfg j \<le> ?planned" using ends by (simp add: job_hours_def of_int_floor_le split: option.split)
  moreover have "?load (dispatch_jobs s') = ?load (dispatch_jobs s) +
      (if rostered (cj_driver_sub req) (day_start E (dispatchTimezone E) a) (next_midnight cfg (dispatchTimezone E) a) j then job_hours cfg j else 0)"
    by (simp add: acc(2) day_load_def)
  ultimately have "?load (dispatch_jobs s') \<le> ?load (dispatch_jobs s0) + ?planned"
    using load_at_insert [OF ins race rows, of cfg "day_start E (dispatchTimezone E) a" "next_midnight cfg (dispatchTimezone E) a"]
    by (auto split: if_splits)
  with lim show ?thesis by (auto split: option.splits)
qed

text \<open>The driver finishes the morning job between the check and the insert.\<close>

definition after_morning :: dispatch_store where
  "after_morning = (depot True)\<lparr>dispatch_jobs := [morning\<lparr>dj_status := ''completed''\<rparr>]\<rparr>"

theorem dispatch_hours_of_service_witness:
  "day_load depot_cfg ''d1'' 0 (24 * hour_ns)
     (dispatch_jobs (snd (insert_job (depot_env ''j2'') evening_req after_morning))) \<le> dispatchMaxDailyHours depot_cfg \<and>
   of_int (9 * hour_ns - 5 * hour_ns) / of_int hour_ns \<le> dispatchMaxShiftHours depot_cfg"
proof -
  let ?j = "new_job (depot_env ''j2'') ''j2'' evening_req"
  have chk: "hours_check (depot_env ''j2'') depot_cfg evening_req (depot True) = None"
    by (simp add: evening_req_def hours_check_def depot_cfg_def Let_def dispatchMaxShiftHours_def dispatchMaxDailyHours_def
        duration_hours_exact time_sub_def daily_hours_def depot_def morning_def active_job_def to_micros_def)
  have "\<exists>s'. insert_job (depot_env ''j2'') evening_req after_morning = (Reply 201 ?j, s')"
    by (simp add: insert_job_def Let_def after_morning_def depot_def morning_def new_job_def job_taken_def job_dangling_def
        driver_taken_def vehicle_taken_def active_job_def evening_req_def)
  then obtain s' where ins: "insert_job (depot_env ''j2'') evening_req after_morning = (Reply 201 ?j, s')" by blast
  have rows: "\<forall>k \<in> set (dispatch_jobs (depot True)). \<forall>a b. dj_starts_at k = Some a \<longrightarrow> dj_ends_at k = Some b \<longrightarrow> a < b"
    by (simp add: depot_def morning_def)
  from dispatch_hours_of_service [OF _ chk ins _ rows, of "5 * hour_ns"] ins show ?thesis
    by (simp add: depot_cfg_def evening_req_def after_morning_def depot_def dispatchTimezone_def)
qed

text \<open>
  In a migrated database a driver with an active job is never given a second one, whatever the two windows
  are: the partial unique index refuses what the overlap test admits.
\<close>

theorem second_shift_always_refused:
  assumes "migrated s" "k \<in> set (dispatch_jobs s)" "active_job k" "dj_driver_sub k = cj_driver_sub req"
  shows "(\<forall>n j. fst (CreateDispatchJob E cfg (Some req) s) \<noteq> Reply n j) \<and> snd (CreateDispatchJob E cfg (Some req) s) = s"
proof -
  obtain r s' where rs: "CreateDispatchJob E cfg (Some req) s = (r, s')" by (rule prod.exhaust)
  have no: "r \<noteq> Reply n j" for n j
  proof
    assume "r = Reply n j"
    with rs have "CreateDispatchJob E cfg (Some req) s = (Reply n j, s')" by simp
    note acc = CreateDispatchJob_accepted [OF this]
    have "dj_id k \<noteq> dj_id j" using acc(6) assms(2) by (metis image_eqI)
    moreover have "active_job j" "dj_driver_sub j = cj_driver_sub req" by (simp_all add: acc(3) new_job_def active_job_def)
    ultimately have "driver_taken (dispatch_jobs s) j" unfolding driver_taken_def using assms by metis
    with acc(5) assms(1) show False by (simp add: job_taken_def)
  qed
  define P where "P x \<longleftrightarrow> (\<exists>n j. fst x = Reply n j) \<or> snd x = s" for x :: "dispatch_job resp \<times> dispatch_store"
  have fail: "P (r, s)" "P (Reply n j, t)" for r n j t by (simp_all add: P_def)
  have "P (CreateDispatchJob E cfg (Some req) s)"
    unfolding CreateDispatchJob_def insert_job_def Let_def option.case(2) by (intro branches [where P = P] fail)
  with rs no show ?thesis by (auto simp: P_def)
qed

theorem second_shift_always_refused_witness:
  "(\<forall>n j. fst (CreateDispatchJob (depot_env ''j2'') depot_cfg (Some evening_req) (depot True)) \<noteq> Reply n j) \<and>
   window_conflict (cj_starts_at evening_req) (cj_ends_at evening_req) morning = Some False"
  using second_shift_always_refused [of "depot True" morning evening_req "depot_env ''j2''" depot_cfg]
  by (simp add: depot_def morning_def active_job_def evening_req_def window_conflict_def)

text \<open>
  The job list filtered by driver only: the query uses the placeholder \<open>$2\<close> with one argument, and the
  request always fails.
\<close>

lemma list_by_driver_fails: "driver \<noteq> [] \<Longrightarrow> ListDispatchJobs E [] driver s = Internal ''list dispatch jobs''"
  by (simp add: ListDispatchJobs_def)

text \<open>
  A job without an end does not conflict with a later bounded job of the same driver: the comparison with
  the missing bound is unknown, and without the indexes of the migration both jobs become active.
\<close>

lemma open_ended_job_not_conflicting:
  assumes "cj_starts_at req = Some a" "cj_ends_at req = None" "dispatch_jobs s = [r]" "dj_starts_at r = Some b"
  shows "conflict_kind req s = None"
  using assms by (simp add: conflict_kind_def window_conflict_def split: option.split)

end
