(* ===== verification/Charters.thy ===== *)
theory Charters
  imports Dispatch "HOL-Library.List_Lexorder" "HOL-Library.Char_ord"
begin

text \<open>
  Charter bookings of infra-api (src/services/go/infra-api/internal/handlers/charters.go), which reserve
  vehicles by dispatch jobs of placeholder drivers. Creating and cancelling a booking are one transaction
  each; what a transaction inserts becomes visible at its commit, and a failure rolls it back.
\<close>

section \<open>Requests and replies\<close>

record charter_req =
  cr_reference :: string
  cr_customer_name :: string
  cr_contact :: string
  cr_starts_at :: int
  cr_ends_at :: int
  cr_vehicle_ids :: "string list"
  cr_notes :: string

type_synonym charter_reply = "charter_booking \<times> charter_vehicle list"

text \<open>Go's zero \<open>time.Time\<close>, the value of a missing timestamp.\<close>

definition zero_time :: int where
  "zero_time = - 62135596800000000000"

definition charterDriverSub :: "string \<Rightarrow> string \<Rightarrow> string" where
  "charterDriverSub reference vehicleID = ''charter:'' @ reference @ '':'' @ vehicleID"

section \<open>Booking\<close>

fun vehicle_ids_ok :: "string set \<Rightarrow> string list \<Rightarrow> bool" where
  "vehicle_ids_ok seen [] = True"
| "vehicle_ids_ok seen (v # vs) = (\<not> (v = [] \<or> v \<in> seen) \<and> vehicle_ids_ok (insert v seen) vs)"

text \<open>The loop over the vehicles, inside the transaction; the \<open>n\<close>-th job takes the generated id \<open>n\<close>.\<close>

fun charter_loop ::
  "db_env \<Rightarrow> charter_req \<Rightarrow> string \<Rightarrow> nat \<Rightarrow> string list \<Rightarrow> dispatch_store \<Rightarrow>
   charter_reply resp + charter_vehicle list \<times> dispatch_store" where
  "charter_loop E req bid n [] s = Inr ([], s)"
| "charter_loop E req bid n (v # vs) s =
     (let a = to_micros (cr_starts_at req); b = to_micros (cr_ends_at req);
          sub = charterDriverSub (cr_reference req) v;
          s1 = (if sub \<in> dr_sub ` set (drivers s) then s
                else s\<lparr>drivers := drivers s @ [\<lparr>dr_sub = sub, dr_name = ''Charter placeholder '' @ cr_reference req,
                       dr_license_no = [], dr_status = ''off-duty''\<rparr>]\<rparr>);
          j = new_job E (new_id E n) \<lparr>cj_driver_sub = sub, cj_vehicle_id = Some v, cj_route = ''charter:'' @ cr_reference req,
                cj_starts_at = Some (cr_starts_at req), cj_ends_at = Some (cr_ends_at req)\<rparr>;
          l = \<lparr>cv_booking_id = bid, cv_vehicle_id = v, cv_dispatch_job_id = dj_id j\<rparr> in
      if fault E ''charter vehicle conflict check'' then Inl (Internal ''charter vehicle conflict check'')
      else if \<exists>r \<in> set (dispatch_jobs s). dj_vehicle_id r = Some v \<and> active_job r \<and>
              (case dj_starts_at r of None \<Rightarrow> True | Some x \<Rightarrow> x < b) \<and> (case dj_ends_at r of None \<Rightarrow> True | Some x \<Rightarrow> x > a)
      then Inl (Err 409 (''vehicle '' @ v @ '' already has an overlapping active dispatch job''))
      else if fault E ''insert charter placeholder driver'' then Inl (Internal ''insert charter placeholder driver'')
      else if fault E ''insert charter dispatch job'' then Inl (Internal ''insert charter dispatch job'')
      else if dj_id j \<in> dj_id ` set (dispatch_jobs s1) \<or> job_taken s1 j
      then Inl (Err 409 (''vehicle '' @ v @ '' was booked concurrently''))
      else if job_dangling s1 j then Inl (Err 422 (''vehicle '' @ v @ '' does not reference a known vehicle''))
      else if fault E ''link charter vehicle'' \<or> (\<exists>x \<in> set (charter_vehicles s1). cv_dispatch_job_id x = dj_id j \<or>
                (cv_booking_id x = bid \<and> cv_vehicle_id x = v))
      then Inl (Internal ''link charter vehicle'')
      else map_sum id (\<lambda>(ls, s'). (l # ls, s'))
             (charter_loop E req bid (Suc n) vs
               (s1\<lparr>dispatch_jobs := dispatch_jobs s1 @ [j], charter_vehicles := charter_vehicles s1 @ [l]\<rparr>)))"

definition replay_charter :: "db_env \<Rightarrow> charter_req \<Rightarrow> dispatch_store \<Rightarrow> charter_reply resp" where
  "replay_charter E req s =
     (if fault E ''load existing charter booking'' then Internal ''load existing charter booking''
      else case find (\<lambda>b. cb_reference b = cr_reference req) (charter_bookings s) of
        None \<Rightarrow> Internal ''load existing charter booking''
      | Some b \<Rightarrow>
          if cb_customer_name b = cr_customer_name req \<and> cb_starts_at b = cr_starts_at req \<and> cb_ends_at b = cr_ends_at req
          then Reply 200 (b, []) else Err 409 ''reference already used by a different charter booking'')"

definition charter_tx ::
  "db_env \<Rightarrow> string \<Rightarrow> charter_req \<Rightarrow> dispatch_store \<Rightarrow> charter_reply resp \<times> dispatch_store" where
  "charter_tx E operator req s =
     (let b = \<lparr>cb_id = new_id E 0, cb_reference = cr_reference req, cb_customer_name = cr_customer_name req,
               cb_contact = cr_contact req, cb_starts_at = to_micros (cr_starts_at req), cb_ends_at = to_micros (cr_ends_at req),
               cb_status = ''confirmed'', cb_notes = cr_notes req, cb_created_by = operator,
               cb_created_at = to_micros (now E), cb_cancelled_at = None\<rparr> in
      if fault E ''begin charter booking'' then (Internal ''begin charter booking'', s)
      else if fault E ''lock charter reference'' then (Internal ''lock charter reference'', s)
      else if fault E ''insert charter booking'' \<or> \<not> cb_ends_at b > cb_starts_at b then (Internal ''insert charter booking'', s)
      else if \<exists>x \<in> set (charter_bookings s). cb_id x = cb_id b \<or> cb_reference x = cb_reference b
      then (replay_charter E req s, s)
      else case charter_loop E req (cb_id b) 1 (cr_vehicle_ids req) (s\<lparr>charter_bookings := charter_bookings s @ [b]\<rparr>) of
        Inl r \<Rightarrow> (r, s)
      | Inr (vehicles, s1) \<Rightarrow>
          if fault E ''commit charter booking'' then (Internal ''commit charter booking'', s)
          else (Reply 201 (b, vehicles), emit_event E ''charter.booking.confirmed''
            [(''booking_id'', JStr (cb_id b)), (''reference'', JStr (cb_reference b)), (''customer'', JStr (cb_customer_name b)),
             (''vehicle_ids'', JArr (map JStr (cr_vehicle_ids req))), (''starts_at'', JStr (rfc3339 (cb_starts_at b))),
             (''ends_at'', JStr (rfc3339 (cb_ends_at b)))] s1))"

definition CreateCharter ::
  "db_env \<Rightarrow> string \<Rightarrow> charter_req option \<Rightarrow> dispatch_store \<Rightarrow> charter_reply resp \<times> dispatch_store" where
  "CreateCharter E operator body s =
     (case body of
        None \<Rightarrow> (Err 400 ''body must include \"reference\" and \"customer_name\"'', s)
      | Some req \<Rightarrow>
          if cr_reference req = [] \<or> cr_customer_name req = []
          then (Err 400 ''body must include \"reference\" and \"customer_name\"'', s)
          else if cr_starts_at req = zero_time \<or> cr_ends_at req = zero_time \<or> \<not> cr_ends_at req > cr_starts_at req
          then (Err 400 ''starts_at and ends_at are required and ends_at must be after starts_at'', s)
          else if cr_vehicle_ids req = [] then (Err 400 ''vehicle_ids must name at least one vehicle'', s)
          else if \<not> vehicle_ids_ok {} (cr_vehicle_ids req)
          then (Err 400 ''vehicle_ids must be distinct, non-empty vehicle ids'', s)
          else charter_tx E operator req s)"

section \<open>Reading\<close>

definition ListCharters :: "db_env \<Rightarrow> string \<Rightarrow> dispatch_store \<Rightarrow> (charter_booking \<times> nat) list resp" where
  "ListCharters E status s =
     (if fault E ''list charter bookings'' then Internal ''list charter bookings''
      else if fault E ''scan charter booking'' then Internal ''scan charter booking''
      else if fault E ''iterate charter bookings'' then Internal ''iterate charter bookings''
      else Reply 200 (map (\<lambda>b. (b, length (filter (\<lambda>l. cv_booking_id l = cb_id b) (charter_vehicles s))))
             (newest cb_starts_at 200 (filter (\<lambda>b. status \<noteq> [] \<longrightarrow> cb_status b = status) (charter_bookings s)))))"

definition GetCharter :: "db_env \<Rightarrow> string \<Rightarrow> dispatch_store \<Rightarrow> charter_reply resp" where
  "GetCharter E bid s =
     (if fault E ''load charter booking'' then Internal ''load charter booking''
      else case find (\<lambda>b. cb_id b = bid) (charter_bookings s) of
        None \<Rightarrow> Err 404 ''charter booking not found''
      | Some b \<Rightarrow>
          if fault E ''list charter vehicles'' then Internal ''list charter vehicles''
          else if fault E ''scan charter vehicle'' then Internal ''scan charter vehicle''
          else if fault E ''iterate charter vehicles'' then Internal ''iterate charter vehicles''
          else Reply 200 (b, sort_key cv_vehicle_id (filter (\<lambda>l. cv_booking_id l = bid) (charter_vehicles s))))"

section \<open>Cancelling\<close>

definition CancelCharter :: "db_env \<Rightarrow> string \<Rightarrow> dispatch_store \<Rightarrow> charter_booking resp \<times> dispatch_store" where
  "CancelCharter E bid s =
     (let hit = (\<lambda>b. cb_id b = bid \<and> cb_status b = ''confirmed'');
          mark = (\<lambda>b. b\<lparr>cb_status := ''cancelled'', cb_cancelled_at := Some (to_micros (now E))\<rparr>);
          linked = (\<lambda>j. dj_id j \<in> cv_dispatch_job_id ` set (filter (\<lambda>l. cv_booking_id l = bid) (charter_vehicles s)) \<and> active_job j) in
      if fault E ''begin charter cancellation'' then (Internal ''begin charter cancellation'', s)
      else if fault E ''cancel charter booking'' then (Internal ''cancel charter booking'', s)
      else case find hit (charter_bookings s) of
        None \<Rightarrow> (Err 409 ''charter booking not found or not in confirmed status'', s)
      | Some b \<Rightarrow>
          if fault E ''cancel charter dispatch jobs'' then (Internal ''cancel charter dispatch jobs'', s)
          else if fault E ''scan cancelled charter job'' then (Internal ''scan cancelled charter job'', s)
          else if fault E ''iterate cancelled charter jobs'' then (Internal ''iterate cancelled charter jobs'', s)
          else if fault E ''commit charter cancellation'' then (Internal ''commit charter cancellation'', s)
          else
            let jobs = map dj_id (filter linked (dispatch_jobs s));
                s1 = s\<lparr>charter_bookings := upd_rows hit mark (charter_bookings s),
                       dispatch_jobs := upd_rows linked (\<lambda>j. j\<lparr>dj_status := ''cancelled''\<rparr>) (dispatch_jobs s)\<rparr>;
                s2 = fold (\<lambda>jid. signal_job E jid ''job-cancelled''
                       [(''job_id'', JStr jid), (''charter_reference'', JStr (cb_reference b))]) jobs s1 in
            (Reply 200 (mark b), emit_event E ''charter.booking.cancelled''
               [(''booking_id'', JStr (cb_id b)), (''reference'', JStr (cb_reference b)), (''jobs'', JArr (map JStr jobs))] s2))"

section \<open>What the loop books\<close>

definition overlaps :: "int \<Rightarrow> int \<Rightarrow> dispatch_job \<Rightarrow> bool" where
  "overlaps a b r \<longleftrightarrow> (case dj_starts_at r of None \<Rightarrow> True | Some x \<Rightarrow> x < b) \<and> (case dj_ends_at r of None \<Rightarrow> True | Some x \<Rightarrow> x > a)"

definition charter_job :: "charter_req \<Rightarrow> string \<Rightarrow> dispatch_job \<Rightarrow> bool" where
  "charter_job req v j \<longleftrightarrow> dj_vehicle_id j = Some v \<and> dj_driver_sub j = charterDriverSub (cr_reference req) v \<and>
     dj_route j = ''charter:'' @ cr_reference req \<and> dj_starts_at j = Some (to_micros (cr_starts_at req)) \<and>
     dj_ends_at j = Some (to_micros (cr_ends_at req)) \<and> dj_status j = ''assigned''"

text \<open>One iteration that does not fail.\<close>

definition charter_next :: "db_env \<Rightarrow> charter_req \<Rightarrow> string \<Rightarrow> nat \<Rightarrow> string \<Rightarrow> dispatch_store \<Rightarrow> dispatch_job \<Rightarrow> dispatch_store \<Rightarrow> bool" where
  "charter_next E req bid n v s j s1 \<longleftrightarrow>
     dispatch_jobs s1 = dispatch_jobs s @ [j] \<and> charter_job req v j \<and> dj_id j = new_id E n \<and>
     dj_id j \<notin> dj_id ` set (dispatch_jobs s) \<and> \<not> job_taken s j \<and>
     (\<forall>r \<in> set (dispatch_jobs s). dj_vehicle_id r = Some v \<and> active_job r \<longrightarrow>
        \<not> overlaps (to_micros (cr_starts_at req)) (to_micros (cr_ends_at req)) r) \<and>
     charter_vehicles s1 = charter_vehicles s @ [\<lparr>cv_booking_id = bid, cv_vehicle_id = v, cv_dispatch_job_id = dj_id j\<rparr>] \<and>
     charter_bookings s1 = charter_bookings s \<and> migrated s1 = migrated s"

lemma job_taken_drivers [simp]: "job_taken (s\<lparr>drivers := ds\<rparr>) j = job_taken s j"
  by (simp add: job_taken_def)

lemma charter_loop_Cons:
  assumes "charter_loop E req bid n (v # vs) s = Inr (ls, s')"
  obtains j s1 ls1 where "charter_next E req bid n v s j s1" "charter_loop E req bid (Suc n) vs s1 = Inr (ls1, s')"
    "ls = \<lparr>cv_booking_id = bid, cv_vehicle_id = v, cv_dispatch_job_id = dj_id j\<rparr> # ls1"
proof -
  let ?sub = "charterDriverSub (cr_reference req) v"
  let ?s0 = "if ?sub \<in> dr_sub ` set (drivers s) then s
    else s\<lparr>drivers := drivers s @ [\<lparr>dr_sub = ?sub, dr_name = ''Charter placeholder '' @ cr_reference req,
             dr_license_no = [], dr_status = ''off-duty''\<rparr>]\<rparr>"
  let ?j = "new_job E (new_id E n) \<lparr>cj_driver_sub = ?sub, cj_vehicle_id = Some v, cj_route = ''charter:'' @ cr_reference req,
                cj_starts_at = Some (cr_starts_at req), cj_ends_at = Some (cr_ends_at req)\<rparr>"
  let ?l = "\<lparr>cv_booking_id = bid, cv_vehicle_id = v, cv_dispatch_job_id = dj_id ?j\<rparr>"
  let ?s1 = "?s0\<lparr>dispatch_jobs := dispatch_jobs ?s0 @ [?j], charter_vehicles := charter_vehicles ?s0 @ [?l]\<rparr>"
  have fr: "dispatch_jobs ?s0 = dispatch_jobs s" "charter_vehicles ?s0 = charter_vehicles s" "job_taken ?s0 ?j = job_taken s ?j"
    by simp_all
  have sp: "\<not> (\<exists>r \<in> set (dispatch_jobs s). dj_vehicle_id r = Some v \<and> active_job r \<and>
        (case dj_starts_at r of None \<Rightarrow> True | Some x \<Rightarrow> x < to_micros (cr_ends_at req)) \<and>
        (case dj_ends_at r of None \<Rightarrow> True | Some x \<Rightarrow> x > to_micros (cr_starts_at req)))"
    "\<not> (dj_id ?j \<in> dj_id ` set (dispatch_jobs s) \<or> job_taken s ?j)"
    "map_sum id (\<lambda>(ls, s'). (?l # ls, s')) (charter_loop E req bid (Suc n) vs ?s1) = Inr (ls, s')"
    using assms unfolding charter_loop.simps Let_def fr by (simp_all only: split: if_split_asm) blast+
  have "charter_next E req bid n v s ?j ?s1"
    using sp(1,2) by (auto simp: charter_next_def charter_job_def overlaps_def new_job_def)
  moreover from sp(3) obtain ls1 where "charter_loop E req bid (Suc n) vs ?s1 = Inr (ls1, s')" "ls = ?l # ls1"
    by (cases "charter_loop E req bid (Suc n) vs ?s1") auto
  ultimately show thesis by (rule that)
qed

lemma charter_next_ok: "charter_next E req bid n v s j s1 \<Longrightarrow> jobs_ok s \<Longrightarrow> jobs_ok s1"
  by (auto simp: charter_next_def intro: jobs_ok_insert)

lemma charter_loop_ok: "charter_loop E req bid n vs s = Inr (ls, s') \<Longrightarrow> jobs_ok s \<Longrightarrow> jobs_ok s'"
proof (induction vs arbitrary: n s ls)
  case (Cons v vs)
  from Cons.prems(1) obtain j s1 ls1 where
    "charter_next E req bid n v s j s1" "charter_loop E req bid (Suc n) vs s1 = Inr (ls1, s')"
    by (rule charter_loop_Cons)
  with Cons.IH Cons.prems(2) charter_next_ok show ?case by blast
qed simp

lemma charter_loop_books:
  assumes "charter_loop E req bid n vs s = Inr (ls, s')"
  shows "\<exists>js. dispatch_jobs s' = dispatch_jobs s @ js \<and> list_all2 (charter_job req) vs js \<and>
     ls = map2 (\<lambda>v j. \<lparr>cv_booking_id = bid, cv_vehicle_id = v, cv_dispatch_job_id = dj_id j\<rparr>) vs js \<and>
     charter_vehicles s' = charter_vehicles s @ ls \<and> charter_bookings s' = charter_bookings s \<and>
     (\<forall>r \<in> set (dispatch_jobs s). \<forall>v \<in> set vs. dj_vehicle_id r = Some v \<and> active_job r \<longrightarrow>
        \<not> overlaps (to_micros (cr_starts_at req)) (to_micros (cr_ends_at req)) r)"
  using assms
proof (induction vs arbitrary: n s ls)
  case (Cons v vs)
  from Cons.prems(1) obtain j s1 ls1 where nx: "charter_next E req bid n v s j s1"
    and lp: "charter_loop E req bid (Suc n) vs s1 = Inr (ls1, s')"
    and ls: "ls = \<lparr>cv_booking_id = bid, cv_vehicle_id = v, cv_dispatch_job_id = dj_id j\<rparr> # ls1"
    by (rule charter_loop_Cons)
  from Cons.IH [OF lp] obtain js where js: "dispatch_jobs s' = dispatch_jobs s1 @ js" "list_all2 (charter_job req) vs js"
    "ls1 = map2 (\<lambda>v j. \<lparr>cv_booking_id = bid, cv_vehicle_id = v, cv_dispatch_job_id = dj_id j\<rparr>) vs js"
    "charter_vehicles s' = charter_vehicles s1 @ ls1" "charter_bookings s' = charter_bookings s1"
    "\<forall>r \<in> set (dispatch_jobs s1). \<forall>v \<in> set vs. dj_vehicle_id r = Some v \<and> active_job r \<longrightarrow>
        \<not> overlaps (to_micros (cr_starts_at req)) (to_micros (cr_ends_at req)) r" by blast
  from nx js show ?case
    by (intro exI [of _ "j # js"]) (auto simp: charter_next_def ls)
qed simp

lemma charter_loop_error: "charter_loop E req bid n vs s \<noteq> Inl (Reply k u)"
proof (induction vs arbitrary: n s)
  case (Cons v vs)
  define Q where "Q x \<longleftrightarrow> x \<noteq> Inl (Reply k u)" for x :: "charter_reply resp + charter_vehicle list \<times> dispatch_store"
  have err: "Q (Inl (Internal m))" "Q (Inl (Err i m))" for m i by (simp_all add: Q_def)
  have rest: "Q (map_sum id f (charter_loop E req bid i vs t))" for f i t
    using Cons.IH [of i t] by (cases "charter_loop E req bid i vs t") (auto simp: Q_def)
  have "Q (charter_loop E req bid n (v # vs) s)"
    unfolding charter_loop.simps Let_def by (intro branches [where P = Q] err rest)
  then show ?case by (simp add: Q_def)
qed simp

lemma charter_tx_cases:
  assumes "charter_tx E operator req s = (r, s')"
  obtains (refused) "s' = s" "\<And>n v. r = Reply n v \<Longrightarrow> n = 200 \<and> snd v = [] \<and> fst v \<in> set (charter_bookings s) \<and>
      cb_reference (fst v) = cr_reference req"
  | (booked) b ls s1 where "r = Reply 201 (b, ls)" "cb_status b = ''confirmed''" "cb_reference b = cr_reference req"
      "\<And>x. x \<in> set (charter_bookings s) \<Longrightarrow> cb_id x \<noteq> cb_id b \<and> cb_reference x \<noteq> cr_reference req"
      "charter_loop E req (cb_id b) 1 (cr_vehicle_ids req) (s\<lparr>charter_bookings := charter_bookings s @ [b]\<rparr>) = Inr (ls, s1)"
      "dispatch_jobs s' = dispatch_jobs s1" "charter_vehicles s' = charter_vehicles s1"
      "charter_bookings s' = charter_bookings s1" "migrated s' = migrated s1"
proof -
  define P where "P r \<longleftrightarrow> (snd r = s \<and> (\<forall>n v. fst r = Reply n v \<longrightarrow> n = 200 \<and> snd v = [] \<and> fst v \<in> set (charter_bookings s) \<and>
      cb_reference (fst v) = cr_reference req)) \<or>
    (\<exists>b ls s1. fst r = Reply 201 (b, ls) \<and> cb_status b = ''confirmed'' \<and> cb_reference b = cr_reference req \<and>
      (\<forall>x \<in> set (charter_bookings s). cb_id x \<noteq> cb_id b \<and> cb_reference x \<noteq> cr_reference req) \<and>
      charter_loop E req (cb_id b) 1 (cr_vehicle_ids req) (s\<lparr>charter_bookings := charter_bookings s @ [b]\<rparr>) = Inr (ls, s1) \<and>
      dispatch_jobs (snd r) = dispatch_jobs s1 \<and> charter_vehicles (snd r) = charter_vehicles s1 \<and>
      charter_bookings (snd r) = charter_bookings s1 \<and> migrated (snd r) = migrated s1)"
    for r :: "charter_reply resp \<times> dispatch_store"
  have fail: "P (Internal m, s)" for m by (simp add: P_def)
  have inl: "P (r, s)" if "charter_loop E req bid n vs t = Inl r" for r bid n vs t
  proof -
    have "\<nexists>n v. r = Reply n v" using charter_loop_error [of E req bid n vs t] that by auto
    then show ?thesis by (simp add: P_def)
  qed
  have replay: "P (replay_charter E req s, s)"
    by (auto simp: P_def replay_charter_def dest!: find_Some_prop split: option.split if_splits)
  have "P (charter_tx E operator req s)"
    unfolding charter_tx_def Let_def
    by (intro branches [where P = P] fail replay) (erule inl, auto simp: P_def)
  then show thesis using assms refused booked unfolding P_def by auto
qed

section \<open>Steps of concurrent requests\<close>

lemma charter_tx_ok: "jobs_ok s \<Longrightarrow> jobs_ok (snd (charter_tx E operator req s))"
proof (cases "charter_tx E operator req s" rule: prod.exhaust)
  case (Pair r s')
  assume ok: "jobs_ok s"
  from Pair show ?thesis
  proof (cases rule: charter_tx_cases)
    case (booked b ls s1)
    have "jobs_ok (s\<lparr>charter_bookings := charter_bookings s @ [b]\<rparr>)" using ok by (simp add: jobs_ok_def)
    from charter_loop_ok [OF booked(5) this] have "jobs_ok s1" .
    then show ?thesis using Pair booked by (simp add: jobs_ok_def)
  qed (use Pair ok in simp)
qed

lemma fold_signal_frame [simp]:
  "dispatch_jobs (fold (\<lambda>jid. signal_job E jid n (p jid)) is s) = dispatch_jobs s"
  "migrated (fold (\<lambda>jid. signal_job E jid n (p jid)) is s) = migrated s"
  "charter_bookings (fold (\<lambda>jid. signal_job E jid n (p jid)) is s) = charter_bookings s"
  "charter_vehicles (fold (\<lambda>jid. signal_job E jid n (p jid)) is s) = charter_vehicles s"
  by (induction "is" arbitrary: s) simp_all

definition linked_job :: "string \<Rightarrow> dispatch_store \<Rightarrow> dispatch_job \<Rightarrow> bool" where
  "linked_job bid s j \<longleftrightarrow> dj_id j \<in> cv_dispatch_job_id ` set (filter (\<lambda>l. cv_booking_id l = bid) (charter_vehicles s))"

lemma CancelCharter_cases:
  assumes "CancelCharter E bid s = (r, s')"
  obtains (refused) "s' = s" "\<And>n v. r \<noteq> Reply n v"
  | (cancelled) b where "b \<in> set (charter_bookings s)" "cb_id b = bid" "cb_status b = ''confirmed''"
      "r = Reply 200 (b\<lparr>cb_status := ''cancelled'', cb_cancelled_at := Some (to_micros (now E))\<rparr>)"
      "dispatch_jobs s' = upd_rows (\<lambda>j. linked_job bid s j \<and> active_job j) (\<lambda>j. j\<lparr>dj_status := ''cancelled''\<rparr>) (dispatch_jobs s)"
      "charter_bookings s' = upd_rows (\<lambda>b. cb_id b = bid \<and> cb_status b = ''confirmed'')
         (\<lambda>b. b\<lparr>cb_status := ''cancelled'', cb_cancelled_at := Some (to_micros (now E))\<rparr>) (charter_bookings s)"
      "charter_vehicles s' = charter_vehicles s" "migrated s' = migrated s"
proof -
  define P where "P x \<longleftrightarrow> (snd x = s \<and> (\<forall>n v. fst x \<noteq> Reply n v)) \<or>
    (\<exists>b. b \<in> set (charter_bookings s) \<and> cb_id b = bid \<and> cb_status b = ''confirmed'' \<and>
      fst x = Reply 200 (b\<lparr>cb_status := ''cancelled'', cb_cancelled_at := Some (to_micros (now E))\<rparr>) \<and>
      dispatch_jobs (snd x) = upd_rows (\<lambda>j. linked_job bid s j \<and> active_job j) (\<lambda>j. j\<lparr>dj_status := ''cancelled''\<rparr>) (dispatch_jobs s) \<and>
      charter_bookings (snd x) = upd_rows (\<lambda>b. cb_id b = bid \<and> cb_status b = ''confirmed'')
         (\<lambda>b. b\<lparr>cb_status := ''cancelled'', cb_cancelled_at := Some (to_micros (now E))\<rparr>) (charter_bookings s) \<and>
      charter_vehicles (snd x) = charter_vehicles s \<and> migrated (snd x) = migrated s)"
    for x :: "charter_booking resp \<times> dispatch_store"
  have fail: "P (Internal m, s)" "P (Err n m, s)" for m n by (simp_all add: P_def)
  have "P (CancelCharter E bid s)"
    unfolding CancelCharter_def Let_def linked_job_def [symmetric]
    by (intro branches [where P = P] fail) (drule find_Some_prop, auto simp: P_def)
  then show thesis using assms refused cancelled unfolding P_def by auto
qed

lemma CancelCharter_ok:
  assumes ok: "jobs_ok s"
  shows "jobs_ok (snd (CancelCharter E bid s))"
proof (cases "CancelCharter E bid s" rule: prod.exhaust)
  case (Pair r s')
  from Pair show ?thesis
  proof (cases rule: CancelCharter_cases)
    case (cancelled b)
    show ?thesis unfolding Pair snd_conv
      by (rule jobs_ok_update [OF ok _ _ cancelled(5) cancelled(8)]) simp_all
  qed (use Pair ok in simp)
qed

text \<open>
  A database step of some request; the checks a request made before its step may have seen any earlier
  state.
\<close>

inductive dispatch_step :: "dispatch_store \<Rightarrow> dispatch_store \<Rightarrow> bool" where
  create: "dispatch_step s (snd (insert_job E req s))"
| accept: "dispatch_step s (snd (accept_mark E caller jid s))"
| cancel: "dispatch_step s (snd (CancelDispatchJob E jid s))"
| requeue: "dispatch_step s (snd (RequeueDispatchJob E jid s))"
| swap: "dispatch_step s (snd (swap_mark E job v reason s))"
| charter: "dispatch_step s (snd (charter_tx E operator creq s))"
| cancel_charter: "dispatch_step s (snd (CancelCharter E bid s))"
| register: "dispatch_step s (snd (RegisterDriver E sub body s))"
| create_driver: "dispatch_step s (snd (CreateDriver E dbody s))"
| driver_status: "dispatch_step s (snd (SetDriverStatus E sub sbody s))"

lemma RegisterDriver_ok: "jobs_ok s \<Longrightarrow> jobs_ok (snd (RegisterDriver E sub body s))"
  by (simp add: RegisterDriver_def split: sum.split prod.split)

lemma CreateDriver_ok: "jobs_ok s \<Longrightarrow> jobs_ok (snd (CreateDriver E body s))"
  by (simp add: CreateDriver_def upsertDriver_def Let_def split: sum.split prod.split option.split)

lemma SetDriverStatus_ok: "jobs_ok s \<Longrightarrow> jobs_ok (snd (SetDriverStatus E sub body s))"
  by (simp add: SetDriverStatus_def split: sum.split)

lemma dispatch_step_ok: "dispatch_step s s' \<Longrightarrow> jobs_ok s \<Longrightarrow> jobs_ok s'"
  by (induction rule: dispatch_step.induct)
     (simp_all only: insert_job_ok accept_mark_ok CancelDispatchJob_ok RequeueDispatchJob_ok swap_mark_ok charter_tx_ok
        CancelCharter_ok RegisterDriver_ok CreateDriver_ok SetDriverStatus_ok)

lemma dispatch_steps_ok: "dispatch_step\<^sup>*\<^sup>* s s' \<Longrightarrow> jobs_ok s \<Longrightarrow> jobs_ok s'"
  by (induction rule: rtranclp_induct) (blast intro: dispatch_step_ok)+

section \<open>A worked charter\<close>

definition school_trip :: charter_req where
  "school_trip = \<lparr>cr_reference = ''R1'', cr_customer_name = ''School'', cr_contact = [], cr_starts_at = 5 * hour_ns,
     cr_ends_at = 6 * hour_ns, cr_vehicle_ids = [''b2'', ''b3''], cr_notes = []\<rparr>"

definition trip_booked :: dispatch_store where
  "trip_booked = snd (CreateCharter (depot_env ''c'') ''op'' (Some school_trip) (depot True))"

lemmas charter_eval = CreateCharter_def charter_tx_def school_trip_def zero_time_def Let_def charterDriverSub_def
  depot_def morning_def new_job_def job_taken_def driver_taken_def vehicle_taken_def job_dangling_def active_job_def to_micros_def
  emit_event_def

lemma depot_jobs_ok: "jobs_ok (depot True)"
  by (simp add: jobs_ok_def depot_def by_driver.uniq_def by_vehicle.uniq_def)

lemma school_trip_booked:
  "\<exists>b ls. CreateCharter (depot_env ''c'') ''op'' (Some school_trip) (depot True) = (Reply 201 (b, ls), trip_booked)"
  unfolding trip_booked_def by (simp add: charter_eval)

section \<open>Properties\<close>

text \<open>
  C25. In a migrated database, no interleaving of the steps of concurrent requests (creating, accepting,
  cancelling, requeueing and swapping jobs, booking and cancelling charters, managing drivers) ever makes two
  different active jobs share a driver or a vehicle, and job ids stay unique.
\<close>

theorem dispatch_no_double_booking:
  assumes "dispatch_step\<^sup>*\<^sup>* s s'" "jobs_ok s" "j \<in> set (dispatch_jobs s')" "k \<in> set (dispatch_jobs s')"
    "active_job j" "active_job k" "j \<noteq> k"
  shows "dj_id j \<noteq> dj_id k \<and> dj_driver_sub j \<noteq> dj_driver_sub k \<and>
    (dj_vehicle_id j = None \<or> dj_vehicle_id j \<noteq> dj_vehicle_id k)"
proof -
  have ok: "jobs_ok s'" by (rule dispatch_steps_ok [OF assms(1,2)])
  then have ids: "dj_id j \<noteq> dj_id k" using distinct_key [of dj_id, OF _ assms(3,4)] assms(7) by (auto simp: jobs_ok_def)
  moreover have "dj_driver_sub j \<noteq> dj_driver_sub k"
    using by_driver.uniqD [OF _ assms(3,4,5,6)] ok ids by (auto simp: jobs_ok_def)
  moreover have "dj_vehicle_id j = None \<or> dj_vehicle_id j \<noteq> dj_vehicle_id k"
    using by_vehicle.uniqD [OF _ assms(3,4,5,6)] ok ids unfolding jobs_ok_def by blast
  ultimately show ?thesis by blast
qed

theorem dispatch_no_double_booking_witness:
  "active_job (dispatch_jobs trip_booked ! 1) \<and> dj_driver_sub morning \<noteq> dj_driver_sub (dispatch_jobs trip_booked ! 1) \<and>
   dj_vehicle_id morning \<noteq> dj_vehicle_id (dispatch_jobs trip_booked ! 1)"
proof -
  let ?j = "dispatch_jobs trip_booked ! 1"
  have tx: "CreateCharter (depot_env ''c'') ''op'' (Some school_trip) (depot True) = charter_tx (depot_env ''c'') ''op'' school_trip (depot True)"
    by (simp add: CreateCharter_def school_trip_def zero_time_def)
  have "dispatch_step (depot True) trip_booked" unfolding trip_booked_def tx by (rule charter)
  then have run: "dispatch_step\<^sup>*\<^sup>* (depot True) trip_booked" by (rule r_into_rtranclp)
  have j: "morning \<in> set (dispatch_jobs trip_booked)" "?j \<in> set (dispatch_jobs trip_booked)" "morning \<noteq> ?j" "active_job ?j"
    by (simp_all add: trip_booked_def charter_eval)
  have m: "active_job morning" "dj_vehicle_id morning \<noteq> None" by (simp_all add: morning_def active_job_def)
  from dispatch_no_double_booking [OF run depot_jobs_ok j(1,2) m(1) j(4,3)] j(4) m(2) show ?thesis by blast
qed

text \<open>
  A charter request books all its vehicles or none: unless it answers 201 it changes nothing, and a 201
  adds one confirmed booking under a fresh reference and exactly one assigned job per requested vehicle, for the requested window and
  linked to the booking, on vehicles that had no active job overlapping that window.
\<close>

theorem charter_all_or_nothing:
  assumes "CreateCharter E operator (Some req) s = (r, s')"
  shows "(\<forall>v. r \<noteq> Reply 201 v) \<and> s' = s \<or>
    (\<exists>b ls js. r = Reply 201 (b, ls) \<and> cb_status b = ''confirmed'' \<and> cb_reference b = cr_reference req \<and>
       cr_reference req \<notin> cb_reference ` set (charter_bookings s) \<and>
       charter_bookings s' = charter_bookings s @ [b] \<and> dispatch_jobs s' = dispatch_jobs s @ js \<and>
       list_all2 (charter_job req) (cr_vehicle_ids req) js \<and> cr_vehicle_ids req \<noteq> [] \<and>
       ls = map2 (\<lambda>v j. \<lparr>cv_booking_id = cb_id b, cv_vehicle_id = v, cv_dispatch_job_id = dj_id j\<rparr>) (cr_vehicle_ids req) js \<and>
       charter_vehicles s' = charter_vehicles s @ ls \<and>
       (\<forall>k \<in> set (dispatch_jobs s). \<forall>v \<in> set (cr_vehicle_ids req). dj_vehicle_id k = Some v \<and> active_job k \<longrightarrow>
          \<not> overlaps (to_micros (cr_starts_at req)) (to_micros (cr_ends_at req)) k))"
proof (cases "cr_vehicle_ids req = [] \<or> fst (CreateCharter E operator (Some req) s) \<noteq> fst (charter_tx E operator req s)")
  case True
  then have "(\<forall>v. r \<noteq> Reply 201 v) \<and> s' = s" using assms by (auto simp: CreateCharter_def split: if_splits)
  then show ?thesis by blast
next
  case False
  then show ?thesis
  proof (cases "CreateCharter E operator (Some req) s = charter_tx E operator req s")
    case True
    with assms have "charter_tx E operator req s = (r, s')" by simp
    then show ?thesis
    proof (cases rule: charter_tx_cases)
      case refused
      then show ?thesis by fastforce
    next
      case (booked b ls s1)
      from charter_loop_books [OF booked(5)] obtain js where
        "dispatch_jobs s1 = dispatch_jobs s @ js" "list_all2 (charter_job req) (cr_vehicle_ids req) js"
        "ls = map2 (\<lambda>v j. \<lparr>cv_booking_id = cb_id b, cv_vehicle_id = v, cv_dispatch_job_id = dj_id j\<rparr>) (cr_vehicle_ids req) js"
        "charter_vehicles s1 = charter_vehicles s @ ls" "charter_bookings s1 = charter_bookings s @ [b]"
        "\<forall>r \<in> set (dispatch_jobs s). \<forall>v \<in> set (cr_vehicle_ids req). dj_vehicle_id r = Some v \<and> active_job r \<longrightarrow>
           \<not> overlaps (to_micros (cr_starts_at req)) (to_micros (cr_ends_at req)) r" by auto
      moreover have "cr_reference req \<notin> cb_reference ` set (charter_bookings s)" using booked(4) by fastforce
      ultimately show ?thesis using booked False by (intro disjI2 exI [of _ b] exI [of _ ls] exI [of _ js]) simp
    qed
  qed (use assms in \<open>auto simp: CreateCharter_def split: if_splits\<close>)
qed

theorem charter_all_or_nothing_witness:
  "\<exists>js. dispatch_jobs trip_booked = [morning] @ js \<and> list_all2 (charter_job school_trip) [''b2'', ''b3''] js"
proof -
  obtain b ls where b: "CreateCharter (depot_env ''c'') ''op'' (Some school_trip) (depot True) = (Reply 201 (b, ls), trip_booked)"
    using school_trip_booked by blast
  have vs: "cr_vehicle_ids school_trip = [''b2'', ''b3'']" "dispatch_jobs (depot True) = [morning]"
    by (simp_all add: school_trip_def depot_def)
  from charter_all_or_nothing [OF b] show ?thesis unfolding vs by blast
qed

text \<open>
  An accepted cancellation frees every vehicle of the charter at once: afterwards no job linked to the
  booking is active, all other jobs are as before, and the booking cannot be cancelled again.
\<close>

theorem charter_cancel_frees:
  assumes "CancelCharter E bid s = (Reply n v, s')"
  shows "cb_status v = ''cancelled'' \<and> cb_id v = bid \<and>
    (\<forall>j \<in> set (dispatch_jobs s'). linked_job bid s j \<longrightarrow> \<not> active_job j) \<and>
    filter (\<lambda>j. \<not> linked_job bid s j) (dispatch_jobs s') = filter (\<lambda>j. \<not> linked_job bid s j) (dispatch_jobs s) \<and>
    (\<forall>E' m u. fst (CancelCharter E' bid s') \<noteq> Reply m u)"
  using assms
proof (cases rule: CancelCharter_cases)
  case (cancelled b)
  have lk: "linked_job bid s (j\<lparr>dj_status := x\<rparr>) = linked_job bid s j" for j x by (simp add: linked_job_def)
  have "fst (CancelCharter E' bid s') \<noteq> Reply m u" for E' m u
  proof
    assume a: "fst (CancelCharter E' bid s') = Reply m u"
    note once = cancelled(6)
    obtain r2 s2 where "CancelCharter E' bid s' = (r2, s2)" by (rule prod.exhaust)
    then show False
    proof (cases rule: CancelCharter_cases)
      case (cancelled b2)
      have "\<not> (cb_id b2 = bid \<and> cb_status b2 = ''confirmed'')"
        by (rule upd_rows_misses [OF cancelled(1) [unfolded once]]) simp
      with cancelled(2,3) show False by blast
    qed (use a \<open>CancelCharter E' bid s' = (r2, s2)\<close> in auto)
  qed
  moreover have "\<forall>j \<in> set (dispatch_jobs s'). linked_job bid s j \<longrightarrow> \<not> active_job j"
    unfolding cancelled(5) by (auto simp: upd_rows_def lk active_job_def)
  moreover have "filter (\<lambda>j. \<not> linked_job bid s j) (dispatch_jobs s') = filter (\<lambda>j. \<not> linked_job bid s j) (dispatch_jobs s)"
    unfolding cancelled(5) by (rule filter_upd_rows_other) (simp_all add: lk)
  ultimately show ?thesis using cancelled by auto
qed auto

theorem charter_cancel_frees_witness:
  "status_code (fst (CancelCharter (depot_env ''z'') ''c'' trip_booked)) = 200 \<and>
   linked_job ''c'' trip_booked (dispatch_jobs (snd (CancelCharter (depot_env ''z'') ''c'' trip_booked)) ! 1) \<and>
   \<not> active_job (dispatch_jobs (snd (CancelCharter (depot_env ''z'') ''c'' trip_booked)) ! 1)"
proof -
  let ?j = "dispatch_jobs (snd (CancelCharter (depot_env ''z'') ''c'' trip_booked)) ! 1"
  have "\<exists>s' v. CancelCharter (depot_env ''z'') ''c'' trip_booked = (Reply 200 v, s')"
    by (simp add: CancelCharter_def trip_booked_def charter_eval signal_job_def)
  then obtain s' v where c: "CancelCharter (depot_env ''z'') ''c'' trip_booked = (Reply 200 v, s')" by blast
  have "?j \<in> set (dispatch_jobs (snd (CancelCharter (depot_env ''z'') ''c'' trip_booked))) \<and> linked_job ''c'' trip_booked ?j"
    by (simp add: linked_job_def CancelCharter_def trip_booked_def charter_eval signal_job_def)
  with charter_cancel_frees [OF c] c show ?thesis by simp
qed

text \<open>
  A request that reuses the reference, customer and window of a booking for other vehicles is answered 200
  with the old booking: the vehicles are not compared.
\<close>

lemma charter_replay_ignores_vehicles:
  assumes "b \<in> set (charter_bookings s)" "distinct (map cb_reference (charter_bookings s))" "cb_reference b = cr_reference req"
    "cb_customer_name b = cr_customer_name req" "cb_starts_at b = cr_starts_at req" "cb_ends_at b = cr_ends_at req"
    "\<not> fault E ''load existing charter booking''"
  shows "replay_charter E (req\<lparr>cr_vehicle_ids := vs\<rparr>) s = Reply 200 (b, [])"
  using distinct_map_find [OF assms(2,1)] assms by (simp add: replay_charter_def)

end
