(* ===== verification/Depot.thy ===== *)
theory Depot
  imports Dispatch
begin

text \<open>
  Depot management of infra-api: bays and work orders
  (src/services/go/infra-api/internal/handlers/depot.go) and the work orders created from maintenance
  predictions (src/services/go/infra-api/internal/consumers/maintenance.go). A work-order transition reads the status
  and writes the new one in two statements. The foreign keys of migration 0005 may be absent; a text that is
  not a uuid is one of the faults of its statement.
\<close>

section \<open>Rows\<close>

record work_order =
  wo_id :: string
  wo_title :: string
  wo_description :: string
  wo_asset_ref :: string
  wo_status :: string
  wo_bus_id :: "string option"
  wo_prediction_id :: "string option"
  wo_assignee :: "string option"
  wo_started_at :: "int option"
  wo_opened_at :: int
  wo_closed_at :: "int option"

record depot_bay =
  bay_id :: string
  bay_depot :: string
  bay_label :: string
  bay_kind :: string
  bay_occupied_by :: "string option"
  bay_status :: string

record depot_store =
  work_orders :: "work_order list"
  depot_bays :: "depot_bay list"
  depot_vehicles :: "string list"
  depot_predictions :: "string list"
  depot_fks :: bool

definition workOrderTransitions :: "string \<Rightarrow> string list" where
  "workOrderTransitions status =
     (if status = ''open'' then [''assigned'', ''in_progress'', ''closed'']
      else if status = ''assigned'' then [''in_progress'', ''on_hold'', ''open'', ''closed'']
      else if status = ''in_progress'' then [''on_hold'', ''closed'']
      else if status = ''on_hold'' then [''in_progress'', ''closed'']
      else [])"

section \<open>Bays\<close>

text \<open>\<open>ORDER BY depot, label\<close> follows the collation of the database: the sort is the parameter \<open>by_depot_label\<close>.\<close>

definition ListDepotBays ::
  "db_env \<Rightarrow> (depot_bay list \<Rightarrow> depot_bay list) \<Rightarrow> string \<Rightarrow> string \<Rightarrow> depot_store \<Rightarrow> depot_bay list resp" where
  "ListDepotBays E by_depot_label dep status s =
     (if fault E ''list depot bays'' then Internal ''list depot bays''
      else if fault E ''scan depot bay'' then Internal ''scan depot bay''
      else if fault E ''iterate depot bays'' then Internal ''iterate depot bays''
      else Reply 200 (by_depot_label (filter (\<lambda>b. (dep \<noteq> [] \<longrightarrow> bay_depot b = dep) \<and>
             (status \<noteq> [] \<longrightarrow> bay_status b = status)) (depot_bays s))))"

definition AssignDepotBay :: "db_env \<Rightarrow> string \<Rightarrow> string option \<Rightarrow> depot_store \<Rightarrow> depot_bay resp \<times> depot_store" where
  "AssignDepotBay E bid body s =
     (case body of
        None \<Rightarrow> (Err 400 ''body must include \"bus_id\"'', s)
      | Some busID \<Rightarrow>
          let hit = (\<lambda>b. bay_id b = bid \<and> bay_status b = ''free'');
              mark = (\<lambda>b. b\<lparr>bay_occupied_by := Some busID, bay_status := ''occupied''\<rparr>) in
          if busID = [] then (Err 400 ''body must include \"bus_id\"'', s)
          else if fault E ''assign depot bay'' then (Internal ''assign depot bay'', s)
          else (case find hit (depot_bays s) of
             None \<Rightarrow> (Err 409 ''bay not found or not free'', s)
           | Some b \<Rightarrow> (Reply 200 (mark b), s\<lparr>depot_bays := upd_rows hit mark (depot_bays s)\<rparr>)))"

definition ReleaseDepotBay :: "db_env \<Rightarrow> string \<Rightarrow> depot_store \<Rightarrow> depot_bay resp \<times> depot_store" where
  "ReleaseDepotBay E bid s =
     (let hit = (\<lambda>b. bay_id b = bid \<and> bay_status b = ''occupied'');
          mark = (\<lambda>b. b\<lparr>bay_occupied_by := None, bay_status := ''free''\<rparr>) in
      if fault E ''release depot bay'' then (Internal ''release depot bay'', s)
      else case find hit (depot_bays s) of
        None \<Rightarrow> (Err 409 ''bay not found or not occupied'', s)
      | Some b \<Rightarrow> (Reply 200 (mark b), s\<lparr>depot_bays := upd_rows hit mark (depot_bays s)\<rparr>))"

section \<open>Work orders\<close>

definition ListWorkOrders :: "db_env \<Rightarrow> string \<Rightarrow> string \<Rightarrow> depot_store \<Rightarrow> work_order list resp" where
  "ListWorkOrders E status busID s =
     (if fault E ''list work orders'' then Internal ''list work orders''
      else if fault E ''scan work order'' then Internal ''scan work order''
      else if fault E ''iterate work orders'' then Internal ''iterate work orders''
      else Reply 200 (newest wo_opened_at 200 (filter (\<lambda>w. (status \<noteq> [] \<longrightarrow> wo_status w = status) \<and>
             (busID \<noteq> [] \<longrightarrow> wo_bus_id w = Some busID)) (work_orders s))))"

text \<open>The index \<open>work_orders_open_prediction_uq\<close> and the foreign keys.\<close>

definition prediction_taken :: "work_order list \<Rightarrow> work_order \<Rightarrow> bool" where
  "prediction_taken xs w \<longleftrightarrow> wo_prediction_id w \<noteq> None \<and> wo_status w \<noteq> ''closed'' \<and>
     (\<exists>x \<in> set xs. wo_id x \<noteq> wo_id w \<and> wo_status x \<noteq> ''closed'' \<and> wo_prediction_id x = wo_prediction_id w)"

definition order_dangling :: "depot_store \<Rightarrow> work_order \<Rightarrow> bool" where
  "order_dangling s w \<longleftrightarrow> depot_fks s \<and>
     ((case wo_bus_id w of None \<Rightarrow> False | Some b \<Rightarrow> b \<notin> set (depot_vehicles s)) \<or>
      (case wo_prediction_id w of None \<Rightarrow> False | Some p \<Rightarrow> p \<notin> set (depot_predictions s)))"

record create_order_req =
  co_title :: string
  co_description :: string
  co_asset_ref :: string
  co_bus_id :: "string option"
  co_prediction_id :: "string option"
  co_assignee :: "string option"

definition CreateWorkOrder :: "db_env \<Rightarrow> create_order_req option \<Rightarrow> depot_store \<Rightarrow> work_order resp \<times> depot_store" where
  "CreateWorkOrder E body s =
     (case body of
        None \<Rightarrow> (Err 400 ''body must include \"title\"'', s)
      | Some req \<Rightarrow>
          if co_title req = [] then (Err 400 ''body must include \"title\"'', s)
          else
            let w = \<lparr>wo_id = new_id E 0, wo_title = co_title req, wo_description = co_description req, wo_asset_ref = co_asset_ref req,
                     wo_status = (if (case co_assignee req of None \<Rightarrow> False | Some a \<Rightarrow> a \<noteq> []) then ''assigned'' else ''open''),
                     wo_bus_id = co_bus_id req, wo_prediction_id = co_prediction_id req, wo_assignee = co_assignee req,
                     wo_started_at = None, wo_opened_at = to_micros (now E), wo_closed_at = None\<rparr> in
            if fault E ''create work order'' then (Internal ''create work order'', s)
            else if wo_id w \<in> wo_id ` set (work_orders s) \<or> prediction_taken (work_orders s) w
            then (Err 409 ''an open work order already exists for this prediction'', s)
            else if order_dangling s w
            then (Err 422 ''bus_id or prediction_id does not reference a known vehicle/prediction'', s)
            else (Reply 201 w, s\<lparr>work_orders := work_orders s @ [w]\<rparr>))"

text \<open>
  \<open>transitionWorkOrder\<close> up to the update: the assignee of an assignment is read from the body (nothing
  when it does not decode), the status from the row.
\<close>

definition transition_check ::
  "db_env \<Rightarrow> string \<Rightarrow> string option option \<Rightarrow> string \<Rightarrow> depot_store \<Rightarrow> work_order resp + (string \<times> string)" where
  "transition_check E target body wid s =
     (if target = ''assigned'' \<and> body = None then Inl (Err 400 ''invalid JSON body'')
      else if fault E ''load work order'' then Inl (Internal ''load work order'')
      else case find (\<lambda>w. wo_id w = wid) (work_orders s) of
        None \<Rightarrow> Inl (Err 404 ''work order not found'')
      | Some w \<Rightarrow>
          if wo_status w = target then Inl (Err 409 (''work order already in status '' @ target))
          else if target \<notin> set (workOrderTransitions (wo_status w))
          then Inl (Err 409 (''invalid status transition from '' @ wo_status w @ '' to '' @ target))
          else if target = ''assigned'' then
            (case body of
               Some (Some a) \<Rightarrow> if a = [] then Inl (Err 400 ''assignee is required when assigning a work order'') else Inr (target, a)
             | _ \<Rightarrow> Inl (Err 400 ''assignee is required when assigning a work order''))
          else Inr (target, []))"

definition transition_mark :: "db_env \<Rightarrow> string \<times> string \<Rightarrow> work_order \<Rightarrow> work_order" where
  "transition_mark E ta w =
     (case ta of (target, a) \<Rightarrow>
        if target = ''assigned'' then w\<lparr>wo_status := target, wo_assignee := Some a\<rparr>
        else if target = ''in_progress'' then
          w\<lparr>wo_status := target, wo_started_at := (case wo_started_at w of None \<Rightarrow> Some (to_micros (now E)) | Some t \<Rightarrow> Some t)\<rparr>
        else if target = ''closed'' then w\<lparr>wo_status := target, wo_closed_at := Some (to_micros (now E))\<rparr>
        else w\<lparr>wo_status := target\<rparr>)"

definition transition_write ::
  "db_env \<Rightarrow> string \<times> string \<Rightarrow> string \<Rightarrow> depot_store \<Rightarrow> work_order resp \<times> depot_store" where
  "transition_write E ta wid s =
     (if fault E ''transition work order'' then (Internal ''transition work order'', s)
      else case find (\<lambda>w. wo_id w = wid) (work_orders s) of
        None \<Rightarrow> (Internal ''transition work order'', s)
      | Some w \<Rightarrow>
          if prediction_taken (work_orders s) (transition_mark E ta w) then (Internal ''transition work order'', s)
          else (Reply 200 (transition_mark E ta w),
                s\<lparr>work_orders := upd_rows (\<lambda>w. wo_id w = wid) (transition_mark E ta) (work_orders s)\<rparr>))"

definition transitionWorkOrder ::
  "db_env \<Rightarrow> string \<Rightarrow> string option option \<Rightarrow> string \<Rightarrow> depot_store \<Rightarrow> work_order resp \<times> depot_store" where
  "transitionWorkOrder E target body wid s =
     (case transition_check E target body wid s of Inl r \<Rightarrow> (r, s) | Inr ta \<Rightarrow> transition_write E ta wid s)"

definition AssignWorkOrder :: "db_env \<Rightarrow> string option option \<Rightarrow> string \<Rightarrow> depot_store \<Rightarrow> work_order resp \<times> depot_store" where
  "AssignWorkOrder E = transitionWorkOrder E ''assigned''"

definition StartWorkOrder :: "db_env \<Rightarrow> string \<Rightarrow> depot_store \<Rightarrow> work_order resp \<times> depot_store" where
  "StartWorkOrder E = transitionWorkOrder E ''in_progress'' None"

definition HoldWorkOrder :: "db_env \<Rightarrow> string \<Rightarrow> depot_store \<Rightarrow> work_order resp \<times> depot_store" where
  "HoldWorkOrder E = transitionWorkOrder E ''on_hold'' None"

definition CloseWorkOrder :: "db_env \<Rightarrow> string \<Rightarrow> depot_store \<Rightarrow> work_order resp \<times> depot_store" where
  "CloseWorkOrder E = transitionWorkOrder E ''closed'' None"

section \<open>Work orders from predictions\<close>

record prediction =
  mp_prediction_id :: string
  mp_bus_id :: string
  mp_component :: string
  mp_risk_score :: rat
  mp_predicted_failure_at :: string
  mp_model_version :: string

definition WorkOrderTitle :: "prediction \<Rightarrow> string" where
  "WorkOrderTitle p = ''Predicted '' @ mp_component p @ '' failure risk '' @ format_fixed 2 (mp_risk_score p) @ '' (bus '' @ mp_bus_id p @ '')''"

text \<open>
  \<open>ON CONFLICT (cols) WHERE cond\<close> chooses a unique index on the columns whose predicate follows from the
  condition, and is an error when there is none. Predicates are lists of conjuncts.
\<close>

definition open_prediction_index :: "string list" where
  "open_prediction_index = [''prediction_id IS NOT NULL'', ''status <> closed'']"

definition infers_index :: "string list \<Rightarrow> string list \<Rightarrow> bool" where
  "infers_index index_pred cond \<longleftrightarrow> set index_pred \<subseteq> set cond"

definition CreateWorkOrderFromPrediction :: "db_env \<Rightarrow> prediction \<Rightarrow> depot_store \<Rightarrow> bool \<times> depot_store" where
  "CreateWorkOrderFromPrediction E p s =
     (let w = \<lparr>wo_id = new_id E 0, wo_title = WorkOrderTitle p,
               wo_description = ''Auto-created from maintenance.predicted: component='' @ mp_component p @ '' risk='' @
                 format_fixed 3 (mp_risk_score p) @ '' predicted_failure_at='' @ mp_predicted_failure_at p @ '' model='' @ mp_model_version p,
               wo_asset_ref = ''fleet:'' @ mp_bus_id p, wo_status = ''open'', wo_bus_id = Some (mp_bus_id p),
               wo_prediction_id = Some (mp_prediction_id p), wo_assignee = None, wo_started_at = None,
               wo_opened_at = to_micros (now E), wo_closed_at = None\<rparr> in
      if mp_prediction_id p = [] \<or> mp_bus_id p = [] \<or> mp_component p = [] then (False, s)
      else if fault E ''insert prediction work order'' \<or> \<not> infers_index open_prediction_index [''status <> closed''] then (False, s)
      else if prediction_taken (work_orders s) w then (True, s)
      else if wo_id w \<in> wo_id ` set (work_orders s) \<or> order_dangling s w then (False, s)
      else (True, s\<lparr>work_orders := work_orders s @ [w]\<rparr>))"

text \<open>
  The consumer of \<open>maintenance.predicted\<close>: a message that does not decode is dropped and its offset
  committed, one whose work order fails is left for redelivery. The second component of the state is
  the committed offset.
\<close>

datatype prediction_message = BadPrediction | Predicted prediction

fun consume_prediction :: "db_env \<Rightarrow> nat \<times> prediction_message \<Rightarrow> depot_store \<times> nat \<Rightarrow> depot_store \<times> nat" where
  "consume_prediction E (off, BadPrediction) (s, k) = (s, Suc off)"
| "consume_prediction E (off, Predicted p) (s, k) =
     (case CreateWorkOrderFromPrediction E p s of (ok, s') \<Rightarrow> (s', if ok then Suc off else k))"

fun consume_predictions :: "(nat \<Rightarrow> db_env) \<Rightarrow> (nat \<times> prediction_message) list \<Rightarrow> depot_store \<times> nat \<Rightarrow> depot_store \<times> nat" where
  "consume_predictions E [] sk = sk"
| "consume_predictions E (r # rs) sk = consume_predictions E rs (consume_prediction (E (fst r)) r sk)"

section \<open>Steps of concurrent requests\<close>

interpretation by_prediction: partial_unique wo_id wo_prediction_id "\<lambda>w. wo_status w \<noteq> ''closed''" prediction_taken
  by unfold_locales (auto simp: prediction_taken_def)

text \<open>\<open>Z\<close>: the bays that were marked occupied without a bus to begin with (the schema seeds one).\<close>

definition bay_ok :: "string set \<Rightarrow> depot_bay \<Rightarrow> bool" where
  "bay_ok Z b \<longleftrightarrow> (bay_occupied_by b \<noteq> None \<longrightarrow> bay_status b = ''occupied'') \<and>
     (bay_status b = ''occupied'' \<and> bay_id b \<notin> Z \<longrightarrow> bay_occupied_by b \<noteq> None)"

definition depot_ok :: "string set \<Rightarrow> depot_store \<Rightarrow> bool" where
  "depot_ok Z s \<longleftrightarrow> distinct (map wo_id (work_orders s)) \<and> by_prediction.uniq (work_orders s) \<and>
     (\<forall>w \<in> set (work_orders s). wo_status w = ''closed'' \<longrightarrow> wo_closed_at w \<noteq> None) \<and>
     (\<forall>b \<in> set (depot_bays s). bay_ok Z b)"

text \<open>
  A transition writes whatever its check admitted earlier, so its write is a step of its own, with
  any target and assignee.
\<close>

inductive depot_step :: "depot_store \<Rightarrow> depot_store \<Rightarrow> bool" where
  step_assign_bay: "depot_step s (snd (AssignDepotBay E bid body s))"
| step_release_bay: "depot_step s (snd (ReleaseDepotBay E bid s))"
| step_create: "depot_step s (snd (CreateWorkOrder E body s))"
| step_predicted: "depot_step s (snd (CreateWorkOrderFromPrediction E p s))"
| step_transition: "depot_step s (snd (transition_write E ta wid s))"

lemma depot_ok_add:
  assumes "depot_ok Z s" "wo_id w \<notin> wo_id ` set (work_orders s)" "\<not> prediction_taken (work_orders s) w" "wo_status w \<noteq> ''closed''"
  shows "depot_ok Z (s\<lparr>work_orders := work_orders s @ [w]\<rparr>)"
  using assms by_prediction.uniq_insert by (auto simp: depot_ok_def)

lemma depot_ok_bays:
  assumes "depot_ok Z s" "\<And>b. bay_ok Z (f b)"
  shows "depot_ok Z (s\<lparr>depot_bays := upd_rows hit f (depot_bays s)\<rparr>)"
proof -
  have "bay_ok Z b" if "b \<in> set (upd_rows hit f (depot_bays s))" for b
    using set_upd_rowsD [OF that] assms by (auto simp: depot_ok_def split: if_splits)
  with assms(1) show ?thesis by (simp add: depot_ok_def)
qed

lemma transition_mark_frame [simp]:
  "wo_id (transition_mark E ta w) = wo_id w" "wo_prediction_id (transition_mark E ta w) = wo_prediction_id w"
  "wo_status (transition_mark E ta w) = fst ta"
  by (cases ta; simp add: transition_mark_def)+

lemma transition_mark_closed: "fst ta = ''closed'' \<Longrightarrow> wo_closed_at (transition_mark E ta w) \<noteq> None"
  by (cases ta) (simp add: transition_mark_def)

lemma depot_ok_transition:
  assumes "depot_ok Z s" "find (\<lambda>w. wo_id w = wid) (work_orders s) = Some w"
    "\<not> prediction_taken (work_orders s) (transition_mark E ta w)"
  shows "depot_ok Z (s\<lparr>work_orders := upd_rows (\<lambda>w. wo_id w = wid) (transition_mark E ta) (work_orders s)\<rparr>)"
proof -
  let ?xs = "upd_rows (\<lambda>w. wo_id w = wid) (transition_mark E ta) (work_orders s)"
  have w: "w \<in> set (work_orders s)" "wo_id w = wid" using find_Some_prop [OF assms(2)] by simp_all
  have d: "distinct (map wo_id (work_orders s))" using assms(1) by (simp add: depot_ok_def)
  have "by_prediction.uniq ?xs"
  proof (rule by_prediction.uniq_update_tested)
    fix x assume "x \<in> set (work_orders s)" "wo_id x = wid"
    with d w have "x = w" by (metis distinct_key)
    with assms(3) show "\<not> prediction_taken (work_orders s) (transition_mark E ta x)" by simp
  qed (use assms(1) in \<open>simp_all add: depot_ok_def\<close>)
  moreover have "wo_closed_at x \<noteq> None" if "x \<in> set ?xs" "wo_status x = ''closed''" for x
    using set_upd_rowsD [OF that(1)] that(2) assms(1) transition_mark_closed [of ta E]
    by (auto simp: depot_ok_def split: if_splits)
  moreover have "map wo_id ?xs = map wo_id (work_orders s)" by (rule map_upd_rows) simp
  ultimately show ?thesis using assms(1) by (simp add: depot_ok_def)
qed

lemma depot_step_ok: "depot_step s s' \<Longrightarrow> depot_ok Z s \<Longrightarrow> depot_ok Z s'"
proof (induction rule: depot_step.induct)
  case (step_assign_bay s E bid body)
  then show ?case by (auto simp: AssignDepotBay_def Let_def bay_ok_def intro!: depot_ok_bays split: option.split)
next
  case (step_release_bay s E bid)
  then show ?case by (auto simp: ReleaseDepotBay_def Let_def bay_ok_def intro!: depot_ok_bays split: option.split)
next
  case (step_create s E body)
  define P where "P r \<longleftrightarrow> depot_ok Z (snd r)" for r :: "work_order resp \<times> depot_store"
  have keep: "P (r, s)" for r using step_create by (simp add: P_def)
  have "P (CreateWorkOrder E body s)"
    unfolding CreateWorkOrder_def Let_def
    by (intro branches [where P = P] keep) (auto simp: P_def intro!: depot_ok_add step_create)
  then show ?case by (simp add: P_def)
next
  case (step_predicted s E p)
  then show ?case
    by (simp add: CreateWorkOrderFromPrediction_def Let_def depot_ok_add)
next
  case (step_transition s E ta wid)
  then show ?case by (auto simp: transition_write_def depot_ok_transition split: option.split)
qed

section \<open>Properties\<close>

text \<open>
  C39. Whatever requests and predictions reach the depot, interleaved statement by statement, no two
  different work orders that are not closed carry the same prediction, ids stay distinct, a closed
  order has its closing time, a bay with a bus recorded in it is occupied, and an occupied bay has its
  bus recorded, unless it was seeded occupied without one.
\<close>

theorem depot_consistent:
  assumes "depot_step\<^sup>*\<^sup>* s t" and "work_orders s = []" and "\<And>b. b \<in> set (depot_bays s) \<Longrightarrow> bay_occupied_by b = None"
  shows "distinct (map wo_id (work_orders t)) \<and>
    (\<forall>v \<in> set (work_orders t). \<forall>w \<in> set (work_orders t). wo_status v \<noteq> ''closed'' \<and> wo_status w \<noteq> ''closed'' \<and>
       wo_prediction_id v \<noteq> None \<and> wo_prediction_id v = wo_prediction_id w \<longrightarrow> v = w) \<and>
    (\<forall>w \<in> set (work_orders t). wo_status w = ''closed'' \<longrightarrow> wo_closed_at w \<noteq> None) \<and>
    (\<forall>b \<in> set (depot_bays t). (bay_occupied_by b \<noteq> None \<longrightarrow> bay_status b = ''occupied'') \<and>
       (bay_status b = ''occupied'' \<and> (\<forall>z \<in> set (depot_bays s). bay_id z = bay_id b \<longrightarrow> bay_status z \<noteq> ''occupied'') \<longrightarrow>
          bay_occupied_by b \<noteq> None))"
proof -
  let ?Z = "bay_id ` {z \<in> set (depot_bays s). bay_status z = ''occupied''}"
  have "depot_ok ?Z s" using assms(2,3) by (auto simp: depot_ok_def bay_ok_def by_prediction.uniq_Nil)
  with assms(1) have ok: "depot_ok ?Z t" by (induction rule: rtranclp_induct) (auto intro: depot_step_ok)
  then have "v = w" if "v \<in> set (work_orders t)" "w \<in> set (work_orders t)" "wo_status v \<noteq> ''closed''" "wo_status w \<noteq> ''closed''"
    "wo_prediction_id v \<noteq> None" "wo_prediction_id v = wo_prediction_id w" for v w
    using by_prediction.uniqD [of "work_orders t" v w] that distinct_key [of wo_id "work_orders t" v w] unfolding depot_ok_def by simp
  moreover have "bay_ok ?Z b" if "b \<in> set (depot_bays t)" for b using ok that by (simp add: depot_ok_def)
  moreover have "bay_id b \<notin> ?Z" if "\<forall>z \<in> set (depot_bays s). bay_id z = bay_id b \<longrightarrow> bay_status z \<noteq> ''occupied''" for b :: depot_bay
    using that by fastforce
  ultimately show ?thesis using ok unfolding depot_ok_def bay_ok_def by blast
qed

definition yard :: depot_store where
  "yard = \<lparr>work_orders = [], depot_bays = [\<lparr>bay_id = ''b1'', bay_depot = ''N'', bay_label = ''1'', bay_kind = ''wash'',
     bay_occupied_by = None, bay_status = ''free''\<rparr>], depot_vehicles = [''v1''], depot_predictions = [''p1''], depot_fks = True\<rparr>"

definition repair :: create_order_req where
  "repair = \<lparr>co_title = ''brakes'', co_description = [], co_asset_ref = [], co_bus_id = Some ''v1'',
     co_prediction_id = Some ''p1'', co_assignee = None\<rparr>"

theorem depot_consistent_witness:
  "\<exists>t. depot_step\<^sup>*\<^sup>* yard t \<and> map wo_prediction_id (work_orders t) = [Some ''p1''] \<and>
     map bay_occupied_by (depot_bays t) = [Some ''v1''] \<and> distinct (map wo_id (work_orders t))"
proof -
  let ?t1 = "snd (AssignDepotBay (depot_env ''w1'') ''b1'' (Some ''v1'') yard)"
  let ?t = "snd (CreateWorkOrder (depot_env ''w1'') (Some repair) ?t1)"
  have "depot_step yard ?t1" "depot_step ?t1 ?t" by (rule step_assign_bay, rule step_create)
  then have run: "depot_step\<^sup>*\<^sup>* yard ?t" by (rule converse_rtranclp_into_rtranclp [OF _ r_into_rtranclp])
  have pre: "work_orders yard = []" "b \<in> set (depot_bays yard) \<Longrightarrow> bay_occupied_by b = None" for b
    by (auto simp: yard_def)
  have "map wo_prediction_id (work_orders ?t) = [Some ''p1'']" "map bay_occupied_by (depot_bays ?t) = [Some ''v1'']"
    by (simp_all add: yard_def repair_def depot_env_def AssignDepotBay_def CreateWorkOrder_def prediction_taken_def
        order_dangling_def Let_def quiet_env_def)
  with run depot_consistent [OF run pre, THEN conjunct1] show ?thesis by (intro exI [of _ ?t] conjI)
qed

text \<open>
  No maintenance prediction ever becomes a work order: the conflict clause of the insert names a
  condition from which the predicate of the index does not follow, so the database refuses every
  insert, and a batch of whatever predictions leaves the store as it was and commits no decodable message.
\<close>

theorem predictions_never_become_work_orders:
  "fst (consume_predictions E rs (s, k)) = s \<and>
   fst (CreateWorkOrderFromPrediction (E 0) p s) = False \<and>
   snd (consume_predictions E (map (\<lambda>(off, p). (off, Predicted p)) ps) (s, k)) = k"
proof -
  have no: "CreateWorkOrderFromPrediction e q u = (False, u)" for e q u
    by (simp add: CreateWorkOrderFromPrediction_def Let_def infers_index_def open_prediction_index_def)
  have step: "fst (consume_prediction e r (u, i)) = u" for e r u i
    by (cases r; cases "snd r") (auto simp: no)
  have one: "fst (consume_predictions E rs (u, i)) = u" for rs u i
  proof (induction rs arbitrary: i)
    case (Cons r rs)
    then show ?case using step [of "E (fst r)" r u i] by (cases "consume_prediction (E (fst r)) r (u, i)") simp
  qed simp
  have "snd (consume_predictions E (map (\<lambda>(off, p). (off, Predicted p)) ps) (s, k)) = k"
    by (induction ps) (auto simp: no)
  with one no show ?thesis by simp
qed

text \<open>Sequentially, a closed order stays closed.\<close>

lemma closed_is_terminal:
  assumes "find (\<lambda>w. wo_id w = wid) (work_orders s) = Some w" "wo_status w = ''closed''"
  shows "snd (transitionWorkOrder E target body wid s) = s \<and> (\<forall>n v. fst (transitionWorkOrder E target body wid s) \<noteq> Reply n v)"
  using assms by (auto simp: transitionWorkOrder_def transition_check_def workOrderTransitions_def)

text \<open>
  With another request between the check and the write it does not: a start admitted while the order
  was open reopens the order that was closed in between.
\<close>

lemma closed_order_reopened:
  "let s = snd (CreateWorkOrder (depot_env ''w1'') (Some repair) yard);
       ta = (''in_progress'', []) in
   transition_check (depot_env ''w1'') ''in_progress'' None ''w1'' s = Inr ta \<and>
   (case CloseWorkOrder (depot_env ''w1'') ''w1'' s of (r, s1) \<Rightarrow>
      map wo_status (work_orders s1) = [''closed''] \<and>
      map wo_status (work_orders (snd (transition_write (depot_env ''w1'') ta ''w1'' s1))) = [''in_progress''])"
  by (simp add: yard_def repair_def depot_env_def CreateWorkOrder_def prediction_taken_def order_dangling_def Let_def quiet_env_def
      CloseWorkOrder_def transitionWorkOrder_def transition_check_def transition_write_def transition_mark_def workOrderTransitions_def)

end
