(* ===== verification/Identity.thy ===== *)
theory Identity
  imports Auth "HOL-Library.List_Lexorder" "HOL-Library.Char_ord"
begin

text \<open>
  Identity administration of admin-api: the \<open>AdminClient\<close> interface and its in-memory development
  implementation (src/services/go/admin-api/internal/keycloak/keycloak.go and simulated.go), and the user
  management handlers (src/services/go/admin-api/internal/users/users.go). The interface is a record of
  operations over an abstract directory; the handlers work on any of them, and a locale states what they
  rely on. Text is bytes, and letter case is ASCII case.
\<close>

section \<open>Text\<close>

fun str_contains :: "string \<Rightarrow> string \<Rightarrow> bool" where
  "str_contains [] p = (p = [])"
| "str_contains (c # cs) p = (has_prefix (c # cs) p \<or> str_contains cs p)"

fun fields_of :: "string \<Rightarrow> string \<Rightarrow> string list" where
  "fields_of w [] = (if w = [] then [] else [rev w])"
| "fields_of w (c # cs) =
     (if is_space c then (if w = [] then fields_of [] cs else rev w # fields_of [] cs) else fields_of (c # w) cs)"

section \<open>The interface\<close>

record kc_user =
  u_id :: string
  u_username :: string
  u_email :: string
  u_first :: string
  u_last :: string
  u_enabled :: bool
  u_roles :: "string list"

record create_spec =
  cs_username :: string
  cs_email :: string
  cs_display_name :: string

text \<open>
  \<open>AdminClient\<close>. A call returns whether it succeeded (or nothing for an error). The first argument of
  \<open>kc_CreateUser\<close> is the id a new user would be given.
\<close>

record 'k kc_ops =
  kc_CreateUser :: "string \<Rightarrow> create_spec \<Rightarrow> 'k \<Rightarrow> (string \<times> bool) option \<times> 'k"
  kc_SetTemporaryPassword :: "string \<Rightarrow> string \<Rightarrow> 'k \<Rightarrow> bool \<times> 'k"
  kc_AssignRealmRole :: "string \<Rightarrow> string \<Rightarrow> 'k \<Rightarrow> bool \<times> 'k"
  kc_EnsureRealmRole :: "string \<Rightarrow> string \<Rightarrow> 'k \<Rightarrow> bool \<times> 'k"
  kc_RevokeRealmRole :: "string \<Rightarrow> string \<Rightarrow> 'k \<Rightarrow> bool \<times> 'k"
  kc_SendActionsEmail :: "string \<Rightarrow> string list \<Rightarrow> 'k \<Rightarrow> bool \<times> 'k"
  kc_ListUsers :: "string \<Rightarrow> string \<Rightarrow> nat \<Rightarrow> 'k \<Rightarrow> kc_user list option"
  kc_SetEnabled :: "string \<Rightarrow> bool \<Rightarrow> 'k \<Rightarrow> bool \<times> 'k"

definition splitDisplayName :: "string \<Rightarrow> string \<times> string" where
  "splitDisplayName name =
     (let parts = fields_of [] name in
      if parts = [] then ([], [])
      else if length parts = 1 then (hd parts, [])
      else (join_with '' '' (butlast parts), last parts))"

text \<open>The choice of the client: credentials, the explicit development opt-in, or a failure.\<close>

datatype kc_choice = HttpClient string string string string | SimulatedClient | NoClient

definition keycloak_New :: "(string \<Rightarrow> string) \<Rightarrow> string \<Rightarrow> string \<Rightarrow> string \<Rightarrow> string \<Rightarrow> kc_choice" where
  "keycloak_New env adminURL realm clientID clientSecret =
     (if clientID = [] \<or> clientSecret = [] then
        (if env ''H2_SIMULATED_KEYCLOAK'' \<noteq> ''true'' then NoClient else SimulatedClient)
      else HttpClient (trim_suffix adminURL ''/'') realm clientID clientSecret)"

section \<open>The simulated client\<close>

text \<open>The users by id, and what the client logged, as (message, user id).\<close>

record sim_kc =
  sim_users :: "kc_user list"
  sim_log :: "(string \<times> string) list"

definition sim_logged :: "string \<Rightarrow> string \<Rightarrow> sim_kc \<Rightarrow> sim_kc" where
  "sim_logged msg uid k = k\<lparr>sim_log := sim_log k @ [(msg, uid)]\<rparr>"

definition sim_known :: "string \<Rightarrow> sim_kc \<Rightarrow> bool" where
  "sim_known uid k \<longleftrightarrow> uid \<in> u_id ` set (sim_users k)"

definition sim_update :: "string \<Rightarrow> (kc_user \<Rightarrow> kc_user) \<Rightarrow> sim_kc \<Rightarrow> sim_kc" where
  "sim_update uid f k = k\<lparr>sim_users := upd_rows (\<lambda>u. u_id u = uid) f (sim_users k)\<rparr>"

definition sim_CreateUser :: "string \<Rightarrow> create_spec \<Rightarrow> sim_kc \<Rightarrow> (string \<times> bool) option \<times> sim_kc" where
  "sim_CreateUser simID spec k =
     (case find (\<lambda>u. equal_fold (u_email u) (cs_email spec)) (sim_users k) of
        Some u \<Rightarrow> (Some (u_id u, True), sim_logged ''user already exists'' (u_id u) k)
      | None \<Rightarrow>
          (case splitDisplayName (cs_display_name spec) of (given, family) \<Rightarrow>
             let u = \<lparr>u_id = simID, u_username = cs_username spec, u_email = cs_email spec, u_first = given,
                      u_last = family, u_enabled = True, u_roles = []\<rparr> in
             (Some (simID, False), sim_logged ''created user'' simID
                (k\<lparr>sim_users := filter (\<lambda>v. u_id v \<noteq> simID) (sim_users k) @ [u]\<rparr>))))"

definition sim_SetTemporaryPassword :: "string \<Rightarrow> string \<Rightarrow> sim_kc \<Rightarrow> bool \<times> sim_kc" where
  "sim_SetTemporaryPassword uid password k =
     (if sim_known uid k then (True, sim_logged ''temporary password set'' uid k) else (False, k))"

definition sim_AssignRealmRole :: "string \<Rightarrow> string \<Rightarrow> sim_kc \<Rightarrow> bool \<times> sim_kc" where
  "sim_AssignRealmRole uid role k =
     (case find (\<lambda>u. u_id u = uid) (sim_users k) of
        None \<Rightarrow> (False, k)
      | Some u \<Rightarrow>
          if role \<in> set (u_roles u) then (True, k)
          else (True, sim_logged ''assigned realm role'' uid (sim_update uid (\<lambda>u. u\<lparr>u_roles := u_roles u @ [role]\<rparr>) k)))"

definition sim_RevokeRealmRole :: "string \<Rightarrow> string \<Rightarrow> sim_kc \<Rightarrow> bool \<times> sim_kc" where
  "sim_RevokeRealmRole uid role k =
     (if sim_known uid k
      then (True, sim_logged ''revoked realm role'' uid (sim_update uid (\<lambda>u. u\<lparr>u_roles := filter (\<lambda>r. r \<noteq> role) (u_roles u)\<rparr>) k))
      else (False, k))"

definition sim_SendActionsEmail :: "string \<Rightarrow> string list \<Rightarrow> sim_kc \<Rightarrow> bool \<times> sim_kc" where
  "sim_SendActionsEmail uid actions k =
     (if sim_known uid k then (True, sim_logged ''execute-actions email sent'' uid k) else (False, k))"

definition sim_ListUsers :: "string \<Rightarrow> string \<Rightarrow> nat \<Rightarrow> sim_kc \<Rightarrow> kc_user list option" where
  "sim_ListUsers search role mx k =
     (let out = sort_key u_username (filter (\<lambda>u. (role \<noteq> [] \<longrightarrow> role \<in> set (u_roles u)) \<and>
            (search \<noteq> [] \<longrightarrow> str_contains (to_lower (u_username u @ '' '' @ u_email u)) (to_lower search))) (sim_users k)) in
      Some (if mx > 0 \<and> length out > mx then take mx out else out))"

definition sim_SetEnabled :: "string \<Rightarrow> bool \<Rightarrow> sim_kc \<Rightarrow> bool \<times> sim_kc" where
  "sim_SetEnabled uid enabled k =
     (if sim_known uid k
      then (True, sim_logged ''user enabled flag changed'' uid (sim_update uid (\<lambda>u. u\<lparr>u_enabled := enabled\<rparr>) k))
      else (False, k))"

definition simulated_kc :: "sim_kc kc_ops" where
  "simulated_kc = \<lparr>kc_CreateUser = sim_CreateUser, kc_SetTemporaryPassword = sim_SetTemporaryPassword,
     kc_AssignRealmRole = sim_AssignRealmRole, kc_EnsureRealmRole = sim_AssignRealmRole,
     kc_RevokeRealmRole = sim_RevokeRealmRole, kc_SendActionsEmail = sim_SendActionsEmail,
     kc_ListUsers = sim_ListUsers, kc_SetEnabled = sim_SetEnabled\<rparr>"

section \<open>User management\<close>

definition users_List :: "'k kc_ops \<Rightarrow> string \<Rightarrow> string \<Rightarrow> 'k \<Rightarrow> kc_user list resp" where
  "users_List K role q k =
     (case kc_ListUsers K (trim_space q) (trim_space role) 100 k of
        None \<Rightarrow> Err 502 ''failed to list users''
      | Some us \<Rightarrow> Reply 200 us)"

text \<open>Calling the client once per role, up to the first failure; the role that failed, if one did.\<close>

fun each_role :: "(string \<Rightarrow> 'k \<Rightarrow> bool \<times> 'k) \<Rightarrow> string list \<Rightarrow> 'k \<Rightarrow> string option \<times> 'k" where
  "each_role f [] k = (None, k)"
| "each_role f (r # rs) k = (case f r k of (True, k1) \<Rightarrow> each_role f rs k1 | (False, k1) \<Rightarrow> (Some r, k1))"

definition users_Create ::
  "'k kc_ops \<Rightarrow> string \<Rightarrow> string + string \<times> string \<times> string list \<Rightarrow> 'k \<Rightarrow> string resp \<times> 'k" where
  "users_Create K new body k =
     (case body of
        Inl err \<Rightarrow> (Err 400 (''invalid JSON body: '' @ err), k)
      | Inr (email0, name0, roles) \<Rightarrow>
          let email = trim_space email0; name = trim_space name0 in
          if email = [] \<or> CHR ''@'' \<notin> set email then (Err 400 ''email is required'', k)
          else if name = [] then (Err 400 ''display_name is required'', k)
          else (case kc_CreateUser K new \<lparr>cs_username = email, cs_email = email, cs_display_name = name\<rparr> k of
             (None, k1) \<Rightarrow> (Err 502 ''failed to create user'', k1)
           | (Some (uid, existed), k1) \<Rightarrow>
               if existed then (Err 409 (''a user with this email already exists (id='' @ uid @ ''); manage roles on the existing account''), k1)
               else (case each_role (kc_AssignRealmRole K uid) roles k1 of
                  (Some r, k2) \<Rightarrow> (Err 502 ''user created but role assignment failed'', k2)
                | (None, k2) \<Rightarrow> (Reply 201 uid, snd (kc_SendActionsEmail K uid [''VERIFY_EMAIL'', ''UPDATE_PASSWORD''] k2)))))"

definition soleEnabledPlatformAdmin :: "'k kc_ops \<Rightarrow> string \<Rightarrow> 'k \<Rightarrow> bool option" where
  "soleEnabledPlatformAdmin K target k =
     map_option (\<lambda>admins. (\<exists>a \<in> set admins. u_id a = target \<and> u_enabled a) \<and> length (filter u_enabled admins) \<le> 1)
       (kc_ListUsers K [] ''platform-admin'' 1000 k)"

fun demote_check :: "'k kc_ops \<Rightarrow> string \<Rightarrow> string list \<Rightarrow> 'k \<Rightarrow> string resp option" where
  "demote_check K uid [] k = None"
| "demote_check K uid (r # rs) k =
     (if r \<noteq> ''platform-admin'' then demote_check K uid rs k
      else case soleEnabledPlatformAdmin K uid k of
        None \<Rightarrow> Some (Err 502 ''failed to verify platform-admin accounts'')
      | Some sole \<Rightarrow>
          if sole then Some (Err 409 ''cannot revoke platform-admin from the last enabled platform-admin account'')
          else demote_check K uid rs k)"

definition UpdateRoles ::
  "'k kc_ops \<Rightarrow> string \<Rightarrow> string + string list \<times> string list \<Rightarrow> 'k \<Rightarrow> string resp \<times> 'k" where
  "UpdateRoles K uid body k =
     (case body of
        Inl err \<Rightarrow> (Err 400 (''invalid JSON body: '' @ err), k)
      | Inr (add, remove) \<Rightarrow>
          if add = [] \<and> remove = [] then (Err 400 ''provide add and/or remove role lists'', k)
          else (case demote_check K uid remove k of
             Some r \<Rightarrow> (r, k)
           | None \<Rightarrow>
               (case each_role (kc_AssignRealmRole K uid) add k of
                  (Some r, k1) \<Rightarrow> (Err 502 (''failed to assign role '' @ r), k1)
                | (None, k1) \<Rightarrow>
                    (case each_role (kc_RevokeRealmRole K uid) remove k1 of
                       (Some r, k2) \<Rightarrow> (Err 502 (''failed to revoke role '' @ r), k2)
                     | (None, k2) \<Rightarrow> (Reply 200 uid, k2)))))"

text \<open>The guards of \<open>setEnabled\<close> and its write; another request may run between them.\<close>

definition disable_check :: "'k kc_ops \<Rightarrow> ctx \<Rightarrow> string \<Rightarrow> 'k \<Rightarrow> string resp option" where
  "disable_check K c uid k =
     (if uid = Subject c then Some (Err 409 ''cannot disable your own account; another platform-admin must do this'')
      else case soleEnabledPlatformAdmin K uid k of
        None \<Rightarrow> Some (Err 502 ''failed to verify platform-admin accounts'')
      | Some sole \<Rightarrow> if sole then Some (Err 409 ''cannot disable the last enabled platform-admin account'') else None)"

definition enable_write :: "'k kc_ops \<Rightarrow> string \<Rightarrow> bool \<Rightarrow> 'k \<Rightarrow> string resp \<times> 'k" where
  "enable_write K uid enabled k =
     (case kc_SetEnabled K uid enabled k of
        (False, k1) \<Rightarrow> (Err 502 ''failed to update user'', k1)
      | (True, k1) \<Rightarrow> (Reply 200 uid, k1))"

definition setEnabled :: "'k kc_ops \<Rightarrow> ctx \<Rightarrow> string \<Rightarrow> bool \<Rightarrow> 'k \<Rightarrow> string resp \<times> 'k" where
  "setEnabled K c uid enabled k =
     (case (if enabled then None else disable_check K c uid k) of
        Some r \<Rightarrow> (r, k)
      | None \<Rightarrow> enable_write K uid enabled k)"

definition ResetPassword :: "'k kc_ops \<Rightarrow> string \<Rightarrow> 'k \<Rightarrow> string resp \<times> 'k" where
  "ResetPassword K uid k =
     (case kc_SendActionsEmail K uid [''UPDATE_PASSWORD''] k of
        (False, k1) \<Rightarrow> (Err 502 ''failed to trigger password reset'', k1)
      | (True, k1) \<Rightarrow> (Reply 200 uid, k1))"

section \<open>What the handlers rely on\<close>

text \<open>
  \<open>admins k\<close> are the ids of the enabled platform administrators of the directory \<open>k\<close>; \<open>listed k\<close> says
  that the listing of platform administrators is complete (the handlers ask for at most 1000).
\<close>

locale admin_directory =
  fixes K :: "'k kc_ops"
    and admins :: "'k \<Rightarrow> string set"
    and listed :: "'k \<Rightarrow> bool"
    and known :: "'k \<Rightarrow> string set"
  assumes list_admins: "listed k \<Longrightarrow> kc_ListUsers K [] ''platform-admin'' 1000 k = Some us \<Longrightarrow>
        distinct (map u_id us) \<and> u_id ` set (filter u_enabled us) = admins k"
    and create_admins: "new \<notin> known k \<Longrightarrow> admins k \<subseteq> admins (snd (kc_CreateUser K new spec k))"
    and assign_admins: "admins k \<subseteq> admins (snd (kc_AssignRealmRole K uid r k))"
    and revoke_admins: "admins k - (if r = ''platform-admin'' then {uid} else {}) \<subseteq> admins (snd (kc_RevokeRealmRole K uid r k))"
    and email_admins: "admins k \<subseteq> admins (snd (kc_SendActionsEmail K uid acts k))"
    and enable_admins: "admins k - (if b then {} else {uid}) \<subseteq> admins (snd (kc_SetEnabled K uid b k))"
begin

lemma not_sole:
  assumes "listed k" "soleEnabledPlatformAdmin K uid k = Some False" "admins k \<noteq> {}"
  shows "admins k - {uid} \<noteq> {}"
proof (cases "uid \<in> admins k")
  case True
  from assms(2) obtain us where us: "kc_ListUsers K [] ''platform-admin'' 1000 k = Some us"
    and ns: "\<not> ((\<exists>a \<in> set us. u_id a = uid \<and> u_enabled a) \<and> length (filter u_enabled us) \<le> 1)"
    by (auto simp: soleEnabledPlatformAdmin_def)
  from list_admins [OF assms(1) us] have d: "distinct (map u_id us)" and a: "u_id ` set (filter u_enabled us) = admins k"
    by auto
  from True have "uid \<in> u_id ` set (filter u_enabled us)" by (simp only: a)
  then have "\<exists>a \<in> set us. u_id a = uid \<and> u_enabled a" by auto
  with ns have two: "1 < length (filter u_enabled us)" by simp
  have dd: "distinct (map u_id (filter u_enabled us))" by (rule distinct_map_filter [OF d])
  have eq: "set (map u_id (filter u_enabled us)) = admins k" using a by auto
  have "card (admins k) = length (filter u_enabled us)" using distinct_card [OF dd] unfolding eq by simp
  then have "card (admins k) > card {uid}" using two by simp
  then show ?thesis by (metis Diff_eq_empty_iff card_mono finite.emptyI finite_insert leD)
qed (use assms(3) in auto)

text \<open>The guard's answer is exact where the listing is complete.\<close>

lemma sole_exact:
  assumes "listed k" "kc_ListUsers K [] ''platform-admin'' 1000 k = Some us"
  shows "soleEnabledPlatformAdmin K uid k = Some (admins k = {uid})"
proof -
  from list_admins [OF assms] have dd: "distinct (map u_id (filter u_enabled us))" and eq: "set (map u_id (filter u_enabled us)) = admins k"
    by (auto intro: distinct_map_filter)
  have card: "card (admins k) = length (filter u_enabled us)" using distinct_card [OF dd] unfolding eq by simp
  have mem: "(\<exists>a \<in> set us. u_id a = uid \<and> u_enabled a) \<longleftrightarrow> uid \<in> admins k" unfolding eq [symmetric] by auto
  have fin: "finite (admins k)" unfolding eq [symmetric] by simp
  have "uid \<in> admins k \<and> card (admins k) \<le> 1 \<longleftrightarrow> admins k = {uid}"
  proof
    assume a: "uid \<in> admins k \<and> card (admins k) \<le> 1"
    then have "card (admins k) = 1" using fin card_gt_0_iff [of "admins k"] by fastforce
    with a show "admins k = {uid}" by (metis card_1_singletonE singletonD)
  qed simp
  then show ?thesis using assms(2) by (simp add: soleEnabledPlatformAdmin_def mem card)
qed

lemma each_assign: "admins k \<subseteq> admins (snd (each_role (kc_AssignRealmRole K uid) rs k))"
proof (induction rs arbitrary: k)
  case (Cons r rs)
  from assign_admins [of k uid r] Cons.IH [of "snd (kc_AssignRealmRole K uid r k)"] show ?case
    by (auto split: prod.splits bool.splits)
qed simp

lemma each_revoke:
  "admins k - (if ''platform-admin'' \<in> set rs then {uid} else {}) \<subseteq> admins (snd (each_role (kc_RevokeRealmRole K uid) rs k))"
proof (induction rs arbitrary: k)
  case (Cons r rs)
  from revoke_admins [of k r uid] Cons.IH [of "snd (kc_RevokeRealmRole K uid r k)"] show ?case
    by (auto split: prod.splits bool.splits if_splits)
qed simp

lemma demote_checked:
  "demote_check K uid rs k = None \<Longrightarrow> ''platform-admin'' \<in> set rs \<Longrightarrow> soleEnabledPlatformAdmin K uid k = Some False"
  by (induction rs) (auto split: if_splits option.splits)

lemma update_roles_keeps:
  assumes "listed k" "admins k \<noteq> {}"
  shows "admins (snd (UpdateRoles K uid body k)) \<noteq> {}"
proof (cases "\<exists>add remove. body = Inr (add, remove) \<and> \<not> (add = [] \<and> remove = []) \<and> demote_check K uid remove k = None")
  case True
  then obtain add remove where b: "body = Inr (add, remove)" "\<not> (add = [] \<and> remove = [])" "demote_check K uid remove k = None" by blast
  have rest: "admins k - (if ''platform-admin'' \<in> set remove then {uid} else {}) \<noteq> {}"
    using not_sole [OF assms(1) _ assms(2)] demote_checked [OF b(3)] assms(2) by auto
  obtain e k1 where e1: "each_role (kc_AssignRealmRole K uid) add k = (e, k1)" by (rule prod.exhaust)
  then have k1: "admins k \<subseteq> admins k1" using each_assign [of k uid add] by simp
  obtain f k2 where e2: "each_role (kc_RevokeRealmRole K uid) remove k1 = (f, k2)" by (rule prod.exhaust)
  then have "admins k1 - (if ''platform-admin'' \<in> set remove then {uid} else {}) \<subseteq> admins k2"
    using each_revoke [of k1 remove uid] by simp
  with k1 rest assms(2) show ?thesis using b e1 e2
    by (cases e; cases f) (auto simp: UpdateRoles_def)
qed (use assms(2) in \<open>auto simp: UpdateRoles_def split: sum.split option.split\<close>)

lemma set_enabled_keeps:
  assumes "listed k" "admins k \<noteq> {}"
  shows "admins (snd (setEnabled K c uid b k)) \<noteq> {}"
proof (cases "(if b then None else disable_check K c uid k)")
  case None
  have "admins k - (if b then {} else {uid}) \<noteq> {}"
    using None not_sole [OF assms(1) _ assms(2), of uid] assms(2) by (auto simp: disable_check_def split: if_splits option.splits)
  with enable_admins [of k b uid] show ?thesis
    using None by (auto simp: setEnabled_def enable_write_def split: prod.splits bool.splits)
qed (use assms(2) in \<open>simp add: setEnabled_def\<close>)

lemma create_keeps:
  assumes "new \<notin> known k" "admins k \<noteq> {}"
  shows "admins (snd (users_Create K new body k)) \<noteq> {}"
proof -
  define P where "P x \<longleftrightarrow> admins k \<subseteq> admins (snd x)" for x :: "string resp \<times> 'k"
  have c: "admins k \<subseteq> admins k1" if "kc_CreateUser K new spec k = (r, k1)" for spec r k1
    using create_admins [OF assms(1), of spec] that by simp
  have m: "admins k \<subseteq> admins k2" if "each_role (kc_AssignRealmRole K uid) roles k1 = (e, k2)" "admins k \<subseteq> admins k1" for uid roles k1 e k2
    using each_assign [of k1 uid roles] that by auto
  have "P (users_Create K new body k)"
    unfolding users_Create_def Let_def
    by (auto simp: P_def split: sum.split prod.split option.split dest!: c m intro: subset_trans [OF _ email_admins])
       (meson c m email_admins subsetD)+
  with assms(2) show ?thesis by (auto simp: P_def)
qed

end

section \<open>The simulated client provides it\<close>

definition sim_admins :: "sim_kc \<Rightarrow> string set" where
  "sim_admins k = u_id ` {u \<in> set (sim_users k). u_enabled u \<and> ''platform-admin'' \<in> set (u_roles u)}"

definition sim_ok :: "sim_kc \<Rightarrow> bool" where
  "sim_ok k \<longleftrightarrow> distinct (map u_id (sim_users k)) \<and>
     length (filter (\<lambda>u. ''platform-admin'' \<in> set (u_roles u)) (sim_users k)) \<le> 1000"

definition sim_ids :: "sim_kc \<Rightarrow> string set" where
  "sim_ids k = u_id ` set (sim_users k)"

lemma sim_logged_users [simp]: "sim_users (sim_logged m i k) = sim_users k"
  by (simp add: sim_logged_def)

lemma sim_admins_logged [simp]: "sim_admins (sim_logged m i k) = sim_admins k"
  by (simp add: sim_admins_def)

lemma sim_admins_update:
  assumes "\<And>u. u_id (f u) = u_id u"
    "\<And>u. u_id u = uid \<Longrightarrow> uid \<notin> X \<Longrightarrow> u_enabled u \<Longrightarrow> ''platform-admin'' \<in> set (u_roles u) \<Longrightarrow> u_enabled (f u) \<and> ''platform-admin'' \<in> set (u_roles (f u))"
  shows "sim_admins k - X \<subseteq> sim_admins (sim_update uid f k)"
proof
  fix i
  assume "i \<in> sim_admins k - X"
  then obtain u where u: "u \<in> set (sim_users k)" "u_id u = i" "u_enabled u" "''platform-admin'' \<in> set (u_roles u)" "i \<notin> X"
    by (auto simp: sim_admins_def)
  let ?v = "if u_id u = uid then f u else u"
  have "?v \<in> set (sim_users (sim_update uid f k))" using u(1) by (auto simp: sim_update_def upd_rows_def)
  moreover have "u_id ?v = i" "u_enabled ?v \<and> ''platform-admin'' \<in> set (u_roles ?v)" using u assms by auto
  ultimately show "i \<in> sim_admins (sim_update uid f k)" unfolding sim_admins_def by blast
qed

interpretation sim: admin_directory simulated_kc sim_admins sim_ok sim_ids
proof unfold_locales
  fix k us
  assume ok: "sim_ok k" and us: "kc_ListUsers simulated_kc [] ''platform-admin'' 1000 k = Some us"
  let ?l = "filter (\<lambda>u. ''platform-admin'' \<in> set (u_roles u)) (sim_users k)"
  have eq: "us = sort_key u_username ?l"
    using us ok by (auto simp: simulated_kc_def sim_ListUsers_def sim_ok_def Let_def)
  have "distinct (map u_id ?l)" using ok by (auto simp: sim_ok_def intro: distinct_map_filter)
  then have "distinct (map u_id us)" by (simp add: eq distinct_map)
  then show "distinct (map u_id us) \<and> u_id ` set (filter u_enabled us) = sim_admins k"
    by (auto simp: eq sim_admins_def)
next
  fix new k spec
  assume "new \<notin> sim_ids k"
  then show "sim_admins k \<subseteq> sim_admins (snd (kc_CreateUser simulated_kc new spec k))"
    by (auto simp: simulated_kc_def sim_CreateUser_def sim_admins_def sim_ids_def Let_def image_iff split: option.split prod.split)
next
  fix k uid r
  show "sim_admins k \<subseteq> sim_admins (snd (kc_AssignRealmRole simulated_kc uid r k))"
    using sim_admins_update [where X = "{}" and f = "\<lambda>u. u\<lparr>u_roles := u_roles u @ [r]\<rparr>" and uid = uid and k = k]
    by (auto simp: simulated_kc_def sim_AssignRealmRole_def split: option.split)
next
  fix k r uid
  show "sim_admins k - (if r = ''platform-admin'' then {uid} else {}) \<subseteq> sim_admins (snd (kc_RevokeRealmRole simulated_kc uid r k))"
    using sim_admins_update [where X = "if r = ''platform-admin'' then {uid} else {}" and
      f = "\<lambda>u. u\<lparr>u_roles := filter (\<lambda>x. x \<noteq> r) (u_roles u)\<rparr>" and uid = uid and k = k]
    by (auto simp: simulated_kc_def sim_RevokeRealmRole_def split: if_splits)
next
  fix k uid acts
  show "sim_admins k \<subseteq> sim_admins (snd (kc_SendActionsEmail simulated_kc uid acts k))"
    by (auto simp: simulated_kc_def sim_SendActionsEmail_def)
next
  fix k b uid
  show "sim_admins k - (if b then {} else {uid}) \<subseteq> sim_admins (snd (kc_SetEnabled simulated_kc uid b k))"
    using sim_admins_update [where X = "if b then {} else {uid}" and f = "\<lambda>u. u\<lparr>u_enabled := b\<rparr>" and uid = uid and k = k]
    by (auto simp: simulated_kc_def sim_SetEnabled_def split: if_splits)
qed

text \<open>Whole requests of administrators, one after the other, in directories with complete listings; ids are fresh.\<close>

inductive users_run :: "sim_kc \<Rightarrow> sim_kc \<Rightarrow> bool" where
  create: "sim_ok k \<Longrightarrow> new \<notin> sim_ids k \<Longrightarrow> users_run k (snd (users_Create simulated_kc new body k))"
| update_roles: "sim_ok k \<Longrightarrow> users_run k (snd (UpdateRoles simulated_kc uid rbody k))"
| set_enabled: "sim_ok k \<Longrightarrow> users_run k (snd (setEnabled simulated_kc c uid b k))"
| reset_password: "sim_ok k \<Longrightarrow> users_run k (snd (ResetPassword simulated_kc uid k))"

lemma reset_keeps: "sim_admins (snd (ResetPassword simulated_kc uid k)) = sim_admins k"
  by (simp add: ResetPassword_def simulated_kc_def sim_SendActionsEmail_def)

lemma users_run_keeps: "users_run k k' \<Longrightarrow> sim_admins k \<noteq> {} \<Longrightarrow> sim_admins k' \<noteq> {}"
  by (induction rule: users_run.induct)
     (simp_all only: sim.create_keeps sim.update_roles_keeps sim.set_enabled_keeps reset_keeps not_False_eq_True)

section \<open>Properties\<close>

definition root_user :: "string \<Rightarrow> kc_user" where
  "root_user i = \<lparr>u_id = i, u_username = i, u_email = i @ ''@h2.example'', u_first = [], u_last = [], u_enabled = True,
     u_roles = [''platform-admin'']\<rparr>"

definition two_roots :: sim_kc where
  "two_roots = \<lparr>sim_users = [root_user ''a'', root_user ''b''], sim_log = []\<rparr>"

text \<open>
  C31. User management, one request at a time, never locks the platform out of the simulated directory: from a directory
  with an enabled platform administrator, any sequence of user creations, role updates, enabling, disabling and
  password resets leaves at least one enabled platform administrator; and the guard behind them answers
  exactly whether an account is the only enabled platform administrator. Each request starts in a directory with distinct
  ids and at most 1000 platform administrators, which the guard's listing then shows completely (\<open>sim_ok\<close>), and new
  accounts get new ids. The restrictions matter: two administrators who disable each other at the same time lock the
  platform out (\<open>concurrent_disable_locks_out\<close>), and the HTTP client neither lists more than a hundred administrators nor
  escapes ids (\<open>thousand_is_hundred\<close> and \<open>question_mark_passes_guard\<close> in \<open>Keycloak\<close>).
\<close>

theorem admin_never_locked_out:
  assumes "users_run\<^sup>*\<^sup>* k k'" "sim_admins k \<noteq> {}"
  shows "(\<exists>u \<in> set (sim_users k'). u_enabled u \<and> ''platform-admin'' \<in> set (u_roles u)) \<and>
    (sim_ok k' \<longrightarrow> (\<forall>uid. soleEnabledPlatformAdmin simulated_kc uid k' =
       Some ({u_id u | u. u \<in> set (sim_users k') \<and> u_enabled u \<and> ''platform-admin'' \<in> set (u_roles u)} = {uid})))"
proof -
  have "sim_admins k' \<noteq> {}" using assms
  proof (induction rule: rtranclp_induct)
    case (step y z)
    then show ?case using users_run_keeps [OF step(2)] by simp
  qed
  moreover have "sim_admins k' = {u_id u | u. u \<in> set (sim_users k') \<and> u_enabled u \<and> ''platform-admin'' \<in> set (u_roles u)}"
    by (auto simp: sim_admins_def)
  moreover have "\<exists>us. kc_ListUsers simulated_kc [] ''platform-admin'' 1000 k' = Some us" by (simp add: simulated_kc_def sim_ListUsers_def Let_def)
  ultimately show ?thesis using sim.sole_exact [of k'] by (auto simp: sim_admins_def)
qed

theorem admin_never_locked_out_witness:
  "\<exists>u \<in> set (sim_users (snd (setEnabled simulated_kc None ''b'' False (snd (setEnabled simulated_kc None ''a'' False two_roots))))).
     u_enabled u \<and> ''platform-admin'' \<in> set (u_roles u)"
proof (rule admin_never_locked_out [THEN conjunct1])
  let ?k1 = "snd (setEnabled simulated_kc None ''a'' False two_roots)"
  have ok: "sim_ok two_roots" by (simp add: sim_ok_def two_roots_def root_user_def)
  have ok1: "sim_ok ?k1"
    by (simp add: sim_ok_def two_roots_def root_user_def setEnabled_def disable_check_def Subject_def soleEnabledPlatformAdmin_def
      enable_write_def simulated_kc_def sim_ListUsers_def sim_SetEnabled_def sim_known_def sim_update_def Let_def)
  have "users_run two_roots ?k1" using ok by (rule set_enabled)
  moreover have "users_run ?k1 (snd (setEnabled simulated_kc None ''b'' False ?k1))" using ok1 by (rule set_enabled)
  ultimately show "users_run\<^sup>*\<^sup>* two_roots (snd (setEnabled simulated_kc None ''b'' False ?k1))" by (rule rtranclp.rtrancl_into_rtrancl [OF r_into_rtranclp])
  have "''a'' \<in> sim_admins two_roots"
    unfolding sim_admins_def by (rule image_eqI [of _ _ "root_user ''a''"]) (simp_all add: two_roots_def root_user_def)
  then show "sim_admins two_roots \<noteq> {}" by blast
qed

text \<open>
  Two administrators who disable each other at the same time: both checks see two enabled administrators,
  and after both writes there is none.
\<close>

lemma concurrent_disable_locks_out:
  "disable_check simulated_kc None ''a'' two_roots = None \<and> disable_check simulated_kc None ''b'' two_roots = None \<and>
   sim_admins (snd (enable_write simulated_kc ''b'' False (snd (enable_write simulated_kc ''a'' False two_roots)))) = {}"
  by (auto simp: two_roots_def root_user_def disable_check_def Subject_def soleEnabledPlatformAdmin_def enable_write_def
    simulated_kc_def sim_ListUsers_def sim_SetEnabled_def sim_known_def sim_update_def sim_admins_def Let_def sim_logged_def)

end
