(* ===== verification/Onboarding.thy ===== *)
theory Onboarding
  imports Identity Store Index
begin

text \<open>
  Stakeholder onboarding of admin-api: the request store and the handlers
  (src/services/go/admin-api/internal/onboarding/store.go and handlers.go). The handlers work on any
  \<open>AdminClient\<close>. The store's calls are single statements; a handler is a sequence of them and of client
  calls, so decisions are split into what they read and what they write. Metadata is a JSON value with the
  length of its text; the captcha verifier is a parameter.
\<close>

section \<open>Personas\<close>

definition personaRoles :: "(string \<times> string) list" where
  "personaRoles = [(''citizen'', ''citizen''), (''driver'', ''driver''), (''operator'', ''operator''),
     (''station-staff'', ''station-staff''), (''advertiser'', ''citizen''), (''data-partner'', ''citizen''),
     (''gov-viewer'', ''citizen'')]"

definition RealmRole :: "string \<Rightarrow> string" where
  "RealmRole persona = (case map_of personaRoles persona of Some r \<Rightarrow> r | None \<Rightarrow> [])"

definition IsIntakePersona :: "string \<Rightarrow> bool" where
  "IsIntakePersona persona \<longleftrightarrow> map_of personaRoles persona \<noteq> None \<and> persona \<noteq> ''citizen''"

section \<open>The store\<close>

record onb_request =
  ob_id :: string
  ob_persona :: string
  ob_email :: string
  ob_display_name :: string
  ob_org :: string
  ob_status :: string
  ob_keycloak_sub :: string
  ob_meta :: json
  ob_created_at :: int
  ob_decided_at :: "int option"
  ob_decided_by :: string

text \<open>The onboarding table and the directory behind the client.\<close>

record 'k onb_state =
  onb_requests :: "onb_request list"
  directory :: 'k

text \<open>Errors of the store: not found, a unique violation (23505), or anything else.\<close>

datatype onb_error = NotFound | UniqueViolation | StoreFailure

definition pending_taken :: "onb_request list \<Rightarrow> onb_request \<Rightarrow> bool" where
  "pending_taken xs r \<longleftrightarrow> ob_status r = ''pending'' \<and> (\<exists>x \<in> set xs. ob_id x \<noteq> ob_id r \<and> ob_status x = ''pending'' \<and>
     ob_persona x = ob_persona r \<and> to_lower (ob_email x) = to_lower (ob_email r))"

definition onb_Create :: "db_env \<Rightarrow> string \<Rightarrow> onb_request \<Rightarrow> 'k onb_state \<Rightarrow> (onb_error + onb_request) \<times> 'k onb_state" where
  "onb_Create E op req s =
     (let r = req\<lparr>ob_id := new_id E 0, ob_created_at := now E\<rparr> in
      if fault E op then (Inl StoreFailure, s)
      else if ob_id r \<in> ob_id ` set (onb_requests s) \<or> pending_taken (onb_requests s) r then (Inl UniqueViolation, s)
      else (Inr r, s\<lparr>onb_requests := onb_requests s @ [r]\<rparr>))"

definition onb_Get :: "db_env \<Rightarrow> string \<Rightarrow> string \<Rightarrow> 'k onb_state \<Rightarrow> onb_error + onb_request" where
  "onb_Get E op rid s =
     (if fault E op then Inl StoreFailure
      else case find (\<lambda>r. ob_id r = rid) (onb_requests s) of None \<Rightarrow> Inl NotFound | Some r \<Rightarrow> Inr r)"

definition onb_List :: "string \<Rightarrow> string \<Rightarrow> int \<Rightarrow> int \<Rightarrow> 'k onb_state \<Rightarrow> onb_request list" where
  "onb_List status persona limit0 offset0 s =
     (let limit = (if limit0 \<le> 0 \<or> limit0 > 500 then 100 else limit0); offset = max 0 offset0 in
      take (nat limit) (drop (nat offset)
        (sort_key (\<lambda>r. - ob_created_at r) (sort_key ob_id
          (filter (\<lambda>r. (status = [] \<or> ob_status r = status) \<and> (persona = [] \<or> ob_persona r = persona)) (onb_requests s))))))"

text \<open>\<open>jsonb || jsonb\<close>.\<close>

fun jsonb_concat :: "json \<Rightarrow> json \<Rightarrow> json" where
  "jsonb_concat (JObj x) (JObj y) = JObj (filter (\<lambda>(k, _). k \<notin> fst ` set y) x @ y)"
| "jsonb_concat (JArr x) (JArr y) = JArr (x @ y)"
| "jsonb_concat (JArr x) y = JArr (x @ [y])"
| "jsonb_concat x (JArr y) = JArr (x # y)"
| "jsonb_concat x y = JArr [x, y]"

definition decided :: "db_env \<Rightarrow> string \<Rightarrow> string \<Rightarrow> string \<Rightarrow> string \<Rightarrow> onb_request \<Rightarrow> onb_request" where
  "decided E status keycloakSub decidedBy reason r =
     r\<lparr>ob_status := status, ob_keycloak_sub := (if keycloakSub = [] then ob_keycloak_sub r else keycloakSub),
       ob_decided_at := Some (now E), ob_decided_by := decidedBy,
       ob_meta := (if reason = [] then ob_meta r else jsonb_concat (ob_meta r) (JObj [(''reject_reason'', JStr reason)]))\<rparr>"

definition onb_Decide ::
  "db_env \<Rightarrow> string \<Rightarrow> string \<Rightarrow> string \<Rightarrow> string \<Rightarrow> string \<Rightarrow> string \<Rightarrow> 'k onb_state \<Rightarrow> (onb_error + onb_request) \<times> 'k onb_state" where
  "onb_Decide E op rid status keycloakSub decidedBy reason s =
     (if fault E op then (Inl StoreFailure, s)
      else case find (\<lambda>r. ob_id r = rid) (onb_requests s) of
        None \<Rightarrow> (Inl NotFound, s)
      | Some r \<Rightarrow> (Inr (decided E status keycloakSub decidedBy reason r),
          s\<lparr>onb_requests := upd_rows (\<lambda>r. ob_id r = rid) (decided E status keycloakSub decidedBy reason) (onb_requests s)\<rparr>))"

definition onb_FindPending :: "db_env \<Rightarrow> string \<Rightarrow> string \<Rightarrow> string \<Rightarrow> 'k onb_state \<Rightarrow> onb_error + onb_request" where
  "onb_FindPending E op persona email s =
     (if fault E op then Inl StoreFailure
      else case find (\<lambda>r. ob_persona r = persona \<and> to_lower (ob_email r) = to_lower email \<and> ob_status r = ''pending'') (onb_requests s) of
        None \<Rightarrow> Inl NotFound | Some r \<Rightarrow> Inr r)"

definition onb_CountRecent :: "string \<Rightarrow> int \<Rightarrow> 'k onb_state \<Rightarrow> nat" where
  "onb_CountRecent email cutoff s =
     length (filter (\<lambda>r. to_lower (ob_email r) = to_lower email \<and> ob_created_at r \<ge> cutoff) (onb_requests s))"

definition onb_ExpirePending :: "db_env \<Rightarrow> int \<Rightarrow> 'k onb_state \<Rightarrow> 'k onb_state" where
  "onb_ExpirePending E before s =
     (if fault E ''onboarding pending-TTL sweep failed'' then s
      else s\<lparr>onb_requests := upd_rows (\<lambda>r. ob_status r = ''pending'' \<and> ob_created_at r < before)
        (\<lambda>r. r\<lparr>ob_status := ''expired'', ob_decided_at := Some (now E), ob_decided_by := ''system:ttl-expiry''\<rparr>) (onb_requests s)\<rparr>)"

definition onb_MergeMeta :: "db_env \<Rightarrow> string \<Rightarrow> string \<Rightarrow> json \<Rightarrow> 'k onb_state \<Rightarrow> 'k onb_state" where
  "onb_MergeMeta E op rid patch s =
     (if fault E op then s
      else s\<lparr>onb_requests := upd_rows (\<lambda>r. ob_id r = rid) (\<lambda>r. r\<lparr>ob_meta := jsonb_concat (ob_meta r) patch\<rparr>) (onb_requests s)\<rparr>)"

section \<open>Intake bodies\<close>

record intake_body =
  ib_email :: string
  ib_display_name :: string
  ib_org :: string
  ib_meta :: "(nat \<times> json) option"
  ib_captcha :: string

text \<open>The pattern \<open>^[^@\s]+@[^@\s]+\.[^@\s]+$\<close>; in it \<open>\s\<close> is space, tab, newline, form feed and carriage return.\<close>

definition re_space :: "char \<Rightarrow> bool" where
  "re_space c \<longleftrightarrow> c \<in> {CHR '' '', CHR 0x09, CHR 0x0A, CHR 0x0C, CHR 0x0D}"

definition email_ok :: "string \<Rightarrow> bool" where
  "email_ok e \<longleftrightarrow> (\<forall>c \<in> set e. \<not> re_space c) \<and>
     (case split_on (CHR ''@'') e of [l, d] \<Rightarrow> l \<noteq> [] \<and> CHR ''.'' \<in> set (butlast (tl d)) | _ \<Rightarrow> False)"

definition intake_validate :: "intake_body \<Rightarrow> string + intake_body" where
  "intake_validate b0 =
     (let b = b0\<lparr>ib_email := to_lower (trim_space (ib_email b0)), ib_display_name := trim_space (ib_display_name b0),
                 ib_org := trim_space (ib_org b0)\<rparr> in
      if \<not> email_ok (ib_email b) \<or> length (ib_email b) > 254 then Inl ''email is missing or malformed''
      else if ib_display_name b = [] \<or> length (ib_display_name b) > 120 then Inl ''display_name is required (max 120 chars)''
      else if length (ib_org b) > 200 then Inl ''org too long (max 200 chars)''
      else if (case ib_meta b of None \<Rightarrow> False | Some (n, _) \<Rightarrow> n > 8192) then Inl ''meta too large (max 8 KiB)''
      else Inr b)"

text \<open>Decoding \<open>{"license_no": ...}\<close>: field names match in any letter case, the last one wins, null keeps the value.\<close>

fun license_field :: "string \<Rightarrow> (string \<times> json) list \<Rightarrow> string option" where
  "license_field acc [] = Some acc"
| "license_field acc ((k, v) # fs) =
     (if equal_fold k ''license_no'' then
        (case v of JStr s \<Rightarrow> license_field s fs | JNull \<Rightarrow> license_field acc fs | _ \<Rightarrow> None)
      else license_field acc fs)"

definition meta_license :: "(nat \<times> json) option \<Rightarrow> string option" where
  "meta_license m =
     (case m of None \<Rightarrow> None
      | Some (n, v) \<Rightarrow> if n = 0 then None else (case v of JObj fs \<Rightarrow> license_field [] fs | JNull \<Rightarrow> Some [] | _ \<Rightarrow> None))"

definition validateForPersona :: "string \<Rightarrow> intake_body \<Rightarrow> string + intake_body" where
  "validateForPersona persona b0 =
     (case intake_validate b0 of
        Inl msg \<Rightarrow> Inl msg
      | Inr b \<Rightarrow>
          if persona = ''citizen'' then Inr b
          else if ib_org b = [] then Inl (''org is required for '' @ persona @ '' onboarding'')
          else if persona = ''driver'' then
            (case meta_license (ib_meta b) of
               None \<Rightarrow> Inl ''driver onboarding requires meta.license_no''
             | Some lic \<Rightarrow>
                 let n = length (trim_space lic) in
                 if n < 4 \<or> n > 64 then Inl (''meta.license_no is required (4'' @ [CHR 0xE2, CHR 0x80, CHR 0x93] @ ''64 chars)'')
                 else Inr b)
          else Inr b)"

text \<open>
  The captcha: nothing when it is not configured; otherwise the verifier's answer for a token (nothing when
  it cannot be reached or read).
\<close>

definition verifyCaptcha :: "(string \<Rightarrow> bool option) option \<Rightarrow> string \<Rightarrow> (nat \<times> string) option" where
  "verifyCaptcha captcha token =
     (case captcha of
        None \<Rightarrow> None
      | Some siteverify \<Rightarrow>
          if token = [] then Some (400, ''captcha_token is required'')
          else (case siteverify token of
             None \<Rightarrow> Some (502, ''captcha verification unavailable'')
           | Some ok \<Rightarrow> if ok then None else Some (400, ''captcha verification failed'')))"

definition maxRequestsPerEmailPerDay :: nat where
  "maxRequestsPerEmailPerDay = 5"

definition defaultPendingTTL :: int where
  "defaultPendingTTL = 30 * 24 * 3600000000000"

definition overVelocity :: "db_env \<Rightarrow> string \<Rightarrow> 'k onb_state \<Rightarrow> (nat \<times> string) option" where
  "overVelocity E email s =
     (if fault E ''onboarding velocity count'' then Some (500, ''failed to create onboarding request'')
      else if onb_CountRecent email (now E - 24 * 3600000000000) s \<ge> maxRequestsPerEmailPerDay
      then Some (429, ''too many onboarding requests for this email address; try again later'')
      else None)"

definition new_request :: "string \<Rightarrow> intake_body \<Rightarrow> onb_request" where
  "new_request persona b = \<lparr>ob_id = [], ob_persona = persona, ob_email = ib_email b, ob_display_name = ib_display_name b,
     ob_org = ib_org b, ob_status = ''pending'', ob_keycloak_sub = [],
     ob_meta = (case ib_meta b of Some (n, v) \<Rightarrow> if n = 0 then JObj [] else v | None \<Rightarrow> JObj []), ob_created_at = 0,
     ob_decided_at = None, ob_decided_by = []\<rparr>"

section \<open>Provisioning\<close>

definition welcomeActions :: "string list" where
  "welcomeActions = [''VERIFY_EMAIL'', ''UPDATE_PASSWORD'']"

definition provision ::
  "'k kc_ops \<Rightarrow> string \<Rightarrow> string \<Rightarrow> string \<Rightarrow> string \<Rightarrow> string \<Rightarrow> 'k \<Rightarrow> (string \<times> bool) option \<times> 'k" where
  "provision K new password persona email displayName k =
     (case kc_CreateUser K new \<lparr>cs_username = email, cs_email = email, cs_display_name = displayName\<rparr> k of
        (None, k1) \<Rightarrow> (None, k1)
      | (Some (userID, existed), k1) \<Rightarrow>
          (case (if existed then (True, k1) else kc_SetTemporaryPassword K userID password k1) of
             (False, k2) \<Rightarrow> (None, k2)
           | (True, k2) \<Rightarrow>
               (case kc_EnsureRealmRole K userID (RealmRole persona) k2 of
                  (False, k3) \<Rightarrow> (None, k3)
                | (True, k3) \<Rightarrow>
                    (case kc_SendActionsEmail K userID welcomeActions k3 of
                       (False, k4) \<Rightarrow> (None, k4)
                     | (True, k4) \<Rightarrow> (Some (userID, existed), k4)))))"

text \<open>A reply carries a request and a flag: deduplicated, or the account existed before.\<close>

type_synonym onb_reply = "(onb_request \<times> bool) resp"

definition err_reply :: "nat \<times> string \<Rightarrow> onb_reply" where
  "err_reply e = Err (fst e) (snd e)"

definition provisionCitizen ::
  "db_env \<Rightarrow> 'k kc_ops \<Rightarrow> string \<Rightarrow> string \<Rightarrow> onb_request \<Rightarrow> bool \<Rightarrow> 'k onb_state \<Rightarrow> onb_reply \<times> 'k onb_state" where
  "provisionCitizen E K new password req retried s =
     (case provision K new password ''citizen'' (ob_email req) (ob_display_name req) (directory s) of
        (None, k1) \<Rightarrow>
          (Err 502 ''identity provisioning failed'',
           onb_MergeMeta E ''mark provision_error'' (ob_id req)
             (JObj [(''provision_error'', JStr ''identity provisioning failed; safe to retry'')]) (s\<lparr>directory := k1\<rparr>))
      | (Some (kcID, existed), k1) \<Rightarrow>
          (case onb_Decide E ''mark citizen request completed'' (ob_id req) ''completed'' kcID ''self-service'' [] (s\<lparr>directory := k1\<rparr>) of
             (Inl e, s1) \<Rightarrow> (Err 500 ''failed to finalize onboarding request'', s1)
           | (Inr final, s1) \<Rightarrow> (Reply (if retried then 200 else 201) (final, retried), s1)))"

section \<open>Filing a request\<close>

definition CitizenSelfServe ::
  "db_env \<Rightarrow> 'k kc_ops \<Rightarrow> string \<Rightarrow> string \<Rightarrow> (string \<Rightarrow> bool option) option \<Rightarrow> string + intake_body \<Rightarrow> 'k onb_state \<Rightarrow>
   onb_reply \<times> 'k onb_state" where
  "CitizenSelfServe E K new password captcha body s =
     (case body of
        Inl err \<Rightarrow> (Err 400 (''invalid JSON body: '' @ err), s)
      | Inr b0 \<Rightarrow>
          (case intake_validate b0 of
             Inl msg \<Rightarrow> (Err 400 msg, s)
           | Inr b \<Rightarrow>
               (case verifyCaptcha captcha (trim_space (ib_captcha b)) of
                  Some e \<Rightarrow> (err_reply e, s)
                | None \<Rightarrow>
                    (case onb_FindPending E ''citizen dedup lookup'' ''citizen'' (ib_email b) s of
                       Inr existing \<Rightarrow> provisionCitizen E K new password existing True s
                     | Inl NotFound \<Rightarrow>
                         (case overVelocity E (ib_email b) s of
                            Some e \<Rightarrow> (err_reply e, s)
                          | None \<Rightarrow>
                              (case onb_Create E ''create citizen onboarding request'' (new_request ''citizen'' b) s of
                                 (Inr req, s1) \<Rightarrow> provisionCitizen E K new password req False s1
                               | (Inl UniqueViolation, s1) \<Rightarrow>
                                   (case onb_FindPending E ''replay citizen onboarding request'' ''citizen'' (ib_email b) s1 of
                                      Inr existing \<Rightarrow> provisionCitizen E K new password existing True s1
                                    | Inl e \<Rightarrow> (Err 500 ''failed to create onboarding request'', s1))
                               | (Inl e, s1) \<Rightarrow> (Err 500 ''failed to create onboarding request'', s1)))
                     | Inl e \<Rightarrow> (Err 500 ''failed to create onboarding request'', s)))))"

definition Intake ::
  "db_env \<Rightarrow> (string \<Rightarrow> bool option) option \<Rightarrow> string \<Rightarrow> string + intake_body \<Rightarrow> 'k onb_state \<Rightarrow> onb_reply \<times> 'k onb_state" where
  "Intake E captcha persona body s =
     (if \<not> IsIntakePersona persona then
        (if persona = ''citizen'' then (Err 400 ''citizens self-serve via POST /v1/onboarding/citizen'', s)
         else (Err 404 (''unknown onboarding persona: '' @ persona), s))
      else case body of
        Inl err \<Rightarrow> (Err 400 (''invalid JSON body: '' @ err), s)
      | Inr b0 \<Rightarrow>
          (case validateForPersona persona b0 of
             Inl msg \<Rightarrow> (Err 400 msg, s)
           | Inr b \<Rightarrow>
               (case verifyCaptcha captcha (trim_space (ib_captcha b)) of
                  Some e \<Rightarrow> (err_reply e, s)
                | None \<Rightarrow>
                    (case onb_FindPending E ''intake dedup lookup'' persona (ib_email b) s of
                       Inr existing \<Rightarrow> (Reply 200 (existing, True), s)
                     | Inl NotFound \<Rightarrow>
                         (case overVelocity E (ib_email b) s of
                            Some e \<Rightarrow> (err_reply e, s)
                          | None \<Rightarrow>
                              (case onb_Create E ''create onboarding request'' (new_request persona b) s of
                                 (Inr req, s1) \<Rightarrow> (Reply 201 (req, False), s1)
                               | (Inl UniqueViolation, s1) \<Rightarrow>
                                   (case onb_FindPending E ''replay onboarding request'' persona (ib_email b) s1 of
                                      Inr existing \<Rightarrow> (Reply 200 (existing, True), s1)
                                    | Inl e \<Rightarrow> (Err 500 ''failed to create onboarding request'', s1))
                               | (Inl e, s1) \<Rightarrow> (Err 500 ''failed to create onboarding request'', s1)))
                     | Inl e \<Rightarrow> (Err 500 ''failed to create onboarding request'', s)))))"

section \<open>Reading\<close>

definition onb_statuses :: "string list" where
  "onb_statuses = [''pending'', ''approved'', ''rejected'', ''completed'', ''expired'']"

definition List_requests :: "db_env \<Rightarrow> string \<Rightarrow> string \<Rightarrow> 'k onb_state \<Rightarrow> onb_request list resp" where
  "List_requests E status persona s =
     (if status \<noteq> [] \<and> status \<notin> set onb_statuses
      then Err 400 ''invalid status filter (pending|approved|rejected|completed|expired)''
      else if persona \<noteq> [] \<and> map_of personaRoles persona = None then Err 400 ''invalid persona filter''
      else if fault E ''list onboarding requests'' then Err 500 ''failed to list onboarding requests''
      else Reply 200 (onb_List status persona 100 0 s))"

definition Get_request :: "db_env \<Rightarrow> string \<Rightarrow> 'k onb_state \<Rightarrow> onb_request resp" where
  "Get_request E rid s =
     (case onb_Get E ''get onboarding request'' rid s of
        Inl NotFound \<Rightarrow> Err 404 ''onboarding request not found''
      | Inl e \<Rightarrow> Err 500 ''failed to load onboarding request''
      | Inr r \<Rightarrow> Reply 200 r)"

text \<open>The public status: id, persona, status and the two timestamps.\<close>

definition StatusPublic :: "db_env \<Rightarrow> string \<Rightarrow> 'k onb_state \<Rightarrow> (string \<times> string \<times> string \<times> int \<times> int option) resp" where
  "StatusPublic E rid s =
     (case onb_Get E ''public status lookup'' rid s of
        Inl NotFound \<Rightarrow> Err 404 ''onboarding request not found''
      | Inl e \<Rightarrow> Err 500 ''failed to load onboarding request''
      | Inr r \<Rightarrow> Reply 200 (ob_id r, ob_persona r, ob_status r, ob_created_at r, ob_decided_at r))"

section \<open>Deciding\<close>

text \<open>What a decision reads: the caller's role, the request, its age and its status. \<open>Inl\<close> ends the request.\<close>

definition decide_check ::
  "db_env \<Rightarrow> ctx \<Rightarrow> int \<Rightarrow> string \<Rightarrow> 'k onb_state \<Rightarrow> onb_reply \<times> 'k onb_state + onb_request" where
  "decide_check E c pendingTTL rid s =
     (if \<not> hasRole c ''platform-admin'' then Inl (Err 403 ''onboarding decisions require the platform-admin role'', s)
      else case onb_Get E ''load onboarding request'' rid s of
        Inl NotFound \<Rightarrow> Inl (Err 404 ''onboarding request not found'', s)
      | Inl e \<Rightarrow> Inl (Err 500 ''failed to load onboarding request'', s)
      | Inr req \<Rightarrow>
          if ob_status req = ''pending'' \<and> pendingTTL > 0 \<and> now E - ob_created_at req > pendingTTL
          then Inl (Err 409 ''request expired (pending longer than the onboarding TTL)'',
                    snd (onb_Decide E ''expire stale request'' rid ''expired'' [] ''system:ttl-expiry'' [] s))
          else if ob_status req \<noteq> ''pending'' then Inl (Err 409 (''request already decided (status='' @ ob_status req @ '')''), s)
          else Inr req)"

text \<open>A rejection's body: absent, undecodable, or a reason.\<close>

definition reject_write ::
  "db_env \<Rightarrow> ctx \<Rightarrow> string \<Rightarrow> (string + string) option \<Rightarrow> 'k onb_state \<Rightarrow> onb_reply \<times> 'k onb_state" where
  "reject_write E c rid body s =
     (case (case body of None \<Rightarrow> Inr [] | Some b \<Rightarrow> b) of
        Inl err \<Rightarrow> (Err 400 (''invalid JSON body: '' @ err), s)
      | Inr reason \<Rightarrow>
          if length reason > 500 then (Err 400 ''reason too long (max 500 chars)'', s)
          else (case onb_Decide E ''reject onboarding request'' rid ''rejected'' [] (Subject c) (trim_space reason) s of
             (Inl e, s1) \<Rightarrow> (Err 500 ''failed to reject onboarding request'', s1)
           | (Inr final, s1) \<Rightarrow> (Reply 200 (final, False), s1)))"

definition approve_write ::
  "db_env \<Rightarrow> 'k kc_ops \<Rightarrow> string \<Rightarrow> string \<Rightarrow> ctx \<Rightarrow> onb_request \<Rightarrow> 'k onb_state \<Rightarrow> onb_reply \<times> 'k onb_state" where
  "approve_write E K new password c req s =
     (case provision K new password (ob_persona req) (ob_email req) (ob_display_name req) (directory s) of
        (None, k1) \<Rightarrow> (Err 502 ''identity provisioning failed'', s\<lparr>directory := k1\<rparr>)
      | (Some (kcID, existed), k1) \<Rightarrow>
          (case onb_Decide E ''finalize approved request'' (ob_id req) ''completed'' kcID (Subject c) [] (s\<lparr>directory := k1\<rparr>) of
             (Inl e, s1) \<Rightarrow> (Err 500 ''failed to finalize onboarding request'', s1)
           | (Inr final, s1) \<Rightarrow> (Reply 200 (final, existed), s1)))"

definition Reject ::
  "db_env \<Rightarrow> ctx \<Rightarrow> int \<Rightarrow> string \<Rightarrow> (string + string) option \<Rightarrow> 'k onb_state \<Rightarrow> onb_reply \<times> 'k onb_state" where
  "Reject E c pendingTTL rid body s =
     (case decide_check E c pendingTTL rid s of Inl x \<Rightarrow> x | Inr req \<Rightarrow> reject_write E c rid body s)"

definition Approve ::
  "db_env \<Rightarrow> 'k kc_ops \<Rightarrow> string \<Rightarrow> string \<Rightarrow> ctx \<Rightarrow> int \<Rightarrow> string \<Rightarrow> 'k onb_state \<Rightarrow> onb_reply \<times> 'k onb_state" where
  "Approve E K new password c pendingTTL rid s =
     (case decide_check E c pendingTTL rid s of Inl x \<Rightarrow> x | Inr req \<Rightarrow> approve_write E K new password c req s)"

section \<open>Reconciling\<close>

fun reconcile_rows :: "'k kc_ops \<Rightarrow> onb_request list \<Rightarrow> 'k \<Rightarrow> nat \<times> string list \<times> 'k" where
  "reconcile_rows K [] k = (0, [], k)"
| "reconcile_rows K (r # rs) k =
     (if ob_keycloak_sub r = [] then reconcile_rows K rs k
      else case kc_EnsureRealmRole K (ob_keycloak_sub r) (RealmRole (ob_persona r)) k of
        (ok, k1) \<Rightarrow> (case reconcile_rows K rs k1 of (ensured, failed, k2) \<Rightarrow>
          if ok then (ensured + 1, failed, k2) else (ensured, ob_id r # failed, k2)))"

lemma onb_List_short: "length (onb_List st p n offset s) \<le> length (onb_requests s) - nat offset"
proof -
  have "length (onb_List st p n offset s) \<le> length (filter (\<lambda>r. (st = [] \<or> ob_status r = st) \<and> (p = [] \<or> ob_persona r = p)) (onb_requests s)) - nat offset"
    by (simp add: onb_List_def Let_def max_def)
  also have "\<dots> \<le> length (onb_requests s) - nat offset" by (rule diff_le_mono [OF length_filter_le])
  finally show ?thesis .
qed

text \<open>
  The loop over the pages of completed requests; the table does not change under it here, and each page is
  a query of its own that may fail (nothing, with what the earlier pages did to the directory).
\<close>

function reconcile_loop ::
  "db_env \<Rightarrow> 'k kc_ops \<Rightarrow> 'k onb_state \<Rightarrow> int \<Rightarrow> 'k \<Rightarrow> (nat \<times> nat \<times> string list) option \<times> 'k" where
  "reconcile_loop E K s offset k =
     (if fault E (''reconcile list '' @ show_int offset) then (None, k)
      else let reqs = onb_List ''completed'' [] 500 offset s in
        case reconcile_rows K reqs k of (ensured, failed, k1) \<Rightarrow>
          if length reqs < 500 then (Some (length reqs, ensured, failed), k1)
          else (case reconcile_loop E K s (offset + 500) k1 of
             (None, k2) \<Rightarrow> (None, k2)
           | (Some (c, e, f), k2) \<Rightarrow> (Some (length reqs + c, ensured + e, failed @ f), k2)))"
  by pat_completeness auto

termination
proof (relation "measure (\<lambda>(E, K, s, offset, k). nat (int (length (onb_requests s)) + 500 - offset))")
  fix E and K :: "'k kc_ops" and s :: "'k onb_state" and offset k reqs x ensured y failed k1
  assume "reqs = onb_List ''completed'' [] 500 offset s" "\<not> length reqs < 500"
  with onb_List_short [of "''completed''" "[]" 500 offset s] have "int (length (onb_requests s)) + 500 - offset > 0" by auto
  then show "((E, K, s, offset + 500, k1), E, K, s, offset, k) \<in>
      measure (\<lambda>(E, K, s, offset, k). nat (int (length (onb_requests s)) + 500 - offset))" by auto
qed simp

declare reconcile_loop.simps [simp del]

definition Reconcile ::
  "db_env \<Rightarrow> 'k kc_ops \<Rightarrow> ctx \<Rightarrow> 'k onb_state \<Rightarrow> (nat \<times> nat \<times> string list) resp \<times> 'k onb_state" where
  "Reconcile E K c s =
     (if \<not> hasRole c ''platform-admin'' then (Err 403 ''onboarding reconcile requires the platform-admin role'', s)
      else case reconcile_loop E K s 0 (directory s) of
        (None, k1) \<Rightarrow> (Err 500 ''failed to list completed requests'', s\<lparr>directory := k1\<rparr>)
      | (Some r, k1) \<Rightarrow> (Reply 200 r, s\<lparr>directory := k1\<rparr>))"

section \<open>Reconciling page by page\<close>

definition completed_rows :: "'k onb_state \<Rightarrow> onb_request list" where
  "completed_rows s = sort_key (\<lambda>r. - ob_created_at r) (sort_key ob_id (filter (\<lambda>r. ob_status r = ''completed'') (onb_requests s)))"

lemma onb_List_page: "0 \<le> offset \<Longrightarrow> onb_List ''completed'' [] 500 offset s = take 500 (drop (nat offset) (completed_rows s))"
  by (simp add: onb_List_def completed_rows_def Let_def)

lemma reconcile_rows_append:
  "reconcile_rows K (xs @ ys) k = (case reconcile_rows K xs k of (e, f, k1) \<Rightarrow>
     case reconcile_rows K ys k1 of (e', f', k2) \<Rightarrow> (e + e', f @ f', k2))"
  by (induction xs arbitrary: k) (auto split: prod.splits)

lemma reconcile_loop_all:
  assumes "\<And>op. \<not> fault E op" "0 \<le> offset"
  shows "reconcile_loop E K s offset k =
    (let rows = drop (nat offset) (completed_rows s) in
     case reconcile_rows K rows k of (e, f, k1) \<Rightarrow> (Some (length rows, e, f), k1))"
  using assms(2)
proof (induction "length (completed_rows s) - nat offset" arbitrary: offset k rule: less_induct)
  case less
  let ?rows = "drop (nat offset) (completed_rows s)"
  note pg = onb_List_page [OF less(2), of s]
  obtain e f k1 where rr: "reconcile_rows K (take 500 ?rows) k = (e, f, k1)" by (rule prod_cases3)
  show ?case
  proof (cases "length ?rows < 500")
    case True
    then have "take 500 ?rows = ?rows" by simp
    with True rr show ?thesis by (subst reconcile_loop.simps) (simp add: assms(1) pg Let_def)
  next
    case False
    have nx: "nat (offset + 500) = nat offset + 500" using less(2) by simp
    have "reconcile_loop E K s (offset + 500) k1 =
      (let rows = drop (nat (offset + 500)) (completed_rows s) in
       case reconcile_rows K rows k1 of (e, f, k1) \<Rightarrow> (Some (length rows, e, f), k1))"
      by (rule less(1)) (use False less(2) in \<open>auto simp: nx\<close>)
    moreover have "reconcile_rows K ?rows k = (case reconcile_rows K (drop 500 ?rows) k1 of (e', f', k2) \<Rightarrow> (e + e', f @ f', k2))"
      using reconcile_rows_append [of K "take 500 ?rows" "drop 500 ?rows" k] by (simp only: append_take_drop_id rr prod.case)
    ultimately show ?thesis using False rr
      by (subst reconcile_loop.simps) (auto simp: assms(1) pg Let_def nx add.commute split: prod.splits)
  qed
qed

text \<open>On the simulated directory every listed user has the role afterwards.\<close>

definition sim_has_role :: "string \<Rightarrow> string \<Rightarrow> sim_kc \<Rightarrow> bool" where
  "sim_has_role uid role k \<longleftrightarrow> (\<exists>u \<in> set (sim_users k). u_id u = uid \<and> role \<in> set (u_roles u))"

lemma sim_known_update [simp]: "(\<And>u. u_id (f u) = u_id u) \<Longrightarrow> sim_known i (sim_update uid f k) = sim_known i k"
  by (simp add: sim_known_def sim_update_def flip: set_map) (simp add: map_upd_rows)

lemma sim_has_role_update:
  assumes "\<And>u. u_id (f u) = u_id u"
  shows "sim_has_role i r (sim_update uid f k) \<longleftrightarrow>
    (\<exists>u \<in> set (sim_users k). u_id u = i \<and> r \<in> set (u_roles (if u_id u = uid then f u else u)))"
proof -
  let ?g = "\<lambda>u. if u_id u = uid then f u else u"
  have "sim_has_role i r (sim_update uid f k) \<longleftrightarrow> (\<exists>u \<in> set (sim_users k). u_id (?g u) = i \<and> r \<in> set (u_roles (?g u)))"
    unfolding sim_has_role_def sim_update_def upd_rows_def by (simp add: image_iff) blast
  moreover have "u_id (?g u) = u_id u" for u using assms by simp
  ultimately show ?thesis by simp
qed

lemma sim_known_logged [simp]: "sim_known i (sim_logged m j k) = sim_known i k"
  by (simp add: sim_known_def)

lemma sim_has_role_logged [simp]: "sim_has_role i r (sim_logged m j k) = sim_has_role i r k"
  by (simp add: sim_has_role_def)

lemma assign_role_keeps: "sim_has_role i r k \<Longrightarrow> sim_has_role i r (snd (sim_AssignRealmRole uid role k))"
  by (simp add: sim_AssignRealmRole_def sim_has_role_update split: option.split) (auto simp: sim_has_role_def)

lemma assign_role_known [simp]: "sim_known i (snd (sim_AssignRealmRole uid role k)) = sim_known i k"
  by (simp add: sim_AssignRealmRole_def split: option.split)

lemma assign_role_sets: "sim_known uid k \<Longrightarrow> sim_has_role uid role (snd (sim_AssignRealmRole uid role k))"
proof -
  assume "sim_known uid k"
  then obtain u where f: "find (\<lambda>u. u_id u = uid) (sim_users k) = Some u"
    by (cases "find (\<lambda>u. u_id u = uid) (sim_users k)") (auto simp: find_None_all sim_known_def)
  from find_Some_prop [OF f] have u: "u_id u = uid" "u \<in> set (sim_users k)" by auto
  then show ?thesis using f
    by (cases "role \<in> set (u_roles u)") (simp_all add: sim_AssignRealmRole_def sim_has_role_update, auto simp: sim_has_role_def)
qed

lemma reconcile_rows_repair:
  "reconcile_rows simulated_kc rows k = (e, f, k') \<Longrightarrow>
   (\<forall>i r. sim_has_role i r k \<longrightarrow> sim_has_role i r k') \<and>
   (\<forall>q \<in> set rows. ob_keycloak_sub q \<noteq> [] \<and> sim_known (ob_keycloak_sub q) k \<longrightarrow>
      sim_has_role (ob_keycloak_sub q) (RealmRole (ob_persona q)) k')"
proof (induction rows arbitrary: k e f k')
  case (Cons q rows)
  show ?case
  proof (cases "ob_keycloak_sub q = []")
    case True
    with Cons show ?thesis by auto
  next
    case False
    obtain ok k1 where a: "sim_AssignRealmRole (ob_keycloak_sub q) (RealmRole (ob_persona q)) k = (ok, k1)" by (rule prod.exhaust)
    obtain e1 f1 k2 where r: "reconcile_rows simulated_kc rows k1 = (e1, f1, k2)" by (rule prod_cases3)
    have k2: "k' = k2" using Cons.prems False a r by (auto simp: simulated_kc_def split: if_splits)
    note ih = Cons.IH [OF r]
    have kn: "sim_known i k1 = sim_known i k" for i using assign_role_known [of i "ob_keycloak_sub q" "RealmRole (ob_persona q)" k] a by simp
    have kp: "sim_has_role i x k \<Longrightarrow> sim_has_role i x k1" for i x
      using assign_role_keeps [of i x k "ob_keycloak_sub q" "RealmRole (ob_persona q)"] a by simp
    have "sim_known (ob_keycloak_sub q) k \<Longrightarrow> sim_has_role (ob_keycloak_sub q) (RealmRole (ob_persona q)) k1"
      using assign_role_sets [of "ob_keycloak_sub q" k "RealmRole (ob_persona q)"] a by simp
    with ih kn kp show ?thesis unfolding k2 by auto
  qed
qed simp

section \<open>One pending request per applicant\<close>

interpretation by_applicant: partial_unique ob_id "\<lambda>r. Some (ob_persona r, to_lower (ob_email r))" "\<lambda>r. ob_status r = ''pending''" pending_taken
  by unfold_locales (auto simp: pending_taken_def)

definition requests_ok :: "onb_request list \<Rightarrow> bool" where
  "requests_ok xs \<longleftrightarrow> distinct (map ob_id xs) \<and> by_applicant.uniq xs"

text \<open>A statement of some request on the onboarding table, or a client call; decisions never write \<open>pending\<close>.\<close>

inductive onb_step :: "'k onb_state \<Rightarrow> 'k onb_state \<Rightarrow> bool" where
  submit: "onb_step s (snd (onb_Create E op req s))"
| decide: "status \<noteq> ''pending'' \<Longrightarrow> onb_step s (snd (onb_Decide E op rid status sub whom reason s))"
| expire: "onb_step s (onb_ExpirePending E cutoff s)"
| merge: "onb_step s (onb_MergeMeta E op rid patch s)"
| client: "onb_step s (s\<lparr>directory := k\<rparr>)"

lemma requests_ok_upd:
  assumes "requests_ok xs" "\<And>r. P r \<Longrightarrow> ob_id (f r) = ob_id r \<and> ob_persona (f r) = ob_persona r \<and> ob_email (f r) = ob_email r"
    "\<And>r. P r \<Longrightarrow> ob_status (f r) = ''pending'' \<Longrightarrow> ob_status r = ''pending''"
  shows "requests_ok (upd_rows P f xs)"
proof -
  have "map ob_id (upd_rows P f xs) = map ob_id xs" using assms(2) by (auto simp: upd_rows_def)
  then show ?thesis using assms by (auto simp: requests_ok_def intro!: by_applicant.uniq_update)
qed

lemma onb_step_ok: "onb_step s s' \<Longrightarrow> requests_ok (onb_requests s) \<Longrightarrow> requests_ok (onb_requests s')"
proof (induction rule: onb_step.induct)
  case (submit s E op req)
  then show ?case
    by (simp add: onb_Create_def Let_def) (auto simp: requests_ok_def intro!: by_applicant.uniq_insert)
next
  case (decide status s E op rid sub whom reason)
  then show ?case
    by (simp add: onb_Decide_def split: option.split) (auto simp: decided_def intro!: requests_ok_upd)
next
  case (expire s E cutoff)
  then show ?case by (simp add: onb_ExpirePending_def) (auto intro!: requests_ok_upd)
next
  case (merge s E op rid patch)
  then show ?case by (simp add: onb_MergeMeta_def) (auto intro!: requests_ok_upd)
qed simp

lemma onb_steps_ok: "onb_step\<^sup>*\<^sup>* s s' \<Longrightarrow> requests_ok (onb_requests s) \<Longrightarrow> requests_ok (onb_requests s')"
  by (induction rule: rtranclp_induct) (auto dest: onb_step_ok)

section \<open>Who may grant roles\<close>

text \<open>Every role of a user is \<open>citizen\<close> or one it already had at the start.\<close>

definition only_citizen :: "sim_kc \<Rightarrow> sim_kc \<Rightarrow> bool" where
  "only_citizen k0 k \<longleftrightarrow> (\<forall>i r. sim_has_role i r k \<longrightarrow> r = ''citizen'' \<or> sim_has_role i r k0)"

lemma only_citizen_logged [simp]: "only_citizen k0 (sim_logged m i k) = only_citizen k0 k"
  by (simp add: only_citizen_def)

lemma only_citizen_refl [simp]: "only_citizen k k"
  by (simp add: only_citizen_def)

lemma only_citizen_assign:
  assumes "only_citizen k0 k"
  shows "only_citizen k0 (snd (sim_AssignRealmRole uid ''citizen'' k))"
proof -
  have "sim_has_role i r k" if "sim_has_role i r (snd (sim_AssignRealmRole uid ''citizen'' k))" "r \<noteq> ''citizen''" for i r
    using that
    by (simp add: sim_AssignRealmRole_def sim_has_role_update split: option.splits if_splits)
       (auto simp: sim_has_role_def split: if_splits)
  with assms show ?thesis unfolding only_citizen_def by blast
qed

lemma only_citizen_create: "only_citizen k0 k \<Longrightarrow> only_citizen k0 (snd (sim_CreateUser new spec k))"
  unfolding only_citizen_def sim_has_role_def
  by (auto simp: sim_CreateUser_def Let_def split: option.splits prod.splits)

text \<open>What each call of the sequence keeps, the sequence keeps.\<close>

lemma provision_keeps:
  assumes create: "\<And>r k1. kc_CreateUser K new \<lparr>cs_username = email, cs_email = email, cs_display_name = name\<rparr> k = (r, k1) \<Longrightarrow> Q k1"
    and pass: "\<And>uid k1. kc_CreateUser K new \<lparr>cs_username = email, cs_email = email, cs_display_name = name\<rparr> k = (Some (uid, False), k1) \<Longrightarrow>
      Q (snd (kc_SetTemporaryPassword K uid pw k1))"
    and role: "\<And>uid t. Q t \<Longrightarrow> Q (snd (kc_EnsureRealmRole K uid (RealmRole persona) t))"
    and mail: "\<And>uid t. Q t \<Longrightarrow> Q (snd (kc_SendActionsEmail K uid welcomeActions t))"
  shows "Q (snd (provision K new pw persona email name k))"
proof -
  define P where "P x \<longleftrightarrow> Q (snd x)" for x :: "(string \<times> bool) option \<times> 'a"
  have rest: "P (case kc_EnsureRealmRole K uid (RealmRole persona) k2 of (False, k3) \<Rightarrow> (None, k3)
      | (True, k3) \<Rightarrow> (case kc_SendActionsEmail K uid welcomeActions k3 of (False, k4) \<Rightarrow> (None, k4) | (True, k4) \<Rightarrow> (Some (uid, e), k4)))"
    if "Q k2" for uid e k2
  proof -
    obtain a k3 where r: "kc_EnsureRealmRole K uid (RealmRole persona) k2 = (a, k3)" by (rule prod.exhaust)
    obtain b k4 where m: "kc_SendActionsEmail K uid welcomeActions k3 = (b, k4)" by (rule prod.exhaust)
    have "Q k3" using role [OF that, of uid] r by simp
    moreover from this have "Q k4" using mail [of k3 uid] m by simp
    ultimately show ?thesis by (cases a; cases b) (simp_all add: P_def r m)
  qed
  obtain r k1 where c: "kc_CreateUser K new \<lparr>cs_username = email, cs_email = email, cs_display_name = name\<rparr> k = (r, k1)" by (rule prod.exhaust)
  note k1 = create [OF c]
  have "P (provision K new pw persona email name k)"
  proof (cases r)
    case None
    then show ?thesis using k1 by (simp add: provision_def c P_def)
  next
    case (Some ue)
    obtain uid e where ue: "ue = (uid, e)" by (cases ue)
    obtain a k2 where p: "kc_SetTemporaryPassword K uid pw k1 = (a, k2)" by (rule prod.exhaust)
    show ?thesis
    proof (cases e)
      case True
      then show ?thesis using rest [OF k1, of uid True] by (simp add: provision_def c Some ue)
    next
      case False
      then have "Q k2" using pass [of uid k1] c Some ue p by simp
      then show ?thesis using rest [of k2 uid False] False by (cases a) (simp_all add: provision_def c Some ue p P_def)
    qed
  qed
  then show ?thesis by (simp add: P_def)
qed

lemma sim_ops [simp]:
  "kc_CreateUser simulated_kc = sim_CreateUser" "kc_SetTemporaryPassword simulated_kc = sim_SetTemporaryPassword"
  "kc_EnsureRealmRole simulated_kc = sim_AssignRealmRole" "kc_SendActionsEmail simulated_kc = sim_SendActionsEmail"
  by (simp_all add: simulated_kc_def)

lemma provision_only_citizen:
  assumes "only_citizen k0 k" "RealmRole persona = ''citizen''"
  shows "only_citizen k0 (snd (provision simulated_kc new pw persona email name k))"
proof (rule provision_keeps)
  fix r k1
  assume c: "kc_CreateUser simulated_kc new \<lparr>cs_username = email, cs_email = email, cs_display_name = name\<rparr> k = (r, k1)"
  show k1: "only_citizen k0 k1" using only_citizen_create [OF assms(1)] c by (metis sim_ops(1) snd_conv)
next
  fix uid k1
  assume c: "kc_CreateUser simulated_kc new \<lparr>cs_username = email, cs_email = email, cs_display_name = name\<rparr> k = (Some (uid, False), k1)"
  have "only_citizen k0 k1" using only_citizen_create [OF assms(1)] c by (metis sim_ops(1) snd_conv)
  then show "only_citizen k0 (snd (kc_SetTemporaryPassword simulated_kc uid pw k1))" by (simp add: sim_SetTemporaryPassword_def)
qed (simp_all add: assms(2) only_citizen_assign sim_SendActionsEmail_def)

text \<open>No intake request has been completed, and nobody has been given a role beyond \<open>citizen\<close>.\<close>

definition unapproved :: "sim_kc \<Rightarrow> sim_kc onb_state \<Rightarrow> bool" where
  "unapproved k0 s \<longleftrightarrow> distinct (map ob_id (onb_requests s)) \<and>
     (\<forall>r \<in> set (onb_requests s). ob_status r = ''completed'' \<longrightarrow> ob_persona r = ''citizen'') \<and> only_citizen k0 (directory s)"

lemma unapproved_directory: "unapproved k0 s \<Longrightarrow> only_citizen k0 k \<Longrightarrow> unapproved k0 (s\<lparr>directory := k\<rparr>)"
  by (simp add: unapproved_def)

lemma unapproved_upd:
  assumes "unapproved k0 s" "\<And>r. ob_id (f r) = ob_id r \<and> ob_persona (f r) = ob_persona r"
    "\<And>r. r \<in> set (onb_requests s) \<Longrightarrow> P r \<Longrightarrow> ob_status (f r) = ''completed'' \<Longrightarrow> ob_status r = ''completed'' \<or> ob_persona r = ''citizen''"
  shows "unapproved k0 (s\<lparr>onb_requests := upd_rows P f (onb_requests s)\<rparr>)"
proof -
  have "map ob_id (upd_rows P f (onb_requests s)) = map ob_id (onb_requests s)" using assms(2) by (simp add: map_upd_rows)
  moreover have "ob_persona q = ''citizen''" if q: "q \<in> set (upd_rows P f (onb_requests s))" "ob_status q = ''completed''" for q
  proof -
    from set_upd_rowsD [OF q(1)] obtain r where r: "r \<in> set (onb_requests s)" "q = (if P r then f r else r)" by blast
    then show ?thesis using assms(1,2) assms(3) [OF r(1)] q(2) by (auto simp: unapproved_def split: if_splits)
  qed
  ultimately show ?thesis using assms(1) by (simp add: unapproved_def)
qed

lemma unapproved_Decide:
  assumes "unapproved k0 s" "status = ''completed'' \<Longrightarrow> \<exists>r \<in> set (onb_requests s). ob_id r = rid \<and> ob_persona r = ''citizen''"
  shows "unapproved k0 (snd (onb_Decide E op rid status sub whom reason s))"
proof -
  have "unapproved k0 (s\<lparr>onb_requests := upd_rows (\<lambda>r. ob_id r = rid) (decided E status sub whom reason) (onb_requests s)\<rparr>)"
  proof (rule unapproved_upd [OF assms(1)])
    fix r
    assume r: "r \<in> set (onb_requests s)" "ob_id r = rid" "ob_status (decided E status sub whom reason r) = ''completed''"
    then obtain q where q: "q \<in> set (onb_requests s)" "ob_id q = rid" "ob_persona q = ''citizen''"
      using assms(2) by (auto simp: decided_def)
    have "distinct (map ob_id (onb_requests s))" using assms(1) by (simp add: unapproved_def)
    from distinct_key [OF this r(1) q(1)] r(2) q show "ob_status r = ''completed'' \<or> ob_persona r = ''citizen''" by simp
  qed (simp add: decided_def)
  then show ?thesis using assms(1) by (simp add: onb_Decide_def split: option.split)
qed

lemma unapproved_MergeMeta: "unapproved k0 s \<Longrightarrow> unapproved k0 (onb_MergeMeta E op rid patch s)"
  by (auto simp: onb_MergeMeta_def intro!: unapproved_upd)

lemma unapproved_Expire: "unapproved k0 s \<Longrightarrow> unapproved k0 (onb_ExpirePending E cutoff s)"
  by (auto simp: onb_ExpirePending_def intro!: unapproved_upd)

lemma unapproved_Create:
  assumes "unapproved k0 s"
  shows "unapproved k0 (snd (onb_Create E op (new_request persona b) s))"
    and "fst (onb_Create E op (new_request persona b) s) = Inr req \<Longrightarrow>
      req \<in> set (onb_requests (snd (onb_Create E op (new_request persona b) s))) \<and> ob_persona req = persona"
  using assms by (auto simp: onb_Create_def Let_def unapproved_def new_request_def split: if_split_asm)

lemma citizen_role: "RealmRole ''citizen'' = ''citizen''"
  by (simp add: RealmRole_def personaRoles_def)

lemma unapproved_citizen:
  assumes "unapproved k0 s" "req \<in> set (onb_requests s)" "ob_persona req = ''citizen''"
  shows "unapproved k0 (snd (provisionCitizen E simulated_kc new pw req retried s))"
proof -
  obtain r k1 where p: "provision simulated_kc new pw ''citizen'' (ob_email req) (ob_display_name req) (directory s) = (r, k1)" by (rule prod.exhaust)
  have "only_citizen k0 (directory s)" using assms(1) by (simp add: unapproved_def)
  from provision_only_citizen [OF this citizen_role, of new pw "ob_email req" "ob_display_name req"] p
  have u1: "unapproved k0 (s\<lparr>directory := k1\<rparr>)" using assms(1) by (simp add: unapproved_directory)
  have "unapproved k0 (snd (onb_Decide E op (ob_id req) ''completed'' sub whom [] (s\<lparr>directory := k1\<rparr>)))" for op sub whom
    by (rule unapproved_Decide [OF u1]) (use assms in auto)
  then show ?thesis using u1 unapproved_MergeMeta
    by (auto simp: provisionCitizen_def p split: option.split prod.splits sum.splits) (metis snd_conv)+
qed

lemma FindPending_row:
  "onb_FindPending E op persona email s = Inr r \<Longrightarrow> r \<in> set (onb_requests s) \<and> ob_persona r = persona"
  by (auto simp: onb_FindPending_def split: if_splits option.splits dest: find_Some_prop)

lemma unapproved_CitizenSelfServe:
  assumes u: "unapproved k0 s"
  shows "unapproved k0 (snd (CitizenSelfServe E simulated_kc new pw captcha body s))"
proof -
  define P where "P x \<longleftrightarrow> unapproved k0 (snd x)" for x :: "onb_reply \<times> sim_kc onb_state"
  have same: "P (r, s)" for r using u by (simp add: P_def)
  have found: "P (provisionCitizen E simulated_kc new pw r t s')" if "onb_FindPending E op ''citizen'' email s' = Inr r" "unapproved k0 s'" for op email s' r t
    using unapproved_citizen [OF that(2)] FindPending_row [OF that(1)] by (simp add: P_def)
  have created: "P (case onb_Create E op (new_request ''citizen'' b) s of
       (Inr req, s1) \<Rightarrow> provisionCitizen E simulated_kc new pw req False s1
     | (Inl UniqueViolation, s1) \<Rightarrow> (case onb_FindPending E op2 ''citizen'' (ib_email b) s1 of
          Inr existing \<Rightarrow> provisionCitizen E simulated_kc new pw existing True s1
        | Inl e \<Rightarrow> (Err 500 m, s1))
     | (Inl e, s1) \<Rightarrow> (Err 500 m, s1))" for op op2 b m
  proof -
    obtain r s1 where c: "onb_Create E op (new_request ''citizen'' b) s = (r, s1)" by (rule prod.exhaust)
    have u1: "unapproved k0 s1" using unapproved_Create(1) [OF u, of E op "''citizen''" b] c by simp
    show ?thesis
    proof (cases r)
      case (Inr req)
      then have "req \<in> set (onb_requests s1) \<and> ob_persona req = ''citizen''" using unapproved_Create(2) [OF u, of E op "''citizen''" b req] c by simp
      then show ?thesis using unapproved_citizen [OF u1] by (simp add: c Inr P_def)
    next
      case (Inl e)
      have "P (case onb_FindPending E op2 ''citizen'' (ib_email b) s1 of
          Inr existing \<Rightarrow> provisionCitizen E simulated_kc new pw existing True s1 | Inl e \<Rightarrow> (Err 500 m, s1))"
        using found [OF _ u1] u1 by (cases "onb_FindPending E op2 ''citizen'' (ib_email b) s1") (auto simp: P_def)
      then show ?thesis using u1 by (cases e) (simp_all add: c Inl P_def)
    qed
  qed
  have "P (CitizenSelfServe E simulated_kc new pw captcha body s)"
    unfolding CitizenSelfServe_def
    by (auto simp: same created split: sum.split option.split onb_error.split dest!: found [OF _ u])
  then show ?thesis by (simp add: P_def)
qed

lemma unapproved_Intake:
  assumes u: "unapproved k0 s"
  shows "unapproved k0 (snd (Intake E captcha persona body s))"
proof -
  define P where "P x \<longleftrightarrow> unapproved k0 (snd x)" for x :: "onb_reply \<times> sim_kc onb_state"
  have same: "P (r, s)" for r using u by (simp add: P_def)
  have created: "P (case onb_Create E op (new_request q b) s of
       (Inr req, s1) \<Rightarrow> (Reply 201 (req, False), s1)
     | (Inl UniqueViolation, s1) \<Rightarrow> (case onb_FindPending E op2 q (ib_email b) s1 of
          Inr existing \<Rightarrow> (Reply 200 (existing, True), s1)
        | Inl e \<Rightarrow> (Err 500 m, s1))
     | (Inl e, s1) \<Rightarrow> (Err 500 m, s1))" for op op2 b m q
    using unapproved_Create(1) [OF u, of E op q b]
    by (auto simp: P_def split: prod.split sum.split onb_error.split)
  have "P (Intake E captcha persona body s)"
    unfolding Intake_def by (auto simp: same created split: sum.split option.split onb_error.split)
  then show ?thesis by (simp add: P_def)
qed

lemma decide_check_cases:
  "decide_check E c ttl rid s = Inr req \<Longrightarrow> hasRole c ''platform-admin'' \<and> ob_status req = ''pending'' \<and> req \<in> set (onb_requests s) \<and> ob_id req = rid"
  by (auto simp: decide_check_def onb_Get_def split: if_splits sum.splits onb_error.splits option.splits dest: find_Some_prop)

lemma unapproved_decide_check:
  "unapproved k0 s \<Longrightarrow> decide_check E c ttl rid s = Inl x \<Longrightarrow> unapproved k0 (snd x)"
  by (auto simp: decide_check_def split: if_splits sum.splits onb_error.splits intro!: unapproved_Decide)

lemma unapproved_Reject:
  assumes u: "unapproved k0 s"
  shows "unapproved k0 (snd (Reject E c ttl rid body s))"
proof -
  have "unapproved k0 (snd (onb_Decide E op rid ''rejected'' [] whom reason s))" for op whom reason
    by (rule unapproved_Decide [OF u]) simp
  then have "unapproved k0 (snd (reject_write E c rid body s))" using u
    by (auto simp: reject_write_def split: option.split sum.split prod.splits) (metis snd_conv)+
  then show ?thesis using unapproved_decide_check [OF u]
    by (auto simp: Reject_def split: sum.split)
qed

lemma reconcile_rows_only_citizen:
  "only_citizen k0 k \<Longrightarrow> (\<And>r. r \<in> set rows \<Longrightarrow> ob_persona r = ''citizen'') \<Longrightarrow>
   only_citizen k0 (snd (snd (reconcile_rows simulated_kc rows k)))"
proof (induction rows arbitrary: k)
  case (Cons r rows)
  have p: "RealmRole (ob_persona r) = ''citizen''" using Cons.prems(2) [of r] by (simp add: citizen_role)
  obtain ok k1 where a: "sim_AssignRealmRole (ob_keycloak_sub r) ''citizen'' k = (ok, k1)" by (rule prod.exhaust)
  have "only_citizen k0 k1" using only_citizen_assign [OF Cons.prems(1), of "ob_keycloak_sub r"] a by simp
  from Cons.IH [OF this] Cons.IH [OF Cons.prems(1)] Cons.prems(2) show ?case
    by (auto simp: p a citizen_role split: prod.split)
qed simp

lemma reconcile_loop_only_citizen:
  assumes rows: "\<And>r. r \<in> set (completed_rows s) \<Longrightarrow> ob_persona r = ''citizen''"
  shows "0 \<le> offset \<Longrightarrow> only_citizen k0 k \<Longrightarrow> only_citizen k0 (snd (reconcile_loop E simulated_kc s offset k))"
proof (induction "length (completed_rows s) - nat offset" arbitrary: offset k rule: less_induct)
  case less
  let ?page = "take 500 (drop (nat offset) (completed_rows s))"
  note pg = onb_List_page [OF less(2), of s]
  obtain e f k1 where rr: "reconcile_rows simulated_kc ?page k = (e, f, k1)" by (rule prod_cases3)
  have "only_citizen k0 k1"
    using reconcile_rows_only_citizen [OF less(3), of ?page] rows rr by (auto dest!: in_set_takeD in_set_dropD)
  moreover have "only_citizen k0 (snd (reconcile_loop E simulated_kc s (offset + 500) k1))" if "\<not> length ?page < 500"
    by (rule less(1)) (use that less(2) calculation in auto)
  ultimately show ?case using less(3)
    by (subst reconcile_loop.simps) (auto simp: pg rr Let_def split: prod.splits option.splits)
qed

lemma unapproved_Reconcile:
  assumes u: "unapproved k0 s"
  shows "unapproved k0 (snd (Reconcile E simulated_kc c s))"
proof -
  have "ob_persona r = ''citizen''" if "r \<in> set (completed_rows s)" for r
    using that u by (auto simp: completed_rows_def unapproved_def)
  then have "only_citizen k0 (snd (reconcile_loop E simulated_kc s 0 (directory s)))"
    using u by (intro reconcile_loop_only_citizen) (auto simp: unapproved_def)
  then show ?thesis using u
    by (auto simp: Reconcile_def split: prod.splits option.splits intro!: unapproved_directory)
qed

text \<open>
  Whole requests of anyone, one after the other, except approvals by a platform administrator: public
  filings, rejections, reconciliation, approvals attempted without the role, and the expiry sweep.
\<close>

inductive unapproved_run :: "sim_kc onb_state \<Rightarrow> sim_kc onb_state \<Rightarrow> bool" where
  citizen: "unapproved_run s (snd (CitizenSelfServe E simulated_kc new pw captcha body s))"
| intake: "unapproved_run s (snd (Intake E captcha persona body s))"
| reject: "unapproved_run s (snd (Reject E c ttl rid rbody s))"
| approve: "\<not> hasRole c ''platform-admin'' \<Longrightarrow> unapproved_run s (snd (Approve E simulated_kc new pw c ttl rid s))"
| reconcile: "unapproved_run s (snd (Reconcile E simulated_kc c s))"
| expire: "unapproved_run s (onb_ExpirePending E cutoff s)"

lemma unapproved_run_keeps: "unapproved_run s s' \<Longrightarrow> unapproved k0 s \<Longrightarrow> unapproved k0 s'"
proof (induction rule: unapproved_run.induct)
  case (approve c s E new pw ttl rid)
  then show ?case using unapproved_decide_check [OF approve(2)] decide_check_cases [of E c ttl rid s]
    by (auto simp: Approve_def split: sum.split)
qed (simp_all only: unapproved_CitizenSelfServe unapproved_Intake unapproved_Reject unapproved_Reconcile unapproved_Expire)

lemma unapproved_runs_keep: "unapproved_run\<^sup>*\<^sup>* s s' \<Longrightarrow> unapproved k0 s \<Longrightarrow> unapproved k0 s'"
  by (induction rule: rtranclp_induct) (auto dest: unapproved_run_keeps)

section \<open>Credentials of existing accounts\<close>

text \<open>Since \<open>k0\<close>, temporary passwords were only set for users that \<open>k0\<close> did not know.\<close>

definition creds_kept :: "sim_kc \<Rightarrow> sim_kc \<Rightarrow> bool" where
  "creds_kept k0 k \<longleftrightarrow> sim_ids k0 \<subseteq> sim_ids k \<and>
     (\<exists>es. sim_log k = sim_log k0 @ es \<and> (\<forall>uid. (''temporary password set'', uid) \<in> set es \<longrightarrow> uid \<notin> sim_ids k0))"

lemma creds_kept_refl: "creds_kept k k"
  by (simp add: creds_kept_def)

lemma creds_kept_logged:
  assumes "creds_kept k0 k" "sim_ids k0 \<subseteq> sim_ids t" "sim_log t = sim_log k @ [(m, i)]"
    "m = ''temporary password set'' \<Longrightarrow> i \<notin> sim_ids k0"
  shows "creds_kept k0 t"
proof -
  from assms(1) obtain es where es: "sim_log k = sim_log k0 @ es" "\<forall>uid. (''temporary password set'', uid) \<in> set es \<longrightarrow> uid \<notin> sim_ids k0"
    by (auto simp: creds_kept_def)
  have "sim_log t = sim_log k0 @ (es @ [(m, i)])" using es(1) assms(3) by simp
  moreover have "\<forall>uid. (''temporary password set'', uid) \<in> set (es @ [(m, i)]) \<longrightarrow> uid \<notin> sim_ids k0" using es(2) assms(4) by auto
  ultimately show ?thesis unfolding creds_kept_def using assms(2) by blast
qed

lemma creds_kept_assign: "creds_kept k0 k \<Longrightarrow> creds_kept k0 (snd (sim_AssignRealmRole uid role k))"
proof -
  assume c: "creds_kept k0 k"
  have "sim_ids (sim_update uid (\<lambda>u. u\<lparr>u_roles := u_roles u @ [role]\<rparr>) k) = sim_ids k"
    by (simp add: sim_ids_def sim_update_def flip: set_map) (simp add: map_upd_rows)
  then have "creds_kept k0 (sim_logged ''assigned realm role'' uid (sim_update uid (\<lambda>u. u\<lparr>u_roles := u_roles u @ [role]\<rparr>) k))"
    using c by (intro creds_kept_logged [OF c]) (auto simp: sim_logged_def sim_update_def sim_ids_def creds_kept_def)
  with c show ?thesis by (simp add: sim_AssignRealmRole_def split: option.split)
qed

lemma creds_kept_create:
  assumes c: "creds_kept k0 k" and new: "new \<notin> sim_ids k"
  shows "creds_kept k0 (snd (sim_CreateUser new spec k))"
    and "fst (sim_CreateUser new spec k) = Some (uid, False) \<Longrightarrow> uid = new"
proof -
  have ids: "sim_ids k0 \<subseteq> sim_ids k" using c by (simp add: creds_kept_def)
  have keep: "sim_ids k \<subseteq> u_id ` set (filter (\<lambda>v. u_id v \<noteq> new) (sim_users k) @ [u])" for u using new by (auto simp: sim_ids_def)
  show "creds_kept k0 (snd (sim_CreateUser new spec k))"
  proof (cases "find (\<lambda>u. equal_fold (u_email u) (cs_email spec)) (sim_users k)")
    case None
    show ?thesis using ids keep
      by (intro creds_kept_logged [OF c, where m = "''created user''" and i = new])
         (auto simp: sim_CreateUser_def None Let_def sim_logged_def sim_ids_def split: prod.split)
  next
    case (Some u)
    show ?thesis using ids
      by (intro creds_kept_logged [OF c, where m = "''user already exists''" and i = "u_id u"])
         (auto simp: sim_CreateUser_def Some sim_logged_def sim_ids_def)
  qed
  show "fst (sim_CreateUser new spec k) = Some (uid, False) \<Longrightarrow> uid = new"
    by (auto simp: sim_CreateUser_def Let_def split: option.splits prod.splits)
qed

lemma creds_kept_mail: "creds_kept k0 k \<Longrightarrow> creds_kept k0 (snd (sim_SendActionsEmail uid acts k))"
  by (auto simp: sim_SendActionsEmail_def creds_kept_def sim_logged_def sim_ids_def)

lemma provision_creds:
  assumes c: "creds_kept k0 k" and new: "new \<notin> sim_ids k"
  shows "creds_kept k0 (snd (provision simulated_kc new pw persona email name k))"
proof (rule provision_keeps)
  fix r k1
  assume e: "kc_CreateUser simulated_kc new \<lparr>cs_username = email, cs_email = email, cs_display_name = name\<rparr> k = (r, k1)"
  show "creds_kept k0 k1" using creds_kept_create(1) [OF c new] e by (metis sim_ops(1) snd_conv)
next
  fix uid k1
  assume e: "kc_CreateUser simulated_kc new \<lparr>cs_username = email, cs_email = email, cs_display_name = name\<rparr> k = (Some (uid, False), k1)"
  have k1: "creds_kept k0 k1" using creds_kept_create(1) [OF c new] e by (metis sim_ops(1) snd_conv)
  have "uid = new" using creds_kept_create(2) [OF c new] e by (metis sim_ops(1) fst_conv)
  then have "uid \<notin> sim_ids k0" using c new by (auto simp: creds_kept_def)
  then show "creds_kept k0 (snd (kc_SetTemporaryPassword simulated_kc uid pw k1))" using k1
    by (auto simp: sim_SetTemporaryPassword_def sim_logged_def sim_ids_def creds_kept_def)
qed (simp_all add: creds_kept_assign creds_kept_mail)

lemma store_directory [simp]:
  "directory (snd (onb_Decide E op rid st sub whom reason s)) = directory s"
  "directory (snd (onb_Create E op req s)) = directory s"
  "directory (onb_MergeMeta E op rid patch s) = directory s"
  "directory (onb_ExpirePending E cutoff s) = directory s"
  by (simp_all add: onb_Decide_def onb_Create_def onb_MergeMeta_def onb_ExpirePending_def Let_def split: option.split)

lemma store_directoryD:
  "onb_Decide E op rid st sub whom reason s = (r, s1) \<Longrightarrow> directory s1 = directory s"
  "onb_Create E op q s = (r', s1) \<Longrightarrow> directory s1 = directory s"
  by (metis snd_conv store_directory(1)) (metis snd_conv store_directory(2))

lemma provisionCitizen_directory:
  "directory (snd (provisionCitizen E K new pw req retried s)) =
     snd (provision K new pw ''citizen'' (ob_email req) (ob_display_name req) (directory s))"
proof -
  obtain r k1 where p: "provision K new pw ''citizen'' (ob_email req) (ob_display_name req) (directory s) = (r, k1)" by (rule prod.exhaust)
  then show ?thesis
    by (cases r) (auto simp: provisionCitizen_def split: prod.splits sum.splits dest!: store_directoryD)
qed

lemma CitizenSelfServe_directory:
  "directory (snd (CitizenSelfServe E K new pw captcha body s)) \<in>
     {directory s} \<union> {snd (provision K new pw ''citizen'' email name (directory s)) | email name. True}"
proof -
  define P where "P x \<longleftrightarrow> directory (snd x) \<in>
     {directory s} \<union> {snd (provision K new pw ''citizen'' email name (directory s)) | email name. True}" for x :: "onb_reply \<times> 'a onb_state"
  have same: "P (r, t)" if "directory t = directory s" for r t using that by (simp add: P_def)
  have prov: "P (provisionCitizen E K new pw req retried t)" if "directory t = directory s" for req retried t
    using that by (auto simp: P_def provisionCitizen_directory)
  have created: "P (case onb_Create E op q s of
       (Inr req, s1) \<Rightarrow> provisionCitizen E K new pw req False s1
     | (Inl UniqueViolation, s1) \<Rightarrow> (case onb_FindPending E op2 ''citizen'' em s1 of
          Inr existing \<Rightarrow> provisionCitizen E K new pw existing True s1
        | Inl e \<Rightarrow> (Err 500 m, s1))
     | (Inl e, s1) \<Rightarrow> (Err 500 m, s1))" for op op2 q m em
    by (auto split: prod.split sum.split onb_error.split dest!: store_directoryD intro: same prov)
  have "P (CitizenSelfServe E K new pw captcha body s)"
    unfolding CitizenSelfServe_def by (auto simp: same prov created split: sum.split option.split onb_error.split)
  then show ?thesis by (simp add: P_def)
qed

lemma decide_check_directory: "decide_check E c ttl rid s = Inl x \<Longrightarrow> directory (snd x) = directory s"
  by (auto simp: decide_check_def split: if_splits sum.splits onb_error.splits)

lemma Approve_directory:
  "directory (snd (Approve E K new pw c ttl rid s)) \<in>
     {directory s} \<union> {snd (provision K new pw persona email name (directory s)) | persona email name. True}"
proof (cases "decide_check E c ttl rid s")
  case (Inr req)
  have "directory (snd (approve_write E K new pw c req s)) = snd (provision K new pw (ob_persona req) (ob_email req) (ob_display_name req) (directory s))"
    by (auto simp: approve_write_def split: prod.splits option.splits sum.splits dest!: store_directoryD)
  then show ?thesis by (auto simp: Approve_def Inr)
qed (auto simp: Approve_def dest: decide_check_directory)

lemma reconcile_rows_creds: "creds_kept k0 k \<Longrightarrow> creds_kept k0 (snd (snd (reconcile_rows simulated_kc rows k)))"
proof (induction rows arbitrary: k)
  case (Cons r rows)
  from Cons.IH [OF Cons.prems] Cons.IH [OF creds_kept_assign [OF Cons.prems, of "ob_keycloak_sub r" "RealmRole (ob_persona r)"]] show ?case
    by (auto split: prod.splits)
qed simp

lemma reconcile_loop_creds: "creds_kept k0 k \<Longrightarrow> creds_kept k0 (snd (reconcile_loop E simulated_kc s offset k))"
proof (induction E "simulated_kc" s offset k rule: reconcile_loop.induct)
  case (1 E s offset k)
  obtain e f k1 where rr: "reconcile_rows simulated_kc (onb_List ''completed'' [] 500 offset s) k = (e, f, k1)" by (rule prod_cases3)
  have k1: "creds_kept k0 k1" using reconcile_rows_creds [OF 1(2)] rr by (metis snd_conv)
  show ?case using 1(2) k1 1(1) [OF _ refl rr [symmetric] refl]
    by (subst reconcile_loop.simps) (auto simp: rr Let_def split: prod.splits option.splits)
qed

text \<open>Whole requests of anyone, approvals by administrators included; new users get ids not in use.\<close>

inductive onb_run :: "sim_kc onb_state \<Rightarrow> sim_kc onb_state \<Rightarrow> bool" where
  citizen: "new \<notin> sim_ids (directory s) \<Longrightarrow> onb_run s (snd (CitizenSelfServe E simulated_kc new pw captcha body s))"
| approve: "new \<notin> sim_ids (directory s) \<Longrightarrow> onb_run s (snd (Approve E simulated_kc new pw c ttl rid s))"
| intake: "onb_run s (snd (Intake E captcha persona body s))"
| reject: "onb_run s (snd (Reject E c ttl rid rbody s))"
| reconcile: "onb_run s (snd (Reconcile E simulated_kc c s))"
| expire: "onb_run s (onb_ExpirePending E cutoff s)"

lemma Intake_directory: "directory (snd (Intake E captcha persona body s)) = directory s"
proof -
  define P where "P x \<longleftrightarrow> directory (snd x) = directory s" for x :: "onb_reply \<times> 'a onb_state"
  have same: "P (r, t)" if "directory t = directory s" for r t using that by (simp add: P_def)
  have created: "P (case onb_Create E op q s of
       (Inr req, s1) \<Rightarrow> (Reply 201 (req, False), s1)
     | (Inl UniqueViolation, s1) \<Rightarrow> (case onb_FindPending E op2 p em s1 of
          Inr existing \<Rightarrow> (Reply 200 (existing, True), s1)
        | Inl e \<Rightarrow> (Err 500 m, s1))
     | (Inl e, s1) \<Rightarrow> (Err 500 m, s1))" for op op2 q m em p
    by (auto split: prod.split sum.split onb_error.split dest!: store_directoryD intro: same)
  have "P (Intake E captcha persona body s)"
    unfolding Intake_def by (auto simp: same created split: sum.split option.split onb_error.split)
  then show ?thesis by (simp add: P_def)
qed

lemma Reject_directory: "directory (snd (Reject E c ttl rid body s)) = directory s"
  by (auto simp: Reject_def reject_write_def split: sum.splits option.splits prod.splits dest!: decide_check_directory store_directoryD)

lemma onb_run_creds: "onb_run s s' \<Longrightarrow> creds_kept k0 (directory s) \<Longrightarrow> creds_kept k0 (directory s')"
proof (induction rule: onb_run.induct)
  case (citizen new s E pw captcha body)
  then show ?case using CitizenSelfServe_directory [of E simulated_kc new pw captcha body s] by (auto simp: provision_creds)
next
  case (approve new s E pw c ttl rid)
  then show ?case using Approve_directory [of E simulated_kc new pw c ttl rid s] by (auto simp: provision_creds)
next
  case (reconcile s E c)
  then show ?case using reconcile_loop_creds [OF reconcile, of E s 0]
    by (auto simp: Reconcile_def split: prod.splits option.splits)
qed (simp_all add: Intake_directory Reject_directory)

section \<open>A worked example\<close>

definition admin_ctx :: ctx where
  "admin_ctx = Some [(''sub'', JStr ''root''), (''realm_access'', JObj [(''roles'', JArr [JStr ''platform-admin''])])]"

definition applicant :: onb_request where
  "applicant = \<lparr>ob_id = ''r1'', ob_persona = ''operator'', ob_email = ''eve@city.org'', ob_display_name = ''Eve'', ob_org = ''City'',
     ob_status = ''pending'', ob_keycloak_sub = [], ob_meta = JObj [], ob_created_at = 0, ob_decided_at = None, ob_decided_by = []\<rparr>"

definition one_applicant :: "sim_kc onb_state" where
  "one_applicant = \<lparr>onb_requests = [applicant], directory = two_roots\<rparr>"

definition onb_env :: db_env where
  "onb_env = quiet_env (\<lambda>_ _ _ _ _ l. (Inr [], l))"

lemma onb_env_simps [simp]: "\<not> fault onb_env op" "now onb_env = 1000"
  by (simp_all add: onb_env_def quiet_env_def)

lemma admin_role [simp]: "hasRole admin_ctx ''platform-admin''"
  by (simp add: admin_ctx_def hasRole_def)

lemmas onb_eval = one_applicant_def applicant_def two_roots_def root_user_def onb_Decide_def decided_def onb_Get_def
  approve_write_def provision_def RealmRole_def personaRoles_def sim_CreateUser_def equal_fold_def to_lower_def Let_def
  sim_SetTemporaryPassword_def sim_known_def sim_logged_def sim_AssignRealmRole_def sim_SendActionsEmail_def
  sim_update_def splitDisplayName_def is_space_def

lemma eve_approved:
  "approve_write onb_env simulated_kc ''u1'' ''pw'' admin_ctx applicant one_applicant =
     (Reply 200 (decided onb_env ''completed'' ''u1'' ''root'' [] applicant, False),
      \<lparr>onb_requests = [decided onb_env ''completed'' ''u1'' ''root'' [] applicant],
       directory = \<lparr>sim_users = [root_user ''a'', root_user ''b'', \<lparr>u_id = ''u1'', u_username = ''eve@city.org'', u_email = ''eve@city.org'',
           u_first = ''Eve'', u_last = [], u_enabled = True, u_roles = [''operator'']\<rparr>],
         sim_log = [(''created user'', ''u1''), (''temporary password set'', ''u1''), (''assigned realm role'', ''u1''),
           (''execute-actions email sent'', ''u1'')]\<rparr>\<rparr>)"
  by (simp add: onb_eval admin_ctx_def Subject_def)

section \<open>Properties\<close>

text \<open>
  An applicant never has two pending requests for the same persona, in any letter case of the address,
  whatever statements of concurrent filings, decisions, sweeps and client calls are interleaved.
\<close>

theorem onboarding_one_pending:
  assumes "onb_step\<^sup>*\<^sup>* s s'" "requests_ok (onb_requests s)" "r \<in> set (onb_requests s')" "q \<in> set (onb_requests s')"
    "ob_status r = ''pending''" "ob_status q = ''pending''" "ob_persona r = ob_persona q"
    "to_lower (ob_email r) = to_lower (ob_email q)"
  shows "r = q"
proof -
  have ok: "requests_ok (onb_requests s')" by (rule onb_steps_ok [OF assms(1,2)])
  have "ob_id r = ob_id q"
    by (rule by_applicant.uniqD [of "onb_requests s'"]) (use ok assms in \<open>simp_all add: requests_ok_def\<close>)
  then show ?thesis using distinct_key [of ob_id, OF _ assms(3,4)] ok by (simp add: requests_ok_def)
qed

theorem onboarding_one_pending_witness:
  "applicant = (onb_requests (snd (onb_Create onb_env ''file'' applicant one_applicant))) ! 0"
proof (rule onboarding_one_pending)
  show "onb_step\<^sup>*\<^sup>* one_applicant (snd (onb_Create onb_env ''file'' applicant one_applicant))"
    by (rule r_into_rtranclp) (rule submit)
  show "requests_ok (onb_requests one_applicant)"
    by (simp add: requests_ok_def one_applicant_def by_applicant.uniq_def)
qed (simp_all add: onb_Create_def one_applicant_def applicant_def Let_def pending_taken_def onb_env_def quiet_env_def)

text \<open>
  C30. Without an approval by a platform administrator no account ever gains a role other than \<open>citizen\<close> and no
  intake request is completed, whatever public filings, decisions by others, rejections, reconciliations
  and sweeps run.
\<close>

theorem onboarding_needs_approval:
  assumes "unapproved_run\<^sup>*\<^sup>* s s'" "distinct (map ob_id (onb_requests s))"
    "\<And>r. r \<in> set (onb_requests s) \<Longrightarrow> ob_status r \<noteq> ''completed''"
  shows "(\<forall>r \<in> set (onb_requests s'). ob_status r = ''completed'' \<longrightarrow> ob_persona r = ''citizen'') \<and>
    (\<forall>i role. sim_has_role i role (directory s') \<longrightarrow> role = ''citizen'' \<or> sim_has_role i role (directory s))"
proof -
  have "unapproved (directory s) s" using assms(2,3) by (auto simp: unapproved_def)
  from unapproved_runs_keep [OF assms(1) this] show ?thesis by (simp add: unapproved_def only_citizen_def)
qed

theorem onboarding_needs_approval_witness:
  "\<not> sim_has_role ''u1'' ''operator'' (directory (snd (Approve onb_env simulated_kc ''u1'' ''pw'' None 0 ''r1'' one_applicant)))"
proof -
  have "unapproved_run one_applicant (snd (Approve onb_env simulated_kc ''u1'' ''pw'' None 0 ''r1'' one_applicant))"
    by (rule unapproved_run.approve) (simp add: hasRole_def)
  then have run: "unapproved_run\<^sup>*\<^sup>* one_applicant (snd (Approve onb_env simulated_kc ''u1'' ''pw'' None 0 ''r1'' one_applicant))"
    by (rule r_into_rtranclp)
  have "\<not> sim_has_role ''u1'' ''operator'' (directory one_applicant)"
    by (simp add: sim_has_role_def one_applicant_def two_roots_def root_user_def)
  with onboarding_needs_approval [OF run] show ?thesis by (auto simp: one_applicant_def applicant_def)
qed

text \<open>
  Onboarding never touches the credentials of an account that existed before: over any sequence of
  filings, approvals, rejections, reconciliations and sweeps, a temporary password is only ever set for
  accounts created in the meantime, and no account disappears.
\<close>

theorem onboarding_keeps_credentials:
  assumes "onb_run\<^sup>*\<^sup>* s s'"
  shows "sim_ids (directory s) \<subseteq> sim_ids (directory s') \<and>
    (\<exists>es. sim_log (directory s') = sim_log (directory s) @ es \<and>
       (\<forall>uid. (''temporary password set'', uid) \<in> set es \<longrightarrow> uid \<notin> sim_ids (directory s)))"
proof -
  have "creds_kept (directory s) (directory s')"
    using assms by (induction rule: rtranclp_induct) (auto intro: creds_kept_refl onb_run_creds)
  then show ?thesis by (simp add: creds_kept_def)
qed

theorem onboarding_keeps_credentials_witness:
  "sim_ids two_roots \<subseteq> sim_ids (directory (snd (Approve onb_env simulated_kc ''u1'' ''pw'' admin_ctx 0 ''r1'' one_applicant)))"
proof -
  have "onb_run one_applicant (snd (Approve onb_env simulated_kc ''u1'' ''pw'' admin_ctx 0 ''r1'' one_applicant))"
    by (rule onb_run.approve) (simp add: sim_ids_def one_applicant_def two_roots_def root_user_def)
  from onboarding_keeps_credentials [OF r_into_rtranclp [of onb_run, OF this]] show ?thesis by (simp add: one_applicant_def)
qed

text \<open>
  Reconciliation visits every completed request, page after page, exactly as one pass over all of them in
  order would, and ends; on the simulated directory, afterwards every completed request whose account
  exists has its persona's role.
\<close>

theorem reconcile_repairs:
  assumes "\<And>op. \<not> fault E op" "hasRole c ''platform-admin''"
  shows "\<exists>ensured failed k. reconcile_rows simulated_kc (completed_rows s) (directory s) = (ensured, failed, k) \<and>
    Reconcile E simulated_kc c s =
      (Reply 200 (length (filter (\<lambda>r. ob_status r = ''completed'') (onb_requests s)), ensured, failed), s\<lparr>directory := k\<rparr>) \<and>
    (\<forall>q \<in> set (onb_requests s). ob_status q = ''completed'' \<and> ob_keycloak_sub q \<noteq> [] \<and> sim_known (ob_keycloak_sub q) (directory s) \<longrightarrow>
       sim_has_role (ob_keycloak_sub q) (RealmRole (ob_persona q)) k)"
proof -
  obtain e f k where r: "reconcile_rows simulated_kc (completed_rows s) (directory s) = (e, f, k)" by (rule prod_cases3)
  have "reconcile_loop E simulated_kc s 0 (directory s) = (Some (length (completed_rows s), e, f), k)"
    using reconcile_loop_all [OF assms(1), of 0 simulated_kc s "directory s"] by (simp add: r)
  then have "Reconcile E simulated_kc c s = (Reply 200 (length (completed_rows s), e, f), s\<lparr>directory := k\<rparr>)"
    using assms(2) by (simp add: Reconcile_def)
  moreover have "length (completed_rows s) = length (filter (\<lambda>r. ob_status r = ''completed'') (onb_requests s))"
    by (simp add: completed_rows_def)
  moreover have "set (completed_rows s) = {r \<in> set (onb_requests s). ob_status r = ''completed''}"
    by (auto simp: completed_rows_def)
  ultimately show ?thesis using r reconcile_rows_repair [OF r] by auto
qed

definition stranded :: "sim_kc onb_state" where
  "stranded = \<lparr>onb_requests = [applicant\<lparr>ob_status := ''completed'', ob_keycloak_sub := ''a''\<rparr>], directory = two_roots\<rparr>"

theorem reconcile_repairs_witness:
  "\<not> sim_has_role ''a'' ''operator'' (directory stranded) \<and>
   sim_has_role ''a'' ''operator'' (directory (snd (Reconcile onb_env simulated_kc admin_ctx stranded)))"
proof -
  have "\<not> sim_has_role ''a'' ''operator'' (directory stranded)"
    by (simp add: sim_has_role_def stranded_def two_roots_def root_user_def)
  moreover have "RealmRole ''operator'' = ''operator''" by (simp add: RealmRole_def personaRoles_def)
  ultimately show ?thesis using reconcile_repairs [of onb_env admin_ctx stranded]
    by (auto simp: stranded_def applicant_def sim_known_def two_roots_def root_user_def)
qed

text \<open>
  Decisions are not conditional on the status they were made on: when two administrators load the same
  pending request and one approves it, the other's rejection is still accepted; the request ends rejected
  although the account keeps the role.
\<close>

theorem approval_overwritten_by_rejection:
  "decide_check onb_env admin_ctx defaultPendingTTL ''r1'' one_applicant = Inr applicant \<and>
   (case approve_write onb_env simulated_kc ''u1'' ''pw'' admin_ctx applicant one_applicant of (a, s1) \<Rightarrow>
     status_code a = 200 \<and>
     (case reject_write onb_env admin_ctx ''r1'' None s1 of (b, s2) \<Rightarrow>
        status_code b = 200 \<and> map ob_status (onb_requests s2) = [''rejected''] \<and>
        sim_has_role ''u1'' ''operator'' (directory s2)))"
  unfolding eve_approved
  by (simp add: decide_check_def onb_eval defaultPendingTTL_def reject_write_def sim_has_role_def trim_space_def)

end
