(* ===== verification/Webhooks.thy ===== *)
theory Webhooks
  imports Timestamps Store
begin

text \<open>
  Incident rows, their severities, and the partner webhooks that announce them
  (src/services/go/infra-api/internal/handlers/webhooks.go; the row and the ranks are of incidents.go). The
  receivers, HMAC-SHA256 and the texts of JSON are parameters; every request that leaves the service is kept
  in \<open>hook_sent\<close>, so that what is sent can be stated.
\<close>

section \<open>Incidents\<close>

record incident =
  in_id :: string
  in_type :: string
  in_severity :: string
  in_bus_id :: "string option"
  in_station_id :: "string option"
  in_status :: string
  in_opened_at :: int
  in_meta :: "(string \<times> json) list"
  in_resolved_at :: "int option"

definition severityRank :: "string \<Rightarrow> nat option" where
  "severityRank sev = map_of [(''low'', 0), (''medium'', 1), (''high'', 2), (''critical'', 3)] sev"

text \<open>Indexing the map: a missing key reads as 0.\<close>

definition rank :: "string \<Rightarrow> nat" where
  "rank sev = (case severityRank sev of Some n \<Rightarrow> n | None \<Rightarrow> 0)"

definition incident_json :: "incident \<Rightarrow> json" where
  "incident_json i = JObj ([(''id'', JStr (in_id i)), (''type'', JStr (in_type i)), (''severity'', JStr (in_severity i))] @
     (case in_bus_id i of None \<Rightarrow> [] | Some b \<Rightarrow> [(''bus_id'', JStr b)]) @
     (case in_station_id i of None \<Rightarrow> [] | Some st \<Rightarrow> [(''station_id'', JStr st)]) @
     [(''status'', JStr (in_status i)), (''opened_at'', JTime (in_opened_at i))] @
     (if in_meta i = [] then [] else [(''meta'', JObj (in_meta i))]))"

section \<open>Subscriptions\<close>

record webhook_sub =
  ws_id :: string
  ws_url :: string
  ws_secret :: string
  ws_min_severity :: string
  ws_active :: bool
  ws_description :: string
  ws_created_at :: int

record webhook_delivery =
  wd_id :: string
  wd_subscription_id :: string
  wd_incident_id :: string
  wd_event_type :: string
  wd_payload :: json
  wd_status :: string
  wd_attempts :: nat
  wd_last_error :: "string option"
  wd_created_at :: int
  wd_delivered_at :: "int option"

text \<open>A request: the url, the headers and the body.\<close>

type_synonym hook_request = "string \<times> (string \<times> string) list \<times> string"

record hook_store =
  webhook_subscriptions :: "webhook_sub list"
  webhook_deliveries :: "webhook_delivery list"
  hook_sent :: "hook_request list"

text \<open>
  The outside: \<open>json.Marshal\<close>, the text Postgres gives for a jsonb value, the hexadecimal HMAC of a body
  under a secret, the error of building a request for a url, and the answer of the receiver: a transport
  error, or its status code and line.
\<close>

record hook_env =
  hk_marshal :: "json \<Rightarrow> string"
  hk_jsonb :: "json \<Rightarrow> string"
  hk_hmac :: "string \<Rightarrow> string \<Rightarrow> string"
  hk_bad_url :: "string \<Rightarrow> string option"
  hk_post :: "hook_request \<Rightarrow> string + nat \<times> string"

record create_sub_req =
  cq_url :: string
  cq_secret :: string
  cq_min_severity :: string
  cq_description :: string

text \<open>Every response redacts the secret.\<close>

definition redacted :: "webhook_sub \<Rightarrow> webhook_sub" where
  "redacted w = w\<lparr>ws_secret := []\<rparr>"

definition CreateWebhookSubscription :: "db_env \<Rightarrow> create_sub_req option \<Rightarrow> hook_store \<Rightarrow> webhook_sub resp \<times> hook_store" where
  "CreateWebhookSubscription E body s =
     (case body of
        None \<Rightarrow> (Err 400 ''body must include \"url\" and \"secret\"'', s)
      | Some req \<Rightarrow>
          if cq_url req = [] \<or> cq_secret req = [] then (Err 400 ''body must include \"url\" and \"secret\"'', s)
          else
            let sev = (if cq_min_severity req = [] then ''high'' else cq_min_severity req);
                w = \<lparr>ws_id = new_id E 0, ws_url = cq_url req, ws_secret = cq_secret req, ws_min_severity = sev, ws_active = True,
                     ws_description = cq_description req, ws_created_at = to_micros (now E)\<rparr> in
            if severityRank sev = None then (Err 400 ''min_severity must be low, medium, high or critical'', s)
            else if fault E ''create webhook subscription'' \<or> ws_id w \<in> ws_id ` set (webhook_subscriptions s)
            then (Internal ''create webhook subscription'', s)
            else (Reply 201 (redacted w), s\<lparr>webhook_subscriptions := webhook_subscriptions s @ [w]\<rparr>))"

definition ListWebhookSubscriptions :: "db_env \<Rightarrow> hook_store \<Rightarrow> webhook_sub list resp" where
  "ListWebhookSubscriptions E s =
     (if fault E ''list webhook subscriptions'' then Internal ''list webhook subscriptions''
      else if fault E ''scan webhook subscription'' then Internal ''scan webhook subscription''
      else if fault E ''iterate webhook subscriptions'' then Internal ''iterate webhook subscriptions''
      else Reply 200 (map redacted (sort_key (\<lambda>w. - ws_created_at w) (webhook_subscriptions s))))"

definition DeactivateWebhookSubscription :: "db_env \<Rightarrow> string \<Rightarrow> hook_store \<Rightarrow> bool resp \<times> hook_store" where
  "DeactivateWebhookSubscription E wid s =
     (if fault E ''deactivate webhook subscription'' then (Internal ''deactivate webhook subscription'', s)
      else if wid \<notin> ws_id ` set (webhook_subscriptions s) then (Err 404 ''subscription not found'', s)
      else (Reply 200 False, s\<lparr>webhook_subscriptions :=
              upd_rows (\<lambda>w. ws_id w = wid) (\<lambda>w. w\<lparr>ws_active := False\<rparr>) (webhook_subscriptions s)\<rparr>))"

section \<open>Delivery\<close>

definition recordDeliveryOutcome :: "db_env \<Rightarrow> string \<Rightarrow> string option \<Rightarrow> hook_store \<Rightarrow> hook_store" where
  "recordDeliveryOutcome E did err s =
     (case err of
        None \<Rightarrow>
          if fault E ''record webhook success'' then s
          else s\<lparr>webhook_deliveries := upd_rows (\<lambda>d. wd_id d = did)
            (\<lambda>d. d\<lparr>wd_status := ''delivered'', wd_attempts := wd_attempts d + 1, wd_delivered_at := Some (to_micros (now E)),
                  wd_last_error := None\<rparr>) (webhook_deliveries s)\<rparr>
      | Some e \<Rightarrow>
          if fault E ''record webhook failure'' then s
          else s\<lparr>webhook_deliveries := upd_rows (\<lambda>d. wd_id d = did)
            (\<lambda>d. d\<lparr>wd_status := ''failed'', wd_attempts := wd_attempts d + 1, wd_last_error := Some e\<rparr>) (webhook_deliveries s)\<rparr>)"

definition signed_request :: "hook_env \<Rightarrow> string \<Rightarrow> string \<Rightarrow> string \<Rightarrow> string \<Rightarrow> hook_request" where
  "signed_request H url secret eventType payload =
     (url, [(''Content-Type'', ''application/json''), (''X-H2Fleet-Event'', eventType),
            (''X-H2Fleet-Signature'', ''sha256='' @ hk_hmac H secret payload)], payload)"

definition attemptWebhookDelivery ::
  "db_env \<Rightarrow> hook_env \<Rightarrow> string \<Rightarrow> string \<Rightarrow> string \<Rightarrow> string \<Rightarrow> string \<Rightarrow> hook_store \<Rightarrow> hook_store" where
  "attemptWebhookDelivery E H did url secret eventType payload s =
     (case hk_bad_url H url of
        Some e \<Rightarrow> recordDeliveryOutcome E did (Some e) s
      | None \<Rightarrow>
          let rq = signed_request H url secret eventType payload;
              s1 = s\<lparr>hook_sent := hook_sent s @ [rq]\<rparr> in
          (case hk_post H rq of
             Inl e \<Rightarrow> recordDeliveryOutcome E did (Some e) s1
           | Inr (code, line) \<Rightarrow>
               if 200 \<le> code \<and> code < 300 then recordDeliveryOutcome E did None s1
               else recordDeliveryOutcome E did (Some (''receiver returned '' @ line)) s1))"

definition new_delivery :: "db_env \<Rightarrow> string \<Rightarrow> string \<Rightarrow> string \<Rightarrow> string \<Rightarrow> json \<Rightarrow> webhook_delivery" where
  "new_delivery E did wid iid eventType payload =
     \<lparr>wd_id = did, wd_subscription_id = wid, wd_incident_id = iid, wd_event_type = eventType, wd_payload = payload,
      wd_status = ''pending'', wd_attempts = 0, wd_last_error = None, wd_created_at = to_micros (now E), wd_delivered_at = None\<rparr>"

text \<open>\<open>n\<close> counts the generated delivery ids.\<close>

fun webhook_loop ::
  "db_env \<Rightarrow> hook_env \<Rightarrow> incident \<Rightarrow> string \<Rightarrow> json \<Rightarrow> nat \<Rightarrow> webhook_sub list \<Rightarrow> hook_store \<Rightarrow> hook_store" where
  "webhook_loop E H i eventType payload n [] s = s"
| "webhook_loop E H i eventType payload n (w # ws) s =
     (if rank (ws_min_severity w) > rank (in_severity i) then webhook_loop E H i eventType payload n ws s
      else if fault E (''record webhook delivery '' @ ws_id w) \<or> new_id E n \<in> wd_id ` set (webhook_deliveries s)
      then webhook_loop E H i eventType payload (Suc n) ws s
      else webhook_loop E H i eventType payload (Suc n) ws
        (attemptWebhookDelivery E H (new_id E n) (ws_url w) (ws_secret w) eventType (hk_marshal H payload)
          (s\<lparr>webhook_deliveries := webhook_deliveries s @ [new_delivery E (new_id E n) (ws_id w) (in_id i) eventType payload]\<rparr>)))"

definition dispatchIncidentWebhooks :: "db_env \<Rightarrow> hook_env \<Rightarrow> incident \<Rightarrow> string \<Rightarrow> hook_store \<Rightarrow> hook_store" where
  "dispatchIncidentWebhooks E H i eventType s =
     (if fault E ''load webhook subscriptions'' \<or> fault E ''scan webhook subscription'' then s
      else webhook_loop E H i eventType
        (JObj [(''event'', JStr eventType), (''incident'', incident_json i), (''sent_at'', JStr (rfc3339 (now E)))])
        1 (filter ws_active (webhook_subscriptions s)) s)"

definition RetryWebhookDelivery ::
  "db_env \<Rightarrow> hook_env \<Rightarrow> string \<Rightarrow> hook_store \<Rightarrow> (string \<times> string) resp \<times> hook_store" where
  "RetryWebhookDelivery E H did s =
     (if fault E ''load webhook delivery'' then (Internal ''load webhook delivery'', s)
      else case find (\<lambda>d. wd_id d = did) (webhook_deliveries s) of
        None \<Rightarrow> (Err 404 ''delivery not found'', s)
      | Some d \<Rightarrow>
          (case find (\<lambda>w. ws_id w = wd_subscription_id d) (webhook_subscriptions s) of
             None \<Rightarrow> (Err 404 ''delivery not found'', s)
           | Some w \<Rightarrow>
               if wd_status d = ''delivered'' then (Err 409 ''delivery already succeeded'', s)
               else
                 let s1 = attemptWebhookDelivery E H did (ws_url w) (ws_secret w) (wd_event_type d) (hk_jsonb H (wd_payload d)) s in
                 if fault E ''reload webhook delivery'' then (Internal ''reload webhook delivery'', s1)
                 else (case find (\<lambda>d. wd_id d = did) (webhook_deliveries s1) of
                    None \<Rightarrow> (Internal ''reload webhook delivery'', s1)
                  | Some d1 \<Rightarrow> (Reply 200 (did, wd_status d1), s1))))"

section \<open>What is announced\<close>

text \<open>The delivery row of a subscription after its first attempt.\<close>

definition announced :: "db_env \<Rightarrow> hook_env \<Rightarrow> incident \<Rightarrow> string \<Rightarrow> json \<Rightarrow> nat \<times> webhook_sub \<Rightarrow> webhook_delivery" where
  "announced E H i eventType payload nw =
     (case nw of (n, w) \<Rightarrow>
        let d = new_delivery E (new_id E n) (ws_id w) (in_id i) eventType payload in
        case hk_post H (signed_request H (ws_url w) (ws_secret w) eventType (hk_marshal H payload)) of
          Inl e \<Rightarrow> d\<lparr>wd_status := ''failed'', wd_attempts := 1, wd_last_error := Some e\<rparr>
        | Inr (code, line) \<Rightarrow>
            if 200 \<le> code \<and> code < 300
            then d\<lparr>wd_status := ''delivered'', wd_attempts := 1, wd_delivered_at := Some (to_micros (now E))\<rparr>
            else d\<lparr>wd_status := ''failed'', wd_attempts := 1, wd_last_error := Some (''receiver returned '' @ line)\<rparr>)"

definition addressed :: "incident \<Rightarrow> webhook_sub \<Rightarrow> bool" where
  "addressed i w \<longleftrightarrow> rank (ws_min_severity w) \<le> rank (in_severity i)"

lemma new_delivery_id [simp]: "wd_id (new_delivery E did wid iid ev p) = did"
  by (simp add: new_delivery_def)

lemma announced_id [simp]: "wd_id (announced E H i ev p (n, w)) = new_id E n"
  by (auto simp: announced_def Let_def split: sum.split)

lemma upd_fresh_last:
  assumes "\<And>x. x \<in> set xs \<Longrightarrow> \<not> P x"
  shows "upd_rows P f (xs @ [x]) = xs @ [if P x then f x else x]"
  using upd_rows_none [of xs P f] assms by simp

lemma attempt_announces:
  assumes "\<And>op. \<not> fault E op" "hk_bad_url H (ws_url w) = None" "new_id E n \<notin> wd_id ` set (webhook_deliveries s)"
  shows "attemptWebhookDelivery E H (new_id E n) (ws_url w) (ws_secret w) ev (hk_marshal H p)
      (s\<lparr>webhook_deliveries := webhook_deliveries s @ [new_delivery E (new_id E n) (ws_id w) (in_id i) ev p]\<rparr>) =
    s\<lparr>webhook_deliveries := webhook_deliveries s @ [announced E H i ev p (n, w)],
      hook_sent := hook_sent s @ [signed_request H (ws_url w) (ws_secret w) ev (hk_marshal H p)]\<rparr>"
proof -
  have fresh: "\<not> wd_id d = new_id E n" if "d \<in> set (webhook_deliveries s)" for d using assms(3) that by (metis imageI)
  show ?thesis
    using assms(1,2) fresh
    by (auto simp: attemptWebhookDelivery_def recordDeliveryOutcome_def announced_def Let_def upd_fresh_last new_delivery_def
        simp del: upd_rows_append split: sum.split)
qed

lemma webhook_loop_exact:
  assumes "\<And>op. \<not> fault E op" "inj (new_id E)" "\<And>u. hk_bad_url H u = None"
    "\<And>m. n \<le> m \<Longrightarrow> new_id E m \<notin> wd_id ` set (webhook_deliveries s)"
  shows "webhook_loop E H i ev p n ws s =
    s\<lparr>webhook_deliveries := webhook_deliveries s @ map (announced E H i ev p) (enumerate n (filter (addressed i) ws)),
      hook_sent := hook_sent s @ map (\<lambda>w. signed_request H (ws_url w) (ws_secret w) ev (hk_marshal H p)) (filter (addressed i) ws)\<rparr>"
  using assms(4)
proof (induction ws arbitrary: n s)
  case (Cons w ws)
  show ?case
  proof (cases "addressed i w")
    case True
    let ?s1 = "s\<lparr>webhook_deliveries := webhook_deliveries s @ [announced E H i ev p (n, w)],
      hook_sent := hook_sent s @ [signed_request H (ws_url w) (ws_secret w) ev (hk_marshal H p)]\<rparr>"
    have "new_id E m \<noteq> new_id E n" if "Suc n \<le> m" for m using assms(2) that by (auto dest: injD)
    then have "new_id E m \<notin> wd_id ` set (webhook_deliveries ?s1)" if "Suc n \<le> m" for m
      using Cons.prems [of m] that by auto
    from Cons.IH [OF this] True Cons.prems [of n] show ?thesis
      by (simp add: assms(1,3) attempt_announces addressed_def not_less)
  next
    case False
    then show ?thesis using Cons.IH [OF Cons.prems] by (simp add: addressed_def)
  qed
qed simp

text \<open>
  Announcing an incident is exact: with a working database every active subscription whose threshold the
  incident reaches, and no other, gets one delivery row and one request, in the order of the
  subscriptions; the request carries the HMAC of its exact body under the subscription's own secret, and
  the row is delivered exactly when the receiver answered 2xx, and failed with the reason otherwise.
\<close>

theorem webhooks_exact:
  assumes "\<And>op. \<not> fault E op" and "inj (new_id E)" and "\<And>u. hk_bad_url H u = None"
    and "\<And>n. new_id E n \<notin> wd_id ` set (webhook_deliveries s)"
    and "subs = filter (\<lambda>w. ws_active w \<and> rank (ws_min_severity w) \<le> rank (in_severity i)) (webhook_subscriptions s)"
    and "payload = JObj [(''event'', JStr ev), (''incident'', incident_json i), (''sent_at'', JStr (rfc3339 (now E)))]"
  shows "dispatchIncidentWebhooks E H i ev s =
    s\<lparr>webhook_deliveries := webhook_deliveries s @ map (announced E H i ev payload) (enumerate 1 subs),
      hook_sent := hook_sent s @ map (\<lambda>w. (ws_url w, [(''Content-Type'', ''application/json''), (''X-H2Fleet-Event'', ev),
        (''X-H2Fleet-Signature'', ''sha256='' @ hk_hmac H (ws_secret w) (hk_marshal H payload))], hk_marshal H payload)) subs\<rparr>"
proof -
  have "subs = filter (addressed i) (filter ws_active (webhook_subscriptions s))"
    unfolding assms(5) filter_filter by (rule arg_cong [of _ _ "\<lambda>P. filter P _"]) (auto simp: addressed_def)
  then show ?thesis
    using webhook_loop_exact [OF assms(1-3), of 1 s i ev payload "filter ws_active (webhook_subscriptions s)"] assms(4)
    by (simp add: dispatchIncidentWebhooks_def assms(1,6) signed_request_def)
qed

definition partner :: webhook_sub where
  "partner = \<lparr>ws_id = ''w1'', ws_url = ''https://cad'', ws_secret = ''k'', ws_min_severity = ''high'', ws_active = True,
     ws_description = [], ws_created_at = 0\<rparr>"

definition leak_row :: incident where
  "leak_row = \<lparr>in_id = ''i1'', in_type = ''h2_leak'', in_severity = ''critical'', in_bus_id = None, in_station_id = Some ''s1'',
     in_status = ''open'', in_opened_at = 0, in_meta = [], in_resolved_at = None\<rparr>"

definition one_partner :: hook_store where
  "one_partner = \<lparr>webhook_subscriptions = [partner, partner\<lparr>ws_id := ''w2'', ws_active := False\<rparr>], webhook_deliveries = [],
     hook_sent = []\<rparr>"

definition hook_demo :: "nat \<Rightarrow> hook_env" where
  "hook_demo code = \<lparr>hk_marshal = (\<lambda>_. ''body''), hk_jsonb = (\<lambda>_. ''body''), hk_hmac = (\<lambda>k b. k @ b), hk_bad_url = (\<lambda>_. None),
     hk_post = (\<lambda>_. Inr (code, ''503 Service Unavailable''))\<rparr>"

definition id_env :: db_env where
  "id_env = (quiet_env (\<lambda>_ _ _ _ _ l. (Inr [], l)))\<lparr>new_id := (\<lambda>i. replicate (Suc i) CHR ''x'')\<rparr>"

lemma id_env_facts: "\<not> fault id_env op" "inj (new_id id_env)" "new_id id_env n = CHR ''x'' # replicate n CHR ''x''"
  "now id_env = 1000" "\<not> pub_fault id_env op"
  by (auto simp: id_env_def quiet_env_def inj_on_def dest: arg_cong [where f = length])

theorem webhooks_exact_witness:
  "map (\<lambda>d. (wd_subscription_id d, wd_status d))
     (webhook_deliveries (dispatchIncidentWebhooks id_env (hook_demo 503) leak_row ''incident.opened'' one_partner)) = [(''w1'', ''failed'')] \<and>
   map snd (hook_sent (dispatchIncidentWebhooks id_env (hook_demo 503) leak_row ''incident.opened'' one_partner)) =
     [([(''Content-Type'', ''application/json''), (''X-H2Fleet-Event'', ''incident.opened''),
        (''X-H2Fleet-Signature'', ''sha256=kbody'')], ''body'')]"
proof -
  have d: "webhook_deliveries one_partner = []" "hook_sent one_partner = []" by (simp_all add: one_partner_def)
  have subs: "filter (\<lambda>w. ws_active w \<and> rank (ws_min_severity w) \<le> rank (in_severity leak_row)) (webhook_subscriptions one_partner) = [partner]"
    by (simp add: one_partner_def partner_def leak_row_def rank_def severityRank_def)
  have bad: "hk_bad_url (hook_demo 503) u = None" for u by (simp add: hook_demo_def)
  have fresh: "new_id id_env n \<notin> wd_id ` set (webhook_deliveries one_partner)" for n by (simp add: d)
  show ?thesis
    unfolding webhooks_exact [OF id_env_facts(1,2) bad fresh subs [symmetric] refl] d
    by (simp add: announced_def new_delivery_def partner_def hook_demo_def enumerate_eq_zip Let_def)
qed

end
