(* ===== verification/Fleet.thy ===== *)
theory Fleet
  imports Store "HOL-Library.List_Lexorder" "HOL-Library.Char_ord"
begin

text \<open>
  The fleet API (src/services/go/fleet-api/internal/handlers/vehicles.go and operations.go): vehicles, the latest
  telemetry, maintenance predictions and fuel levels. All four are queries; \<open>fl\<close> rounds an exact result to
  \<open>float64\<close>, and ids compare bytewise, which is the order of uuids. The rows are shared with the demand
  responsive service and the evidence pack.
\<close>

section \<open>Rows\<close>

record vehicle =
  vh_id :: string
  vh_fleet_no :: string
  vh_vin :: "string option"
  vh_model :: "string option"
  vh_h2_capacity_kg :: "rat option"
  vh_status :: string
  vh_energy_type :: string
  vh_wheelchair_accessible :: bool
  vh_geom :: "(rat \<times> rat) option"

record telemetry_row =
  tl_bus_id :: string
  tl_ts :: int
  tl_speed_kph :: "rat option"
  tl_h2_level_pct :: "rat option"
  tl_fuel_cell_kw :: "rat option"
  tl_battery_soc_pct :: "rat option"
  tl_odometer_km :: "rat option"
  tl_energy_level_pct :: "rat option"
  tl_powertrain_kw :: "rat option"
  tl_energy_type :: "string option"
  tl_geom :: "(rat \<times> rat) option"

record prediction_row =
  pr_id :: string
  pr_bus_id :: string
  pr_component :: string
  pr_risk_score :: rat
  pr_predicted_failure_at :: "int option"
  pr_model_version :: "string option"
  pr_created_at :: int

record fleet_store =
  vehicles :: "vehicle list"
  fleet_telemetry :: "telemetry_row list"
  predictions :: "prediction_row list"
  fuel_consumption :: "(string \<times> rat option) list"

definition coalesce :: "'a option \<Rightarrow> 'a \<Rightarrow> 'a" where
  "coalesce x d = (case x of None \<Rightarrow> d | Some v \<Rightarrow> v)"

lemma coalesce_simps [simp]: "coalesce None d = d" "coalesce (Some v) d = v"
  by (simp_all add: coalesce_def)

section \<open>Queries\<close>

text \<open>\<open>ORDER BY fleet_no\<close> follows the collation of the database: the sort is the parameter \<open>by_no\<close>.\<close>

definition ListVehicles :: "db_env \<Rightarrow> (vehicle list \<Rightarrow> vehicle list) \<Rightarrow> fleet_store \<Rightarrow> vehicle list resp" where
  "ListVehicles E by_no s =
     (if fault E ''list vehicles'' then Internal ''list vehicles''
      else if fault E ''scan vehicle'' then Internal ''scan vehicle''
      else if fault E ''iterate vehicles'' then Internal ''iterate vehicles''
      else Reply 200 (take 500 (by_no (vehicles s))))"

text \<open>\<open>DISTINCT ON (bus_id) ... ORDER BY bus_id, ts DESC\<close>: the newest row of every bus, by bus id.\<close>

definition latest_of :: "telemetry_row list \<Rightarrow> string \<Rightarrow> telemetry_row option" where
  "latest_of rows bus = (case newest tl_ts 1 (filter (\<lambda>t. tl_bus_id t = bus) rows) of [] \<Rightarrow> None | t # _ \<Rightarrow> Some t)"

definition latest_rows :: "telemetry_row list \<Rightarrow> telemetry_row list" where
  "latest_rows rows = List.map_filter (latest_of rows) (sort (remdups (map tl_bus_id rows)))"

record telemetry_sample =
  sm_bus_id :: string
  sm_ts :: int
  sm_speed_kph :: rat
  sm_h2_level_pct :: rat
  sm_fuel_cell_kw :: rat
  sm_battery_soc_pct :: rat
  sm_odometer_km :: rat
  sm_energy_level_pct :: rat
  sm_powertrain_kw :: rat
  sm_energy_type :: string
  sm_geom :: "(rat \<times> rat) option"

definition telemetry_sample_of :: "telemetry_row \<Rightarrow> telemetry_sample" where
  "telemetry_sample_of t =
     \<lparr>sm_bus_id = tl_bus_id t, sm_ts = tl_ts t, sm_speed_kph = coalesce (tl_speed_kph t) 0,
      sm_h2_level_pct = coalesce (tl_h2_level_pct t) 0, sm_fuel_cell_kw = coalesce (tl_fuel_cell_kw t) 0,
      sm_battery_soc_pct = coalesce (tl_battery_soc_pct t) 0, sm_odometer_km = coalesce (tl_odometer_km t) 0,
      sm_energy_level_pct = coalesce (tl_energy_level_pct t) (coalesce (tl_h2_level_pct t) 0),
      sm_powertrain_kw = coalesce (tl_powertrain_kw t) (coalesce (tl_fuel_cell_kw t) 0),
      sm_energy_type = coalesce (tl_energy_type t) ''h2'', sm_geom = tl_geom t\<rparr>"

definition LatestTelemetry :: "db_env \<Rightarrow> fleet_store \<Rightarrow> telemetry_sample list resp" where
  "LatestTelemetry E s =
     (if fault E ''query latest telemetry'' then Internal ''query latest telemetry''
      else if fault E ''scan latest telemetry'' then Internal ''scan latest telemetry''
      else if fault E ''iterate latest telemetry'' then Internal ''iterate latest telemetry''
      else Reply 200 (map telemetry_sample_of (latest_rows (fleet_telemetry s))))"

text \<open>\<open>parse_float\<close> is \<open>strconv.ParseFloat\<close>.\<close>

definition ListPredictions ::
  "db_env \<Rightarrow> (string \<Rightarrow> rat option) \<Rightarrow> string \<Rightarrow> string \<Rightarrow> fleet_store \<Rightarrow> prediction_row list resp" where
  "ListPredictions E parse_float busID raw s =
     (let minRisk = (if raw = [] then Some None else case parse_float raw of
            None \<Rightarrow> None | Some m \<Rightarrow> if m < 0 \<or> m > 1 then None else Some (Some m)) in
      case minRisk of
        None \<Rightarrow> Err 400 ''min_risk must be a number between 0 and 1''
      | Some least \<Rightarrow>
          if fault E ''list predictions'' then Internal ''list predictions''
          else if fault E ''scan prediction'' then Internal ''scan prediction''
          else if fault E ''iterate predictions'' then Internal ''iterate predictions''
          else Reply 200 (take 200 (sort_key (\<lambda>p. - pr_risk_score p) (sort_key (\<lambda>p. - pr_created_at p)
                 (filter (\<lambda>p. (busID \<noteq> [] \<longrightarrow> pr_bus_id p = busID) \<and>
                    (case least of None \<Rightarrow> True | Some m \<Rightarrow> pr_risk_score p \<ge> m)) (predictions s))))))"

definition defaultH2KgPer100Km :: rat where
  "defaultH2KgPer100Km = 8"

record fuel_level =
  fu_bus_id :: string
  fu_fleet_no :: string
  fu_energy_type :: string
  fu_h2_level_pct :: rat
  fu_h2_remaining_kg :: rat
  fu_energy_level_pct :: rat
  fu_energy_remaining :: rat
  fu_estimated_range_km :: rat
  fu_consumption :: rat
  fu_source :: string
  fu_measured_at :: int

definition fuel_level_of :: "(rat \<Rightarrow> rat) \<Rightarrow> (string \<times> rat option) list \<Rightarrow> vehicle \<Rightarrow> telemetry_row \<Rightarrow> fuel_level" where
  "fuel_level_of fl rates v t =
     (let pct = coalesce (tl_h2_level_pct t) 0; energyPct = coalesce (tl_energy_level_pct t) (coalesce (tl_h2_level_pct t) 0);
          capacity = coalesce (vh_h2_capacity_kg v) 0; learned = Option.bind (map_of rates (vh_id v)) (\<lambda>x. x);
          remaining = fl (fl (pct / 100) * capacity); energyRemaining = fl (fl (energyPct / 100) * capacity);
          (rate, source) = (case learned of Some l \<Rightarrow> if l > 0 then (l, ''learned'') else (defaultH2KgPer100Km, ''default'')
                            | None \<Rightarrow> (defaultH2KgPer100Km, ''default'')) in
      \<lparr>fu_bus_id = tl_bus_id t, fu_fleet_no = vh_fleet_no v, fu_energy_type = vh_energy_type v, fu_h2_level_pct = pct,
       fu_h2_remaining_kg = remaining, fu_energy_level_pct = energyPct, fu_energy_remaining = energyRemaining,
       fu_estimated_range_km = fl (fl (energyRemaining * 100) / rate), fu_consumption = rate, fu_source = source,
       fu_measured_at = tl_ts t\<rparr>)"

definition ListFuelLevels :: "db_env \<Rightarrow> (rat \<Rightarrow> rat) \<Rightarrow> fleet_store \<Rightarrow> fuel_level list resp" where
  "ListFuelLevels E fl s =
     (if fault E ''list fuel levels'' then Internal ''list fuel levels''
      else if fault E ''scan fuel level'' then Internal ''scan fuel level''
      else if fault E ''iterate fuel levels'' then Internal ''iterate fuel levels''
      else Reply 200 (concat (map (\<lambda>t. map (\<lambda>v. fuel_level_of fl (fuel_consumption s) v t)
             (filter (\<lambda>v. vh_id v = tl_bus_id t) (vehicles s))) (latest_rows (fleet_telemetry s)))))"

section \<open>The latest row of every bus\<close>

lemma latest_of_Some:
  assumes "latest_of rows bus = Some t"
  shows "t \<in> set rows \<and> tl_bus_id t = bus \<and> (\<forall>u \<in> set rows. tl_bus_id u = bus \<longrightarrow> tl_ts u \<le> tl_ts t)"
proof -
  let ?ss = "sort_key (\<lambda>x. - tl_ts x) (filter (\<lambda>t. tl_bus_id t = bus) rows)"
  obtain rest where ss: "?ss = t # rest" using assms by (cases ?ss) (auto simp: latest_of_def newest_def)
  have "sorted (map (\<lambda>x. - tl_ts x) ?ss)" by (rule sorted_sort_key)
  then have "\<forall>u \<in> set ?ss. tl_ts u \<le> tl_ts t" unfolding ss by auto
  moreover have "t \<in> set ?ss" by (simp add: ss)
  moreover have "set ?ss = {t \<in> set rows. tl_bus_id t = bus}" by simp
  ultimately show ?thesis by blast
qed

lemma latest_of_None: "latest_of rows bus = None \<longleftrightarrow> bus \<notin> tl_bus_id ` set rows"
proof -
  let ?ss = "sort_key (\<lambda>x. - tl_ts x) (filter (\<lambda>t. tl_bus_id t = bus) rows)"
  have "latest_of rows bus = None \<longleftrightarrow> ?ss = []" by (cases ?ss) (simp_all add: latest_of_def newest_def)
  also have "\<dots> \<longleftrightarrow> set ?ss = {}" by (simp only: set_empty)
  also have "\<dots> \<longleftrightarrow> bus \<notin> tl_bus_id ` set rows" by auto
  finally show ?thesis .
qed

text \<open>
  The latest telemetry has exactly one sample for every bus with telemetry, ordered by bus, and each is a
  newest row of its bus.
\<close>

theorem latest_telemetry_exact:
  assumes "LatestTelemetry E s = Reply 200 samples"
  shows "map sm_bus_id samples = sort (remdups (map tl_bus_id (fleet_telemetry s))) \<and>
    (\<forall>x \<in> set samples. \<exists>t \<in> set (fleet_telemetry s). x = telemetry_sample_of t \<and>
       (\<forall>u \<in> set (fleet_telemetry s). tl_bus_id u = tl_bus_id t \<longrightarrow> tl_ts u \<le> tl_ts t))"
proof -
  let ?rows = "fleet_telemetry s"
  have samples: "samples = map telemetry_sample_of (latest_rows ?rows)"
    using assms by (auto simp: LatestTelemetry_def split: if_splits)
  have bus: "map tl_bus_id (List.map_filter (latest_of ?rows) bs) = bs" if "set bs \<subseteq> tl_bus_id ` set ?rows" for bs
    using that
  proof (induction bs)
    case (Cons b bs)
    then obtain t where "latest_of ?rows b = Some t" using latest_of_None [of ?rows b] by auto
    with Cons latest_of_Some [OF this] show ?case by (simp add: List.map_filter_simps)
  qed (simp add: List.map_filter_simps)
  have "map sm_bus_id samples = map tl_bus_id (latest_rows ?rows)" by (simp add: samples telemetry_sample_of_def)
  moreover have "map tl_bus_id (latest_rows ?rows) = sort (remdups (map tl_bus_id ?rows))"
    unfolding latest_rows_def by (rule bus) simp
  moreover have "\<exists>b. latest_of ?rows b = Some t" if "t \<in> set (latest_rows ?rows)" for t
    using that by (auto simp: latest_rows_def List.map_filter_def)
  ultimately show ?thesis using latest_of_Some by (fastforce simp: samples)
qed

definition one_bus :: fleet_store where
  "one_bus = \<lparr>vehicles = [], fleet_telemetry = map (\<lambda>ts. \<lparr>tl_bus_id = ''b'', tl_ts = ts, tl_speed_kph = None, tl_h2_level_pct = Some 50,
     tl_fuel_cell_kw = None, tl_battery_soc_pct = None, tl_odometer_km = None, tl_energy_level_pct = None, tl_powertrain_kw = None,
     tl_energy_type = None, tl_geom = None\<rparr>) [1, 3, 2], predictions = [], fuel_consumption = []\<rparr>"

theorem latest_telemetry_exact_witness:
  "\<exists>x. LatestTelemetry (quiet_env (\<lambda>_ _ _ _ _ l. (Inr [], l))) one_bus = Reply 200 [x] \<and> sm_bus_id x = ''b'' \<and> sm_ts x = 3"
proof -
  let ?E = "quiet_env (\<lambda>_ _ _ _ _ l. (Inr [], l)) :: db_env"
  obtain xs where run: "LatestTelemetry ?E one_bus = Reply 200 xs" by (simp add: LatestTelemetry_def quiet_env_no_fault)
  note ex = latest_telemetry_exact [OF run]
  have "sort (remdups (map tl_bus_id (fleet_telemetry one_bus))) = [''b'']" by (simp add: one_bus_def)
  then obtain x where x: "xs = [x]" "sm_bus_id x = ''b''" using ex by (auto simp: map_eq_Cons_conv)
  then obtain t where t: "t \<in> set (fleet_telemetry one_bus)" "x = telemetry_sample_of t"
    "\<forall>u \<in> set (fleet_telemetry one_bus). tl_bus_id u = tl_bus_id t \<longrightarrow> tl_ts u \<le> tl_ts t" using ex by auto
  then have "tl_ts t = 3" by (auto simp: one_bus_def)
  with x run t(2) show ?thesis by (simp add: telemetry_sample_of_def)
qed

end
