(* ===== verification/Incidents.thy ===== *)
theory Incidents
  imports Webhooks Queue Dispatch Fleet
begin

text \<open>
  Stations and safety incidents of infra-api (src/services/go/infra-api/internal/handlers/stations.go and
  incidents.go), and the incident activities of the response workflow
  (src/services/go/infra-api/internal/workflow/activities.go). An incident is written first; closing its
  station, publishing, signalling and the webhooks are later statements whose failures are only logged.
  The rows of stations, queues, vehicles and dispatch jobs are those of \<open>Queue\<close> and \<open>Dispatch\<close>. A text that
  is not a uuid is one of the faults of its statement.
\<close>

section \<open>The store\<close>

record safety_store =
  incidents :: "incident list"
  sf_queue :: queue_store
  sf_dispatch :: dispatch_store
  telemetry :: "telemetry_row list"
  sf_hooks :: hook_store
  sf_events :: "(string \<times> (string \<times> json) list) list"
  sf_signals :: "(string \<times> string \<times> (string \<times> json) list) list"

definition safety_emit :: "db_env \<Rightarrow> string \<Rightarrow> (string \<times> json) list \<Rightarrow> safety_store \<Rightarrow> safety_store" where
  "safety_emit E topic payload s =
     (if pub_fault E topic then s else s\<lparr>sf_events := sf_events s @ [(topic, payload)]\<rparr>)"

definition safety_signal :: "db_env \<Rightarrow> string \<Rightarrow> string \<Rightarrow> (string \<times> json) list \<Rightarrow> safety_store \<Rightarrow> safety_store" where
  "safety_signal E iid name payload s =
     (if pub_fault E name then s else s\<lparr>sf_signals := sf_signals s @ [(''incident-'' @ iid, name, payload)]\<rparr>)"

definition upd_stations :: "(fuel_station \<Rightarrow> bool) \<Rightarrow> (fuel_station \<Rightarrow> fuel_station) \<Rightarrow> safety_store \<Rightarrow> safety_store" where
  "upd_stations P f s = s\<lparr>sf_queue := (sf_queue s)\<lparr>fuel_stations := upd_rows P f (fuel_stations (sf_queue s))\<rparr>\<rparr>"

section \<open>Stations\<close>

definition stationTypes :: "string list" where
  "stationTypes = [''h2'', ''ev_charger'', ''diesel'', ''cng'', ''mixed'']"

text \<open>\<open>ORDER BY name\<close> follows the collation of the database: the sort is the parameter \<open>by_name\<close>.\<close>

definition ListStations :: "db_env \<Rightarrow> (fuel_station list \<Rightarrow> fuel_station list) \<Rightarrow> safety_store \<Rightarrow> fuel_station list resp" where
  "ListStations E by_name s =
     (if fault E ''list stations'' then Internal ''list stations''
      else if fault E ''scan station'' then Internal ''scan station''
      else if fault E ''iterate stations'' then Internal ''iterate stations''
      else Reply 200 (take 200 (by_name (fuel_stations (sf_queue s)))))"

definition GetStation :: "db_env \<Rightarrow> string \<Rightarrow> safety_store \<Rightarrow> fuel_station resp" where
  "GetStation E sid s =
     (if fault E ''get station'' then Internal ''get station''
      else case find (\<lambda>st. fs_id st = sid) (fuel_stations (sf_queue s)) of
        None \<Rightarrow> Err 404 ''station not found''
      | Some st \<Rightarrow> Reply 200 st)"

record create_station_req =
  ct_name :: string
  ct_capacity_kg :: rat
  ct_available_kg :: rat
  ct_status :: string
  ct_station_type :: string
  ct_available_kwh :: "rat option"
  ct_charger_count :: "int option"
  ct_lat :: "rat option"
  ct_lon :: "rat option"

definition CreateStation :: "db_env \<Rightarrow> create_station_req option \<Rightarrow> safety_store \<Rightarrow> fuel_station resp \<times> safety_store" where
  "CreateStation E body s =
     (case body of
        None \<Rightarrow> (Err 400 ''invalid JSON body'', s)
      | Some req \<Rightarrow>
          let status = (if ct_status req = [] then ''online'' else ct_status req);
              ty = (if ct_station_type req = [] then ''h2'' else ct_station_type req);
              st = \<lparr>fs_id = new_id E 0, fs_status = Some status, fs_type = Some ty, fs_available_kg = Some (ct_available_kg req),
                    fs_available_kwh = ct_available_kwh req, fs_name = ct_name req, fs_capacity_kg = Some (ct_capacity_kg req),
                    fs_charger_count = ct_charger_count req,
                    fs_geom = (case (ct_lat req, ct_lon req) of (Some lat, Some lon) \<Rightarrow> Some (lat, lon) | _ \<Rightarrow> None)\<rparr> in
          if ct_name req = [] then (Err 400 ''name is required'', s)
          else if ty \<notin> set stationTypes then (Err 400 ''station_type must be one of h2|ev_charger|diesel|cng|mixed'', s)
          else if fault E ''create station'' \<or> fs_id st \<in> fs_id ` set (fuel_stations (sf_queue s)) then (Internal ''create station'', s)
          else (Reply 201 st, s\<lparr>sf_queue := (sf_queue s)\<lparr>fuel_stations := fuel_stations (sf_queue s) @ [st]\<rparr>\<rparr>))"

record station_status_req =
  sr_status :: string
  sr_available_kg :: "rat option"
  sr_available_kwh :: "rat option"

definition UpdateStationStatus ::
  "db_env \<Rightarrow> string \<Rightarrow> station_status_req option \<Rightarrow> safety_store \<Rightarrow> fuel_station resp \<times> safety_store" where
  "UpdateStationStatus E sid body s =
     (case body of
        None \<Rightarrow> (Err 400 ''body must include \"status\"'', s)
      | Some req \<Rightarrow>
          let mark = (\<lambda>st. st\<lparr>fs_status := Some (sr_status req),
                fs_available_kg := (case sr_available_kg req of None \<Rightarrow> fs_available_kg st | Some v \<Rightarrow> Some v),
                fs_available_kwh := (case sr_available_kwh req of None \<Rightarrow> fs_available_kwh st | Some v \<Rightarrow> Some v)\<rparr>) in
          if sr_status req = [] then (Err 400 ''body must include \"status\"'', s)
          else if fault E ''update station status'' then (Internal ''update station status'', s)
          else (case find (\<lambda>st. fs_id st = sid) (fuel_stations (sf_queue s)) of
             None \<Rightarrow> (Err 404 ''station not found'', s)
           | Some st0 \<Rightarrow>
               let st = mark st0 in
               (Reply 200 st, safety_emit E ''station.status.changed''
                  ([(''station_id'', JStr (fs_id st)), (''status'', JStr (sr_status req)),
                    (''available_kg'', JFloat (coalesce (fs_available_kg st) 0)),
                    (''station_type'', JStr (coalesce (fs_type st) ''h2''))] @
                   (case fs_available_kwh st of None \<Rightarrow> [] | Some v \<Rightarrow> [(''available_kwh'', JFloat v)]))
                  (upd_stations (\<lambda>st. fs_id st = sid) mark s))))"

section \<open>Opening an incident\<close>

definition ListIncidents :: "db_env \<Rightarrow> string \<Rightarrow> safety_store \<Rightarrow> incident list resp" where
  "ListIncidents E status s =
     (if fault E ''list incidents'' then Internal ''list incidents''
      else if fault E ''scan incident'' then Internal ''scan incident''
      else if fault E ''iterate incidents'' then Internal ''iterate incidents''
      else Reply 200 (newest in_opened_at 200 (filter (\<lambda>i. status \<noteq> [] \<longrightarrow> in_status i = status) (incidents s))))"

record create_incident_req =
  ci_type :: string
  ci_severity :: string
  ci_bus_id :: "string option"
  ci_station_id :: "string option"
  ci_description :: string
  ci_meta :: "(string \<times> json) list"

definition incidentTypeFloor :: "string \<Rightarrow> string option" where
  "incidentTypeFloor ty = map_of [(''h2_leak'', ''low''), (''collision'', ''high''), (''fire'', ''critical''), (''prd_vent'', ''high''),
     (''evacuation'', ''high''), (''sos'', ''critical''), (''security'', ''high''), (''breakdown'', ''low''), (''other'', ''low'')] ty"

definition applySeverityFloor :: "string \<Rightarrow> string \<Rightarrow> string" where
  "applySeverityFloor ty sev0 =
     (let sev = (if severityRank sev0 = None then ''medium'' else sev0) in
      case incidentTypeFloor ty of
        None \<Rightarrow> sev
      | Some least \<Rightarrow> if rank least > rank sev then least else sev)"

definition meta_put :: "string \<Rightarrow> json \<Rightarrow> (string \<times> json) list \<Rightarrow> (string \<times> json) list" where
  "meta_put k v m = filter (\<lambda>(k', _). k' \<noteq> k) m @ [(k, v)]"

text \<open>The insert; nothing when the database refuses it, a dangling bus or station included.\<close>

definition insertIncident :: "db_env \<Rightarrow> string \<Rightarrow> create_incident_req \<Rightarrow> safety_store \<Rightarrow> incident option \<times> safety_store" where
  "insertIncident E op req s =
     (let i = \<lparr>in_id = new_id E 0, in_type = ci_type req, in_severity = ci_severity req, in_bus_id = ci_bus_id req,
               in_station_id = ci_station_id req, in_status = ''open'', in_opened_at = to_micros (now E), in_meta = ci_meta req,
               in_resolved_at = None\<rparr> in
      if fault E op \<or> in_id i \<in> in_id ` set (incidents s) \<or>
         (case ci_bus_id req of None \<Rightarrow> False | Some b \<Rightarrow> b \<notin> set (fleet_vehicles (sf_queue s))) \<or>
         (case ci_station_id req of None \<Rightarrow> False | Some st \<Rightarrow> st \<notin> fs_id ` set (fuel_stations (sf_queue s)))
      then (None, s)
      else (Some i, s\<lparr>incidents := incidents s @ [i]\<rparr>))"

definition setStationEmergency :: "db_env \<Rightarrow> incident \<Rightarrow> safety_store \<Rightarrow> safety_store" where
  "setStationEmergency E i s =
     (case in_station_id i of
        None \<Rightarrow> s
      | Some sid \<Rightarrow>
          let hit = (\<lambda>st. fs_id st = sid \<and> fs_status st \<noteq> None \<and> fs_status st \<noteq> Some ''emergency'') in
          if in_severity i \<noteq> ''critical'' then s
          else if fault E ''failed to set station emergency'' then s
          else (case find hit (fuel_stations (sf_queue s)) of
             None \<Rightarrow> s
           | Some _ \<Rightarrow> safety_emit E ''station.status.changed''
               [(''station_id'', JStr sid), (''status'', JStr ''emergency''), (''reason'', JStr (''critical incident '' @ in_id i))]
               (upd_stations hit (\<lambda>st. st\<lparr>fs_status := Some ''emergency''\<rparr>) s)))"

definition afterIncidentOpened :: "db_env \<Rightarrow> hook_env \<Rightarrow> incident \<Rightarrow> safety_store \<Rightarrow> safety_store" where
  "afterIncidentOpened E H i s =
     (let s1 = setStationEmergency E i s in
      s1\<lparr>sf_hooks := dispatchIncidentWebhooks E H i ''incident.opened'' (sf_hooks s1)\<rparr>)"

text \<open>What \<open>OpenIncident\<close> does with its body before the insert.\<close>

definition open_request :: "create_incident_req option \<Rightarrow> incident resp + create_incident_req" where
  "open_request body =
     (case body of
        None \<Rightarrow> Inl (Err 400 ''body must include \"type\"'')
      | Some req \<Rightarrow>
          if ci_type req = [] then Inl (Err 400 ''body must include \"type\"'')
          else if incidentTypeFloor (ci_type req) = None
          then Inl (Err 422 (''unknown incident type '' @ go_quote (ci_type req) @
                 '' (allowed: collision, evacuation, fire, h2_leak, breakdown, other, prd_vent, security, sos)''))
          else
            let sev = (if ci_severity req = [] then ''medium'' else ci_severity req) in
            Inr (req\<lparr>ci_severity := applySeverityFloor (ci_type req) sev,
                     ci_meta := (if ci_description req \<noteq> [] then meta_put ''description'' (JStr (ci_description req)) (ci_meta req)
                                 else ci_meta req)\<rparr>))"

definition OpenIncident ::
  "db_env \<Rightarrow> hook_env \<Rightarrow> create_incident_req option \<Rightarrow> safety_store \<Rightarrow> incident resp \<times> safety_store" where
  "OpenIncident E H body s =
     (case open_request body of
        Inl r \<Rightarrow> (r, s)
      | Inr req \<Rightarrow>
          (case insertIncident E ''open incident'' req s of
             (None, s1) \<Rightarrow> (Internal ''open incident'', s1)
           | (Some i, s1) \<Rightarrow> (Reply 201 i, afterIncidentOpened E H i s1)))"

section \<open>Acknowledging and resolving\<close>

definition AckIncident :: "db_env \<Rightarrow> string \<Rightarrow> safety_store \<Rightarrow> incident resp \<times> safety_store" where
  "AckIncident E iid s =
     (let hit = (\<lambda>i. in_id i = iid \<and> in_status i \<in> {''open'', ''in_progress''});
          mark = (\<lambda>i. i\<lparr>in_status := ''acknowledged''\<rparr>) in
      if fault E ''ack incident'' then (Internal ''ack incident'', s)
      else case find hit (incidents s) of
        None \<Rightarrow> (Err 409 ''incident not found or not in an acknowledgeable status'', s)
      | Some i \<Rightarrow> (Reply 200 (mark i), safety_signal E iid ''incident-acknowledged'' [(''incident_id'', JStr iid)]
          (s\<lparr>incidents := upd_rows hit mark (incidents s)\<rparr>)))"

definition active_incident :: "incident \<Rightarrow> bool" where
  "active_incident i \<longleftrightarrow> in_status i \<in> {''open'', ''in_progress'', ''acknowledged''}"

definition maybeRestoreStation :: "db_env \<Rightarrow> string \<Rightarrow> safety_store \<Rightarrow> safety_store" where
  "maybeRestoreStation E sid s =
     (let hit = (\<lambda>st. fs_id st = sid \<and> fs_status st = Some ''emergency'' \<and>
            \<not> (\<exists>i \<in> set (incidents s). in_station_id i = Some sid \<and> in_severity i = ''critical'' \<and> active_incident i)) in
      if fault E ''failed to restore station'' then s
      else case find hit (fuel_stations (sf_queue s)) of
        None \<Rightarrow> s
      | Some _ \<Rightarrow> safety_emit E ''station.status.changed''
          [(''station_id'', JStr sid), (''status'', JStr ''online''), (''reason'', JStr ''all critical incidents resolved'')]
          (upd_stations hit (\<lambda>st. st\<lparr>fs_status := Some ''online''\<rparr>) s))"

definition resolve_mark :: "db_env \<Rightarrow> string \<Rightarrow> safety_store \<Rightarrow> incident resp \<times> safety_store" where
  "resolve_mark E iid s =
     (let hit = (\<lambda>i. in_id i = iid \<and> active_incident i);
          mark = (\<lambda>i. i\<lparr>in_status := ''resolved'', in_resolved_at := Some (to_micros (now E))\<rparr>) in
      if fault E ''resolve incident'' then (Internal ''resolve incident'', s)
      else case find hit (incidents s) of
        None \<Rightarrow> (Err 409 ''incident not found or already resolved'', s)
      | Some i \<Rightarrow> (Reply 200 (mark i), s\<lparr>incidents := upd_rows hit mark (incidents s)\<rparr>))"

definition ResolveIncident :: "db_env \<Rightarrow> hook_env \<Rightarrow> string \<Rightarrow> safety_store \<Rightarrow> incident resp \<times> safety_store" where
  "ResolveIncident E H iid s =
     (case resolve_mark E iid s of
        (Reply n i, s1) \<Rightarrow>
          let s2 = safety_signal E iid ''incident-resolved'' [(''incident_id'', JStr iid)] s1;
              s3 = (case in_station_id i of None \<Rightarrow> s2 | Some sid \<Rightarrow> maybeRestoreStation E sid s2) in
          (Reply n i, s3\<lparr>sf_hooks := dispatchIncidentWebhooks E H i ''incident.resolved'' (sf_hooks s3)\<rparr>)
      | other \<Rightarrow> other)"

section \<open>Leak readings\<close>

record leak_req =
  lk_sensor_id :: string
  lk_station_id :: "string option"
  lk_bus_id :: "string option"
  lk_severity :: string
  lk_h2_ppm :: "rat option"
  lk_location :: string

definition severityFromPpm :: "rat \<Rightarrow> string" where
  "severityFromPpm ppm =
     (if ppm \<ge> 20000 then ''critical'' else if ppm \<ge> 5000 then ''high'' else if ppm \<ge> 1000 then ''medium'' else ''low'')"

definition leakSeverity :: "string \<Rightarrow> rat option \<Rightarrow> string" where
  "leakSeverity caller0 ppm =
     (let caller = (if caller0 = [] \<or> severityRank caller0 = None then ''high'' else caller0) in
      case ppm of
        None \<Rightarrow> caller
      | Some p \<Rightarrow> if rank (severityFromPpm p) > rank caller then severityFromPpm p else caller)"

text \<open>\<open>(meta->>'readings')::int\<close> with 1 for null, and the sum, which must fit 32 bits; nothing when the cast fails.\<close>

definition next_reading :: "(string \<times> json) list \<Rightarrow> int option" where
  "next_reading m =
     (let n = (case map_of m ''readings'' of
                 None \<Rightarrow> Some 1
               | Some JNull \<Rightarrow> Some 1
               | Some (JNum k) \<Rightarrow> Some k
               | Some (JStr t) \<Rightarrow> parse_int64 (trim_space t)
               | Some _ \<Rightarrow> None) in
      case n of None \<Rightarrow> None | Some k \<Rightarrow> if - (2 ^ 31) \<le> k \<and> k + 1 < 2 ^ 31 then Some (k + 1) else None)"

definition opt_num :: "rat option \<Rightarrow> json" where
  "opt_num x = (case x of None \<Rightarrow> JNull | Some p \<Rightarrow> JFloat p)"

definition fold_reading :: "db_env \<Rightarrow> string \<Rightarrow> rat option \<Rightarrow> incident \<Rightarrow> incident" where
  "fold_reading E severity ppm i =
     (let old = in_meta i;
          h2 = (case ppm of Some p \<Rightarrow> JFloat p | None \<Rightarrow> coalesce (map_of old ''h2_ppm'') JNull);
          readings = coalesce (next_reading old) 0 in
      i\<lparr>in_severity := (case (severityRank (in_severity i), severityRank severity) of
            (Some a, Some b) \<Rightarrow> if a < b then severity else in_severity i | _ \<Rightarrow> in_severity i),
        in_meta := meta_put ''last_reading_at'' (JTime (to_micros (now E)))
          (meta_put ''readings'' (JNum readings) (meta_put ''h2_ppm'' h2 old))\<rparr>)"

text \<open>\<open>meta->>'sensor_id'\<close>; sensors have no ids that read like fractions, arrays or objects.\<close>

definition sensor_text :: "(string \<times> json) list \<Rightarrow> string option" where
  "sensor_text m =
     (case map_of m ''sensor_id'' of
        Some (JStr t) \<Rightarrow> Some t
      | Some (JNum n) \<Rightarrow> Some (show_int n)
      | Some (JBool b) \<Rightarrow> Some (if b then ''true'' else ''false'')
      | _ \<Rightarrow> None)"

definition same_leak :: "db_env \<Rightarrow> string \<Rightarrow> incident \<Rightarrow> bool" where
  "same_leak E sensor i \<longleftrightarrow> in_type i = ''h2_leak'' \<and> sensor_text (in_meta i) = Some sensor \<and> active_incident i \<and>
     in_opened_at i > to_micros (now E) - 30 * 60 * 1000000000"

text \<open>The update that folds a reading into an active incident: \<open>Inr None\<close> when there is none.\<close>

definition leak_fold :: "db_env \<Rightarrow> leak_req \<Rightarrow> safety_store \<Rightarrow> (unit + incident option) \<times> safety_store" where
  "leak_fold E req s =
     (let severity = leakSeverity (lk_severity req) (lk_h2_ppm req);
          hit = same_leak E (lk_sensor_id req); mark = fold_reading E severity (lk_h2_ppm req) in
      if fault E ''dedup leak event'' \<or> (\<exists>i \<in> set (incidents s). hit i \<and> next_reading (in_meta i) = None) then (Inl (), s)
      else (Inr (map_option mark (find hit (incidents s))), s\<lparr>incidents := upd_rows hit mark (incidents s)\<rparr>))"

definition leak_incident :: "leak_req \<Rightarrow> create_incident_req" where
  "leak_incident req =
     \<lparr>ci_type = ''h2_leak'', ci_severity = leakSeverity (lk_severity req) (lk_h2_ppm req), ci_bus_id = lk_bus_id req,
      ci_station_id = lk_station_id req, ci_description = [],
      ci_meta = [(''sensor_id'', JStr (lk_sensor_id req)), (''h2_ppm'', opt_num (lk_h2_ppm req)),
                 (''location'', JStr (lk_location req)), (''readings'', JNum 1)]\<rparr>"

definition leak_open :: "db_env \<Rightarrow> hook_env \<Rightarrow> leak_req \<Rightarrow> safety_store \<Rightarrow> (incident \<times> bool) resp \<times> safety_store" where
  "leak_open E H req s =
     (case insertIncident E ''ingest leak event'' (leak_incident req) s of
        (None, s1) \<Rightarrow> (Internal ''ingest leak event'', s1)
      | (Some i, s1) \<Rightarrow>
          let event = [(''incident_id'', JStr (in_id i)), (''sensor_id'', JStr (lk_sensor_id req)), (''severity'', JStr (in_severity i)),
                       (''bus_id'', opt_str (lk_bus_id req)), (''station_id'', opt_str (lk_station_id req)),
                       (''h2_ppm'', opt_num (lk_h2_ppm req)), (''location'', JStr (lk_location req))];
              s2 = safety_emit E ''safety.leak.detected'' event s1;
              s3 = safety_signal E (in_id i) ''leak-detected'' event s2 in
          (Reply 202 (i, False), afterIncidentOpened E H i s3))"

definition IngestLeak ::
  "db_env \<Rightarrow> hook_env \<Rightarrow> leak_req option \<Rightarrow> safety_store \<Rightarrow> (incident \<times> bool) resp \<times> safety_store" where
  "IngestLeak E H body s =
     (case body of
        None \<Rightarrow> (Err 400 ''body must include \"sensor_id\"'', s)
      | Some req \<Rightarrow>
          if lk_sensor_id req = [] then (Err 400 ''body must include \"sensor_id\"'', s)
          else (case leak_fold E req s of
             (Inl _, s1) \<Rightarrow> (Internal ''dedup leak event'', s1)
           | (Inr (Some i), s1) \<Rightarrow> (Reply 200 (i, True), s1)
           | (Inr None, s1) \<Rightarrow> leak_open E H req s1))"

section \<open>The driver's panic channel\<close>

text \<open>The vehicle and route of the driver's active job, and the vehicle's last position (which may be unknown).\<close>

definition sos_job :: "string \<Rightarrow> safety_store \<Rightarrow> string option \<times> string option" where
  "sos_job subject s =
     (case newest (\<lambda>j. coalesce (dj_starts_at j) (dj_created_at j)) 1
             (filter (\<lambda>j. dj_driver_sub j = subject \<and> dj_status j \<in> {''accepted'', ''in_progress''}) (dispatch_jobs (sf_dispatch s))) of
        [] \<Rightarrow> (None, None)
      | j # _ \<Rightarrow> (dj_vehicle_id j, if dj_route j = [] then None else Some (dj_route j)))"

definition last_position :: "string \<Rightarrow> safety_store \<Rightarrow> unit + (rat \<times> rat) option" where
  "last_position bus s =
     (case newest tl_ts 1 (filter (\<lambda>t. tl_bus_id t = bus) (telemetry s)) of
        [] \<Rightarrow> Inr None
      | t # _ \<Rightarrow> (case tl_geom t of None \<Rightarrow> Inl () | Some p \<Rightarrow> Inr (Some p)))"

definition sos_meta :: "string \<Rightarrow> string \<Rightarrow> string option \<times> string option \<Rightarrow> (rat \<times> rat) option \<Rightarrow> (string \<times> json) list" where
  "sos_meta subject description job pos =
     [(''driver_sub'', JStr subject), (''source'', JStr ''driver_sos'')] @
     (if description \<noteq> [] then [(''description'', JStr description)] else []) @
     (case fst job of None \<Rightarrow> [] | Some v \<Rightarrow> [(''vehicle_id'', JStr v)]) @
     (case snd job of None \<Rightarrow> [] | Some r \<Rightarrow> [(''route'', JStr r)]) @
     (case pos of None \<Rightarrow> [] | Some (lat, lon) \<Rightarrow> [(''lat'', JFloat lat), (''lon'', JFloat lon)])"

definition sos_incident :: "string option \<Rightarrow> (string \<times> json) list \<Rightarrow> create_incident_req" where
  "sos_incident bus meta = \<lparr>ci_type = ''sos'', ci_severity = ''critical'', ci_bus_id = bus, ci_station_id = None,
     ci_description = [], ci_meta = meta\<rparr>"

definition sos_open ::
  "db_env \<Rightarrow> hook_env \<Rightarrow> string \<Rightarrow> string option \<times> string option \<Rightarrow> (string \<times> json) list \<Rightarrow> safety_store \<Rightarrow> incident resp \<times> safety_store" where
  "sos_open E H subject job meta s =
     (case insertIncident E ''open sos incident'' (sos_incident (fst job) meta) s of
        (None, s1) \<Rightarrow> (Internal ''open sos incident'', s1)
      | (Some i, s1) \<Rightarrow>
          let event = [(''incident_id'', JStr (in_id i)), (''driver_sub'', JStr subject), (''severity'', JStr (in_severity i)),
                       (''vehicle_id'', opt_str (fst job)), (''route'', opt_str (snd job))];
              s2 = safety_emit E ''safety.sos'' event s1;
              s3 = safety_signal E (in_id i) ''leak-detected'' event s2 in
          (Reply 201 i, afterIncidentOpened E H i s3))"

text \<open>The body of an SOS is optional: absent, undecodable, or a description.\<close>

definition TriggerSOS ::
  "db_env \<Rightarrow> hook_env \<Rightarrow> ctx \<Rightarrow> string option option \<Rightarrow> safety_store \<Rightarrow> incident resp \<times> safety_store" where
  "TriggerSOS E H c body s =
     (let subject = Subject c in
      if subject = [] then (Err 401 ''authenticated subject required'', s)
      else case (case body of None \<Rightarrow> Some [] | Some b \<Rightarrow> b) of
        None \<Rightarrow> (Err 400 ''invalid JSON body'', s)
      | Some description \<Rightarrow>
          let job = sos_job subject s in
          if fault E ''load driver dispatch context'' then (Internal ''load driver dispatch context'', s)
          else (case fst job of
             None \<Rightarrow> sos_open E H subject job (sos_meta subject description job None) s
           | Some v \<Rightarrow>
               if fault E ''load vehicle position'' then (Internal ''load vehicle position'', s)
               else (case last_position v s of
                  Inl _ \<Rightarrow> (Internal ''load vehicle position'', s)
                | Inr pos \<Rightarrow> sos_open E H subject job (sos_meta subject description job pos) s)))"

section \<open>Activities of the response workflow\<close>

definition SetIncidentInProgress :: "db_env \<Rightarrow> string \<Rightarrow> safety_store \<Rightarrow> bool \<times> safety_store" where
  "SetIncidentInProgress E iid s =
     (if fault E ''SetIncidentInProgress'' then (False, s)
      else (True, s\<lparr>incidents := upd_rows (\<lambda>i. in_id i = iid \<and> in_status i \<in> {''open'', ''acknowledged''})
             (\<lambda>i. i\<lparr>in_status := ''in_progress''\<rparr>) (incidents s)\<rparr>))"

definition bump_severity :: "string \<Rightarrow> string" where
  "bump_severity sev = (if sev = ''low'' then ''medium'' else if sev = ''medium'' then ''high'' else if sev = ''high'' then ''critical'' else sev)"

definition EscalateIncident :: "db_env \<Rightarrow> string \<Rightarrow> safety_store \<Rightarrow> bool \<times> safety_store" where
  "EscalateIncident E iid s =
     (if fault E ''EscalateIncident'' then (False, s)
      else (True, s\<lparr>incidents := upd_rows (\<lambda>i. in_id i = iid \<and> in_status i \<noteq> ''resolved'')
             (\<lambda>i. i\<lparr>in_severity := bump_severity (in_severity i)\<rparr>) (incidents s)\<rparr>))"

definition MarkIncidentResolved :: "db_env \<Rightarrow> string \<Rightarrow> safety_store \<Rightarrow> bool \<times> safety_store" where
  "MarkIncidentResolved E iid s =
     (if fault E ''MarkIncidentResolved'' then (False, s)
      else (True, s\<lparr>incidents := upd_rows (\<lambda>i. in_id i = iid \<and> in_status i \<noteq> ''resolved'')
             (\<lambda>i. i\<lparr>in_status := ''resolved''\<rparr>) (incidents s)\<rparr>))"

section \<open>Severities\<close>

lemma rank_simps [simp]: "rank ''low'' = 0" "rank ''medium'' = 1" "rank ''high'' = 2" "rank ''critical'' = 3"
  by (simp_all add: rank_def severityRank_def)

lemma severityRank_cases: "severityRank sev = Some n \<Longrightarrow> sev = ''low'' \<or> sev = ''medium'' \<or> sev = ''high'' \<or> sev = ''critical''"
  by (auto simp: severityRank_def split: if_splits)

lemma severity_known [simp]: "severityRank ''low'' = Some 0" "severityRank ''medium'' = Some 1"
  "severityRank ''high'' = Some 2" "severityRank ''critical'' = Some 3"
  by (simp_all add: severityRank_def)

lemma rank_Some: "severityRank sev = Some n \<Longrightarrow> rank sev = n"
  by (simp add: rank_def)

lemma incidentTypeFloor_known: "incidentTypeFloor ty = Some f \<Longrightarrow> severityRank f \<noteq> None"
  by (auto simp: incidentTypeFloor_def split: if_splits)

lemma applySeverityFloor_ok:
  assumes "incidentTypeFloor ty = Some f"
  shows "rank f \<le> rank (applySeverityFloor ty sev) \<and> severityRank (applySeverityFloor ty sev) \<noteq> None"
  using incidentTypeFloor_known [OF assms] assms by (auto simp: applySeverityFloor_def Let_def not_less)

lemma applySeverityFloor_never_lowers: "rank sev \<le> rank (applySeverityFloor ty sev)"
  by (auto simp: applySeverityFloor_def Let_def rank_def split: option.splits)

lemma severityFromPpm_known: "severityRank (severityFromPpm p) \<noteq> None"
  by (simp add: severityFromPpm_def)

lemma leakSeverity_known: "severityRank (leakSeverity caller ppm) \<noteq> None"
  using severityFromPpm_known by (auto simp: leakSeverity_def Let_def split: option.splits)

lemma leakSeverity_floor: "rank (severityFromPpm p) \<le> rank (leakSeverity caller (Some p))"
  by (auto simp: leakSeverity_def Let_def)

lemma bump_severity_ok: "rank sev \<le> rank (bump_severity sev)" "severityRank sev \<noteq> None \<Longrightarrow> severityRank (bump_severity sev) \<noteq> None"
  by (auto simp: bump_severity_def)

section \<open>Steps of concurrent requests\<close>

text \<open>
  Every statement that writes incidents is a step: the three inserts, with the request their handler
  builds, the fold of a reading, the updates of the two handlers and of the three activities. The other
  statements leave the incidents alone.
\<close>

inductive incident_step :: "safety_store \<Rightarrow> safety_store \<Rightarrow> bool" where
  step_open: "open_request body = Inr req \<Longrightarrow> incident_step s (snd (insertIncident E ''open incident'' req s))"
| step_leak: "incident_step s (snd (insertIncident E ''ingest leak event'' (leak_incident req) s))"
| step_sos: "incident_step s (snd (insertIncident E ''open sos incident'' (sos_incident bus meta) s))"
| step_fold: "incident_step s (snd (leak_fold E req s))"
| step_ack: "incident_step s (snd (AckIncident E iid s))"
| step_resolve: "incident_step s (snd (resolve_mark E iid s))"
| step_progress: "incident_step s (snd (SetIncidentInProgress E iid s))"
| step_escalate: "incident_step s (snd (EscalateIncident E iid s))"
| step_resolved: "incident_step s (snd (MarkIncidentResolved E iid s))"
| step_other: "incidents t = incidents s \<Longrightarrow> incident_step s t"

definition grown :: "incident \<Rightarrow> incident \<Rightarrow> bool" where
  "grown i j \<longleftrightarrow> in_id j = in_id i \<and> in_type j = in_type i \<and> in_station_id j = in_station_id i \<and> in_opened_at j = in_opened_at i \<and>
     rank (in_severity i) \<le> rank (in_severity j) \<and> (severityRank (in_severity i) \<noteq> None \<longrightarrow> severityRank (in_severity j) \<noteq> None) \<and>
     (in_status i = ''resolved'' \<longrightarrow> in_status j = ''resolved'')"

lemma grown_refl [simp]: "grown i i"
  by (simp add: grown_def)

lemma grown_trans: "grown i j \<Longrightarrow> grown j k \<Longrightarrow> grown i k"
  by (auto simp: grown_def)

definition above_floor :: "incident \<Rightarrow> bool" where
  "above_floor i \<longleftrightarrow> severityRank (in_severity i) \<noteq> None \<and>
     (\<exists>f. incidentTypeFloor (in_type i) = Some f \<and> rank f \<le> rank (in_severity i))"

lemma grown_above: "grown i j \<Longrightarrow> above_floor i \<Longrightarrow> above_floor j"
  unfolding grown_def above_floor_def by (metis le_trans)

text \<open>How one step changes the table: it adds one incident above its floor, or lets the rows grow.\<close>

definition incidents_next :: "incident list \<Rightarrow> incident list \<Rightarrow> bool" where
  "incidents_next xs ys \<longleftrightarrow> (\<exists>i. ys = xs @ [i] \<and> above_floor i) \<or> list_all2 grown xs ys"

lemma next_same [simp]: "incidents_next xs xs"
  by (simp add: incidents_next_def list_all2_refl)

lemma next_update: "(\<And>i. P i \<Longrightarrow> grown i (f i)) \<Longrightarrow> incidents_next xs (upd_rows P f xs)"
  unfolding incidents_next_def by (rule disjI2) (auto simp: upd_rows_def list_all2_map2 intro!: list_all2_refl)

lemma next_insert:
  assumes "severityRank (ci_severity req) \<noteq> None" "incidentTypeFloor (ci_type req) = Some f" "rank f \<le> rank (ci_severity req)"
  shows "incidents_next (incidents s) (incidents (snd (insertIncident E op req s)))"
  using assms by (auto simp: insertIncident_def Let_def incidents_next_def above_floor_def list_all2_refl)

lemma open_request_ok:
  assumes "open_request body = Inr req"
  shows "\<exists>f. incidentTypeFloor (ci_type req) = Some f \<and> rank f \<le> rank (ci_severity req) \<and> severityRank (ci_severity req) \<noteq> None"
proof (cases body)
  case (Some b)
  obtain sev where "ci_type req = ci_type b" "ci_severity req = applySeverityFloor (ci_type b) sev" "incidentTypeFloor (ci_type b) \<noteq> None"
    using assms Some by (fastforce simp: open_request_def Let_def split: if_splits)
  with applySeverityFloor_ok [of "ci_type b" _ sev] show ?thesis by fastforce
qed (use assms in \<open>simp add: open_request_def\<close>)

lemma fold_reading_grown: "grown i (fold_reading E sev ppm i)"
  by (auto simp: grown_def fold_reading_def Let_def rank_def split: option.splits)

lemma safety_signal_frame [simp]:
  "incidents (safety_signal E i n p s) = incidents s" "sf_queue (safety_signal E i n p s) = sf_queue s"
  "sf_hooks (safety_signal E i n p s) = sf_hooks s"
  by (simp_all add: safety_signal_def)

lemma safety_emit_frame [simp]:
  "incidents (safety_emit E t p s) = incidents s" "sf_queue (safety_emit E t p s) = sf_queue s"
  "sf_hooks (safety_emit E t p s) = sf_hooks s"
  by (simp_all add: safety_emit_def)

lemma incident_step_next: "incident_step s t \<Longrightarrow> incidents_next (incidents s) (incidents t)"
proof (induction rule: incident_step.induct)
  case (step_open body req s E)
  from open_request_ok [OF this] obtain f where "incidentTypeFloor (ci_type req) = Some f" "rank f \<le> rank (ci_severity req)"
    "severityRank (ci_severity req) \<noteq> None" by blast
  then show ?case by (intro next_insert)
next
  case (step_leak s E req)
  then show ?case using leakSeverity_known
    by (intro next_insert [of _ "''low''"]) (simp_all add: leak_incident_def incidentTypeFloor_def)
next
  case (step_sos s E bus meta)
  then show ?case by (intro next_insert [of _ "''critical''"]) (simp_all add: sos_incident_def incidentTypeFloor_def)
next
  case (step_fold s E req)
  then show ?case by (auto simp: leak_fold_def Let_def intro!: next_update fold_reading_grown)
next
  case (step_ack s E iid)
  then show ?case by (auto simp: AckIncident_def Let_def grown_def intro!: next_update split: option.split)
next
  case (step_resolve s E iid)
  then show ?case by (auto simp: resolve_mark_def Let_def grown_def intro!: next_update split: option.split)
next
  case (step_progress s E iid)
  then show ?case by (auto simp: SetIncidentInProgress_def grown_def intro!: next_update)
next
  case (step_escalate s E iid)
  then show ?case using bump_severity_ok by (auto simp: EscalateIncident_def grown_def intro!: next_update)
next
  case (step_resolved s E iid)
  then show ?case by (auto simp: MarkIncidentResolved_def grown_def intro!: next_update)
qed simp

lemma grown_row: "list_all2 grown xs ys \<Longrightarrow> i \<in> set xs \<Longrightarrow> \<exists>j \<in> set ys. grown i j"
  by (induction rule: list_all2_induct) auto

lemma incident_run_grows:
  "incident_step\<^sup>*\<^sup>* s t \<Longrightarrow> i \<in> set (incidents s) \<Longrightarrow> \<exists>j \<in> set (incidents t). grown i j"
proof (induction rule: rtranclp_induct)
  case (step t u)
  then obtain j where j: "j \<in> set (incidents t)" "grown i j" by blast
  from incident_step_next [OF step(2)] have "\<exists>k \<in> set (incidents u). grown j k"
    using j(1) grown_row [of "incidents t" "incidents u" j] grown_refl [of j] unfolding incidents_next_def by fastforce
  with j(2) grown_trans show ?case by blast
qed (metis grown_refl)

lemma incident_run_above:
  "incident_step\<^sup>*\<^sup>* s t \<Longrightarrow> \<forall>i \<in> set (incidents s). above_floor i \<Longrightarrow> \<forall>i \<in> set (incidents t). above_floor i"
proof (induction rule: rtranclp_induct)
  case (step t u)
  then have t: "\<forall>i \<in> set (incidents t). above_floor i" by blast
  from incident_step_next [OF step(2)] show ?case
    unfolding incidents_next_def
  proof
    assume "list_all2 grown (incidents t) (incidents u)"
    with t grown_above show ?thesis by (fastforce simp: list_all2_conv_all_nth in_set_conv_nth)
  qed (use t in auto)
qed

text \<open>
  Severities only escalate. Whatever requests, readings and workflow activities run on the incidents,
  statement by statement: an incident stays in the table with its type, station and time, its severity
  never falls, and once resolved it stays resolved; and of incidents filed through the service every one
  has a known type and severity, at least as high as the least its type allows (an SOS is always critical).
\<close>

theorem incident_severity_escalates:
  assumes "incident_step\<^sup>*\<^sup>* s t"
  shows "(\<forall>i \<in> set (incidents s). \<exists>j \<in> set (incidents t). in_id j = in_id i \<and> in_type j = in_type i \<and>
      in_station_id j = in_station_id i \<and> in_opened_at j = in_opened_at i \<and> rank (in_severity i) \<le> rank (in_severity j) \<and>
      (in_status i = ''resolved'' \<longrightarrow> in_status j = ''resolved'')) \<and>
    (incidents s = [] \<longrightarrow> (\<forall>j \<in> set (incidents t). severityRank (in_severity j) \<noteq> None \<and>
      (\<exists>f. incidentTypeFloor (in_type j) = Some f \<and> rank f \<le> rank (in_severity j))))"
  using incident_run_grows [OF assms] incident_run_above [OF assms] unfolding grown_def above_floor_def
  by (intro conjI ballI impI) fastforce+

definition no_hooks :: hook_store where
  "no_hooks = \<lparr>webhook_subscriptions = [], webhook_deliveries = [], hook_sent = []\<rparr>"

text \<open>Two stations, one of them in maintenance, and a driver on duty.\<close>

definition plant :: safety_store where
  "plant = \<lparr>incidents = [], sf_queue = three_buses\<lparr>station_queue := []\<rparr>, sf_dispatch = depot True, telemetry = [], sf_hooks = no_hooks,
     sf_events = [], sf_signals = []\<rparr>"

definition fire :: create_incident_req where
  "fire = \<lparr>ci_type = ''fire'', ci_severity = ''low'', ci_bus_id = None, ci_station_id = Some ''S'', ci_description = [], ci_meta = []\<rparr>"

lemma fire_request: "open_request (Some fire) = Inr (fire\<lparr>ci_severity := ''critical''\<rparr>)"
  by (simp add: open_request_def fire_def applySeverityFloor_def incidentTypeFloor_def)

lemma fire_insert:
  "insertIncident id_env ''open incident'' (fire\<lparr>ci_severity := ''critical''\<rparr>) plant =
     (Some \<lparr>in_id = ''x'', in_type = ''fire'', in_severity = ''critical'', in_bus_id = None, in_station_id = Some ''S'', in_status = ''open'',
        in_opened_at = to_micros 1000, in_meta = [], in_resolved_at = None\<rparr>,
      plant\<lparr>incidents := [\<lparr>in_id = ''x'', in_type = ''fire'', in_severity = ''critical'', in_bus_id = None, in_station_id = Some ''S'',
        in_status = ''open'', in_opened_at = to_micros 1000, in_meta = [], in_resolved_at = None\<rparr>]\<rparr>)"
  by (simp add: insertIncident_def fire_def plant_def three_buses_def id_env_facts Let_def)

theorem incident_severity_escalates_witness:
  "\<exists>t j. incident_step\<^sup>*\<^sup>* plant t \<and> incidents t = [j] \<and> in_severity j = ''critical'' \<and>
     incidentTypeFloor (in_type j) = Some ''critical'' \<and> severityRank (in_severity j) \<noteq> None"
proof -
  let ?t = "snd (insertIncident id_env ''open incident'' (fire\<lparr>ci_severity := ''critical''\<rparr>) plant)"
  have run: "incident_step\<^sup>*\<^sup>* plant ?t" using step_open [OF fire_request] by blast
  obtain j where t: "incidents ?t = [j]" and j: "in_type j = ''fire''" "in_severity j = ''critical''"
    unfolding fire_insert snd_conv by simp
  have "incidents plant = []" by (simp add: plant_def)
  with incident_severity_escalates [OF run, THEN conjunct2] have "severityRank (in_severity j) \<noteq> None" unfolding t by simp
  with run t j show ?thesis by (intro exI [of _ ?t] exI [of _ j]) (simp add: incidentTypeFloor_def)
qed

section \<open>Stations under a critical incident\<close>

definition shut :: "string \<Rightarrow> safety_store \<Rightarrow> bool" where
  "shut sid s \<longleftrightarrow> (\<forall>st \<in> set (fuel_stations (sf_queue s)). fs_id st = sid \<longrightarrow> fs_status st \<noteq> Some ''online'')"

text \<open>The station of an incident that is critical: nothing reopens it while the incident is unresolved.\<close>

definition guarded :: "string \<Rightarrow> string \<Rightarrow> safety_store \<Rightarrow> bool" where
  "guarded iid sid s \<longleftrightarrow> iid \<in> in_id ` set (incidents s) \<and> sid \<in> fs_id ` set (fuel_stations (sf_queue s)) \<and>
     (\<forall>i \<in> set (incidents s). in_id i = iid \<longrightarrow> in_station_id i = Some sid \<and> in_severity i = ''critical'' \<and>
        (active_incident i \<longrightarrow> shut sid s))"

lemma upd_stations_frame [simp]:
  "incidents (upd_stations P f s) = incidents s" "sf_hooks (upd_stations P f s) = sf_hooks s"
  "fuel_stations (sf_queue (upd_stations P f s)) = upd_rows P f (fuel_stations (sf_queue s))"
  by (simp_all add: upd_stations_def)

lemma emergency_stations:
  "\<exists>P. fuel_stations (sf_queue (setStationEmergency E i s)) =
     upd_rows P (\<lambda>st. st\<lparr>fs_status := Some ''emergency''\<rparr>) (fuel_stations (sf_queue s)) \<and>
   incidents (setStationEmergency E i s) = incidents s"
proof -
  have same: "upd_rows (\<lambda>_. False) f xs = xs" for f :: "fuel_station \<Rightarrow> fuel_station" and xs by (simp add: upd_rows_none)
  define Q where "Q t \<longleftrightarrow> (\<exists>P. fuel_stations (sf_queue t) =
     upd_rows P (\<lambda>st. st\<lparr>fs_status := Some ''emergency''\<rparr>) (fuel_stations (sf_queue s)) \<and> incidents t = incidents s)" for t :: safety_store
  have keep: "Q s" unfolding Q_def by (rule exI [of _ "\<lambda>_. False"]) (simp add: same)
  have flip: "Q (safety_emit E x y (upd_stations P (\<lambda>st. st\<lparr>fs_status := Some ''emergency''\<rparr>) s))" for x y P
    unfolding Q_def by (rule exI [of _ P]) simp
  have "Q (setStationEmergency E i s)"
    unfolding setStationEmergency_def Let_def by (intro branches [where P = Q] keep flip)
  then show ?thesis by (simp add: Q_def)
qed

lemma emergency_keeps_shut: "shut sid s \<Longrightarrow> shut sid (setStationEmergency E i s)"
  using emergency_stations [of E i s] by (auto simp: shut_def dest!: set_upd_rowsD split: if_splits)

lemma emergency_shuts:
  assumes "in_severity i = ''critical''" "in_station_id i = Some sid" "\<not> fault E ''failed to set station emergency''"
  shows "shut sid (setStationEmergency E i s)"
proof -
  let ?hit = "\<lambda>st. fs_id st = sid \<and> fs_status st \<noteq> None \<and> fs_status st \<noteq> Some ''emergency''"
  show ?thesis
  proof (cases "find ?hit (fuel_stations (sf_queue s))")
    case None
    then have "setStationEmergency E i s = s" using assms by (simp add: setStationEmergency_def Let_def)
    moreover have "\<not> ?hit st" if "st \<in> set (fuel_stations (sf_queue s))" for st
      using None that unfolding find_None_iff by blast
    ultimately show ?thesis unfolding shut_def by force
  next
    case (Some a)
    then have "fuel_stations (sf_queue (setStationEmergency E i s)) =
        upd_rows ?hit (\<lambda>st. st\<lparr>fs_status := Some ''emergency''\<rparr>) (fuel_stations (sf_queue s))"
      using assms by (simp add: setStationEmergency_def Let_def)
    then show ?thesis by (auto simp: shut_def dest!: set_upd_rowsD split: if_splits)
  qed
qed

lemma shut_cong:
  assumes "map (\<lambda>st. (fs_id st, fs_status st)) (fuel_stations (sf_queue t)) = map (\<lambda>st. (fs_id st, fs_status st)) (fuel_stations (sf_queue s))"
  shows "shut sid t = shut sid s"
proof -
  have "shut sid u \<longleftrightarrow> (sid, Some ''online'') \<notin> set (map (\<lambda>st. (fs_id st, fs_status st)) (fuel_stations (sf_queue u)))" for u
    by (auto simp: shut_def)
  then show ?thesis using assms by presburger
qed

text \<open>
  Requests and activities one after the other, every one of them with any failures of its statements: opening, leak
  readings (folded into an incident or not), an SOS, acknowledging, resolving, the pick-up, escalation and closing by
  the workflow, creating a station, setting a station's status by hand, and whatever leaves incidents, station
  ids and station statuses alone (the station queue among it). The parameter is the set of stations that nobody sets
  online by hand.
\<close>

inductive safety_run :: "string set \<Rightarrow> safety_store \<Rightarrow> safety_store \<Rightarrow> bool" for held where
  run_open: "safety_run held s (snd (OpenIncident E H body s))"
| run_leak: "safety_run held s (snd (IngestLeak E H leak s))"
| run_sos: "safety_run held s (snd (TriggerSOS E H c sos s))"
| run_ack: "safety_run held s (snd (AckIncident E iid s))"
| run_resolve: "safety_run held s (snd (ResolveIncident E H iid s))"
| run_progress: "safety_run held s (snd (SetIncidentInProgress E iid s))"
| run_escalate: "safety_run held s (snd (EscalateIncident E iid s))"
| run_close: "safety_run held s (snd (MarkIncidentResolved E iid s))"
| run_station: "safety_run held s (snd (CreateStation E station s))"
| run_status: "sid \<in> held \<Longrightarrow> map_option sr_status status \<noteq> Some ''online'' \<Longrightarrow> safety_run held s (snd (UpdateStationStatus E sid status s))"
| run_status_other: "sid \<notin> held \<Longrightarrow> safety_run held s (snd (UpdateStationStatus E sid status s))"
| run_other: "incidents t = incidents s \<Longrightarrow>
    map (\<lambda>st. (fs_id st, fs_status st)) (fuel_stations (sf_queue t)) = map (\<lambda>st. (fs_id st, fs_status st)) (fuel_stations (sf_queue s)) \<Longrightarrow>
    safety_run held s t"

text \<open>What keeps a station guarded: updates that neither revive nor downgrade incidents, new incidents under new ids,
  and changes of stations that leave it shut.\<close>

lemma guarded_stations:
  assumes "guarded iid sid s" "incidents t = incidents s"
    "fs_id ` set (fuel_stations (sf_queue s)) \<subseteq> fs_id ` set (fuel_stations (sf_queue t))"
    "\<And>i. i \<in> set (incidents s) \<Longrightarrow> in_station_id i = Some sid \<Longrightarrow> in_severity i = ''critical'' \<Longrightarrow> active_incident i \<Longrightarrow> shut sid s \<Longrightarrow> shut sid t"
  shows "guarded iid sid t"
  using assms unfolding guarded_def by auto

lemma guarded_same: "guarded iid sid s \<Longrightarrow> incidents t = incidents s \<Longrightarrow> sf_queue t = sf_queue s \<Longrightarrow> guarded iid sid t"
  by (simp add: guarded_def shut_def)

lemma guarded_update:
  assumes "guarded iid sid s" "\<And>i. in_id (f i) = in_id i" "\<And>i. in_station_id (f i) = in_station_id i"
    "\<And>i. in_severity i = ''critical'' \<Longrightarrow> in_severity (f i) = ''critical''" "\<And>i. P i \<Longrightarrow> active_incident (f i) \<Longrightarrow> active_incident i"
  shows "guarded iid sid (s\<lparr>incidents := upd_rows P f (incidents s)\<rparr>)"
proof -
  have "map in_id (upd_rows P f (incidents s)) = map in_id (incidents s)" using assms(2) by (simp add: map_upd_rows)
  then have "in_id ` set (upd_rows P f (incidents s)) = in_id ` set (incidents s)" by (metis list.set_map)
  moreover have "in_station_id j = Some sid \<and> in_severity j = ''critical'' \<and> (active_incident j \<longrightarrow> shut sid s)"
    if j: "j \<in> set (upd_rows P f (incidents s))" "in_id j = iid" for j
  proof -
    obtain i where i: "i \<in> set (incidents s)" "j = (if P i then f i else i)" using set_upd_rowsD [OF j(1)] by blast
    then have "in_id i = iid" using j(2) assms(2) by (simp split: if_splits)
    with i(1) assms(1) have "in_station_id i = Some sid" "in_severity i = ''critical''" "active_incident i \<longrightarrow> shut sid s"
      unfolding guarded_def by blast+
    with i(2) assms(3-5) show ?thesis by (auto split: if_splits)
  qed
  ultimately show ?thesis using assms(1) by (simp add: guarded_def shut_def)
qed

lemma insert_cases:
  assumes "insertIncident E op req s = (x, s1)"
  shows "x = None \<and> s1 = s \<or> (\<exists>i. x = Some i \<and> incidents s1 = incidents s @ [i] \<and> sf_queue s1 = sf_queue s \<and> in_id i \<notin> in_id ` set (incidents s) \<and>
    in_status i = ''open'' \<and> (\<forall>st. in_station_id i = Some st \<longrightarrow> st \<in> fs_id ` set (fuel_stations (sf_queue s))))"
  using assms by (auto simp: insertIncident_def Let_def split: if_splits option.splits)

lemma guarded_insert:
  assumes "guarded iid sid s" "insertIncident E op req s = (x, s1)"
  shows "guarded iid sid s1"
  using insert_cases [OF assms(2)] assms(1) by (auto simp: guarded_def shut_def)

lemma emergency_ids: "fs_id ` set (fuel_stations (sf_queue (setStationEmergency E i s))) = fs_id ` set (fuel_stations (sf_queue s))"
proof -
  obtain P where P: "fuel_stations (sf_queue (setStationEmergency E i s)) =
      upd_rows P (\<lambda>st. st\<lparr>fs_status := Some ''emergency''\<rparr>) (fuel_stations (sf_queue s))" using emergency_stations by blast
  have "map fs_id (fuel_stations (sf_queue (setStationEmergency E i s))) = map fs_id (fuel_stations (sf_queue s))"
    unfolding P by (simp add: map_upd_rows)
  then show ?thesis by (metis list.set_map)
qed

lemma guarded_opened: "guarded iid sid s \<Longrightarrow> guarded iid sid (afterIncidentOpened E H i s)"
proof -
  assume g: "guarded iid sid s"
  have "guarded iid sid (setStationEmergency E i s)"
    using emergency_stations [of E i s] emergency_ids [of E i s] emergency_keeps_shut [of sid s E i] by (intro guarded_stations [OF g]) auto
  then show ?thesis by (rule guarded_same) (simp_all add: afterIncidentOpened_def Let_def)
qed

lemma guarded_restore: "guarded iid sid s \<Longrightarrow> guarded iid sid (maybeRestoreStation E sid' s)"
proof -
  assume g: "guarded iid sid s"
  let ?hit = "\<lambda>st. fs_id st = sid' \<and> fs_status st = Some ''emergency'' \<and>
            \<not> (\<exists>i \<in> set (incidents s). in_station_id i = Some sid' \<and> in_severity i = ''critical'' \<and> active_incident i)"
  let ?u = "upd_stations ?hit (\<lambda>st. st\<lparr>fs_status := Some ''online''\<rparr>) s"
  have "map fs_id (fuel_stations (sf_queue ?u)) = map fs_id (fuel_stations (sf_queue s))" by (simp add: map_upd_rows)
  then have ids: "fs_id ` set (fuel_stations (sf_queue ?u)) = fs_id ` set (fuel_stations (sf_queue s))" by (metis list.set_map)
  have "shut sid ?u" if "i \<in> set (incidents s)" "in_station_id i = Some sid" "in_severity i = ''critical''" "active_incident i" "shut sid s" for i
    using that by (auto simp: shut_def dest!: set_upd_rowsD split: if_splits)
  then have "guarded iid sid ?u" using ids by (intro guarded_stations [OF g]) auto
  then have "guarded iid sid (safety_emit E x y ?u)" for x y by (rule guarded_same) simp_all
  with g show ?thesis by (auto simp: maybeRestoreStation_def Let_def split: option.split)
qed

lemma guarded_fold: "guarded iid sid s \<Longrightarrow> leak_fold E req s = (r, s1) \<Longrightarrow> guarded iid sid s1"
proof -
  assume g: "guarded iid sid s" and run: "leak_fold E req s = (r, s1)"
  have "guarded iid sid (s\<lparr>incidents := upd_rows P (fold_reading E sev ppm) (incidents s)\<rparr>)" for P sev ppm
    by (rule guarded_update [OF g]) (auto simp: fold_reading_def Let_def active_incident_def severityRank_def split: option.splits if_splits)
  with g run show ?thesis by (auto simp: leak_fold_def Let_def split: if_splits)
qed

lemma guarded_leak: "guarded iid sid s \<Longrightarrow> guarded iid sid (snd (IngestLeak E H body s))"
proof -
  assume g: "guarded iid sid s"
  have opened: "guarded iid sid (snd (leak_open E H req t))" if t: "guarded iid sid t" for req t
  proof -
    obtain x t1 where x: "insertIncident E ''ingest leak event'' (leak_incident req) t = (x, t1)" by (rule prod.exhaust)
    have "guarded iid sid t1" by (rule guarded_insert [OF t x])
    then have "guarded iid sid (safety_signal E a b c (safety_emit E d e t1))" for a b c d e by (rule guarded_same) simp_all
    with x t insert_cases [OF x] show ?thesis by (cases x) (simp_all add: leak_open_def Let_def guarded_opened guarded_insert [OF t x])
  qed
  show ?thesis
  proof (cases body)
    case (Some req)
    obtain r s1 where f: "leak_fold E req s = (r, s1)" by (rule prod.exhaust)
    from guarded_fold [OF g f] opened [of s1 req] g show ?thesis
      by (auto simp: IngestLeak_def Some f split: sum.split option.split)
  qed (use g in \<open>simp add: IngestLeak_def\<close>)
qed

lemma guarded_open: "guarded iid sid s \<Longrightarrow> guarded iid sid (snd (OpenIncident E H body s))"
proof -
  assume g: "guarded iid sid s"
  have "guarded iid sid t1" if "insertIncident E ''open incident'' req s = (x, t1)" for req x t1 by (rule guarded_insert [OF g that])
  with g show ?thesis by (auto simp: OpenIncident_def intro: guarded_opened split: sum.split prod.split option.split)
qed

lemma guarded_sos: "guarded iid sid s \<Longrightarrow> guarded iid sid (snd (TriggerSOS E H c body s))"
proof -
  assume g: "guarded iid sid s"
  define P where "P r \<longleftrightarrow> guarded iid sid (snd r)" for r :: "incident resp \<times> safety_store"
  have keep: "P (r, s)" for r using g by (simp add: P_def)
  have opened: "P (sos_open E H subject job meta s)" for subject job meta
  proof -
    obtain x t1 where x: "insertIncident E ''open sos incident'' (sos_incident (fst job) meta) s = (x, t1)" by (rule prod.exhaust)
    have g1: "guarded iid sid t1" by (rule guarded_insert [OF g x])
    then have "guarded iid sid (safety_signal E a b c (safety_emit E d e t1))" for a b c d e by (rule guarded_same) simp_all
    with x g1 show ?thesis by (cases x) (simp_all add: P_def sos_open_def Let_def guarded_opened)
  qed
  have "P (TriggerSOS E H c body s)" unfolding TriggerSOS_def Let_def by (intro branches [where P = P] keep opened)
  then show ?thesis by (simp add: P_def)
qed

lemma guarded_resolve: "guarded iid sid s \<Longrightarrow> guarded iid sid (snd (ResolveIncident E H jid s))"
proof -
  assume g: "guarded iid sid s"
  obtain r s1 where m: "resolve_mark E jid s = (r, s1)" by (rule prod.exhaust)
  have "guarded iid sid (s\<lparr>incidents := upd_rows P (\<lambda>i. i\<lparr>in_status := ''resolved'', in_resolved_at := x\<rparr>) (incidents s)\<rparr>)" for P x
    by (rule guarded_update [OF g]) (simp_all add: active_incident_def)
  with g m have s1: "guarded iid sid s1" by (auto simp: resolve_mark_def Let_def split: if_splits option.splits)
  then have sig: "guarded iid sid (safety_signal E jid x y s1)" for x y by (rule guarded_same) simp_all
  have hk: "guarded iid sid (t\<lparr>sf_hooks := h\<rparr>) = guarded iid sid t" for t h by (simp add: guarded_def shut_def)
  show ?thesis using s1 sig guarded_restore by (cases r) (auto simp: ResolveIncident_def m Let_def hk split: option.split)
qed

lemma guarded_status:
  assumes "guarded iid sid s" "sid' = sid \<Longrightarrow> map_option sr_status body \<noteq> Some ''online''"
  shows "guarded iid sid (snd (UpdateStationStatus E sid' body s))"
proof (cases body)
  case (Some req)
  let ?mark = "\<lambda>st. st\<lparr>fs_status := Some (sr_status req),
      fs_available_kg := (case sr_available_kg req of None \<Rightarrow> fs_available_kg st | Some v \<Rightarrow> Some v),
      fs_available_kwh := (case sr_available_kwh req of None \<Rightarrow> fs_available_kwh st | Some v \<Rightarrow> Some v)\<rparr>"
  let ?u = "upd_stations (\<lambda>st. fs_id st = sid') ?mark s"
  have "map fs_id (fuel_stations (sf_queue ?u)) = map fs_id (fuel_stations (sf_queue s))" by (simp add: map_upd_rows)
  then have ids: "fs_id ` set (fuel_stations (sf_queue ?u)) = fs_id ` set (fuel_stations (sf_queue s))" by (metis list.set_map)
  have "shut sid ?u" if "shut sid s"
    using that assms(2) Some by (auto simp: shut_def dest!: set_upd_rowsD split: if_splits)
  then have "guarded iid sid ?u" using ids by (intro guarded_stations [OF assms(1)]) auto
  then have upd: "guarded iid sid (safety_emit E x y ?u)" for x y by (rule guarded_same) simp_all
  define P where "P r \<longleftrightarrow> guarded iid sid (snd r)" for r :: "fuel_station resp \<times> safety_store"
  have keep: "P (r, s)" "P (r, safety_emit E x y ?u)" for r x y using assms(1) upd by (simp_all add: P_def)
  have "P (UpdateStationStatus E sid' body s)"
    unfolding Some UpdateStationStatus_def Let_def option.case(2) by (intro branches [where P = P] keep)
  then show ?thesis by (simp add: P_def)
qed (use assms(1) in \<open>simp add: UpdateStationStatus_def\<close>)

lemma guarded_station: "guarded iid sid s \<Longrightarrow> guarded iid sid (snd (CreateStation E body s))"
proof -
  assume g: "guarded iid sid s"
  have "guarded iid sid (s\<lparr>sf_queue := (sf_queue s)\<lparr>fuel_stations := fuel_stations (sf_queue s) @ [st]\<rparr>\<rparr>)"
    if "fs_id st \<notin> fs_id ` set (fuel_stations (sf_queue s))" for st
    using g that by (intro guarded_stations [OF g]) (auto simp: shut_def guarded_def)
  with g show ?thesis by (auto simp: CreateStation_def Let_def split: option.split)
qed

lemma safety_run_guarded: "safety_run held s t \<Longrightarrow> sid \<in> held \<Longrightarrow> guarded iid sid s \<Longrightarrow> guarded iid sid t"
proof (induction rule: safety_run.induct)
  case (run_ack s E jid)
  then have "guarded iid sid (s\<lparr>incidents := upd_rows (\<lambda>i. in_id i = jid \<and> in_status i \<in> {''open'', ''in_progress''})
      (\<lambda>i. i\<lparr>in_status := ''acknowledged''\<rparr>) (incidents s)\<rparr>)"
    by (intro guarded_update) (auto simp: active_incident_def)
  then have "guarded iid sid (safety_signal E jid a b (s\<lparr>incidents := upd_rows (\<lambda>i. in_id i = jid \<and> in_status i \<in> {''open'', ''in_progress''})
      (\<lambda>i. i\<lparr>in_status := ''acknowledged''\<rparr>) (incidents s)\<rparr>))" for a b by (rule guarded_same) simp_all
  with run_ack(2) show ?case by (auto simp: AckIncident_def Let_def split: option.split)
next
  case (run_progress s E jid)
  then have "guarded iid sid (s\<lparr>incidents := upd_rows (\<lambda>i. in_id i = jid \<and> in_status i \<in> {''open'', ''acknowledged''})
      (\<lambda>i. i\<lparr>in_status := ''in_progress''\<rparr>) (incidents s)\<rparr>)"
    by (intro guarded_update) (auto simp: active_incident_def)
  then show ?case using run_progress by (simp add: SetIncidentInProgress_def)
next
  case (run_escalate s E jid)
  then have "guarded iid sid (s\<lparr>incidents := upd_rows (\<lambda>i. in_id i = jid \<and> in_status i \<noteq> ''resolved'')
      (\<lambda>i. i\<lparr>in_severity := bump_severity (in_severity i)\<rparr>) (incidents s)\<rparr>)"
    by (intro guarded_update) (simp_all add: active_incident_def bump_severity_def)
  then show ?case using run_escalate by (simp add: EscalateIncident_def)
next
  case (run_close s E jid)
  then have "guarded iid sid (s\<lparr>incidents := upd_rows (\<lambda>i. in_id i = jid \<and> in_status i \<noteq> ''resolved'')
      (\<lambda>i. i\<lparr>in_status := ''resolved''\<rparr>) (incidents s)\<rparr>)"
    by (intro guarded_update) (simp_all add: active_incident_def)
  then show ?case using run_close by (simp add: MarkIncidentResolved_def)
next
  case (run_status sid' status s E)
  then show ?case by (intro guarded_status)
next
  case (run_status_other sid' s E status)
  then show ?case by (intro guarded_status) auto
next
  case (run_other t s)
  have "set (map fst (map (\<lambda>st. (fs_id st, fs_status st)) (fuel_stations (sf_queue t)))) =
      set (map fst (map (\<lambda>st. (fs_id st, fs_status st)) (fuel_stations (sf_queue s))))" using run_other(2) by simp
  then have "fs_id ` set (fuel_stations (sf_queue t)) = fs_id ` set (fuel_stations (sf_queue s))" by (simp add: image_image)
  with run_other(1,4) shut_cong [OF run_other(2)] show ?case by (simp add: guarded_def)
qed (simp_all add: guarded_open guarded_leak guarded_sos guarded_resolve guarded_station)

lemma guarded_start:
  assumes "insertIncident E op req s = (Some i, s1)" "incidents s2 = incidents s1" "sf_queue s2 = sf_queue s1"
    "in_station_id i = Some sid" "in_severity i = ''critical''" "\<not> fault E ''failed to set station emergency''"
  shows "guarded (in_id i) sid (afterIncidentOpened E H i s2)"
proof -
  from insert_cases [OF assms(1)] have s1: "incidents s2 = incidents s @ [i]" "in_id i \<notin> in_id ` set (incidents s)"
    "sid \<in> fs_id ` set (fuel_stations (sf_queue s2))" using assms(2-4) by auto
  have "shut sid (setStationEmergency E i s2)" by (rule emergency_shuts [OF assms(5,4,6)])
  then have "guarded (in_id i) sid (setStationEmergency E i s2)"
    using s1 emergency_stations [of E i s2] emergency_ids [of E i s2] assms(4,5) by (auto simp: guarded_def image_iff)
  then show ?thesis by (rule guarded_same) (simp_all add: afterIncidentOpened_def Let_def)
qed

lemma opened_guarded:
  assumes "OpenIncident E H body s = (Reply n i, s1) \<or> IngestLeak E H leak s = (Reply n (i, False), s1)"
    "in_station_id i = Some sid" "in_severity i = ''critical''" "\<not> fault E ''failed to set station emergency''"
  shows "guarded (in_id i) sid s1"
  using assms(1)
proof
  assume run: "OpenIncident E H body s = (Reply n i, s1)"
  then obtain req t where "open_request body = Inr req" "insertIncident E ''open incident'' req s = (Some i, t)" "s1 = afterIncidentOpened E H i t"
    by (auto simp: OpenIncident_def open_request_def Let_def split: sum.splits prod.splits option.splits if_splits)
  with guarded_start [OF _ refl refl assms(2-4)] show ?thesis by simp
next
  assume run: "IngestLeak E H leak s = (Reply n (i, False), s1)"
  then obtain req t where "leak_open E H req t = (Reply n (i, False), s1)"
    by (auto simp: IngestLeak_def split: sum.splits prod.splits option.splits if_splits)
  then obtain u a b c d e where "insertIncident E ''ingest leak event'' (leak_incident req) t = (Some i, u)"
    "s1 = afterIncidentOpened E H i (safety_signal E a b c (safety_emit E d e u))"
    by (auto simp: leak_open_def Let_def split: prod.splits option.splits)
  with guarded_start [OF _ _ _ assms(2-4)] show ?thesis by simp
qed

lemma shut_refuses_join:
  assumes "shut sid s" "JoinStationQueue E fl sid body (sf_queue s) = (r, q)"
  shows "q = sf_queue s \<and> (\<forall>n v. r \<noteq> Reply n v)"
proof -
  have "\<exists>r. join_count E sid body (sf_queue s) = Inl r \<and> (\<forall>n v. r \<noteq> Reply n v)"
    using assms(1) by (auto simp: join_count_def shut_def Let_def dest!: find_Some_prop split: option.split)
  with assms(2) show ?thesis by (auto simp: JoinStationQueue_def)
qed

text \<open>
  C27. No bus is sent into an emergency that was reported as one: once an incident at a station has been opened with
  severity critical (by an operator, or by the first reading of a leak) and the update that closes the station did
  not fail, no request to join the station's queue succeeds or changes the queue until that incident is resolved. In
  between any requests may be made one after the other, with any failures: further incidents, repeated leak readings, an SOS,
  acknowledgements, resolutions of the station's other incidents, escalations and other activities of the workflow, new
  stations, changes of station statuses. The one exception is an operator who sets this station online by hand,
  which the code allows. An incident that becomes critical later, by a repeated reading or by escalation, does not
  close its station (\<open>escalated_leak_keeps_station_open\<close> below).
\<close>

theorem no_refuelling_under_critical_incident:
  assumes "OpenIncident E0 H body s = (Reply n i, s1) \<or> IngestLeak E0 H leak s = (Reply n (i, False), s1)"
    and "in_station_id i = Some sid" and "in_severity i = ''critical''" and "\<not> fault E0 ''failed to set station emergency''"
    and "(safety_run {sid})\<^sup>*\<^sup>* s1 t"
    and "j \<in> set (incidents t)" and "in_id j = in_id i" and "in_status j \<in> {''open'', ''in_progress'', ''acknowledged''}"
    and "JoinStationQueue E fl sid bus (sf_queue t) = (r, q)"
  shows "q = sf_queue t \<and> (\<forall>n v. r \<noteq> Reply n v)"
proof -
  have "guarded (in_id i) sid s1" by (rule opened_guarded [OF assms(1-4)])
  with assms(5) have "guarded (in_id i) sid t" by (induction rule: rtranclp_induct) (auto intro: safety_run_guarded)
  then have "shut sid t" using assms(6-8) by (auto simp: guarded_def active_incident_def)
  from shut_refuses_join [OF this assms(9)] show ?thesis .
qed

theorem no_refuelling_under_critical_incident_witness:
  "\<exists>t. (safety_run {''S''})\<^sup>*\<^sup>* (snd (OpenIncident id_env (hook_demo 200) (Some fire) plant)) t \<and> map in_status (incidents t) = [''acknowledged''] \<and>
     (\<forall>n v. fst (JoinStationQueue id_env id ''S'' (Some ''1'') (sf_queue t)) \<noteq> Reply n v)"
proof -
  let ?s = "snd (OpenIncident id_env (hook_demo 200) (Some fire) plant)"
  let ?t = "snd (AckIncident id_env ''x'' ?s)"
  let ?i = "\<lparr>in_id = ''x'', in_type = ''fire'', in_severity = ''critical'', in_bus_id = None, in_station_id = Some ''S'',
        in_status = ''open'', in_opened_at = to_micros 1000, in_meta = [], in_resolved_at = None\<rparr>"
  have opened: "OpenIncident id_env (hook_demo 200) (Some fire) plant = (Reply 201 ?i, ?s)"
    unfolding OpenIncident_def fire_request sum.case fire_insert by simp
  have "incidents ?s = [?i]"
    unfolding OpenIncident_def fire_request sum.case fire_insert
    using emergency_stations by (simp add: afterIncidentOpened_def Let_def plant_def)
  then have t: "incidents ?t = [?i\<lparr>in_status := ''acknowledged''\<rparr>]" by (simp add: AckIncident_def Let_def id_env_facts)
  have run: "(safety_run {''S''})\<^sup>*\<^sup>* ?s ?t" using run_ack [of "{''S''}"] by blast
  obtain r q where j: "JoinStationQueue id_env id ''S'' (Some ''1'') (sf_queue ?t) = (r, q)" by (rule prod.exhaust)
  have "\<forall>n v. r \<noteq> Reply n v"
    using no_refuelling_under_critical_incident [of id_env "hook_demo 200" "Some fire" plant 201 ?i ?s None "''S''" ?t "?i\<lparr>in_status := ''acknowledged''\<rparr>"
        id_env id "Some ''1''" r q] opened run t j id_env_facts(1) by simp
  with run t j show ?thesis by (intro exI [of _ ?t]) simp
qed

section \<open>What the station misses\<close>

lemma fold_keeps_stations: "sf_queue (snd (leak_fold E req s)) = sf_queue s" "sf_hooks (snd (leak_fold E req s)) = sf_hooks s"
  by (simp_all add: leak_fold_def Let_def)

definition whiff :: "rat \<Rightarrow> leak_req" where
  "whiff ppm = \<lparr>lk_sensor_id = ''h2'', lk_station_id = Some ''S'', lk_bus_id = None, lk_severity = ''low'', lk_h2_ppm = Some ppm, lk_location = []\<rparr>"

definition small_leak :: incident where
  "small_leak = \<lparr>in_id = ''x'', in_type = ''h2_leak'', in_severity = ''low'', in_bus_id = None, in_station_id = Some ''S'', in_status = ''open'',
     in_opened_at = to_micros 1000, in_meta = ci_meta (leak_incident (whiff 500)), in_resolved_at = None\<rparr>"

lemma whiff_opens:
  assumes "s = snd (IngestLeak id_env H (Some (whiff 500)) plant)"
  shows "incidents s = [small_leak]" "sf_queue s = sf_queue plant"
  by (simp_all add: assms small_leak_def IngestLeak_def leak_fold_def leak_open_def insertIncident_def leak_incident_def whiff_def plant_def
      three_buses_def id_env_facts leakSeverity_def severityFromPpm_def afterIncidentOpened_def setStationEmergency_def Let_def)

lemma small_leak_hit: "same_leak id_env ''h2'' small_leak"
  by (simp add: same_leak_def small_leak_def leak_incident_def whiff_def sensor_text_def active_incident_def id_env_facts)

lemma small_leak_readings: "next_reading (in_meta small_leak) = Some 2"
  by (simp add: next_reading_def small_leak_def leak_incident_def whiff_def)

lemma plant_joins: "\<exists>e x q. JoinStationQueue id_env id ''S'' (Some ''1'') (sf_queue plant) = (Reply 201 (e, x), q)"
  by (simp add: JoinStationQueue_def join_count_def join_insert_def plant_def three_buses_def id_env_facts Let_def)

text \<open>
  An escalation does not close the station. A sensor at a station reports 500 ppm, which opens an incident
  of low severity; the next reading within half an hour is folded into it. A reading of 20000 ppm or more
  makes the incident critical, and the station stays online and still lets buses join its queue; no
  webhook is sent and the response workflow is not signalled.
\<close>

theorem escalated_leak_keeps_station_open:
  assumes "ppm \<ge> 20000" and "s = snd (IngestLeak id_env H (Some (whiff 500)) plant)"
    and "IngestLeak id_env H (Some (whiff ppm)) s = (r, t)"
  shows "\<exists>i. r = Reply 200 (i, True) \<and> in_severity i = ''critical'' \<and> incidents t = [i] \<and>
    sf_hooks t = sf_hooks s \<and> sf_signals t = sf_signals s \<and>
    map fs_status (fuel_stations (sf_queue t)) = [Some ''online''] \<and>
    (\<exists>e x q. JoinStationQueue id_env id ''S'' (Some ''1'') (sf_queue t) = (Reply 201 (e, x), q))"
proof -
  note s = whiff_opens [OF assms(2)]
  let ?i = "fold_reading id_env ''critical'' (Some ppm) small_leak"
  have sev: "leakSeverity (lk_severity (whiff ppm)) (lk_h2_ppm (whiff ppm)) = ''critical''"
    using assms(1) by (simp add: whiff_def leakSeverity_def severityFromPpm_def)
  have "leak_fold id_env (whiff ppm) s = (Inr (Some ?i), s\<lparr>incidents := [?i]\<rparr>)"
    using small_leak_hit small_leak_readings sev s(1) by (simp add: leak_fold_def id_env_facts Let_def whiff_def)
  then have rt: "r = Reply 200 (?i, True)" "t = s\<lparr>incidents := [?i]\<rparr>" using assms(3) by (auto simp: IngestLeak_def whiff_def)
  have "in_severity ?i = ''critical''" by (simp add: fold_reading_def small_leak_def Let_def)
  moreover have "map fs_status (fuel_stations (sf_queue plant)) = [Some ''online'']" by (simp add: plant_def three_buses_def)
  ultimately show ?thesis using rt s(2) plant_joins by (intro exI [of _ ?i]) simp
qed

theorem escalated_leak_keeps_station_open_witness:
  "\<exists>i. fst (IngestLeak id_env (hook_demo 200) (Some (whiff 30000)) (snd (IngestLeak id_env (hook_demo 200) (Some (whiff 500)) plant))) =
     Reply 200 (i, True) \<and> in_severity i = ''critical''"
proof -
  let ?s = "snd (IngestLeak id_env (hook_demo 200) (Some (whiff 500)) plant)"
  obtain r t where rt: "IngestLeak id_env (hook_demo 200) (Some (whiff 30000)) ?s = (r, t)" by (rule prod.exhaust)
  have "(30000 :: rat) \<ge> 20000" by simp
  from escalated_leak_keeps_station_open [OF this refl rt] show ?thesis unfolding rt fst_conv by blast
qed

text \<open>The workflow's escalation does not close it either: the activity only writes the severity.\<close>

lemma workflow_escalation_keeps_stations: "sf_queue (snd (EscalateIncident E iid s)) = sf_queue s"
  by (simp add: EscalateIncident_def)

text \<open>
  Resolving reopens a station that was closed before the incident: the status the station had is not kept.
\<close>

definition closed_plant :: safety_store where
  "closed_plant = upd_stations (\<lambda>_. True) (\<lambda>st. st\<lparr>fs_status := Some ''maintenance''\<rparr>) plant"

lemma resolved_incident_reopens_station:
  "let s = snd (OpenIncident id_env (hook_demo 200) (Some fire) closed_plant);
       t = snd (ResolveIncident id_env (hook_demo 200) ''x'' s) in
   map fs_status (fuel_stations (sf_queue closed_plant)) = [Some ''maintenance''] \<and>
   map fs_status (fuel_stations (sf_queue s)) = [Some ''emergency''] \<and>
   map fs_status (fuel_stations (sf_queue t)) = [Some ''online'']"
  by (simp add: closed_plant_def upd_stations_def plant_def three_buses_def OpenIncident_def open_request_def
      applySeverityFloor_def incidentTypeFloor_def insertIncident_def fire_def id_env_facts
      afterIncidentOpened_def setStationEmergency_def ResolveIncident_def resolve_mark_def active_incident_def maybeRestoreStation_def
      safety_emit_def safety_signal_def Let_def)

text \<open>A driver's SOS fails when the last telemetry of the driver's bus has no position.\<close>

lemma sos_needs_position:
  assumes "Subject c \<noteq> []" "fst (sos_job (Subject c) s) = Some v" "last_position v s = Inl ()"
  shows "\<exists>op. TriggerSOS E H c None s = (Internal op, s)"
  using assms by (simp add: TriggerSOS_def Let_def)

end
