(* ===== verification/Evidence.thy ===== *)
theory Evidence
  imports Incidents AuditLog
begin

text \<open>
  The evidence pack of an incident (src/services/go/infra-api/internal/handlers/evidence.go): the incident, its slice
  of the audit trail with the linkage check, the telemetry around it and the webhook deliveries. The
  audit trail is the table of \<open>AuditLog\<close>; the main result says exactly when the check calls a slice of an
  untampered trail intact.
\<close>

section \<open>The pack\<close>

record evidence_pack =
  ep_incident :: incident
  ep_generated_at :: string
  ep_audit_slice :: "entry list"
  ep_checked_rows :: nat
  ep_intact :: bool
  ep_break_at :: "int option"
  ep_telemetry :: "telemetry_row list option"
  ep_deliveries :: "(webhook_delivery \<times> string) list"

definition audit_slice :: "string \<Rightarrow> audit_db \<Rightarrow> entry list" where
  "audit_slice iid db = sort_key en_id (filter (\<lambda>e. en_entity_id e = iid) (audit_log db))"

text \<open>The first row of a slice that does not follow the row before it.\<close>

fun slice_break :: "entry list \<Rightarrow> int option" where
  "slice_break (a # b # es) = (if en_prev_hash b \<noteq> en_hash a then Some (en_id b) else slice_break (b # es))"
| "slice_break es = None"

text \<open>The entry before the slice, which anchors its first row; the genesis row has no hash before it.\<close>

definition anchor_hash :: "entry \<Rightarrow> audit_db \<Rightarrow> string" where
  "anchor_hash e db =
     (case rev (sort_key en_id (filter (\<lambda>x. en_id x < en_id e) (audit_log db))) of [] \<Rightarrow> [] | p # _ \<Rightarrow> en_hash p)"

definition linkage :: "entry list \<Rightarrow> audit_db \<Rightarrow> int option" where
  "linkage rows db =
     (case slice_break rows of
        Some k \<Rightarrow> Some k
      | None \<Rightarrow> (case rows of [] \<Rightarrow> None | e # _ \<Rightarrow> if en_prev_hash e \<noteq> anchor_hash e db then Some (en_id e) else None))"

definition telemetry_window :: "string \<Rightarrow> int \<Rightarrow> safety_store \<Rightarrow> telemetry_row list" where
  "telemetry_window bus t s =
     take 2000 (sort_key tl_ts (filter (\<lambda>r. tl_bus_id r = bus \<and> t - 15 * 60 * 1000000000 \<le> tl_ts r \<and> tl_ts r \<le> t + 15 * 60 * 1000000000) (telemetry s)))"

text \<open>Scanning a telemetry row fails on a null column.\<close>

definition complete_row :: "telemetry_row \<Rightarrow> bool" where
  "complete_row r \<longleftrightarrow> tl_speed_kph r \<noteq> None \<and> tl_h2_level_pct r \<noteq> None \<and> tl_fuel_cell_kw r \<noteq> None \<and>
     tl_battery_soc_pct r \<noteq> None \<and> tl_geom r \<noteq> None"

definition delivery_record :: "string \<Rightarrow> hook_store \<Rightarrow> (webhook_delivery \<times> string) list" where
  "delivery_record iid h =
     concat (map (\<lambda>d. map (\<lambda>w. (d, ws_url w)) (filter (\<lambda>w. ws_id w = wd_subscription_id d) (webhook_subscriptions h)))
       (sort_key wd_created_at (filter (\<lambda>d. wd_incident_id d = iid) (webhook_deliveries h))))"

definition GetEvidencePack :: "db_env \<Rightarrow> string \<Rightarrow> audit_db \<Rightarrow> safety_store \<Rightarrow> evidence_pack resp" where
  "GetEvidencePack E iid db s =
     (if fault E ''load incident for evidence pack'' then Internal ''load incident for evidence pack''
      else case find (\<lambda>i. in_id i = iid) (incidents s) of
        None \<Rightarrow> Err 404 ''incident not found''
      | Some i \<Rightarrow>
          let rows = audit_slice iid db;
              brk = linkage rows db;
              window = map_option (\<lambda>b. telemetry_window b (in_opened_at i) s) (in_bus_id i) in
          if fault E ''load audit slice'' then Internal ''load audit slice''
          else if fault E ''scan audit slice'' then Internal ''scan audit slice''
          else if fault E ''iterate audit slice'' then Internal ''iterate audit slice''
          else if slice_break rows = None \<and> rows \<noteq> [] \<and> fault E ''verify slice anchor'' then Internal ''verify slice anchor''
          else if window \<noteq> None \<and> fault E ''load telemetry window'' then Internal ''load telemetry window''
          else if window \<noteq> None \<and> (fault E ''scan telemetry window'' \<or> \<not> list_all complete_row (coalesce window []))
          then Internal ''scan telemetry window''
          else if window \<noteq> None \<and> fault E ''iterate telemetry window'' then Internal ''iterate telemetry window''
          else if fault E ''load webhook deliveries'' then Internal ''load webhook deliveries''
          else if fault E ''scan webhook delivery'' then Internal ''scan webhook delivery''
          else if fault E ''iterate webhook deliveries'' then Internal ''iterate webhook deliveries''
          else Reply 200 \<lparr>ep_incident = i, ep_generated_at = rfc3339 (now E), ep_audit_slice = rows, ep_checked_rows = length rows,
                 ep_intact = (brk = None), ep_break_at = brk, ep_telemetry = window, ep_deliveries = delivery_record iid (sf_hooks s)\<rparr>)"

section \<open>Linkage of an untampered trail\<close>

lemma chained_pred: "chained sha prev es \<Longrightarrow> f \<in> set (tl es) \<Longrightarrow> \<exists>p \<in> set es. en_prev_hash f = en_hash p"
proof (induction es arbitrary: prev rule: list.induct)
  case (Cons e es)
  note IH = Cons.IH and prems = Cons.prems
  show ?case
  proof (cases "es \<noteq> [] \<and> f = hd es")
    case True
    then show ?thesis using prems(1) by (cases es) auto
  next
    case False
    then have "f \<in> set (tl es)" using prems(2) by (cases es) auto
    with IH prems(1) show ?thesis by fastforce
  qed
qed simp

lemma filter_hd: "filter P es = f # fs \<Longrightarrow> P f"
  by (metis filter_eq_ConsD)

lemma filter_skips: "\<not> P e2 \<Longrightarrow> filter P (e2 # es) = f # fs \<Longrightarrow> f \<in> set es"
  by (metis filter.simps(2) filter_is_subset list.set_intros(1) subsetD)

lemma linked_prefix:
  assumes "chained sha prev es" "distinct (map en_hash es)" "es \<noteq> []" "P (hd es)"
  shows "slice_break (filter P es) = None \<longleftrightarrow> (\<exists>ys. es = filter P es @ ys)"
  using assms
proof (induction es arbitrary: prev rule: list.induct)
  case (Cons e es)
  note IH = Cons.IH and prems = Cons.prems
  show ?case
  proof (cases "filter P es")
    case (Cons f fs)
    then obtain e2 es2 where es: "es = e2 # es2" by (cases es) auto
    have prev: "en_prev_hash e2 = en_hash e" "chained sha (en_hash e) es" using prems(1) es by auto
    show ?thesis
    proof (cases "P e2")
      case True
      then have f: "f = e2" using Cons es by simp
      have "slice_break (filter P es) = None \<longleftrightarrow> (\<exists>ys. es = filter P es @ ys)"
        by (rule IH [OF prev(2)]) (use prems es True in auto)
      then show ?thesis using prems(4) Cons f prev(1) by simp
    next
      case False
      have "f \<in> set (tl es)" using filter_skips [of P e2 es2 f fs] False Cons es by simp
      from chained_pred [OF prev(2) this] obtain p where "p \<in> set es" "en_prev_hash f = en_hash p" by blast
      then have "en_prev_hash f \<noteq> en_hash e" using prems(2) by (force simp: image_iff)
      moreover have "e2 \<noteq> f" using Cons False filter_hd [of P es f fs] by blast
      ultimately show ?thesis using prems(4) Cons es by simp
    qed
  qed (use prems in simp)
qed simp

text \<open>The filtered rows form a segment exactly when they are a prefix of what follows the skipped rows.\<close>

lemma filter_segment:
  assumes "filter P es \<noteq> []"
  shows "(\<exists>xs ys. es = xs @ filter P es @ ys) \<longleftrightarrow> (\<exists>ys. dropWhile (\<lambda>e. \<not> P e) es = filter P es @ ys)"
proof
  assume "\<exists>xs ys. es = xs @ filter P es @ ys"
  then obtain xs ys where e: "es = xs @ filter P es @ ys" by blast
  have "length (filter P es) = length (filter P xs) + length (filter P es) + length (filter P ys)"
    using arg_cong [OF e, of "\<lambda>z. length (filter P z)"] by simp
  then have xs: "filter P xs = []" by simp
  have "P (hd (filter P es))" using assms filter_hd [of P es] by (metis list.exhaust_sel)
  then have "dropWhile (\<lambda>e. \<not> P e) (filter P es @ ys) = filter P es @ ys" using assms by (cases "filter P es") auto
  moreover have "dropWhile (\<lambda>e. \<not> P e) (xs @ zs) = dropWhile (\<lambda>e. \<not> P e) zs" for zs
    using xs by (intro dropWhile_append2) (auto simp: filter_empty_conv)
  ultimately show "\<exists>ys. dropWhile (\<lambda>e. \<not> P e) es = filter P es @ ys" using e by metis
next
  assume "\<exists>ys. dropWhile (\<lambda>e. \<not> P e) es = filter P es @ ys"
  then show "\<exists>xs ys. es = xs @ filter P es @ ys" by (metis takeWhile_dropWhile_id)
qed

lemma filter_dropWhile: "filter P (dropWhile (\<lambda>e. \<not> P e) es) = filter P es"
  by (induction es) auto

lemma slice_linked:
  assumes "chained sha [] es" "distinct (map en_hash es)"
  shows "slice_break (filter P es) = None \<longleftrightarrow> (\<exists>xs ys. es = xs @ filter P es @ ys)"
proof (cases "filter P es = []")
  case False
  let ?d = "dropWhile (\<lambda>e. \<not> P e) es"
  have split: "es = takeWhile (\<lambda>e. \<not> P e) es @ ?d" by simp
  have "?d \<noteq> []" using False filter_dropWhile [of P es] by (metis filter.simps(1))
  then have "P (hd ?d)" using hd_dropWhile [of "\<lambda>e. \<not> P e" es] by blast
  moreover obtain prev where "chained sha prev ?d" using assms(1) split chained_append by metis
  moreover have "distinct (map en_hash ?d)" using assms(2) split by (metis distinct_append map_append)
  ultimately have "slice_break (filter P ?d) = None \<longleftrightarrow> (\<exists>ys. ?d = filter P ?d @ ys)"
    using \<open>?d \<noteq> []\<close> by (intro linked_prefix)
  then show ?thesis using filter_segment [OF False] filter_dropWhile [of P es] by simp
next
  case True
  then show ?thesis by (auto intro: exI [of _ es])
qed

lemma anchor_ok:
  assumes "chained sha [] (audit_log db)" "sorted_wrt (<) (map en_id (audit_log db))" "e \<in> set (audit_log db)"
  shows "en_prev_hash e = anchor_hash e db"
proof -
  from assms(3) obtain xs ys where es: "audit_log db = xs @ e # ys" by (meson split_list)
  have before: "en_id x < en_id e" if "x \<in> set xs" for x using assms(2) that by (auto simp: es sorted_wrt_append)
  have "\<not> en_id y < en_id e" if "y \<in> set (e # ys)" for y using assms(2) that by (fastforce simp: es sorted_wrt_append)
  then have f: "filter (\<lambda>x. en_id x < en_id e) (audit_log db) = xs" using before by (simp add: es filter_empty_conv)
  have "sorted (map en_id xs)" using assms(2) by (auto simp: es sorted_wrt_append strict_sorted_iff)
  then have "anchor_hash e db = (if xs = [] then [] else en_hash (last xs))"
    unfolding anchor_hash_def f by (simp add: sort_key_id_if_sorted last_rev hd_rev split: list.split)
  moreover have "en_prev_hash e = (if xs = [] then [] else en_hash (last xs))" using assms(1) by (simp add: es chained_append)
  ultimately show ?thesis by simp
qed

lemma audit_slice_filter:
  "sorted_wrt (<) (map en_id (audit_log db)) \<Longrightarrow> audit_slice iid db = filter (\<lambda>e. en_entity_id e = iid) (audit_log db)"
  unfolding audit_slice_def by (intro sort_key_id_if_sorted sorted_filter) (simp add: strict_sorted_iff)

lemma evidence_fields:
  assumes "GetEvidencePack E iid db s = Reply n p"
  shows "ep_audit_slice p = audit_slice iid db" "ep_break_at p = linkage (audit_slice iid db) db" "ep_intact p \<longleftrightarrow> ep_break_at p = None"
proof -
  define Q where "Q r \<longleftrightarrow> (\<forall>n p. r = Reply n p \<longrightarrow> ep_audit_slice p = audit_slice iid db \<and>
    ep_break_at p = linkage (audit_slice iid db) db \<and> (ep_intact p \<longleftrightarrow> ep_break_at p = None))" for r :: "evidence_pack resp"
  have "Q (GetEvidencePack E iid db s)"
    unfolding GetEvidencePack_def Let_def by (intro branches [where P = Q]) (simp_all add: Q_def)
  with assms show "ep_audit_slice p = audit_slice iid db" "ep_break_at p = linkage (audit_slice iid db) db"
    "ep_intact p \<longleftrightarrow> ep_break_at p = None" by (simp_all add: Q_def)
qed

text \<open>
  C29. When the pack calls a slice intact: on an untampered audit trail (every hash is the chain hash of its
  row and its predecessor, and no two hashes collide) the linkage check succeeds exactly when the entries
  about the incident are consecutive in the whole trail. An unrelated entry between two of them makes the
  pack report a broken chain of custody.
\<close>

theorem evidence_intact_iff_consecutive:
  assumes "chained sha [] (audit_log db)" and "distinct (map en_hash (audit_log db))"
    and "sorted_wrt (<) (map en_id (audit_log db))" and "GetEvidencePack E iid db s = Reply 200 p"
  shows "ep_intact p \<longleftrightarrow> (\<exists>xs ys. audit_log db = xs @ filter (\<lambda>e. en_entity_id e = iid) (audit_log db) @ ys)"
proof -
  let ?f = "filter (\<lambda>e. en_entity_id e = iid) (audit_log db)"
  have f: "audit_slice iid db = ?f" by (rule audit_slice_filter [OF assms(3)])
  have anchor: "en_prev_hash e = anchor_hash e db" if "?f = e # es" for e es
  proof (rule anchor_ok [OF assms(1,3)])
    from that have "e \<in> set ?f" by simp
    then show "e \<in> set (audit_log db)" by simp
  qed
  have "ep_intact p \<longleftrightarrow> slice_break ?f = None"
    using evidence_fields [OF assms(4)] anchor by (auto simp: f linkage_def split: option.split list.split)
  with slice_linked [OF assms(1,2)] show ?thesis by simp
qed

text \<open>A trail of three entries, the second about something else.\<close>

definition sealed :: "entry \<Rightarrow> int \<Rightarrow> string \<Rightarrow> entry" where
  "sealed e n prev = e\<lparr>en_id := n, en_prev_hash := prev, en_hash := ChainHash (\<lambda>x. x) prev e\<rparr>"

lemma sealed_fields [simp]:
  "en_id (sealed e n prev) = n" "en_prev_hash (sealed e n prev) = prev" "en_hash (sealed e n prev) = ChainHash (\<lambda>x. x) prev e"
  "en_entity_id (sealed e n prev) = en_entity_id e" "ChainHash h p (sealed e n prev) = ChainHash h p e"
  by (simp_all add: sealed_def ChainHash_def chain_fields_def)

lemma chain_hash_longer: "length prev < length (ChainHash (\<lambda>x. x) prev e)"
  by (simp add: ChainHash_def chain_fields_def writeField_def)

definition custody :: audit_db where
  "custody =
     (let about = login\<lparr>en_entity_id := ''x''\<rparr>; h1 = ChainHash (\<lambda>x. x) [] about; h2 = ChainHash (\<lambda>x. x) h1 login in
      \<lparr>audit_log = [sealed about 1 [], sealed login 2 h1, sealed about 3 h2], next_serial = 4\<rparr>)"

definition burning :: safety_store where
  "burning = snd (insertIncident id_env ''open incident'' (fire\<lparr>ci_severity := ''critical''\<rparr>) plant)"

theorem evidence_intact_iff_consecutive_witness:
  "\<exists>p. GetEvidencePack id_env ''x'' custody burning = Reply 200 p \<and> length (ep_audit_slice p) = 2 \<and> \<not> ep_intact p"
proof -
  let ?about = "login\<lparr>en_entity_id := ''x''\<rparr>"
  let ?h1 = "ChainHash (\<lambda>x. x) [] ?about" and ?h2 = "ChainHash (\<lambda>x. x) (ChainHash (\<lambda>x. x) [] ?about) login"
  have log: "audit_log custody = [sealed ?about 1 [], sealed login 2 ?h1, sealed ?about 3 ?h2]" by (simp add: custody_def Let_def)
  have ch: "chained (\<lambda>x. x) [] (audit_log custody)" unfolding log by simp
  have "?h1 \<noteq> ?h2" "?h2 \<noteq> ChainHash (\<lambda>x. x) ?h2 ?about" "?h1 \<noteq> ChainHash (\<lambda>x. x) ?h2 ?about"
    using chain_hash_longer [of ?h1 login] chain_hash_longer [of ?h2 ?about] by (metis less_irrefl, metis less_irrefl, metis less_asym)
  then have d: "distinct (map en_hash (audit_log custody))" unfolding log by simp
  have o: "sorted_wrt (<) (map en_id (audit_log custody))" unfolding log by simp
  have f: "filter (\<lambda>e. en_entity_id e = ''x'') (audit_log custody) = [sealed ?about 1 [], sealed ?about 3 ?h2]"
    unfolding log by (simp add: login_def)
  have "\<exists>p. GetEvidencePack id_env ''x'' custody burning = Reply 200 p"
    unfolding GetEvidencePack_def burning_def fire_insert by (simp add: id_env_facts Let_def)
  then obtain p where p: "GetEvidencePack id_env ''x'' custody burning = Reply 200 p" by blast
  have "map en_id (audit_log custody) \<noteq> map en_id (xs @ [sealed ?about 1 [], sealed ?about 3 ?h2] @ ys)" for xs ys
    unfolding log by (cases xs) (auto simp: Cons_eq_append_conv)
  then have "\<not> ep_intact p" unfolding evidence_intact_iff_consecutive [OF ch d o p] f by metis
  moreover have "length (ep_audit_slice p) = 2" using evidence_fields(1) [OF p] audit_slice_filter [OF o] f by simp
  ultimately show ?thesis using p by blast
qed

end
