(* ===== verification/Drt.thy ===== *)
theory Drt
  imports Dispatch Fleet
begin

text \<open>
  Demand-responsive transport of citizen-api (src/services/go/citizen-api/internal/handlers/drt.go) and the automatic
  assignment of vehicles (src/services/go/citizen-api/internal/consumers/drt.go). Assigning validates the vehicle in
  one statement and writes in another, and cancelling reads before it writes, so both are split. Vehicles,
  telemetry and dispatch jobs are the rows of \<open>Fleet\<close> and \<open>Dispatch\<close>; the distance of two positions is a
  parameter. A text that is not a uuid is one of the faults of its statement.
\<close>

section \<open>Requests\<close>

record drt_request =
  rq_id :: string
  rq_user_sub :: string
  rq_pickup :: "rat \<times> rat"
  rq_dropoff :: "rat \<times> rat"
  rq_pickup_label :: string
  rq_dropoff_label :: string
  rq_passengers :: int
  rq_requires_wheelchair :: bool
  rq_vehicle_id :: "string option"
  rq_driver_sub :: "string option"
  rq_assigned_at :: "int option"
  rq_status :: string
  rq_requested_at :: int

record drt_store =
  drt_requests :: "drt_request list"
  drt_fleet :: fleet_store
  drt_dispatch :: dispatch_store
  drt_events :: "(string \<times> (string \<times> json) list) list"

definition drt_emit :: "db_env \<Rightarrow> string \<Rightarrow> (string \<times> json) list \<Rightarrow> drt_store \<Rightarrow> drt_store" where
  "drt_emit E topic payload s =
     (if pub_fault E topic then s else s\<lparr>drt_events := drt_events s @ [(topic, payload)]\<rparr>)"

text \<open>Without a configured database every endpoint answers 503.\<close>

abbreviation no_db :: "db_env \<Rightarrow> bool" where
  "no_db E \<equiv> fault E ''DATABASE_URL unset''"

definition no_db_err :: "'a resp" where
  "no_db_err = Err 503 ''database not configured (DATABASE_URL unset)''"

record create_drt_req =
  cd_pickup :: "rat \<times> rat"
  cd_dropoff :: "rat \<times> rat"
  cd_pickup_label :: string
  cd_dropoff_label :: string
  cd_passengers :: int
  cd_requires_wheelchair :: bool

definition point_json :: "rat \<times> rat \<Rightarrow> json" where
  "point_json p = JObj [(''lat'', JFloat (fst p)), (''lon'', JFloat (snd p))]"

definition CreateDRTRequest :: "db_env \<Rightarrow> ctx \<Rightarrow> create_drt_req option \<Rightarrow> drt_store \<Rightarrow> drt_request resp \<times> drt_store" where
  "CreateDRTRequest E c body s =
     (if no_db E then (no_db_err, s)
      else case body of
        None \<Rightarrow> (Err 400 ''invalid JSON body'', s)
      | Some req \<Rightarrow>
          if cd_pickup req = (0, 0) then (Err 400 ''pickup {lat,lon} is required'', s)
          else if cd_passengers req < 0 \<or> cd_passengers req > 20 then (Err 400 ''passengers must be between 1 and 20'', s)
          else if Subject c = [] then (Err 401 ''authenticated subject required'', s)
          else
            let d = \<lparr>rq_id = new_id E 0, rq_user_sub = Subject c, rq_pickup = cd_pickup req, rq_dropoff = cd_dropoff req,
                     rq_pickup_label = cd_pickup_label req, rq_dropoff_label = cd_dropoff_label req,
                     rq_passengers = (if cd_passengers req = 0 then 1 else cd_passengers req),
                     rq_requires_wheelchair = cd_requires_wheelchair req, rq_vehicle_id = None, rq_driver_sub = None,
                     rq_assigned_at = None, rq_status = ''requested'', rq_requested_at = to_micros (now E)\<rparr> in
            if fault E ''create drt request'' \<or> rq_id d \<in> rq_id ` set (drt_requests s) then (Internal ''create drt request'', s)
            else (Reply 201 d, drt_emit E ''drt.requested''
                   [(''request_id'', JStr (rq_id d)), (''user_sub'', JStr (rq_user_sub d)), (''pickup'', point_json (rq_pickup d)),
                    (''dropoff'', point_json (rq_dropoff d)), (''requested_at'', JStr (rfc3339 (rq_requested_at d)))]
                   (s\<lparr>drt_requests := drt_requests s @ [d]\<rparr>)))"

section \<open>Reading\<close>

definition ListDRTRequests :: "db_env \<Rightarrow> ctx \<Rightarrow> string \<Rightarrow> drt_store \<Rightarrow> drt_request list resp" where
  "ListDRTRequests E c user_sub s =
     (let userSub = (if user_sub = [] \<or> \<not> hasRole c ''operator'' then Subject c else user_sub) in
      if no_db E then no_db_err
      else if userSub = [] then Err 400 ''user_sub required''
      else if fault E ''list drt requests'' then Internal ''list drt requests''
      else if fault E ''scan drt request'' then Internal ''scan drt request''
      else if fault E ''iterate drt requests'' then Internal ''iterate drt requests''
      else Reply 200 (newest rq_requested_at 100 (filter (\<lambda>d. rq_user_sub d = userSub) (drt_requests s))))"

definition may_see :: "ctx \<Rightarrow> drt_request \<Rightarrow> bool" where
  "may_see c d \<longleftrightarrow> rq_user_sub d = Subject c \<or> HasAnyRole c [''operator'', ''platform-admin'']"

definition GetDRTRequest :: "db_env \<Rightarrow> ctx \<Rightarrow> string \<Rightarrow> drt_store \<Rightarrow> drt_request resp" where
  "GetDRTRequest E c rid s =
     (if no_db E then no_db_err
      else if fault E ''get drt request'' then Internal ''get drt request''
      else case find (\<lambda>d. rq_id d = rid) (drt_requests s) of
        None \<Rightarrow> Err 404 ''request not found''
      | Some d \<Rightarrow> if may_see c d then Reply 200 d else Err 404 ''request not found'')"

section \<open>Cancelling\<close>

definition cancel_check :: "db_env \<Rightarrow> ctx \<Rightarrow> string \<Rightarrow> drt_store \<Rightarrow> drt_request resp option" where
  "cancel_check E c rid s =
     (if no_db E then Some no_db_err
      else if fault E ''load drt request'' then Some (Internal ''load drt request'')
      else case find (\<lambda>d. rq_id d = rid) (drt_requests s) of
        None \<Rightarrow> Some (Err 404 ''request not found'')
      | Some d \<Rightarrow>
          if \<not> may_see c d then Some (Err 404 ''request not found'')
          else if rq_status d \<noteq> ''requested'' \<and> rq_status d \<noteq> ''assigned''
          then Some (Err 409 (''request cannot be cancelled in status '' @ rq_status d))
          else None)"

definition cancel_write :: "db_env \<Rightarrow> string \<Rightarrow> drt_store \<Rightarrow> drt_request resp \<times> drt_store" where
  "cancel_write E rid s =
     (let hit = (\<lambda>d. rq_id d = rid \<and> rq_status d \<in> {''requested'', ''assigned''});
          mark = (\<lambda>d. d\<lparr>rq_status := ''cancelled''\<rparr>) in
      if fault E ''cancel drt request'' then (Internal ''cancel drt request'', s)
      else case find hit (drt_requests s) of
        None \<Rightarrow> (Internal ''cancel drt request'', s)
      | Some d \<Rightarrow> (Reply 200 (mark d), s\<lparr>drt_requests := upd_rows hit mark (drt_requests s)\<rparr>))"

definition CancelDRTRequest :: "db_env \<Rightarrow> ctx \<Rightarrow> string \<Rightarrow> drt_store \<Rightarrow> drt_request resp \<times> drt_store" where
  "CancelDRTRequest E c rid s = (case cancel_check E c rid s of Some r \<Rightarrow> (r, s) | None \<Rightarrow> cancel_write E rid s)"

section \<open>Assigning\<close>

datatype drt_error = NotAssignable | VehicleBusy | WheelchairMismatch | UnknownVehicle | VehicleForeignKey | DrtFailure

definition dispatchBusyWindowMinutes :: int where
  "dispatchBusyWindowMinutes = 30"

definition dispatch_busy :: "db_env \<Rightarrow> string \<Rightarrow> drt_store \<Rightarrow> bool" where
  "dispatch_busy E v s \<longleftrightarrow> (\<exists>j \<in> set (dispatch_jobs (drt_dispatch s)). dj_vehicle_id j = Some v \<and> active_job j \<and>
     (case dj_starts_at j of None \<Rightarrow> True | Some t \<Rightarrow> t < to_micros (now E) + dispatchBusyWindowMinutes * 60000000000) \<and>
     (case dj_ends_at j of None \<Rightarrow> True | Some t \<Rightarrow> t > to_micros (now E)))"

definition validateAssignVehicle :: "db_env \<Rightarrow> string \<Rightarrow> string \<Rightarrow> drt_store \<Rightarrow> drt_error option" where
  "validateAssignVehicle E rid v s =
     (if fault E ''validate drt vehicle'' then Some DrtFailure
      else case find (\<lambda>d. rq_id d = rid) (drt_requests s) of
        None \<Rightarrow> Some NotAssignable
      | Some d \<Rightarrow>
          (case find (\<lambda>x. vh_id x = v) (vehicles (drt_fleet s)) of
             None \<Rightarrow> Some UnknownVehicle
           | Some x \<Rightarrow>
               if rq_requires_wheelchair d \<and> \<not> vh_wheelchair_accessible x then Some WheelchairMismatch
               else if dispatch_busy E v s then Some VehicleBusy
               else None))"

definition assign_write :: "db_env \<Rightarrow> string \<Rightarrow> string \<Rightarrow> string \<Rightarrow> drt_store \<Rightarrow> drt_error option \<times> drt_store" where
  "assign_write E rid v driverSub s =
     (let hit = (\<lambda>d. rq_id d = rid \<and> rq_status d = ''requested'');
          mark = (\<lambda>d. d\<lparr>rq_status := ''assigned'', rq_vehicle_id := Some v, rq_driver_sub := (if driverSub = [] then None else Some driverSub),
                       rq_assigned_at := Some (to_micros (now E))\<rparr>) in
      if fault E ''assign drt vehicle'' then (Some DrtFailure, s)
      else if \<not> list_ex hit (drt_requests s) then (Some NotAssignable, s)
      else if v \<notin> vh_id ` set (vehicles (drt_fleet s)) then (Some VehicleForeignKey, s)
      else (None, s\<lparr>drt_requests := upd_rows hit mark (drt_requests s)\<rparr>))"

definition AssignDRT :: "db_env \<Rightarrow> string \<Rightarrow> string \<Rightarrow> string \<Rightarrow> drt_store \<Rightarrow> drt_error option \<times> drt_store" where
  "AssignDRT E rid v driverSub s =
     (case validateAssignVehicle E rid v s of Some e \<Rightarrow> (Some e, s) | None \<Rightarrow> assign_write E rid v driverSub s)"

fun assign_error :: "drt_error \<Rightarrow> drt_request resp" where
  "assign_error NotAssignable = Err 409 ''request not found or not in requested status''"
| "assign_error WheelchairMismatch = Err 422 ''request requires a wheelchair-accessible vehicle''"
| "assign_error VehicleBusy = Err 409 ''vehicle has an overlapping active dispatch job''"
| "assign_error UnknownVehicle = Err 422 ''vehicle_id does not reference a known vehicle''"
| "assign_error VehicleForeignKey = Err 422 ''vehicle_id does not reference a known vehicle''"
| "assign_error DrtFailure = Internal ''assign drt request''"

definition AssignDRTRequest ::
  "db_env \<Rightarrow> string \<Rightarrow> (string \<times> string) option \<Rightarrow> drt_store \<Rightarrow> drt_request resp \<times> drt_store" where
  "AssignDRTRequest E rid body s =
     (if no_db E then (no_db_err, s)
      else case body of
        None \<Rightarrow> (Err 400 ''body must include \"vehicle_id\"'', s)
      | Some (v, driverSub) \<Rightarrow>
          if v = [] then (Err 400 ''body must include \"vehicle_id\"'', s)
          else (case AssignDRT E rid v driverSub s of
             (Some e, s1) \<Rightarrow> (assign_error e, s1)
           | (None, s1) \<Rightarrow>
               if fault E ''reload drt request'' then (Internal ''reload drt request'', s1)
               else (case find (\<lambda>d. rq_id d = rid) (drt_requests s1) of
                  None \<Rightarrow> (Internal ''reload drt request'', s1)
                | Some d \<Rightarrow> (Reply 200 d, drt_emit E ''drt.assigned''
                    [(''request_id'', JStr (rq_id d)), (''user_sub'', JStr (rq_user_sub d)), (''vehicle_id'', opt_str (rq_vehicle_id d)),
                     (''driver_sub'', opt_str (rq_driver_sub d)), (''assigned_at'', JStr (rfc3339 (now E)))] s1))))"

text \<open>The two endpoints of \<open>ProgressDRTRequest\<close>.\<close>

definition ProgressDRTRequest :: "db_env \<Rightarrow> string \<Rightarrow> string \<Rightarrow> drt_store \<Rightarrow> drt_request resp \<times> drt_store" where
  "ProgressDRTRequest E path rid s =
     (case (if has_suffix path ''/start'' then Some (''assigned'', ''enroute'')
            else if has_suffix path ''/complete'' then Some (''enroute'', ''completed'') else None) of
        None \<Rightarrow> (if no_db E then no_db_err else Err 404 ''unknown DRT progression'', s)
      | Some (source, target) \<Rightarrow>
          let hit = (\<lambda>d. rq_id d = rid \<and> rq_status d = source); mark = (\<lambda>d. d\<lparr>rq_status := target\<rparr>) in
          if no_db E then (no_db_err, s)
          else if fault E ''progress drt request'' then (Internal ''progress drt request'', s)
          else (case find hit (drt_requests s) of
             None \<Rightarrow> (Err 409 (''request not found or not in '' @ source @ '' status''), s)
           | Some d \<Rightarrow> (Reply 200 (mark d), s\<lparr>drt_requests := upd_rows hit mark (drt_requests s)\<rparr>)))"

section \<open>Automatic assignment\<close>

definition drt_busy :: "string \<Rightarrow> drt_store \<Rightarrow> bool" where
  "drt_busy v s \<longleftrightarrow> (\<exists>r \<in> set (drt_requests s). rq_vehicle_id r = Some v \<and> rq_status r \<in> {''assigned'', ''enroute''})"

definition eligible :: "db_env \<Rightarrow> bool \<Rightarrow> drt_store \<Rightarrow> vehicle \<Rightarrow> bool" where
  "eligible E requiresWheelchair s v \<longleftrightarrow> vh_status v = ''active'' \<and> (requiresWheelchair \<longrightarrow> vh_wheelchair_accessible v) \<and>
     \<not> drt_busy (vh_id v) s \<and> \<not> dispatch_busy E (vh_id v) s"

text \<open>The distance of a vehicle by its latest telemetry; nothing without a position.\<close>

definition vehicle_distance :: "(rat \<times> rat \<Rightarrow> rat \<times> rat \<Rightarrow> rat) \<Rightarrow> rat \<times> rat \<Rightarrow> drt_store \<Rightarrow> vehicle \<Rightarrow> rat option" where
  "vehicle_distance away pos s v = Option.bind (latest_of (fleet_telemetry (drt_fleet s)) (vh_id v)) (\<lambda>t. map_option (away pos) (tl_geom t))"

text \<open>\<open>ORDER BY distance NULLS LAST LIMIT 1\<close>.\<close>

definition PickVehicle ::
  "db_env \<Rightarrow> (rat \<times> rat \<Rightarrow> rat \<times> rat \<Rightarrow> rat) \<Rightarrow> rat \<times> rat \<Rightarrow> bool \<Rightarrow> drt_store \<Rightarrow> string option" where
  "PickVehicle E away pos requiresWheelchair s =
     (let cands = filter (eligible E requiresWheelchair s) (vehicles (drt_fleet s));
          located = sort_key (\<lambda>v. the (vehicle_distance away pos s v)) (filter (\<lambda>v. vehicle_distance away pos s v \<noteq> None) cands) in
      case located @ filter (\<lambda>v. vehicle_distance away pos s v = None) cands of [] \<Rightarrow> None | v # _ \<Rightarrow> Some (vh_id v))"

text \<open>An event: the request, the rider and the pickup. The result says whether the offset is committed.\<close>

definition AutoAssign ::
  "db_env \<Rightarrow> (rat \<times> rat \<Rightarrow> rat \<times> rat \<Rightarrow> rat) \<Rightarrow> string \<times> string \<times> (rat \<times> rat) \<Rightarrow> drt_store \<Rightarrow> bool \<times> drt_store" where
  "AutoAssign E away e s =
     (case e of (rid, userSub, pos) \<Rightarrow>
        if rid = [] then (False, s)
        else if fault E ''load drt accessibility'' then (False, s)
        else (case find (\<lambda>d. rq_id d = rid) (drt_requests s) of
           None \<Rightarrow> (True, s)
         | Some d \<Rightarrow>
             if fault E ''pick drt vehicle'' then (False, s)
             else (case PickVehicle E away pos (rq_requires_wheelchair d) s of
                None \<Rightarrow> (True, s)
              | Some v \<Rightarrow>
                  (case AssignDRT E rid v [] s of
                     (Some err, s1) \<Rightarrow> (err \<in> {NotAssignable, VehicleBusy, WheelchairMismatch}, s1)
                   | (None, s1) \<Rightarrow> (True, drt_emit E ''drt.assigned''
                       [(''request_id'', JStr rid), (''user_sub'', JStr userSub), (''vehicle_id'', JStr v),
                        (''assigned_at'', JStr (rfc3339 (now E))), (''auto'', JBool True)] s1)))))"

datatype drt_message = BadDrt | DrtRequested "string \<times> string \<times> (rat \<times> rat)"

fun consume_drt ::
  "db_env \<Rightarrow> (rat \<times> rat \<Rightarrow> rat \<times> rat \<Rightarrow> rat) \<Rightarrow> nat \<times> drt_message \<Rightarrow> drt_store \<times> nat \<Rightarrow> drt_store \<times> nat" where
  "consume_drt E away (off, BadDrt) (s, k) = (s, Suc off)"
| "consume_drt E away (off, DrtRequested e) (s, k) =
     (case AutoAssign E away e s of (ok, s') \<Rightarrow> (s', if ok then Suc off else k))"

section \<open>Steps of concurrent requests\<close>

text \<open>
  The second component are the assignments in flight: request and vehicle that passed the validation and
  are not yet written. Dispatch jobs and telemetry may change at any time, vehicles stay.
\<close>

inductive drt_step :: "drt_store \<times> (string \<times> string) set \<Rightarrow> drt_store \<times> (string \<times> string) set \<Rightarrow> bool" where
  step_request: "drt_step (s, V) (snd (CreateDRTRequest E c body s), V)"
| step_cancel: "drt_step (s, V) (snd (cancel_write E rid s), V)"
| step_validate: "validateAssignVehicle E rid v s = None \<Longrightarrow> drt_step (s, V) (s, insert (rid, v) V)"
| step_assign: "(rid, v) \<in> V \<Longrightarrow> drt_step (s, V) (snd (assign_write E rid v driverSub s), V)"
| step_move: "drt_step (s, V) (snd (ProgressDRTRequest E path rid s), V)"
| step_outside: "drt_requests t = drt_requests s \<Longrightarrow> vehicles (drt_fleet t) = vehicles (drt_fleet s) \<Longrightarrow> drt_step (s, V) (t, V)"

definition accessible :: "drt_store \<Rightarrow> string \<Rightarrow> bool" where
  "accessible s v \<longleftrightarrow> (\<exists>x \<in> set (vehicles (drt_fleet s)). vh_id x = v \<and> vh_wheelchair_accessible x)"

definition served :: "drt_request \<Rightarrow> bool" where
  "served d \<longleftrightarrow> rq_status d \<in> {''assigned'', ''enroute'', ''completed''}"

definition request_ok :: "drt_store \<Rightarrow> drt_request \<Rightarrow> bool" where
  "request_ok s d \<longleftrightarrow> (served d \<longrightarrow> rq_assigned_at d \<noteq> None \<and>
     (\<exists>v. rq_vehicle_id d = Some v \<and> (rq_requires_wheelchair d \<longrightarrow> accessible s v)))"

definition drt_ok :: "drt_store \<times> (string \<times> string) set \<Rightarrow> bool" where
  "drt_ok z \<longleftrightarrow> (case z of (s, V) \<Rightarrow> distinct (map rq_id (drt_requests s)) \<and> (\<forall>d \<in> set (drt_requests s). request_ok s d) \<and>
     (\<forall>rid v. (rid, v) \<in> V \<longrightarrow> (\<exists>d \<in> set (drt_requests s). rq_id d = rid \<and> (rq_requires_wheelchair d \<longrightarrow> accessible s v))))"

lemma accessible_cong: "vehicles (drt_fleet t) = vehicles (drt_fleet s) \<Longrightarrow> accessible t v = accessible s v"
  by (simp add: accessible_def)

lemma drt_emit_frame [simp]: "drt_requests (drt_emit E t p s) = drt_requests s" "drt_fleet (drt_emit E t p s) = drt_fleet s"
  by (simp_all add: drt_emit_def)

text \<open>An update of requests that keeps ids and needs, under unchanged vehicles.\<close>

lemma drt_ok_update:
  assumes "drt_ok (s, V)" "\<And>d. rq_id (f d) = rq_id d \<and> rq_requires_wheelchair (f d) = rq_requires_wheelchair d"
    "\<And>d. d \<in> set (drt_requests s) \<Longrightarrow> P d \<Longrightarrow> request_ok s d \<Longrightarrow> request_ok s (f d)"
  shows "drt_ok (s\<lparr>drt_requests := upd_rows P f (drt_requests s)\<rparr>, V)"
proof -
  let ?t = "s\<lparr>drt_requests := upd_rows P f (drt_requests s)\<rparr>"
  have acc: "accessible ?t v = accessible s v" for v by (rule accessible_cong) simp
  have ids: "map rq_id (drt_requests ?t) = map rq_id (drt_requests s)" using assms(2) by (simp add: map_upd_rows)
  have row: "request_ok ?t d = request_ok s d" for d by (simp add: request_ok_def acc)
  have "request_ok ?t d" if "d \<in> set (drt_requests ?t)" for d
  proof -
    from that have "d \<in> set (upd_rows P f (drt_requests s))" by simp
    from set_upd_rowsD [OF this] obtain x where x: "x \<in> set (drt_requests s)" "d = (if P x then f x else x)" by blast
    moreover have "request_ok s x" using assms(1) x(1) by (simp add: drt_ok_def)
    ultimately show ?thesis using assms(3) [of x] row by simp
  qed
  moreover have "\<exists>d \<in> set (drt_requests ?t). rq_id d = rid \<and> (rq_requires_wheelchair d \<longrightarrow> accessible ?t v)" if V: "(rid, v) \<in> V" for rid v
  proof -
    obtain d where d: "d \<in> set (drt_requests s)" "rq_id d = rid" "rq_requires_wheelchair d \<longrightarrow> accessible s v"
      using assms(1) V unfolding drt_ok_def prod.case by blast
    then have "(if P d then f d else d) \<in> set (drt_requests ?t)" by (auto simp: upd_rows_def)
    with d assms(2) [of d] show ?thesis unfolding acc by (metis (full_types))
  qed
  ultimately show ?thesis using assms(1) ids by (auto simp: drt_ok_def)
qed

lemma drt_ok_cong:
  assumes "drt_requests t = drt_requests s" "vehicles (drt_fleet t) = vehicles (drt_fleet s)"
  shows "drt_ok (t, V) = drt_ok (s, V)"
  using accessible_cong [OF assms(2)] by (simp add: drt_ok_def request_ok_def assms)

lemma drt_ok_create: "drt_ok (s, V) \<Longrightarrow> drt_ok (snd (CreateDRTRequest E c body s), V)"
proof -
  assume ok: "drt_ok (s, V)"
  define P where "P r \<longleftrightarrow> drt_ok (snd r, V)" for r :: "drt_request resp \<times> drt_store"
  have keep: "P (r, s)" for r using ok by (simp add: P_def)
  have add: "drt_ok (s\<lparr>drt_requests := drt_requests s @ [d]\<rparr>, V)"
    if "rq_id d \<notin> rq_id ` set (drt_requests s)" "rq_status d = ''requested''" for d
    using ok that by (fastforce simp: drt_ok_def request_ok_def served_def accessible_def)
  have "P (CreateDRTRequest E c body s)"
    unfolding CreateDRTRequest_def Let_def
    by (intro branches [where P = P] keep) (auto simp: P_def drt_ok_cong [OF drt_emit_frame(1)] intro!: add)
  then show ?thesis by (simp add: P_def)
qed

lemma drt_ok_assign:
  assumes "drt_ok (s, V)" "(rid, v) \<in> V"
  shows "drt_ok (snd (assign_write E rid v driverSub s), V)"
proof -
  have need: "rq_requires_wheelchair d \<longrightarrow> accessible s v" if "d \<in> set (drt_requests s)" "rq_id d = rid" for d
  proof -
    obtain d' where d': "d' \<in> set (drt_requests s)" "rq_id d' = rid" "rq_requires_wheelchair d' \<longrightarrow> accessible s v"
      using assms unfolding drt_ok_def prod.case by blast
    then have "d' = d" using that assms(1) distinct_key [of rq_id "drt_requests s" d' d] by (simp add: drt_ok_def)
    with d' show ?thesis by simp
  qed
  show ?thesis using assms(1) need unfolding assign_write_def Let_def
    by (auto simp: request_ok_def accessible_def intro!: drt_ok_update)
qed

lemma drt_step_ok: "drt_step z w \<Longrightarrow> drt_ok z \<Longrightarrow> drt_ok w"
proof (induction rule: drt_step.induct)
  case (step_request s V E c body)
  then show ?case by (rule drt_ok_create)
next
  case (step_cancel s V E rid)
  then show ?case
    by (auto simp: cancel_write_def Let_def request_ok_def served_def intro!: drt_ok_update split: option.split)
next
  case (step_validate E rid v s V)
  then show ?case
    by (auto simp: drt_ok_def validateAssignVehicle_def accessible_def dest!: find_Some_prop split: if_splits option.splits)
next
  case (step_assign rid v V s E driverSub)
  then show ?case by (intro drt_ok_assign)
next
  case (step_move s V E path rid)
  then show ?case
    by (auto simp: ProgressDRTRequest_def Let_def request_ok_def served_def intro!: drt_ok_update split: option.split)
next
  case (step_outside t s V)
  then show ?case using drt_ok_cong by blast
qed

section \<open>Properties\<close>

text \<open>
  C35. Accessibility is respected under every interleaving of riders, operators, drivers and the automatic
  assignment: a ride that is assigned, under way or completed has its vehicle and assignment time
  recorded, and if the rider needs a wheelchair-accessible vehicle, the vehicle is one.
\<close>

theorem drt_wheelchair_respected:
  assumes "drt_step\<^sup>*\<^sup>* (s, {}) (t, V)" and "drt_requests s = []" and "d \<in> set (drt_requests t)"
    and "rq_status d \<in> {''assigned'', ''enroute'', ''completed''}"
  shows "rq_assigned_at d \<noteq> None \<and> (\<exists>v. rq_vehicle_id d = Some v \<and>
    (rq_requires_wheelchair d \<longrightarrow> (\<exists>x \<in> set (vehicles (drt_fleet t)). vh_id x = v \<and> vh_wheelchair_accessible x)))"
proof -
  have "drt_ok (s, {})" using assms(2) by (simp add: drt_ok_def)
  with assms(1) have "drt_ok (t, V)" by (induction rule: rtranclp_induct) (auto intro: drt_step_ok)
  with assms(3,4) show ?thesis by (auto simp: drt_ok_def request_ok_def served_def accessible_def)
qed

lemma pick_cases:
  assumes "PickVehicle E away pos w s = Some v"
  obtains x where "x \<in> set (vehicles (drt_fleet s))" "eligible E w s x" "vh_id x = v"
    "\<And>y dy. y \<in> set (vehicles (drt_fleet s)) \<Longrightarrow> eligible E w s y \<Longrightarrow> vehicle_distance away pos s y = Some dy \<Longrightarrow>
       \<exists>dx. vehicle_distance away pos s x = Some dx \<and> dx \<le> dy"
proof -
  let ?c = "filter (eligible E w s) (vehicles (drt_fleet s))" and ?d = "vehicle_distance away pos s"
  let ?l = "sort_key (\<lambda>v. the (?d v)) (filter (\<lambda>v. ?d v \<noteq> None) ?c)"
  obtain x xs where x: "?l @ filter (\<lambda>v. ?d v = None) ?c = x # xs" "vh_id x = v"
    using assms by (auto simp: PickVehicle_def Let_def split: list.splits)
  have mem: "set ?l = {v \<in> set ?c. ?d v \<noteq> None}" by simp
  have "x \<in> set (?l @ filter (\<lambda>v. ?d v = None) ?c)" by (simp only: x list.set_intros)
  then have xc: "x \<in> set ?c" by auto
  have "\<exists>dx. ?d x = Some dx \<and> dx \<le> dy" if y: "y \<in> set (vehicles (drt_fleet s))" "eligible E w s y" "?d y = Some dy" for y dy
  proof -
    have yl: "y \<in> set ?l" unfolding mem using y by simp
    then have "?l \<noteq> []" by (metis empty_iff list.set(1))
    then obtain x' ys where l: "?l = x' # ys" by (meson neq_Nil_conv)
    then have hd: "x' = x" using x(1) by simp
    have "sorted (map (\<lambda>v. the (?d v)) ?l)" by (rule sorted_sort_key)
    then have "the (?d x) \<le> the (?d y)" using yl unfolding l hd by auto
    moreover have "x \<in> set ?l" by (simp only: l hd list.set_intros)
    ultimately show ?thesis using y(3) unfolding mem by auto
  qed
  with xc x(2) show thesis by (intro that [of x]) auto
qed

text \<open>
  The automatic assignment sends the nearest free vehicle: when it assigns a ride, the vehicle was
  active, wheelchair-accessible if needed, without another demand-responsive ride and without a dispatch
  job now or within the half hour, and no vehicle with these properties and a known position is nearer.
  Otherwise it changes nothing.
\<close>

theorem auto_assign_nearest:
  assumes "AutoAssign E away (rid, user, pos) s = (ok, t)" and "drt_requests t \<noteq> drt_requests s"
    and "find (\<lambda>d. rq_id d = rid) (drt_requests s) = Some d"
  shows "\<exists>x \<in> set (vehicles (drt_fleet s)). ok \<and> eligible E (rq_requires_wheelchair d) s x \<and>
    drt_requests t = upd_rows (\<lambda>d. rq_id d = rid \<and> rq_status d = ''requested'')
      (\<lambda>d. d\<lparr>rq_status := ''assigned'', rq_vehicle_id := Some (vh_id x), rq_driver_sub := None, rq_assigned_at := Some (to_micros (now E))\<rparr>)
      (drt_requests s) \<and>
    (\<forall>y \<in> set (vehicles (drt_fleet s)). \<forall>dy. eligible E (rq_requires_wheelchair d) s y \<and> vehicle_distance away pos s y = Some dy \<longrightarrow>
       (\<exists>dx. vehicle_distance away pos s x = Some dx \<and> dx \<le> dy))"
proof -
  obtain v where v: "PickVehicle E away pos (rq_requires_wheelchair d) s = Some v"
    using assms by (auto simp: AutoAssign_def split: if_splits option.splits)
  obtain err s1 where a: "AssignDRT E rid v [] s = (err, s1)" by (rule prod.exhaust)
  have t: "drt_requests t = drt_requests s1" "ok \<or> drt_requests s1 = drt_requests s" "err = None \<Longrightarrow> ok"
    using assms v a by (auto simp: AutoAssign_def AssignDRT_def assign_write_def Let_def split: if_splits option.splits)
  have "err = None \<and> drt_requests s1 = upd_rows (\<lambda>d. rq_id d = rid \<and> rq_status d = ''requested'')
      (\<lambda>d. d\<lparr>rq_status := ''assigned'', rq_vehicle_id := Some v, rq_driver_sub := None, rq_assigned_at := Some (to_micros (now E))\<rparr>)
      (drt_requests s)"
    using a assms(2) t(1) by (auto simp: AssignDRT_def assign_write_def Let_def split: if_splits option.splits)
  with v t show ?thesis by (elim pick_cases) (auto simp: t(1))
qed

section \<open>A worked example\<close>

definition van :: "string \<Rightarrow> bool \<Rightarrow> vehicle" where
  "van i w = \<lparr>vh_id = i, vh_fleet_no = i, vh_vin = None, vh_model = None, vh_h2_capacity_kg = None, vh_status = ''active'',
     vh_energy_type = ''h2'', vh_wheelchair_accessible = w, vh_geom = None\<rparr>"

definition ride :: "string \<Rightarrow> drt_request" where
  "ride i = \<lparr>rq_id = i, rq_user_sub = ''ann'', rq_pickup = (1, 1), rq_dropoff = (2, 2), rq_pickup_label = [], rq_dropoff_label = [],
     rq_passengers = 1, rq_requires_wheelchair = True, rq_vehicle_id = None, rq_driver_sub = None, rq_assigned_at = None,
     rq_status = ''requested'', rq_requested_at = 0\<rparr>"

text \<open>Two rides are waiting; of the two vans only the second is accessible.\<close>

definition town :: "drt_request list \<Rightarrow> drt_store" where
  "town rs = \<lparr>drt_requests = rs, drt_fleet = \<lparr>vehicles = [van ''v1'' False, van ''v2'' True], fleet_telemetry = [], predictions = [],
      fuel_consumption = []\<rparr>, drt_dispatch = (depot True)\<lparr>dispatch_jobs := []\<rparr>, drt_events = []\<rparr>"

definition drt_env :: db_env where
  "drt_env = quiet_env (\<lambda>_ _ _ _ _ l. (Inr [], l))"

lemma drt_env_no_fault [simp]: "\<not> fault drt_env op" "\<not> pub_fault drt_env op"
  by (simp_all add: drt_env_def quiet_env_def)

lemmas town_simps = town_def van_def ride_def drt_busy_def dispatch_busy_def eligible_def depot_def

lemma town_picks: "PickVehicle drt_env away pos True (town [ride ''r1'']) = Some ''v2''"
  by (simp add: PickVehicle_def town_simps vehicle_distance_def latest_of_def newest_def Let_def)

lemma town_assigns:
  "AutoAssign drt_env away (''r1'', ''ann'', pos) (town [ride ''r1'']) = (True, snd (AutoAssign drt_env away (''r1'', ''ann'', pos) (town [ride ''r1'']))) \<and>
   map rq_vehicle_id (drt_requests (snd (AutoAssign drt_env away (''r1'', ''ann'', pos) (town [ride ''r1''])))) = [Some ''v2'']"
proof -
  have "find (\<lambda>d. rq_id d = ''r1'') (drt_requests (town [ride ''r1''])) = Some (ride ''r1'')" "rq_requires_wheelchair (ride ''r1'')"
    by (simp_all add: town_def ride_def)
  then have "AutoAssign drt_env away (''r1'', ''ann'', pos) (town [ride ''r1'']) =
    (case AssignDRT drt_env ''r1'' ''v2'' [] (town [ride ''r1'']) of
       (Some err, s1) \<Rightarrow> (err \<in> {NotAssignable, VehicleBusy, WheelchairMismatch}, s1)
     | (None, s1) \<Rightarrow> (True, drt_emit drt_env ''drt.assigned''
         [(''request_id'', JStr ''r1''), (''user_sub'', JStr ''ann''), (''vehicle_id'', JStr ''v2''),
          (''assigned_at'', JStr (rfc3339 (now drt_env))), (''auto'', JBool True)] s1))"
    by (simp add: AutoAssign_def town_picks)
  then show ?thesis by (simp add: AssignDRT_def validateAssignVehicle_def assign_write_def town_simps Let_def)
qed

theorem auto_assign_nearest_witness:
  "\<exists>x \<in> set (vehicles (drt_fleet (town [ride ''r1'']))). vh_wheelchair_accessible x \<and>
     map rq_vehicle_id (drt_requests (snd (AutoAssign drt_env (\<lambda>_ _. 0) (''r1'', ''ann'', (1, 1)) (town [ride ''r1''])))) = [Some (vh_id x)]"
proof -
  let ?s = "town [ride ''r1'']" and ?t = "snd (AutoAssign drt_env (\<lambda>_ _. 0) (''r1'', ''ann'', (1, 1)) (town [ride ''r1'']))"
  note run = town_assigns [of "\<lambda>_ _. 0" "(1, 1)"]
  have s: "map rq_vehicle_id (drt_requests ?s) = [None]" "drt_requests ?s = [ride ''r1'']" by (simp_all add: town_def ride_def)
  then have ne: "drt_requests ?t \<noteq> drt_requests ?s" using run by auto
  have f: "find (\<lambda>d. rq_id d = ''r1'') (drt_requests ?s) = Some (ride ''r1'')" by (simp only: s(2) find.simps) (simp add: ride_def)
  show ?thesis
  proof (rule bexE [OF auto_assign_nearest [OF conjunct1 [OF run] ne f]])
    fix x assume x: "x \<in> set (vehicles (drt_fleet ?s))" and c: "True \<and> eligible drt_env (rq_requires_wheelchair (ride ''r1'')) ?s x \<and>
      drt_requests ?t = upd_rows (\<lambda>d. rq_id d = ''r1'' \<and> rq_status d = ''requested'')
        (\<lambda>d. d\<lparr>rq_status := ''assigned'', rq_vehicle_id := Some (vh_id x), rq_driver_sub := None, rq_assigned_at := Some (to_micros (now drt_env))\<rparr>)
        (drt_requests ?s) \<and>
      (\<forall>y \<in> set (vehicles (drt_fleet ?s)). \<forall>dy. eligible drt_env (rq_requires_wheelchair (ride ''r1'')) ?s y \<and>
         vehicle_distance (\<lambda>_ _. 0) (1, 1) ?s y = Some dy \<longrightarrow>
         (\<exists>dx. vehicle_distance (\<lambda>_ _. 0) (1, 1) ?s x = Some dx \<and> dx \<le> dy))"
    note e = c [THEN conjunct2, THEN conjunct1] and w = c [THEN conjunct2, THEN conjunct2, THEN conjunct1]
    have "rq_requires_wheelchair (ride ''r1'')" by (simp add: ride_def)
    then have acc: "vh_wheelchair_accessible x" using e by (simp only: eligible_def simp_thms)
    have "map rq_vehicle_id (drt_requests ?t) = [Some (vh_id x)]" unfolding w s(2) by (simp add: ride_def)
    with x acc show ?thesis by (intro bexI [of _ x] conjI)
  qed
qed

definition ask :: create_drt_req where
  "ask = \<lparr>cd_pickup = (1, 1), cd_dropoff = (2, 2), cd_pickup_label = [], cd_dropoff_label = [], cd_passengers = 0,
     cd_requires_wheelchair = True\<rparr>"

definition requested_town :: drt_store where
  "requested_town = snd (CreateDRTRequest drt_env (Some [(''sub'', JStr ''ann'')]) (Some ask) (town []))"

lemma requested_town_row:
  "drt_requests requested_town = [(ride ''id'')\<lparr>rq_requested_at := to_micros 1000\<rparr>]" "drt_fleet requested_town = drt_fleet (town [])"
  "drt_dispatch requested_town = drt_dispatch (town [])"
  by (simp_all add: requested_town_def CreateDRTRequest_def ask_def town_def ride_def Subject_def Let_def drt_emit_def)
    (simp_all add: drt_env_def quiet_env_def)

lemma requested_town_valid: "validateAssignVehicle drt_env ''id'' ''v2'' requested_town = None"
  unfolding validateAssignVehicle_def dispatch_busy_def requested_town_row by (simp add: town_def ride_def van_def)

lemma requested_town_written:
  "drt_requests (snd (assign_write drt_env ''id'' ''v2'' [] requested_town)) =
     [(ride ''id'')\<lparr>rq_requested_at := to_micros 1000, rq_status := ''assigned'', rq_vehicle_id := Some ''v2'', rq_driver_sub := None,
        rq_assigned_at := Some (to_micros (now drt_env))\<rparr>]"
  unfolding assign_write_def Let_def requested_town_row by (simp add: town_def ride_def van_def)

theorem drt_wheelchair_respected_witness:
  "\<exists>t V d. drt_step\<^sup>*\<^sup>* (town [], {}) (t, V) \<and> drt_requests t = [d] \<and> rq_status d = ''assigned'' \<and> rq_requires_wheelchair d \<and>
     (\<exists>v. rq_vehicle_id d = Some v \<and> (\<exists>x \<in> set (vehicles (drt_fleet t)). vh_id x = v \<and> vh_wheelchair_accessible x))"
proof -
  let ?t = "snd (assign_write drt_env ''id'' ''v2'' [] requested_town)"
  have "drt_step (town [], {}) (requested_town, {})" unfolding requested_town_def by (rule step_request)
  moreover have "drt_step (requested_town, {}) (requested_town, {(''id'', ''v2'')})" by (rule step_validate [OF requested_town_valid])
  moreover have "drt_step (requested_town, {(''id'', ''v2'')}) (?t, {(''id'', ''v2'')})" by (rule step_assign) simp
  ultimately have run: "drt_step\<^sup>*\<^sup>* (town [], {}) (?t, {(''id'', ''v2'')})" by (meson rtranclp.rtrancl_into_rtrancl rtranclp.rtrancl_refl)
  obtain d where d: "drt_requests ?t = [d]" "rq_status d = ''assigned''" "rq_requires_wheelchair d"
    unfolding requested_town_written by (simp add: ride_def)
  have mem: "d \<in> set (drt_requests ?t)" "rq_status d \<in> {''assigned'', ''enroute'', ''completed''}" by (simp_all add: d(1,2))
  have "drt_requests (town []) = []" by (simp add: town_def)
  from drt_wheelchair_respected [OF run this mem] d(3) run d(1,2) show ?thesis by blast
qed

text \<open>
  The validation does not look at other demand-responsive rides, so an operator can assign one vehicle to
  two rides at the same time, although the comments say that neither manual nor automatic assignment may
  book a busy vehicle.
\<close>

lemma drt_vehicle_double_booked:
  "map rq_vehicle_id (drt_requests (snd (AssignDRTRequest drt_env ''r2'' (Some (''v2'', []))
     (snd (AssignDRTRequest drt_env ''r1'' (Some (''v2'', [])) (town [ride ''r1'', ride ''r2'']))))) ) = [Some ''v2'', Some ''v2'']"
proof -
  let ?f = "\<lambda>d. d\<lparr>rq_status := ''assigned'', rq_vehicle_id := Some ''v2'', rq_driver_sub := None, rq_assigned_at := Some (to_micros (now drt_env))\<rparr>"
  have a: "drt_requests (snd (AssignDRTRequest drt_env rid (Some (''v2'', [])) s)) =
      upd_rows (\<lambda>d. rq_id d = rid \<and> rq_status d = ''requested'') ?f (drt_requests s) \<and>
     drt_fleet (snd (AssignDRTRequest drt_env rid (Some (''v2'', [])) s)) = drt_fleet s \<and>
     drt_dispatch (snd (AssignDRTRequest drt_env rid (Some (''v2'', [])) s)) = drt_dispatch s"
    if "find (\<lambda>d. rq_id d = rid) (drt_requests s) = Some d" "list_ex (\<lambda>d. rq_id d = rid \<and> rq_status d = ''requested'') (drt_requests s)"
      "drt_fleet s = drt_fleet (town [])" "drt_dispatch s = drt_dispatch (town [])" for rid s d
  proof -
    have "validateAssignVehicle drt_env rid ''v2'' s = None"
      unfolding validateAssignVehicle_def dispatch_busy_def that by (simp add: town_def van_def)
    moreover have "''v2'' \<in> vh_id ` set (vehicles (drt_fleet s))" unfolding that by (simp add: town_def van_def)
    ultimately show ?thesis using that(2) by (auto simp: AssignDRTRequest_def AssignDRT_def assign_write_def Let_def drt_emit_def split: option.split)
  qed
  let ?s = "town [ride ''r1'', ride ''r2'']"
  have s: "drt_requests ?s = [ride ''r1'', ride ''r2'']" "drt_fleet ?s = drt_fleet (town [])" "drt_dispatch ?s = drt_dispatch (town [])"
    by (simp_all add: town_def)
  have f: "find (\<lambda>d. rq_id d = ''r1'') (drt_requests ?s) = Some (ride ''r1'')"
    "list_ex (\<lambda>d. rq_id d = ''r1'' \<and> rq_status d = ''requested'') (drt_requests ?s)" unfolding s by (simp_all add: ride_def)
  let ?s1 = "snd (AssignDRTRequest drt_env ''r1'' (Some (''v2'', [])) ?s)"
  note s1 = a [OF f s(2,3)]
  have f1: "find (\<lambda>d. rq_id d = ''r2'') (drt_requests ?s1) = Some (ride ''r2'')"
    "list_ex (\<lambda>d. rq_id d = ''r2'' \<and> rq_status d = ''requested'') (drt_requests ?s1)" using s1 unfolding s by (simp_all add: ride_def)
  from a [OF f1] s1 show ?thesis unfolding s by (simp add: ride_def)
qed

text \<open>Riders see and cancel only their own requests.\<close>

lemma drt_private:
  assumes "\<not> HasAnyRole c [''operator'', ''platform-admin'']"
  shows "GetDRTRequest E c rid s = Reply n d \<Longrightarrow> rq_user_sub d = Subject c"
    and "CancelDRTRequest E c rid s = (r, t) \<Longrightarrow> drt_requests t \<noteq> drt_requests s \<Longrightarrow>
      \<exists>d. find (\<lambda>d. rq_id d = rid) (drt_requests s) = Some d \<and> rq_user_sub d = Subject c"
  using assms by (auto simp: GetDRTRequest_def CancelDRTRequest_def cancel_check_def no_db_err_def may_see_def
      split: if_splits option.splits)

end
