(* ===== verification/Workflows.thy ===== *)
theory Workflows
  imports Incidents Charters
begin

text \<open>
  The Temporal workflows of infra-api (src/services/go/infra-api/internal/workflow/workflows.go and workflow.go). A
  run of a workflow is its position in the code, the signals buffered for it and what it has read of the
  signals sent by the handlers; the code between two blocking points is one move. A selector takes the
  first ready case in the order the cases were added. An activity is attempted up to five times; an
  attempt may commit and still be retried because its report was lost. The locale \<open>countdown\<close> is the
  progress argument both workflows share.
\<close>

section \<open>Progress\<close>

locale countdown =
  fixes next_state :: "'a \<Rightarrow> 'a" and weight :: "'a \<Rightarrow> nat" and keeps :: "'a \<Rightarrow> bool" and finished :: "'a \<Rightarrow> bool"
  assumes keeps_next: "keeps x \<Longrightarrow> \<not> finished x \<Longrightarrow> keeps (next_state x)"
    and weight_next: "keeps x \<Longrightarrow> \<not> finished x \<Longrightarrow> weight (next_state x) < weight x"
begin

lemma reaches: "keeps x \<Longrightarrow> \<exists>n \<le> weight x. finished ((next_state ^^ n) x) \<and> keeps ((next_state ^^ n) x)"
proof (induction "weight x" arbitrary: x rule: less_induct)
  case less
  show ?case
  proof (cases "finished x")
    case True
    with less.prems show ?thesis by (intro exI [of _ 0]) simp
  next
    case False
    note w = weight_next [OF less.prems False]
    from less.hyps [OF w keeps_next [OF less.prems False]] obtain n where
      "n \<le> weight (next_state x)" "finished ((next_state ^^ n) (next_state x))" "keeps ((next_state ^^ n) (next_state x))" by blast
    with w show ?thesis by (intro exI [of _ "Suc n"]) (simp add: funpow_swap1)
  qed
qed

end

section \<open>Constants\<close>

text \<open>Durations are in nanoseconds, as \<open>time.Duration\<close>.\<close>

definition IncidentEscalationTimeout :: int where
  "IncidentEscalationTimeout = 15 * 60 * 1000000000"

definition DispatchAcceptTimeout :: int where
  "DispatchAcceptTimeout = 10 * 60 * 1000000000"

definition MaximumAttempts :: nat where
  "MaximumAttempts = 5"

datatype workflow_kind = IncidentResponse | DispatchJob

definition workflowForID :: "string \<Rightarrow> workflow_kind option" where
  "workflowForID wid = (if has_prefix wid ''incident-'' then Some IncidentResponse
     else if has_prefix wid ''dispatch-'' then Some DispatchJob else None)"

text \<open>The workflow ids the handlers address: prefix and entity.\<close>

definition incident_wid :: "string \<Rightarrow> string" where
  "incident_wid iid = ''incident-'' @ iid"

definition dispatch_wid :: "string \<Rightarrow> string" where
  "dispatch_wid jid = ''dispatch-'' @ jid"

text \<open>A signal as the handlers send it: workflow id, name and payload.\<close>

type_synonym wf_signal = "string \<times> string \<times> (string \<times> json) list"

section \<open>Incident response\<close>

text \<open>The number at an activity counts the attempts left.\<close>

datatype incident_pc = AwaitLeak | Starting nat | Watching | Escalating nat | Resolving nat | WfDone | WfFailed

record incident_wf =
  iw_pc :: incident_pc
  iw_seen :: nat
  iw_leaks :: nat
  iw_acks :: nat
  iw_resolves :: nat
  iw_acknowledged :: bool
  iw_escalated :: bool
  iw_deadline :: int
  iw_fired :: bool

definition incident_start :: incident_wf where
  "incident_start = \<lparr>iw_pc = AwaitLeak, iw_seen = 0, iw_leaks = 0, iw_acks = 0, iw_resolves = 0, iw_acknowledged = False,
     iw_escalated = False, iw_deadline = 0, iw_fired = False\<rparr>"

definition incident_deliver :: "string \<Rightarrow> wf_signal \<Rightarrow> incident_wf \<Rightarrow> incident_wf" where
  "incident_deliver iid m w =
     (case m of (wid, name, _) \<Rightarrow>
        let w1 = w\<lparr>iw_seen := Suc (iw_seen w)\<rparr> in
        if wid \<noteq> incident_wid iid then w1
        else if name = ''leak-detected'' then w1\<lparr>iw_leaks := Suc (iw_leaks w)\<rparr>
        else if name = ''incident-acknowledged'' then w1\<lparr>iw_acks := Suc (iw_acks w)\<rparr>
        else if name = ''incident-resolved'' then w1\<lparr>iw_resolves := Suc (iw_resolves w)\<rparr>
        else w1)"

definition incident_move :: "incident_wf \<Rightarrow> incident_wf option" where
  "incident_move w =
     (case iw_pc w of
        AwaitLeak \<Rightarrow> if iw_leaks w > 0 then Some (w\<lparr>iw_leaks := iw_leaks w - 1, iw_pc := Starting MaximumAttempts\<rparr>) else None
      | Watching \<Rightarrow>
          if iw_resolves w > 0 then Some (w\<lparr>iw_resolves := iw_resolves w - 1, iw_pc := Resolving MaximumAttempts\<rparr>)
          else if \<not> iw_acknowledged w \<and> iw_acks w > 0 then Some (w\<lparr>iw_acks := iw_acks w - 1, iw_acknowledged := True\<rparr>)
          else if \<not> iw_acknowledged w \<and> \<not> iw_escalated w \<and> iw_fired w then Some (w\<lparr>iw_pc := Escalating MaximumAttempts\<rparr>)
          else None
      | _ \<Rightarrow> None)"

text \<open>One attempt of the activity the workflow waits for. A failed escalation is only logged.\<close>

definition incident_attempt :: "db_env \<Rightarrow> string \<Rightarrow> bool \<Rightarrow> incident_wf \<times> safety_store \<Rightarrow> incident_wf \<times> safety_store" where
  "incident_attempt E iid lost z =
     (case z of (w, s) \<Rightarrow>
        (case iw_pc w of
           Starting n \<Rightarrow>
             (case SetIncidentInProgress E iid s of (ok, t) \<Rightarrow>
                (if ok \<and> \<not> lost then w\<lparr>iw_pc := Watching, iw_deadline := now E + IncidentEscalationTimeout\<rparr>
                 else if n \<le> 1 then w\<lparr>iw_pc := WfFailed\<rparr> else w\<lparr>iw_pc := Starting (n - 1)\<rparr>, t))
         | Escalating n \<Rightarrow>
             (case EscalateIncident E iid s of (ok, t) \<Rightarrow>
                (if ok \<and> \<not> lost \<or> n \<le> 1 then w\<lparr>iw_pc := Watching, iw_escalated := True\<rparr>
                 else w\<lparr>iw_pc := Escalating (n - 1)\<rparr>, t))
         | Resolving n \<Rightarrow>
             (case MarkIncidentResolved E iid s of (ok, t) \<Rightarrow>
                (if ok \<and> \<not> lost then w\<lparr>iw_pc := WfDone\<rparr>
                 else if n \<le> 1 then w\<lparr>iw_pc := WfFailed\<rparr> else w\<lparr>iw_pc := Resolving (n - 1)\<rparr>, t))
         | _ \<Rightarrow> (w, s)))"

definition incident_timer :: "incident_wf \<Rightarrow> bool" where
  "incident_timer w \<longleftrightarrow> iw_pc w = Watching \<and> \<not> iw_acknowledged w \<and> \<not> iw_escalated w"

text \<open>A run among the handlers: they change the store in any way that keeps the signals already sent.\<close>

inductive incident_wf_step :: "string \<Rightarrow> incident_wf \<times> safety_store \<Rightarrow> incident_wf \<times> safety_store \<Rightarrow> bool" for iid where
  iw_move: "incident_move w = Some w' \<Longrightarrow> incident_wf_step iid (w, s) (w', s)"
| iw_attempt: "incident_wf_step iid z (incident_attempt E iid lost z)"
| iw_fire: "incident_timer w \<Longrightarrow> now (E :: db_env) \<ge> iw_deadline w \<Longrightarrow> incident_wf_step iid (w, s) (w\<lparr>iw_fired := True\<rparr>, s)"
| iw_deliver: "iw_seen w < length (sf_signals s) \<Longrightarrow>
    incident_wf_step iid (w, s) (incident_deliver iid (sf_signals s ! iw_seen w) w, s)"
| iw_outside: "sf_signals t = sf_signals s @ later \<Longrightarrow> incident_wf_step iid (w, s) (w, t)"

text \<open>The workflow alone: it moves, else runs its activity, else reads the next signal.\<close>

definition incident_next :: "db_env \<Rightarrow> string \<Rightarrow> incident_wf \<times> safety_store \<Rightarrow> incident_wf \<times> safety_store" where
  "incident_next E iid z =
     (case z of (w, s) \<Rightarrow>
        (case incident_move w of
           Some w' \<Rightarrow> (w', s)
         | None \<Rightarrow>
             if iw_pc w \<in> {AwaitLeak, Watching} then
               (if iw_seen w < length (sf_signals s) then (incident_deliver iid (sf_signals s ! iw_seen w) w, s) else (w, s))
             else incident_attempt E iid False (w, s)))"

section \<open>Dispatch\<close>

datatype dispatch_pc = AwaitAssign | AwaitAccept | Requeueing nat | DispatchDone | DispatchFailed

record dispatch_wf =
  dw_pc :: dispatch_pc
  dw_seen :: nat
  dw_assigned :: nat
  dw_accepted :: nat
  dw_cancelled :: nat
  dw_fired :: bool

definition dispatch_start :: dispatch_wf where
  "dispatch_start = \<lparr>dw_pc = AwaitAssign, dw_seen = 0, dw_assigned = 0, dw_accepted = 0, dw_cancelled = 0, dw_fired = False\<rparr>"

definition dispatch_deliver :: "string \<Rightarrow> wf_signal \<Rightarrow> dispatch_wf \<Rightarrow> dispatch_wf" where
  "dispatch_deliver jid m w =
     (case m of (wid, name, _) \<Rightarrow>
        let w1 = w\<lparr>dw_seen := Suc (dw_seen w)\<rparr> in
        if wid \<noteq> dispatch_wid jid then w1
        else if name = ''job-assigned'' then w1\<lparr>dw_assigned := Suc (dw_assigned w)\<rparr>
        else if name = ''job-accepted'' then w1\<lparr>dw_accepted := Suc (dw_accepted w)\<rparr>
        else if name = ''job-cancelled'' then w1\<lparr>dw_cancelled := Suc (dw_cancelled w)\<rparr>
        else w1)"

definition dispatch_move :: "dispatch_wf \<Rightarrow> dispatch_wf option" where
  "dispatch_move w =
     (case dw_pc w of
        AwaitAssign \<Rightarrow>
          if dw_assigned w > 0 then Some (w\<lparr>dw_assigned := dw_assigned w - 1, dw_pc := AwaitAccept, dw_fired := False\<rparr>)
          else if dw_cancelled w > 0 then Some (w\<lparr>dw_cancelled := dw_cancelled w - 1, dw_pc := DispatchDone\<rparr>)
          else None
      | AwaitAccept \<Rightarrow>
          if dw_accepted w > 0 then Some (w\<lparr>dw_accepted := dw_accepted w - 1, dw_pc := DispatchDone\<rparr>)
          else if dw_cancelled w > 0 then Some (w\<lparr>dw_cancelled := dw_cancelled w - 1, dw_pc := DispatchDone\<rparr>)
          else if dw_fired w then Some (w\<lparr>dw_pc := Requeueing MaximumAttempts\<rparr>)
          else None
      | _ \<Rightarrow> None)"

definition dispatch_attempt :: "db_env \<Rightarrow> string \<Rightarrow> bool \<Rightarrow> dispatch_wf \<times> dispatch_store \<Rightarrow> dispatch_wf \<times> dispatch_store" where
  "dispatch_attempt E jid lost z =
     (case z of (w, s) \<Rightarrow>
        (case dw_pc w of
           Requeueing n \<Rightarrow>
             (case RequeueDispatchJob E jid s of (ok, t) \<Rightarrow>
                (if ok \<and> \<not> lost then w\<lparr>dw_pc := AwaitAssign\<rparr>
                 else if n \<le> 1 then w\<lparr>dw_pc := DispatchFailed\<rparr> else w\<lparr>dw_pc := Requeueing (n - 1)\<rparr>, t))
         | _ \<Rightarrow> (w, s)))"

text \<open>The timer of \<open>DispatchAcceptTimeout\<close> runs while the job awaits its driver.\<close>

inductive dispatch_wf_step :: "string \<Rightarrow> dispatch_wf \<times> dispatch_store \<Rightarrow> dispatch_wf \<times> dispatch_store \<Rightarrow> bool" for jid where
  dw_move: "dispatch_move w = Some w' \<Longrightarrow> dispatch_wf_step jid (w, s) (w', s)"
| dw_attempt: "dispatch_wf_step jid z (dispatch_attempt E jid lost z)"
| dw_fire: "dw_pc w = AwaitAccept \<Longrightarrow> dispatch_wf_step jid (w, s) (w\<lparr>dw_fired := True\<rparr>, s)"
| dw_deliver: "dw_seen w < length (signals s) \<Longrightarrow> dispatch_wf_step jid (w, s) (dispatch_deliver jid (signals s ! dw_seen w) w, s)"
| dw_handler: "dispatch_step s t \<Longrightarrow> dispatch_wf_step jid (w, s) (w, t)"

definition dispatch_next :: "db_env \<Rightarrow> string \<Rightarrow> dispatch_wf \<times> dispatch_store \<Rightarrow> dispatch_wf \<times> dispatch_store" where
  "dispatch_next E jid z =
     (case z of (w, s) \<Rightarrow>
        (case dispatch_move w of
           Some w' \<Rightarrow> (w', s)
         | None \<Rightarrow>
             if dw_pc w \<in> {AwaitAssign, AwaitAccept} then
               (if dw_seen w < length (signals s) then (dispatch_deliver jid (signals s ! dw_seen w) w, s) else (w, s))
             else dispatch_attempt E jid False (w, s)))"

section \<open>Escalation\<close>

definition incident_wf_ok :: "incident_wf \<Rightarrow> bool" where
  "incident_wf_ok w \<longleftrightarrow> ((\<exists>n. iw_pc w = Escalating n) \<longrightarrow> \<not> iw_acknowledged w \<and> \<not> iw_escalated w)"

definition settled :: "incident_wf \<Rightarrow> bool" where
  "settled w \<longleftrightarrow> (iw_acknowledged w \<or> iw_escalated w) \<and> (\<forall>n. iw_pc w \<noteq> Escalating n)"

lemma deliver_frame [simp]:
  "iw_pc (incident_deliver iid m w) = iw_pc w" "iw_acknowledged (incident_deliver iid m w) = iw_acknowledged w"
  "iw_escalated (incident_deliver iid m w) = iw_escalated w" "iw_seen (incident_deliver iid m w) = Suc (iw_seen w)"
  "0 < iw_leaks (incident_deliver iid m w) \<longleftrightarrow> 0 < iw_leaks w \<or> fst m = incident_wid iid \<and> fst (snd m) = ''leak-detected''"
  "0 < iw_resolves (incident_deliver iid m w) \<longleftrightarrow> 0 < iw_resolves w \<or> fst m = incident_wid iid \<and> fst (snd m) = ''incident-resolved''"
  by (auto simp: incident_deliver_def Let_def split: prod.split)

lemma incident_deliver_no_leak [simp]: "iw_leaks (incident_deliver iid m w) = 0 \<longleftrightarrow>
    iw_leaks w = 0 \<and> \<not> (fst m = incident_wid iid \<and> fst (snd m) = ''leak-detected'')"
  by (cases m) (simp add: incident_deliver_def Let_def)

lemma incident_attempt_signals: "sf_signals (snd (incident_attempt E iid lost z)) = sf_signals (snd z)"
  by (simp add: incident_attempt_def SetIncidentInProgress_def EscalateIncident_def MarkIncidentResolved_def split: prod.split incident_pc.split)

lemma incident_attempt_await: "iw_pc (fst z) = AwaitLeak \<Longrightarrow> incident_attempt E iid lost z = z"
  by (cases z) (simp add: incident_attempt_def)

lemma incident_move_await: "iw_pc w = AwaitLeak \<Longrightarrow> iw_leaks w = 0 \<Longrightarrow> incident_move w = None"
  by (simp add: incident_move_def)

lemma incident_step_ok: "incident_wf_step iid z z' \<Longrightarrow> incident_wf_ok (fst z) \<Longrightarrow> incident_wf_ok (fst z')"
  by (induction rule: incident_wf_step.induct)
    (auto simp: incident_wf_ok_def incident_move_def incident_attempt_def split: incident_pc.splits if_splits prod.splits)

lemma incident_step_settled: "incident_wf_step iid z z' \<Longrightarrow> settled (fst z) \<Longrightarrow> settled (fst z')"
  by (induction rule: incident_wf_step.induct)
    (auto simp: settled_def incident_move_def incident_attempt_def split: incident_pc.splits if_splits prod.splits)

text \<open>
  An incident is escalated at most once and never after its acknowledgement: once a run has read an
  acknowledgement or completed an escalation, no continuation of it escalates again, whatever the
  handlers, the timers and failing activities do.
\<close>

theorem escalates_once:
  assumes "(incident_wf_step iid)\<^sup>*\<^sup>* (incident_start, s) (w, t)" and "iw_acknowledged w \<or> iw_escalated w"
    and "(incident_wf_step iid)\<^sup>*\<^sup>* (w, t) (w', t')"
  shows "iw_pc w' \<noteq> Escalating n"
proof -
  have "incident_wf_ok (fst (incident_start, s))" by (simp add: incident_wf_ok_def incident_start_def)
  with assms(1) have "incident_wf_ok (fst (w, t))" by (induction rule: rtranclp_induct) (blast intro: incident_step_ok)+
  then have "settled (fst (w, t))" using assms(2) by (auto simp: settled_def incident_wf_ok_def)
  with assms(3) have "settled (fst (w', t'))" by (induction rule: rtranclp_induct) (blast intro: incident_step_settled)+
  then show ?thesis by (simp add: settled_def)
qed

section \<open>Progress of the workflows\<close>

text \<open>A signal that is buffered or still to be read.\<close>

definition signal_waits :: "string \<Rightarrow> string \<Rightarrow> nat \<Rightarrow> wf_signal list \<Rightarrow> bool" where
  "signal_waits wid name n ms \<longleftrightarrow> (\<exists>m \<in> set (drop n ms). fst m = wid \<and> fst (snd m) = name)"

lemma signal_waits_step:
  assumes "n < length ms"
  shows "signal_waits wid name n ms \<longleftrightarrow> (fst (ms ! n) = wid \<and> fst (snd (ms ! n)) = name) \<or> signal_waits wid name (Suc n) ms"
  unfolding signal_waits_def Cons_nth_drop_Suc [OF assms, symmetric] by auto

lemma signal_waits_end: "\<not> n < length ms \<Longrightarrow> \<not> signal_waits wid name n ms"
  by (simp add: signal_waits_def)

definition leak_waits :: "string \<Rightarrow> incident_wf \<times> safety_store \<Rightarrow> bool" where
  "leak_waits iid z \<longleftrightarrow> iw_pc (fst z) \<noteq> AwaitLeak \<or> iw_leaks (fst z) > 0 \<or>
     signal_waits (incident_wid iid) ''leak-detected'' (iw_seen (fst z)) (sf_signals (snd z))"

definition resolve_waits :: "string \<Rightarrow> incident_wf \<times> safety_store \<Rightarrow> bool" where
  "resolve_waits iid z \<longleftrightarrow> (\<exists>n. iw_pc (fst z) = Resolving n) \<or> iw_pc (fst z) = WfDone \<or> iw_resolves (fst z) > 0 \<or>
     signal_waits (incident_wid iid) ''incident-resolved'' (iw_seen (fst z)) (sf_signals (snd z))"

definition closed_ok :: "string \<Rightarrow> incident_wf \<times> safety_store \<Rightarrow> bool" where
  "closed_ok iid z \<longleftrightarrow> iw_pc (fst z) = WfDone \<longrightarrow> (\<forall>i \<in> set (incidents (snd z)). in_id i = iid \<longrightarrow> in_status i = ''resolved'')"

definition incident_keeps :: "string \<Rightarrow> incident_wf \<times> safety_store \<Rightarrow> bool" where
  "incident_keeps iid z \<longleftrightarrow> iw_pc (fst z) \<noteq> WfFailed \<and> leak_waits iid z \<and> resolve_waits iid z \<and> closed_ok iid z"

fun pc_weight :: "bool \<Rightarrow> incident_pc \<Rightarrow> nat" where
  "pc_weight esc AwaitLeak = 6"
| "pc_weight esc (Starting n) = 5"
| "pc_weight esc Watching = (if esc then 2 else 4)"
| "pc_weight esc (Escalating n) = 3"
| "pc_weight esc (Resolving n) = 1"
| "pc_weight esc WfDone = 0"
| "pc_weight esc WfFailed = 0"

definition incident_weight :: "incident_wf \<times> safety_store \<Rightarrow> nat" where
  "incident_weight z = 2 * (length (sf_signals (snd z)) - iw_seen (fst z)) + iw_acks (fst z) + pc_weight (iw_escalated (fst z)) (iw_pc (fst z))"

lemma incident_deliver_acks: "iw_acks (incident_deliver iid m w) \<le> Suc (iw_acks w)"
  by (cases m) (simp add: incident_deliver_def Let_def)

lemma incident_deliver_weight:
  assumes "iw_seen w < length (sf_signals s)"
  shows "incident_weight (incident_deliver iid m w, s) < incident_weight (w, s)"
  using assms incident_deliver_acks [of iid m w] unfolding incident_weight_def fst_conv snd_conv deliver_frame by linarith

lemma incident_deliver_keeps:
  assumes "incident_keeps iid (w, s)" "iw_pc w \<in> {AwaitLeak, Watching}" "iw_seen w < length (sf_signals s)"
  shows "incident_keeps iid (incident_deliver iid (sf_signals s ! iw_seen w) w, s)"
proof -
  have pc: "iw_pc w \<noteq> WfDone" "iw_pc w \<noteq> WfFailed" "iw_pc w \<noteq> Resolving n" for n using assms(2) by auto
  note old = assms(1) [unfolded incident_keeps_def leak_waits_def resolve_waits_def fst_conv snd_conv signal_waits_step [OF assms(3)]]
  have "leak_waits iid (incident_deliver iid (sf_signals s ! iw_seen w) w, s)"
    unfolding leak_waits_def fst_conv snd_conv deliver_frame using old by blast
  moreover have "resolve_waits iid (incident_deliver iid (sf_signals s ! iw_seen w) w, s)"
    unfolding resolve_waits_def fst_conv snd_conv deliver_frame using old pc by blast
  ultimately show ?thesis using pc by (simp add: incident_keeps_def closed_ok_def)
qed

lemma incident_next_cases:
  obtains (move) w' where "incident_move w = Some w'" "incident_next E iid (w, s) = (w', s)"
  | (deliver) "incident_move w = None" "iw_pc w \<in> {AwaitLeak, Watching}" "iw_seen w < length (sf_signals s)"
      "incident_next E iid (w, s) = (incident_deliver iid (sf_signals s ! iw_seen w) w, s)"
  | (blocked) "incident_move w = None" "iw_pc w \<in> {AwaitLeak, Watching}" "\<not> iw_seen w < length (sf_signals s)"
      "incident_next E iid (w, s) = (w, s)"
  | (activity) "incident_move w = None" "iw_pc w \<notin> {AwaitLeak, Watching}" "incident_next E iid (w, s) = incident_attempt E iid False (w, s)"
  by (cases "incident_move w"; cases "iw_pc w \<in> {AwaitLeak, Watching}"; cases "iw_seen w < length (sf_signals s)")
    (auto simp: incident_next_def)

text \<open>A workflow that waits for a signal that is to come is not blocked.\<close>

lemma incident_not_blocked:
  assumes "incident_keeps iid (w, s)" "incident_move w = None" "iw_pc w \<in> {AwaitLeak, Watching}"
  shows "iw_seen w < length (sf_signals s)"
proof (rule ccontr)
  assume "\<not> iw_seen w < length (sf_signals s)"
  note none = signal_waits_end [OF this]
  have "iw_pc w \<noteq> AwaitLeak \<or> iw_leaks w > 0" "iw_resolves w > 0 \<or> iw_pc w \<noteq> Watching"
    using assms(1) none by (auto simp: incident_keeps_def leak_waits_def resolve_waits_def)
  with assms(2,3) show False by (auto simp: incident_move_def split: if_splits)
qed

lemma incident_move_progress:
  assumes "incident_keeps iid (w, s)" "incident_move w = Some w'"
  shows "incident_keeps iid (w', s) \<and> incident_weight (w', s) < incident_weight (w, s)"
  using assms
  by (auto simp: incident_move_def incident_keeps_def leak_waits_def resolve_waits_def closed_ok_def incident_weight_def
      split: incident_pc.splits if_splits)

lemma incident_attempt_progress:
  assumes "incident_keeps iid (w, s)" "iw_pc w \<notin> {AwaitLeak, Watching, WfDone}" "\<And>op. \<not> fault E op"
  shows "incident_keeps iid (incident_attempt E iid False (w, s)) \<and> incident_weight (incident_attempt E iid False (w, s)) < incident_weight (w, s)"
  using assms
  by (auto simp: incident_attempt_def SetIncidentInProgress_def EscalateIncident_def MarkIncidentResolved_def incident_keeps_def
      leak_waits_def resolve_waits_def closed_ok_def incident_weight_def dest!: set_upd_rowsD split: incident_pc.splits)

lemma incident_next_progress:
  assumes "\<And>op. \<not> fault E op" "incident_keeps iid z" "iw_pc (fst z) \<noteq> WfDone"
  shows "incident_keeps iid (incident_next E iid z) \<and> incident_weight (incident_next E iid z) < incident_weight z"
proof -
  obtain w s where z: "z = (w, s)" by (rule prod.exhaust)
  note keep = assms(2) [unfolded z]
  show ?thesis unfolding z
  proof (cases rule: incident_next_cases [of w E iid s])
    case (move w')
    then show "incident_keeps iid (incident_next E iid (w, s)) \<and> incident_weight (incident_next E iid (w, s)) < incident_weight (w, s)"
      using incident_move_progress [OF keep] by simp
  next
    case deliver
    then show "incident_keeps iid (incident_next E iid (w, s)) \<and> incident_weight (incident_next E iid (w, s)) < incident_weight (w, s)"
      using incident_deliver_keeps [OF keep] incident_deliver_weight by simp
  next
    case blocked
    with incident_not_blocked [OF keep] show "incident_keeps iid (incident_next E iid (w, s)) \<and> incident_weight (incident_next E iid (w, s)) < incident_weight (w, s)" by blast
  next
    case activity
    with incident_attempt_progress [OF keep _ assms(1)] assms(3) z
    show "incident_keeps iid (incident_next E iid (w, s)) \<and> incident_weight (incident_next E iid (w, s)) < incident_weight (w, s)" by simp
  qed
qed

interpretation incident_run: countdown "incident_next E iid" incident_weight
  "\<lambda>z. (\<forall>op. \<not> fault E op) \<and> incident_keeps iid z" "\<lambda>z. iw_pc (fst z) = WfDone" for E iid
  by unfold_locales (use incident_next_progress in blast)+

lemma incident_next_steps: "(incident_wf_step iid)\<^sup>*\<^sup>* z (incident_next E iid z)"
proof -
  obtain w s where z: "z = (w, s)" by (rule prod.exhaust)
  show ?thesis unfolding z
  proof (cases rule: incident_next_cases [of w E iid s])
    case (move w')
    then show "(incident_wf_step iid)\<^sup>*\<^sup>* (w, s) (incident_next E iid (w, s))" by (simp add: iw_move r_into_rtranclp)
  next
    case deliver
    then show "(incident_wf_step iid)\<^sup>*\<^sup>* (w, s) (incident_next E iid (w, s))" by (simp add: iw_deliver r_into_rtranclp)
  next
    case blocked
    then show "(incident_wf_step iid)\<^sup>*\<^sup>* (w, s) (incident_next E iid (w, s))" by simp
  next
    case activity
    then show "(incident_wf_step iid)\<^sup>*\<^sup>* (w, s) (incident_next E iid (w, s))" by (simp add: iw_attempt r_into_rtranclp)
  qed
qed

lemma incident_next_run: "(incident_wf_step iid)\<^sup>*\<^sup>* z ((incident_next E iid ^^ n) z)"
  by (induction n) (auto intro: rtranclp_trans incident_next_steps)

text \<open>
  C28. The incident workflow closes: a run that has not ended and for which a leak signal and a resolve signal
  are sent ends after finitely many of its own steps, at most six more than two for each unread signal and
  one for each buffered acknowledgement, when the database answers; then the incident is resolved in the store.
\<close>

theorem incident_workflow_closes:
  assumes "\<And>op. \<not> fault E op" and "iw_pc w \<notin> {WfDone, WfFailed}" and "leak_waits iid (w, s)" and "resolve_waits iid (w, s)"
  shows "\<exists>n w' t. n \<le> 2 * (length (sf_signals s) - iw_seen w) + iw_acks w + 6 \<and> (incident_next E iid ^^ n) (w, s) = (w', t) \<and>
    (incident_wf_step iid)\<^sup>*\<^sup>* (w, s) (w', t) \<and> iw_pc w' = WfDone \<and> (\<forall>i \<in> set (incidents t). in_id i = iid \<longrightarrow> in_status i = ''resolved'')"
proof -
  have "incident_keeps iid (w, s)" using assms by (simp add: incident_keeps_def closed_ok_def)
  then obtain n where n: "n \<le> incident_weight (w, s)" "iw_pc (fst ((incident_next E iid ^^ n) (w, s))) = WfDone"
    "incident_keeps iid ((incident_next E iid ^^ n) (w, s))"
    using incident_run.reaches [of E iid "(w, s)"] assms(1) by blast
  obtain w' t where e: "(incident_next E iid ^^ n) (w, s) = (w', t)" by (rule prod.exhaust)
  have "pc_weight (iw_escalated w) (iw_pc w) \<le> 6" by (cases "iw_pc w") auto
  with n(1) have "n \<le> 2 * (length (sf_signals s) - iw_seen w) + iw_acks w + 6" by (simp add: incident_weight_def)
  with n e incident_next_run [of iid "(w, s)" n E] show ?thesis by (auto simp: incident_keeps_def closed_ok_def)
qed

lemma emergency_signals: "sf_signals (setStationEmergency E i s) = sf_signals s"
  by (simp add: setStationEmergency_def safety_emit_def upd_stations_def Let_def split: option.split)

lemma open_sends_no_signal: "sf_signals (snd (OpenIncident E H body s)) = sf_signals s"
proof -
  define P where "P r \<longleftrightarrow> sf_signals (snd r) = sf_signals s" for r :: "incident resp \<times> safety_store"
  have ins: "sf_signals s1 = sf_signals s" if "insertIncident E op req s = (r, s1)" for op req r s1
    using that by (auto simp: insertIncident_def Let_def split: if_splits)
  then have "P (OpenIncident E H body s)"
    unfolding OpenIncident_def by (intro branches [where P = P]) (auto simp: P_def afterIncidentOpened_def Let_def emergency_signals dest: ins split: prod.split option.split)
  then show ?thesis by (simp add: P_def)
qed

text \<open>
  Without a leak signal the workflow never leaves its first line: opening an incident by hand sends none,
  so such an incident is never escalated, and its workflow, started by the acknowledgement, never closes.
\<close>

theorem manual_incident_never_watched:
  assumes "OpenIncident E H body s = (Reply 201 i, s1)" and "\<not> signal_waits (incident_wid (in_id i)) ''leak-detected'' 0 (sf_signals s)"
    and "(incident_wf_step (in_id i))\<^sup>*\<^sup>* (incident_start, s1) (w, t)"
    and "\<not> signal_waits (incident_wid (in_id i)) ''leak-detected'' (length (sf_signals s1)) (sf_signals t)"
  shows "iw_pc w = AwaitLeak"
proof -
  let ?iid = "in_id i" and ?L = "\<lambda>ms. \<exists>m \<in> set ms. fst m = incident_wid (in_id i) \<and> fst (snd m) = ''leak-detected''"
  have "sf_signals s1 = sf_signals s" using open_sends_no_signal [of E H body s] by (simp only: assms(1) snd_conv)
  then have none: "\<not> ?L (sf_signals s1)" using assms(2) by (simp add: signal_waits_def)
  from assms(3) have "\<exists>ms. sf_signals (snd (w, t)) = sf_signals s1 @ ms \<and>
    (\<not> ?L (sf_signals (snd (w, t))) \<longrightarrow> iw_pc (fst (w, t)) = AwaitLeak \<and> iw_leaks (fst (w, t)) = 0)"
  proof (induction rule: rtranclp_induct)
    case base
    then show ?case by (simp add: incident_start_def)
  next
    case (step y z)
    then obtain ms where ms: "sf_signals (snd y) = sf_signals s1 @ ms"
      "\<not> ?L (sf_signals (snd y)) \<longrightarrow> iw_pc (fst y) = AwaitLeak \<and> iw_leaks (fst y) = 0" by blast
    from step.hyps(2) show ?case
    proof (cases rule: incident_wf_step.cases)
      case (iw_move w w' s)
      with ms show ?thesis using incident_move_await [of w] by (intro exI [of _ ms]) force
    next
      case (iw_attempt E lost)
      with ms show ?thesis using incident_attempt_signals [of E ?iid lost y] incident_attempt_await [of y E ?iid lost]
        by (intro exI [of _ ms]) force
    next
      case (iw_deliver w s)
      then have "sf_signals s ! iw_seen w \<in> set (sf_signals s)" by simp
      with iw_deliver ms have "\<not> ?L (sf_signals s) \<longrightarrow> iw_leaks (incident_deliver ?iid (sf_signals s ! iw_seen w) w) = 0"
        unfolding incident_deliver_no_leak by auto
      with iw_deliver ms show ?thesis by (intro exI [of _ ms]) simp
    qed (use ms in auto)
  qed
  then obtain ms where "sf_signals t = sf_signals s1 @ ms" "\<not> ?L (sf_signals t) \<longrightarrow> iw_pc w = AwaitLeak" by auto
  moreover from this(1) have "\<not> ?L ms" using assms(4) by (simp add: signal_waits_def)
  ultimately show ?thesis using none by (simp only: set_append bex_Un simp_thms)
qed

section \<open>The life of a dispatch job\<close>

fun forward :: "string \<Rightarrow> string \<Rightarrow> bool" where
  "forward a b \<longleftrightarrow> b = a \<or> a = ''assigned'' \<and> b \<in> {''accepted'', ''requeued'', ''cancelled''} \<or>
     a \<in> {''accepted'', ''in_progress''} \<and> b = ''cancelled''"

definition later_job :: "dispatch_job \<Rightarrow> dispatch_job \<Rightarrow> bool" where
  "later_job j k \<longleftrightarrow> dj_id k = dj_id j \<and> dj_driver_sub k = dj_driver_sub j \<and> forward (dj_status j) (dj_status k)"

definition jobs_forward :: "dispatch_job list \<Rightarrow> dispatch_job list \<Rightarrow> bool" where
  "jobs_forward js ks \<longleftrightarrow> (\<exists>same rest. ks = same @ rest \<and> list_all2 later_job js same)"

lemma later_job_refl [simp]: "later_job j j"
  by (simp add: later_job_def)

lemma later_job_trans: "later_job j k \<Longrightarrow> later_job k l \<Longrightarrow> later_job j l"
  by (auto simp: later_job_def)

lemma jobs_forward_append [simp]: "jobs_forward js (js @ more_jobs)"
  by (auto simp: jobs_forward_def list.rel_refl)

lemma jobs_forward_refl [simp]: "jobs_forward js js"
  using jobs_forward_append [of js "[]"] by simp

lemma jobs_forward_trans: "jobs_forward js ks \<Longrightarrow> jobs_forward ks ls \<Longrightarrow> jobs_forward js ls"
proof -
  assume "jobs_forward js ks" "jobs_forward ks ls"
  then obtain a b c d where e: "ks = a @ b" "list_all2 later_job js a" "ls = c @ d" "list_all2 later_job (a @ b) c"
    by (auto simp: jobs_forward_def)
  then obtain c1 c2 where c: "c = c1 @ c2" "list_all2 later_job a c1" by (auto simp: list_all2_append1)
  have "list_all2 later_job js c1" using later_job_trans e(2) c(2) by (rule list_all2_trans)
  then show ?thesis using e(3) c(1) unfolding jobs_forward_def by (intro exI [of _ c1] exI [of _ "c2 @ d"]) simp
qed

lemma jobs_forward_upd:
  assumes "\<And>j. P j \<Longrightarrow> later_job j (f j)"
  shows "jobs_forward js (upd_rows P f js)"
  unfolding jobs_forward_def using assms
  by (intro exI [of _ "upd_rows P f js"] exI [of _ "[]"]) (auto simp: upd_rows_def list_all2_conv_all_nth)

lemma dispatch_step_forward: "dispatch_step s t \<Longrightarrow> jobs_forward (dispatch_jobs s) (dispatch_jobs t)"
proof (induction rule: dispatch_step.induct)
  case (create s E req)
  then show ?case by (simp add: insert_job_def Let_def)
next
  case (accept s E caller jid)
  then show ?case by (auto simp: accept_mark_def Let_def later_job_def intro!: jobs_forward_upd split: option.split)
next
  case (cancel s E jid)
  then show ?case by (auto simp: CancelDispatchJob_def Let_def later_job_def active_job_def intro!: jobs_forward_upd split: option.split)
next
  case (requeue s E jid)
  then show ?case by (auto simp: RequeueDispatchJob_def later_job_def intro!: jobs_forward_upd)
next
  case (swap s E job v reason)
  then show ?case by (auto simp: swap_mark_def Let_def later_job_def intro!: jobs_forward_upd split: option.split)
next
  case (charter s E operator req)
  obtain r t where t: "charter_tx E operator req s = (r, t)" by (rule prod.exhaust)
  then show ?case
  proof (cases rule: charter_tx_cases)
    case (booked b ls s1)
    from charter_loop_books [OF this(5)] booked(6) t show ?thesis by auto
  qed (simp add: t)
next
  case (cancel_charter s E bid)
  obtain r t where t: "CancelCharter E bid s = (r, t)" by (rule prod.exhaust)
  then show ?case
  proof (cases rule: CancelCharter_cases)
    case (cancelled b)
    then show ?thesis unfolding t snd_conv by (auto simp: later_job_def active_job_def intro!: jobs_forward_upd)
  qed (simp add: t)
next
  case (register s E sub body)
  then show ?case by (simp add: RegisterDriver_def upsertDriver_def Let_def split: sum.split prod.split option.split)
next
  case (create_driver s E dbody)
  then show ?case by (simp add: CreateDriver_def upsertDriver_def Let_def split: sum.split prod.split option.split)
next
  case (driver_status s E sub sbody)
  then show ?case by (simp add: SetDriverStatus_def split: sum.split)
qed

lemma dispatch_wf_step_forward:
  "dispatch_wf_step jid z z' \<Longrightarrow> jobs_forward (dispatch_jobs (snd z)) (dispatch_jobs (snd z'))"
proof (induction rule: dispatch_wf_step.induct)
  case (dw_attempt z E lost)
  obtain w s where z: "z = (w, s)" by (rule prod.exhaust)
  have "jobs_forward (dispatch_jobs s) (dispatch_jobs (snd (RequeueDispatchJob E jid s)))"
    by (rule dispatch_step_forward [OF dispatch_step.requeue])
  then show ?case by (simp add: z dispatch_attempt_def split: dispatch_pc.split prod.split) (metis snd_conv)
qed (auto dest: dispatch_step_forward)

text \<open>
  A dispatch job only moves forward, whatever the endpoints, the charter bookings and the dispatch workflow
  with its timers and retried activities do: no job disappears or changes its driver; an accepted job is
  never requeued by a late timeout, it can only be cancelled; and cancelled and requeued are final.
\<close>

theorem job_only_forward:
  assumes "(dispatch_wf_step jid)\<^sup>*\<^sup>* (w, s) (w', t)"
  shows "list_all2 (\<lambda>j k. dj_id k = dj_id j \<and> dj_driver_sub k = dj_driver_sub j \<and>
    (dj_status j = ''accepted'' \<longrightarrow> dj_status k \<in> {''accepted'', ''cancelled''}) \<and>
    (dj_status j \<in> {''cancelled'', ''requeued''} \<longrightarrow> dj_status k = dj_status j))
    (dispatch_jobs s) (take (length (dispatch_jobs s)) (dispatch_jobs t))"
proof -
  from assms have "jobs_forward (dispatch_jobs (snd (w, s))) (dispatch_jobs (snd (w', t)))"
    by (induction rule: rtranclp_induct) (auto intro: jobs_forward_trans dispatch_wf_step_forward)
  then obtain js rest where t: "dispatch_jobs t = js @ rest" and l: "list_all2 later_job (dispatch_jobs s) js"
    by (auto simp: jobs_forward_def)
  have "take (length (dispatch_jobs s)) (dispatch_jobs t) = js" using list_all2_lengthD [OF l] by (simp add: t)
  then show ?thesis using l by (auto simp: later_job_def elim!: list_all2_mono)
qed

section \<open>Progress of the dispatch workflow\<close>

lemma dispatch_deliver_frame [simp]:
  "dw_pc (dispatch_deliver jid m w) = dw_pc w" "dw_fired (dispatch_deliver jid m w) = dw_fired w"
  "dw_seen (dispatch_deliver jid m w) = Suc (dw_seen w)"
  "0 < dw_assigned (dispatch_deliver jid m w) \<longleftrightarrow> 0 < dw_assigned w \<or> fst m = dispatch_wid jid \<and> fst (snd m) = ''job-assigned''"
  "0 < dw_accepted (dispatch_deliver jid m w) \<longleftrightarrow> 0 < dw_accepted w \<or> fst m = dispatch_wid jid \<and> fst (snd m) = ''job-accepted''"
  "0 < dw_cancelled (dispatch_deliver jid m w) \<longleftrightarrow> 0 < dw_cancelled w \<or> fst m = dispatch_wid jid \<and> fst (snd m) = ''job-cancelled''"
  by (auto simp: dispatch_deliver_def Let_def split: prod.split)

lemma dispatch_deliver_assigned: "dw_assigned (dispatch_deliver jid m w) \<le> Suc (dw_assigned w)"
  by (cases m) (simp add: dispatch_deliver_def Let_def)

definition cancel_waits :: "string \<Rightarrow> dispatch_wf \<times> dispatch_store \<Rightarrow> bool" where
  "cancel_waits jid z \<longleftrightarrow> dw_cancelled (fst z) > 0 \<or> signal_waits (dispatch_wid jid) ''job-cancelled'' (dw_seen (fst z)) (signals (snd z))"

definition assign_waits :: "string \<Rightarrow> dispatch_wf \<times> dispatch_store \<Rightarrow> bool" where
  "assign_waits jid z \<longleftrightarrow> dw_assigned (fst z) > 0 \<or> signal_waits (dispatch_wid jid) ''job-assigned'' (dw_seen (fst z)) (signals (snd z))"

definition accept_waits :: "string \<Rightarrow> dispatch_wf \<times> dispatch_store \<Rightarrow> bool" where
  "accept_waits jid z \<longleftrightarrow> dw_accepted (fst z) > 0 \<or> signal_waits (dispatch_wid jid) ''job-accepted'' (dw_seen (fst z)) (signals (snd z))"

text \<open>The driver's acceptance is on its way and the timer of this assignment has not fired.\<close>

definition in_time :: "string \<Rightarrow> dispatch_wf \<times> dispatch_store \<Rightarrow> bool" where
  "in_time jid z \<longleftrightarrow> accept_waits jid z \<and> (dw_pc (fst z) = AwaitAssign \<and> assign_waits jid z \<or> dw_pc (fst z) = AwaitAccept \<and> \<not> dw_fired (fst z))"

definition dispatch_keeps :: "string \<Rightarrow> dispatch_wf \<times> dispatch_store \<Rightarrow> bool" where
  "dispatch_keeps jid z \<longleftrightarrow> dw_pc (fst z) \<noteq> DispatchFailed \<and> (dw_pc (fst z) = DispatchDone \<or> cancel_waits jid z \<or> in_time jid z)"

fun dispatch_pc_weight :: "dispatch_pc \<Rightarrow> nat" where
  "dispatch_pc_weight AwaitAssign = 1"
| "dispatch_pc_weight AwaitAccept = 3"
| "dispatch_pc_weight (Requeueing n) = 2"
| "dispatch_pc_weight DispatchDone = 0"
| "dispatch_pc_weight DispatchFailed = 0"

definition dispatch_weight :: "dispatch_wf \<times> dispatch_store \<Rightarrow> nat" where
  "dispatch_weight z = 4 * (length (signals (snd z)) - dw_seen (fst z)) + 3 * dw_assigned (fst z) + dispatch_pc_weight (dw_pc (fst z))"

lemmas dispatch_waits_defs = dispatch_keeps_def in_time_def cancel_waits_def assign_waits_def accept_waits_def fst_conv snd_conv

lemma dispatch_deliver_progress:
  assumes "dispatch_keeps jid (w, s)" "dw_seen w < length (signals s)"
  shows "dispatch_keeps jid (dispatch_deliver jid (signals s ! dw_seen w) w, s) \<and>
    dispatch_weight (dispatch_deliver jid (signals s ! dw_seen w) w, s) < dispatch_weight (w, s)"
proof
  note old = assms(1) [unfolded dispatch_waits_defs signal_waits_step [OF assms(2)]]
  show "dispatch_keeps jid (dispatch_deliver jid (signals s ! dw_seen w) w, s)"
    unfolding dispatch_waits_defs dispatch_deliver_frame using old by blast
  show "dispatch_weight (dispatch_deliver jid (signals s ! dw_seen w) w, s) < dispatch_weight (w, s)"
    using assms(2) dispatch_deliver_assigned [of jid "signals s ! dw_seen w" w]
    unfolding dispatch_weight_def fst_conv snd_conv dispatch_deliver_frame by linarith
qed

lemma dispatch_move_progress:
  assumes "dispatch_keeps jid (w, s)" "dispatch_move w = Some w'"
  shows "dispatch_keeps jid (w', s) \<and> dispatch_weight (w', s) < dispatch_weight (w, s)"
  using assms by (auto simp: dispatch_move_def dispatch_waits_defs dispatch_weight_def split: dispatch_pc.splits if_splits)

lemma dispatch_not_blocked:
  assumes "dispatch_keeps jid (w, s)" "dispatch_move w = None" "dw_pc w \<in> {AwaitAssign, AwaitAccept}"
  shows "dw_seen w < length (signals s)"
proof (rule ccontr)
  assume "\<not> dw_seen w < length (signals s)"
  note none = signal_waits_end [OF this]
  from assms none show False by (auto simp: dispatch_move_def dispatch_waits_defs split: if_splits)
qed

lemma dispatch_attempt_progress:
  assumes "dispatch_keeps jid (w, s)" "dw_pc w \<notin> {AwaitAssign, AwaitAccept, DispatchDone}" "\<And>op. \<not> fault E op"
  shows "dispatch_keeps jid (dispatch_attempt E jid False (w, s)) \<and> dispatch_weight (dispatch_attempt E jid False (w, s)) < dispatch_weight (w, s)"
  using assms by (auto simp: dispatch_attempt_def RequeueDispatchJob_def dispatch_waits_defs dispatch_weight_def split: dispatch_pc.splits)

lemma dispatch_next_progress:
  assumes "\<And>op. \<not> fault E op" "dispatch_keeps jid z" "dw_pc (fst z) \<noteq> DispatchDone"
  shows "dispatch_keeps jid (dispatch_next E jid z) \<and> dispatch_weight (dispatch_next E jid z) < dispatch_weight z"
proof -
  obtain w s where z: "z = (w, s)" by (rule prod.exhaust)
  note keep = assms(2) [unfolded z]
  consider (move) w' where "dispatch_move w = Some w'" | (wait) "dispatch_move w = None" "dw_pc w \<in> {AwaitAssign, AwaitAccept}"
    | (activity) "dispatch_move w = None" "dw_pc w \<notin> {AwaitAssign, AwaitAccept}" by (cases "dispatch_move w") auto
  then show ?thesis
  proof cases
    case (move w')
    with dispatch_move_progress [OF keep] show ?thesis by (simp add: z dispatch_next_def)
  next
    case wait
    with dispatch_not_blocked [OF keep] have "dw_seen w < length (signals s)" by blast
    with wait dispatch_deliver_progress [OF keep] show ?thesis by (simp add: z dispatch_next_def)
  next
    case activity
    with dispatch_attempt_progress [OF keep _ assms(1)] assms(3) z show ?thesis by (simp add: dispatch_next_def)
  qed
qed

interpretation dispatch_run: countdown "dispatch_next E jid" dispatch_weight
  "\<lambda>z. (\<forall>op. \<not> fault E op) \<and> dispatch_keeps jid z" "\<lambda>z. dw_pc (fst z) = DispatchDone" for E jid
  by unfold_locales (use dispatch_next_progress in blast)+

text \<open>
  The dispatch workflow closes: when a cancellation is sent, or an acceptance arrives before the timer of its
  assignment fires, a run that has not ended ends after finitely many of its own steps, however often
  the job was requeued before.
\<close>

theorem dispatch_workflow_closes:
  assumes "\<And>op. \<not> fault E op" and "dw_pc w \<notin> {DispatchDone, DispatchFailed}" and "cancel_waits jid (w, s) \<or> in_time jid (w, s)"
  shows "\<exists>n \<le> 4 * (length (signals s) - dw_seen w) + 3 * dw_assigned w + 3. dw_pc (fst ((dispatch_next E jid ^^ n) (w, s))) = DispatchDone"
proof -
  have "dispatch_keeps jid (w, s)" using assms by (simp add: dispatch_keeps_def)
  then obtain n where n: "n \<le> dispatch_weight (w, s)" "dw_pc (fst ((dispatch_next E jid ^^ n) (w, s))) = DispatchDone"
    using dispatch_run.reaches [of E jid "(w, s)"] assms(1) by blast
  have "dispatch_pc_weight (dw_pc w) \<le> 3" by (cases "dw_pc w") auto
  with n show ?thesis by (intro exI [of _ n]) (simp add: dispatch_weight_def)
qed

section \<open>Worked examples\<close>

definition drip_row :: "string \<Rightarrow> incident" where
  "drip_row sev = \<lparr>in_id = ''x'', in_type = ''h2_leak'', in_severity = sev, in_bus_id = None, in_station_id = None, in_status = ''open'',
     in_opened_at = 0, in_meta = [], in_resolved_at = None\<rparr>"

definition alarm :: "string list \<Rightarrow> safety_store" where
  "alarm names = plant\<lparr>incidents := [drip_row ''low''], sf_signals := map (\<lambda>n. (incident_wid ''x'', n, [])) names\<rparr>"

theorem incident_workflow_closes_witness:
  "\<exists>n w' t. n \<le> 10 \<and> (incident_next id_env ''x'' ^^ n) (incident_start, alarm [''leak-detected'', ''incident-resolved'']) = (w', t) \<and>
     iw_pc w' = WfDone"
proof -
  let ?s = "alarm [''leak-detected'', ''incident-resolved'']"
  have waits: "leak_waits ''x'' (incident_start, ?s)" "resolve_waits ''x'' (incident_start, ?s)"
    by (simp_all add: leak_waits_def resolve_waits_def signal_waits_def alarm_def incident_start_def)
  have start: "iw_pc incident_start \<notin> {WfDone, WfFailed}" "iw_seen incident_start = 0" "iw_acks incident_start = 0" "length (sf_signals ?s) = 2"
    by (simp_all add: incident_start_def alarm_def)
  from incident_workflow_closes [OF id_env_facts(1) start(1) waits] start(2-4) show ?thesis by auto
qed

text \<open>Five own steps read the two signals, start the watch and take the acknowledgement.\<close>

definition watched :: "nat \<Rightarrow> incident_wf \<times> safety_store" where
  "watched n = (incident_next id_env ''x'' ^^ n) (incident_start, alarm [''leak-detected'', ''incident-acknowledged''])"

lemma watched_steps:
  "fst (watched 5) = \<lparr>iw_pc = Watching, iw_seen = 2, iw_leaks = 0, iw_acks = 0, iw_resolves = 0, iw_acknowledged = True,
     iw_escalated = False, iw_deadline = now id_env + IncidentEscalationTimeout, iw_fired = False\<rparr>"
  by (simp add: watched_def eval_nat_numeral incident_next_def incident_move_def incident_deliver_def incident_attempt_def SetIncidentInProgress_def
      incident_start_def alarm_def id_env_facts Let_def)

theorem escalates_once_witness:
  "\<exists>w t. (incident_wf_step ''x'')\<^sup>*\<^sup>* (incident_start, alarm [''leak-detected'', ''incident-acknowledged'']) (w, t) \<and> iw_acknowledged w \<and>
     iw_pc w \<noteq> Escalating MaximumAttempts"
proof -
  obtain w t where e: "watched 5 = (w, t)" by (rule prod.exhaust)
  have run: "(incident_wf_step ''x'')\<^sup>*\<^sup>* (incident_start, alarm [''leak-detected'', ''incident-acknowledged'']) (w, t)"
    using incident_next_run [of "''x''" "(incident_start, alarm [''leak-detected'', ''incident-acknowledged''])" 5 id_env]
    unfolding watched_def [symmetric] e .
  have a: "iw_acknowledged w" using watched_steps by (simp add: e)
  from escalates_once [OF run disjI1 [OF a] rtranclp.rtrancl_refl] run a show ?thesis by blast
qed

text \<open>
  The comment calls all activities idempotent, but an escalation whose report is lost is repeated: two
  attempts of one escalation raise the severity by two levels.
\<close>

lemma lost_report_escalates_twice:
  "map in_severity (incidents (snd (incident_attempt id_env ''x'' False (incident_attempt id_env ''x'' True
     (incident_start\<lparr>iw_pc := Escalating MaximumAttempts\<rparr>, alarm []))))) = [''high'']"
  by (simp add: incident_attempt_def EscalateIncident_def alarm_def drip_row_def bump_severity_def id_env_facts MaximumAttempts_def)

text \<open>
  An acceptance that reaches the workflow after its timer finds no reader: the job stays accepted, because the
  requeueing skips it, and the workflow waits for an assignment that no endpoint sends again.
\<close>

lemma late_acceptance_unread:
  assumes "dw_pc w = AwaitAssign" "dw_assigned w = 0" "dw_cancelled w = 0"
  shows "dispatch_move (w\<lparr>dw_accepted := n\<rparr>) = None"
  using assms by (simp add: dispatch_move_def)

text \<open>The timeout fires although the driver accepted: the requeueing leaves the accepted job alone.\<close>

theorem job_only_forward_witness:
  "\<exists>w. (dispatch_wf_step ''j1'')\<^sup>*\<^sup>* (dispatch_start\<lparr>dw_pc := Requeueing MaximumAttempts\<rparr>, depot True) (w, snd (RequeueDispatchJob (depot_env ''z'') ''j1'' (depot True))) \<and>
     (\<exists>k. take 1 (dispatch_jobs (snd (RequeueDispatchJob (depot_env ''z'') ''j1'' (depot True)))) = [k] \<and> dj_status k \<in> {''accepted'', ''cancelled''})"
proof -
  let ?z = "(dispatch_start\<lparr>dw_pc := Requeueing MaximumAttempts\<rparr>, depot True)" and ?t = "snd (RequeueDispatchJob (depot_env ''z'') ''j1'' (depot True))"
  obtain w where "dispatch_attempt (depot_env ''z'') ''j1'' False ?z = (w, ?t)" by (simp add: dispatch_attempt_def RequeueDispatchJob_def)
  with dw_attempt [of "''j1''" ?z "depot_env ''z''" False] have run: "(dispatch_wf_step ''j1'')\<^sup>*\<^sup>* ?z (w, ?t)" by auto
  have jobs: "dispatch_jobs (depot True) = [morning]" "dj_status morning = ''accepted''" by (simp_all add: depot_def morning_def)
  have "\<exists>k. take 1 (dispatch_jobs ?t) = [k] \<and> dj_status k \<in> {''accepted'', ''cancelled''}"
    using job_only_forward [OF run] jobs by (auto simp: list_all2_Cons1)
  with run show ?thesis by blast
qed

theorem dispatch_workflow_closes_witness:
  "\<exists>n \<le> 7. dw_pc (fst ((dispatch_next (depot_env ''z'') ''j1'' ^^ n) (dispatch_start, (depot True)\<lparr>signals := [(dispatch_wid ''j1'', ''job-cancelled'', [])]\<rparr>)))
     = DispatchDone"
proof -
  let ?s = "(depot True)\<lparr>signals := [(dispatch_wid ''j1'', ''job-cancelled'', [])]\<rparr>"
  have "dw_pc dispatch_start \<notin> {DispatchDone, DispatchFailed}" "cancel_waits ''j1'' (dispatch_start, ?s) \<or> in_time ''j1'' (dispatch_start, ?s)"
    by (simp_all add: dispatch_start_def cancel_waits_def signal_waits_def)
  from dispatch_workflow_closes [OF depot_env_simps(1) this] show ?thesis by (simp add: dispatch_start_def)
qed

theorem manual_incident_never_watched_witness:
  "\<exists>i s1. OpenIncident id_env (hook_demo 200) (Some fire) plant = (Reply 201 i, s1) \<and>
     iw_pc (fst (incident_next id_env (in_id i) (incident_start, s1))) = AwaitLeak"
proof -
  obtain i s1 where run: "OpenIncident id_env (hook_demo 200) (Some fire) plant = (Reply 201 i, s1)"
    unfolding OpenIncident_def fire_request sum.case fire_insert by simp
  obtain w t where n: "incident_next id_env (in_id i) (incident_start, s1) = (w, t)" by (rule prod.exhaust)
  have sig: "sf_signals s1 = []" using open_sends_no_signal [of id_env "hook_demo 200" "Some fire" plant]
    unfolding run snd_conv by (simp add: plant_def)
  then have "t = s1" using n by (auto simp: incident_next_def incident_start_def incident_move_def)
  then have "\<not> signal_waits (incident_wid (in_id i)) ''leak-detected'' (length (sf_signals s1)) (sf_signals t)" by (simp add: signal_waits_def)
  moreover have "\<not> signal_waits (incident_wid (in_id i)) ''leak-detected'' 0 (sf_signals plant)" by (simp add: signal_waits_def plant_def)
  moreover have "(incident_wf_step (in_id i))\<^sup>*\<^sup>* (incident_start, s1) (w, t)" using incident_next_steps [of "in_id i" "(incident_start, s1)" id_env] n by simp
  ultimately have "iw_pc w = AwaitLeak" using manual_incident_never_watched [OF run] by blast
  with run n show ?thesis by auto
qed

end
