(* ===== verification/Permify.thy ===== *)
theory Permify
  imports Auth "HOL-Library.Word"
begin

text \<open>
  The Permify client (src/packages/go-auth/permify.go): protobuf wire format over bytes and 64-bit words, the
  permission check and the middleware. The remote call is a parameter that answers a request with an
  error or with bytes. The reference decoder \<open>pb_fields\<close> reads a message as its list of fields.
\<close>

unbundle bit_operations_syntax

type_synonym octets = "8 word list"

definition octets_of :: "string \<Rightarrow> octets" where
  "octets_of s = map of_char s"

section \<open>Varints\<close>

lemma unat_drop_7: "unat (drop_bit 7 v) = unat (v :: 64 word) div 128"
  by (simp add: drop_bit_eq_div unat_div_distrib)

function appendVarint :: "octets \<Rightarrow> 64 word \<Rightarrow> octets" where
  "appendVarint b v = (if v \<ge> 0x80 then appendVarint (b @ [ucast v OR 0x80]) (drop_bit 7 v) else b @ [ucast v])"
  by pat_completeness auto
termination
  by (relation "measure (\<lambda>(b, v). unat v)") (simp_all add: unat_drop_7 word_le_nat_alt)

declare appendVarint.simps [simp del]

datatype pb_error = InvalidVarint | Truncated | UnsupportedWire int | MissingCan

fun consume_from :: "nat \<Rightarrow> 64 word \<Rightarrow> octets \<Rightarrow> pb_error + 64 word \<times> nat" where
  "consume_from i v [] = Inl InvalidVarint"
| "consume_from i v (x # xs) =
     (if i \<ge> 10 then Inl InvalidVarint
      else let v' = v OR push_bit (7 * i) (ucast (x AND 0x7f)) in
        if x < 0x80 then Inr (v', i + 1) else consume_from (i + 1) v' xs)"

definition consumeVarint :: "octets \<Rightarrow> pb_error + 64 word \<times> nat" where
  "consumeVarint b = consume_from 0 0 b"

definition consumeTag :: "octets \<Rightarrow> pb_error + 64 word \<times> 64 word \<times> nat" where
  "consumeTag b = (case consumeVarint b of Inl e \<Rightarrow> Inl e | Inr (v, n) \<Rightarrow> Inr (drop_bit 3 v, v AND 7, n))"

lemma consume_from_length: "consume_from i v b = Inr (w, n) \<Longrightarrow> i < n \<and> n \<le> i + length b"
  by (induction i v b rule: consume_from.induct) (fastforce simp: Let_def split: if_splits)+

lemma consumeVarint_length: "consumeVarint b = Inr (w, n) \<Longrightarrow> 0 < n \<and> n \<le> length b"
  using consume_from_length [of 0 0 b w n] by (simp add: consumeVarint_def)

lemma consumeTag_length: "consumeTag b = Inr (f, w, n) \<Longrightarrow> 0 < n \<and> n \<le> length b"
  using consumeVarint_length by (auto simp: consumeTag_def split: sum.splits)

section \<open>Messages\<close>

definition pbBytes :: "64 word \<Rightarrow> octets \<Rightarrow> octets" where
  "pbBytes field b = appendVarint (appendVarint [] (push_bit 3 field OR 2)) (of_nat (length b)) @ b"

definition pbString :: "64 word \<Rightarrow> string \<Rightarrow> octets" where
  "pbString field s = pbBytes field (octets_of s)"

definition pbVarint :: "64 word \<Rightarrow> 64 word \<Rightarrow> octets" where
  "pbVarint field v = appendVarint (appendVarint [] (push_bit 3 field)) v"

definition permifyCheckDepth :: "64 word" where
  "permifyCheckDepth = 20"

definition marshalCheckRequest :: "string \<Rightarrow> string \<Rightarrow> string \<Rightarrow> string \<Rightarrow> string \<Rightarrow> octets" where
  "marshalCheckRequest tenant entityType entityID permission subjectID =
     (let entity = pbString 1 entityType @ pbString 2 entityID;
          subject = pbString 1 ''user'' @ pbString 2 subjectID;
          metadata = pbVarint 3 permifyCheckDepth in
      pbString 1 tenant @ pbBytes 2 metadata @ pbBytes 3 entity @ pbString 4 permission @ pbBytes 5 subject)"

text \<open>The value of field 1 as Go's \<open>int\<close>.\<close>

function parseCheckResponse :: "octets \<Rightarrow> pb_error + int" where
  "parseCheckResponse b =
     (if b = [] then Inl MissingCan
      else case consumeTag b of
        Inl e \<Rightarrow> Inl e
      | Inr (field, wire, n) \<Rightarrow>
          if wire = 0 then
            (case consumeVarint (drop n b) of
               Inl e \<Rightarrow> Inl e
             | Inr (v, m) \<Rightarrow> if field = 1 then Inr (sint v) else parseCheckResponse (drop m (drop n b)))
          else if wire = 2 then
            (case consumeVarint (drop n b) of
               Inl e \<Rightarrow> Inl e
             | Inr (l, m) \<Rightarrow>
                 if length (drop m (drop n b)) < unat l then Inl Truncated
                 else parseCheckResponse (drop (unat l) (drop m (drop n b))))
          else Inl (UnsupportedWire (uint wire)))"
  by pat_completeness auto
termination
  by (relation "measure length") (auto dest!: consumeTag_length)

declare parseCheckResponse.simps [simp del]

section \<open>Checks and the middleware\<close>

record permify =
  pm_tenant :: string

text \<open>\<open>dial\<close> says whether the address is a well-formed target.\<close>

definition NewPermify :: "(string \<Rightarrow> bool) \<Rightarrow> string \<Rightarrow> string \<Rightarrow> permify option" where
  "NewPermify dial addr tenant =
     (let a = trim_space addr in
      if a = [] then None
      else if \<not> dial a then None
      else Some \<lparr>pm_tenant = (if tenant = [] then ''t1'' else tenant)\<rparr>)"

type_synonym pm_call = "octets \<Rightarrow> string + octets"

datatype pm_error = NotConfigured | CallFailed string | BadResponse pb_error

definition Check :: "permify option \<Rightarrow> pm_call \<Rightarrow> string \<Rightarrow> string \<Rightarrow> string \<Rightarrow> string \<Rightarrow> pm_error + bool" where
  "Check client call entityType entityID permission subjectID =
     (case client of
        None \<Rightarrow> Inl NotConfigured
      | Some c \<Rightarrow>
          (case call (marshalCheckRequest (pm_tenant c) entityType entityID permission subjectID) of
             Inl e \<Rightarrow> Inl (CallFailed e)
           | Inr resp \<Rightarrow> (case parseCheckResponse resp of Inl e \<Rightarrow> Inl (BadResponse e) | Inr can \<Rightarrow> Inr (can = 1))))"

datatype pm_outcome = Serve | Refuse nat string

text \<open>
  Building the middleware reads \<open>c.log\<close> before anything else, which is a nil dereference without a
  client: no middleware is returned then.
\<close>

definition permify_Require :: "permify option \<Rightarrow> string \<Rightarrow> string \<Rightarrow> (pm_call \<Rightarrow> ctx \<Rightarrow> string \<Rightarrow> pm_outcome) option" where
  "permify_Require client entityType permission =
     (case client of
        None \<Rightarrow> None
      | Some c \<Rightarrow> Some (\<lambda>call cx entityID.
          if Subject cx = [] then Refuse 401 ''authenticated subject required for authorization check''
          else case Check (Some c) call entityType entityID permission (Subject cx) of
            Inl e \<Rightarrow> Refuse 502 ''authorization check unavailable''
          | Inr allowed \<Rightarrow> if allowed then Serve
              else Refuse 403 (''permify denied '' @ entityType @ '':'' @ entityID @ ''#'' @ permission)))"

section \<open>Round trip of varints\<close>

declare bit_numeral_word_iff [simp del]

lemma varint_small: "v < 0x80 \<Longrightarrow> appendVarint b v = b @ [ucast v]"
  by (subst appendVarint.simps) (simp only: not_le [symmetric] if_False)

lemma varint_large: "v \<ge> 0x80 \<Longrightarrow> appendVarint b v = appendVarint (b @ [ucast v OR 0x80]) (drop_bit 7 v)"
  by (subst appendVarint.simps) simp

lemma varint_smaller: "v \<ge> 0x80 \<Longrightarrow> unat (drop_bit 7 v) < unat (v :: 64 word)"
  by (simp add: unat_drop_7 word_le_nat_alt)

lemma append_varint: "appendVarint b v = b @ appendVarint [] v"
proof (induction "unat v" arbitrary: b v rule: less_induct)
  case less
  show ?case
  proof (cases "v \<ge> 0x80")
    case True
    note ih = less.hyps [OF varint_smaller [OF True]]
    show ?thesis using ih [of "b @ [ucast v OR 0x80]"] ih [of "[ucast v OR 0x80]"] by (simp add: varint_large [OF True])
  qed (simp add: varint_small not_le)
qed

lemma varint_Cons: "v \<ge> 0x80 \<Longrightarrow> appendVarint [] v = (ucast v OR 0x80) # appendVarint [] (drop_bit 7 v)"
  using append_varint [of "[ucast v OR 0x80]"] by (simp add: varint_large)

lemma bit_7f: "bit (0x7f :: 8 word) n \<longleftrightarrow> n < 7"
proof -
  have "(0x7f :: 8 word) = mask 7" by (simp add: mask_eq_exp_minus_1)
  then have "bit (0x7f :: 8 word) n = bit (mask 7 :: 8 word) n" by (simp only:)
  also have "\<dots> \<longleftrightarrow> n < 7" by (auto simp: bit_mask_iff)
  finally show ?thesis .
qed

lemma bit_80: "bit (0x80 :: 8 word) n \<longleftrightarrow> n = 7"
proof -
  have "(0x80 :: 8 word) = 2 ^ 7" by simp
  then have "bit (0x80 :: 8 word) n = bit (2 ^ 7 :: 8 word) n" by (simp only:)
  also have "\<dots> \<longleftrightarrow> n = 7" by (auto simp: bit_exp_iff simp del: power_numeral power_Suc)
  finally show ?thesis .
qed

lemma bit_septet: "bit (((x :: 8 word) OR 0x80) AND 0x7f) n \<longleftrightarrow> n < 7 \<and> bit x n"
  by (auto simp: bit_or_iff bit_and_iff bit_7f bit_80)

lemma low_bits:
  "push_bit k (ucast ((ucast (v :: 64 word) OR 0x80) AND 0x7f :: 8 word)) OR push_bit (k + 7) (drop_bit 7 v) = push_bit k v"
proof (rule bit_word_eqI)
  fix n assume "n < LENGTH(64)"
  moreover have "7 + (n - (k + 7)) = n - k" if "k + 7 \<le> n" using that by simp
  moreover have "n - k < 7 \<or> k + 7 \<le> n" if "k \<le> n" using that by linarith
  ultimately show "bit (push_bit k (ucast ((ucast v OR 0x80) AND 0x7f :: 8 word)) OR push_bit (k + 7) (drop_bit 7 v)) n = bit (push_bit k v) n"
    by (auto simp: bit_or_iff bit_push_bit_iff bit_drop_bit_eq bit_septet bit_ucast_iff)
qed

lemma last_bits:
  assumes "v < (0x80 :: 64 word)"
  shows "ucast (ucast v AND 0x7f :: 8 word) = v"
proof -
  have "ucast (ucast v AND 0x7f :: 8 word) = take_bit 7 v"
    by (intro bit_word_eqI) (auto simp: bit_and_iff bit_ucast_iff bit_take_bit_iff bit_7f)
  also have "\<dots> = v" using assms by (simp add: take_bit_eq_mod word_less_nat_alt word_unat_eq_iff unat_mod_distrib)
  finally show ?thesis .
qed

lemma continues: "\<not> (x OR 0x80 :: 8 word) < 0x80"
proof -
  have "bit (x OR 0x80) 7" by (simp add: bit_or_iff bit_80)
  moreover have "\<not> bit y 7" if "y < 0x80" for y :: "8 word"
  proof -
    have "unat y div 2 ^ 7 = 0" using that by (simp add: word_less_nat_alt)
    then have "\<not> bit (unat y) 7" by (simp add: bit_iff_odd)
    then show ?thesis by (simp add: bit_unsigned_iff)
  qed
  ultimately show ?thesis by blast
qed

text \<open>Reading at byte \<open>i\<close>: the value still fits into the bits that are left.\<close>

lemma consume_from_varint:
  "i < 10 \<Longrightarrow> unat v < 2 ^ (64 - 7 * i) \<Longrightarrow>
     consume_from i u (appendVarint [] v @ rest) = Inr (u OR push_bit (7 * i) v, i + length (appendVarint [] v))"
proof (induction "unat v" arbitrary: i u v rule: less_induct)
  case less
  show ?case
  proof (cases "v \<ge> 0x80")
    case False
    then have "v < 0x80" by simp
    moreover from this have "(ucast v :: 8 word) < 0x80"
      by (simp add: word_less_nat_alt unsigned_ucast_eq take_bit_eq_mod)
    ultimately show ?thesis using less.prems(1) by (simp add: varint_small last_bits Let_def)
  next
    case True
    then have big: "128 \<le> unat v" by (simp add: word_le_nat_alt)
    have "i \<noteq> 9" using less.prems(2) big by auto
    then have i: "i + 1 < 10" using less.prems(1) by simp
    have "unat v < 2 ^ (7 + (64 - 7 * (i + 1)))" using less.prems(2) i by (simp add: less_diff_conv)
    then have "unat (drop_bit 7 v) < 2 ^ (64 - 7 * (i + 1))" by (simp add: unat_drop_7 power_add less_mult_imp_div_less mult.commute)
    note ih = less.hyps [OF varint_smaller [OF True] i this]
    let ?u = "u OR push_bit (7 * i) (ucast ((ucast v OR 0x80) AND 0x7f :: 8 word))"
    have "?u OR push_bit (7 * (i + 1)) (drop_bit 7 v) = u OR push_bit (7 * i) v"
      using low_bits [of "7 * i" v] by (simp add: algebra_simps or.assoc)
    from ih [of ?u, unfolded this] show ?thesis using less.prems(1) continues [of "ucast v"]
      by (simp add: varint_Cons [OF True] Let_def)
  qed
qed

text \<open>
  Every 64-bit number survives the variable-length encoding: what is written is read back, with its
  length, whatever bytes follow.
\<close>

theorem varint_roundtrip:
  "consumeVarint (appendVarint [] v @ rest) = Inr (v, length (appendVarint [] v))"
  using consume_from_varint [of 0 v 0 rest] unsigned_less [where ?'a = nat, of v] by (simp add: consumeVarint_def)

section \<open>Fields\<close>

text \<open>A message as the list of its fields: number and value, a varint or bytes.\<close>

type_synonym pb_field = "64 word \<times> (64 word + octets)"

function pb_fields :: "octets \<Rightarrow> pb_field list option" where
  "pb_fields b =
     (if b = [] then Some []
      else case consumeTag b of
        Inl e \<Rightarrow> None
      | Inr (field, wire, n) \<Rightarrow>
          (case consumeVarint (drop n b) of
             Inl e \<Rightarrow> None
           | Inr (v, m) \<Rightarrow>
               if wire = 0 then map_option (Cons (field, Inl v)) (pb_fields (drop m (drop n b)))
               else if wire = 2 \<and> unat v \<le> length (drop m (drop n b))
               then map_option (Cons (field, Inr (take (unat v) (drop m (drop n b))))) (pb_fields (drop (unat v) (drop m (drop n b))))
               else None))"
  by pat_completeness auto
termination
  by (relation "measure length") (auto dest!: consumeTag_length)

declare pb_fields.simps [simp del]

definition pb_encode :: "pb_field \<Rightarrow> octets" where
  "pb_encode x = (case x of (f, Inl v) \<Rightarrow> pbVarint f v | (f, Inr b) \<Rightarrow> pbBytes f b)"

definition pb_valid :: "pb_field \<Rightarrow> bool" where
  "pb_valid x \<longleftrightarrow> fst x < 2 ^ 61 \<and> (case snd x of Inl v \<Rightarrow> True | Inr b \<Rightarrow> length b < 2 ^ 64)"

lemma tag_field:
  assumes "f < (2 ^ 61 :: 64 word)" "w < 8"
  shows "drop_bit 3 (push_bit 3 f OR w) = f" "(push_bit 3 f OR w) AND 7 = w"
proof -
  have f: "f = take_bit 61 f" using assms(1) by (simp add: take_bit_eq_mod word_less_nat_alt word_unat_eq_iff unat_mod_distrib)
  have w: "w = take_bit 3 w" using assms(2) by (simp add: take_bit_eq_mod word_less_nat_alt word_unat_eq_iff unat_mod_distrib)
  have bf: "bit f n \<Longrightarrow> n < 61" for n by (subst (asm) f) (simp add: bit_take_bit_iff)
  have bw: "bit w n \<Longrightarrow> n < 3" for n by (subst (asm) w) (simp add: bit_take_bit_iff)
  have seven: "(7 :: 64 word) = mask 3" by (simp add: mask_eq_exp_minus_1)
  show "drop_bit 3 (push_bit 3 f OR w) = f"
    by (rule bit_word_eqI) (auto simp: bit_or_iff bit_push_bit_iff bit_drop_bit_eq dest: bf bw)
  show "(push_bit 3 f OR w) AND 7 = w"
    unfolding seven by (rule bit_word_eqI) (auto simp: bit_or_iff bit_and_iff bit_push_bit_iff bit_mask_iff dest: bf bw)
qed

lemma consumeTag_field:
  assumes "f < (2 ^ 61 :: 64 word)" "w < 8"
  shows "consumeTag (appendVarint [] (push_bit 3 f OR w) @ rest) = Inr (f, w, length (appendVarint [] (push_bit 3 f OR w)))"
  unfolding consumeTag_def varint_roundtrip sum.case prod.case tag_field [OF assms] ..

lemma varint_nonempty [simp]: "appendVarint [] v \<noteq> []"
  by (cases "v \<ge> 0x80") (simp_all add: varint_Cons varint_small not_le)

lemma pbVarint_layout: "pbVarint f v = appendVarint [] (push_bit 3 f) @ appendVarint [] v"
  unfolding pbVarint_def by (rule append_varint)

lemma pbBytes_layout: "pbBytes f b = appendVarint [] (push_bit 3 f OR 2) @ appendVarint [] (of_nat (length b)) @ b"
  unfolding pbBytes_def by (subst append_varint) simp

lemma field_nonempty [simp]: "pbBytes f b \<noteq> []" "pbVarint f v \<noteq> []"
  by (simp_all add: pbBytes_layout pbVarint_layout)

lemma consumeTag_varint: "f < (2 ^ 61 :: 64 word) \<Longrightarrow> consumeTag (appendVarint [] (push_bit 3 f) @ rest) = Inr (f, 0, length (appendVarint [] (push_bit 3 f)))"
  using consumeTag_field [of f 0] by simp

text \<open>How a decoder passes over one field.\<close>

lemma drop_prefix: "drop (length xs) (xs @ ys) = ys"
  by simp

lemma take_prefix: "take (length xs) (xs @ ys) = xs"
  by simp

lemma field_bytes:
  assumes "f < (2 ^ 61 :: 64 word)" "length b < 2 ^ 64"
  shows "consumeTag (pbBytes f b @ rest) = Inr (f, 2, length (appendVarint [] (push_bit 3 f OR 2)))"
    and "drop (length (appendVarint [] (push_bit 3 f OR 2))) (pbBytes f b @ rest) = appendVarint [] (of_nat (length b)) @ b @ rest"
    and "unat (of_nat (length b) :: 64 word) = length b"
  using assms consumeTag_field [of f 2] by (simp_all add: pbBytes_layout unat_of_nat)

lemma field_varint:
  assumes "f < (2 ^ 61 :: 64 word)"
  shows "consumeTag (pbVarint f v @ rest) = Inr (f, 0, length (appendVarint [] (push_bit 3 f)))"
    and "drop (length (appendVarint [] (push_bit 3 f))) (pbVarint f v @ rest) = appendVarint [] v @ rest"
  using assms consumeTag_varint [of f] by (simp_all add: pbVarint_layout)

lemma pb_fields_bytes:
  assumes "f < (2 ^ 61 :: 64 word)" "length b < 2 ^ 64"
  shows "pb_fields (pbBytes f b @ rest) = map_option (Cons (f, Inr b)) (pb_fields rest)"
  by (subst pb_fields.simps) (simp add: field_bytes [OF assms] varint_roundtrip drop_prefix take_prefix del: drop_append take_append)

lemma pb_fields_varint:
  assumes "f < (2 ^ 61 :: 64 word)"
  shows "pb_fields (pbVarint f v @ rest) = map_option (Cons (f, Inl v)) (pb_fields rest)"
  by (subst pb_fields.simps) (simp add: field_varint [OF assms] varint_roundtrip drop_prefix take_prefix del: drop_append take_append)

lemma pb_fields_Nil [simp]: "pb_fields [] = Some []"
  by (simp add: pb_fields.simps)

lemma parse_bytes:
  assumes "f < (2 ^ 61 :: 64 word)" "length b < 2 ^ 64"
  shows "parseCheckResponse (pbBytes f b @ rest) = parseCheckResponse rest"
  by (subst parseCheckResponse.simps) (simp add: field_bytes [OF assms] varint_roundtrip drop_prefix take_prefix del: drop_append take_append)

lemma parse_varint:
  assumes "f < (2 ^ 61 :: 64 word)"
  shows "parseCheckResponse (pbVarint f v @ rest) = (if f = 1 then Inr (sint v) else parseCheckResponse rest)"
  by (subst parseCheckResponse.simps) (simp split del: if_split cong: if_cong add: field_varint [OF assms] varint_roundtrip drop_prefix take_prefix del: drop_append take_append)

lemma parse_Nil: "parseCheckResponse [] = Inl MissingCan"
  by (simp add: parseCheckResponse.simps)

text \<open>The answer of a message is its first varint numbered 1.\<close>

fun first_can :: "pb_field list \<Rightarrow> pb_error + int" where
  "first_can [] = Inl MissingCan"
| "first_can ((f, Inl v) # fs) = (if f = 1 then Inr (sint v) else first_can fs)"
| "first_can ((f, Inr b) # fs) = first_can fs"

lemma parse_fields: "list_all pb_valid fs \<Longrightarrow> parseCheckResponse (concat (map pb_encode fs)) = first_can fs"
  by (induction fs rule: first_can.induct) (simp_all add: parse_Nil pb_encode_def pb_valid_def parse_varint parse_bytes)

section \<open>Properties\<close>

lemma consume_from_ten: "consume_from i v b = Inr (w, n) \<Longrightarrow> n \<le> 10"
  by (induction i v b rule: consume_from.induct) (auto simp: Let_def split: if_splits)

lemma varint_ten: "length (appendVarint [] v) \<le> 10"
  using varint_roundtrip [of v "[]"] consume_from_ten [of 0 0 "appendVarint [] v"] by (simp add: consumeVarint_def)

lemma pbString_length: "length (pbString f s) \<le> 20 + length s"
  using varint_ten [of "push_bit 3 f OR 2"] varint_ten [of "of_nat (length s)"]
  unfolding pbString_def pbBytes_layout by (simp add: octets_of_def)

lemma pbVarint_length: "length (pbVarint f v) \<le> 20"
  using varint_ten [of "push_bit 3 f"] varint_ten [of v] unfolding pbVarint_layout by simp

lemma pb_fields_string:
  assumes "f < (2 ^ 61 :: 64 word)" "length s < 2 ^ 64"
  shows "pb_fields (pbString f s @ rest) = map_option (Cons (f, Inr (octets_of s))) (pb_fields rest)"
    "pb_fields (pbString f s) = Some [(f, Inr (octets_of s))]"
  using pb_fields_bytes [of f "octets_of s" rest] pb_fields_bytes [of f "octets_of s" "[]"] assms
  by (simp_all add: pbString_def octets_of_def)

lemma pb_fields_bytes_last: "f < (2 ^ 61 :: 64 word) \<Longrightarrow> length b < 2 ^ 64 \<Longrightarrow> pb_fields (pbBytes f b) = Some [(f, Inr b)]"
  using pb_fields_bytes [of f b "[]"] by simp

lemma octets_of_inject [simp]: "octets_of s = octets_of t \<longleftrightarrow> s = t"
proof -
  have "inj (of_char :: char \<Rightarrow> 8 word)"
  proof (rule injI)
    fix c d assume "(of_char c :: 8 word) = of_char d"
    then have "(of_nat (of_char c) :: 8 word) = of_nat (of_char d)" by (simp add: of_nat_of_char)
    then have "unat (of_nat (of_char c) :: 8 word) = unat (of_nat (of_char d) :: 8 word)" by (rule arg_cong)
    then have "(of_char c :: nat) mod 256 = of_char d mod 256" by (simp add: unat_of_nat)
    then show "c = d" by (simp add: of_char_mod_256)
  qed
  then show ?thesis by (simp add: octets_of_def inj_map_eq_map)
qed

text \<open>
  C20. A check request on the wire is the message of the schema: read by a protobuf decoder, it has exactly the
  tenant, the depth 20, the entity, the permission and the user that were asked about, so no two
  different checks share their bytes.
\<close>

theorem check_request_decodes:
  assumes "length tenant < 2 ^ 32" "length entityType < 2 ^ 32" "length entityID < 2 ^ 32" "length permission < 2 ^ 32"
    "length subjectID < 2 ^ 32"
  shows "\<exists>meta entity subject.
    pb_fields (marshalCheckRequest tenant entityType entityID permission subjectID) =
      Some [(1, Inr (octets_of tenant)), (2, Inr meta), (3, Inr entity), (4, Inr (octets_of permission)), (5, Inr subject)] \<and>
    pb_fields meta = Some [(3, Inl 20)] \<and>
    pb_fields entity = Some [(1, Inr (octets_of entityType)), (2, Inr (octets_of entityID))] \<and>
    pb_fields subject = Some [(1, Inr (octets_of ''user'')), (2, Inr (octets_of subjectID))]"
proof -
  let ?m = "pbVarint 3 20" and ?e = "pbString 1 entityType @ pbString 2 entityID" and ?s = "pbString 1 ''user'' @ pbString 2 subjectID"
  have small: "length ?m < 2 ^ 64" "length ?e < 2 ^ 64" "length ?s < 2 ^ 64"
    using assms pbVarint_length [of 3 20] pbString_length [of 1 entityType] pbString_length [of 2 entityID]
      pbString_length [of 1 "''user''"] pbString_length [of 2 subjectID] by simp_all
  have long: "n < 2 ^ 32 \<Longrightarrow> n < 2 ^ 64" for n :: nat by simp
  have num: "(1 :: 64 word) < 2 ^ 61" "(2 :: 64 word) < 2 ^ 61" "(3 :: 64 word) < 2 ^ 61" "(4 :: 64 word) < 2 ^ 61" "(5 :: 64 word) < 2 ^ 61"
    by simp_all
  have "pb_fields ?m = Some [(3, Inl 20)]" using pb_fields_varint [OF num(3), of 20 "[]"] by simp
  moreover have "pb_fields ?e = Some [(1, Inr (octets_of entityType)), (2, Inr (octets_of entityID))]"
    using assms by (simp add: pb_fields_string [OF num(1)] pb_fields_string [OF num(2)] long)
  moreover have "pb_fields ?s = Some [(1, Inr (octets_of ''user'')), (2, Inr (octets_of subjectID))]"
    using assms by (simp add: pb_fields_string [OF num(1)] pb_fields_string [OF num(2)] long)
  moreover have "pb_fields (marshalCheckRequest tenant entityType entityID permission subjectID) =
      Some [(1, Inr (octets_of tenant)), (2, Inr ?m), (3, Inr ?e), (4, Inr (octets_of permission)), (5, Inr ?s)]"
    unfolding marshalCheckRequest_def Let_def permifyCheckDepth_def
    using assms small by (simp only: append_assoc pb_fields_string [OF num(1)] pb_fields_string [OF num(4)] pb_fields_bytes [OF num(2)]
        pb_fields_bytes [OF num(3)] pb_fields_bytes_last [OF num(5)] long option.map)
  ultimately show ?thesis by blast
qed

text \<open>
  C19. The guard lets a request through only on an explicit permission: with a client, the handler behind it
  runs only for a named subject for whom the service answered and the answer parses to ALLOWED; and on an
  answer that is any list of well-formed fields, also unknown ones, exactly when its first varint
  numbered 1 is ALLOWED.
\<close>

theorem permify_guard_exact:
  assumes "permify_Require (Some c) entityType permission = Some mw"
  shows "(mw call cx entityID = Serve \<longrightarrow> Subject cx \<noteq> [] \<and>
      (\<exists>resp. call (marshalCheckRequest (pm_tenant c) entityType entityID permission (Subject cx)) = Inr resp \<and> parseCheckResponse resp = Inr 1)) \<and>
    (\<forall>fs. Subject cx \<noteq> [] \<and> list_all pb_valid fs \<and>
       call (marshalCheckRequest (pm_tenant c) entityType entityID permission (Subject cx)) = Inr (concat (map pb_encode fs)) \<longrightarrow>
       (mw call cx entityID = Serve \<longleftrightarrow> first_can fs = Inr 1))"
proof -
  have g: "mw call cx entityID = Serve \<longleftrightarrow> Subject cx \<noteq> [] \<and>
      (\<exists>resp. call (marshalCheckRequest (pm_tenant c) entityType entityID permission (Subject cx)) = Inr resp \<and> parseCheckResponse resp = Inr 1)"
    using assms by (auto simp: permify_Require_def Check_def split: if_splits sum.splits)
  show ?thesis unfolding g using parse_fields by auto
qed

text \<open>
  Without an address there is no client, and building the guarded route panics: the services that ask
  for a guard do not start, although the comments promise a fallback to roles.
\<close>

theorem permify_unset_panics:
  "NewPermify dial '''' tenant = None \<and> permify_Require (NewPermify dial '''' tenant) entityType permission = None"
  by (simp add: NewPermify_def permify_Require_def trim_space_def)

theorem check_request_decodes_witness:
  "\<exists>meta entity subject. pb_fields (marshalCheckRequest ''t1'' ''module'' ''telematics'' ''manage'' ''ann'') =
     Some [(1, Inr (octets_of ''t1'')), (2, Inr meta), (3, Inr entity), (4, Inr (octets_of ''manage'')), (5, Inr subject)] \<and>
     pb_fields subject = Some [(1, Inr (octets_of ''user'')), (2, Inr (octets_of ''ann''))]"
proof -
  have len: "length ''t1'' < 2 ^ 32" "length ''module'' < 2 ^ 32" "length ''telematics'' < 2 ^ 32" "length ''manage'' < 2 ^ 32" "length ''ann'' < 2 ^ 32"
    by simp_all
  show ?thesis
  proof (insert check_request_decodes [OF len], elim exE conjE, intro exI conjI)
  qed assumption+
qed

text \<open>A service that answers with an unknown field and then ALLOWED.\<close>

definition yes_service :: pm_call where
  "yes_service req = Inr (concat (map pb_encode [(2, Inr [8, 1]), (1, Inl 1)]))"

theorem permify_guard_exact_witness:
  "\<exists>mw. permify_Require (Some \<lparr>pm_tenant = ''t1''\<rparr>) ''module'' ''manage'' = Some mw \<and>
     mw yes_service (Some [(''sub'', JStr ''ann'')]) ''telematics'' = Serve"
proof -
  obtain mw where mw: "permify_Require (Some \<lparr>pm_tenant = ''t1''\<rparr>) ''module'' ''manage'' = Some mw" by (simp add: permify_Require_def)
  have "Subject (Some [(''sub'', JStr ''ann'')]) \<noteq> []" by (simp add: Subject_def)
  moreover have "list_all pb_valid [(2, Inr [8, 1]), (1, Inl 1)]" by (simp add: pb_valid_def)
  moreover have "first_can [(2, Inr [8, 1]), (1, Inl 1)] = Inr 1" by simp
  ultimately have "mw yes_service (Some [(''sub'', JStr ''ann'')]) ''telematics'' = Serve"
    using permify_guard_exact [OF mw, of yes_service "Some [(''sub'', JStr ''ann'')]" "''telematics''", THEN conjunct2,
        THEN spec, of "[(2, Inr [8, 1]), (1, Inl 1)]"] yes_service_def by blast
  with mw show ?thesis by blast
qed

end
