(* ===== verification/Toggles.thy ===== *)
theory Toggles
  imports Store Timestamps
begin

text \<open>
  Feature toggles: the service (src/services/go/toggle-service/internal/handlers/toggles.go) with its
  table and its Redis cache, the client every service embeds (src/packages/toggle-client/go/toggle.go)
  and the route gate (src/services/go/citizen-api/internal/gate/gate.go and its copies). Times are in
  nanoseconds; a fault named after Redis makes that cache call fail.
\<close>

section \<open>Modules\<close>

definition Modules :: "(string \<times> string) list" where
  "Modules =
     [(''telematics'', ''fleet''), (''predictive-maintenance'', ''fleet''), (''digital-twin'', ''fleet''), (''fuel-monitoring'', ''fleet''),
      (''route-energy-optimizer'', ''fleet''),
      (''refueling-stations'', ''infra''), (''leak-detection'', ''infra''), (''dispatch-workforce'', ''infra''),
      (''compliance-reporting'', ''infra''), (''depot-management'', ''infra''),
      (''passenger-pwa'', ''citizen''), (''mobile-app'', ''citizen''), (''demand-responsive'', ''citizen''), (''carbon-credits'', ''citizen''),
      (''open-data-portal'', ''citizen''),
      (''fare-payments'', ''commerce''), (''loyalty-marketplace'', ''commerce''), (''energy-trading'', ''commerce''),
      (''gov-dashboard'', ''commerce''), (''advertising'', ''commerce'')]"

definition cacheTTL :: int where
  "cacheTTL = 30 * 1000000000"

section \<open>The service\<close>

record toggle_row =
  tg_module :: string
  tg_domain :: string
  tg_enabled :: bool
  tg_updated_at :: int

text \<open>A cached text with the time it expires; without Redis the cache stays empty.\<close>

record toggle_store =
  feature_toggles :: "toggle_row list"
  tg_redis :: bool
  tg_cache :: "string \<Rightarrow> (string \<times> int) option"
  tg_events :: "(string \<times> (string \<times> json) list) list"

fun seed_rows :: "db_env \<Rightarrow> (string \<times> string) list \<Rightarrow> toggle_row list \<Rightarrow> toggle_row list" where
  "seed_rows E [] rows = rows"
| "seed_rows E ((m, d) # ms) rows =
     seed_rows E ms (if m \<in> tg_module ` set rows then rows
       else rows @ [\<lparr>tg_module = m, tg_domain = d, tg_enabled = True, tg_updated_at = to_micros (now E)\<rparr>])"

text \<open>Go walks the map in an order of its own, here \<open>ms\<close>; the inserts are one transaction.\<close>

definition EnsureSchemaAndSeed :: "db_env \<Rightarrow> (string \<times> string) list \<Rightarrow> toggle_store \<Rightarrow> bool \<times> toggle_store" where
  "EnsureSchemaAndSeed E ms s =
     (if fault E ''seed toggles'' then (False, s)
      else (True, s\<lparr>feature_toggles := seed_rows E ms (feature_toggles s)\<rparr>))"

definition toggle_Healthz :: "db_env \<Rightarrow> toggle_store \<Rightarrow> string resp" where
  "toggle_Healthz E s =
     (if fault E ''ping postgres'' \<or> tg_redis s \<and> fault E ''ping redis'' then Err 503 ''degraded'' else Reply 200 ''ok'')"

definition toggle_List :: "db_env \<Rightarrow> toggle_store \<Rightarrow> (string \<times> bool) set resp" where
  "toggle_List E s =
     (if fault E ''query toggles'' then Internal ''query toggles''
      else if fault E ''scan toggle'' then Internal ''scan toggle''
      else if fault E ''iterate toggles'' then Internal ''iterate toggles''
      else Reply 200 ((\<lambda>r. (tg_module r, tg_enabled r)) ` set (feature_toggles s)))"

definition cacheKey :: "string \<Rightarrow> string" where
  "cacheKey modul = ''toggles:'' @ modul"

fun boolString :: "bool \<Rightarrow> string" where
  "boolString True = ''true''"
| "boolString False = ''false''"

definition cache_get :: "db_env \<Rightarrow> string \<Rightarrow> toggle_store \<Rightarrow> string option" where
  "cache_get E modul s =
     (if \<not> tg_redis s \<or> fault E ''redis get'' then None
      else case tg_cache s (cacheKey modul) of
        None \<Rightarrow> None
      | Some (v, expires) \<Rightarrow> if now E < expires then Some v else None)"

definition cache_set :: "db_env \<Rightarrow> string \<Rightarrow> bool \<Rightarrow> toggle_store \<Rightarrow> toggle_store" where
  "cache_set E modul enabled s =
     (if \<not> tg_redis s \<or> fault E ''redis set'' then s
      else s\<lparr>tg_cache := (tg_cache s)(cacheKey modul \<mapsto> (boolString enabled, now E + cacheTTL))\<rparr>)"

text \<open>
  \<open>Get\<close> in its parts: the answer it can give without the table (an unknown module, a cached value), the
  answer from the table with the value to cache, and the write of that value to Redis, which nothing
  ties to the read.
\<close>

definition toggle_Get_cached :: "db_env \<Rightarrow> string \<Rightarrow> toggle_store \<Rightarrow> (string \<times> bool \<times> string) resp option" where
  "toggle_Get_cached E modul s =
     (case map_of Modules modul of
        None \<Rightarrow> Some (Err 404 ''unknown module'')
      | Some domain \<Rightarrow>
          (case cache_get E modul s of
             Some cached \<Rightarrow> Some (Reply 200 (modul, cached = ''true'', domain))
           | None \<Rightarrow> None))"

definition toggle_Get_db :: "db_env \<Rightarrow> string \<Rightarrow> toggle_store \<Rightarrow> (string \<times> bool \<times> string) resp \<times> bool option" where
  "toggle_Get_db E modul s =
     (if fault E ''query toggle'' then (Internal ''query toggle'', None)
      else (case find (\<lambda>r. tg_module r = modul) (feature_toggles s) of
         None \<Rightarrow> (Err 404 ''unknown module'', None)
       | Some r \<Rightarrow> (Reply 200 (modul, tg_enabled r, tg_domain r), Some (tg_enabled r))))"

definition cache_fill :: "db_env \<Rightarrow> string \<Rightarrow> bool option \<Rightarrow> toggle_store \<Rightarrow> toggle_store" where
  "cache_fill E modul f s = (case f of None \<Rightarrow> s | Some enabled \<Rightarrow> cache_set E modul enabled s)"

text \<open>The whole request when nothing comes between its parts; \<open>E\<close> is the moment of the reads, \<open>E2\<close> of the write.\<close>

definition toggle_Get :: "db_env \<Rightarrow> db_env \<Rightarrow> string \<Rightarrow> toggle_store \<Rightarrow> (string \<times> bool \<times> string) resp \<times> toggle_store" where
  "toggle_Get E E2 modul s =
     (case toggle_Get_cached E modul s of
        Some r \<Rightarrow> (r, s)
      | None \<Rightarrow> (case toggle_Get_db E modul s of (r, f) \<Rightarrow> (r, cache_fill E2 modul f s)))"

text \<open>\<open>Put\<close> likewise: the checks and the update of the table, the refresh of Redis, the event.\<close>

definition toggle_Put_db :: "db_env \<Rightarrow> string \<Rightarrow> bool option \<Rightarrow> toggle_store \<Rightarrow>
    (string \<times> bool \<times> string) resp + bool \<times> string \<times> toggle_store" where
  "toggle_Put_db E modul body s =
     (case map_of Modules modul of
        None \<Rightarrow> Inl (Err 404 ''unknown module'')
      | Some domain \<Rightarrow>
          (case body of
             None \<Rightarrow> Inl (Err 400 ''body must be {\"enabled\": bool}'')
           | Some enabled \<Rightarrow>
               if fault E ''update toggle'' then Inl (Internal ''update toggle'')
               else if \<not> list_ex (\<lambda>r. tg_module r = modul) (feature_toggles s) then Inl (Err 404 ''unknown module'')
               else Inr (enabled, domain,
                 s\<lparr>feature_toggles := upd_rows (\<lambda>r. tg_module r = modul)
                     (\<lambda>r. r\<lparr>tg_enabled := enabled, tg_updated_at := to_micros (now E)\<rparr>) (feature_toggles s)\<rparr>)))"

definition toggle_announce :: "db_env \<Rightarrow> string \<Rightarrow> bool \<Rightarrow> string \<Rightarrow> toggle_store \<Rightarrow> toggle_store" where
  "toggle_announce E modul enabled domain s =
     (if pub_fault E ''toggle.changed'' then s
      else s\<lparr>tg_events := tg_events s @ [(''toggle.changed'',
        [(''module'', JStr modul), (''enabled'', JBool enabled), (''domain'', JStr domain)])]\<rparr>)"

definition toggle_Put :: "db_env \<Rightarrow> db_env \<Rightarrow> string \<Rightarrow> bool option \<Rightarrow> toggle_store \<Rightarrow> (string \<times> bool \<times> string) resp \<times> toggle_store" where
  "toggle_Put E E2 modul body s =
     (case toggle_Put_db E modul body s of
        Inl r \<Rightarrow> (r, s)
      | Inr (enabled, domain, s1) \<Rightarrow>
          (Reply 200 (modul, enabled, domain), toggle_announce E2 modul enabled domain (cache_set E2 modul enabled s1)))"

section \<open>The client and the gate\<close>

definition DefaultTTL :: int where
  "DefaultTTL = 5 * 1000000000"

text \<open>What the HTTP call gives: nothing, or a status and the decoded body.\<close>

type_synonym toggle_answer = "(nat \<times> (string \<times> bool) option) option"

definition toggle_fetch :: "(string \<Rightarrow> toggle_answer) \<Rightarrow> string \<Rightarrow> bool" where
  "toggle_fetch http modul =
     (case http modul of
        None \<Rightarrow> False
      | Some (status, body) \<Rightarrow>
          if status \<noteq> 200 then False
          else (case body of
             None \<Rightarrow> False
           | Some (m, enabled) \<Rightarrow> if m \<noteq> [] \<and> m \<noteq> modul then False else enabled))"

type_synonym toggle_client = "string \<Rightarrow> (bool \<times> int) option"

text \<open>
  \<open>IsEnabled\<close> reads the clock twice: at \<open>t1\<close> to look into its cache and, after the fetch, at \<open>t2\<close> to
  date the new entry; the lock is not held in between.
\<close>

definition cached_toggle :: "int \<Rightarrow> string \<Rightarrow> toggle_client \<Rightarrow> bool option" where
  "cached_toggle t1 modul c =
     (case c modul of
        None \<Rightarrow> None
      | Some (enabled, expires) \<Rightarrow> if t1 < expires then Some enabled else None)"

definition remember_toggle :: "int \<Rightarrow> string \<Rightarrow> bool \<Rightarrow> toggle_client \<Rightarrow> toggle_client" where
  "remember_toggle t2 modul enabled c = c(modul \<mapsto> (enabled, t2 + DefaultTTL))"

definition IsEnabled :: "int \<Rightarrow> int \<Rightarrow> (string \<Rightarrow> toggle_answer) \<Rightarrow> string \<Rightarrow> toggle_client \<Rightarrow> bool \<times> toggle_client" where
  "IsEnabled t1 t2 http modul c =
     (case cached_toggle t1 modul c of
        Some enabled \<Rightarrow> (enabled, c)
      | None \<Rightarrow> let enabled = toggle_fetch http modul in (enabled, remember_toggle t2 modul enabled c))"

definition Invalidate :: "string \<Rightarrow> toggle_client \<Rightarrow> toggle_client" where
  "Invalidate modul c = c(modul := None)"

text \<open>The gate in front of a route: nothing when the request goes on, else the reply.\<close>

definition gate_Module :: "int \<Rightarrow> int \<Rightarrow> (string \<Rightarrow> toggle_answer) \<Rightarrow> string \<Rightarrow> toggle_client \<Rightarrow> unit resp option \<times> toggle_client" where
  "gate_Module t1 t2 http modul c =
     (case IsEnabled t1 t2 http modul c of
        (True, c') \<Rightarrow> (None, c')
      | (False, c') \<Rightarrow> (Some (Err 404 (''module disabled or unknown: '' @ modul)), c'))"

text \<open>An answer of the service as the client sees it, over a network that may lose it.\<close>

definition http_reply :: "db_env \<Rightarrow> (string \<times> bool \<times> string) resp \<Rightarrow> toggle_answer" where
  "http_reply E r =
     (if fault E ''toggle-service unreachable'' then None
      else case r of
        Reply n (m, enabled, d) \<Rightarrow> Some (n, Some (m, enabled))
      | _ \<Rightarrow> Some (status_code r, None))"

section \<open>Steps\<close>

text \<open>
  Service, one client and the clock, with what is under way between them: values read from or written to
  the table that still have to be written to Redis (\<open>ts_fills\<close>), and answers on their way into the
  client's cache (\<open>ts_answers\<close>), each with the moment the service read or wrote the value. The
  parameter \<open>D\<close> bounds how long a request may take from there to its own write: time does not pass
  beyond it. \<open>made\<close> says which switches are made. The other clients are the \<open>get\<close> steps. An answer
  may belong to a request that missed the client's cache at any earlier time, and it may be lost.
\<close>

record toggle_system =
  ts_store :: toggle_store
  ts_client :: toggle_client
  ts_clock :: int
  ts_fills :: "(int \<times> string \<times> bool) list"
  ts_answers :: "(int \<times> string \<times> bool) list"

definition due :: "int \<Rightarrow> int \<Rightarrow> toggle_system \<Rightarrow> bool" where
  "due D t z \<longleftrightarrow> (\<forall>x \<in> set (ts_fills z) \<union> set (ts_answers z). t \<le> fst x + D)"

definition fill_of :: "int \<Rightarrow> string \<Rightarrow> bool option \<Rightarrow> (int \<times> string \<times> bool) list" where
  "fill_of t m f = (case f of None \<Rightarrow> [] | Some b \<Rightarrow> [(t, m, b)])"

inductive toggle_step :: "int \<Rightarrow> (string \<Rightarrow> bool \<Rightarrow> bool) \<Rightarrow> toggle_system \<Rightarrow> toggle_system \<Rightarrow> bool" for D made where
  tick: "0 \<le> d \<Longrightarrow> due D (ts_clock z + d) z \<Longrightarrow> toggle_step D made z (z\<lparr>ts_clock := ts_clock z + d\<rparr>)"
| put: "now E = ts_clock z \<Longrightarrow> made m b \<Longrightarrow> toggle_Put_db E m (Some b) (ts_store z) = Inr (b', dm, s1) \<Longrightarrow>
    toggle_step D made z (z\<lparr>ts_store := s1, ts_fills := (ts_clock z, m, b') # ts_fills z\<rparr>)"
| announce: "toggle_step D made z (z\<lparr>ts_store := toggle_announce E m b dm (ts_store z)\<rparr>)"
| get: "now E = ts_clock z \<Longrightarrow> toggle_Get_db E m (ts_store z) = (r, f) \<Longrightarrow>
    toggle_step D made z (z\<lparr>ts_fills := fill_of (ts_clock z) m f @ ts_fills z\<rparr>)"
| fill: "now E = ts_clock z \<Longrightarrow> ts_fills z = xs @ (t, m, b) # ys \<Longrightarrow>
    toggle_step D made z (z\<lparr>ts_store := cache_set E m b (ts_store z), ts_fills := xs @ ys\<rparr>)"
| ask_cached: "now E = ts_clock z \<Longrightarrow> toggle_Get_cached E m (ts_store z) = Some r \<Longrightarrow>
    toggle_step D made z (z\<lparr>ts_answers := (ts_clock z, m, toggle_fetch (\<lambda>_. http_reply E r) m) # ts_answers z\<rparr>)"
| ask_db: "now E = ts_clock z \<Longrightarrow> toggle_Get_db E m (ts_store z) = (r, f) \<Longrightarrow>
    toggle_step D made z (z\<lparr>ts_answers := (ts_clock z, m, toggle_fetch (\<lambda>_. http_reply E r) m) # ts_answers z,
      ts_fills := fill_of (ts_clock z) m f @ ts_fills z\<rparr>)"
| remember: "ts_answers z = xs @ (t, m, b) # ys \<Longrightarrow> b' \<longrightarrow> b \<Longrightarrow>
    toggle_step D made z (z\<lparr>ts_client := remember_toggle (ts_clock z) m b' (ts_client z), ts_answers := xs @ ys\<rparr>)"
| seed: "now E = ts_clock z \<Longrightarrow> set ms = set Modules \<Longrightarrow>
    toggle_step D made z (z\<lparr>ts_store := snd (EnsureSchemaAndSeed E ms (ts_store z))\<rparr>)"
| forget: "toggle_step D made z (z\<lparr>ts_client := Invalidate m (ts_client z)\<rparr>)"

definition bool_text :: "string \<Rightarrow> bool" where
  "bool_text v \<longleftrightarrow> v = ''true'' \<or> v = ''false''"

definition toggles_typed :: "toggle_store \<Rightarrow> bool" where
  "toggles_typed s \<longleftrightarrow> distinct (map tg_module (feature_toggles s)) \<and>
     (\<forall>r \<in> set (feature_toggles s). map_of Modules (tg_module r) = Some (tg_domain r)) \<and>
     (\<forall>k v e. tg_cache s k = Some (v, e) \<longrightarrow> bool_text v)"

text \<open>Nothing is dated further ahead than its lifetime, and nothing under way is late.\<close>

definition caches_bounded :: "int \<Rightarrow> toggle_system \<Rightarrow> bool" where
  "caches_bounded D z \<longleftrightarrow> (\<forall>k v e. tg_cache (ts_store z) k = Some (v, e) \<longrightarrow> e \<le> ts_clock z + cacheTTL) \<and>
     (\<forall>m b e. ts_client z m = Some (b, e) \<longrightarrow> e \<le> ts_clock z + DefaultTTL) \<and>
     (\<forall>x \<in> set (ts_fills z) \<union> set (ts_answers z). fst x \<le> ts_clock z) \<and> due D (ts_clock z) z"

lemma cacheKey_inject [simp]: "cacheKey m = cacheKey m' \<longleftrightarrow> m = m'"
  by (simp add: cacheKey_def)

lemma boolString_cases: "bool_text (boolString b)" "boolString b = ''true'' \<longleftrightarrow> b"
  by (cases b; simp add: bool_text_def)+

lemma Modules_distinct: "distinct (map fst Modules)"
  by (simp add: Modules_def)

lemma Modules_in: "x \<in> set Modules \<Longrightarrow> map_of Modules (fst x) = Some (snd x)"
  using Modules_distinct by (cases x) simp

lemma seed_rows_typed:
  assumes "distinct (map tg_module rows)" "\<forall>r \<in> set rows. map_of Modules (tg_module r) = Some (tg_domain r)" "set ms \<subseteq> set Modules"
  shows "distinct (map tg_module (seed_rows E ms rows)) \<and> (\<forall>r \<in> set (seed_rows E ms rows). map_of Modules (tg_module r) = Some (tg_domain r)) \<and>
    tg_module ` set (seed_rows E ms rows) = tg_module ` set rows \<union> fst ` set ms \<and> (\<exists>more. seed_rows E ms rows = rows @ more)"
  using assms
proof (induction E ms rows rule: seed_rows.induct)
  case (2 E m d ms rows)
  let ?rows = "if m \<in> tg_module ` set rows then rows
       else rows @ [\<lparr>tg_module = m, tg_domain = d, tg_enabled = True, tg_updated_at = to_micros (now E)\<rparr>]"
  have md: "map_of Modules m = Some d" using 2(4) Modules_in [of "(m, d)"] by simp
  have "distinct (map tg_module ?rows)" "\<forall>r \<in> set ?rows. map_of Modules (tg_module r) = Some (tg_domain r)"
    "tg_module ` set ?rows = insert m (tg_module ` set rows)" "\<exists>more. ?rows = rows @ more"
    using 2(2,3) md by auto
  with 2(1) [of] 2(4) show ?case by auto
qed simp

lemma cache_set_frame [simp]:
  "feature_toggles (cache_set E m b s) = feature_toggles s" "tg_redis (cache_set E m b s) = tg_redis s"
  by (simp_all add: cache_set_def)

lemma cache_setD: "tg_cache (cache_set E m b s) k = Some (v, e) \<Longrightarrow> tg_cache s k = Some (v, e) \<or> k = cacheKey m \<and> v = boolString b \<and> e = now E + cacheTTL"
  by (auto simp: cache_set_def split: if_splits)

lemma fetch_reply:
  assumes "toggle_fetch (\<lambda>_. http_reply E r) m"
  obtains m' d where "r = Reply 200 (m', True, d)"
proof (cases r)
  case (Reply n v)
  with assms show ?thesis using that by (cases v) (auto simp: toggle_fetch_def http_reply_def split: if_splits)
qed (use assms in \<open>auto simp: toggle_fetch_def http_reply_def split: if_splits\<close>)

lemma toggle_Get_db_row:
  assumes "toggle_Get_db E m s = (r, f)" and "f \<noteq> None \<or> toggle_fetch (\<lambda>_. http_reply E r) m"
  shows "\<exists>q \<in> set (feature_toggles s). tg_module q = m \<and> f = Some (tg_enabled q) \<and>
      (toggle_fetch (\<lambda>_. http_reply E r) m \<longrightarrow> tg_enabled q)"
proof (cases "fault E ''query toggle'' \<or> find (\<lambda>r. tg_module r = m) (feature_toggles s) = None")
  case True
  with assms(1) have "f = None" and "r = Internal ''query toggle'' \<or> r = Err 404 ''unknown module''"
    by (auto simp: toggle_Get_db_def split: if_splits)
  with assms(2) show ?thesis by (auto elim: fetch_reply)
next
  case False
  then obtain q where q: "find (\<lambda>r. tg_module r = m) (feature_toggles s) = Some q" by auto
  with False assms(1) have "r = Reply 200 (m, tg_enabled q, tg_domain q)" "f = Some (tg_enabled q)"
    by (auto simp: toggle_Get_db_def)
  with find_Some_prop [OF q] show ?thesis by (auto elim: fetch_reply)
qed

lemma toggle_Get_cached_entry:
  assumes "toggle_Get_cached E m s = Some r" and "toggle_fetch (\<lambda>_. http_reply E r) m"
  shows "\<exists>e. tg_cache s (cacheKey m) = Some (''true'', e) \<and> now E < e"
proof -
  obtain m' d where r: "r = Reply 200 (m', True, d)" using assms(2) by (rule fetch_reply)
  have "cache_get E m s = Some ''true''"
  proof (cases "map_of Modules m")
    case None
    with assms(1) r show ?thesis by (simp add: toggle_Get_cached_def)
  next
    case (Some dm)
    with assms(1) r show ?thesis by (cases "cache_get E m s") (simp_all add: toggle_Get_cached_def)
  qed
  then show ?thesis by (simp add: cache_get_def split: if_splits option.splits prod.splits)
qed

lemma toggle_Put_db_store:
  assumes "toggle_Put_db E m (Some b) s = Inr (b', dm, s1)"
  shows "b' = b" and "map_of Modules m = Some dm" and "list_ex (\<lambda>r. tg_module r = m) (feature_toggles s)"
    and "s1 = s\<lparr>feature_toggles := upd_rows (\<lambda>r. tg_module r = m)
      (\<lambda>r. r\<lparr>tg_enabled := b, tg_updated_at := to_micros (now E)\<rparr>) (feature_toggles s)\<rparr>"
  using assms by (auto simp: toggle_Put_db_def split: option.splits if_splits)

lemma toggle_announce_frame [simp]:
  "feature_toggles (toggle_announce E m b dm s) = feature_toggles s" "tg_cache (toggle_announce E m b dm s) = tg_cache s"
  "tg_redis (toggle_announce E m b dm s) = tg_redis s"
  by (simp_all add: toggle_announce_def)

section \<open>Invariants\<close>

lemma toggles_typed_cache:
  assumes "toggles_typed s"
  shows "toggles_typed (cache_set E m b s)"
  using assms boolString_cases(1) by (auto simp: toggles_typed_def dest!: cache_setD) blast

lemma toggles_typed_rows:
  assumes "toggles_typed s"
  shows "toggles_typed (s\<lparr>feature_toggles := upd_rows (\<lambda>r. tg_module r = m)
      (\<lambda>r. r\<lparr>tg_enabled := b, tg_updated_at := to_micros t\<rparr>) (feature_toggles s)\<rparr>)"
  using assms by (auto simp: toggles_typed_def map_upd_rows dest!: set_upd_rowsD)

lemma toggle_step_typed: "toggle_step D made z z' \<Longrightarrow> toggles_typed (ts_store z) \<Longrightarrow> toggles_typed (ts_store z')"
proof (induction rule: toggle_step.induct)
  case (put E z m b b' dm s1)
  then show ?case by (simp add: toggle_Put_db_store(4) [OF put(3)] toggles_typed_rows)
next
  case (seed E z ms)
  then show ?case using seed_rows_typed [of "feature_toggles (ts_store z)" ms E] by (auto simp: toggles_typed_def EnsureSchemaAndSeed_def)
qed (simp_all add: toggles_typed_cache, simp add: toggles_typed_def)

text \<open>
  C22. The table of toggles stays well typed: in every reachable state each module has at most one row, every row is a
  known module under its own domain, and everything in the cache reads as a boolean; and once the
  service has seeded, there is exactly one toggle for each of the twenty modules.
\<close>

theorem toggles_well_typed:
  assumes "(toggle_step D made)\<^sup>*\<^sup>* z z'" and "feature_toggles (ts_store z) = []" and "tg_cache (ts_store z) = Map.empty"
    and "ts_store z' = s'" and "fst (EnsureSchemaAndSeed E Modules s')"
  shows "toggles_typed s' \<and> (let u = snd (EnsureSchemaAndSeed E Modules s') in
    toggles_typed u \<and> length (feature_toggles u) = 20 \<and> tg_module ` set (feature_toggles u) = fst ` set Modules)"
proof -
  have "toggles_typed (ts_store z)" using assms(2,3) by (simp add: toggles_typed_def)
  with assms(1) have "toggles_typed (ts_store z')" by (induction rule: rtranclp_induct) (blast intro: toggle_step_typed)+
  then have ty: "toggles_typed s'" using assms(4) by simp
  let ?u = "snd (EnsureSchemaAndSeed E Modules s')"
  have rows: "feature_toggles ?u = seed_rows E Modules (feature_toggles s')" "tg_cache ?u = tg_cache s'"
    using assms(5) by (auto simp: EnsureSchemaAndSeed_def split: if_splits)
  note sd = seed_rows_typed [of "feature_toggles s'" Modules E]
  have tu: "toggles_typed ?u" using ty sd by (simp add: toggles_typed_def rows)
  have "tg_module ` set (feature_toggles s') \<subseteq> fst ` set Modules"
    using ty by (auto simp: toggles_typed_def dest!: map_of_SomeD intro: rev_image_eqI)
  then have mods: "tg_module ` set (feature_toggles ?u) = fst ` set Modules" using ty sd by (auto simp: toggles_typed_def rows)
  have "length (feature_toggles ?u) = card (tg_module ` set (feature_toggles ?u))"
    using tu distinct_card [of "map tg_module (feature_toggles ?u)"] by (simp add: toggles_typed_def)
  also have "\<dots> = length (map fst Modules)" unfolding mods using distinct_card [OF Modules_distinct] by simp
  finally show ?thesis using ty tu mods by (simp add: Let_def Modules_def)
qed

section \<open>How long a switch takes\<close>

lemma fill_ofD: "x \<in> set (fill_of t m f) \<Longrightarrow> \<exists>b. f = Some b \<and> x = (t, m, b)"
  by (auto simp: fill_of_def split: option.splits)

lemma due_fill [simp]:
  "0 \<le> D \<Longrightarrow> due D t (z\<lparr>ts_fills := fill_of t m f @ xs\<rparr>) \<longleftrightarrow> due D t (z\<lparr>ts_fills := xs\<rparr>)"
  by (auto simp: due_def dest!: fill_ofD)

lemma caches_bounded_fill:
  assumes "caches_bounded D z" "0 \<le> D"
  shows "caches_bounded D (z\<lparr>ts_fills := fill_of (ts_clock z) m f @ ts_fills z\<rparr>)"
proof -
  have "fst x \<le> ts_clock z" "ts_clock z \<le> fst x + D" if "x \<in> set (fill_of (ts_clock z) m f)" for x
    using fill_ofD [OF that] assms(2) by auto
  with assms(1) show ?thesis by (simp add: caches_bounded_def due_def ball_Un)
qed

lemma dueD: "due D t z \<Longrightarrow> x \<in> set (ts_fills z) \<or> x \<in> set (ts_answers z) \<Longrightarrow> t \<le> fst x + D"
  by (auto simp: due_def)

lemma caches_bounded_step: "toggle_step D made z z' \<Longrightarrow> 0 \<le> D \<Longrightarrow> caches_bounded D z \<Longrightarrow> caches_bounded D z'"
proof (induction rule: toggle_step.induct)
  case (tick d z)
  have "e \<le> ts_clock z + d + T" if "e \<le> ts_clock z + T" for e T using that tick(1) by simp
  moreover have "x \<le> ts_clock z + d" if "x \<le> ts_clock z" for x using that tick(1) by simp
  ultimately show ?case using tick(2,4) by (simp add: caches_bounded_def due_def)
next
  case (put E z m b b' dm s1)
  then show ?case by (auto simp: toggle_Put_db_store(4) [OF put(3)] caches_bounded_def due_def)
next
  case (get E z m r f)
  then show ?case by (intro caches_bounded_fill)
next
  case (fill E z xs t m b ys)
  have "e \<le> ts_clock z + cacheTTL" if "tg_cache (cache_set E m b (ts_store z)) k = Some (v, e)" for k v e
    using cache_setD [OF that] fill(1,4) unfolding caches_bounded_def by auto
  with fill(2,4) show ?case by (simp add: caches_bounded_def due_def)
next
  case (ask_db E z m r f)
  let ?z = "z\<lparr>ts_answers := (ts_clock z, m, toggle_fetch (\<lambda>_. http_reply E r) m) # ts_answers z\<rparr>"
  have "caches_bounded D ?z" using ask_db(3,4) by (simp add: caches_bounded_def due_def)
  from caches_bounded_fill [OF this ask_db(3), of m f] show ?case by simp
next
  case (remember z xs t m b ys b')
  then show ?case by (auto simp: caches_bounded_def due_def remember_toggle_def split: if_splits)
next
  case (seed E z ms)
  then show ?case by (simp add: caches_bounded_def due_def EnsureSchemaAndSeed_def)
qed (auto simp: caches_bounded_def due_def Invalidate_def split: if_splits)

text \<open>The module is off, and every cache entry that says otherwise expires within the two lifetimes.\<close>

definition switched_off :: "string \<Rightarrow> toggle_store \<Rightarrow> bool" where
  "switched_off m s \<longleftrightarrow> m \<in> tg_module ` set (feature_toggles s) \<and> (\<forall>r \<in> set (feature_toggles s). tg_module r = m \<longrightarrow> \<not> tg_enabled r)"

definition fading :: "int \<Rightarrow> string \<Rightarrow> int \<Rightarrow> toggle_system \<Rightarrow> bool" where
  "fading D m t0 z \<longleftrightarrow> switched_off m (ts_store z) \<and> due D (ts_clock z) z \<and>
     (\<forall>e. tg_cache (ts_store z) (cacheKey m) = Some (''true'', e) \<longrightarrow> e \<le> t0 + D + cacheTTL) \<and>
     (\<forall>e. ts_client z m = Some (True, e) \<longrightarrow> e \<le> t0 + 2 * D + cacheTTL + DefaultTTL) \<and>
     (\<forall>t. (t, m, True) \<in> set (ts_fills z) \<longrightarrow> t \<le> t0) \<and>
     (\<forall>t. (t, m, True) \<in> set (ts_answers z) \<longrightarrow> t \<le> t0 + D + cacheTTL)"

text \<open>What the service can answer in a state: its cached value, the row, or nothing.\<close>

definition served :: "toggle_system \<Rightarrow> string \<Rightarrow> toggle_answer \<Rightarrow> bool" where
  "served z m a \<longleftrightarrow> a = None \<or> (\<exists>E r f. now E = ts_clock z \<and> a = http_reply E r \<and>
     (toggle_Get_cached E m (ts_store z) = Some r \<or> toggle_Get_db E m (ts_store z) = (r, f)))"

lemma off_Get_db:
  assumes "switched_off m s" "toggle_Get_db E n s = (r, f)"
  shows "f = Some b \<Longrightarrow> n = m \<Longrightarrow> \<not> b" and "n = m \<Longrightarrow> \<not> toggle_fetch (\<lambda>_. http_reply E r) m"
  using assms(1) toggle_Get_db_row [OF assms(2)] by (auto simp: switched_off_def)

lemma served_off:
  assumes "fading D m t0 z" "t0 + D + cacheTTL \<le> ts_clock z" "served z m a"
  shows "\<not> toggle_fetch (\<lambda>_. a) m"
proof
  assume f: "toggle_fetch (\<lambda>_. a) m"
  have off: "switched_off m (ts_store z)" using assms(1) by (simp add: fading_def)
  have "a \<noteq> None"
  proof
    assume "a = None"
    with f show False by (simp add: toggle_fetch_def)
  qed
  then obtain E r g where E: "now E = ts_clock z" "a = http_reply E r"
    and src: "toggle_Get_cached E m (ts_store z) = Some r \<or> toggle_Get_db E m (ts_store z) = (r, g)"
    using assms(3) by (auto simp: served_def)
  from src show False
  proof
    assume "toggle_Get_cached E m (ts_store z) = Some r"
    from toggle_Get_cached_entry [OF this f [unfolded E(2)]] E(1) assms(1,2) show False by (fastforce simp: fading_def)
  next
    assume "toggle_Get_db E m (ts_store z) = (r, g)"
    from off_Get_db(2) [OF off this] f E(2) show False by simp
  qed
qed

lemma switched_off_rows:
  assumes "switched_off m s" "n = m \<Longrightarrow> \<not> b"
  shows "switched_off m (s\<lparr>feature_toggles := upd_rows (\<lambda>r. tg_module r = n)
      (\<lambda>r. r\<lparr>tg_enabled := b, tg_updated_at := u\<rparr>) (feature_toggles s)\<rparr>)" (is "switched_off m ?u")
proof -
  have "map tg_module (feature_toggles ?u) = map tg_module (feature_toggles s)" by (simp add: map_upd_rows)
  then have "tg_module ` set (feature_toggles ?u) = tg_module ` set (feature_toggles s)" by (metis list.set_map)
  then show ?thesis using assms by (auto simp: switched_off_def dest!: set_upd_rowsD split: if_splits)
qed

lemma seed_rows_keeps: "set rows \<subseteq> set (seed_rows E ms rows)"
proof (induction E ms rows rule: seed_rows.induct)
  case (2 E m d ms rows)
  then show ?case by (cases "m \<in> tg_module ` set rows") auto
qed simp

lemma seed_rows_module: "m \<in> tg_module ` set rows \<Longrightarrow> r \<in> set (seed_rows E ms rows) \<Longrightarrow> tg_module r = m \<Longrightarrow> r \<in> set rows"
proof (induction E ms rows rule: seed_rows.induct)
  case (2 E m' d ms rows)
  let ?rows = "if m' \<in> tg_module ` set rows then rows
       else rows @ [\<lparr>tg_module = m', tg_domain = d, tg_enabled = True, tg_updated_at = to_micros (now E)\<rparr>]"
  have "m \<in> tg_module ` set ?rows" "r \<in> set (seed_rows E ms ?rows)" using 2(2,3) by auto
  then have "r \<in> set ?rows" using 2(1,4) by blast
  moreover have "m' \<noteq> m" if "m' \<notin> tg_module ` set rows" using that 2(2) by blast
  ultimately show ?case using 2(4) by (auto split: if_splits)
qed simp

lemma switched_off_seed: "switched_off m s \<Longrightarrow> switched_off m (snd (EnsureSchemaAndSeed E ms s))"
  using seed_rows_keeps [of "feature_toggles s" E ms] seed_rows_module [of m "feature_toggles s" _ E ms]
  by (auto simp: switched_off_def EnsureSchemaAndSeed_def)

lemma fading_fills:
  assumes "fading D m t0 z" "0 \<le> D" "toggle_Get_db E n (ts_store z) = (r, f)"
  shows "fading D m t0 (z\<lparr>ts_fills := fill_of (ts_clock z) n f @ ts_fills z\<rparr>)"
  using assms off_Get_db(1) [OF _ assms(3), of m] by (auto simp: fading_def due_def dest!: fill_ofD)

lemma fading_answers:
  assumes "fading D m t0 z" "0 \<le> D" "n = m \<Longrightarrow> b \<Longrightarrow> ts_clock z \<le> t0 + D + cacheTTL"
  shows "fading D m t0 (z\<lparr>ts_answers := (ts_clock z, n, b) # ts_answers z\<rparr>)"
  using assms by (auto simp: fading_def due_def)

lemma fading_step:
  assumes "toggle_step D made z z'" "0 \<le> D" "\<not> made m True" "fading D m t0 z"
  shows "fading D m t0 z'"
  using assms
proof (induction rule: toggle_step.induct)
  case (put E z n b b' dm s1)
  have "switched_off m s1" unfolding toggle_Put_db_store(4) [OF put(3)]
    using put by (intro switched_off_rows) (auto simp: fading_def)
  moreover have "tg_cache s1 = tg_cache (ts_store z)" by (simp add: toggle_Put_db_store(4) [OF put(3)])
  ultimately show ?case using put toggle_Put_db_store(1) [OF put(3)] by (auto simp: fading_def due_def)
next
  case (get E z n r f)
  then show ?case by (intro fading_fills)
next
  case (fill E z xs t n b ys)
  have late: "ts_clock z \<le> t0 + D" if "n = m" "b"
  proof -
    have "(t, m, True) \<in> set (ts_fills z)" using fill(2) that by simp
    then have "t \<le> t0" "ts_clock z \<le> t + D" using fill(5) dueD [of D "ts_clock z" z "(t, m, True)"] by (simp_all add: fading_def)
    then show ?thesis by simp
  qed
  have "switched_off m (cache_set E n b (ts_store z))" using fill by (simp add: fading_def switched_off_def)
  moreover have "e \<le> t0 + D + cacheTTL" if "tg_cache (cache_set E n b (ts_store z)) (cacheKey m) = Some (''true'', e)" for e
    using cache_setD [OF that]
  proof (elim disjE conjE)
    assume "tg_cache (ts_store z) (cacheKey m) = Some (''true'', e)"
    then show ?thesis using fill(5) by (simp add: fading_def)
  next
    assume "cacheKey m = cacheKey n" "''true'' = boolString b" "e = now E + cacheTTL"
    then show ?thesis using late fill(1) boolString_cases(2) [of b] by simp
  qed
  ultimately show ?case using fill(2,5) unfolding fading_def by (simp add: due_def)
next
  case (ask_cached E z n r)
  have "ts_clock z \<le> t0 + D + cacheTTL" if "n = m" "toggle_fetch (\<lambda>_. http_reply E r) n"
    using toggle_Get_cached_entry [OF ask_cached(2) that(2)] that(1) ask_cached by (fastforce simp: fading_def)
  then show ?case using ask_cached by (intro fading_answers) auto
next
  case (ask_db E z n r f)
  have "n = m \<Longrightarrow> \<not> toggle_fetch (\<lambda>_. http_reply E r) n" using off_Get_db(2) [OF _ ask_db(2)] ask_db by (auto simp: fading_def)
  then have "fading D m t0 (z\<lparr>ts_answers := (ts_clock z, n, toggle_fetch (\<lambda>_. http_reply E r) n) # ts_answers z\<rparr>)"
    using ask_db by (intro fading_answers) auto
  from fading_fills [OF this ask_db(3), of E n r f] ask_db(2) show ?case by simp
next
  case (remember z xs t n b ys b')
  have "ts_clock z \<le> t0 + 2 * D + cacheTTL" if "n = m" "b'"
  proof -
    have "(t, m, True) \<in> set (ts_answers z)" using remember(1,2) that by simp
    then have "t \<le> t0 + D + cacheTTL" "ts_clock z \<le> t + D"
      using remember(5) dueD [of D "ts_clock z" z "(t, m, True)"] by (simp_all add: fading_def)
    then show ?thesis by simp
  qed
  then show ?case using remember by (auto simp: fading_def due_def remember_toggle_def split: if_splits)
next
  case (seed E z ms)
  have "tg_cache (snd (EnsureSchemaAndSeed E ms (ts_store z))) = tg_cache (ts_store z)" by (simp add: EnsureSchemaAndSeed_def)
  with seed show ?case by (simp add: fading_def due_def switched_off_seed)
next
  case (announce z E n b dm)
  then show ?case by (simp add: fading_def due_def switched_off_def)
qed (auto simp: fading_def due_def Invalidate_def)

lemma fading_steps:
  "(toggle_step D made)\<^sup>*\<^sup>* z z' \<Longrightarrow> 0 \<le> D \<Longrightarrow> \<not> made m True \<Longrightarrow> fading D m t0 z \<Longrightarrow> fading D m t0 z'"
  by (induction rule: rtranclp_induct) (auto intro: fading_step)

lemma fading_start:
  assumes "caches_bounded D z" "0 \<le> D" "switched_off m (ts_store z)"
  shows "fading D m (ts_clock z) z"
proof -
  have "t \<le> ts_clock z" if "(t, m, True) \<in> set (ts_fills z) \<union> set (ts_answers z)" for t
  proof -
    have "\<forall>x \<in> set (ts_fills z) \<union> set (ts_answers z). fst x \<le> ts_clock z" using assms(1) by (simp add: caches_bounded_def)
    from bspec [OF this that] show ?thesis by simp
  qed
  moreover have "e \<le> ts_clock z + cacheTTL" if "tg_cache (ts_store z) (cacheKey m) = Some (''true'', e)" for e
    using assms(1) that unfolding caches_bounded_def by blast
  moreover have "e \<le> ts_clock z + DefaultTTL" if "ts_client z m = Some (True, e)" for e
    using assms(1) that unfolding caches_bounded_def by blast
  moreover have "0 \<le> cacheTTL" by (simp add: cacheTTL_def)
  moreover have "due D (ts_clock z) z" using assms(1) by (simp add: caches_bounded_def)
  ultimately show ?thesis using assms(2,3) unfolding fading_def by fastforce
qed

lemma clock_step: "toggle_step D made z z' \<Longrightarrow> ts_clock z \<le> ts_clock z'"
  by (induction rule: toggle_step.induct) simp_all

lemma clock_steps: "(toggle_step D made)\<^sup>*\<^sup>* z z' \<Longrightarrow> ts_clock z \<le> ts_clock z'"
  by (induction rule: rtranclp_induct) (auto dest: clock_step)

text \<open>
  C21. A module that is switched off closes behind every gate: when no request takes longer than \<open>D\<close> between
  reading or writing a toggle at the service and its own write of that value (a \<open>Get\<close> or \<open>Put\<close> to Redis,
  a client to its local cache), then from 35 seconds plus twice \<open>D\<close> after the row shows the module off, and as
  long as nobody switches it on again, the gate refuses every request, whatever caches, failures of Redis, lost
  answers, restarts of the service and interleavings of reads and writes came before and between. The request
  may read the clock at one state and be answered in any later one, from Redis or from the table. Service, Redis
  and client are taken to see the same time. The two lifetimes alone (35 seconds) are not enough:
  \<open>late_fill_reopens_gate\<close> below.
\<close>

theorem switched_off_closes_gate:
  assumes "0 \<le> D" and "(toggle_step D (\<lambda>_ _. True))\<^sup>*\<^sup>* z0 z"
    and "tg_cache (ts_store z0) = Map.empty" and "ts_client z0 = Map.empty" and "ts_fills z0 = []" and "ts_answers z0 = []"
    and "switched_off m (ts_store z)" and "(toggle_step D (\<lambda>n b. n = m \<longrightarrow> \<not> b))\<^sup>*\<^sup>* z z1"
    and "ts_clock z + 35 * 1000000000 + 2 * D \<le> ts_clock z1"
    and "(toggle_step D (\<lambda>n b. n = m \<longrightarrow> \<not> b))\<^sup>*\<^sup>* z1 z2" and "served z2 m (http m)"
  shows "fst (gate_Module (ts_clock z1) t2 http m (ts_client z1)) = Some (Err 404 (''module disabled or unknown: '' @ m))"
proof -
  have "caches_bounded D z0" using assms(3-6) by (simp add: caches_bounded_def due_def)
  with assms(2) have "caches_bounded D z" by (induction rule: rtranclp_induct) (use assms(1) caches_bounded_step in blast)+
  then have "fading D m (ts_clock z) z" using assms(1,7) by (intro fading_start)
  then have f1: "fading D m (ts_clock z) z1" using fading_steps [OF assms(8,1), of m] by simp
  then have f2: "fading D m (ts_clock z) z2" using fading_steps [OF assms(10,1), of m] by simp
  have "\<not> toggle_fetch (\<lambda>_. http m) m"
    using clock_steps [OF assms(10)] assms(1,9,11) by (intro served_off [OF f2]) (simp_all add: cacheTTL_def)
  then have "\<not> toggle_fetch http m" by (simp add: toggle_fetch_def)
  moreover have "cached_toggle (ts_clock z1) m (ts_client z1) \<noteq> Some True"
  proof (cases "ts_client z1 m")
    case (Some x)
    have "snd x \<le> ts_clock z1" if "fst x"
      using f1 assms(1,9) Some that by (cases x) (simp add: fading_def cacheTTL_def DefaultTTL_def)
    with Some show ?thesis by (cases x) (auto simp: cached_toggle_def)
  qed (simp add: cached_toggle_def)
  ultimately have "\<not> fst (IsEnabled (ts_clock z1) t2 http m (ts_client z1))"
    by (auto simp: IsEnabled_def Let_def split: option.split)
  then show ?thesis by (auto simp: gate_Module_def split: prod.split)
qed

text \<open>
  What is put is got: after an accepted switch whose cache refresh was stored, with nothing in between, the service
  answers with the new value, from the cache while it is fresh and from the table afterwards, and so
  does any client whose own cache is not fresh.
\<close>

theorem put_then_get:
  assumes "toggle_Put E E2 m (Some b) s = (Reply 200 v, s1)" and "\<not> fault E2 ''redis set''"
    and "\<not> fault E' ''query toggle''" and "\<not> fault E' ''toggle-service unreachable''"
  shows "\<exists>d. fst (toggle_Get E' E2' m s1) = Reply 200 (m, b, d) \<and>
    (\<forall>c. cached_toggle t1 m c = None \<longrightarrow>
       fst (IsEnabled t1 t2 (\<lambda>_. http_reply E' (fst (toggle_Get E' E2' m s1))) m c) = b)"
proof -
  obtain b' dm u where db: "toggle_Put_db E m (Some b) s = Inr (b', dm, u)"
    and s1: "s1 = toggle_announce E2 m b' dm (cache_set E2 m b' u)"
    using assms(1) by (cases "toggle_Put_db E m (Some b) s") (auto simp: toggle_Put_def toggle_Put_db_def split: option.splits if_splits)
  note u = toggle_Put_db_store [OF db]
  have rows: "feature_toggles s1 = upd_rows (\<lambda>r. tg_module r = m) (\<lambda>r. r\<lparr>tg_enabled := b, tg_updated_at := to_micros (now E)\<rparr>) (feature_toggles s)"
    by (simp add: s1 u(4))
  have cache: "tg_redis s1 \<longrightarrow> tg_cache s1 (cacheKey m) = Some (boolString b, now E2 + cacheTTL)"
    using assms(2) u(1) by (simp add: s1 cache_set_def)
  obtain r where r: "find (\<lambda>r. tg_module r = m) (feature_toggles s1) = Some r"
  proof (cases "find (\<lambda>r. tg_module r = m) (feature_toggles s1)")
    case None
    from u(3) obtain q where "q \<in> set (feature_toggles s)" "tg_module q = m" by (auto simp: list_ex_iff)
    then have "m \<in> set (map tg_module (feature_toggles s1))" unfolding rows by (simp add: map_upd_rows rev_image_eqI)
    with None show thesis by (auto simp: find_None_iff)
  qed
  have mem: "r \<in> set (feature_toggles s1)" "tg_module r = m" using find_Some_prop [OF r] by simp_all
  from set_upd_rowsD [OF mem(1) [unfolded rows]] obtain q where
    "r = (if tg_module q = m then q\<lparr>tg_enabled := b, tg_updated_at := to_micros (now E)\<rparr> else q)" by blast
  with mem(2) have "tg_enabled r = b" by (simp split: if_splits)
  moreover have "cache_get E' m s1 = None \<or> cache_get E' m s1 = Some (boolString b)" using cache by (auto simp: cache_get_def)
  ultimately have "\<exists>d. fst (toggle_Get E' E2' m s1) = Reply 200 (m, b, d)"
    using r u(2) assms(3) boolString_cases(2) [of b] by (auto simp: toggle_Get_def toggle_Get_cached_def toggle_Get_db_def)
  then obtain d where g: "fst (toggle_Get E' E2' m s1) = Reply 200 (m, b, d)" by blast
  then have "toggle_fetch (\<lambda>_. http_reply E' (fst (toggle_Get E' E2' m s1))) m = b"
    using assms(4) by (simp add: toggle_fetch_def http_reply_def)
  then have "fst (IsEnabled t1 t2 (\<lambda>_. http_reply E' (fst (toggle_Get E' E2' m s1))) m c) = b" if "cached_toggle t1 m c = None" for c
    using that by (simp add: IsEnabled_def Let_def)
  with g show ?thesis by blast
qed

section \<open>A worked example\<close>

definition quiet_db :: "int \<Rightarrow> db_env" where
  "quiet_db t = (quiet_env (\<lambda>_ _ _ _ _ l. (Inr [], l)))\<lparr>now := t\<rparr>"

lemma quiet_db_facts [simp]: "\<not> fault (quiet_db t) op" "\<not> pub_fault (quiet_db t) op" "now (quiet_db t) = t"
  by (simp_all add: quiet_db_def quiet_env_def)

definition fresh_toggles :: toggle_store where
  "fresh_toggles = \<lparr>feature_toggles = [], tg_redis = True, tg_cache = Map.empty, tg_events = []\<rparr>"

definition seeded :: toggle_store where
  "seeded = snd (EnsureSchemaAndSeed (quiet_db 0) Modules fresh_toggles)"

definition idle :: "toggle_store \<Rightarrow> int \<Rightarrow> toggle_system" where
  "idle s t = \<lparr>ts_store = s, ts_client = Map.empty, ts_clock = t, ts_fills = [], ts_answers = []\<rparr>"

lemma seeded_step: "toggle_step D made (idle fresh_toggles 0) (idle seeded 0)"
  using toggle_step.seed [of "quiet_db 0" "idle fresh_toggles 0" Modules D made] by (simp add: idle_def seeded_def)

lemma seeded_rows: "feature_toggles seeded = map (\<lambda>(m, d). \<lparr>tg_module = m, tg_domain = d, tg_enabled = True, tg_updated_at = to_micros 0\<rparr>) Modules"
  by (simp add: seeded_def EnsureSchemaAndSeed_def fresh_toggles_def Modules_def)

theorem toggles_well_typed_witness:
  "toggles_typed seeded \<and> length (feature_toggles (snd (EnsureSchemaAndSeed (quiet_db 0) Modules seeded))) = 20"
proof -
  have "feature_toggles (ts_store (idle fresh_toggles 0)) = []" "tg_cache (ts_store (idle fresh_toggles 0)) = Map.empty"
    "ts_store (idle seeded 0) = seeded" by (simp_all add: idle_def fresh_toggles_def)
  moreover have "fst (EnsureSchemaAndSeed (quiet_db 0) Modules seeded)" by (simp add: EnsureSchemaAndSeed_def)
  ultimately show ?thesis
    using toggles_well_typed [OF r_into_rtranclp, OF seeded_step [of 0 "\<lambda>_ _. True"], of seeded "quiet_db 0"] by (simp add: Let_def)
qed

definition ads_rows :: toggle_store where
  "ads_rows = (case toggle_Put_db (quiet_db 0) ''advertising'' (Some False) seeded of Inr (b, d, s) \<Rightarrow> s | Inl r \<Rightarrow> seeded)"

lemma ads_db: "toggle_Put_db (quiet_db 0) ''advertising'' (Some False) seeded = Inr (False, ''commerce'', ads_rows)"
  unfolding ads_rows_def by (simp add: toggle_Put_db_def seeded_rows Modules_def Let_def)

lemma ads_off_rows: "switched_off ''advertising'' ads_rows"
  unfolding ads_rows_def by (simp add: toggle_Put_db_def seeded_rows Modules_def switched_off_def Let_def)

lemma ads_put: "toggle_Put (quiet_db 0) (quiet_db 0) ''advertising'' (Some False) seeded =
    (Reply 200 (''advertising'', False, ''commerce''),
     toggle_announce (quiet_db 0) ''advertising'' False ''commerce'' (cache_set (quiet_db 0) ''advertising'' False ads_rows))"
  by (simp add: toggle_Put_def ads_db)

theorem put_then_get_witness:
  "\<exists>d. fst (toggle_Get (quiet_db 1) (quiet_db 1) ''advertising'' (snd (toggle_Put (quiet_db 0) (quiet_db 0) ''advertising'' (Some False) seeded))) =
     Reply 200 (''advertising'', False, d)"
  using put_then_get [OF ads_put, of "quiet_db 1" "quiet_db 1"] by (auto simp: ads_put)

text \<open>
  The race: a \<open>Get\<close> reads the row of an enabled module, the module is switched off and Redis refreshed,
  and then the \<open>Get\<close> writes what it read. From then on, for the thirty seconds of its entry, the service
  answers that the module is on.
\<close>

definition race_store :: "int \<Rightarrow> toggle_store" where
  "race_store t = cache_set (quiet_db t) ''advertising'' True (cache_set (quiet_db 0) ''advertising'' False ads_rows)"

lemma race_steps:
  assumes "0 \<le> D"
  shows "(toggle_step D (\<lambda>_ _. True))\<^sup>*\<^sup>* (idle fresh_toggles 0) ((idle ads_rows 0)\<lparr>ts_fills := [(0, ''advertising'', False), (0, ''advertising'', True)]\<rparr>)"
    and "(toggle_step D (\<lambda>n b. n = ''advertising'' \<longrightarrow> \<not> b))\<^sup>*\<^sup>*
      ((idle ads_rows 0)\<lparr>ts_fills := [(0, ''advertising'', False), (0, ''advertising'', True)]\<rparr>) (idle (race_store D) D)"
proof -
  let ?m = "''advertising''" and ?R = "toggle_step D (\<lambda>_ _. True)" and ?Q = "toggle_step D (\<lambda>n b. n = ''advertising'' \<longrightarrow> \<not> b)"
  have "toggle_Get_db (quiet_db 0) ?m seeded = (Reply 200 (?m, True, ''commerce''), Some True)"
    by (simp add: toggle_Get_db_def seeded_rows Modules_def)
  then have "?R (idle seeded 0) ((idle seeded 0)\<lparr>ts_fills := [(0, ?m, True)]\<rparr>)"
    using toggle_step.get [of "quiet_db 0" "idle seeded 0" ?m _ "Some True"] by (simp add: idle_def fill_of_def)
  moreover have "?R ((idle seeded 0)\<lparr>ts_fills := [(0, ?m, True)]\<rparr>) ((idle ads_rows 0)\<lparr>ts_fills := [(0, ?m, False), (0, ?m, True)]\<rparr>)"
    using toggle_step.put [of "quiet_db 0" "(idle seeded 0)\<lparr>ts_fills := [(0, ?m, True)]\<rparr>" _ ?m False False] ads_db
    by (simp add: idle_def)
  ultimately show "?R\<^sup>*\<^sup>* (idle fresh_toggles 0) ((idle ads_rows 0)\<lparr>ts_fills := [(0, ?m, False), (0, ?m, True)]\<rparr>)"
    using seeded_step by (meson rtranclp.rtrancl_into_rtrancl rtranclp.rtrancl_refl)
  let ?s = "cache_set (quiet_db 0) ?m False ads_rows"
  have "?Q ((idle ads_rows 0)\<lparr>ts_fills := [(0, ?m, False), (0, ?m, True)]\<rparr>) ((idle ?s 0)\<lparr>ts_fills := [(0, ?m, True)]\<rparr>)"
    using toggle_step.fill [of "quiet_db 0" "(idle ads_rows 0)\<lparr>ts_fills := [(0, ?m, False), (0, ?m, True)]\<rparr>" "[]" 0 ?m False]
    by (simp add: idle_def)
  moreover have "?Q ((idle ?s 0)\<lparr>ts_fills := [(0, ?m, True)]\<rparr>) ((idle ?s D)\<lparr>ts_fills := [(0, ?m, True)]\<rparr>)"
    using toggle_step.tick [of D D "(idle ?s 0)\<lparr>ts_fills := [(0, ?m, True)]\<rparr>"] assms by (simp add: idle_def due_def)
  moreover have "?Q ((idle ?s D)\<lparr>ts_fills := [(0, ?m, True)]\<rparr>) (idle (race_store D) D)"
    using toggle_step.fill [of "quiet_db D" "(idle ?s D)\<lparr>ts_fills := [(0, ?m, True)]\<rparr>" "[]" 0 ?m True]
    by (simp add: idle_def race_store_def)
  ultimately show "?Q\<^sup>*\<^sup>* ((idle ads_rows 0)\<lparr>ts_fills := [(0, ?m, False), (0, ?m, True)]\<rparr>) (idle (race_store D) D)"
    by (meson converse_rtranclp_into_rtranclp rtranclp.rtrancl_refl)
qed

lemma idle_tick: "0 \<le> d \<Longrightarrow> toggle_step D made (idle s t) (idle s (t + d))"
  using toggle_step.tick [of d D "idle s t" made] by (simp add: idle_def due_def)

theorem late_fill_reopens_gate:
  assumes "0 \<le> D" and "0 \<le> d" and "d < 30 * 1000000000"
  shows "\<exists>z z1. (toggle_step D (\<lambda>_ _. True))\<^sup>*\<^sup>* (idle fresh_toggles 0) z \<and> switched_off ''advertising'' (ts_store z) \<and>
    (toggle_step D (\<lambda>n b. n = ''advertising'' \<longrightarrow> \<not> b))\<^sup>*\<^sup>* z z1 \<and> ts_clock z1 = ts_clock z + D + d \<and>
    fst (gate_Module (ts_clock z1) t2 (\<lambda>m. http_reply (quiet_db (D + d)) (fst (toggle_Get (quiet_db (D + d)) E2 m (ts_store z1))))
      ''advertising'' (ts_client z1)) = None"
proof -
  let ?z = "(idle ads_rows 0)\<lparr>ts_fills := [(0, ''advertising'', False), (0, ''advertising'', True)]\<rparr>"
  let ?z1 = "idle (race_store D) (D + d)"
  have "(toggle_step D (\<lambda>n b. n = ''advertising'' \<longrightarrow> \<not> b))\<^sup>*\<^sup>* ?z ?z1"
    using race_steps(2) [OF assms(1)] idle_tick [OF assms(2)] by (meson rtranclp.rtrancl_into_rtrancl)
  moreover have red: "tg_redis ads_rows" by (simp add: ads_rows_def toggle_Put_db_def seeded_rows Modules_def Let_def)
      (simp add: seeded_def EnsureSchemaAndSeed_def fresh_toggles_def)
  have "cache_get (quiet_db (D + d)) ''advertising'' (race_store D) = Some ''true''"
    using assms red by (simp add: cache_get_def race_store_def cache_set_def cacheTTL_def)
  then have "toggle_Get_cached (quiet_db (D + d)) ''advertising'' (race_store D) = Some (Reply 200 (''advertising'', True, ''commerce''))"
    by (simp add: toggle_Get_cached_def Modules_def)
  then have "fst (gate_Module (D + d) t2 (\<lambda>m. http_reply (quiet_db (D + d)) (fst (toggle_Get (quiet_db (D + d)) E2 m (race_store D))))
      ''advertising'' Map.empty) = None"
    by (simp add: gate_Module_def IsEnabled_def cached_toggle_def toggle_fetch_def toggle_Get_def http_reply_def Let_def)
  ultimately show ?thesis
    using race_steps(1) [OF assms(1)] ads_off_rows by (intro exI [of _ ?z] exI [of _ ?z1]) (simp add: idle_def)
qed

theorem switched_off_closes_gate_witness:
  "fst (gate_Module 38000000000 38000000000 (\<lambda>m. http_reply (quiet_db 38000000000) (fst (toggle_Get_db (quiet_db 38000000000) m (race_store 1500000000))))
     ''advertising'' Map.empty) = Some (Err 404 (''module disabled or unknown: '' @ ''advertising''))"
proof -
  let ?m = "''advertising''" and ?z = "(idle ads_rows 0)\<lparr>ts_fills := [(0, ''advertising'', False), (0, ''advertising'', True)]\<rparr>"
  let ?z1 = "idle (race_store 1500000000) 38000000000" and ?Q = "toggle_step 1500000000 (\<lambda>n b. n = ''advertising'' \<longrightarrow> \<not> b)"
  have "?Q (idle (race_store 1500000000) 1500000000) ?z1"
    using idle_tick [of 36500000000 1500000000 _ "race_store 1500000000" 1500000000] by simp
  with race_steps(2) [of 1500000000] have later: "?Q\<^sup>*\<^sup>* ?z ?z1" by (simp add: rtranclp.rtrancl_into_rtrancl)
  have z0: "tg_cache (ts_store (idle fresh_toggles 0)) = Map.empty" "ts_client (idle fresh_toggles 0) = Map.empty"
    "ts_fills (idle fresh_toggles 0) = []" "ts_answers (idle fresh_toggles 0) = []" by (simp_all add: idle_def fresh_toggles_def)
  have z: "switched_off ?m (ts_store ?z)" "ts_clock ?z + 35 * 1000000000 + 2 * 1500000000 \<le> ts_clock ?z1"
    using ads_off_rows by (simp_all add: idle_def)
  let ?http = "\<lambda>m. http_reply (quiet_db 38000000000) (fst (toggle_Get_db (quiet_db 38000000000) m (race_store 1500000000)))"
  have "served ?z1 ?m (?http ?m)"
    unfolding served_def
    by (intro disjI2 exI [of _ "quiet_db 38000000000"] exI [of _ "fst (toggle_Get_db (quiet_db 38000000000) ?m (race_store 1500000000))"]
        exI [of _ "snd (toggle_Get_db (quiet_db 38000000000) ?m (race_store 1500000000))"]) (simp add: idle_def)
  then have "fst (gate_Module (ts_clock ?z1) 38000000000 ?http ?m (ts_client ?z1)) = Some (Err 404 (''module disabled or unknown: '' @ ?m))"
    by (intro switched_off_closes_gate [where D = 1500000000 and ?z0.0 = "idle fresh_toggles 0" and z = ?z and ?z2.0 = ?z1] race_steps(1) z0 z later rtranclp.rtrancl_refl) simp_all
  then show ?thesis by (simp add: idle_def)
qed

end
