(* ===== verification/Passenger.thy ===== *)
theory Passenger
  imports Toggles "HOL-Library.Multiset" "HOL-Library.Monad_Syntax"
begin

text \<open>
  Passenger information of citizen-api (src/services/go/citizen-api/internal/handlers/passenger.go): the stop and
  route network with its fallback, the headway timetable, arrivals and the journey planner, alerts and the
  mobile configuration. Instants are nanoseconds. A zone gives the instant of a clock time on the local
  day of an instant (\<open>time.Date\<close>). The timetable loop need not end, so it and what calls it give an option:
  \<open>None\<close> is a request that never returns. \<open>sort.Slice\<close> is a parameter of which only the sorting is used.
\<close>

section \<open>The network\<close>

record gtfs_stop =
  sp_id :: string
  sp_name :: string
  sp_lat :: rat
  sp_lon :: rat

record gtfs_route =
  rt_id :: string
  rt_short_name :: string
  rt_long_name :: string
  rt_type :: int
  rt_headway_min :: int
  rt_stop_ids :: "string list"

definition fallbackStops :: "gtfs_stop list" where
  "fallbackStops =
     [\<lparr>sp_id = ''S001'', sp_name = ''Central Station'', sp_lat = 525200 / 10000, sp_lon = 134050 / 10000\<rparr>,
      \<lparr>sp_id = ''S002'', sp_name = ''Museum Island'', sp_lat = 525169 / 10000, sp_lon = 134010 / 10000\<rparr>,
      \<lparr>sp_id = ''S003'', sp_name = ''City Hall'', sp_lat = 525186 / 10000, sp_lon = 134081 / 10000\<rparr>,
      \<lparr>sp_id = ''S004'', sp_name = ''Riverside Depot'', sp_lat = 525050 / 10000, sp_lon = 134310 / 10000\<rparr>,
      \<lparr>sp_id = ''S005'', sp_name = ''North H2 Hub'', sp_lat = 525400 / 10000, sp_lon = 133900 / 10000\<rparr>,
      \<lparr>sp_id = ''S006'', sp_name = ''University Campus'', sp_lat = 525120 / 10000, sp_lon = 133260 / 10000\<rparr>,
      \<lparr>sp_id = ''S007'', sp_name = ''Market Square'', sp_lat = 525155 / 10000, sp_lon = 134180 / 10000\<rparr>,
      \<lparr>sp_id = ''S008'', sp_name = ''Stadium Park'', sp_lat = 524990 / 10000, sp_lon = 133890 / 10000\<rparr>]"

text \<open>The em dash of the long names is its three UTF-8 bytes.\<close>

definition em_dash :: string where
  "em_dash = map char_of [226, 128, 148 :: nat]"

definition fallbackRoutes :: "gtfs_route list" where
  "fallbackRoutes =
     [\<lparr>rt_id = ''R10'', rt_short_name = ''10'', rt_long_name = ''Central Station '' @ em_dash @ '' North H2 Hub'', rt_type = 3,
       rt_headway_min = 10, rt_stop_ids = [''S001'', ''S002'', ''S003'', ''S005'']\<rparr>,
      \<lparr>rt_id = ''R21'', rt_short_name = ''21'', rt_long_name = ''University '' @ em_dash @ '' Riverside Depot'', rt_type = 3,
       rt_headway_min = 15, rt_stop_ids = [''S006'', ''S001'', ''S007'', ''S004'']\<rparr>,
      \<lparr>rt_id = ''R42'', rt_short_name = ''42'', rt_long_name = ''Stadium Park '' @ em_dash @ '' City Hall'', rt_type = 3,
       rt_headway_min = 20, rt_stop_ids = [''S008'', ''S007'', ''S003'', ''S001'']\<rparr>]"

text \<open>The tables: stops with their key, routes with key, activity and headway, and the stops of routes by sequence.\<close>

record network_store =
  net_stops :: "(string \<times> gtfs_stop) list"
  net_routes :: "(string \<times> bool \<times> int option \<times> gtfs_route) list"
  net_route_stops :: "(string \<times> int \<times> string) list"

definition splitCSV :: "string \<Rightarrow> string list" where
  "splitCSV csv = split_on CHR '','' csv"

text \<open>\<open>string_agg(s.code, ',' ORDER BY rs.seq)\<close> over the left join; a missing stop is null and left out.\<close>

definition stop_csv :: "network_store \<Rightarrow> string \<Rightarrow> string" where
  "stop_csv s rid =
     join_with '','' (map sp_id (List.map_filter (\<lambda>x. map_of (net_stops s) (snd (snd x)))
        (sort_key (\<lambda>x. fst (snd x)) (filter (\<lambda>x. fst x = rid) (net_route_stops s)))))"

text \<open>\<open>by_stop\<close> and \<open>by_route\<close> sort by code in the collation of the database.\<close>

definition loadNetwork ::
  "db_env \<Rightarrow> (gtfs_stop list \<Rightarrow> gtfs_stop list) \<Rightarrow> (gtfs_route list \<Rightarrow> gtfs_route list) \<Rightarrow> network_store \<Rightarrow> (gtfs_stop list \<times> gtfs_route list) option" where
  "loadNetwork E by_stop by_route s =
     (if fault E ''load stops'' \<or> fault E ''load routes'' then None
      else Some (by_stop (map snd (net_stops s)),
        by_route (map (\<lambda>(rid, active, headway, rt). rt\<lparr>rt_type := 3, rt_headway_min := (case headway of None \<Rightarrow> 15 | Some h \<Rightarrow> h),
            rt_stop_ids := (if stop_csv s rid = [] then [] else splitCSV (stop_csv s rid))\<rparr>)
          (filter (\<lambda>(rid, active, headway, rt). active) (net_routes s)))))"

definition network ::
  "db_env \<Rightarrow> (gtfs_stop list \<Rightarrow> gtfs_stop list) \<Rightarrow> (gtfs_route list \<Rightarrow> gtfs_route list) \<Rightarrow> network_store \<Rightarrow> gtfs_stop list \<times> gtfs_route list" where
  "network E by_stop by_route s =
     (if fault E ''DATABASE_URL unset'' then (fallbackStops, fallbackRoutes)
      else case loadNetwork E by_stop by_route s of
        None \<Rightarrow> (fallbackStops, fallbackRoutes)
      | Some (stops, routes) \<Rightarrow> if stops = [] \<or> routes = [] then (fallbackStops, fallbackRoutes) else (stops, routes))"

definition stopByID :: "gtfs_stop list \<Rightarrow> string \<Rightarrow> gtfs_stop option" where
  "stopByID stops i = find (\<lambda>s. sp_id s = i) stops"

text \<open>The first position of a stop on a route.\<close>

fun index_of :: "string \<Rightarrow> string list \<Rightarrow> nat option" where
  "index_of x [] = None"
| "index_of x (y # ys) = (if y = x then Some 0 else map_option Suc (index_of x ys))"

section \<open>Arrivals\<close>

definition minute_ns :: int where
  "minute_ns = 60 * 1000000000"

definition minutesPerStop :: int where
  "minutesPerStop = 4"

type_synonym zone = "int \<Rightarrow> int \<Rightarrow> int \<Rightarrow> int"

definition utc_zone :: zone where
  "utc_zone t hour mins = t div (24 * 60 * minute_ns) * (24 * 60 * minute_ns) + (hour * 60 + mins) * minute_ns"

record arrival =
  ar_route_id :: string
  ar_route_short_name :: string
  ar_headsign :: string
  ar_stop_id :: string
  ar_scheduled_at :: int
  ar_in_minutes :: int
  ar_schedule_based :: bool

partial_function (option) arrivals_loop ::
  "(int \<Rightarrow> arrival) \<Rightarrow> int \<Rightarrow> int \<Rightarrow> int \<Rightarrow> nat \<Rightarrow> int \<Rightarrow> arrival list \<Rightarrow> arrival list option" where
  "arrivals_loop mk headway after until n t out =
     (if t < until \<and> length out < n then
        (if \<not> t > after then arrivals_loop mk headway after until n (t + headway) out
         else arrivals_loop mk headway after until n (t + headway) (out @ [mk t]))
      else Some out)"

definition headsign_of :: "gtfs_stop list \<Rightarrow> gtfs_route \<Rightarrow> string" where
  "headsign_of stops rt = (case stopByID stops (last (rt_stop_ids rt)) of None \<Rightarrow> [] | Some s \<Rightarrow> sp_name s)"

definition route_headway :: "gtfs_route \<Rightarrow> int" where
  "route_headway rt = i64 (rt_headway_min rt * minute_ns)"

definition first_time :: "zone \<Rightarrow> int \<Rightarrow> nat \<Rightarrow> int" where
  "first_time zn after offset = zn after 5 30 + int offset * minutesPerStop * minute_ns"

text \<open>The caller has found the stop on the route, so the route has stops.\<close>

definition nextArrivalsAfter ::
  "zone \<Rightarrow> int \<Rightarrow> gtfs_stop list \<Rightarrow> gtfs_route \<Rightarrow> nat \<Rightarrow> int \<Rightarrow> nat \<Rightarrow> arrival list option" where
  "nextArrivalsAfter zn clk stops rt offset after n =
     arrivals_loop (\<lambda>t. \<lparr>ar_route_id = rt_id rt, ar_route_short_name = rt_short_name rt, ar_headsign = headsign_of stops rt,
         ar_stop_id = rt_stop_ids rt ! offset, ar_scheduled_at = t, ar_in_minutes = go_div (t - clk) minute_ns,
         ar_schedule_based = True\<rparr>)
       (route_headway rt) after (zn after 23 0) n (first_time zn after offset) []"

definition nextArrivals :: "zone \<Rightarrow> int \<Rightarrow> gtfs_stop list \<Rightarrow> gtfs_route \<Rightarrow> nat \<Rightarrow> nat \<Rightarrow> arrival list option" where
  "nextArrivals zn clk stops rt offset n = nextArrivalsAfter zn clk stops rt offset (clk - minute_ns) n"

fun gather :: "('a \<Rightarrow> 'b list option) \<Rightarrow> 'a list \<Rightarrow> 'b list option" where
  "gather f [] = Some []"
| "gather f (x # xs) = do { a \<leftarrow> f x; b \<leftarrow> gather f xs; Some (a @ b) }"

definition ListStops :: "gtfs_stop list \<times> gtfs_route list \<Rightarrow> gtfs_stop list resp" where
  "ListStops net = Reply 200 (fst net)"

definition ListRoutes :: "gtfs_stop list \<times> gtfs_route list \<Rightarrow> gtfs_route list resp" where
  "ListRoutes net = Reply 200 (snd net)"

definition GetArrivals ::
  "zone \<Rightarrow> int \<Rightarrow> (arrival list \<Rightarrow> arrival list) \<Rightarrow> gtfs_stop list \<times> gtfs_route list \<Rightarrow> string \<Rightarrow> arrival list resp option" where
  "GetArrivals zn clk by_time net stopID =
     (case net of (stops, routes) \<Rightarrow>
        if stopByID stops stopID = None then Some (Err 400 ''unknown or missing stop_id'')
        else do {
          arrivals \<leftarrow> gather (\<lambda>rt. case index_of stopID (rt_stop_ids rt) of None \<Rightarrow> Some [] | Some offset \<Rightarrow> nextArrivals zn clk stops rt offset 3) routes;
          Some (Reply 200 (take 10 (by_time arrivals))) })"

section \<open>Journeys\<close>

record journey_leg =
  jl_route_id :: string
  jl_route_short_name :: string
  jl_from :: string
  jl_to :: string
  jl_depart_at :: int
  jl_arrive_at :: int
  jl_duration_min :: int

record journey_transfer =
  jt_stop_id :: string
  jt_legs :: "journey_leg list"
  jt_depart_at :: int
  jt_arrive_at :: int
  jt_duration_min :: int

definition makeLeg :: "zone \<Rightarrow> int \<Rightarrow> gtfs_stop list \<Rightarrow> gtfs_route \<Rightarrow> nat \<Rightarrow> nat \<Rightarrow> int \<Rightarrow> journey_leg option option" where
  "makeLeg zn clk stops rt fromIdx toIdx after =
     do {
       deps \<leftarrow> nextArrivalsAfter zn clk stops rt fromIdx after 1;
       Some (case deps of
          [] \<Rightarrow> None
        | d # _ \<Rightarrow>
            let dep = ar_scheduled_at d; arr = dep + (int toIdx - int fromIdx) * minutesPerStop * minute_ns in
            Some \<lparr>jl_route_id = rt_id rt, jl_route_short_name = rt_short_name rt, jl_from = rt_stop_ids rt ! fromIdx,
                  jl_to = rt_stop_ids rt ! toIdx, jl_depart_at = dep, jl_arrive_at = arr, jl_duration_min = go_div (arr - dep) minute_ns\<rparr>) }"

definition direct_ride :: "zone \<Rightarrow> int \<Rightarrow> gtfs_stop list \<Rightarrow> string \<Rightarrow> string \<Rightarrow> gtfs_route \<Rightarrow> journey_leg list option" where
  "direct_ride zn clk stops from dest rt =
     (case (index_of from (rt_stop_ids rt), index_of dest (rt_stop_ids rt)) of
        (Some fromIdx, Some toIdx) \<Rightarrow>
          if fromIdx \<ge> toIdx then Some []
          else map_option (\<lambda>leg. case leg of None \<Rightarrow> [] | Some l \<Rightarrow> [l]) (makeLeg zn clk stops rt fromIdx toIdx (clk - minute_ns))
      | _ \<Rightarrow> Some [])"

text \<open>The loops over first route, second route and interchange, in their order.\<close>

definition interchanges :: "gtfs_route list \<Rightarrow> string \<Rightarrow> string \<Rightarrow> (gtfs_route \<times> nat \<times> gtfs_route \<times> nat \<times> string) list" where
  "interchanges routes from dest =
     concat (map (\<lambda>a. case index_of from (rt_stop_ids a) of
        None \<Rightarrow> []
      | Some fromIdx \<Rightarrow> concat (map (\<lambda>b.
          if rt_id b = rt_id a then []
          else case index_of dest (rt_stop_ids b) of
            None \<Rightarrow> []
          | Some toIdx \<Rightarrow> map (\<lambda>x. (a, fromIdx, b, toIdx, x)) (rt_stop_ids a)) routes)) routes)"

text \<open>The first leg is planned in the server's zone; its arrival is a UTC time, so the second leg is planned in UTC.\<close>

fun transfer_loop ::
  "zone \<Rightarrow> int \<Rightarrow> gtfs_stop list \<Rightarrow> string list \<Rightarrow> (gtfs_route \<times> nat \<times> gtfs_route \<times> nat \<times> string) list \<Rightarrow> journey_transfer list option" where
  "transfer_loop zn clk stops seen [] = Some []"
| "transfer_loop zn clk stops seen ((a, fromIdx, b, toIdx, x) # rest) =
     (case (index_of x (rt_stop_ids a), index_of x (rt_stop_ids b)) of
        (Some aX, Some bX) \<Rightarrow>
          let key = rt_id a @ ''|'' @ rt_id b @ ''|'' @ x in
          if aX \<le> fromIdx \<or> bX \<ge> toIdx \<or> key \<in> set seen then transfer_loop zn clk stops seen rest
          else do {
            leg1 \<leftarrow> makeLeg zn clk stops a fromIdx aX (clk - minute_ns);
            case leg1 of
              None \<Rightarrow> transfer_loop zn clk stops seen rest
            | Some l1 \<Rightarrow> do {
                leg2 \<leftarrow> makeLeg utc_zone clk stops b bX toIdx (jl_arrive_at l1);
                case leg2 of
                  None \<Rightarrow> transfer_loop zn clk stops seen rest
                | Some l2 \<Rightarrow> map_option (Cons \<lparr>jt_stop_id = x, jt_legs = [l1, l2], jt_depart_at = jl_depart_at l1,
                    jt_arrive_at = jl_arrive_at l2, jt_duration_min = go_div (jl_arrive_at l2 - jl_depart_at l1) minute_ns\<rparr>)
                    (transfer_loop zn clk stops (key # seen) rest) } }
      | _ \<Rightarrow> transfer_loop zn clk stops seen rest)"

definition planJourney ::
  "zone \<Rightarrow> int \<Rightarrow> (journey_leg list \<Rightarrow> journey_leg list) \<Rightarrow> (journey_transfer list \<Rightarrow> journey_transfer list) \<Rightarrow> gtfs_stop list \<Rightarrow>
   gtfs_route list \<Rightarrow> string \<Rightarrow> string \<Rightarrow> (journey_leg list \<times> journey_transfer list) option" where
  "planJourney zn clk by_depart by_arrive stops routes from dest =
     do {
       direct \<leftarrow> gather (direct_ride zn clk stops from dest) routes;
       transfers \<leftarrow> transfer_loop zn clk stops [] (interchanges routes from dest);
       Some (by_depart direct, by_arrive transfers) }"

definition PlanJourney ::
  "zone \<Rightarrow> int \<Rightarrow> (journey_leg list \<Rightarrow> journey_leg list) \<Rightarrow> (journey_transfer list \<Rightarrow> journey_transfer list) \<Rightarrow>
   gtfs_stop list \<times> gtfs_route list \<Rightarrow> string \<Rightarrow> string \<Rightarrow> (journey_leg list \<times> journey_transfer list) resp option" where
  "PlanJourney zn clk by_depart by_arrive net from dest =
     (case net of (stops, routes) \<Rightarrow>
        if stopByID stops from = None then Some (Err 400 ''unknown or missing from stop_id'')
        else if stopByID stops dest = None then Some (Err 400 ''unknown or missing to stop_id'')
        else map_option (Reply 200) (planJourney zn clk by_depart by_arrive stops routes from dest))"

section \<open>Alerts and configuration\<close>

record service_alert =
  sa_id :: string
  sa_header :: string
  sa_description :: string
  sa_severity :: string
  sa_route_ids :: "string list"
  sa_active_from :: int
  sa_active_until :: int

text \<open>The validity dates in seconds since 1970: 2026-06-01 to 2026-09-30, and 2026-09-01 to 2026-09-17.\<close>

definition serviceAlerts :: "service_alert list" where
  "serviceAlerts =
     [\<lparr>sa_id = ''AL-001'', sa_header = ''Route 42 detour via Market Square'',
       sa_description = ''Due to roadworks on Museum Island, route 42 operates via Market Square until the end of September 2026.'',
       sa_severity = ''warning'', sa_route_ids = [''R42''],
       sa_active_from = 1780272000 * 1000000000, sa_active_until = 1790812799 * 1000000000\<rparr>,
      \<lparr>sa_id = ''AL-002'', sa_header = ''Free H2 bus rides on Clean Air Day'',
       sa_description = ''All hydrogen bus lines are fare-free on the city Clean Air Day, 2026-09-17.'',
       sa_severity = ''info'', sa_route_ids = [],
       sa_active_from = 1788220800 * 1000000000, sa_active_until = 1789689599 * 1000000000\<rparr>]"

definition ListAlerts :: "int \<Rightarrow> service_alert list resp" where
  "ListAlerts clk = Reply 200 (filter (\<lambda>a. sa_active_from a < clk \<and> clk < sa_active_until a) serviceAlerts)"

text \<open>The client reads the clock for each module by itself, before and after the fetch (\<open>clk\<close>).\<close>

fun module_states :: "(string \<Rightarrow> int \<times> int) \<Rightarrow> (string \<Rightarrow> toggle_answer) \<Rightarrow> string list \<Rightarrow> toggle_client \<Rightarrow> (string \<times> bool) list \<times> toggle_client" where
  "module_states clk http [] c = ([], c)"
| "module_states clk http (m # ms) c =
     (case IsEnabled (fst (clk m)) (snd (clk m)) http m c of (e, c1) \<Rightarrow> case module_states clk http ms c1 of (xs, c2) \<Rightarrow> ((m, e) # xs, c2))"

definition MobileConfig :: "(string \<Rightarrow> int \<times> int) \<Rightarrow> (string \<Rightarrow> toggle_answer) \<Rightarrow> toggle_client \<Rightarrow> (string \<times> (string \<times> bool) list) resp \<times> toggle_client" where
  "MobileConfig clk http c =
     (case module_states clk http [''passenger-pwa'', ''mobile-app'', ''demand-responsive'', ''carbon-credits'', ''open-data-portal''] c of
        (modules, c') \<Rightarrow> (Reply 200 (''v1'', modules), c'))"

section \<open>The timetable\<close>

text \<open>Every departure from the first until the end of service.\<close>

definition timetable :: "int \<Rightarrow> int \<Rightarrow> int \<Rightarrow> int list" where
  "timetable start headway until = map (\<lambda>k. start + int k * headway) [0..<nat ((until - start + headway - 1) div headway)]"

lemma timetable_step:
  assumes "0 < headway"
  shows "timetable t headway until = (if t < until then t # timetable (t + headway) headway until else [])"
proof (cases "t < until")
  case True
  let ?n = "nat ((until - (t + headway) + headway - 1) div headway)"
  have "(until - t + headway - 1) div headway = (until - (t + headway) + headway - 1) div headway + 1"
    using assms div_add_self2 [of headway "until - t - 1"] by (simp add: algebra_simps)
  moreover have "0 \<le> (until - (t + headway) + headway - 1) div headway" using True assms by (simp add: pos_imp_zdiv_nonneg_iff)
  ultimately have n: "nat ((until - t + headway - 1) div headway) = Suc ?n" by simp
  show ?thesis using True unfolding timetable_def n
    by (simp add: upt_conv_Cons map_Suc_upt [symmetric] algebra_simps comp_def del: upt_Suc)
next
  case False
  then have "(until - t + headway - 1) div headway \<le> 0" 
    using zdiv_mono1 [of "until - t + headway - 1" "headway - 1" headway] assms by (simp add: div_pos_pos_trivial)
  with False show ?thesis by (simp add: timetable_def)
qed

lemma arrivals_loop_timetable:
  assumes "0 < headway"
  shows "arrivals_loop mk headway after until n t out = Some (out @ map mk (take (n - length out) (filter (\<lambda>t. after < t) (timetable t headway until))))"
proof (induction "nat (until - t)" arbitrary: t out rule: less_induct)
  case less
  show ?case
  proof (cases "t < until \<and> length out < n")
    case True
    then have dec: "nat (until - (t + headway)) < nat (until - t)" using assms by simp
    obtain k where k: "n - length out = Suc k" "n - length (out @ [mk t]) = k" using True by (cases "n - length out") auto
    show ?thesis using True less [OF dec, of out] less [OF dec, of "out @ [mk t]"] k timetable_step [OF assms, of t until]
      by (subst arrivals_loop.simps) (auto split: if_splits)
  next
    case False
    then show ?thesis using timetable_step [OF assms, of t until] by (subst arrivals_loop.simps) auto
  qed
qed

definition regular :: "gtfs_route \<Rightarrow> bool" where
  "regular rt \<longleftrightarrow> 0 < rt_headway_min rt \<and> rt_headway_min rt \<le> 1000000"

definition departures :: "zone \<Rightarrow> int \<Rightarrow> gtfs_route \<Rightarrow> nat \<Rightarrow> int list" where
  "departures zn after rt offset = timetable (first_time zn after offset) (rt_headway_min rt * minute_ns) (zn after 23 0)"

lemma regular_headway: "regular rt \<Longrightarrow> route_headway rt = rt_headway_min rt * minute_ns" "regular rt \<Longrightarrow> 0 < route_headway rt"
  by (simp_all add: regular_def route_headway_def minute_ns_def i64_small)

lemma sorted_timetable: "0 < headway \<Longrightarrow> sorted (timetable t headway until)"
  by (simp add: timetable_def sorted_iff_nth_mono mult_right_mono)

text \<open>
  The arrivals of a route are its timetable: for a route with a positive headway the loop ends and gives
  the next departures after the given instant, in order, from the first run of the day to the end of
  service, no more than asked for and none left out before them.
\<close>

theorem next_arrivals_exact:
  assumes "regular rt"
  shows "\<exists>as. nextArrivalsAfter zn clk stops rt offset after n = Some as \<and>
    map ar_scheduled_at as = take n (filter (\<lambda>t. after < t) (departures zn after rt offset)) \<and> sorted (map ar_scheduled_at as) \<and>
    (\<forall>a \<in> set as. ar_route_id a = rt_id rt \<and> ar_stop_id a = rt_stop_ids rt ! offset)"
proof -
  note h = regular_headway [OF assms]
  have "sorted (filter (\<lambda>t. after < t) (departures zn after rt offset))"
    unfolding departures_def h(1) [symmetric] using sorted_timetable [OF h(2)] by (rule sorted_wrt_filter)
  then have "sorted (take n (filter (\<lambda>t. after < t) (departures zn after rt offset)))" by (rule sorted_wrt_take)
  then show ?thesis
    unfolding nextArrivalsAfter_def arrivals_loop_timetable [OF h(2)] departures_def h(1) [symmetric] by (simp add: comp_def)
qed

text \<open>A headway of zero and a first run that is over: the loop adds nothing to the clock and never ends.\<close>

lemma zero_headway_hangs:
  assumes "t < until" "\<not> after < t" "length out < n"
  shows "arrivals_loop mk 0 after until n t out = None"
proof -
  have "h = 0 \<longrightarrow> \<not> (t < until \<and> \<not> after < t \<and> length out < n)" if run: "arrivals_loop mk h after until n t out = Some r"
    for mk h after until n t out r
    by (rule arrivals_loop.raw_induct [OF _ run]) (auto split: if_splits, fastforce)
  from this [of mk 0 after until n t out] assms show ?thesis by (cases "arrivals_loop mk 0 after until n t out") auto
qed

section \<open>Soundness of the planner\<close>

lemma index_of_Some: "index_of x xs = Some i \<Longrightarrow> i < length xs \<and> xs ! i = x"
  by (induction xs arbitrary: i) (auto split: if_splits)

text \<open>A leg that rides a route from one stop to a later one, on the earliest departure after an instant.\<close>

definition rides :: "zone \<Rightarrow> int \<Rightarrow> gtfs_route \<Rightarrow> string \<Rightarrow> string \<Rightarrow> journey_leg \<Rightarrow> bool" where
  "rides zn after rt from dest l \<longleftrightarrow> (\<exists>i j. i < j \<and> j < length (rt_stop_ids rt) \<and> rt_stop_ids rt ! i = from \<and> rt_stop_ids rt ! j = dest \<and>
     jl_route_id l = rt_id rt \<and> jl_from l = from \<and> jl_to l = dest \<and>
     jl_depart_at l \<in> set (departures zn after rt i) \<and> after < jl_depart_at l \<and>
     (\<forall>t \<in> set (departures zn after rt i). after < t \<longrightarrow> jl_depart_at l \<le> t) \<and>
     jl_arrive_at l = jl_depart_at l + int (j - i) * minutesPerStop * minute_ns)"

lemma makeLeg_rides:
  assumes "regular rt" "index_of from (rt_stop_ids rt) = Some i" "index_of dest (rt_stop_ids rt) = Some j" "i < j"
  shows "\<exists>r. makeLeg zn clk stops rt i j after = Some r \<and> (r = None \<longleftrightarrow> (\<forall>t \<in> set (departures zn after rt i). \<not> after < t)) \<and>
    (\<forall>l. r = Some l \<longrightarrow> rides zn after rt from dest l)"
proof -
  let ?d = "departures zn after rt i"
  obtain as where as: "nextArrivalsAfter zn clk stops rt i after 1 = Some as" "map ar_scheduled_at as = take 1 (filter (\<lambda>t. after < t) ?d)"
    using next_arrivals_exact [OF assms(1), of zn clk stops i after 1] by blast
  note st = index_of_Some [OF assms(2)] index_of_Some [OF assms(3)]
  note h = regular_headway [OF assms(1)]
  have srt: "sorted (filter (\<lambda>t. after < t) ?d)"
    unfolding departures_def h(1) [symmetric] using sorted_timetable [OF h(2)] by (rule sorted_wrt_filter)
  show ?thesis
  proof (cases "filter (\<lambda>t. after < t) ?d")
    case Nil
    then have "as = []" using as(2) by simp
    with as(1) Nil show ?thesis by (simp add: makeLeg_def filter_empty_conv)
  next
    case (Cons t ts)
    then obtain a where a: "as = [a]" "ar_scheduled_at a = t" using as(2) by auto
    have mem: "t \<in> set ?d" "after < t" using Cons filter_eq_ConsD [OF Cons] by auto
    have least: "\<forall>u \<in> set ?d. after < u \<longrightarrow> t \<le> u"
    proof (intro ballI impI)
      fix u assume "u \<in> set ?d" "after < u"
      then have "u \<in> set (filter (\<lambda>t. after < t) ?d)" by simp
      with srt show "t \<le> u" unfolding Cons by auto
    qed
    have "int j - int i = int (j - i)" using assms(4) by simp
    then have leg: "rides zn after rt from dest \<lparr>jl_route_id = rt_id rt, jl_route_short_name = rt_short_name rt, jl_from = rt_stop_ids rt ! i,
        jl_to = rt_stop_ids rt ! j, jl_depart_at = t, jl_arrive_at = t + (int j - int i) * minutesPerStop * minute_ns, jl_duration_min = k\<rparr>" for k
      unfolding rides_def using mem least st assms(4) by (intro exI [of _ i] exI [of _ j]) simp
    have "\<not> (\<forall>t \<in> set ?d. \<not> after < t)" using mem by blast
    with as(1) a leg show ?thesis by (simp add: makeLeg_def Let_def)
  qed
qed

lemma direct_ride_cases:
  assumes "regular rt"
  shows "\<exists>ls. direct_ride zn clk stops from dest rt = Some ls \<and> (\<forall>l \<in> set ls. rides zn (clk - minute_ns) rt from dest l) \<and>
    (\<forall>i j. index_of from (rt_stop_ids rt) = Some i \<and> index_of dest (rt_stop_ids rt) = Some j \<and> i < j \<and>
       (\<exists>t \<in> set (departures zn (clk - minute_ns) rt i). clk - minute_ns < t) \<longrightarrow> ls \<noteq> [])"
proof (cases "\<exists>i j. index_of from (rt_stop_ids rt) = Some i \<and> index_of dest (rt_stop_ids rt) = Some j \<and> i < j")
  case True
  then obtain i j where ij: "index_of from (rt_stop_ids rt) = Some i" "index_of dest (rt_stop_ids rt) = Some j" "i < j" by blast
  obtain r where r: "makeLeg zn clk stops rt i j (clk - minute_ns) = Some r"
    "r = None \<longleftrightarrow> (\<forall>t \<in> set (departures zn (clk - minute_ns) rt i). \<not> clk - minute_ns < t)" "\<forall>l. r = Some l \<longrightarrow> rides zn (clk - minute_ns) rt from dest l"
    using makeLeg_rides [OF assms ij, of zn clk stops "clk - minute_ns"] by blast
  then show ?thesis using ij by (cases r) (auto simp: direct_ride_def)
qed (auto simp: direct_ride_def split: option.splits)

lemma gather_total:
  assumes "\<And>x. x \<in> set xs \<Longrightarrow> \<exists>ys. f x = Some ys \<and> P x ys"
  shows "\<exists>zs. gather f xs = Some zs \<and> (\<forall>z \<in> set zs. \<exists>x \<in> set xs. \<exists>ys. P x ys \<and> z \<in> set ys) \<and>
    (\<forall>x \<in> set xs. \<exists>ys. P x ys \<and> set ys \<subseteq> set zs)"
  using assms
proof (induction xs)
  case (Cons x xs)
  then obtain ys zs where "f x = Some ys" "P x ys" "gather f xs = Some zs" "\<forall>z \<in> set zs. \<exists>x \<in> set xs. \<exists>ys. P x ys \<and> z \<in> set ys"
    "\<forall>x \<in> set xs. \<exists>ys. P x ys \<and> set ys \<subseteq> set zs" by (metis list.set_intros(1,2))
  then show ?case by (auto, blast+)
qed simp

definition good_transfer :: "zone \<Rightarrow> int \<Rightarrow> gtfs_route list \<Rightarrow> string \<Rightarrow> string \<Rightarrow> journey_transfer \<Rightarrow> bool" where
  "good_transfer zn clk routes from dest x \<longleftrightarrow> (\<exists>a \<in> set routes. \<exists>b \<in> set routes. \<exists>l1 l2. rt_id b \<noteq> rt_id a \<and> jt_legs x = [l1, l2] \<and>
     rides zn (clk - minute_ns) a from (jt_stop_id x) l1 \<and> rides utc_zone (jl_arrive_at l1) b (jt_stop_id x) dest l2 \<and>
     jl_arrive_at l1 < jl_depart_at l2 \<and> jt_depart_at x = jl_depart_at l1 \<and> jt_arrive_at x = jl_arrive_at l2)"

lemma transfer_loop_good:
  assumes "\<forall>rt \<in> set routes. regular rt"
    "\<forall>y \<in> set ts. \<exists>a i b j x. y = (a, i, b, j, x) \<and> a \<in> set routes \<and> b \<in> set routes \<and> rt_id b \<noteq> rt_id a \<and>
       index_of from (rt_stop_ids a) = Some i \<and> index_of dest (rt_stop_ids b) = Some j"
  shows "\<exists>xs. transfer_loop zn clk stops seen ts = Some xs \<and> (\<forall>x \<in> set xs. good_transfer zn clk routes from dest x)"
  using assms(2)
proof (induction ts arbitrary: seen)
  case (Cons y ts)
  then obtain a i b j x where y: "y = (a, i, b, j, x)" "a \<in> set routes" "b \<in> set routes" "rt_id b \<noteq> rt_id a"
    "index_of from (rt_stop_ids a) = Some i" "index_of dest (rt_stop_ids b) = Some j" by auto
  have ih: "\<exists>xs. transfer_loop zn clk stops s ts = Some xs \<and> (\<forall>x \<in> set xs. good_transfer zn clk routes from dest x)" for s
    using Cons.IH Cons.prems by simp
  show ?case
  proof (cases "\<exists>p q. index_of x (rt_stop_ids a) = Some p \<and> index_of x (rt_stop_ids b) = Some q \<and> i < p \<and> q < j \<and> rt_id a @ ''|'' @ rt_id b @ ''|'' @ x \<notin> set seen")
    case False
    then have "transfer_loop zn clk stops seen (y # ts) = transfer_loop zn clk stops seen ts"
      unfolding y(1) by (auto simp: Let_def not_le split: option.split)
    with ih show ?thesis by simp
  next
    case True
    then obtain p q where pq: "index_of x (rt_stop_ids a) = Some p" "index_of x (rt_stop_ids b) = Some q" "i < p" "q < j"
      "rt_id a @ ''|'' @ rt_id b @ ''|'' @ x \<notin> set seen" by blast
    obtain r1 where r1: "makeLeg zn clk stops a i p (clk - minute_ns) = Some r1" "\<forall>l. r1 = Some l \<longrightarrow> rides zn (clk - minute_ns) a from x l"
      using makeLeg_rides [OF _ y(5) pq(1,3), of zn clk stops "clk - minute_ns"] assms(1) y(2) by blast
    show ?thesis
    proof (cases r1)
      case None
      with ih [of seen] r1 pq show ?thesis by (simp add: y(1) Let_def)
    next
      case (Some l1)
      obtain r2 where r2: "makeLeg utc_zone clk stops b q j (jl_arrive_at l1) = Some r2" "\<forall>l. r2 = Some l \<longrightarrow> rides utc_zone (jl_arrive_at l1) b x dest l"
        using makeLeg_rides [OF _ pq(2) y(6) pq(4), of utc_zone clk stops "jl_arrive_at l1"] assms(1) y(3) by blast
      show ?thesis
      proof (cases r2)
        case None
        with ih [of seen] r1 r2 pq Some show ?thesis by (simp add: y(1) Let_def)
      next
        case (Some l2)
        have later: "jl_arrive_at l1 < jl_depart_at l2" using r2(2) Some by (auto simp: rides_def)
        have "good_transfer zn clk routes from dest \<lparr>jt_stop_id = x, jt_legs = [l1, l2], jt_depart_at = jl_depart_at l1,
                jt_arrive_at = jl_arrive_at l2, jt_duration_min = k\<rparr>" for k
          unfolding good_transfer_def using y r1(2) r2(2) \<open>r1 = Some l1\<close> Some later
          by (intro bexI [of _ a] bexI [of _ b] exI [of _ l1] exI [of _ l2]) simp_all
        with ih [of "(rt_id a @ ''|'' @ rt_id b @ ''|'' @ x) # seen"] r1 r2 pq \<open>r1 = Some l1\<close> Some show ?thesis by (auto simp: y(1) Let_def)
      qed
    qed
  qed
qed simp

lemma interchanges_routes:
  assumes "y \<in> set (interchanges routes from dest)"
  shows "\<exists>a i b j x. y = (a, i, b, j, x) \<and> a \<in> set routes \<and> b \<in> set routes \<and> rt_id b \<noteq> rt_id a \<and>
       index_of from (rt_stop_ids a) = Some i \<and> index_of dest (rt_stop_ids b) = Some j"
  using assms by (auto simp: interchanges_def split: option.splits if_splits)

text \<open>
  C37. The journey planner answers, and its answers are rides of the timetable: when all routes run at a headway between one
  minute and 1000000 minutes it ends; each direct option is a listed route from the one stop to a later one, on its
  first departure of the day after the instant one minute before the request (so a bus that left less than a minute ago
  is still offered), and every route with such a departure is offered; each transfer is two different routes over
  a shared stop, the first leg as for direct options and the second the first departure after the first leg has
  arrived, read from the timetable of the UTC day whatever zone the server runs in (\<open>second_leg_in_utc\<close> below). Direct options
  come by departure, transfers by arrival.
\<close>

theorem journey_plan_sound:
  assumes "\<forall>rt \<in> set routes. regular rt" and "\<And>xs. mset (by_depart xs) = mset xs \<and> sorted (map jl_depart_at (by_depart xs))"
    and "\<And>xs. mset (by_arrive xs) = mset xs \<and> sorted (map jt_arrive_at (by_arrive xs))"
  shows "\<exists>direct transfers. planJourney zn clk by_depart by_arrive stops routes from dest = Some (direct, transfers) \<and>
    sorted (map jl_depart_at direct) \<and> sorted (map jt_arrive_at transfers) \<and>
    (\<forall>l \<in> set direct. \<exists>rt \<in> set routes. rides zn (clk - minute_ns) rt from dest l) \<and>
    (\<forall>rt \<in> set routes. \<forall>i j. index_of from (rt_stop_ids rt) = Some i \<and> index_of dest (rt_stop_ids rt) = Some j \<and> i < j \<and>
       (\<exists>t \<in> set (departures zn (clk - minute_ns) rt i). clk - minute_ns < t) \<longrightarrow>
       (\<exists>l \<in> set direct. rides zn (clk - minute_ns) rt from dest l)) \<and>
    (\<forall>x \<in> set transfers. good_transfer zn clk routes from dest x)"
proof -
  let ?P = "\<lambda>rt ls. (\<forall>l \<in> set ls. rides zn (clk - minute_ns) rt from dest l) \<and>
    (\<forall>i j. index_of from (rt_stop_ids rt) = Some i \<and> index_of dest (rt_stop_ids rt) = Some j \<and> i < j \<and>
       (\<exists>t \<in> set (departures zn (clk - minute_ns) rt i). clk - minute_ns < t) \<longrightarrow> ls \<noteq> [])"
  obtain ds where ds: "gather (direct_ride zn clk stops from dest) routes = Some ds" "\<forall>l \<in> set ds. \<exists>rt \<in> set routes. \<exists>ls. ?P rt ls \<and> l \<in> set ls"
    "\<forall>rt \<in> set routes. \<exists>ls. ?P rt ls \<and> set ls \<subseteq> set ds"
    using gather_total [of routes "direct_ride zn clk stops from dest" ?P, OF direct_ride_cases] assms(1) by blast
  obtain ts where ts: "transfer_loop zn clk stops [] (interchanges routes from dest) = Some ts" "\<forall>x \<in> set ts. good_transfer zn clk routes from dest x"
    using transfer_loop_good [OF assms(1)] interchanges_routes by blast
  have sets: "set (by_depart ds) = set ds" "set (by_arrive ts) = set ts" using assms(2,3) by (metis mset_eq_setD)+
  have offered: "\<exists>l \<in> set ds. rides zn (clk - minute_ns) rt from dest l"
    if rt: "rt \<in> set routes" and ij: "index_of from (rt_stop_ids rt) = Some i" "index_of dest (rt_stop_ids rt) = Some j" "i < j"
      and t: "t \<in> set (departures zn (clk - minute_ns) rt i)" "clk - minute_ns < t" for rt i j t
  proof -
    from bspec [OF ds(3) rt] obtain ls where ls: "?P rt ls" "set ls \<subseteq> set ds" by (elim exE conjE) simp
    have "\<exists>t \<in> set (departures zn (clk - minute_ns) rt i). clk - minute_ns < t" using t by (rule bexI [rotated])
    then have "ls \<noteq> []" using conjunct2 [OF ls(1), THEN spec, THEN spec, of i j] ij by simp
    then obtain l where "l \<in> set ls" by (cases ls) auto
    then show ?thesis using ls by blast
  qed
  have plan: "planJourney zn clk by_depart by_arrive stops routes from dest = Some (by_depart ds, by_arrive ts)"
    by (simp add: planJourney_def ds(1) ts(1))
  have sound: "\<forall>l \<in> set ds. \<exists>rt \<in> set routes. rides zn (clk - minute_ns) rt from dest l" using ds(2) by blast
  show ?thesis
  proof (intro exI conjI)
    show "planJourney zn clk by_depart by_arrive stops routes from dest = Some (by_depart ds, by_arrive ts)" by (rule plan)
    show "sorted (map jl_depart_at (by_depart ds))" "sorted (map jt_arrive_at (by_arrive ts))" using assms(2,3) by simp_all
    show "\<forall>l \<in> set (by_depart ds). \<exists>rt \<in> set routes. rides zn (clk - minute_ns) rt from dest l" unfolding sets by (rule sound)
    show "\<forall>x \<in> set (by_arrive ts). good_transfer zn clk routes from dest x" unfolding sets by (rule ts(2))
  qed (unfold sets, use offered in blast)
qed

theorem journey_plan_sound_witness:
  "\<exists>direct transfers. planJourney utc_zone (6 * 60 * minute_ns) (sort_key jl_depart_at) (sort_key jt_arrive_at) fallbackStops fallbackRoutes ''S001'' ''S005'' =
     Some (direct, transfers) \<and> sorted (map jl_depart_at direct) \<and>
     (\<forall>l \<in> set direct. \<exists>rt \<in> set fallbackRoutes. rides utc_zone (6 * 60 * minute_ns - minute_ns) rt ''S001'' ''S005'' l)"
proof -
  have reg: "\<forall>rt \<in> set fallbackRoutes. regular rt" by (simp add: fallbackRoutes_def regular_def)
  have sd: "mset (sort_key jl_depart_at xs) = mset xs \<and> sorted (map jl_depart_at (sort_key jl_depart_at xs))" for xs by simp
  have st: "mset (sort_key jt_arrive_at xs) = mset xs \<and> sorted (map jt_arrive_at (sort_key jt_arrive_at xs))" for xs by simp
  from journey_plan_sound [OF reg sd st, of utc_zone "6 * 60 * minute_ns" fallbackStops "''S001''" "''S005''"] show ?thesis by blast
qed

theorem next_arrivals_exact_witness:
  "\<exists>as. nextArrivalsAfter utc_zone 0 fallbackStops (fallbackRoutes ! 0) 0 0 3 = Some as \<and>
     map ar_scheduled_at as = take 3 (filter (\<lambda>t. 0 < t) (departures utc_zone 0 (fallbackRoutes ! 0) 0))"
proof -
  have "regular (fallbackRoutes ! 0)" by (simp add: fallbackRoutes_def regular_def)
  from next_arrivals_exact [OF this, of utc_zone 0 fallbackStops 0 0 3] show ?thesis by blast
qed

text \<open>
  A server two hours east of Greenwich plans the second leg of a transfer in UTC: at ten past six local time the
  next bus of route 10 leaves at twenty past six, and the planner says half past seven.
\<close>

definition east_zone :: zone where
  "east_zone t hour mins = utc_zone (t + 120 * minute_ns) hour mins - 120 * minute_ns"

lemma second_leg_in_utc:
  "map_option (map ar_scheduled_at) (nextArrivalsAfter east_zone 0 fallbackStops (fallbackRoutes ! 0) 0 (250 * minute_ns) 1) = Some [260 * minute_ns]"
  "map_option (map ar_scheduled_at) (nextArrivalsAfter utc_zone 0 fallbackStops (fallbackRoutes ! 0) 0 (250 * minute_ns) 1) = Some [330 * minute_ns]"
  by (simp_all add: nextArrivalsAfter_def arrivals_loop.simps first_time_def route_headway_def fallbackRoutes_def east_zone_def utc_zone_def minute_ns_def
      i64_small)

text \<open>Stop codes without commas survive the aggregation into one text and its splitting.\<close>

lemma split_on_plain: "c \<notin> set w \<Longrightarrow> split_on c w = [w]"
  by (induction w) auto

lemma split_on_sep: "c \<notin> set w \<Longrightarrow> split_on c (w @ c # rest) = w # split_on c rest"
proof (induction w)
  case Nil
  have "split_on c rest \<noteq> []" by (induction rest) (auto split: list.splits)
  then show ?case by (cases "split_on c rest") auto
qed auto

lemma split_join: "codes \<noteq> [] \<Longrightarrow> \<forall>w \<in> set codes. CHR '','' \<notin> set w \<Longrightarrow> splitCSV (join_with '','' codes) = codes"
  unfolding splitCSV_def by (induction "'','' :: string" codes rule: join_with.induct) (auto simp: split_on_plain split_on_sep)

end
