(* ===== verification/Gdpr.thy ===== *)
theory Gdpr
  imports Drt Mojaloop
begin

text \<open>
  Data-subject rights of citizen-api (src/services/go/citizen-api/internal/handlers/me.go): export and erasure of
  everything kept under a rider's subject, over the tables of the commerce and the demand-responsive
  services. Erasure is one transaction; the primary keys of loyalty and wallet accounts can refuse it.
  SHA-256 is the parameter \<open>sha\<close>.
\<close>

record gdpr_store =
  gd_drt :: drt_store
  gd_commerce :: "unit store"
  gd_events :: "(string \<times> (string \<times> json) list) list"

definition erasureMarker :: "(string \<Rightarrow> nat list) \<Rightarrow> string \<Rightarrow> string \<Rightarrow> string" where
  "erasureMarker sha sub salt = ''erased:'' @ hex_encode (take 8 (sha (salt @ ''|'' @ sub)))"

section \<open>Export\<close>

text \<open>
  One row of each section, with the columns of its query; \<open>refunded_at\<close> of payments and \<open>created_at\<close> of ledger
  entries are not kept by the model and left out.
\<close>

definition opt_time :: "int option \<Rightarrow> json" where
  "opt_time t = (case t of None \<Rightarrow> JNull | Some x \<Rightarrow> JTime x)"

definition drt_row :: "drt_request \<Rightarrow> json" where
  "drt_row d = JObj [(''id'', JStr (rq_id d)), (''status'', JStr (rq_status d)), (''pickup_label'', JStr (rq_pickup_label d)),
     (''dropoff_label'', JStr (rq_dropoff_label d)), (''passengers'', JNum (rq_passengers d)),
     (''requires_wheelchair'', JBool (rq_requires_wheelchair d)), (''vehicle_id'', opt_str (rq_vehicle_id d)),
     (''requested_at'', JTime (rq_requested_at d)), (''assigned_at'', opt_time (rq_assigned_at d))]"

definition payment_row :: "payment \<Rightarrow> json" where
  "payment_row p = JObj [(''id'', JStr (p_id p)), (''amount_minor'', JNum (p_amount_minor p)),
     (''charged_minor'', case p_charged_minor p of None \<Rightarrow> JNull | Some n \<Rightarrow> JNum n), (''refunded_minor'', JNum (p_refunded_minor p)),
     (''currency'', JStr (p_currency p)), (''status'', JStr (p_status p)), (''created_at'', JTime (p_created_at p))]"

definition loyalty_row :: "loyalty_account \<Rightarrow> json" where
  "loyalty_row a = JObj [(''points'', JNum (la_points a)), (''updated_at'', JTime (la_updated_at a))]"

definition loyalty_entry_row :: "loyalty_entry \<Rightarrow> json" where
  "loyalty_entry_row l = JObj [(''delta'', JNum (le_delta l)), (''reason'', JStr (le_reason l))]"

definition redemption_row :: "redemption \<Rightarrow> json" where
  "redemption_row r = JObj [(''offer_id'', JStr (red_offer_id r)), (''points_spent'', JNum (red_points_spent r)),
     (''status'', JStr (red_status r)), (''created_at'', JTime (red_created_at r))]"

definition entitlement_row :: "entitlement \<Rightarrow> json" where
  "entitlement_row e = JObj [(''product_id'', JStr (e_product_id e)), (''valid_from'', JTime (e_valid_from e)),
     (''valid_to'', JTime (e_valid_to e)), (''created_at'', JTime (e_created_at e))]"

text \<open>The sections, newest first; the rows of the loyalty ledger are appended in the order of their creation.\<close>

definition export_rows :: "string \<Rightarrow> gdpr_store \<Rightarrow> (string \<times> json list) list" where
  "export_rows sub s =
     (let cs = gd_commerce s in
      [(''drt_requests'', map drt_row (sort_key (\<lambda>d. - rq_requested_at d) (filter (\<lambda>d. rq_user_sub d = sub) (drt_requests (gd_drt s))))),
       (''fare_payments'', map payment_row (sort_key (\<lambda>p. - p_created_at p) (filter (\<lambda>p. p_rider_sub p = sub) (fare_payments cs)))),
       (''loyalty_account'', map loyalty_row (filter (\<lambda>a. la_rider_sub a = sub) (loyalty_accounts cs))),
       (''loyalty_ledger'', map loyalty_entry_row (rev (filter (\<lambda>l. le_rider_sub l = sub) (loyalty_ledger cs)))),
       (''loyalty_redemptions'', map redemption_row (sort_key (\<lambda>r. - red_created_at r) (filter (\<lambda>r. red_rider_sub r = sub) (loyalty_redemptions cs)))),
       (''entitlements'', map entitlement_row (sort_key (\<lambda>e. - e_valid_to e) (filter (\<lambda>e. e_rider_sub e = sub) (rider_entitlements cs))))])"

text \<open>A section that fails fails the export.\<close>

definition ExportMyData :: "db_env \<Rightarrow> ctx \<Rightarrow> gdpr_store \<Rightarrow> (string \<times> string \<times> (string \<times> json list) list) resp" where
  "ExportMyData E c s =
     (let sub = Subject c in
      if no_db E then no_db_err
      else if sub = [] then Err 401 ''authenticated subject required''
      else case find (\<lambda>n. fault E (''export section '' @ n) \<or> fault E (''decode section '' @ n)) (map fst (export_rows sub s)) of
        Some n \<Rightarrow> Internal (if fault E (''export section '' @ n) then ''export section '' @ n else ''decode section '' @ n)
      | None \<Rightarrow> Reply 200 (sub, rfc3339 (now E), export_rows sub s))"

section \<open>Erasure\<close>

definition erase_tables :: "string list" where
  "erase_tables = [''drt_requests'', ''fare_payments'', ''loyalty_accounts'', ''loyalty_ledger'', ''loyalty_redemptions'', ''rider_accounts'', ''entitlements'']"

text \<open>Renaming a key to one that is taken violates the primary key.\<close>

definition key_taken :: "string \<Rightarrow> string \<Rightarrow> string list \<Rightarrow> bool" where
  "key_taken sub marker keys \<longleftrightarrow> sub \<noteq> marker \<and> sub \<in> set keys \<and> marker \<in> set keys"

definition erase_fails :: "db_env \<Rightarrow> string \<Rightarrow> string \<Rightarrow> gdpr_store \<Rightarrow> string \<Rightarrow> bool" where
  "erase_fails E sub marker s n \<longleftrightarrow> fault E (''erase '' @ n) \<or>
     n = ''loyalty_accounts'' \<and> key_taken sub marker (map la_rider_sub (loyalty_accounts (gd_commerce s))) \<or>
     n = ''rider_accounts'' \<and> key_taken sub marker (map ra_rider_sub (rider_accounts (gd_commerce s)))"

definition erase_rows :: "string \<Rightarrow> string \<Rightarrow> gdpr_store \<Rightarrow> gdpr_store" where
  "erase_rows sub marker s =
     (let cs = gd_commerce s in
      s\<lparr>gd_drt := (gd_drt s)\<lparr>drt_requests := upd_rows (\<lambda>d. rq_user_sub d = sub) (\<lambda>d. d\<lparr>rq_user_sub := marker\<rparr>) (drt_requests (gd_drt s))\<rparr>,
        gd_commerce := cs\<lparr>
          fare_payments := upd_rows (\<lambda>p. p_rider_sub p = sub) (\<lambda>p. p\<lparr>p_rider_sub := marker\<rparr>) (fare_payments cs),
          loyalty_accounts := upd_rows (\<lambda>a. la_rider_sub a = sub) (\<lambda>a. a\<lparr>la_rider_sub := marker\<rparr>) (loyalty_accounts cs),
          loyalty_ledger := upd_rows (\<lambda>l. le_rider_sub l = sub) (\<lambda>l. l\<lparr>le_rider_sub := marker\<rparr>) (loyalty_ledger cs),
          loyalty_redemptions := upd_rows (\<lambda>r. red_rider_sub r = sub) (\<lambda>r. r\<lparr>red_rider_sub := marker\<rparr>) (loyalty_redemptions cs),
          rider_accounts := upd_rows (\<lambda>a. ra_rider_sub a = sub) (\<lambda>a. a\<lparr>ra_rider_sub := marker\<rparr>) (rider_accounts cs),
          rider_entitlements := upd_rows (\<lambda>e. e_rider_sub e = sub) (\<lambda>e. e\<lparr>e_rider_sub := marker\<rparr>) (rider_entitlements cs)\<rparr>\<rparr>)"

definition row_counts :: "string \<Rightarrow> gdpr_store \<Rightarrow> (string \<times> json) list" where
  "row_counts sub s =
     (let cs = gd_commerce s; n = (\<lambda>subs. JNum (int (count_list subs sub))) in
      zip erase_tables
        [n (map rq_user_sub (drt_requests (gd_drt s))), n (map p_rider_sub (fare_payments cs)), n (map la_rider_sub (loyalty_accounts cs)),
         n (map le_rider_sub (loyalty_ledger cs)), n (map red_rider_sub (loyalty_redemptions cs)), n (map ra_rider_sub (rider_accounts cs)),
         n (map e_rider_sub (rider_entitlements cs))])"

text \<open>
  The transaction is one step, as if no other request touched the seven tables between its first UPDATE and its commit.
  Under the default isolation level (READ COMMITTED) the UPDATE of a table does not see a row that another request
  commits into it later, so such a row keeps the old subject after the erasure; the request would have to be repeated.
\<close>

definition EraseMyData :: "db_env \<Rightarrow> (string \<Rightarrow> nat list) \<Rightarrow> ctx \<Rightarrow> gdpr_store \<Rightarrow> (string \<times> (string \<times> json) list) resp \<times> gdpr_store" where
  "EraseMyData E sha c s =
     (let sub = Subject c; salt = getenv E ''GDPR_ERASURE_SALT''; marker = erasureMarker sha sub salt in
      if no_db E then (no_db_err, s)
      else if sub = [] then (Err 401 ''authenticated subject required'', s)
      else if salt = [] then (Err 503 ''erasure is not configured on this deployment'', s)
      else if fault E ''begin erasure transaction'' then (Internal ''begin erasure transaction'', s)
      else case find (erase_fails E sub marker s) erase_tables of
        Some n \<Rightarrow> (Internal (''erase '' @ n), s)
      | None \<Rightarrow>
          if fault E ''commit erasure'' then (Internal ''commit erasure'', s)
          else
            let s1 = erase_rows sub marker s;
                event = [(''marker'', JStr marker), (''erased_at'', JStr (rfc3339 (now E))), (''row_counts'', JObj (row_counts sub s))] in
            (Reply 200 (marker, row_counts sub s),
             if pub_fault E ''gdpr.erasure.completed'' then s1 else s1\<lparr>gd_events := gd_events s1 @ [(''gdpr.erasure.completed'', event)]\<rparr>))"

section \<open>Completeness of the erasure\<close>

text \<open>The subjects of all seven tables.\<close>

definition subjects :: "gdpr_store \<Rightarrow> string list" where
  "subjects s = (let cs = gd_commerce s in map rq_user_sub (drt_requests (gd_drt s)) @ map p_rider_sub (fare_payments cs) @
     map la_rider_sub (loyalty_accounts cs) @ map le_rider_sub (loyalty_ledger cs) @ map red_rider_sub (loyalty_redemptions cs) @
     map ra_rider_sub (rider_accounts cs) @ map e_rider_sub (rider_entitlements cs))"

definition rename :: "string \<Rightarrow> string \<Rightarrow> string \<Rightarrow> string" where
  "rename sub marker x = (if x = sub then marker else x)"

lemma map_rename:
  assumes "\<And>x. key (f x) = marker"
  shows "map key (upd_rows (\<lambda>x. key x = sub) f xs) = map (rename sub marker) (map key xs)"
  using assms by (auto simp: upd_rows_def rename_def)

lemma subjects_erased: "subjects (erase_rows sub marker s) = map (rename sub marker) (subjects s)"
  by (simp add: subjects_def erase_rows_def Let_def map_rename)

definition erasure_event :: "db_env \<Rightarrow> string \<Rightarrow> string \<Rightarrow> gdpr_store \<Rightarrow> string \<times> (string \<times> json) list" where
  "erasure_event E sub marker s = (''gdpr.erasure.completed'',
     [(''marker'', JStr marker), (''erased_at'', JStr (rfc3339 (now E))), (''row_counts'', JObj (row_counts sub s))])"

lemma erase_rows_events [simp]: "gd_events (erase_rows sub marker s) = gd_events s"
  by (simp add: erase_rows_def Let_def)

lemma erased_cases:
  assumes "EraseMyData E sha c s = (r, t)"
  obtains (refused) "t = s" "\<And>n v. r \<noteq> Reply n v"
  | (erased) marker es where "marker = erasureMarker sha (Subject c) (getenv E ''GDPR_ERASURE_SALT'')" "r = Reply 200 (marker, row_counts (Subject c) s)"
      "t = (erase_rows (Subject c) marker s)\<lparr>gd_events := es\<rparr>"
      "es = gd_events s \<or> es = gd_events s @ [erasure_event E (Subject c) marker s]" "getenv E ''GDPR_ERASURE_SALT'' \<noteq> []"
proof -
  define marker where "marker = erasureMarker sha (Subject c) (getenv E ''GDPR_ERASURE_SALT'')"
  define u where "u = erase_rows (Subject c) marker s"
  define P where "P x \<longleftrightarrow> snd x = s \<and> (\<forall>n v. fst x \<noteq> Reply n v) \<or> (\<exists>es. fst x = Reply 200 (marker, row_counts (Subject c) s) \<and>
      snd x = u\<lparr>gd_events := es\<rparr> \<and> (es = gd_events s \<or> es = gd_events s @ [erasure_event E (Subject c) marker s]) \<and> getenv E ''GDPR_ERASURE_SALT'' \<noteq> [])"
    for x :: "(string \<times> (string \<times> json) list) resp \<times> gdpr_store"
  have keep: "P (Internal op, s)" "P (Err n m, s)" "P (no_db_err, s)" for op n m by (simp_all add: P_def no_db_err_def)
  have "gd_events u = gd_events s" by (simp add: u_def)
  then have same: "u = u\<lparr>gd_events := gd_events s\<rparr>" by simp
  have good: "P (Reply 200 (marker, row_counts (Subject c) s), if Q then u else u\<lparr>gd_events := gd_events u @ [erasure_event E (Subject c) marker s]\<rparr>)"
    if salt: "getenv E ''GDPR_ERASURE_SALT'' \<noteq> []" for Q
  proof -
    have "P (Reply 200 (marker, row_counts (Subject c) s), u)"
      unfolding P_def fst_conv snd_conv using salt same by (intro disjI2 exI [of _ "gd_events s"]) simp
    moreover have "P (Reply 200 (marker, row_counts (Subject c) s), u\<lparr>gd_events := gd_events u @ [erasure_event E (Subject c) marker s]\<rparr>)"
      unfolding P_def fst_conv snd_conv using salt \<open>gd_events u = gd_events s\<close>
      by (intro disjI2 exI [of _ "gd_events s @ [erasure_event E (Subject c) marker s]"]) simp
    ultimately show ?thesis by simp
  qed
  have "P (EraseMyData E sha c s)"
    unfolding EraseMyData_def Let_def marker_def [symmetric] u_def [symmetric] erasure_event_def [symmetric]
    by (intro branches [where P = P] keep good)
  then have "P (r, t)" unfolding assms .
  then show thesis unfolding P_def fst_conv snd_conv u_def
    using refused erased [OF marker_def] by blast
qed

text \<open>Rows under another subject than the erased one and its marker are not touched.\<close>

lemma filter_erased_other:
  assumes "\<And>x. key (f x) = marker" "other \<noteq> sub" "other \<noteq> marker"
  shows "filter (\<lambda>x. key x = other) (upd_rows (\<lambda>x. key x = sub) f xs) = filter (\<lambda>x. key x = other) xs"
  using assms by (induction xs) (auto simp: upd_rows_def)

lemma filter_erased_own:
  assumes "\<And>x. key (f x) = marker" "marker \<noteq> sub"
  shows "filter (\<lambda>x. key x = sub) (upd_rows (\<lambda>x. key x = sub) f xs) = []"
  using assms by (induction xs) (auto simp: upd_rows_def)

lemma export_rows_events [simp]: "export_rows sub (s\<lparr>gd_events := es\<rparr>) = export_rows sub s" "subjects (s\<lparr>gd_events := es\<rparr>) = subjects s"
  by (simp_all add: export_rows_def subjects_def)

lemma export_other: "other \<noteq> sub \<Longrightarrow> other \<noteq> marker \<Longrightarrow> export_rows other (erase_rows sub marker s) = export_rows other s"
  by (simp add: export_rows_def erase_rows_def Let_def filter_erased_other)

lemma export_own: "marker \<noteq> sub \<Longrightarrow> snd x = []" if "x \<in> set (export_rows sub (erase_rows sub marker s))"
  using that by (auto simp: export_rows_def erase_rows_def Let_def filter_erased_own)

lemma marker_fresh:
  assumes "take 7 sub \<noteq> ''erased:''"
  shows "erasureMarker sha sub salt \<noteq> sub"
proof
  assume "erasureMarker sha sub salt = sub"
  then have "take 7 (erasureMarker sha sub salt) = take 7 sub" by simp
  with assms show False by (simp add: erasureMarker_def)
qed

lemma erased_amounts:
  "map p_amount_minor (fare_payments (gd_commerce (erase_rows sub marker s))) = map p_amount_minor (fare_payments (gd_commerce s))"
  "map la_points (loyalty_accounts (gd_commerce (erase_rows sub marker s))) = map la_points (loyalty_accounts (gd_commerce s))"
  "map ra_account_id (rider_accounts (gd_commerce (erase_rows sub marker s))) = map ra_account_id (rider_accounts (gd_commerce s))"
  by (simp_all add: erase_rows_def Let_def upd_rows_def)

text \<open>
  C36. When no other request writes to the tables while the erasure's transaction runs, and the subject does not itself
  start with \<open>erased:\<close> as the markers do, an erasure that is answered has happened: the rider's subject is gone from all
  seven tables, where each of its rows now carries the marker and every other row its old subject; the amounts, points
  and wallet accounts of the books are as before; an export from the resulting tables finds nothing for the erased
  subject, and the export of every other rider is unchanged. An erasure that is not answered with 200 changes nothing.
\<close>

theorem erasure_complete:
  assumes "EraseMyData E sha c s = (r, t)" "take 7 (Subject c) \<noteq> ''erased:''"
  shows "(\<exists>marker counts. r = Reply 200 (marker, counts) \<and> marker = erasureMarker sha (Subject c) (getenv E ''GDPR_ERASURE_SALT'') \<and>
      counts = row_counts (Subject c) s \<and> Subject c \<notin> set (subjects t) \<and> subjects t = map (rename (Subject c) marker) (subjects s) \<and>
      map p_amount_minor (fare_payments (gd_commerce t)) = map p_amount_minor (fare_payments (gd_commerce s)) \<and>
      map la_points (loyalty_accounts (gd_commerce t)) = map la_points (loyalty_accounts (gd_commerce s)) \<and>
      map ra_account_id (rider_accounts (gd_commerce t)) = map ra_account_id (rider_accounts (gd_commerce s)) \<and>
      (\<forall>x \<in> set (export_rows (Subject c) t). snd x = []) \<and>
      (\<forall>other. other \<noteq> Subject c \<and> other \<noteq> marker \<longrightarrow> export_rows other t = export_rows other s)) \<or>
    t = s \<and> (\<forall>n v. r \<noteq> Reply n v)"
  using assms(1)
proof (cases rule: erased_cases)
  case (erased marker es)
  note fresh = marker_fresh [OF assms(2), of sha "getenv E ''GDPR_ERASURE_SALT''", folded erased(1)]
  have "Subject c \<notin> set (map (rename (Subject c) marker) xs)" for xs using fresh by (auto simp: rename_def)
  then show ?thesis
    unfolding erased(3) using erased(1,2) export_own [OF _ fresh] export_other
    by (simp add: subjects_erased erased_amounts)
qed blast

text \<open>
  The marker depends on the subject only, and it is the key of the erased loyalty and wallet accounts: a rider who
  comes back after an erasure and earns points again cannot be erased a second time.
\<close>

lemma second_erasure_refused:
  assumes "Subject c \<noteq> []" "getenv E ''GDPR_ERASURE_SALT'' \<noteq> []" "\<not> no_db E" "\<not> fault E ''begin erasure transaction''"
    "\<not> fault E ''erase drt_requests''" "\<not> fault E ''erase fare_payments''"
    and "marker = erasureMarker sha (Subject c) (getenv E ''GDPR_ERASURE_SALT'')" "take 7 (Subject c) \<noteq> ''erased:''"
    and "{Subject c, marker} \<subseteq> la_rider_sub ` set (loyalty_accounts (gd_commerce s))"
  shows "EraseMyData E sha c s = (Internal ''erase loyalty_accounts'', s)"
proof -
  have "key_taken (Subject c) marker (map la_rider_sub (loyalty_accounts (gd_commerce s)))"
    using assms(9) marker_fresh [OF assms(8), of sha "getenv E ''GDPR_ERASURE_SALT''"] assms(7) by (auto simp: key_taken_def)
  then have "find (erase_fails E (Subject c) marker s) erase_tables = Some ''loyalty_accounts''"
    using assms(5,6) by (simp add: erase_tables_def erase_fails_def)
  then show ?thesis using assms(1-4) by (simp add: EraseMyData_def Let_def assms(7) [symmetric])
qed

section \<open>A worked example\<close>

definition gdpr_env :: db_env where
  "gdpr_env = drt_env\<lparr>getenv := (\<lambda>_. ''salt'')\<rparr>"

definition ann_store :: gdpr_store where
  "ann_store = \<lparr>gd_drt = town [ride ''r1''],
     gd_commerce = (empty_store ())\<lparr>loyalty_accounts := [\<lparr>la_rider_sub = ''ann'', la_points = 5, la_updated_at = 0\<rparr>, \<lparr>la_rider_sub = ''bob'', la_points = 7, la_updated_at = 0\<rparr>]\<rparr>,
     gd_events = []\<rparr>"

abbreviation ann :: ctx where
  "ann \<equiv> Some [(''sub'', JStr ''ann'')]"

lemma ann_subject [simp]: "Subject ann = ''ann''"
  by (simp add: Subject_def)

lemma ann_erased: "\<exists>v. fst (EraseMyData gdpr_env (\<lambda>_. [1, 2, 3, 4, 5, 6, 7, 8]) ann ann_store) = Reply 200 v"
proof -
  have f: "\<not> fault gdpr_env op" "getenv gdpr_env x = ''salt''" for op x by (simp_all add: gdpr_env_def drt_env_def quiet_env_def)
  have "\<not> erase_fails gdpr_env ''ann'' (erasureMarker (\<lambda>_. [1, 2, 3, 4, 5, 6, 7, 8]) ''ann'' ''salt'') ann_store n" for n
    by (simp add: erase_fails_def f key_taken_def ann_store_def empty_store_def erasureMarker_def)
  then have "find (erase_fails gdpr_env ''ann'' (erasureMarker (\<lambda>_. [1, 2, 3, 4, 5, 6, 7, 8]) ''ann'' ''salt'') ann_store) erase_tables = None"
    by (simp add: find_None_iff)
  then show ?thesis by (simp add: EraseMyData_def Let_def f)
qed

theorem erasure_complete_witness:
  "''ann'' \<in> set (subjects ann_store) \<and>
   ''ann'' \<notin> set (subjects (snd (EraseMyData gdpr_env (\<lambda>_. [1, 2, 3, 4, 5, 6, 7, 8]) ann ann_store)))"
proof -
  let ?r = "EraseMyData gdpr_env (\<lambda>_. [1, 2, 3, 4, 5, 6, 7, 8]) ann ann_store"
  have pair: "?r = (fst ?r, snd ?r)" by simp
  have plain: "take 7 (Subject ann) \<noteq> ''erased:''" by simp
  obtain v where v: "fst ?r = Reply 200 v" using ann_erased by blast
  have no: "\<not> (\<forall>n v. fst ?r \<noteq> Reply n v)" using v by blast
  have "Subject ann \<notin> set (subjects (snd ?r))" using erasure_complete [OF pair plain] no by blast
  then show ?thesis unfolding ann_subject by (simp add: subjects_def ann_store_def empty_store_def town_def ride_def)
qed

end
