(* ===== verification/Compliance.thy ===== *)
theory Compliance
  imports Incidents Depot
begin

text \<open>
  Compliance reports and charge points of infra-api (src/services/go/infra-api/internal/handlers/compliance.go,
  chargers.go): the report with its sections, which degrade one by one, its storing and reading, and the listings of
  chargers and charging sessions. \<open>fl\<close> is the rounding of an exact number to \<open>float64\<close>, a civil day has 24 hours
  (the services run in UTC). What a query over several rows gives is a parameter: it fails, a row cannot be scanned,
  the rows stop coming, or all of them arrive.
\<close>

section \<open>The packs\<close>

record compliance_pack =
  pk_leak_aging :: bool
  pk_leak_types :: "string list"
  pk_battery_thermal :: bool

definition compliancePacks :: "(string \<times> compliance_pack) list" where
  "compliancePacks =
     [(''h2'', \<lparr>pk_leak_aging = True, pk_leak_types = [''h2_leak''], pk_battery_thermal = False\<rparr>),
      (''battery'', \<lparr>pk_leak_aging = False, pk_leak_types = [], pk_battery_thermal = True\<rparr>),
      (''diesel'', \<lparr>pk_leak_aging = False, pk_leak_types = [], pk_battery_thermal = False\<rparr>),
      (''cng'', \<lparr>pk_leak_aging = True, pk_leak_types = [''cng_leak''], pk_battery_thermal = False\<rparr>)]"

definition defaultComplianceDomain :: "db_env \<Rightarrow> string" where
  "defaultComplianceDomain E =
     (let d = getenv E ''COMPLIANCE_DOMAIN'' in if d \<noteq> [] \<and> map_of compliancePacks d \<noteq> None then d else ''h2'')"

definition defaultReportDays :: int where "defaultReportDays = 30"
definition maxReportDays :: int where "maxReportDays = 365"

section \<open>The sections\<close>

text \<open>The report is a Go map, stored as \<open>jsonb\<close>: its keys have no order.\<close>

type_synonym report = "string \<rightharpoonup> json"

record compliance_report =
  cr_id :: string
  cr_generated_at :: int
  cr_report :: report

record compliance_store =
  cs_safety :: safety_store
  cs_depot :: depot_store
  cs_fleet :: fleet_store
  compliance_reports :: "compliance_report list"

datatype rows_outcome =
    AllRows
  | QueryFails
  | ScanFails nat
  | Interrupted nat

text \<open>What a section contributes: entries of the report and names of degraded sections.\<close>

type_synonym section_result = "(string \<times> json) list \<times> string list"

text \<open>\<open>SELECT key, count(*) ... GROUP BY key\<close>.\<close>

definition count_by :: "('a \<Rightarrow> string) \<Rightarrow> 'a list \<Rightarrow> (string \<times> json) list" where
  "count_by key xs = map (\<lambda>k. (k, JNum (int (length (filter (\<lambda>x. key x = k) xs))))) (remdups (map key xs))"

definition rollup :: "rows_outcome \<Rightarrow> string \<Rightarrow> string \<Rightarrow> (string \<times> json) list \<Rightarrow> section_result" where
  "rollup outcome name key groups =
     (case outcome of
        AllRows \<Rightarrow> ([(key, JObj groups)], [])
      | QueryFails \<Rightarrow> ([], [name])
      | ScanFails n \<Rightarrow> ([(key, JObj (take n groups))], if n < length groups then [name] else [])
      | Interrupted n \<Rightarrow> ([(key, JObj (take n groups))], []))"

definition day :: int where "day = 24 * 3600 * 1000000000"

definition in_window :: "db_env \<Rightarrow> int \<Rightarrow> int \<Rightarrow> bool" where
  "in_window E days t \<longleftrightarrow> now E - days * day < t"

definition status_section :: "rows_outcome \<Rightarrow> compliance_store \<Rightarrow> section_result" where
  "status_section outcome s = rollup outcome ''incidents_by_status'' ''incidents_by_status'' (count_by in_status (incidents (cs_safety s)))"

definition severity_section :: "db_env \<Rightarrow> rows_outcome \<Rightarrow> int \<Rightarrow> compliance_store \<Rightarrow> section_result" where
  "severity_section E outcome days s =
     rollup outcome ''incidents_by_severity'' ''incidents_by_severity_period''
       (count_by in_severity (filter (\<lambda>i. in_window E days (in_opened_at i)) (incidents (cs_safety s))))"

text \<open>Hours of a span, and the average and maximum of a column, which are null over no rows.\<close>

definition hours :: "int \<Rightarrow> rat" where
  "hours t = of_int t / (3600 * 1000000000)"

definition avg_of :: "(rat \<Rightarrow> rat) \<Rightarrow> rat list \<Rightarrow> json" where
  "avg_of fl xs = (if xs = [] then JNull else JFloat (fl (sum_list xs / of_nat (length xs))))"

definition max_of :: "(rat \<Rightarrow> rat) \<Rightarrow> rat list \<Rightarrow> json" where
  "max_of fl xs = (if xs = [] then JNull else JFloat (fl (fold max (tl xs) (hd xs))))"

definition unresolved :: "incident \<Rightarrow> bool" where
  "unresolved i \<longleftrightarrow> in_status i \<in> {''open'', ''acknowledged'', ''in_progress''}"

definition aging_section :: "db_env \<Rightarrow> (rat \<Rightarrow> rat) \<Rightarrow> bool \<Rightarrow> string list \<Rightarrow> string \<Rightarrow> string \<Rightarrow> compliance_store \<Rightarrow> section_result" where
  "aging_section E fl enabled types name key s =
     (if \<not> enabled then ([], [])
      else if fault E name then ([], [name])
      else
        let ages = map (\<lambda>i. hours (now E - in_opened_at i)) (filter (\<lambda>i. in_type i \<in> set types \<and> unresolved i) (incidents (cs_safety s))) in
        ([(key, JObj [(''open'', JNum (int (length ages))), (''avg_age_hours'', avg_of fl ages), (''oldest_age_hours'', max_of fl ages)])], []))"

definition mttr_section :: "db_env \<Rightarrow> (rat \<Rightarrow> rat) \<Rightarrow> int \<Rightarrow> compliance_store \<Rightarrow> section_result" where
  "mttr_section E fl days s =
     (if fault E ''mttr'' then ([], [''mttr''])
      else
        let spans = List.map_filter (\<lambda>i. map_option (\<lambda>r. hours (r - in_opened_at i)) (in_resolved_at i))
              (filter (\<lambda>i. in_status i = ''resolved'' \<and> in_resolved_at i \<noteq> None \<and> in_window E days (in_opened_at i)) (incidents (cs_safety s))) in
        ([(''mttr'', JObj [(''resolved_in_period'', JNum (int (length spans))), (''avg_hours'', avg_of fl spans)])], []))"

definition predictions_section :: "db_env \<Rightarrow> int \<Rightarrow> compliance_store \<Rightarrow> section_result" where
  "predictions_section E days s =
     (if fault E ''maintenance_predictions'' then ([], [''maintenance_predictions''])
      else
        let rows = filter (\<lambda>p. in_window E days (pr_created_at p)) (predictions (cs_fleet s)) in
        ([(''maintenance_predictions_period'', JObj [(''total'', JNum (int (length rows))),
            (''high_risk'', JNum (int (length (filter (\<lambda>p. pr_risk_score p \<ge> 7 / 10) rows))))])], []))"

definition work_orders_section :: "db_env \<Rightarrow> compliance_store \<Rightarrow> section_result" where
  "work_orders_section E s =
     (if fault E ''work_orders'' then ([], [''work_orders''])
      else ([(''work_orders_open'', JNum (int (length (filter (\<lambda>w. wo_status w \<noteq> ''closed'') (work_orders (cs_depot s))))))], []))"

text \<open>Two queries, the second only after the first.\<close>

definition reporting :: "db_env \<Rightarrow> compliance_store \<Rightarrow> nat" where
  "reporting E s = length (remdups (map tl_bus_id (filter (\<lambda>t. now E - day < tl_ts t) (fleet_telemetry (cs_fleet s)))))"

definition availability_pct :: "(rat \<Rightarrow> rat) \<Rightarrow> nat \<Rightarrow> nat \<Rightarrow> json" where
  "availability_pct fl n fleet = (if fleet > 0 then JFloat (fl (fl (of_nat n / of_nat fleet) * 100)) else JNull)"

definition fleet_section :: "db_env \<Rightarrow> (rat \<Rightarrow> rat) \<Rightarrow> compliance_store \<Rightarrow> section_result" where
  "fleet_section E fl s =
     (if fault E ''fleet'' \<or> fault E ''fleet reporting'' then ([], [''fleet''])
      else
        let fleet = length (vehicles (cs_fleet s)) in
        ([(''fleet_availability'', JObj [(''vehicles_total'', JNum (int fleet)), (''reporting_last_24h'', JNum (int (reporting E s))),
            (''availability_pct'', availability_pct fl (reporting E s) fleet)])], []))"

definition stations_section :: "db_env \<Rightarrow> (rat \<Rightarrow> rat) \<Rightarrow> compliance_store \<Rightarrow> section_result" where
  "stations_section E fl s =
     (if fault E ''stations'' then ([], [''stations''])
      else
        let rows = fuel_stations (sf_queue (cs_safety s)) in
        ([(''stations'', JObj [(''count'', JNum (int (length rows))),
            (''total_capacity_kg'', JFloat (fl (sum_list (List.map_filter fs_capacity_kg rows)))),
            (''total_available_kg'', JFloat (fl (sum_list (List.map_filter fs_available_kg rows))))])], []))"

section \<open>The report\<close>

definition report_sections :: "db_env \<Rightarrow> (rat \<Rightarrow> rat) \<Rightarrow> (string \<Rightarrow> rows_outcome) \<Rightarrow> int \<Rightarrow> compliance_pack \<Rightarrow> compliance_store \<Rightarrow> section_result list" where
  "report_sections E fl outcome days pack s =
     [status_section (outcome ''incidents_by_status'') s,
      severity_section E (outcome ''incidents_by_severity'') days s,
      aging_section E fl (pk_leak_aging pack) (pk_leak_types pack) ''leak_aging'' ''unresolved_leaks'' s,
      aging_section E fl (pk_battery_thermal pack) [''battery_thermal''] ''battery_thermal'' ''battery_thermal_incidents'' s,
      mttr_section E fl days s,
      predictions_section E days s,
      work_orders_section E s,
      fleet_section E fl s,
      stations_section E fl s]"

text \<open>The section sign in the name of the standard is its two UTF-8 bytes.\<close>

definition report_standard :: string where
  "report_standard = ''H2Fleet safety & compliance (SPEC '' @ map char_of [194, 167 :: nat] @ ''3.4 infra schema)''"

definition report_head :: "db_env \<Rightarrow> int \<Rightarrow> string \<Rightarrow> (string \<times> json) list" where
  "report_head E days domain =
     [(''generated_at'', JStr (rfc3339 (now E))), (''standard'', JStr report_standard), (''domain'', JStr domain),
      (''period_days'', JNum days), (''period_start'', JStr (rfc3339 (now E - days * day)))]"

definition buildReport :: "db_env \<Rightarrow> (rat \<Rightarrow> rat) \<Rightarrow> (string \<Rightarrow> rows_outcome) \<Rightarrow> int \<Rightarrow> string \<Rightarrow> compliance_store \<Rightarrow> report" where
  "buildReport E fl outcome days domain s =
     (let (pack, dmn) = (case map_of compliancePacks domain of Some p \<Rightarrow> (p, domain) | None \<Rightarrow> (the (map_of compliancePacks ''h2''), ''h2''));
          secs = report_sections E fl outcome days pack s;
          degraded = concat (map snd secs);
          rep = map_of (report_head E days dmn) ++ map_of (concat (map fst secs)) in
      if degraded = [] then rep else rep(''degraded'' \<mapsto> JArr (map JStr degraded)))"

definition generateAndStore ::
  "db_env \<Rightarrow> (rat \<Rightarrow> rat) \<Rightarrow> (string \<Rightarrow> rows_outcome) \<Rightarrow> int \<Rightarrow> string \<Rightarrow> compliance_store \<Rightarrow> compliance_report option \<times> compliance_store" where
  "generateAndStore E fl outcome days domain s =
     (if fault E ''persist compliance report'' then (None, s)
      else
        let r = \<lparr>cr_id = new_id E 0, cr_generated_at = to_micros (now E), cr_report = buildReport E fl outcome days domain s\<rparr> in
        (Some r, s\<lparr>compliance_reports := compliance_reports s @ [r]\<rparr>))"

definition GenerateScheduled ::
  "db_env \<Rightarrow> (rat \<Rightarrow> rat) \<Rightarrow> (string \<Rightarrow> rows_outcome) \<Rightarrow> compliance_store \<Rightarrow> bool \<times> compliance_store" where
  "GenerateScheduled E fl outcome s =
     (case generateAndStore E fl outcome defaultReportDays (defaultComplianceDomain E) s of (r, t) \<Rightarrow> (r \<noteq> None, t))"

definition report_days :: "string \<Rightarrow> int option" where
  "report_days raw =
     (if raw = [] then Some defaultReportDays
      else case parse_int64 raw of None \<Rightarrow> None | Some n \<Rightarrow> if n < 1 \<or> n > maxReportDays then None else Some n)"

definition GenerateComplianceReport ::
  "db_env \<Rightarrow> (rat \<Rightarrow> rat) \<Rightarrow> (string \<Rightarrow> rows_outcome) \<Rightarrow> string \<Rightarrow> string \<Rightarrow> compliance_store \<Rightarrow> compliance_report resp \<times> compliance_store" where
  "GenerateComplianceReport E fl outcome days_raw domain_raw s =
     (case report_days days_raw of
        None \<Rightarrow> (Err 400 ''days must be an integer between 1 and 365'', s)
      | Some days \<Rightarrow>
          if domain_raw \<noteq> [] \<and> map_of compliancePacks domain_raw = None then (Err 400 ''domain must be one of h2|battery|diesel|cng'', s)
          else case generateAndStore E fl outcome days (if domain_raw = [] then defaultComplianceDomain E else domain_raw) s of
            (None, t) \<Rightarrow> (Internal ''generate compliance report'', t)
          | (Some r, t) \<Rightarrow> (Reply 201 r, t))"

definition ListComplianceReports :: "db_env \<Rightarrow> compliance_store \<Rightarrow> compliance_report list resp" where
  "ListComplianceReports E s =
     (if fault E ''list compliance reports'' then Internal ''list compliance reports''
      else if fault E ''scan compliance report'' then Internal ''scan compliance report''
      else if fault E ''iterate compliance reports'' then Internal ''iterate compliance reports''
      else Reply 200 (newest cr_generated_at 100 (compliance_reports s)))"

definition GetComplianceReport :: "db_env \<Rightarrow> string \<Rightarrow> compliance_store \<Rightarrow> compliance_report resp" where
  "GetComplianceReport E rid s =
     (if fault E ''get compliance report'' then Internal ''get compliance report''
      else case find (\<lambda>r. cr_id r = rid) (compliance_reports s) of
        None \<Rightarrow> Err 404 ''report not found''
      | Some r \<Rightarrow> Reply 200 r)"

section \<open>Charge points\<close>

text \<open>The rows are written by the OCPP gateway; infra-api reads them. \<open>by_ocpp\<close> sorts in the collation of the database.\<close>

record charge_point =
  ch_id :: string
  ch_station_id :: string
  ch_ocpp_id :: string
  ch_vendor :: "string option"
  ch_model :: "string option"
  ch_status :: string
  ch_last_heartbeat :: "int option"
  ch_created_at :: int

record charging_session =
  ss_id :: string
  ss_charge_point_id :: string
  ss_bus_id :: "string option"
  ss_connector_id :: int
  ss_id_tag :: "string option"
  ss_meter_start :: rat
  ss_meter_stop :: "rat option"
  ss_kwh :: "rat option"
  ss_started_at :: int
  ss_stopped_at :: "int option"
  ss_status :: string

record charger_store =
  charge_points :: "charge_point list"
  charging_sessions :: "charging_session list"

definition scanChargePoint :: "charge_point \<Rightarrow> charge_point" where
  "scanChargePoint c = c\<lparr>ch_vendor := Some (coalesce (ch_vendor c) []), ch_model := Some (coalesce (ch_model c) [])\<rparr>"

definition listChargePoints ::
  "db_env \<Rightarrow> (charge_point list \<Rightarrow> charge_point list) \<Rightarrow> (charge_point \<Rightarrow> bool) \<Rightarrow> charger_store \<Rightarrow> charge_point list resp" where
  "listChargePoints E by_ocpp cond s =
     (if fault E ''list charge points'' then Internal ''list charge points''
      else if fault E ''scan charge point'' then Internal ''scan charge point''
      else if fault E ''iterate charge points'' then Internal ''iterate charge points''
      else Reply 200 (map scanChargePoint (take 500 (by_ocpp (filter cond (charge_points s))))))"

definition ListStationChargers ::
  "db_env \<Rightarrow> (charge_point list \<Rightarrow> charge_point list) \<Rightarrow> string \<Rightarrow> charger_store \<Rightarrow> charge_point list resp" where
  "ListStationChargers E by_ocpp sid s = listChargePoints E by_ocpp (\<lambda>c. ch_station_id c = sid) s"

definition ListChargers ::
  "db_env \<Rightarrow> (charge_point list \<Rightarrow> charge_point list) \<Rightarrow> string \<Rightarrow> charger_store \<Rightarrow> charge_point list resp" where
  "ListChargers E by_ocpp station_id s =
     (if station_id \<noteq> [] then listChargePoints E by_ocpp (\<lambda>c. ch_station_id c = station_id) s
      else listChargePoints E by_ocpp (\<lambda>c. True) s)"

text \<open>The inner join of sessions with the charge points of this OCPP id, newest first.\<close>

definition ListChargerSessions :: "db_env \<Rightarrow> string \<Rightarrow> string \<Rightarrow> charger_store \<Rightarrow> charging_session list resp" where
  "ListChargerSessions E ocpp_id status s =
     (if fault E ''list charging sessions'' then Internal ''list charging sessions''
      else if fault E ''scan charging session'' then Internal ''scan charging session''
      else if fault E ''iterate charging sessions'' then Internal ''iterate charging sessions''
      else Reply 200 (newest ss_started_at 200
        (filter (\<lambda>x. (\<exists>c \<in> set (charge_points s). ch_id c = ss_charge_point_id x \<and> ch_ocpp_id c = ocpp_id) \<and>
           (status \<noteq> [] \<longrightarrow> ss_status x = status)) (charging_sessions s))))"

lemma charger_sessions_exact:
  assumes "ListChargerSessions E ocpp_id status s = Reply n xs"
  shows "n = 200" "length xs \<le> 200" "sorted (map (\<lambda>x. - ss_started_at x) xs)"
    "\<forall>x \<in> set xs. x \<in> set (charging_sessions s) \<and> (\<exists>c \<in> set (charge_points s). ch_id c = ss_charge_point_id x \<and> ch_ocpp_id c = ocpp_id)"
  using assms by (auto simp: ListChargerSessions_def newest_sorted newest_length split: if_splits dest: newest_subset [THEN subsetD])

section \<open>Completeness of the report\<close>

text \<open>The sections of a pack: the name under which a section is reported degraded, and its key in the report.\<close>

definition section_table :: "compliance_pack \<Rightarrow> (string \<times> string) list" where
  "section_table pack =
     [(''incidents_by_status'', ''incidents_by_status''), (''incidents_by_severity'', ''incidents_by_severity_period'')] @
     (if pk_leak_aging pack then [(''leak_aging'', ''unresolved_leaks'')] else []) @
     (if pk_battery_thermal pack then [(''battery_thermal'', ''battery_thermal_incidents'')] else []) @
     [(''mttr'', ''mttr''), (''maintenance_predictions'', ''maintenance_predictions_period''), (''work_orders'', ''work_orders_open''),
      (''fleet'', ''fleet_availability''), (''stations'', ''stations'')]"

definition query_down :: "db_env \<Rightarrow> (string \<Rightarrow> rows_outcome) \<Rightarrow> string \<Rightarrow> bool" where
  "query_down E outcome name \<longleftrightarrow>
     (if name \<in> {''incidents_by_status'', ''incidents_by_severity''} then outcome name = QueryFails
      else fault E name \<or> name = ''fleet'' \<and> fault E ''fleet reporting'')"

definition section_groups :: "db_env \<Rightarrow> int \<Rightarrow> compliance_store \<Rightarrow> string \<Rightarrow> (string \<times> json) list" where
  "section_groups E days s name =
     (if name = ''incidents_by_status'' then count_by in_status (incidents (cs_safety s))
      else count_by in_severity (filter (\<lambda>i. in_window E days (in_opened_at i)) (incidents (cs_safety s))))"

definition section_fails :: "db_env \<Rightarrow> (string \<Rightarrow> rows_outcome) \<Rightarrow> int \<Rightarrow> compliance_store \<Rightarrow> string \<Rightarrow> bool" where
  "section_fails E outcome days s name \<longleftrightarrow> query_down E outcome name \<or>
     name \<in> {''incidents_by_status'', ''incidents_by_severity''} \<and>
     (case outcome name of ScanFails n \<Rightarrow> n < length (section_groups E days s name) | _ \<Rightarrow> False)"

text \<open>What a section contributes, in terms of the failures of its queries.\<close>

definition covers :: "(string \<Rightarrow> bool) \<Rightarrow> (string \<Rightarrow> bool) \<Rightarrow> (string \<times> string) list \<Rightarrow> section_result \<Rightarrow> bool" where
  "covers down bad ps x \<longleftrightarrow> map fst (fst x) = map snd (filter (\<lambda>p. \<not> down (fst p)) ps) \<and> snd x = map fst (filter (\<lambda>p. bad (fst p)) ps)"

lemma covers_append:
  assumes "covers down bad ps x" "covers down bad qs (concat (map fst xs), concat (map snd xs))"
  shows "covers down bad (ps @ qs) (concat (map fst (x # xs)), concat (map snd (x # xs)))"
  using assms by (simp add: covers_def)

lemma covers_Nil: "covers down bad [] ([], [])"
  by (simp add: covers_def)

lemma rollup_covers:
  assumes "down name \<longleftrightarrow> outcome = QueryFails" "bad name \<longleftrightarrow> down name \<or> (case outcome of ScanFails n \<Rightarrow> n < length groups | _ \<Rightarrow> False)"
  shows "covers down bad [(name, key)] (rollup outcome name key groups)"
  using assms by (cases outcome) (auto simp: covers_def rollup_def)

lemma covers_single:
  assumes "bad name \<longleftrightarrow> down name" "down name \<Longrightarrow> x = ([], [name])" "\<not> down name \<Longrightarrow> \<exists>v. x = ([(key, v)], [])"
  shows "covers down bad [(name, key)] x"
  using assms by (cases "down name") (auto simp: covers_def)

lemma sections_cover:
  fixes E outcome days s
  defines "down \<equiv> query_down E outcome" and "bad \<equiv> section_fails E outcome days s"
  shows "covers down bad [(''incidents_by_status'', ''incidents_by_status'')] (status_section (outcome ''incidents_by_status'') s)"
    "covers down bad [(''incidents_by_severity'', ''incidents_by_severity_period'')] (severity_section E (outcome ''incidents_by_severity'') days s)"
    "covers down bad (if a then [(''leak_aging'', ''unresolved_leaks'')] else []) (aging_section E fl a types ''leak_aging'' ''unresolved_leaks'' s)"
    "covers down bad (if b then [(''battery_thermal'', ''battery_thermal_incidents'')] else [])
       (aging_section E fl b types ''battery_thermal'' ''battery_thermal_incidents'' s)"
    "covers down bad [(''mttr'', ''mttr'')] (mttr_section E fl days s)"
    "covers down bad [(''maintenance_predictions'', ''maintenance_predictions_period'')] (predictions_section E days s)"
    "covers down bad [(''work_orders'', ''work_orders_open'')] (work_orders_section E s)"
    "covers down bad [(''fleet'', ''fleet_availability'')] (fleet_section E fl s)"
    "covers down bad [(''stations'', ''stations'')] (stations_section E fl s)"
  unfolding down_def bad_def status_section_def severity_section_def
  subgoal by (rule rollup_covers) (simp_all add: query_down_def section_fails_def section_groups_def split: rows_outcome.split)
  subgoal by (rule rollup_covers) (simp_all add: query_down_def section_fails_def section_groups_def split: rows_outcome.split)
  subgoal by (simp add: covers_def aging_section_def query_down_def section_fails_def Let_def)
  subgoal by (simp add: covers_def aging_section_def query_down_def section_fails_def Let_def)
  subgoal by (rule covers_single) (simp_all add: mttr_section_def query_down_def section_fails_def Let_def)
  subgoal by (rule covers_single) (simp_all add: predictions_section_def query_down_def section_fails_def Let_def)
  subgoal by (rule covers_single) (simp_all add: work_orders_section_def query_down_def section_fails_def Let_def)
  subgoal by (rule covers_single) (auto simp: fleet_section_def query_down_def section_fails_def Let_def)
  subgoal by (rule covers_single) (simp_all add: stations_section_def query_down_def section_fails_def Let_def)
  done

lemma report_covers:
  defines "secs \<equiv> \<lambda>E fl outcome days pack s. report_sections E fl outcome days pack s"
  shows "covers (query_down E outcome) (section_fails E outcome days s) (section_table pack)
     (concat (map fst (secs E fl outcome days pack s)), concat (map snd (secs E fl outcome days pack s)))"
proof -
  have "section_table pack = [(''incidents_by_status'', ''incidents_by_status'')] @ [(''incidents_by_severity'', ''incidents_by_severity_period'')] @
     (if pk_leak_aging pack then [(''leak_aging'', ''unresolved_leaks'')] else []) @
     (if pk_battery_thermal pack then [(''battery_thermal'', ''battery_thermal_incidents'')] else []) @
     [(''mttr'', ''mttr'')] @ [(''maintenance_predictions'', ''maintenance_predictions_period'')] @ [(''work_orders'', ''work_orders_open'')] @
     [(''fleet'', ''fleet_availability'')] @ [(''stations'', ''stations'')] @ []"
    by (simp add: section_table_def)
  then show ?thesis
    unfolding secs_def report_sections_def
    by (simp only:) (intro covers_append sections_cover, simp only: list.map concat.simps covers_Nil)
qed

text \<open>The counts of a rollup add up to the rows counted.\<close>

definition count_total :: "(string \<times> json) list \<Rightarrow> int" where
  "count_total g = sum_list (map (\<lambda>x. case snd x of JNum n \<Rightarrow> n | _ \<Rightarrow> 0) g)"

lemma count_by_total: "count_total (count_by key xs) = int (length xs)"
proof -
  have "count_total (count_by key xs) = (\<Sum>k \<leftarrow> remdups (map key xs). int (length (filter (\<lambda>x. key x = k) xs)))"
    by (simp add: count_total_def count_by_def comp_def)
  also have "\<dots> = (\<Sum>k \<in> set (map key xs). int (count_list (map key xs) k))"
    by (subst sum_list_distinct_conv_sum_set) (simp_all add: count_list_eq_length_filter filter_map comp_def eq_commute)
  also have "\<dots> = int (length (map key xs))"
    unfolding of_nat_sum [symmetric] by (simp only: sum_count_set [OF subset_refl finite_set])
  finally show ?thesis by simp
qed

lemma report_days_bounds: "report_days raw = Some n \<Longrightarrow> 1 \<le> n \<and> n \<le> 365"
  by (auto simp: report_days_def defaultReportDays_def maxReportDays_def split: if_splits option.splits)

lemma default_domain_known: "map_of compliancePacks (defaultComplianceDomain E) \<noteq> None"
  by (auto simp: defaultComplianceDomain_def Let_def compliancePacks_def)

lemma buildReport_known:
  assumes "map_of compliancePacks dmn = Some pack"
  shows "buildReport E fl outcome days dmn s =
    (let degraded = map fst (filter (\<lambda>p. section_fails E outcome days s (fst p)) (section_table pack));
         rep = map_of (report_head E days dmn) ++ map_of (concat (map fst (report_sections E fl outcome days pack s))) in
     if degraded = [] then rep else rep(''degraded'' \<mapsto> JArr (map JStr degraded)))"
  using report_covers [of E outcome days s pack fl] by (simp only: buildReport_def assms option.case prod.case Let_def covers_def snd_conv)

text \<open>The keys of the sections are different from each other, from those of the head and from \<open>degraded\<close>.\<close>

lemma section_keys:
  "distinct (map snd (section_table pack))" "''degraded'' \<notin> set (map snd (section_table pack))" "''degraded'' \<notin> set (map fst (report_head E days dmn))"
  by (cases "pk_leak_aging pack"; cases "pk_battery_thermal pack"; simp add: section_table_def report_head_def)+

lemma sections_keys:
  "map fst (concat (map fst (report_sections E fl outcome days pack s))) =
     map snd (filter (\<lambda>p. \<not> query_down E outcome (fst p)) (section_table pack))"
  using report_covers [of E outcome days s pack fl] by (simp only: covers_def fst_conv)

lemma sections_distinct: "distinct (map fst (concat (map fst (report_sections E fl outcome days pack s))))"
  unfolding sections_keys by (rule distinct_map_filter [OF section_keys(1)])

lemma sections_dom:
  "dom (map_of (concat (map fst (report_sections E fl outcome days pack s)))) =
     snd ` {p \<in> set (section_table pack). \<not> query_down E outcome (fst p)}"
proof -
  have "dom (map_of (concat (map fst (report_sections E fl outcome days pack s)))) =
      set (map fst (concat (map fst (report_sections E fl outcome days pack s))))" by (simp only: dom_map_of_conv_image_fst list.set_map)
  then show ?thesis unfolding sections_keys by (simp only: list.set_map set_filter)
qed

lemma rollups_in_report:
  "outcome ''incidents_by_status'' = AllRows \<Longrightarrow>
     map_of (concat (map fst (report_sections E fl outcome days pack s))) ''incidents_by_status'' =
       Some (JObj (section_groups E days s ''incidents_by_status''))"
  "outcome ''incidents_by_severity'' = AllRows \<Longrightarrow>
     map_of (concat (map fst (report_sections E fl outcome days pack s))) ''incidents_by_severity_period'' =
       Some (JObj (section_groups E days s ''incidents_by_severity''))"
  by (rule map_of_is_SomeI [OF sections_distinct], simp add: report_sections_def status_section_def severity_section_def rollup_def section_groups_def)+

lemma dom_marked: "dom (if none then m else m(k \<mapsto> v)) = dom m \<union> (if none then {} else {k})"
  by (cases none) simp_all

lemma report_keys:
  assumes "map_of compliancePacks dmn = Some pack"
  defines "degraded \<equiv> \<lambda>E outcome days s. map fst (filter (\<lambda>p. section_fails E outcome days s (fst p)) (section_table pack))"
  shows "dom (buildReport E fl outcome days dmn s) = {''generated_at'', ''standard'', ''domain'', ''period_days'', ''period_start''} \<union>
      snd ` {p \<in> set (section_table pack). \<not> query_down E outcome (fst p)} \<union> (if degraded E outcome days s = [] then {} else {''degraded''})"
    and "buildReport E fl outcome days dmn s ''degraded'' =
      (if degraded E outcome days s = [] then None else Some (JArr (map JStr (degraded E outcome days s))))"
proof -
  let ?secs = "concat (map fst (report_sections E fl outcome days pack s))"
  let ?rep = "map_of (report_head E days dmn) ++ map_of ?secs"
  have rep: "buildReport E fl outcome days dmn s =
      (if degraded E outcome days s = [] then ?rep else ?rep(''degraded'' \<mapsto> JArr (map JStr (degraded E outcome days s))))"
    by (simp only: buildReport_known [OF assms(1)] degraded_def Let_def)
  have head: "dom (map_of (report_head E days dmn)) = {''generated_at'', ''standard'', ''domain'', ''period_days'', ''period_start''}"
    by (simp add: dom_map_of_conv_image_fst report_head_def)
  have dm: "dom ?rep = {''generated_at'', ''standard'', ''domain'', ''period_days'', ''period_start''} \<union>
      snd ` {p \<in> set (section_table pack). \<not> query_down E outcome (fst p)}"
    unfolding dom_map_add head sections_dom by (rule Un_commute)
  then show "dom (buildReport E fl outcome days dmn s) = {''generated_at'', ''standard'', ''domain'', ''period_days'', ''period_start''} \<union>
      snd ` {p \<in> set (section_table pack). \<not> query_down E outcome (fst p)} \<union> (if degraded E outcome days s = [] then {} else {''degraded''})"
    unfolding rep dom_marked by (rule arg_cong)
  have "''degraded'' \<notin> snd ` {p \<in> set (section_table pack). \<not> query_down E outcome (fst p)}"
    using section_keys(2) [of pack] unfolding list.set_map by blast
  then have "''degraded'' \<notin> dom ?rep" unfolding dm by simp
  then have "?rep ''degraded'' = None" by (simp only: domIff not_not)
  then show "buildReport E fl outcome days dmn s ''degraded'' =
      (if degraded E outcome days s = [] then None else Some (JArr (map JStr (degraded E outcome days s))))"
    unfolding rep by (cases "degraded E outcome days s = []") simp_all
qed

lemma report_rollups:
  assumes "map_of compliancePacks dmn = Some pack"
  shows "outcome ''incidents_by_status'' = AllRows \<Longrightarrow>
      buildReport E fl outcome days dmn s ''incidents_by_status'' = Some (JObj (section_groups E days s ''incidents_by_status''))"
    and "outcome ''incidents_by_severity'' = AllRows \<Longrightarrow>
      buildReport E fl outcome days dmn s ''incidents_by_severity_period'' = Some (JObj (section_groups E days s ''incidents_by_severity''))"
  using rollups_in_report [of outcome E fl days pack s] unfolding buildReport_known [OF assms] Let_def by (simp_all add: map_add_def)

text \<open>
  C38. A generated report accounts for every section of its pack: the window is between 1 and 365 days and the domain
  one of the four; the keys of the report are the five of its head, those of the sections whose query did not fail, and
  \<open>degraded\<close> when a section failed; \<open>degraded\<close> lists, in the order of the sections, exactly those of which the query
  failed or a row could not be scanned; when all rows of the rollups arrive, their counts add up to all incidents and to
  those of the window; and the report read back under its id is the one that was answered. A rollup whose rows stop coming
  (\<open>Interrupted\<close>) is not among the failures that are listed, against the comment that a failed rollup names itself
  (\<open>interrupted_rollup_unnoticed\<close> below).
\<close>

theorem compliance_report_complete:
  assumes "GenerateComplianceReport E fl outcome days_raw domain_raw s = (Reply n r, t)"
    and "new_id E 0 \<notin> cr_id ` set (compliance_reports s)"
  shows "\<exists>days dmn pack degraded status severity. n = 201 \<and> report_days days_raw = Some days \<and> 1 \<le> days \<and> days \<le> 365 \<and> map_of compliancePacks dmn = Some pack \<and>
    (domain_raw \<noteq> [] \<longrightarrow> dmn = domain_raw) \<and>
    degraded = map fst (filter (\<lambda>p. section_fails E outcome days s (fst p)) (section_table pack)) \<and>
    dom (cr_report r) = {''generated_at'', ''standard'', ''domain'', ''period_days'', ''period_start''} \<union>
      snd ` {p \<in> set (section_table pack). \<not> query_down E outcome (fst p)} \<union> (if degraded = [] then {} else {''degraded''}) \<and>
    cr_report r ''degraded'' = (if degraded = [] then None else Some (JArr (map JStr degraded))) \<and>
    (outcome ''incidents_by_status'' = AllRows \<longrightarrow> cr_report r ''incidents_by_status'' = Some (JObj status) \<and>
       count_total status = int (length (incidents (cs_safety s)))) \<and>
    (outcome ''incidents_by_severity'' = AllRows \<longrightarrow> cr_report r ''incidents_by_severity_period'' = Some (JObj severity) \<and>
       count_total severity = int (length (filter (\<lambda>i. in_window E days (in_opened_at i)) (incidents (cs_safety s))))) \<and>
    t = s\<lparr>compliance_reports := compliance_reports s @ [r]\<rparr> \<and>
    (\<forall>E'. \<not> fault E' ''get compliance report'' \<longrightarrow> GetComplianceReport E' (cr_id r) t = Reply 200 r)"
proof -
  obtain days where days: "report_days days_raw = Some days"
    using assms(1) by (cases "report_days days_raw") (auto simp: GenerateComplianceReport_def)
  define dmn where "dmn = (if domain_raw = [] then defaultComplianceDomain E else domain_raw)"
  have known: "domain_raw = [] \<or> map_of compliancePacks domain_raw \<noteq> None"
    using assms(1) by (auto simp: GenerateComplianceReport_def days split: if_splits)
  then have "map_of compliancePacks dmn \<noteq> None" using default_domain_known by (auto simp: dmn_def)
  then obtain pack where pack: "map_of compliancePacks dmn = Some pack" by blast
  have gen: "\<not> fault E ''persist compliance report''" "n = 201"
    "r = \<lparr>cr_id = new_id E 0, cr_generated_at = to_micros (now E), cr_report = buildReport E fl outcome days dmn s\<rparr>"
    "t = s\<lparr>compliance_reports := compliance_reports s @ [r]\<rparr>"
    using assms(1) known
    by (auto simp: GenerateComplianceReport_def days generateAndStore_def Let_def dmn_def [symmetric] split: if_splits)
  have rep: "cr_report r = buildReport E fl outcome days dmn s" by (simp add: gen(3))
  have "find (\<lambda>x. cr_id x = cr_id r) (compliance_reports s @ [r]) = Some r"
  proof -
    have "find (\<lambda>x. cr_id x = cr_id r) (compliance_reports s) = None" using assms(2) by (simp add: find_None_iff gen(3)) (metis imageI)
    then show ?thesis by (simp add: find_append)
  qed
  then have reread: "\<not> fault E' ''get compliance report'' \<Longrightarrow> GetComplianceReport E' (cr_id r) t = Reply 200 r" for E'
    by (simp add: GetComplianceReport_def gen(4))
  note b = report_keys [OF pack, of E fl outcome days s] report_rollups [OF pack, of outcome E fl days s]
  show ?thesis unfolding rep
  proof (intro exI conjI impI allI)
    show "n = 201" "report_days days_raw = Some days" "1 \<le> days" "days \<le> 365" "map_of compliancePacks dmn = Some pack"
      using gen(2) days report_days_bounds [OF days] pack by simp_all
    show "domain_raw \<noteq> [] \<Longrightarrow> dmn = domain_raw" by (simp add: dmn_def)
  qed (rule refl b | assumption | simp add: section_groups_def count_by_total gen(4) reread [unfolded gen(4)])+
qed

section \<open>What the report leaves out\<close>

text \<open>
  The code never asks whether the rows of a rollup ended early: a connection that breaks after the first group gives
  a report with fewer incidents and no section marked as degraded.
\<close>

lemma interrupted_rollup_unnoticed:
  assumes "outcome = (\<lambda>_. Interrupted 0)" "map_of compliancePacks dmn = Some pack" "\<And>op. \<not> fault E op"
  shows "buildReport E fl outcome days dmn s ''incidents_by_status'' = Some (JObj [])" "buildReport E fl outcome days dmn s ''degraded'' = None"
proof -
  have none: "filter (\<lambda>p. section_fails E outcome days s (fst p)) (section_table pack) = []"
    using assms(1,3) by (auto simp: filter_empty_conv section_fails_def query_down_def)
  then show "buildReport E fl outcome days dmn s ''degraded'' = None" using report_keys(2) [OF assms(2), of E fl outcome days s] by simp
  have "map_of (concat (map fst (report_sections E fl outcome days pack s))) ''incidents_by_status'' = Some (JObj [])"
    by (rule map_of_is_SomeI [OF sections_distinct]) (simp add: report_sections_def status_section_def rollup_def assms(1))
  then show "buildReport E fl outcome days dmn s ''incidents_by_status'' = Some (JObj [])"
    unfolding buildReport_known [OF assms(2)] none by (simp add: map_add_def)
qed

text \<open>An incident that was resolved inside the window but opened before it does not count in the mean time to resolve.\<close>

lemma mttr_ignores_old_incidents:
  assumes "\<not> fault E ''mttr''" "\<forall>i \<in> set (incidents (cs_safety s)). in_opened_at i \<le> now E - days * day"
  shows "mttr_section E fl days s = ([(''mttr'', JObj [(''resolved_in_period'', JNum 0), (''avg_hours'', JNull)])], [])"
proof -
  have "filter (\<lambda>i. in_status i = ''resolved'' \<and> in_resolved_at i \<noteq> None \<and> in_window E days (in_opened_at i)) (incidents (cs_safety s)) = []"
    using assms(2) by (auto simp: filter_empty_conv in_window_def)
  then show ?thesis using assms(1) by (simp only: mttr_section_def if_False Let_def) (simp add: List.map_filter_def avg_of_def)
qed

text \<open>The availability is a percentage, because telemetry rows refer to vehicles and rounding keeps the order and the bounds.\<close>

lemma availability_bounded:
  assumes "tl_bus_id ` set (fleet_telemetry (cs_fleet s)) \<subseteq> vh_id ` set (vehicles (cs_fleet s))" "vehicles (cs_fleet s) \<noteq> []"
    and "\<And>x y. x \<le> y \<Longrightarrow> fl x \<le> fl y" "fl 0 = 0" "fl 1 = 1" "fl 100 = 100"
  shows "\<exists>p. availability_pct fl (reporting E s) (length (vehicles (cs_fleet s))) = JFloat p \<and> 0 \<le> p \<and> p \<le> 100"
proof -
  let ?n = "length (vehicles (cs_fleet s))" and ?bus = "set (map tl_bus_id (filter (\<lambda>t. now E - day < tl_ts t) (fleet_telemetry (cs_fleet s))))"
  have "?bus \<subseteq> vh_id ` set (vehicles (cs_fleet s))" using assms(1) by auto
  then have "card ?bus \<le> card (vh_id ` set (vehicles (cs_fleet s)))" by (rule card_mono [rotated]) simp
  also have "\<dots> \<le> ?n" by (rule order_trans [OF card_image_le card_length]) simp
  finally have le: "reporting E s \<le> ?n" by (simp only: reporting_def length_remdups_card_conv)
  let ?q = "of_nat (reporting E s) / of_nat ?n :: rat"
  have "0 \<le> ?q" "?q \<le> 1" using le assms(2) by (simp_all add: divide_le_eq_1)
  then have "0 \<le> fl ?q" "fl ?q \<le> 1" using assms(3) [of 0 ?q] assms(3) [of ?q 1] assms(4,5) by simp_all
  then have "0 \<le> fl (fl ?q * 100)" "fl (fl ?q * 100) \<le> 100" using assms(3) [of 0 "fl ?q * 100"] assms(3) [of "fl ?q * 100" 100] assms(4,6) by simp_all
  then show ?thesis using assms(2) by (simp add: availability_pct_def)
qed

section \<open>A worked example\<close>

definition audit_store :: compliance_store where
  "audit_store = \<lparr>cs_safety = \<lparr>incidents = [], sf_queue = \<lparr>station_queue = [], fuel_stations = [], fleet_vehicles = []\<rparr>,
       sf_dispatch = depot True, telemetry = [], sf_hooks = \<lparr>webhook_subscriptions = [], webhook_deliveries = [], hook_sent = []\<rparr>,
       sf_events = [], sf_signals = []\<rparr>,
     cs_depot = \<lparr>work_orders = [], depot_bays = [], depot_vehicles = [], depot_predictions = [], depot_fks = True\<rparr>,
     cs_fleet = \<lparr>vehicles = [], fleet_telemetry = [], predictions = [], fuel_consumption = []\<rparr>, compliance_reports = []\<rparr>"

definition audit_env :: db_env where
  "audit_env = (quiet_env (\<lambda>_ _ _ _ _ l. (Inr [], l)))\<lparr>fault := (\<lambda>op. op = ''stations'')\<rparr>"

text \<open>The station query fails: the report of the battery pack lacks that section and says so.\<close>

lemma audit_generates:
  "\<exists>r t. GenerateComplianceReport audit_env id (\<lambda>_. AllRows) ''90'' ''battery'' audit_store = (Reply 201 r, t)"
proof -
  have days: "report_days ''90'' = Some 90" by code_simp
  have dmn: "map_of compliancePacks ''battery'' \<noteq> None" by (simp add: compliancePacks_def)
  have "\<not> fault audit_env ''persist compliance report''" by (simp add: audit_env_def)
  then show ?thesis using dmn by (simp add: GenerateComplianceReport_def days generateAndStore_def Let_def)
qed

theorem compliance_report_complete_witness:
  "\<exists>r t. GenerateComplianceReport audit_env id (\<lambda>_. AllRows) ''90'' ''battery'' audit_store = (Reply 201 r, t) \<and>
     cr_report r ''degraded'' = Some (JArr [JStr ''stations''])"
proof -
  obtain r t where run: "GenerateComplianceReport audit_env id (\<lambda>_. AllRows) ''90'' ''battery'' audit_store = (Reply 201 r, t)"
    using audit_generates by blast
  have fresh: "new_id audit_env 0 \<notin> cr_id ` set (compliance_reports audit_store)" by (simp add: audit_store_def)
  obtain days dmn pack degraded where c: "map_of compliancePacks dmn = Some pack" "dmn = ''battery''"
    "degraded = map fst (filter (\<lambda>p. section_fails audit_env (\<lambda>_. AllRows) days audit_store (fst p)) (section_table pack))"
    "cr_report r ''degraded'' = (if degraded = [] then None else Some (JArr (map JStr degraded)))"
    using compliance_report_complete [OF run fresh] by (elim exE conjE) (simp only: not_Cons_self2 list.distinct simp_thms)
  have pack: "pack = \<lparr>pk_leak_aging = False, pk_leak_types = [], pk_battery_thermal = True\<rparr>" using c(1,2) by (simp add: compliancePacks_def)
  have "degraded = [''stations'']"
    unfolding c(3) pack by (simp add: section_table_def section_fails_def query_down_def audit_env_def)
  with c(4) run show ?thesis by (intro exI [of _ r] exI [of _ t]) simp
qed

end
