(* ===== verification/Keycloak.thy ===== *)
theory Keycloak
  imports Identity
begin

text \<open>
  The HTTP client of the Keycloak Admin REST API (src/services/go/admin-api/internal/keycloak/keycloak.go) as an
  implementation of the \<open>AdminClient\<close> interface of \<open>Identity\<close>. The server is the parameter \<open>http\<close>: a function from a
  request and the server's state to its answer, if there is one, and the next state. The state keeps what the
  client has done so far: its readings of the clock and its exchanges. The clock is the parameter \<open>clk\<close>, the instant of
  each such event by its number, so that no two readings are taken to be the same. A JSON value stands for its text; an object's fields match in any letter case, the last one wins.
\<close>

section \<open>Escaping\<close>

definition unreserved :: "char \<Rightarrow> bool" where
  "unreserved c \<longleftrightarrow> (let n = of_char c :: nat in 97 \<le> n \<and> n \<le> 122 \<or> 65 \<le> n \<and> n \<le> 90 \<or> 48 \<le> n \<and> n \<le> 57) \<or> c \<in> set ''-_.~''"

definition upper_hex :: "nat \<Rightarrow> char" where
  "upper_hex d = (if d < 10 then char_of (48 + d) else char_of (55 + d))"

definition percent :: "char \<Rightarrow> string" where
  "percent c = [CHR ''%'', upper_hex (of_char c div 16), upper_hex (of_char c mod 16)]"

text \<open>\<open>url.QueryEscape\<close> and \<open>url.PathEscape\<close>.\<close>

definition query_escape :: "string \<Rightarrow> string" where
  "query_escape s = concat (map (\<lambda>c. if unreserved c then [c] else if c = CHR '' '' then ''+'' else percent c) s)"

definition path_escape :: "string \<Rightarrow> string" where
  "path_escape s = concat (map (\<lambda>c. if unreserved c \<or> c \<in> set ''$&+=:@'' then [c] else percent c) s)"

section \<open>Requests and answers\<close>

datatype http_body = NoBody | FormBody string | JsonBody json

record http_request =
  hq_method :: string
  hq_url :: string
  hq_auth :: "string option"
  hq_ctype :: string
  hq_body :: http_body

text \<open>Status, \<open>Location\<close> header and the JSON value of the body, if it is one.\<close>

record http_response =
  hs_status :: int
  hs_location :: string
  hs_body :: "json option"

record kc_config =
  kc_adminURL :: string
  kc_realm :: string
  kc_clientID :: string
  kc_clientSecret :: string

text \<open>A call of \<open>time.Now\<close> with what it gave, and a request with the instant it was sent and its answer.\<close>

datatype kc_event =
    Clock int
  | Exchange int http_request "http_response option"

record 's kc_state =
  kc_tok :: string
  kc_expr :: int
  kc_srv :: 's
  kc_trace :: "kc_event list"

type_synonym 's http_server = "http_request \<Rightarrow> 's \<Rightarrow> http_response option \<times> 's"

definition kc_send :: "'s http_server \<Rightarrow> (nat \<Rightarrow> int) \<Rightarrow> http_request \<Rightarrow> 's kc_state \<Rightarrow> http_response option \<times> 's kc_state" where
  "kc_send http clk q k =
     (case http q (kc_srv k) of
        (r, s) \<Rightarrow> (r, k\<lparr>kc_srv := s, kc_trace := kc_trace k @ [Exchange (clk (length (kc_trace k))) q r]\<rparr>))"

definition kc_time :: "(nat \<Rightarrow> int) \<Rightarrow> 's kc_state \<Rightarrow> int \<times> 's kc_state" where
  "kc_time clk k = (let t = clk (length (kc_trace k)) in (t, k\<lparr>kc_trace := kc_trace k @ [Clock t]\<rparr>))"

section \<open>Decoding\<close>

definition json_fields :: "json option \<Rightarrow> (string \<times> json) list option" where
  "json_fields j = (case j of Some (JObj fs) \<Rightarrow> Some fs | Some JNull \<Rightarrow> Some [] | _ \<Rightarrow> None)"

fun str_field :: "string \<Rightarrow> string \<Rightarrow> (string \<times> json) list \<Rightarrow> string option" where
  "str_field name acc [] = Some acc"
| "str_field name acc ((k, v) # fs) =
     (if equal_fold k name then (case v of JStr s \<Rightarrow> str_field name s fs | JNull \<Rightarrow> str_field name acc fs | _ \<Rightarrow> None)
      else str_field name acc fs)"

fun int_field :: "string \<Rightarrow> int \<Rightarrow> (string \<times> json) list \<Rightarrow> int option" where
  "int_field name acc [] = Some acc"
| "int_field name acc ((k, v) # fs) =
     (if equal_fold k name then (case v of JNum n \<Rightarrow> if in_i64 n then int_field name n fs else None | JNull \<Rightarrow> int_field name acc fs | _ \<Rightarrow> None)
      else int_field name acc fs)"

fun bool_field :: "string \<Rightarrow> bool \<Rightarrow> (string \<times> json) list \<Rightarrow> bool option" where
  "bool_field name acc [] = Some acc"
| "bool_field name acc ((k, v) # fs) =
     (if equal_fold k name then (case v of JBool b \<Rightarrow> bool_field name b fs | JNull \<Rightarrow> bool_field name acc fs | _ \<Rightarrow> None)
      else bool_field name acc fs)"

definition decode_token :: "json option \<Rightarrow> (string \<times> int) option" where
  "decode_token j =
     Option.bind (json_fields j) (\<lambda>fs. Option.bind (str_field ''access_token'' [] fs) (\<lambda>t. map_option (Pair t) (int_field ''expires_in'' 0 fs)))"

definition decode_role :: "json option \<Rightarrow> (string \<times> string) option" where
  "decode_role j =
     Option.bind (json_fields j) (\<lambda>fs. Option.bind (str_field ''id'' [] fs) (\<lambda>i. map_option (Pair i) (str_field ''name'' [] fs)))"

definition decode_user :: "json option \<Rightarrow> kc_user option" where
  "decode_user j =
     (case json_fields j of
        None \<Rightarrow> None
      | Some fs \<Rightarrow>
          (case (str_field ''id'' [] fs, str_field ''username'' [] fs, str_field ''email'' [] fs, str_field ''firstName'' [] fs,
                 str_field ''lastName'' [] fs, bool_field ''enabled'' False fs) of
             (Some i, Some n, Some e, Some f, Some l, Some b) \<Rightarrow>
               Some \<lparr>u_id = i, u_username = n, u_email = e, u_first = f, u_last = l, u_enabled = b, u_roles = []\<rparr>
           | _ \<Rightarrow> None))"

definition decode_list :: "(json option \<Rightarrow> 'a option) \<Rightarrow> json option \<Rightarrow> 'a list option" where
  "decode_list f j =
     (case j of
        Some (JArr js) \<Rightarrow> if list_all (\<lambda>x. f (Some x) \<noteq> None) js then Some (map (\<lambda>x. the (f (Some x))) js) else None
      | Some JNull \<Rightarrow> Some []
      | _ \<Rightarrow> None)"

section \<open>Tokens\<close>

text \<open>\<open>form.Encode\<close> sorts the keys.\<close>

definition token_request :: "kc_config \<Rightarrow> http_request" where
  "token_request C =
     \<lparr>hq_method = ''POST'', hq_url = kc_adminURL C @ ''/realms/'' @ kc_realm C @ ''/protocol/openid-connect/token'',
      hq_auth = None, hq_ctype = ''application/x-www-form-urlencoded'',
      hq_body = FormBody (''client_id='' @ query_escape (kc_clientID C) @ ''&client_secret='' @ query_escape (kc_clientSecret C) @
         ''&grant_type=client_credentials'')\<rparr>"

text \<open>How long a token is used: until 30 seconds before it expires, in nanoseconds.\<close>

definition token_use :: "int \<Rightarrow> int" where
  "token_use expires_in = i64 (i64 (expires_in - 30) * 1000000000)"

text \<open>The cached token is looked at first, and the clock only when there is one; a new token is dated by a reading
  after its answer.\<close>

definition cached_token :: "(nat \<Rightarrow> int) \<Rightarrow> 's kc_state \<Rightarrow> string option \<times> 's kc_state" where
  "cached_token clk k =
     (if kc_tok k = [] then (None, k)
      else case kc_time clk k of (t, k1) \<Rightarrow> (if t < kc_expr k1 then Some (kc_tok k1) else None, k1))"

definition accessToken :: "kc_config \<Rightarrow> 's http_server \<Rightarrow> (nat \<Rightarrow> int) \<Rightarrow> 's kc_state \<Rightarrow> string option \<times> 's kc_state" where
  "accessToken C http clk k =
     (case cached_token clk k of
        (Some tok, k1) \<Rightarrow> (Some tok, k1)
      | (None, k1) \<Rightarrow>
          (case kc_send http clk (token_request C) k1 of
             (None, k2) \<Rightarrow> (None, k2)
           | (Some r, k2) \<Rightarrow>
               if hs_status r \<noteq> 200 then (None, k2)
               else (case decode_token (hs_body r) of
                  None \<Rightarrow> (None, k2)
                | Some (tok, expires_in) \<Rightarrow>
                    if tok = [] then (None, k2)
                    else (case kc_time clk k2 of
                       (t, k3) \<Rightarrow> (Some tok, k3\<lparr>kc_tok := tok, kc_expr := t + token_use expires_in\<rparr>)))))"

definition bearer :: "string \<Rightarrow> string" where
  "bearer tok = ''Bearer '' @ tok"

definition kc_do :: "kc_config \<Rightarrow> 's http_server \<Rightarrow> (nat \<Rightarrow> int) \<Rightarrow> string \<Rightarrow> string \<Rightarrow> http_body \<Rightarrow> 's kc_state \<Rightarrow> http_response option \<times> 's kc_state" where
  "kc_do C http clk meth path body k =
     (case accessToken C http clk k of
        (None, k1) \<Rightarrow> (None, k1)
      | (Some tok, k1) \<Rightarrow>
          kc_send http clk
            \<lparr>hq_method = meth, hq_url = kc_adminURL C @ ''/admin/realms/'' @ kc_realm C @ path, hq_auth = Some (bearer tok),
             hq_ctype = (if body = NoBody then [] else ''application/json''), hq_body = body\<rparr> k1)"

section \<open>The operations\<close>

text \<open>A call that must be answered 204, and one that must be answered 200 with a body to decode.\<close>

definition kc_no_content :: "kc_config \<Rightarrow> 's http_server \<Rightarrow> (nat \<Rightarrow> int) \<Rightarrow> string \<Rightarrow> string \<Rightarrow> http_body \<Rightarrow> 's kc_state \<Rightarrow> bool \<times> 's kc_state" where
  "kc_no_content C http clk meth path body k =
     (case kc_do C http clk meth path body k of (None, k1) \<Rightarrow> (False, k1) | (Some r, k1) \<Rightarrow> (hs_status r = 204, k1))"

definition kc_get :: "kc_config \<Rightarrow> 's http_server \<Rightarrow> (nat \<Rightarrow> int) \<Rightarrow> string \<Rightarrow> (json option \<Rightarrow> 'a option) \<Rightarrow> 's kc_state \<Rightarrow> 'a option \<times> 's kc_state" where
  "kc_get C http clk path dec k =
     (case kc_do C http clk ''GET'' path NoBody k of
        (None, k1) \<Rightarrow> (None, k1)
      | (Some r, k1) \<Rightarrow> (if hs_status r \<noteq> 200 then None else dec (hs_body r), k1))"

definition after_last_slash :: "string \<Rightarrow> string" where
  "after_last_slash s = rev (takeWhile (\<lambda>c. c \<noteq> CHR ''/'') (rev s))"

definition findUserIDByEmail :: "kc_config \<Rightarrow> 's http_server \<Rightarrow> (nat \<Rightarrow> int) \<Rightarrow> string \<Rightarrow> 's kc_state \<Rightarrow> string option \<times> 's kc_state" where
  "findUserIDByEmail C http clk email k =
     (case kc_get C http clk (''/users?email='' @ query_escape email @ ''&exact=true'') (decode_list decode_user) k of
        (None, k1) \<Rightarrow> (None, k1)
      | (Some us, k1) \<Rightarrow> (if us = [] then None else Some (u_id (hd us)), k1))"

definition http_CreateUser :: "kc_config \<Rightarrow> 's http_server \<Rightarrow> (nat \<Rightarrow> int) \<Rightarrow> create_spec \<Rightarrow> 's kc_state \<Rightarrow> (string \<times> bool) option \<times> 's kc_state" where
  "http_CreateUser C http clk spec k =
     (case splitDisplayName (cs_display_name spec) of (given, family) \<Rightarrow>
        case kc_do C http clk ''POST'' ''/users''
            (JsonBody (JObj [(''username'', JStr (cs_username spec)), (''email'', JStr (cs_email spec)), (''firstName'', JStr given),
                             (''lastName'', JStr family), (''enabled'', JBool True)])) k of
          (None, k1) \<Rightarrow> (None, k1)
        | (Some r, k1) \<Rightarrow>
            if hs_status r = 201 then
              (let uid = after_last_slash (hs_location r) in (if uid = [] then None else Some (uid, False), k1))
            else if hs_status r = 409 then
              (case findUserIDByEmail C http clk (cs_email spec) k1 of
                 (None, k2) \<Rightarrow> (None, k2)
               | (Some uid, k2) \<Rightarrow> (Some (uid, True), k2))
            else (None, k1))"

definition http_SetTemporaryPassword :: "kc_config \<Rightarrow> 's http_server \<Rightarrow> (nat \<Rightarrow> int) \<Rightarrow> string \<Rightarrow> string \<Rightarrow> 's kc_state \<Rightarrow> bool \<times> 's kc_state" where
  "http_SetTemporaryPassword C http clk uid password k =
     kc_no_content C http clk ''PUT'' (''/users/'' @ uid @ ''/reset-password'')
       (JsonBody (JObj [(''type'', JStr ''password''), (''value'', JStr password), (''temporary'', JBool True)])) k"

definition roleRep :: "kc_config \<Rightarrow> 's http_server \<Rightarrow> (nat \<Rightarrow> int) \<Rightarrow> string \<Rightarrow> 's kc_state \<Rightarrow> (string \<times> string) option \<times> 's kc_state" where
  "roleRep C http clk role k = kc_get C http clk (''/roles/'' @ path_escape role) decode_role k"

text \<open>Assigning and revoking differ in the method: the representation of the role is sent to the role mappings of the user.\<close>

definition role_mapping :: "kc_config \<Rightarrow> 's http_server \<Rightarrow> (nat \<Rightarrow> int) \<Rightarrow> string \<Rightarrow> string \<Rightarrow> string \<Rightarrow> 's kc_state \<Rightarrow> bool \<times> 's kc_state" where
  "role_mapping C http clk meth uid role k =
     (case roleRep C http clk role k of
        (None, k1) \<Rightarrow> (False, k1)
      | (Some (rid, name), k1) \<Rightarrow>
          kc_no_content C http clk meth (''/users/'' @ uid @ ''/role-mappings/realm'')
            (JsonBody (JArr [JObj [(''id'', JStr rid), (''name'', JStr name)]])) k1)"

definition http_AssignRealmRole :: "kc_config \<Rightarrow> 's http_server \<Rightarrow> (nat \<Rightarrow> int) \<Rightarrow> string \<Rightarrow> string \<Rightarrow> 's kc_state \<Rightarrow> bool \<times> 's kc_state" where
  "http_AssignRealmRole C http clk uid role k = role_mapping C http clk ''POST'' uid role k"

definition http_RevokeRealmRole :: "kc_config \<Rightarrow> 's http_server \<Rightarrow> (nat \<Rightarrow> int) \<Rightarrow> string \<Rightarrow> string \<Rightarrow> 's kc_state \<Rightarrow> bool \<times> 's kc_state" where
  "http_RevokeRealmRole C http clk uid role k = role_mapping C http clk ''DELETE'' uid role k"

definition userRoles :: "kc_config \<Rightarrow> 's http_server \<Rightarrow> (nat \<Rightarrow> int) \<Rightarrow> string \<Rightarrow> 's kc_state \<Rightarrow> string list option \<times> 's kc_state" where
  "userRoles C http clk uid k =
     (case kc_get C http clk (''/users/'' @ uid @ ''/role-mappings/realm'') (decode_list decode_role) k of
        (rs, k1) \<Rightarrow> (map_option (map snd) rs, k1))"

definition http_EnsureRealmRole :: "kc_config \<Rightarrow> 's http_server \<Rightarrow> (nat \<Rightarrow> int) \<Rightarrow> string \<Rightarrow> string \<Rightarrow> 's kc_state \<Rightarrow> bool \<times> 's kc_state" where
  "http_EnsureRealmRole C http clk uid role k =
     (case userRoles C http clk uid k of
        (None, k1) \<Rightarrow> (False, k1)
      | (Some roles, k1) \<Rightarrow> if role \<in> set roles then (True, k1) else http_AssignRealmRole C http clk uid role k1)"

definition http_SendActionsEmail :: "kc_config \<Rightarrow> 's http_server \<Rightarrow> (nat \<Rightarrow> int) \<Rightarrow> string \<Rightarrow> string list \<Rightarrow> 's kc_state \<Rightarrow> bool \<times> 's kc_state" where
  "http_SendActionsEmail C http clk uid actions k =
     kc_no_content C http clk ''PUT'' (''/users/'' @ uid @ ''/execute-actions-email'') (JsonBody (JArr (map JStr actions))) k"

text \<open>A user whose roles cannot be read is listed without roles.\<close>

fun list_loop :: "kc_config \<Rightarrow> 's http_server \<Rightarrow> (nat \<Rightarrow> int) \<Rightarrow> string \<Rightarrow> string \<Rightarrow> kc_user list \<Rightarrow> 's kc_state \<Rightarrow> kc_user list \<times> 's kc_state" where
  "list_loop C http clk search role [] k = ([], k)"
| "list_loop C http clk search role (u # us) k =
     (if search \<noteq> [] \<and> role \<noteq> [] \<and> \<not> str_contains (to_lower (u_username u @ '' '' @ u_email u)) (to_lower search)
      then list_loop C http clk search role us k
      else case userRoles C http clk (u_id u) k of (rs, k1) \<Rightarrow>
        case list_loop C http clk search role us k1 of (vs, k2) \<Rightarrow>
          (u\<lparr>u_roles := (case rs of None \<Rightarrow> [] | Some r \<Rightarrow> r)\<rparr> # vs, k2))"

definition list_path :: "string \<Rightarrow> string \<Rightarrow> nat \<Rightarrow> string" where
  "list_path search role mx =
     (if role \<noteq> [] then ''/roles/'' @ path_escape role @ ''/users?first=0&max='' @ show_nat mx
      else ''/users?first=0&max='' @ show_nat mx @ (if search \<noteq> [] then ''&search='' @ query_escape search else []))"

definition http_ListUsers :: "kc_config \<Rightarrow> 's http_server \<Rightarrow> (nat \<Rightarrow> int) \<Rightarrow> string \<Rightarrow> string \<Rightarrow> nat \<Rightarrow> 's kc_state \<Rightarrow> kc_user list option \<times> 's kc_state" where
  "http_ListUsers C http clk search role mx k =
     (let n = (if mx = 0 \<or> mx > 500 then 100 else mx) in
      case kc_get C http clk (list_path search role n) (decode_list decode_user) k of
        (None, k1) \<Rightarrow> (None, k1)
      | (Some us, k1) \<Rightarrow> (case list_loop C http clk search role us k1 of (vs, k2) \<Rightarrow> (Some vs, k2)))"

text \<open>The whole representation is read and written back. A body of \<open>null\<close> panics, which ends the request as an error does.\<close>

definition user_object :: "json option \<Rightarrow> (string \<times> json) list option" where
  "user_object j = (case j of Some (JObj fs) \<Rightarrow> Some fs | _ \<Rightarrow> None)"

definition http_SetEnabled :: "kc_config \<Rightarrow> 's http_server \<Rightarrow> (nat \<Rightarrow> int) \<Rightarrow> string \<Rightarrow> bool \<Rightarrow> 's kc_state \<Rightarrow> bool \<times> 's kc_state" where
  "http_SetEnabled C http clk uid enabled k =
     (case kc_get C http clk (''/users/'' @ uid) user_object k of
        (None, k1) \<Rightarrow> (False, k1)
      | (Some fs, k1) \<Rightarrow>
          kc_no_content C http clk ''PUT'' (''/users/'' @ uid)
            (JsonBody (JObj ((''enabled'', JBool enabled) # filter (\<lambda>f. fst f \<noteq> ''enabled'') fs))) k1)"

text \<open>The client behind the interface. A listing leaves the client as it was: the token it may have fetched is fetched again.\<close>

definition http_kc :: "kc_config \<Rightarrow> 's http_server \<Rightarrow> (nat \<Rightarrow> int) \<Rightarrow> 's kc_state kc_ops" where
  "http_kc C http clk =
     \<lparr>kc_CreateUser = (\<lambda>_. http_CreateUser C http clk), kc_SetTemporaryPassword = http_SetTemporaryPassword C http clk,
      kc_AssignRealmRole = http_AssignRealmRole C http clk, kc_EnsureRealmRole = http_EnsureRealmRole C http clk,
      kc_RevokeRealmRole = http_RevokeRealmRole C http clk, kc_SendActionsEmail = http_SendActionsEmail C http clk,
      kc_ListUsers = (\<lambda>search role mx k. fst (http_ListUsers C http clk search role mx k)),
      kc_SetEnabled = http_SetEnabled C http clk\<rparr>"

section \<open>Every request carries a fresh token\<close>

text \<open>The calls of the interface, at the instant they are made, and the states they lead to from a new client.\<close>

datatype kc_call =
    CallCreateUser create_spec
  | CallSetTemporaryPassword string string
  | CallAssignRealmRole string string
  | CallEnsureRealmRole string string
  | CallRevokeRealmRole string string
  | CallSendActionsEmail string "string list"
  | CallListUsers string string nat
  | CallSetEnabled string bool

fun kc_perform :: "kc_config \<Rightarrow> 's http_server \<Rightarrow> (nat \<Rightarrow> int) \<Rightarrow> kc_call \<Rightarrow> 's kc_state \<Rightarrow> 's kc_state" where
  "kc_perform C http clk (CallCreateUser spec) k = snd (http_CreateUser C http clk spec k)"
| "kc_perform C http clk (CallSetTemporaryPassword uid password) k = snd (http_SetTemporaryPassword C http clk uid password k)"
| "kc_perform C http clk (CallAssignRealmRole uid role) k = snd (http_AssignRealmRole C http clk uid role k)"
| "kc_perform C http clk (CallEnsureRealmRole uid role) k = snd (http_EnsureRealmRole C http clk uid role k)"
| "kc_perform C http clk (CallRevokeRealmRole uid role) k = snd (http_RevokeRealmRole C http clk uid role k)"
| "kc_perform C http clk (CallSendActionsEmail uid actions) k = snd (http_SendActionsEmail C http clk uid actions k)"
| "kc_perform C http clk (CallListUsers search role mx) k = snd (http_ListUsers C http clk search role mx k)"
| "kc_perform C http clk (CallSetEnabled uid enabled) k = snd (http_SetEnabled C http clk uid enabled k)"

inductive kc_reach :: "kc_config \<Rightarrow> 's http_server \<Rightarrow> (nat \<Rightarrow> int) \<Rightarrow> 's kc_state \<Rightarrow> bool" for C http clk where
  kc_new: "kc_reach C http clk \<lparr>kc_tok = [], kc_expr = e, kc_srv = s, kc_trace = []\<rparr>"
| kc_call: "kc_reach C http clk k \<Longrightarrow> kc_reach C http clk (kc_perform C http clk call k)"

text \<open>
  A token the server granted with its lifetime, in the exchange number \<open>j\<close>, and the reading of the clock that followed it;
  and a request that uses one in time, going by the reading just before it is sent.
\<close>

definition granted :: "kc_config \<Rightarrow> kc_event list \<Rightarrow> nat \<Rightarrow> int \<Rightarrow> string \<Rightarrow> int \<Rightarrow> bool" where
  "granted C tr j ta tok e \<longleftrightarrow> j + 1 < length tr \<and> tr ! (j + 1) = Clock ta \<and>
     (\<exists>ts r. tr ! j = Exchange ts (token_request C) (Some r) \<and> hs_status r = 200 \<and> decode_token (hs_body r) = Some (tok, e))"

definition in_time :: "kc_config \<Rightarrow> kc_event list \<Rightarrow> string \<Rightarrow> bool" where
  "in_time C tr tok \<longleftrightarrow> tok \<noteq> [] \<and> (\<exists>j ta e tc. granted C tr j ta tok e \<and> tr ! (length tr - 1) = Clock tc \<and>
     (length tr = j + 2 \<or> tc < ta + token_use e))"

definition fresh_request :: "kc_config \<Rightarrow> kc_event list \<Rightarrow> http_request \<Rightarrow> bool" where
  "fresh_request C tr q \<longleftrightarrow> q = token_request C \<or>
     (\<exists>path tok. hq_url q = kc_adminURL C @ ''/admin/realms/'' @ kc_realm C @ path \<and> hq_auth q = Some (bearer tok) \<and> in_time C tr tok)"

inductive disciplined :: "kc_config \<Rightarrow> kc_event list \<Rightarrow> bool" for C where
  disciplined_Nil: "disciplined C []"
| disciplined_clock: "disciplined C tr \<Longrightarrow> disciplined C (tr @ [Clock t])"
| disciplined_snoc: "disciplined C tr \<Longrightarrow> fresh_request C tr q \<Longrightarrow> disciplined C (tr @ [Exchange t q r])"

definition client_ok :: "kc_config \<Rightarrow> 's kc_state \<Rightarrow> bool" where
  "client_ok C k \<longleftrightarrow> disciplined C (kc_trace k) \<and>
     (kc_tok k \<noteq> [] \<longrightarrow> (\<exists>j ta e. granted C (kc_trace k) j ta (kc_tok k) e \<and> kc_expr k = ta + token_use e))"

lemma granted_append: "granted C tr j ta tok e \<Longrightarrow> granted C (tr @ us) j ta tok e"
  by (auto simp: granted_def nth_append)

lemma disciplined_nth:
  assumes "disciplined C tr" "i < length tr" "tr ! i = Exchange t q r"
  shows "fresh_request C (take i tr) q"
  using assms
proof (induction rule: disciplined.induct)
  case (disciplined_clock tr t')
  then show ?case by (cases "i = length tr") (auto simp: nth_append split: if_splits)
next
  case (disciplined_snoc tr q' t' r')
  then show ?case by (cases "i = length tr") (auto simp: nth_append split: if_splits)
qed simp

lemma send_ok:
  assumes "client_ok C k" "fresh_request C (kc_trace k) q" "kc_send http clk q k = (r, k1)"
  shows "client_ok C k1" "kc_trace k1 = kc_trace k @ [Exchange (clk (length (kc_trace k))) q r]" "kc_tok k1 = kc_tok k" "kc_expr k1 = kc_expr k"
proof -
  show tr: "kc_trace k1 = kc_trace k @ [Exchange (clk (length (kc_trace k))) q r]" "kc_tok k1 = kc_tok k" "kc_expr k1 = kc_expr k"
    using assms(3) by (auto simp: kc_send_def split: prod.splits)
  show "client_ok C k1"
    using assms(1,2) unfolding client_ok_def tr by (auto intro: disciplined_snoc granted_append)
qed

lemma time_ok:
  assumes "client_ok C k" "kc_time clk k = (t, k1)"
  shows "client_ok C k1" "kc_trace k1 = kc_trace k @ [Clock t]" "kc_tok k1 = kc_tok k" "kc_expr k1 = kc_expr k"
proof -
  show tr: "kc_trace k1 = kc_trace k @ [Clock t]" "kc_tok k1 = kc_tok k" "kc_expr k1 = kc_expr k"
    using assms(2) by (auto simp: kc_time_def Let_def)
  show "client_ok C k1"
    using assms(1) unfolding client_ok_def tr by (auto intro: disciplined_clock granted_append)
qed

lemma cached_token_ok:
  assumes "client_ok C k" "cached_token clk k = (r, k1)"
  shows "client_ok C k1" "r = Some tok \<Longrightarrow> in_time C (kc_trace k1) tok"
proof -
  have "client_ok C k1 \<and> (r = Some tok \<longrightarrow> in_time C (kc_trace k1) tok)"
  proof (cases "kc_tok k = []")
    case False
    obtain t k2 where t: "kc_time clk k = (t, k2)" by (rule prod.exhaust)
    note ok = time_ok [OF assms(1) t]
    from False assms(1) obtain j ta e where g: "granted C (kc_trace k) j ta (kc_tok k) e" "kc_expr k = ta + token_use e"
      by (auto simp: client_ok_def)
    have k1: "k1 = k2" "r = (if t < kc_expr k then Some (kc_tok k) else None)" using assms(2) False t ok(3,4) by (auto simp: cached_token_def)
    have "in_time C (kc_trace k2) (kc_tok k)" if "t < ta + token_use e"
      unfolding in_time_def ok(2) using granted_append [OF g(1)] False that by fastforce
    with k1 ok(1) g(2) show ?thesis by auto
  qed (use assms in \<open>simp add: cached_token_def\<close>)
  then show "client_ok C k1" "r = Some tok \<Longrightarrow> in_time C (kc_trace k1) tok" by blast+
qed

lemma nth_after: "(xs @ [a, b]) ! Suc (length xs) = b"
  by (induction xs) simp_all

lemma grant_ok:
  assumes "client_ok C k1" "kc_send http clk (token_request C) k1 = (Some x, k2)" "hs_status x = 200"
    "decode_token (hs_body x) = Some (tok, e)" "tok \<noteq> []" "kc_time clk k2 = (t, k3)"
  shows "client_ok C (k3\<lparr>kc_tok := tok, kc_expr := t + token_use e\<rparr>)" "in_time C (kc_trace k3) tok"
proof -
  have "fresh_request C (kc_trace k1) (token_request C)" by (simp add: fresh_request_def)
  note sent = send_ok [OF assms(1) this assms(2)]
  note dated = time_ok [OF sent(1) assms(6)]
  let ?j = "length (kc_trace k1)"
  have "kc_trace k3 ! (?j + 1) = Clock t" by (simp add: dated(2) sent(2) nth_after)
  moreover have "kc_trace k3 ! ?j = Exchange (clk ?j) (token_request C) (Some x)" by (simp add: dated(2) sent(2))
  ultimately have g: "granted C (kc_trace k3) ?j t tok e" using assms(3,4) unfolding granted_def by (simp add: dated(2) sent(2) nth_after)
  then show "client_ok C (k3\<lparr>kc_tok := tok, kc_expr := t + token_use e\<rparr>)" using dated(1) by (auto simp: client_ok_def)
  have "length (kc_trace k3) = ?j + 2" "kc_trace k3 ! (length (kc_trace k3) - 1) = Clock t" by (simp_all add: dated(2) sent(2) nth_after)
  with g assms(5) show "in_time C (kc_trace k3) tok" unfolding in_time_def by blast
qed

lemma accessToken_ok:
  assumes "client_ok C k" "accessToken C http clk k = (r, k')"
  shows "client_ok C k'" "r = Some tok \<Longrightarrow> in_time C (kc_trace k') tok"
proof -
  obtain c k1 where c: "cached_token clk k = (c, k1)" by (rule prod.exhaust)
  note k1 = cached_token_ok [OF assms(1) c]
  have "client_ok C k' \<and> (r = Some tok \<longrightarrow> in_time C (kc_trace k') tok)"
  proof (cases c)
    case (Some t)
    with assms(2) c k1 show ?thesis by (auto simp: accessToken_def)
  next
    case None
    obtain a k2 where s: "kc_send http clk (token_request C) k1 = (a, k2)" by (rule prod.exhaust)
    obtain t k3 where t: "kc_time clk k2 = (t, k3)" by (rule prod.exhaust)
    show ?thesis
    proof (cases "\<exists>x v e. a = Some x \<and> hs_status x = 200 \<and> decode_token (hs_body x) = Some (v, e) \<and> v \<noteq> []")
      case True
      then obtain x v e where x: "a = Some x" "hs_status x = 200" "decode_token (hs_body x) = Some (v, e)" "v \<noteq> []" by blast
      have "r = Some v" "k' = k3\<lparr>kc_tok := v, kc_expr := t + token_use e\<rparr>" using assms(2) c None s t x by (auto simp: accessToken_def)
      with grant_ok [OF k1(1) s [unfolded x(1)] x(2-4) t] show ?thesis by auto
    next
      case False
      then have "r = None" "k' = k2" using assms(2) c None s by (auto simp: accessToken_def split: option.splits if_splits)
      moreover have "client_ok C k2" by (rule send_ok(1) [OF k1(1) _ s]) (simp add: fresh_request_def)
      ultimately show ?thesis by simp
    qed
  qed
  then show "client_ok C k'" "r = Some tok \<Longrightarrow> in_time C (kc_trace k') tok" by blast+
qed

named_theorems client "operations keep the client well-behaved"

lemma kc_do_ok [client]:
  assumes "client_ok C k"
  shows "client_ok C (snd (kc_do C http clk meth path body k))"
proof -
  obtain r k1 where a: "accessToken C http clk k = (r, k1)" by (rule prod.exhaust)
  note ok = accessToken_ok [OF assms a]
  show ?thesis
  proof (cases r)
    case (Some tok)
    define q where "q = \<lparr>hq_method = meth, hq_url = kc_adminURL C @ ''/admin/realms/'' @ kc_realm C @ path, hq_auth = Some (bearer tok),
      hq_ctype = (if body = NoBody then [] else ''application/json''), hq_body = body\<rparr>"
    have "fresh_request C (kc_trace k1) q"
      unfolding fresh_request_def using ok(2) [OF Some] by (intro disjI2 exI [of _ path] exI [of _ tok]) (simp add: q_def)
    then have "client_ok C (snd (kc_send http clk q k1))" using send_ok(1) [OF ok(1)] by (metis prod.collapse)
    then show ?thesis by (simp add: kc_do_def a Some q_def)
  qed (simp add: kc_do_def a ok(1))
qed

lemma kc_do_okD: "kc_do C http clk meth path body k = (r, k1) \<Longrightarrow> client_ok C k \<Longrightarrow> client_ok C k1"
  using kc_do_ok [of C k http clk meth path body] by simp

lemma kc_no_content_ok [client]: "client_ok C k \<Longrightarrow> client_ok C (snd (kc_no_content C http clk meth path body k))"
  by (auto simp: kc_no_content_def split: prod.split option.split dest: kc_do_okD)

lemma kc_get_ok: "kc_get C http clk path dec k = (r, k1) \<Longrightarrow> client_ok C k \<Longrightarrow> client_ok C k1"
  by (auto simp: kc_get_def split: prod.splits option.splits dest: kc_do_okD)

lemma findUserIDByEmail_ok: "findUserIDByEmail C http clk email k = (r, k1) \<Longrightarrow> client_ok C k \<Longrightarrow> client_ok C k1"
  by (auto simp: findUserIDByEmail_def split: prod.splits option.splits dest: kc_get_ok)

lemma userRoles_ok: "userRoles C http clk uid k = (r, k1) \<Longrightarrow> client_ok C k \<Longrightarrow> client_ok C k1"
  by (auto simp: userRoles_def split: prod.splits dest: kc_get_ok)

lemma role_mapping_ok [client]: "client_ok C k \<Longrightarrow> client_ok C (snd (role_mapping C http clk meth uid role k))"
  by (auto simp: role_mapping_def roleRep_def split: prod.split option.split dest: kc_get_ok intro: kc_no_content_ok)

lemma list_loop_ok: "client_ok C k \<Longrightarrow> client_ok C (snd (list_loop C http clk search role us k))"
proof (induction us arbitrary: k)
  case (Cons u us)
  obtain rs k1 where "userRoles C http clk (u_id u) k = (rs, k1)" by (rule prod.exhaust)
  with Cons.IH [OF userRoles_ok [OF this Cons.prems]] Cons show ?case by (auto split: prod.split)
qed simp

lemma list_loop_okD: "list_loop C http clk search role us k = (r, k1) \<Longrightarrow> client_ok C k \<Longrightarrow> client_ok C k1"
  using list_loop_ok [of C k http clk search role us] by simp

lemma perform_ok:
  assumes "client_ok C k"
  shows "client_ok C (kc_perform C http clk call k)"
proof (cases call)
  case (CallCreateUser spec)
  then show ?thesis using assms
    by (auto simp: http_CreateUser_def Let_def split: prod.split option.split dest: kc_do_okD findUserIDByEmail_ok)
next
  case (CallEnsureRealmRole uid role)
  then show ?thesis using assms
    by (auto simp: http_EnsureRealmRole_def http_AssignRealmRole_def split: prod.split option.split dest: userRoles_ok intro: role_mapping_ok)
next
  case (CallListUsers search role mx)
  then show ?thesis using assms
    by (auto simp: http_ListUsers_def Let_def split: prod.split option.split dest: kc_get_ok list_loop_okD)
next
  case (CallSetEnabled uid enabled)
  then show ?thesis using assms
    by (auto simp: http_SetEnabled_def split: prod.split option.split dest: kc_get_ok intro: kc_no_content_ok)
qed (use assms in \<open>simp_all add: http_SetTemporaryPassword_def http_AssignRealmRole_def http_RevokeRealmRole_def http_SendActionsEmail_def client\<close>)

lemma reach_ok: "kc_reach C http clk k \<Longrightarrow> client_ok C k"
proof (induction rule: kc_reach.induct)
  case (kc_new e s)
  then show ?case by (simp add: client_ok_def disciplined_Nil)
qed (rule perform_ok)

lemma token_use_exact: "0 \<le> e \<Longrightarrow> e \<le> 9000000000 \<Longrightarrow> token_use e = (e - 30) * 1000000000"
proof -
  assume e: "0 \<le> e" "e \<le> 9000000000"
  have "i64 (e - 30) = e - 30" using e by (intro i64_id) (auto simp: in_i64_def)
  moreover have "i64 ((e - 30) * 1000000000) = (e - 30) * 1000000000" using e by (intro i64_id) (auto simp: in_i64_def)
  ultimately show ?thesis by (simp add: token_use_def)
qed

text \<open>
  C34. Whatever calls are made one after another, and however the server answers, every request the client has sent is
  either the request for a token, or one to the admin API of its realm with a bearer token that the server granted in
  an earlier exchange \<open>j\<close> with a lifetime of \<open>e\<close> seconds. The client read the clock right after that answer
  (\<open>ta\<close>) and right before the request (\<open>tc\<close>), and unless both are the same reading (the token has just been
  granted), the second lies before \<open>ta\<close> plus \<open>e - 30\<close> seconds. The lifetimes are taken to lie between 0 and
  9000000000 seconds: the computation of the expiry wraps around at 2 to the 63 nanoseconds. The request itself leaves after the
  reading \<open>tc\<close>, and the grant was made before the reading \<open>ta\<close>, so the thirty seconds are also what is left for
  these two delays. Concurrent calls share the cache under its mutex and are not interleaved here.
\<close>

theorem keycloak_tokens_fresh:
  assumes "kc_reach C http clk k" "i < length (kc_trace k)" "kc_trace k ! i = Exchange t q r"
    and "\<forall>ts r0 tok e. Exchange ts (token_request C) (Some r0) \<in> set (kc_trace k) \<longrightarrow>
      decode_token (hs_body r0) = Some (tok, e) \<longrightarrow> 0 \<le> e \<and> e \<le> 9000000000"
  shows "q = token_request C \<or>
    (\<exists>path tok j ts r0 ta e tc. hq_url q = kc_adminURL C @ ''/admin/realms/'' @ kc_realm C @ path \<and> hq_auth q = Some (bearer tok) \<and>
       tok \<noteq> [] \<and> j + 1 < i \<and> kc_trace k ! j = Exchange ts (token_request C) (Some r0) \<and> hs_status r0 = 200 \<and>
       decode_token (hs_body r0) = Some (tok, e) \<and> kc_trace k ! (j + 1) = Clock ta \<and> kc_trace k ! (i - 1) = Clock tc \<and>
       (i = j + 2 \<or> tc < ta + (e - 30) * 1000000000))"
proof (cases "q = token_request C")
  case False
  let ?tr = "take i (kc_trace k)"
  have "fresh_request C ?tr q" using disciplined_nth [OF _ assms(2,3)] reach_ok [OF assms(1)] by (simp add: client_ok_def)
  with False obtain path tok where q: "hq_url q = kc_adminURL C @ ''/admin/realms/'' @ kc_realm C @ path" "hq_auth q = Some (bearer tok)"
    and "in_time C ?tr tok" by (auto simp: fresh_request_def)
  then obtain j ta e tc where tok: "tok \<noteq> []" and g: "granted C ?tr j ta tok e" and tc: "?tr ! (length ?tr - 1) = Clock tc"
    and use: "length ?tr = j + 2 \<or> tc < ta + token_use e" by (auto simp: in_time_def)
  have len: "length ?tr = i" using assms(2) by simp
  from g len obtain ts r0 where j: "j + 1 < i" "kc_trace k ! j = Exchange ts (token_request C) (Some r0)" "hs_status r0 = 200"
    "decode_token (hs_body r0) = Some (tok, e)" "kc_trace k ! (j + 1) = Clock ta" by (auto simp: granted_def)
  have "kc_trace k ! j \<in> set (kc_trace k)" using j(1) assms(2) by simp
  then have "0 \<le> e \<and> e \<le> 9000000000" using assms(4) j(2,4) by simp
  then have "token_use e = (e - 30) * 1000000000" using token_use_exact by simp
  moreover have "kc_trace k ! (i - 1) = Clock tc" using tc j(1) len by simp
  ultimately show ?thesis using q tok j use len by metis
qed simp

section \<open>Addresses\<close>

text \<open>What a server reads from an escaped query value.\<close>

definition hex_value :: "char \<Rightarrow> nat" where
  "hex_value c = (let n = of_char c in if n < 58 then n - 48 else n - 55)"

fun query_unescape :: "string \<Rightarrow> string" where
  "query_unescape (c # a # b # cs) =
     (if c = CHR ''%'' then char_of (hex_value a * 16 + hex_value b) # query_unescape cs
      else (if c = CHR ''+'' then CHR '' '' else c) # query_unescape (a # b # cs))"
| "query_unescape (c # cs) = (if c = CHR ''+'' then CHR '' '' else c) # query_unescape cs"
| "query_unescape [] = []"

lemma hex_value_upper: "d < 16 \<Longrightarrow> hex_value (upper_hex d) = d"
  by (simp add: hex_value_def upper_hex_def)

lemma char_byte: "(of_char c :: nat) < 256" "(of_char c :: nat) div 16 < 16"
proof -
  show "(of_char c :: nat) < 256" by (cases c) (simp add: of_char_def split: if_splits)
  then show "(of_char c :: nat) div 16 < 16" by (simp add: less_mult_imp_div_less)
qed

lemma percent_unescape: "query_unescape (percent c @ cs) = c # query_unescape cs"
  using char_byte [of c] by (simp add: percent_def hex_value_upper)

lemma plain_unescape: "c \<noteq> CHR ''%'' \<Longrightarrow> query_unescape (c # cs) = (if c = CHR ''+'' then CHR '' '' else c) # query_unescape cs"
  by (cases cs rule: query_unescape.cases) (auto split: if_splits)

lemma unreserved_plain: "unreserved c \<Longrightarrow> c \<noteq> CHR ''%'' \<and> c \<noteq> CHR ''+'' \<and> c \<noteq> CHR ''&''"
  by (auto simp: unreserved_def Let_def)

text \<open>The value looked up is the value given: an address with separators in it cannot change the query.\<close>

lemma query_escape_exact: "query_unescape (query_escape s) = s" "CHR ''&'' \<notin> set (query_escape s)"
proof -
  show "query_unescape (query_escape s) = s"
  proof (induction s)
    case (Cons c s)
    have step: "query_escape (c # s) = (if unreserved c then [c] else if c = CHR '' '' then ''+'' else percent c) @ query_escape s"
      by (simp add: query_escape_def)
    show ?case
      unfolding step using Cons.IH unreserved_plain [of c]
      by (cases "unreserved c"; cases "c = CHR '' ''") (simp_all add: plain_unescape percent_unescape)
  qed (simp add: query_escape_def)
  have "CHR ''&'' \<noteq> upper_hex d" if "d < 16" for d
  proof
    assume "CHR ''&'' = upper_hex d"
    then have "of_char CHR ''&'' = (of_char (upper_hex d) :: nat)" by simp
    with that show False by (simp add: upper_hex_def split: if_splits)
  qed
  then have "CHR ''&'' \<notin> set (percent c)" for c using char_byte [of c] by (auto simp: percent_def)
  then show "CHR ''&'' \<notin> set (query_escape s)" using unreserved_plain by (auto simp: query_escape_def split: if_splits)
qed

text \<open>
  User ids are not escaped. The request that revokes a role of \<open>u1?\<close> is a deletion whose path is that of the user
  \<open>u1\<close>, and the guard against disabling the last administrator does not recognise the id.
\<close>

definition url_path :: "string \<Rightarrow> string" where
  "url_path u = takeWhile (\<lambda>c. c \<noteq> CHR ''?'') u"

lemma user_id_escapes_path:
  assumes "CHR ''?'' \<notin> set (kc_adminURL C @ kc_realm C @ uid)"
  shows "url_path (kc_adminURL C @ ''/admin/realms/'' @ kc_realm C @ ''/users/'' @ (uid @ ''?'') @ ''/role-mappings/realm'') =
    kc_adminURL C @ ''/admin/realms/'' @ kc_realm C @ ''/users/'' @ uid"
  using assms by (simp add: url_path_def takeWhile_append)

lemma question_mark_passes_guard:
  assumes "kc_ListUsers K [] ''platform-admin'' 1000 k = Some us" "\<forall>u \<in> set us. u_id u \<noteq> uid @ ''?''" "uid @ ''?'' \<noteq> Subject c"
  shows "disable_check K c (uid @ ''?'') k = None"
proof -
  have "\<not> (\<exists>a \<in> set us. u_id a = uid @ ''?'' \<and> u_enabled a)" using assms(2) by blast
  then show ?thesis using assms(1,3) by (simp add: disable_check_def soleEnabledPlatformAdmin_def)
qed

text \<open>More than 500 users asked for are 100: the guard asks for 1000 administrators and sees a hundred.\<close>

lemma thousand_is_hundred: "http_ListUsers C http clk search role 1000 k = http_ListUsers C http clk search role 100 k"
  by (simp add: http_ListUsers_def)

section \<open>A worked example\<close>

definition demo_config :: kc_config where
  "demo_config = \<lparr>kc_adminURL = ''http://kc'', kc_realm = ''h2fleet'', kc_clientID = ''admin'', kc_clientSecret = ''s''\<rparr>"

definition demo_server :: "unit http_server" where
  "demo_server q s =
     (if q = token_request demo_config
      then (Some \<lparr>hs_status = 200, hs_location = [], hs_body = Some (JObj [(''access_token'', JStr ''T''), (''expires_in'', JNum 300)])\<rparr>, s)
      else (Some \<lparr>hs_status = 204, hs_location = [], hs_body = None\<rparr>, s))"

text \<open>Two calls two minutes apart: the second uses the token of the first.\<close>

definition demo_clock :: "nat \<Rightarrow> int" where
  "demo_clock n = (if n < 3 then 7 + int n else 120000000007 + int n)"

definition demo_call :: kc_call where
  "demo_call = CallSendActionsEmail ''u1'' [''UPDATE_PASSWORD'']"

definition demo_state :: "unit kc_state" where
  "demo_state = kc_perform demo_config demo_server demo_clock demo_call (kc_perform demo_config demo_server demo_clock demo_call
     \<lparr>kc_tok = [], kc_expr = 0, kc_srv = (), kc_trace = []\<rparr>)"

definition demo_grant :: http_response where
  "demo_grant = \<lparr>hs_status = 200, hs_location = [], hs_body = Some (JObj [(''access_token'', JStr ''T''), (''expires_in'', JNum 300)])\<rparr>"

definition demo_mail :: http_request where
  "demo_mail = \<lparr>hq_method = ''PUT'', hq_url = ''http://kc/admin/realms/h2fleet/users/u1/execute-actions-email'', hq_auth = Some ''Bearer T'',
     hq_ctype = ''application/json'', hq_body = JsonBody (JArr [JStr ''UPDATE_PASSWORD''])\<rparr>"

definition demo_sent :: http_response where
  "demo_sent = \<lparr>hs_status = 204, hs_location = [], hs_body = None\<rparr>"

lemma demo_trace:
  "kc_trace demo_state = [Exchange 7 (token_request demo_config) (Some demo_grant), Clock 8, Exchange 9 demo_mail (Some demo_sent),
     Clock 120000000010, Exchange 120000000011 demo_mail (Some demo_sent)]"
  by (simp add: demo_state_def demo_call_def demo_clock_def demo_grant_def demo_mail_def demo_sent_def http_SendActionsEmail_def
      kc_no_content_def kc_do_def accessToken_def cached_token_def kc_time_def kc_send_def demo_server_def demo_config_def bearer_def
      decode_token_def json_fields_def equal_fold_def to_lower_def token_request_def in_i64_def token_use_def i64_def Let_def)

lemma demo_mail_token: "demo_mail \<noteq> token_request demo_config"
  by (simp add: demo_mail_def token_request_def)

lemma demo_decode: "decode_token (hs_body demo_grant) = Some (''T'', 300)"
  by (simp add: demo_grant_def decode_token_def json_fields_def equal_fold_def to_lower_def in_i64_def)

theorem keycloak_tokens_fresh_witness:
  "\<exists>path tok j ts r0 ta e tc. hq_url demo_mail = kc_adminURL demo_config @ ''/admin/realms/'' @ kc_realm demo_config @ path \<and>
     hq_auth demo_mail = Some (bearer tok) \<and> tok \<noteq> [] \<and> j + 1 < 4 \<and>
     kc_trace demo_state ! j = Exchange ts (token_request demo_config) (Some r0) \<and> hs_status r0 = 200 \<and>
     decode_token (hs_body r0) = Some (tok, e) \<and> kc_trace demo_state ! (j + 1) = Clock ta \<and> kc_trace demo_state ! (4 - 1) = Clock tc \<and>
     (4 = j + 2 \<or> tc < ta + (e - 30) * 1000000000)"
proof -
  have reach: "kc_reach demo_config demo_server demo_clock demo_state" unfolding demo_state_def by (intro kc_call kc_new)
  have i: "4 < length (kc_trace demo_state)" "kc_trace demo_state ! 4 = Exchange 120000000011 demo_mail (Some demo_sent)"
    by (simp_all add: demo_trace)
  have life: "\<forall>ts r0 tok e. Exchange ts (token_request demo_config) (Some r0) \<in> set (kc_trace demo_state) \<longrightarrow>
      decode_token (hs_body r0) = Some (tok, e) \<longrightarrow> 0 \<le> e \<and> e \<le> 9000000000"
    using demo_mail_token demo_decode by (auto simp: demo_trace)
  show ?thesis by (rule disjE [OF keycloak_tokens_fresh [OF reach i life]]) (simp_all only: demo_mail_token)
qed

end
