(* ===== verification/Operations.thy ===== *)
theory Operations
  imports Compliance Toggles Drt "HOL-Library.Product_Lexorder" "HOL-Library.Multiset"
begin

text \<open>
  The dashboards: the KPI sources and their concurrent aggregation, the health sweep, alert feed and toggle view of
  admin-api (src/services/go/admin-api/internal/kpi, internal/ops, internal/modules), the city KPIs of commerce-api
  (handlers/dashboard.go) and the carbon ledger of citizen-api (handlers/carbon.go). Goroutines that
  deliver into one channel are a list of results in the order of their arrival. \<open>fl\<close> rounds to \<open>float64\<close>. The
  configured addresses of other services are well-formed.
\<close>

section \<open>The carbon ledger\<close>

record carbon_row =
  cb_id :: string
  cb_period :: string
  cb_kg_co2_avoided :: rat
  cb_credits :: rat
  cb_issued_at :: int

record ops_store =
  os_commerce :: "unit store"
  os_fleet :: fleet_store
  os_safety :: safety_store
  os_drt :: drt_store
  carbon_credits :: "carbon_row list"

definition ListCarbonCredits :: "db_env \<Rightarrow> string \<Rightarrow> ops_store \<Rightarrow> carbon_row list resp" where
  "ListCarbonCredits E period s =
     (if no_db E then no_db_err
      else if fault E ''list carbon credits'' then Internal ''list carbon credits''
      else if fault E ''scan carbon credit'' then Internal ''scan carbon credit''
      else if fault E ''iterate carbon credits'' then Internal ''iterate carbon credits''
      else Reply 200 (newest cb_issued_at 200 (filter (\<lambda>c. period \<noteq> [] \<longrightarrow> cb_period c = period) (carbon_credits s))))"

definition carbon_kg :: "ops_store \<Rightarrow> rat" where
  "carbon_kg s = sum_list (map cb_kg_co2_avoided (carbon_credits s))"

definition CarbonSummary :: "db_env \<Rightarrow> (rat \<Rightarrow> rat) \<Rightarrow> ops_store \<Rightarrow> (rat \<times> rat \<times> nat) resp" where
  "CarbonSummary E fl s =
     (if no_db E then no_db_err
      else if fault E ''carbon summary'' then Internal ''carbon summary''
      else Reply 200 (fl (carbon_kg s), fl (sum_list (map cb_credits (carbon_credits s))), length (remdups (map cb_period (carbon_credits s)))))"

section \<open>City KPIs\<close>

record gov_kpis =
  gk_revenue_30d :: "int option"
  gk_settled_payments_30d :: "nat option"
  gk_ridership_30d :: "nat option"
  gk_kg_co2 :: "rat option"
  gk_credits :: "rat option"
  gk_vehicles_total :: "nat option"
  gk_vehicles_active :: "nat option"
  gk_active_ratio_pct :: "rat option"
  gk_uptime_pct :: "rat option"
  gk_stations_kg :: "rat option"
  gk_open_incidents :: "nat option"
  gk_partial :: bool
  gk_degraded :: "string list"

definition settled_30d :: "db_env \<Rightarrow> ops_store \<Rightarrow> payment list" where
  "settled_30d E s = filter (\<lambda>p. p_status p = ''settled'' \<and> now E - 30 * day < p_created_at p) (fare_payments (os_commerce s))"

definition pct :: "(rat \<Rightarrow> rat) \<Rightarrow> nat \<Rightarrow> nat \<Rightarrow> rat option" where
  "pct fl n all = (if all > 0 then Some (fl (fl (of_nat n / of_nat all) * 100)) else None)"

definition minute :: int where "minute = 60 * 1000000000"

text \<open>The sum is scanned into an \<open>int64\<close>.\<close>

definition fares_down :: "db_env \<Rightarrow> ops_store \<Rightarrow> bool" where
  "fares_down E s \<longleftrightarrow> fault E ''fare-payments'' \<or> \<not> in_i64 (sum_list (map p_amount_minor (settled_30d E s)))"

definition gov_degraded :: "db_env \<Rightarrow> ops_store \<Rightarrow> string list" where
  "gov_degraded E s =
     (if fares_down E s then [''fare-payments''] else []) @ (if fault E ''carbon'' then [''carbon''] else []) @
     (if fault E ''fleet'' then [''fleet''] else if fault E ''fleet-telemetry'' then [''fleet-telemetry''] else []) @
     (if fault E ''stations'' then [''stations''] else []) @ (if fault E ''incidents'' then [''incidents''] else [])"

definition GetGovKPIs :: "db_env \<Rightarrow> (rat \<Rightarrow> rat) \<Rightarrow> ops_store \<Rightarrow> gov_kpis resp" where
  "GetGovKPIs E fl s =
     (let settled = settled_30d E s;
          fares = (\<lambda>v. if fares_down E s then None else Some v);
          vs = vehicles (os_fleet s);
          active = length (filter (\<lambda>v. vh_status v = ''active'') vs);
          seen = length (remdups (map tl_bus_id (filter (\<lambda>t. now E - 15 * minute < tl_ts t) (fleet_telemetry (os_fleet s)))));
          degraded = gov_degraded E s in
      Reply 200
        \<lparr>gk_revenue_30d = (if fares_down E s then None else Some (sum_list (map p_amount_minor settled))),
         gk_settled_payments_30d = fares (length settled), gk_ridership_30d = fares (length settled),
         gk_kg_co2 = (if fault E ''carbon'' then None else Some (fl (carbon_kg s))),
         gk_credits = (if fault E ''carbon'' then None else Some (fl (sum_list (map cb_credits (carbon_credits s))))),
         gk_vehicles_total = (if fault E ''fleet'' then None else Some (length vs)),
         gk_vehicles_active = (if fault E ''fleet'' then None else Some active),
         gk_active_ratio_pct = (if fault E ''fleet'' then None else pct fl active (length vs)),
         gk_uptime_pct = (if fault E ''fleet'' \<or> fault E ''fleet-telemetry'' then None else pct fl seen (length vs)),
         gk_stations_kg = (if fault E ''stations'' then None
           else Some (fl (sum_list (List.map_filter fs_available_kg (fuel_stations (sf_queue (os_safety s))))))),
         gk_open_incidents = (if fault E ''incidents'' then None else Some (length (filter unresolved (incidents (os_safety s))))),
         gk_partial = (degraded \<noteq> []), gk_degraded = degraded\<rparr>)"

section \<open>The modules\<close>

record module_info =
  mi_domain :: string
  mi_services :: "string list"

definition mk_info :: "string \<Rightarrow> string list \<Rightarrow> module_info" where
  "mk_info d services = \<lparr>mi_domain = d, mi_services = services\<rparr>"

definition Registry :: "(string \<times> module_info) list" where
  "Registry =
     [(''telematics'', mk_info ''fleet'' [''fleet-api'', ''telemetry-ingest'']),
      (''predictive-maintenance'', mk_info ''fleet'' [''fleet-api'', ''predictive-maintenance'']),
      (''digital-twin'', mk_info ''fleet'' [''fleet-api'', ''digital-twin'']),
      (''fuel-monitoring'', mk_info ''fleet'' [''fleet-api'', ''telemetry-ingest'']),
      (''route-energy-optimizer'', mk_info ''fleet'' [''fleet-api'', ''route-optimizer'']),
      (''refueling-stations'', mk_info ''infra'' [''infra-api'']), (''leak-detection'', mk_info ''infra'' [''infra-api'']),
      (''dispatch-workforce'', mk_info ''infra'' [''infra-api'']), (''compliance-reporting'', mk_info ''infra'' [''infra-api'']),
      (''depot-management'', mk_info ''infra'' [''infra-api'']),
      (''passenger-pwa'', mk_info ''citizen'' [''citizen-api'', ''pwa'']), (''mobile-app'', mk_info ''citizen'' [''citizen-api'', ''mobile-app'']),
      (''demand-responsive'', mk_info ''citizen'' [''citizen-api'']), (''carbon-credits'', mk_info ''citizen'' [''citizen-api'', ''carbon-analytics'']),
      (''open-data-portal'', mk_info ''citizen'' [''citizen-api'']),
      (''fare-payments'', mk_info ''commerce'' [''commerce-api'']), (''loyalty-marketplace'', mk_info ''commerce'' [''commerce-api'']),
      (''energy-trading'', mk_info ''commerce'' [''commerce-api'']), (''gov-dashboard'', mk_info ''commerce'' [''commerce-api'', ''pwa'']),
      (''advertising'', mk_info ''commerce'' [''commerce-api''])]"

definition Domains :: "string list" where
  "Domains = [''fleet'', ''infra'', ''citizen'', ''commerce'']"

definition DomainOf :: "string \<Rightarrow> string" where
  "DomainOf modul = (case map_of Registry modul of Some i \<Rightarrow> mi_domain i | None \<Rightarrow> ''unknown'')"

section \<open>The KPI sources\<close>

datatype kpi_data =
    FleetKPIs nat nat rat
  | InfraKPIs nat
  | CitizenKPIs nat rat
  | CommerceKPIs nat int string
  | ToggleKPIs nat nat "string \<Rightarrow> nat \<times> nat"

definition FleetSource :: "db_env \<Rightarrow> (rat \<Rightarrow> rat) \<Rightarrow> ops_store \<Rightarrow> kpi_data option" where
  "FleetSource E fl s =
     (if fault E ''fleet availability'' \<or> fault E ''telemetry rate'' then None
      else Some (FleetKPIs (length (vehicles (os_fleet s))) (length (filter (\<lambda>v. vh_status v = ''active'') (vehicles (os_fleet s))))
        (fl (of_nat (length (filter (\<lambda>t. now E - 5 * minute \<le> tl_ts t) (fleet_telemetry (os_fleet s)))) / 5))))"

definition InfraSource :: "db_env \<Rightarrow> ops_store \<Rightarrow> kpi_data option" where
  "InfraSource E s =
     (if fault E ''open incidents'' then None
      else Some (InfraKPIs (length (filter (\<lambda>i. in_status i \<in> {''open'', ''acknowledged''}) (incidents (os_safety s))))))"

text \<open>\<open>date_trunc('day', now())\<close> is the midnight of the zone \<open>tz\<close> of the database session.\<close>

definition CitizenSource :: "db_env \<Rightarrow> string \<Rightarrow> (rat \<Rightarrow> rat) \<Rightarrow> ops_store \<Rightarrow> kpi_data option" where
  "CitizenSource E tz fl s =
     (if fault E ''drt requests today'' \<or> fault E ''carbon total'' then None
      else Some (CitizenKPIs (length (filter (\<lambda>d. day_start E tz (now E) \<le> rq_requested_at d) (drt_requests (os_drt s)))) (fl (carbon_kg s))))"

definition recent_payments :: "db_env \<Rightarrow> ops_store \<Rightarrow> payment list" where
  "recent_payments E s = filter (\<lambda>p. now E - 30 * day \<le> p_created_at p) (fare_payments (os_commerce s))"

definition CommerceSource :: "db_env \<Rightarrow> ops_store \<Rightarrow> kpi_data option" where
  "CommerceSource E s =
     (let rows = recent_payments E s; revenue = sum_list (map p_amount_minor (filter (\<lambda>p. p_status p = ''settled'') rows)) in
      if fault E ''payments 30d'' \<or> \<not> in_i64 revenue \<or> fault E ''payments currency'' then None
      else Some (CommerceKPIs (length rows) revenue (case newest p_created_at 1 rows of [] \<Rightarrow> [] | p # _ \<Rightarrow> p_currency p)))"

text \<open>The toggle service's answer: the status and the decoded toggles, in the order the map is iterated.\<close>

type_synonym toggles_answer = "(nat \<times> (string \<times> bool) list option) option"

fun count_toggles :: "(string \<times> bool) list \<Rightarrow> nat \<times> nat \<times> (string \<Rightarrow> nat \<times> nat) \<Rightarrow> nat \<times> nat \<times> (string \<Rightarrow> nat \<times> nat)" where
  "count_toggles [] acc = acc"
| "count_toggles ((modul, on) # ts) (enabled, known, doms) =
     (let d = DomainOf modul; e = (if on then 1 else 0) in
      count_toggles ts (enabled + e, known + 1, doms(d := (fst (doms d) + e, snd (doms d) + 1))))"

definition ToggleSource :: "toggles_answer \<Rightarrow> kpi_data option" where
  "ToggleSource answer =
     (case answer of
        None \<Rightarrow> None
      | Some (status, body) \<Rightarrow>
          if status \<noteq> 200 then None
          else map_option (\<lambda>ts. case count_toggles ts (0, 0, \<lambda>_. (0, 0)) of (enabled, known, doms) \<Rightarrow> ToggleKPIs enabled known doms) body)"

section \<open>The aggregation\<close>

record kpi_response =
  kr_generated_at :: int
  kr_fleet :: "kpi_data option"
  kr_infra :: "kpi_data option"
  kr_citizen :: "kpi_data option"
  kr_commerce :: "kpi_data option"
  kr_toggles :: "kpi_data option"
  kr_partial :: bool
  kr_degraded :: "string list"

definition place_section :: "string \<times> kpi_data option \<Rightarrow> kpi_response \<Rightarrow> kpi_response" where
  "place_section r resp =
     (case snd r of
        None \<Rightarrow> resp\<lparr>kr_degraded := kr_degraded resp @ [fst r]\<rparr>
      | Some d \<Rightarrow>
          if fst r = ''fleet'' then resp\<lparr>kr_fleet := Some d\<rparr>
          else if fst r = ''infra'' then resp\<lparr>kr_infra := Some d\<rparr>
          else if fst r = ''citizen'' then resp\<lparr>kr_citizen := Some d\<rparr>
          else if fst r = ''commerce'' then resp\<lparr>kr_commerce := Some d\<rparr>
          else if fst r = ''toggles'' then resp\<lparr>kr_toggles := Some d\<rparr>
          else resp)"

definition kpi_Collect :: "int \<Rightarrow> (string \<times> kpi_data option) list \<Rightarrow> kpi_response" where
  "kpi_Collect clk results =
     (let resp = fold place_section results \<lparr>kr_generated_at = clk, kr_fleet = None, kr_infra = None, kr_citizen = None,
            kr_commerce = None, kr_toggles = None, kr_partial = False, kr_degraded = []\<rparr> in
      resp\<lparr>kr_degraded := sort (kr_degraded resp), kr_partial := kr_degraded resp \<noteq> []\<rparr>)"

text \<open>The five sources of the server, in any order of arrival.\<close>

definition kpi_sources :: "db_env \<Rightarrow> string \<Rightarrow> (rat \<Rightarrow> rat) \<Rightarrow> toggles_answer \<Rightarrow> ops_store \<Rightarrow> (string \<times> kpi_data option) list" where
  "kpi_sources E tz fl answer s =
     [(''fleet'', FleetSource E fl s), (''infra'', InfraSource E s), (''citizen'', CitizenSource E tz fl s),
      (''commerce'', CommerceSource E s), (''toggles'', ToggleSource answer)]"

section \<open>Health, alerts and toggles\<close>

record health_target =
  ht_name :: string
  ht_kind :: string
  ht_addr :: string

record health_check =
  hc_name :: string
  hc_kind :: string
  hc_target :: string
  hc_status :: string
  hc_latency_ms :: int

text \<open>\<open>dial\<close>: the endpoint accepts a connection in time; \<open>get\<close>: the status of an HTTP answer in time; \<open>took\<close>: the time it took.\<close>

definition health_probe ::
  "(string \<Rightarrow> bool) \<Rightarrow> (string \<Rightarrow> nat option) \<Rightarrow> (string \<Rightarrow> int) \<Rightarrow> health_target \<Rightarrow> health_check" where
  "health_probe dial get took t =
     (let up = (if ht_kind t = ''tcp'' then dial (ht_addr t)
                else (case get (ht_addr t @ ''/healthz'') of None \<Rightarrow> False | Some st \<Rightarrow> 200 \<le> st \<and> st < 300)) in
      \<lparr>hc_name = ht_name t, hc_kind = ht_kind t, hc_target = ht_addr t, hc_status = (if up then ''up'' else ''down''),
       hc_latency_ms = took (ht_addr t)\<rparr>)"

text \<open>The checks by name; targets have different names.\<close>

definition SweepHealth ::
  "(string \<Rightarrow> bool) \<Rightarrow> (string \<Rightarrow> nat option) \<Rightarrow> (string \<Rightarrow> int) \<Rightarrow> health_target list \<Rightarrow> health_check list \<times> nat \<times> nat" where
  "SweepHealth dial get took targets =
     (let checks = map (health_probe dial get took) targets in
      (sort_key hc_name checks, length (filter (\<lambda>c. hc_status c = ''up'') checks), length (filter (\<lambda>c. hc_status c \<noteq> ''up'') checks)))"

text \<open>Alertmanager's answer, its body cut at 4 MiB; \<open>valid\<close> is \<open>json.Valid\<close>. The feed is passed on or says that it is degraded.\<close>

datatype alerts_feed = AlertsBody string | AlertsDegraded

definition Alerts :: "(string \<Rightarrow> bool) \<Rightarrow> (nat \<times> string option) option \<Rightarrow> alerts_feed resp" where
  "Alerts valid answer =
     (case answer of
        Some (status, Some body) \<Rightarrow>
          if status = 200 \<and> valid (take 4194304 body) then Reply 200 (AlertsBody (take 4194304 body)) else Reply 200 AlertsDegraded
      | _ \<Rightarrow> Reply 200 AlertsDegraded)"

record toggle_view =
  tv_module :: string
  tv_domain :: string
  tv_enabled :: bool
  tv_services :: "string list"

definition view_of :: "string \<times> bool \<Rightarrow> toggle_view" where
  "view_of t =
     (case map_of Registry (fst t) of
        Some i \<Rightarrow> \<lparr>tv_module = fst t, tv_domain = mi_domain i, tv_enabled = snd t, tv_services = mi_services i\<rparr>
      | None \<Rightarrow> \<lparr>tv_module = fst t, tv_domain = ''unknown'', tv_enabled = snd t, tv_services = []\<rparr>)"

definition ops_ListToggles :: "toggles_answer \<Rightarrow> toggle_view list resp" where
  "ops_ListToggles answer =
     (case answer of
        None \<Rightarrow> Err 502 ''toggle-service unreachable''
      | Some (status, body) \<Rightarrow>
          if status \<noteq> 200 then Err 502 ''toggle-service returned non-OK status''
          else (case body of
             None \<Rightarrow> Err 502 ''toggle-service returned malformed payload''
           | Some ts \<Rightarrow> Reply 200 (sort_key (\<lambda>v. (tv_domain v, tv_module v)) (map view_of ts))))"

text \<open>The change is forwarded with the caller's authorization header and the answer passed back; \<open>None\<close> is a body over 1 MiB.\<close>

definition UpdateToggle ::
  "(string \<Rightarrow> string \<Rightarrow> string option \<Rightarrow> 's \<Rightarrow> (nat \<times> string) option \<times> 's) \<Rightarrow> string \<Rightarrow> string \<Rightarrow> string option \<Rightarrow> 's \<Rightarrow> string resp \<times> 's" where
  "UpdateToggle forward modul authz body s =
     (if map_of Registry modul = None then (Err 404 (''unknown module: '' @ modul), s)
      else case body of
        None \<Rightarrow> (Err 400 ''failed to read body'', s)
      | Some b \<Rightarrow>
          (case forward (''/v1/toggles/'' @ modul) b (if authz = [] then None else Some authz) s of
             (None, t) \<Rightarrow> (Err 502 ''toggle-service unreachable'', t)
           | (Some (status, answer), t) \<Rightarrow> (Reply status (take 1048576 answer), t)))"

section \<open>The order of arrival does not matter\<close>

lemma fold_sections:
  assumes "distinct (map fst rs)"
  shows "kr_fleet (fold place_section rs r) = (case map_of rs ''fleet'' of Some (Some d) \<Rightarrow> Some d | _ \<Rightarrow> kr_fleet r)"
    "kr_infra (fold place_section rs r) = (case map_of rs ''infra'' of Some (Some d) \<Rightarrow> Some d | _ \<Rightarrow> kr_infra r)"
    "kr_citizen (fold place_section rs r) = (case map_of rs ''citizen'' of Some (Some d) \<Rightarrow> Some d | _ \<Rightarrow> kr_citizen r)"
    "kr_commerce (fold place_section rs r) = (case map_of rs ''commerce'' of Some (Some d) \<Rightarrow> Some d | _ \<Rightarrow> kr_commerce r)"
    "kr_toggles (fold place_section rs r) = (case map_of rs ''toggles'' of Some (Some d) \<Rightarrow> Some d | _ \<Rightarrow> kr_toggles r)"
proof -
  have notin: "map_of xs k = None" if "k \<notin> fst ` set xs" for xs :: "(string \<times> kpi_data option) list" and k
    using that by (simp add: map_of_eq_None_iff)
  have step: "distinct (map fst rs) \<Longrightarrow> f (fold place_section rs r) = (case map_of rs n of Some (Some d) \<Rightarrow> Some d | _ \<Rightarrow> f r)"
    if f: "\<And>x r. f (place_section x r) = (if fst x = n then (case snd x of None \<Rightarrow> f r | Some d \<Rightarrow> Some d) else f r)" for f n
  proof (induction rs arbitrary: r)
    case (Cons x rs)
    then show ?case by (cases "fst x = n"; cases "snd x") (simp_all add: f notin split: option.split)
  qed simp
  note [simp] = place_section_def
  show "kr_fleet (fold place_section rs r) = (case map_of rs ''fleet'' of Some (Some d) \<Rightarrow> Some d | _ \<Rightarrow> kr_fleet r)"
    by (rule step [OF _ assms]) (simp split: option.split)
  show "kr_infra (fold place_section rs r) = (case map_of rs ''infra'' of Some (Some d) \<Rightarrow> Some d | _ \<Rightarrow> kr_infra r)"
    by (rule step [OF _ assms]) (simp split: option.split)
  show "kr_citizen (fold place_section rs r) = (case map_of rs ''citizen'' of Some (Some d) \<Rightarrow> Some d | _ \<Rightarrow> kr_citizen r)"
    by (rule step [OF _ assms]) (simp split: option.split)
  show "kr_commerce (fold place_section rs r) = (case map_of rs ''commerce'' of Some (Some d) \<Rightarrow> Some d | _ \<Rightarrow> kr_commerce r)"
    by (rule step [OF _ assms]) (simp split: option.split)
  show "kr_toggles (fold place_section rs r) = (case map_of rs ''toggles'' of Some (Some d) \<Rightarrow> Some d | _ \<Rightarrow> kr_toggles r)"
    by (rule step [OF _ assms]) (simp split: option.split)
qed

lemma fold_meta:
  "kr_degraded (fold place_section rs r) = kr_degraded r @ map fst (filter (\<lambda>x. snd x = None) rs)"
  "kr_generated_at (fold place_section rs r) = kr_generated_at r"
  by (induction rs arbitrary: r) (simp_all add: place_section_def split: option.split)

lemma map_of_mset:
  assumes "mset xs = mset ys" "distinct (map fst ys)"
  shows "map_of xs = map_of ys" "distinct (map fst xs)"
proof -
  have "mset (map fst xs) = mset (map fst ys)" using assms(1) by simp
  then show d: "distinct (map fst xs)" using assms(2) by (metis mset_eq_imp_distinct_iff)
  show "map_of xs = map_of ys" using map_of_inject_set [OF d assms(2)] assms(1) by (metis mset_eq_setD)
qed

lemma section_value: "(case Some x of Some (Some d) \<Rightarrow> Some d | _ \<Rightarrow> None) = x"
  by (cases x) simp_all

lemma source_names: "distinct (map fst (kpi_sources E tz fl answer s))"
  by (simp add: kpi_sources_def)

lemma sources_at:
  "map_of (kpi_sources E tz fl answer s) ''fleet'' = Some (FleetSource E fl s)"
  "map_of (kpi_sources E tz fl answer s) ''infra'' = Some (InfraSource E s)"
  "map_of (kpi_sources E tz fl answer s) ''citizen'' = Some (CitizenSource E tz fl s)"
  "map_of (kpi_sources E tz fl answer s) ''commerce'' = Some (CommerceSource E s)"
  "map_of (kpi_sources E tz fl answer s) ''toggles'' = Some (ToggleSource answer)"
  by (simp_all add: kpi_sources_def)

text \<open>
  C33. The aggregated KPIs do not depend on the order in which the concurrent sources finish: whatever the order of
  arrival, every section is what its source delivered, null exactly when the source failed, and the failed sources
  are named in sorted order.
\<close>

theorem kpi_collect_deterministic:
  assumes "mset rs = mset (kpi_sources E tz fl answer s)"
  shows "kpi_Collect clk rs =
    \<lparr>kr_generated_at = clk, kr_fleet = FleetSource E fl s, kr_infra = InfraSource E s, kr_citizen = CitizenSource E tz fl s,
     kr_commerce = CommerceSource E s, kr_toggles = ToggleSource answer,
     kr_partial = (\<exists>r \<in> set (kpi_sources E tz fl answer s). snd r = None),
     kr_degraded = sort (map fst (filter (\<lambda>r. snd r = None) (kpi_sources E tz fl answer s)))\<rparr>"
proof -
  let ?src = "kpi_sources E tz fl answer s"
  note m = map_of_mset [OF assms source_names]
  have ms: "mset (map fst (filter (\<lambda>r. snd r = None) rs)) = mset (map fst (filter (\<lambda>r. snd r = None) ?src))"
    by (simp only: mset_map mset_filter assms)
  have srt: "sort (map fst (filter (\<lambda>r. snd r = None) rs)) = sort (map fst (filter (\<lambda>r. snd r = None) ?src))"
    using ms by (metis sorted_list_of_multiset_mset)
  have none: "map fst (filter (\<lambda>r. snd r = None) rs) \<noteq> [] \<longleftrightarrow> (\<exists>r \<in> set ?src. snd r = None)"
    using mset_eq_setD [OF assms] by (auto simp: filter_empty_conv)
  define r0 where "r0 = \<lparr>kr_generated_at = clk, kr_fleet = None, kr_infra = None, kr_citizen = None,
    kr_commerce = None, kr_toggles = None, kr_partial = False, kr_degraded = []\<rparr>"
  define r where "r = fold place_section rs r0"
  have col: "kpi_Collect clk rs = r\<lparr>kr_degraded := sort (kr_degraded r), kr_partial := kr_degraded r \<noteq> []\<rparr>"
    by (simp only: kpi_Collect_def Let_def r_def r0_def)
  have init: "kr_fleet r0 = None" "kr_infra r0 = None" "kr_citizen r0 = None" "kr_commerce r0 = None" "kr_toggles r0 = None"
    "kr_degraded r0 = []" "kr_generated_at r0 = clk" by (simp_all add: r0_def)
  have secs: "kr_fleet r = FleetSource E fl s" "kr_infra r = InfraSource E s" "kr_citizen r = CitizenSource E tz fl s"
    "kr_commerce r = CommerceSource E s" "kr_toggles r = ToggleSource answer" "kr_generated_at r = clk"
    unfolding r_def fold_sections [OF m(2)] fold_meta m(1) sources_at init section_value by (rule refl)+
  have deg: "kr_degraded r = map fst (filter (\<lambda>r. snd r = None) rs)" unfolding r_def fold_meta init by simp
  show ?thesis
    unfolding col by (rule kpi_response.equality) (simp_all add: secs, simp_all only: deg srt none)
qed

text \<open>Counting toggles: every toggle counts once, enabled or not, also in its domain.\<close>

lemma count_toggles_exact:
  "count_toggles ts (e, n, doms) =
     (e + length (filter snd ts), n + length ts,
      \<lambda>d. (fst (doms d) + length (filter (\<lambda>t. DomainOf (fst t) = d \<and> snd t) ts), snd (doms d) + length (filter (\<lambda>t. DomainOf (fst t) = d) ts)))"
proof (induction ts arbitrary: e n doms)
  case (Cons t ts)
  then show ?case by (cases t) (auto simp: Let_def fun_eq_iff)
qed simp

text \<open>The registry of the admin service and the table of the toggle service name the same modules under the same domains.\<close>

lemma registry_agrees: "map_option mi_domain (map_of Registry m) = map_of Modules m"
proof -
  have "map (\<lambda>(k, i). (k, mi_domain i)) Registry = Modules" by (simp add: Registry_def Modules_def mk_info_def)
  then have "map_of Modules m = map_of (map (\<lambda>(k, i). (k, mi_domain i)) Registry) m" by simp
  then show ?thesis by (simp only: map_of_map o_apply)
qed

text \<open>A field of the city KPIs is null only when its rollup is named as degraded, or there is no vehicle to divide by.\<close>

lemma gov_nulls_named:
  "case GetGovKPIs E fl s of
     Reply n k \<Rightarrow>
       (gk_revenue_30d k = None \<longleftrightarrow> ''fare-payments'' \<in> set (gk_degraded k)) \<and> (gk_kg_co2 k = None \<longleftrightarrow> ''carbon'' \<in> set (gk_degraded k)) \<and>
       (gk_vehicles_total k = None \<longleftrightarrow> ''fleet'' \<in> set (gk_degraded k)) \<and> (gk_stations_kg k = None \<longleftrightarrow> ''stations'' \<in> set (gk_degraded k)) \<and>
       (gk_open_incidents k = None \<longleftrightarrow> ''incidents'' \<in> set (gk_degraded k)) \<and> (gk_partial k \<longleftrightarrow> gk_degraded k \<noteq> [])
   | _ \<Rightarrow> False"
proof -
  have "''fare-payments'' \<in> set (gov_degraded E s) \<longleftrightarrow> fares_down E s" "''carbon'' \<in> set (gov_degraded E s) \<longleftrightarrow> fault E ''carbon''"
    "''fleet'' \<in> set (gov_degraded E s) \<longleftrightarrow> fault E ''fleet''" "''stations'' \<in> set (gov_degraded E s) \<longleftrightarrow> fault E ''stations''"
    "''incidents'' \<in> set (gov_degraded E s) \<longleftrightarrow> fault E ''incidents''"
    unfolding gov_degraded_def by (simp_all only: set_append Un_iff) (simp_all split: if_split)
  then show ?thesis by (simp add: GetGovKPIs_def Let_def)
qed

text \<open>The two dashboards disagree on what is open: an incident being worked on is open for the city and not for the operator.\<close>

lemma in_progress_not_open:
  assumes "\<not> fault E ''open incidents''" "\<not> fault E ''incidents''" "incidents (os_safety s) = [i]" "in_status i = ''in_progress''"
  shows "InfraSource E s = Some (InfraKPIs 0)" "\<exists>k. GetGovKPIs E fl s = Reply 200 k \<and> gk_open_incidents k = Some 1"
  using assms by (simp_all add: InfraSource_def GetGovKPIs_def Let_def unresolved_def)

lemma health_sweep_counts:
  "SweepHealth dial get took targets = (checks, up, down) \<Longrightarrow> up + down = length targets \<and> length checks = length targets \<and> sorted (map hc_name checks)"
  using sum_length_filter_compl [of "\<lambda>c. hc_status c = ''up''" "map (health_probe dial get took) targets"]
  by (auto simp: SweepHealth_def Let_def)

section \<open>A worked example\<close>

definition quiet_ops :: ops_store where
  "quiet_ops = \<lparr>os_commerce = empty_store (), os_fleet = \<lparr>vehicles = [], fleet_telemetry = [], predictions = [], fuel_consumption = []\<rparr>,
     os_safety = cs_safety audit_store, os_drt = town [], carbon_credits = []\<rparr>"

theorem kpi_collect_deterministic_witness:
  "kr_degraded (kpi_Collect 0 (rev (kpi_sources drt_env [] id None quiet_ops))) = [''toggles'']"
proof -
  let ?src = "kpi_sources drt_env [] id None quiet_ops"
  have "mset (rev ?src) = mset ?src" by simp
  note c = kpi_collect_deterministic [OF this, of 0]
  have "map fst (filter (\<lambda>r. snd r = None) ?src) = [''toggles'']"
    by (simp add: kpi_sources_def FleetSource_def InfraSource_def CitizenSource_def CommerceSource_def ToggleSource_def recent_payments_def
        quiet_ops_def empty_store_def in_i64_def Let_def)
  then show ?thesis unfolding c by simp
qed

end
