(* ===== verification/Opendata.thy ===== *)
theory Opendata
  imports Passenger Timestamps
begin

text \<open>
  Open data of citizen-api (src/services/go/citizen-api/internal/handlers/gtfs.go, opendata.go): the GTFS static feed
  in the CSV of \<open>encoding/csv\<close>, the dataset catalogue and the search proxy. The main results are that
  a standard CSV reader gets back the rows of the feed, and that its frequencies and stop times describe the
  timetable of the arrivals endpoint. \<open>coord\<close> is \<open>strconv.FormatFloat(x, 'f', 6, 64)\<close>.
\<close>

section \<open>CSV\<close>

abbreviation quote :: char where "quote \<equiv> CHR 0x22"
abbreviation newline :: char where "newline \<equiv> CHR 0x0A"

text \<open>A field that begins with a space, also one beyond ASCII in its UTF-8 bytes.\<close>

definition wide_spaces :: "nat list list" where
  "wide_spaces = [[194, 133], [194, 160], [225, 154, 128], [226, 128, 168], [226, 128, 169], [226, 128, 175], [226, 129, 159], [227, 128, 128]] @
     map (\<lambda>n. [226, 128, n]) [128..<139]"

definition starts_space :: "string \<Rightarrow> bool" where
  "starts_space f \<longleftrightarrow> f \<noteq> [] \<and> (is_space (hd f) \<or> list_ex (\<lambda>w. has_prefix f (map char_of w)) wide_spaces)"

definition field_needs_quotes :: "string \<Rightarrow> bool" where
  "field_needs_quotes f \<longleftrightarrow> f \<noteq> [] \<and> (f = [CHR 0x5C, CHR ''.''] \<or> (\<exists>c \<in> set f. c \<in> {newline, CHR 0x0D, quote, CHR '',''}) \<or> starts_space f)"

definition csv_field :: "string \<Rightarrow> string" where
  "csv_field f =
     (if field_needs_quotes f then [quote] @ concat (map (\<lambda>c. if c = quote then [quote, quote] else [c]) f) @ [quote] else f)"

definition csv_line :: "string list \<Rightarrow> string" where
  "csv_line row = join_with '','' (map csv_field row) @ [newline]"

definition csv_file :: "string list list \<Rightarrow> string" where
  "csv_file rows = concat (map csv_line rows)"

section \<open>The feed\<close>

definition stops_rows :: "(rat \<Rightarrow> string) \<Rightarrow> gtfs_stop list \<Rightarrow> string list list" where
  "stops_rows coord stops =
     [''stop_id'', ''stop_name'', ''stop_lat'', ''stop_lon''] # map (\<lambda>s. [sp_id s, sp_name s, coord (sp_lat s), coord (sp_lon s)]) stops"

definition routes_rows :: "gtfs_route list \<Rightarrow> string list list" where
  "routes_rows routes =
     [''route_id'', ''route_short_name'', ''route_long_name'', ''route_type''] # map (\<lambda>r. [rt_id r, rt_short_name r, rt_long_name r, ''3'']) routes"

definition trip_id :: "gtfs_route \<Rightarrow> string" where
  "trip_id rt = rt_id rt @ ''-anchor''"

text \<open>\<open>Format("15:04:05")\<close> of a time of day in seconds.\<close>

definition clock_text :: "nat \<Rightarrow> string" where
  "clock_text secs = digs 2 (secs div 3600 mod 24) @ '':'' @ digs 2 (secs div 60 mod 60) @ '':'' @ digs 2 (secs mod 60)"

definition stop_time_row :: "gtfs_route \<Rightarrow> nat \<Rightarrow> string list" where
  "stop_time_row rt i =
     (let ts = clock_text (5 * 3600 + 30 * 60 + i * nat minutesPerStop * 60) in [trip_id rt, ts, ts, rt_stop_ids rt ! i, show_nat (i + 1)])"

definition frequency_row :: "gtfs_route \<Rightarrow> string list" where
  "frequency_row rt = [trip_id rt, ''05:30:00'', ''23:00:00'', show_int (i64 (rt_headway_min rt * 60))]"

definition trip_row :: "gtfs_stop list \<Rightarrow> gtfs_route \<Rightarrow> string list" where
  "trip_row stops rt = [rt_id rt, ''daily'', trip_id rt, headsign_of stops rt]"

definition served :: "gtfs_route list \<Rightarrow> gtfs_route list" where
  "served routes = filter (\<lambda>rt. rt_stop_ids rt \<noteq> []) routes"

definition gtfsFiles :: "(rat \<Rightarrow> string) \<Rightarrow> gtfs_stop list \<times> gtfs_route list \<Rightarrow> (string \<times> string) list" where
  "gtfsFiles coord net =
     (case net of (stops, routes) \<Rightarrow>
       [(''stops.txt'', csv_file (stops_rows coord stops)),
        (''routes.txt'', csv_file (routes_rows routes)),
        (''trips.txt'', csv_file ([''route_id'', ''service_id'', ''trip_id'', ''trip_headsign''] # map (trip_row stops) (served routes))),
        (''frequencies.txt'', csv_file ([''trip_id'', ''start_time'', ''end_time'', ''headway_secs''] # map frequency_row (served routes))),
        (''stop_times.txt'', csv_file ([''trip_id'', ''arrival_time'', ''departure_time'', ''stop_id'', ''stop_sequence''] #
           concat (map (\<lambda>rt. map (stop_time_row rt) [0..<length (rt_stop_ids rt)]) (served routes))))])"

definition GTFSFile :: "(rat \<Rightarrow> string) \<Rightarrow> gtfs_stop list \<times> gtfs_route list \<Rightarrow> string \<Rightarrow> string resp" where
  "GTFSFile coord net name =
     (case map_of (gtfsFiles coord net) name of
        None \<Rightarrow> Err 404 (''unknown GTFS file '' @ name @ '' (available: stops.txt, routes.txt, trips.txt, stop_times.txt, frequencies.txt)'')
      | Some content \<Rightarrow> Reply 200 content)"

text \<open>The entries of the archive, in their order.\<close>

definition GTFSZip :: "db_env \<Rightarrow> (rat \<Rightarrow> string) \<Rightarrow> gtfs_stop list \<times> gtfs_route list \<Rightarrow> (string \<times> string) list resp" where
  "GTFSZip E coord net =
     (let names = [''stops.txt'', ''routes.txt'', ''trips.txt'', ''stop_times.txt'', ''frequencies.txt''] in
      case find (\<lambda>n. fault E (''build GTFS zip entry '' @ n) \<or> fault E (''write GTFS zip entry '' @ n)) names of
        Some n \<Rightarrow> Internal (if fault E (''build GTFS zip entry '' @ n) then ''build GTFS zip entry '' @ n else ''write GTFS zip entry'')
      | None \<Rightarrow>
          if fault E ''close GTFS zip'' then Internal ''close GTFS zip''
          else Reply 200 (map (\<lambda>n. (n, the (map_of (gtfsFiles coord net) n))) names))"

section \<open>The catalogue and the search\<close>

record dataset =
  ds_id :: string
  ds_title :: string
  ds_description :: string
  ds_format :: string
  ds_url :: string

definition datasetCatalog :: "dataset list" where
  "datasetCatalog =
     [\<lparr>ds_id = ''gtfs-static'', ds_title = ''GTFS static feed'', ds_description = ''Stops, routes and timetable of the H2 bus network.'',
       ds_format = ''GTFS'', ds_url = ''/api/citizen/v1/opendata/gtfs''\<rparr>,
      \<lparr>ds_id = ''arrivals'', ds_title = ''Stop arrivals'', ds_description = ''Next departures per stop (derived from the static timetable).'',
       ds_format = ''JSON'', ds_url = ''/api/citizen/v1/passenger/arrivals?stop_id=S001''\<rparr>,
      \<lparr>ds_id = ''carbon-credits'', ds_title = ''CO2 avoidance ledger'', ds_description = ''Issued carbon credits per reporting period.'',
       ds_format = ''JSON'', ds_url = ''/api/citizen/v1/carbon/credits''\<rparr>,
      \<lparr>ds_id = ''service-alerts'', ds_title = ''Service alerts'', ds_description = ''Active service disruptions and notices.'',
       ds_format = ''JSON'', ds_url = ''/api/citizen/v1/passenger/alerts''\<rparr>]"

definition ListDatasets :: "dataset list resp" where
  "ListDatasets = Reply 200 datasetCatalog"

record open_data =
  od_search_url :: string
  od_index :: string

definition NewOpenData :: "string \<Rightarrow> string \<Rightarrow> open_data" where
  "NewOpenData searchURL index =
     \<lparr>od_search_url = trim_suffix searchURL ''/'', od_index = (if index = [] then ''h2fleet-open'' else index)\<rparr>"

definition search_query :: "string \<Rightarrow> json" where
  "search_query q =
     JObj [(''size'', JNum 20), (''query'', JObj [(''multi_match'', JObj [(''query'', JStr q),
       (''fields'', JArr [JStr ''title^2'', JStr ''description'', JStr ''content''])])])]"

text \<open>The answer of OpenSearch to a query at an address is passed on, its body cut at 4 MiB.\<close>

definition Search :: "(string \<Rightarrow> json \<Rightarrow> (nat \<times> string) option) \<Rightarrow> open_data \<Rightarrow> string \<Rightarrow> string resp" where
  "Search post_search d q =
     (if od_search_url d = [] then Err 503 ''search backend not configured (OPENSEARCH_URL unset)''
      else if q = [] then Err 400 ''q is required''
      else case post_search (od_search_url d @ ''/'' @ od_index d @ ''/_search'') (search_query q) of
        None \<Rightarrow> Err 502 ''search backend unavailable''
      | Some (status, body) \<Rightarrow> Reply status (take 4194304 body))"

section \<open>Reading the files back\<close>

text \<open>A standard reader: quoted fields end at a single quote, others before a comma or the end of the line.\<close>

fun read_quoted :: "string \<Rightarrow> string \<Rightarrow> string \<times> string" where
  "read_quoted acc [] = (acc, [])"
| "read_quoted acc [c] = (if c = quote then (acc, []) else (acc @ [c], []))"
| "read_quoted acc (c # d # cs) =
     (if c = quote then (if d = quote then read_quoted (acc @ [quote]) cs else (acc, d # cs)) else read_quoted (acc @ [c]) (d # cs))"

definition ends_field :: "char \<Rightarrow> bool" where
  "ends_field c \<longleftrightarrow> c = CHR '','' \<or> c = newline"

definition read_field :: "string \<Rightarrow> string \<times> string" where
  "read_field s = (if s \<noteq> [] \<and> hd s = quote then read_quoted [] (tl s) else (takeWhile (\<lambda>c. \<not> ends_field c) s, dropWhile (\<lambda>c. \<not> ends_field c) s))"

text \<open>\<open>n\<close> fields at most, then \<open>n\<close> rows of at most \<open>m\<close> fields.\<close>

fun read_row :: "nat \<Rightarrow> string \<Rightarrow> string list \<times> string" where
  "read_row 0 s = ([], s)"
| "read_row (Suc n) s =
     (case read_field s of
        (f, c # rest) \<Rightarrow> if c = CHR '','' then (case read_row n rest of (fs, r) \<Rightarrow> (f # fs, r)) else ([f], rest)
      | (f, []) \<Rightarrow> ([f], []))"

fun read_rows :: "nat \<Rightarrow> nat \<Rightarrow> string \<Rightarrow> string list list" where
  "read_rows m 0 s = []"
| "read_rows m (Suc n) s = (if s = [] then [] else case read_row m s of (row, rest) \<Rightarrow> row # read_rows m n rest)"

lemma read_quoted_field:
  assumes "sep \<noteq> quote"
  shows "read_quoted acc (concat (map (\<lambda>c. if c = quote then [quote, quote] else [c]) f) @ quote # sep # rest) = (acc @ f, sep # rest)"
proof (induction f arbitrary: acc)
  case Nil
  then show ?case using assms by simp
next
  case (Cons c f)
  let ?rest = "concat (map (\<lambda>c. if c = quote then [quote, quote] else [c]) f) @ quote # sep # rest"
  obtain d ds where d: "?rest = d # ds" by (cases ?rest) auto
  show ?case
  proof (cases "c = quote")
    case True
    with Cons [of "acc @ [quote]"] show ?thesis by simp
  next
    case False
    have "read_quoted acc (c # ?rest) = read_quoted (acc @ [c]) ?rest" unfolding d using False by simp
    with Cons [of "acc @ [c]"] False show ?thesis by simp
  qed
qed

lemma read_csv_field:
  assumes "ends_field sep"
  shows "read_field (csv_field f @ sep # rest) = (f, sep # rest)"
proof (cases "field_needs_quotes f")
  case True
  then show ?thesis using read_quoted_field [of sep "[]" f rest] assms by (auto simp: csv_field_def read_field_def ends_field_def)
next
  case False
  then have plain: "\<forall>c \<in> set f. \<not> ends_field c \<and> c \<noteq> quote" by (cases f) (auto simp: field_needs_quotes_def ends_field_def)
  have "f @ sep # rest \<noteq> []" "hd (f @ sep # rest) \<noteq> quote" using plain assms by (cases f; auto simp: ends_field_def)+
  then show ?thesis using False plain assms by (simp add: csv_field_def read_field_def takeWhile_append2 dropWhile_append2)
qed

lemma read_csv_row:
  assumes "row \<noteq> []" "length row \<le> n"
  shows "read_row n (csv_line row @ rest) = (row, rest)"
  using assms
proof (induction row arbitrary: n)
  case (Cons f fs)
  obtain k where n: "n = Suc k" using Cons.prems by (cases n) auto
  show ?case
  proof (cases "fs = []")
    case True
    then show ?thesis using read_csv_field [of newline f rest] by (simp add: n csv_line_def ends_field_def)
  next
    case False
    then obtain g gs where "fs = g # gs" by (cases fs) auto
    then have "csv_line (f # fs) @ rest = csv_field f @ CHR '','' # csv_line fs @ rest" by (simp add: csv_line_def)
    moreover have "read_row k (csv_line fs @ rest) = (fs, rest)" using Cons.IH [of k] Cons.prems False n by simp
    ultimately show ?thesis using read_csv_field [of "CHR '',''" f "csv_line fs @ rest"] by (simp add: n ends_field_def)
  qed
qed simp

text \<open>Whatever the names of stops and routes contain, a reader gets the rows of the feed back.\<close>

theorem csv_round_trip:
  assumes "\<forall>row \<in> set rows. row \<noteq> [] \<and> length row \<le> m"
  shows "read_rows m (length rows) (csv_file rows) = rows"
  using assms
proof (induction rows)
  case (Cons row rows)
  have "csv_line row \<noteq> []" by (simp add: csv_line_def)
  then show ?case using Cons read_csv_row [of row m "csv_file rows"] by (simp add: csv_file_def)
qed simp

theorem csv_round_trip_witness:
  "read_rows 4 2 (csv_file [[''stop_id'', ''stop_name''], [''S,1'', [quote]]]) = [[''stop_id'', ''stop_name''], [''S,1'', [quote]]]"
  using csv_round_trip [of "[[''stop_id'', ''stop_name''], [''S,1'', [quote]]]" 4]
  by (simp add: numeral_2_eq_2 del: read_rows.simps)

section \<open>The feed and the arrivals\<close>

text \<open>What the rows of a route say: trips start at every multiple of the headway, stops follow at the offsets of the stop times.\<close>

definition parse_clock :: "string \<Rightarrow> nat" where
  "parse_clock s = read_dec (take 2 s) * 3600 + read_dec (take 2 (drop 3 s)) * 60 + read_dec (take 2 (drop 6 s))"

definition feed_times :: "string list \<Rightarrow> string list \<Rightarrow> string list \<Rightarrow> int list" where
  "feed_times freq first st =
     map (\<lambda>t. t + (int (parse_clock (st ! 2)) - int (parse_clock (first ! 2))))
       (timetable (int (parse_clock (freq ! 1))) (int (read_dec (freq ! 3))) (int (parse_clock (freq ! 2))))"

lemma digs_two: "digs 2 n = [char_of (48 + n div 10 mod 10), char_of (48 + n mod 10)]"
  by (simp add: numeral_2_eq_2)

lemma read_two: "n < 100 \<Longrightarrow> read_dec (digs 2 n) = n"
proof -
  assume n: "n < 100"
  have "48 + n div 10 mod 10 < 256" "48 + n mod 10 < 256" by (simp_all add: less_imp_le_nat trans_less_add2)
  then show ?thesis using n by (simp add: digs_two read_dec_def)
qed

lemma parse_clock_text: "secs < 86400 \<Longrightarrow> parse_clock (clock_text secs) = secs"
proof -
  assume s: "secs < 86400"
  have len: "length (digs 2 n) = 2" for n by (simp add: digs_two)
  have "secs div 3600 < 24" using s by (simp add: less_mult_imp_div_less)
  then have "parse_clock (clock_text secs) = secs div 3600 * 3600 + secs div 60 mod 60 * 60 + secs mod 60"
    by (simp add: parse_clock_def clock_text_def len read_two)
  also have "\<dots> = (secs div 60 div 60 * 60 + secs div 60 mod 60) * 60 + secs mod 60" by (simp add: div_mult2_eq [symmetric])
  also have "\<dots> = secs" by (simp only: div_mult_mod_eq)
  finally show ?thesis .
qed

lemma timetable_ge: "0 < h \<Longrightarrow> t \<in> set (timetable s h e) \<Longrightarrow> s \<le> t"
  by (auto simp: timetable_def)

lemma timetable_shift:
  assumes "0 < h" "0 \<le> off"
  shows "filter (\<lambda>t. t < e) (map (\<lambda>t. t + off) (timetable s h e)) = timetable (s + off) h e"
proof (induction "nat (e - s)" arbitrary: s rule: less_induct)
  case less
  show ?case
  proof (cases "s + off < e")
    case True
    then have "nat (e - (s + h)) < nat (e - s)" using assms by simp
    from less [OF this] True assms show ?thesis
      using timetable_step [OF assms(1), of s e] timetable_step [OF assms(1), of "s + off" e] by (simp add: add.commute add.left_commute)
  next
    case False
    have "t + off \<ge> e" if "t \<in> set (timetable s h e)" for t using timetable_ge [OF assms(1) that] False by simp
    then have "filter (\<lambda>t. t < e) (map (\<lambda>t. t + off) (timetable s h e)) = []" by (auto simp: filter_empty_conv not_less)
    then show ?thesis using timetable_step [OF assms(1), of "s + off" e] False by simp
  qed
qed

lemma timetable_scale:
  assumes "0 < h" "0 < c"
  shows "timetable (s * c + m) (h * c) (e * c + m) = map (\<lambda>t. t * c + m) (timetable s h e)"
proof (induction "nat (e - s)" arbitrary: s rule: less_induct)
  case less
  have hc: "0 < h * c" using assms by simp
  have lt: "s * c + m < e * c + m \<longleftrightarrow> s < e" using assms(2) by simp
  show ?case
  proof (cases "s < e")
    case True
    then have "nat (e - (s + h)) < nat (e - s)" using assms by simp
    note ih = less [OF this]
    have "timetable (s * c + m) (h * c) (e * c + m) = (s * c + m) # timetable ((s + h) * c + m) (h * c) (e * c + m)"
      using timetable_step [OF hc, of "s * c + m" "e * c + m"] True lt by (simp add: algebra_simps)
    also have "\<dots> = map (\<lambda>t. t * c + m) (s # timetable (s + h) h e)" unfolding ih by simp
    finally show ?thesis using timetable_step [OF assms(1), of s e] True by simp
  next
    case False
    then show ?thesis using timetable_step [OF hc, of "s * c + m" "e * c + m"] timetable_step [OF assms(1), of s e] lt by simp
  qed
qed

lemma feed_fields:
  assumes "regular rt"
  shows "frequency_row rt ! 1 = clock_text 19800" "frequency_row rt ! 2 = clock_text 82800"
    "read_dec (frequency_row rt ! 3) = nat (rt_headway_min rt * 60)" "stop_time_row rt i ! 2 = clock_text (19800 + i * 240)"
proof -
  show "frequency_row rt ! 1 = clock_text 19800" "frequency_row rt ! 2 = clock_text 82800"
    by (simp_all add: frequency_row_def clock_text_def digs_two char_of_def bit_0)
  have "i64 (rt_headway_min rt * 60) = rt_headway_min rt * 60" using assms by (simp add: regular_def i64_small)
  then show "read_dec (frequency_row rt ! 3) = nat (rt_headway_min rt * 60)"
    using assms by (simp add: frequency_row_def show_int_def regular_def)
  show "stop_time_row rt i ! 2 = clock_text (19800 + i * 240)"
    by (simp add: stop_time_row_def Let_def minutesPerStop_def mult.assoc)
qed

lemma feed_departures:
  assumes "regular rt" "19800 + i * 240 < 86400"
  shows "map (\<lambda>t. t * 1000000000 + utc_zone after 0 0)
      (filter (\<lambda>t. t < 82800) (feed_times (frequency_row rt) (stop_time_row rt 0) (stop_time_row rt i))) = departures utc_zone after rt i"
proof -
  let ?h = "rt_headway_min rt * 60" and ?c = "1000000000 :: int" and ?m = "utc_zone after 0 0"
  have h: "0 < ?h" using assms(1) by (simp add: regular_def)
  have times: "feed_times (frequency_row rt) (stop_time_row rt 0) (stop_time_row rt i) = map (\<lambda>t. t + int (i * 240)) (timetable 19800 ?h 82800)"
    unfolding feed_times_def feed_fields [OF assms(1)] using assms(2) h by (simp add: parse_clock_text)
  have zn: "utc_zone after 23 0 = 82800 * ?c + ?m" "first_time utc_zone after i = (19800 + int (i * 240)) * ?c + ?m"
    "rt_headway_min rt * minute_ns = ?h * ?c"
    by (simp_all add: utc_zone_def first_time_def minutesPerStop_def minute_ns_def algebra_simps)
  have "departures utc_zone after rt i = map (\<lambda>t. t * ?c + ?m) (timetable (19800 + int (i * 240)) ?h 82800)"
    unfolding departures_def zn by (rule timetable_scale [OF h]) simp
  also have "timetable (19800 + int (i * 240)) ?h 82800 = filter (\<lambda>t. t < 82800) (map (\<lambda>t. t + int (i * 240)) (timetable 19800 ?h 82800))"
    by (rule timetable_shift [OF h, symmetric]) simp
  finally show ?thesis by (simp only: times)
qed

text \<open>
  C32. The GTFS feed and the arrivals endpoint describe the same timetable: at a server whose clock runs in UTC, what
  the endpoint computes for a route at a stop (\<open>nextArrivals\<close>, the next \<open>n\<close> from a minute before the request on) are
  the first \<open>n\<close> of the departures that the feed's frequency and stop-time rows give for that stop before 23:00,
  counted from the midnight of that day, in order and each exactly once. The route has a headway between one minute and
  1000000 minutes, and the stop is reached before midnight by the first trip of the day (\<open>19800 + i * 240 < 86400\<close>, the
  first 278 stops), since later times have no place in the feed's clock texts.
\<close>

theorem gtfs_matches_arrivals:
  assumes "regular rt" "19800 + i * 240 < 86400"
  shows "\<exists>as. nextArrivals utc_zone clk stops rt i n = Some as \<and>
    map ar_scheduled_at as =
      take n (filter (\<lambda>t. clk - minute_ns < t)
        (map (\<lambda>t. t * 1000000000 + utc_zone (clk - minute_ns) 0 0)
          (filter (\<lambda>t. t < 82800) (feed_times (frequency_row rt) (stop_time_row rt 0) (stop_time_row rt i)))))"
  unfolding feed_departures [OF assms] nextArrivals_def using next_arrivals_exact [OF assms(1)] by blast

theorem gtfs_matches_arrivals_witness:
  "\<exists>as. nextArrivals utc_zone (600 * minute_ns) fallbackStops (fallbackRoutes ! 0) 3 3 = Some as \<and>
    map ar_scheduled_at as =
      take 3 (filter (\<lambda>t. 600 * minute_ns - minute_ns < t)
        (map (\<lambda>t. t * 1000000000 + utc_zone (600 * minute_ns - minute_ns) 0 0)
          (filter (\<lambda>t. t < 82800) (feed_times (frequency_row (fallbackRoutes ! 0)) (stop_time_row (fallbackRoutes ! 0) 0) (stop_time_row (fallbackRoutes ! 0) 3)))))"
proof -
  have "regular (fallbackRoutes ! 0)" by (simp add: fallbackRoutes_def regular_def)
  then show ?thesis by (rule gtfs_matches_arrivals) simp
qed

text \<open>
  After the end of service they differ: a trip that starts before 23:00 reaches later stops after it. The feed has route 10
  leave its last stop at 23:02, the arrivals endpoint stops at 23:00.
\<close>

lemma feed_runs_past_end:
  "82920 \<in> set (feed_times (frequency_row (fallbackRoutes ! 0)) (stop_time_row (fallbackRoutes ! 0) 0) (stop_time_row (fallbackRoutes ! 0) 3))"
proof -
  have reg: "regular (fallbackRoutes ! 0)" "rt_headway_min (fallbackRoutes ! 0) = 10" by (simp_all add: fallbackRoutes_def regular_def)
  have "82200 \<in> set (timetable 19800 600 82800)" by (auto simp: timetable_def intro!: image_eqI [of _ _ "104 :: nat"])
  then show ?thesis unfolding feed_times_def feed_fields [OF reg(1)] reg(2) by (simp add: parse_clock_text image_iff)
qed

end
