(* ===== verification/Emission.thy ===== *)
theory Emission
  imports AuditLog Auth
begin

text \<open>
  What the services send out: audit entries of successful mutations (src/services/go/audit-log/pkg/auditclient/client.go),
  their mirror in OpenSearch (src/services/go/audit-log/internal/mirror/opensearch.go) and events
  (src/services/go/citizen-api/internal/pubsub/pubsub.go, src/services/go/commerce-api/internal/events/publisher.go). The
  receiver is a function from what is sent and its state to the status it answers, if it answers. \<open>valid\<close> is
  \<open>json.Valid\<close>. The main result joins the audit middleware to the ingest endpoint of \<open>AuditLog\<close>.
\<close>

section \<open>The audit client\<close>

record audit_client =
  ac_base :: string
  ac_token :: string
  ac_service :: string

definition auditclient_New :: "string \<Rightarrow> string \<Rightarrow> string \<Rightarrow> audit_client" where
  "auditclient_New baseURL token service = \<lparr>ac_base = trim_suffix baseURL ''/'', ac_token = token, ac_service = service\<rparr>"

definition auditclient_FromEnv :: "string \<Rightarrow> (string \<Rightarrow> string) \<Rightarrow> audit_client" where
  "auditclient_FromEnv service env = auditclient_New (env ''AUDIT_LOG_URL'') (env ''AUDIT_INGEST_TOKEN'') service"

definition audit_Enabled :: "audit_client option \<Rightarrow> bool" where
  "audit_Enabled C = (case C of None \<Rightarrow> False | Some c \<Rightarrow> ac_base c \<noteq> [])"

text \<open>The receiver's state and the failures counted.\<close>

record 'a audit_net =
  an_peer :: 'a
  an_failures :: nat

type_synonym 'a audit_post = "string \<Rightarrow> string option \<Rightarrow> entry \<Rightarrow> 'a \<Rightarrow> nat option \<times> 'a"

definition Emit :: "audit_client option \<Rightarrow> 'a audit_post \<Rightarrow> entry \<Rightarrow> 'a audit_net \<Rightarrow> 'a audit_net" where
  "Emit C send e a =
     (case C of
        None \<Rightarrow> a
      | Some c \<Rightarrow>
          if \<not> audit_Enabled C then a
          else case send (ac_base c @ ''/v1/audit'') (if ac_token c = [] then None else Some (ac_token c)) e (an_peer a) of (status, p) \<Rightarrow>
            let a1 = a\<lparr>an_peer := p\<rparr> in
            (case status of
               None \<Rightarrow> a1\<lparr>an_failures := an_failures a1 + 1\<rparr>
             | Some st \<Rightarrow> if st \<ge> 300 then a1\<lparr>an_failures := an_failures a1 + 1\<rparr> else a1))"

definition RolesFromContext :: "ctx \<Rightarrow> string list" where
  "RolesFromContext c =
     (case c of
        None \<Rightarrow> []
      | Some cl \<Rightarrow>
          (case map_of cl ''realm_access'' of
             Some (JObj realm) \<Rightarrow>
               (case map_of realm ''roles'' of
                  Some (JArr raw) \<Rightarrow> List.map_filter (\<lambda>v. case v of JStr s \<Rightarrow> Some s | _ \<Rightarrow> None) raw
                | _ \<Rightarrow> [])
           | _ \<Rightarrow> []))"

record http_call =
  hl_body :: string
  hl_ctx :: ctx
  hl_remote :: string
  hl_agent :: string
  hl_param :: "string \<Rightarrow> string"

definition captured :: "bool \<Rightarrow> http_call \<Rightarrow> string" where
  "captured captureBody r = (if captureBody then take 65536 (hl_body r) else hl_body r)"

definition audit_entry :: "(string \<Rightarrow> bool) \<Rightarrow> string \<Rightarrow> string \<Rightarrow> string \<Rightarrow> bool \<Rightarrow> http_call \<Rightarrow> entry" where
  "audit_entry valid action entity idParam captureBody r =
     \<lparr>en_id = 0, en_actor_sub = Subject (hl_ctx r), en_actor_roles = RolesFromContext (hl_ctx r), en_action = action, en_entity = entity,
      en_entity_id = (if idParam = [] then [] else hl_param r idParam), en_before = None,
      en_after = (if captureBody \<and> captured captureBody r \<noteq> [] \<and> valid (captured captureBody r) then Some (captured captureBody r) else None),
      en_ip = hl_remote r, en_ua = hl_agent r, en_ts = 0, en_prev_hash = [], en_hash = []\<rparr>"

text \<open>The wrapped handler takes the body and gives the status it wrote.\<close>

definition audit_Middleware ::
  "audit_client option \<Rightarrow> 'a audit_post \<Rightarrow> (string \<Rightarrow> bool) \<Rightarrow> string \<Rightarrow> string \<Rightarrow> string \<Rightarrow> bool \<Rightarrow> (string \<Rightarrow> 's \<Rightarrow> nat \<times> 's) \<Rightarrow>
   http_call \<Rightarrow> 's \<Rightarrow> 'a audit_net \<Rightarrow> (nat \<times> 's) \<times> 'a audit_net" where
  "audit_Middleware C send valid action entity idParam captureBody nxt r s a =
     (if \<not> audit_Enabled C then (nxt (hl_body r) s, a)
      else case nxt (captured captureBody r) s of (status, t) \<Rightarrow>
        if status \<ge> 400 then ((status, t), a)
        else ((status, t), Emit C send (audit_entry valid action entity idParam captureBody r) a))"

section \<open>The mirror\<close>

record 'a mirror =
  mi_base :: string
  mi_index :: string
  mi_ensured :: bool
  mi_peer :: 'a
  mi_failures :: nat

definition mirror_New :: "string \<Rightarrow> string \<Rightarrow> 'a \<Rightarrow> 'a mirror" where
  "mirror_New baseURL index peer = \<lparr>mi_base = trim_suffix baseURL ''/'', mi_index = index, mi_ensured = False, mi_peer = peer, mi_failures = 0\<rparr>"

definition mirror_Enabled :: "'a mirror \<Rightarrow> bool" where
  "mirror_Enabled m \<longleftrightarrow> mi_base m \<noteq> [] \<and> mi_index m \<noteq> []"

text \<open>What is put: the index with its fixed mapping, or an entry as a document.\<close>

datatype mirror_body = IndexMapping | Document entry

type_synonym 'a mirror_put = "string \<Rightarrow> mirror_body \<Rightarrow> 'a \<Rightarrow> nat option \<times> 'a"

definition mirror_do :: "'a mirror_put \<Rightarrow> string \<Rightarrow> mirror_body \<Rightarrow> 'a mirror \<Rightarrow> nat option \<times> 'a mirror" where
  "mirror_do put path body m = (case put (mi_base m @ path) body (mi_peer m) of (st, p) \<Rightarrow> (st, m\<lparr>mi_peer := p\<rparr>))"

definition EnsureIndex :: "'a mirror_put \<Rightarrow> 'a mirror \<Rightarrow> bool \<times> 'a mirror" where
  "EnsureIndex put m =
     (if \<not> mirror_Enabled m \<or> mi_ensured m then (True, m)
      else case mirror_do put (''/'' @ mi_index m) IndexMapping m of
        (None, m1) \<Rightarrow> (False, m1\<lparr>mi_failures := mi_failures m1 + 1\<rparr>)
      | (Some st, m1) \<Rightarrow>
          if st \<ge> 300 \<and> st \<noteq> 400 then (False, m1\<lparr>mi_failures := mi_failures m1 + 1\<rparr>)
          else (True, m1\<lparr>mi_ensured := True\<rparr>))"

definition mirror_Publish :: "'a mirror_put \<Rightarrow> entry \<Rightarrow> 'a mirror \<Rightarrow> 'a mirror" where
  "mirror_Publish put e m =
     (if \<not> mirror_Enabled m then m
      else case EnsureIndex put m of
        (False, m1) \<Rightarrow> m1
      | (True, m1) \<Rightarrow>
          (case mirror_do put (''/'' @ mi_index m1 @ ''/_doc/'' @ show_int (en_id e)) (Document e) m1 of
             (None, m2) \<Rightarrow> m2\<lparr>mi_failures := mi_failures m2 + 1\<rparr>
           | (Some st, m2) \<Rightarrow> if st \<ge> 300 then m2\<lparr>mi_failures := mi_failures m2 + 1\<rparr> else m2))"

section \<open>Events\<close>

record envelope =
  ev_id :: string
  ev_type :: string
  ev_source :: string
  ev_time :: string
  ev_data :: json

definition envelope_of :: "string \<Rightarrow> int \<Rightarrow> string \<Rightarrow> string \<Rightarrow> json \<Rightarrow> envelope" where
  "envelope_of uuid clk source topic data = \<lparr>ev_id = uuid, ev_type = topic, ev_source = source, ev_time = rfc3339 clk, ev_data = data\<rparr>"

datatype publisher =
    DaprPublisher string
  | KafkaPublisher "string list"
  | NoopPublisher

text \<open>\<open>kafka_ok\<close> and \<open>dapr_ok\<close>: the library makes a client for these brokers, or this port.\<close>

definition NewPublisher :: "(string list \<Rightarrow> bool) \<Rightarrow> string \<Rightarrow> publisher" where
  "NewPublisher kafka_ok brokers =
     (if trim_space brokers = [] then NoopPublisher
      else if kafka_ok (split_on CHR '','' brokers) then KafkaPublisher (split_on CHR '','' brokers) else NoopPublisher)"

definition pubsub_New :: "(string \<Rightarrow> bool) \<Rightarrow> (string list \<Rightarrow> bool) \<Rightarrow> (string \<Rightarrow> string) \<Rightarrow> publisher" where
  "pubsub_New dapr_ok kafka_ok env =
     (if env ''DAPR_GRPC_PORT'' \<noteq> [] \<and> dapr_ok (env ''DAPR_GRPC_PORT'')
      then DaprPublisher (if env ''DAPR_PUBSUB_NAME'' = [] then ''h2pubsub'' else env ''DAPR_PUBSUB_NAME'')
      else NewPublisher kafka_ok (env ''KAFKA_BROKERS''))"

text \<open>Publishing hands the envelope to the transport, which may refuse it; the no-op publisher only logs and reports success.\<close>

definition publish_event ::
  "(publisher \<Rightarrow> string \<Rightarrow> envelope \<Rightarrow> 'a \<Rightarrow> bool \<times> 'a) \<Rightarrow> publisher \<Rightarrow> string \<Rightarrow> envelope \<Rightarrow> 'a \<Rightarrow> bool \<times> 'a" where
  "publish_event transport p topic e a = (case p of NoopPublisher \<Rightarrow> (True, a) | _ \<Rightarrow> transport p topic e a)"

text \<open>Without a transport events are lost and every publication is reported as successful.\<close>

lemma noop_reports_success: "NewPublisher kafka_ok [] = NoopPublisher" "publish_event transport NoopPublisher topic e a = (True, a)"
  by (simp_all add: NewPublisher_def publish_event_def trim_space_def)

section \<open>From a mutation to the trail\<close>

text \<open>The ingest endpoint behind its token check; the client has no JWT, so the JWT middleware refuses what the token does not admit.\<close>

definition ingest_post :: "audit_env \<Rightarrow> string \<Rightarrow> audit_service audit_post" where
  "ingest_post A ingestToken url tok e svc =
     RequireIngestAuth ingestToken (\<lambda>_ _. (Some 401, svc))
       (\<lambda>_. case Ingest A (Some (e, None)) svc of (r, svc') \<Rightarrow> (Some (status_code r), svc')) (case tok of None \<Rightarrow> [] | Some t \<Rightarrow> t)"

lemma Append_row:
  assumes "Append A e ts db = (Inr e', db')"
  shows "\<exists>x. audit_log db' = audit_log db @ [x] \<and> en_actor_sub x = en_actor_sub e \<and> en_actor_roles x = en_actor_roles e \<and>
    en_action x = en_action e \<and> en_entity x = en_entity e \<and> en_entity_id x = en_entity_id e \<and> en_ip x = en_ip e"
  using assms by (auto simp: Append_def Let_def split: if_splits option.splits)

lemma Ingest_cases:
  assumes "en_actor_sub e \<noteq> []" "en_action e \<noteq> []" "en_entity e \<noteq> []" "Ingest A (Some (e, None)) svc = (r, svc')"
  obtains (failed) err where "Append A e None (svc_db svc) = (Inl err, svc_db svc')" "r = Internal ''append audit entry''"
  | (kept) e' where "Append A e None (svc_db svc) = (Inr e', svc_db svc')" "r = Reply 201 e'"
proof (cases "Append A e None (svc_db svc)")
  case (Pair res db)
  then show thesis using assms that by (cases res) (auto simp: Ingest_def)
qed

text \<open>
  C15. A mutation is on the audit trail exactly when it succeeded: a request whose handler answers 400 or more
  leaves the audit service as it was; after one that succeeded, by an authenticated caller through a client with the
  shared token, the trail has one more row, with the caller, the action and the entity, or the failure to append
  it is counted. The handler's own answer is passed on in every case.
\<close>

theorem audited_iff_successful:
  assumes "ac_base c \<noteq> []" "ac_token c \<in> set (accepted_tokens ingestToken)" "Subject (hl_ctx r) \<noteq> []" "action \<noteq> []" "entity \<noteq> []"
    and "nxt (captured captureBody r) s = (status, t)"
    and "audit_Middleware (Some c) (ingest_post A ingestToken) valid action entity idParam captureBody nxt r s a = (answer, a')"
  shows "answer = (status, t) \<and> (status \<ge> 400 \<longrightarrow> a' = a) \<and>
    (status < 400 \<longrightarrow>
      (\<exists>x. audit_log (svc_db (an_peer a')) = audit_log (svc_db (an_peer a)) @ [x] \<and> en_actor_sub x = Subject (hl_ctx r) \<and>
         en_actor_roles x = RolesFromContext (hl_ctx r) \<and> en_action x = action \<and> en_entity x = entity \<and>
         en_entity_id x = (if idParam = [] then [] else hl_param r idParam) \<and> an_failures a' = an_failures a) \<or>
      (\<exists>err. Append A (audit_entry valid action entity idParam captureBody r) None (svc_db (an_peer a)) = (Inl err, svc_db (an_peer a'))) \<and>
        an_failures a' = an_failures a + 1)"
proof (cases "status \<ge> 400")
  case True
  with assms show ?thesis by (auto simp: audit_Middleware_def audit_Enabled_def)
next
  case False
  let ?e = "audit_entry valid action entity idParam captureBody r"
  have tok: "ac_token c \<noteq> []" using assms(2) by (auto simp: accepted_tokens_def)
  have e: "en_actor_sub ?e \<noteq> []" "en_action ?e \<noteq> []" "en_entity ?e \<noteq> []" using assms(3-5) by (simp_all add: audit_entry_def)
  obtain reply svc where ing: "Ingest A (Some (?e, None)) (an_peer a) = (reply, svc)" by (rule prod.exhaust)
  have post: "ingest_post A ingestToken url (Some (ac_token c)) ?e (an_peer a) = (Some (status_code reply), svc)" for url
    using assms(2) by (simp add: ingest_post_def RequireIngestAuth_def ing)
  have run: "answer = (status, t)" "a' = (if status_code reply \<ge> 300 then a\<lparr>an_peer := svc, an_failures := an_failures a + 1\<rparr> else a\<lparr>an_peer := svc\<rparr>)"
    using assms(1,6,7) False tok by (auto simp: audit_Middleware_def audit_Enabled_def Emit_def post Let_def)
  from e ing show ?thesis
  proof (cases rule: Ingest_cases)
    case (failed err)
    then show ?thesis using run False by auto
  next
    case (kept e')
    have st: "\<not> status_code reply \<ge> 300" using kept(2) by simp
    from Append_row [OF kept(1)] obtain x where "audit_log (svc_db svc) = audit_log (svc_db (an_peer a)) @ [x]"
      "en_actor_sub x = en_actor_sub ?e" "en_actor_roles x = en_actor_roles ?e" "en_action x = en_action ?e" "en_entity x = en_entity ?e"
      "en_entity_id x = en_entity_id ?e" by blast
    then show ?thesis using run st False by (auto simp: audit_entry_def)
  qed
qed

text \<open>With the body captured the handler is given at most 64 KiB of it.\<close>

lemma capture_truncates:
  assumes "ac_base c \<noteq> []"
  shows "fst (audit_Middleware (Some c) send valid action entity idParam True nxt r s a) = nxt (take 65536 (hl_body r)) s"
  using assms by (auto simp: audit_Middleware_def audit_Enabled_def captured_def split: prod.split)

text \<open>No document is put before the index has been created or found.\<close>

lemma mirror_index_first:
  assumes "mirror_Enabled m" "\<not> fst (EnsureIndex put m)"
  shows "mirror_Publish put e m = snd (EnsureIndex put m)"
  using assms by (auto simp: mirror_Publish_def split: prod.split bool.split)

section \<open>A worked example\<close>

definition toggle_call :: http_call where
  "toggle_call = \<lparr>hl_body = ''x'', hl_ctx = Some [(''sub'', JStr ''ann'')], hl_remote = [], hl_agent = [], hl_param = (\<lambda>_. ''telematics'')\<rparr>"

definition toggle_client_cfg :: audit_client where
  "toggle_client_cfg = \<lparr>ac_base = ''http://audit'', ac_token = ''k'', ac_service = ''toggle-service''\<rparr>"

definition plain_audit :: audit_env where
  "plain_audit = \<lparr>au_sha = id, au_jsonb = Some, au_now = 0, au_fault = (\<lambda>_. False)\<rparr>"

definition new_service :: "audit_service audit_net" where
  "new_service = \<lparr>an_peer = \<lparr>svc_db = \<lparr>audit_log = [], next_serial = 1\<rparr>, svc_detector = detector_New 5 60, svc_entries_total = 0\<rparr>, an_failures = 0\<rparr>"

definition toggled :: "(nat \<times> unit) \<times> audit_service audit_net" where
  "toggled = audit_Middleware (Some toggle_client_cfg) (ingest_post plain_audit ''k'') (\<lambda>_. True) ''toggle.update'' ''feature_toggle'' ''module'' False
     (\<lambda>_ s. (200, s)) toggle_call () new_service"

theorem audited_iff_successful_witness:
  "fst toggled = (200, ()) \<and>
   ((\<exists>x. audit_log (svc_db (an_peer (snd toggled))) = audit_log (svc_db (an_peer new_service)) @ [x] \<and> en_actor_sub x = ''ann'') \<or>
    an_failures (snd toggled) = an_failures new_service + 1)"
proof -
  have hyps: "ac_base toggle_client_cfg \<noteq> []" "ac_token toggle_client_cfg \<in> set (accepted_tokens ''k'')" "Subject (hl_ctx toggle_call) \<noteq> []"
    "''toggle.update'' \<noteq> []" "''feature_toggle'' \<noteq> []"
    by (simp_all add: toggle_client_cfg_def toggle_call_def accepted_tokens_def trim_space_def is_space_def Subject_def)
  have run: "audit_Middleware (Some toggle_client_cfg) (ingest_post plain_audit ''k'') (\<lambda>_. True) ''toggle.update'' ''feature_toggle'' ''module'' False
     (\<lambda>_ s. (200, s)) toggle_call () new_service = (fst toggled, snd toggled)" by (simp add: toggled_def)
  have sub: "Subject (hl_ctx toggle_call) = ''ann''" by (simp add: toggle_call_def Subject_def)
  have ok: "(\<lambda>_ s. (200, s)) (captured False toggle_call) () = (200, ())" by simp
  from audited_iff_successful [OF hyps ok run] show ?thesis unfolding sub by auto
qed

end
