(* ===== verification/Spec2Isabelle.thy ===== *)
theory Spec2Isabelle
  imports Refunds Billing Trading Advertising Carbon AuditLog Queue Charters Depot Onboarding Evidence Drt Workflows Permify Passenger Gdpr Compliance Keycloak Operations Opendata Emission
begin

text \<open>
  H2Fleet: a verification development of the Go services of a hydrogen bus platform.

  \<^bold>\<open>The program.\<close> The repository is a set of HTTP services over Postgres, a TigerBeetle ledger and a Kafka
  log. The core is commerce-api (src/services/go/commerce-api), which moves money: riders pay fares from
  wallets, employers are billed for the fares they cover, refunds reverse payments, loyalty points are
  earned and spent, energy is traded and advertising space is booked. Requests are authenticated by the
  shared JWT middleware (src/packages/go-auth). The audit-log service (src/services/go/audit-log) keeps a
  hash-chained trail of sensitive actions. infra-api (src/services/go/infra-api) runs the refuelling
  queues, the dispatch of drivers and vehicles, charter bookings, the depot and incidents. citizen-api
  (src/services/go/citizen-api) books demand-responsive rides and informs passengers, fleet-api (src/services/go/fleet-api) serves vehicles and telemetry. admin-api
  (src/services/go/admin-api) administers identities and onboards stakeholders.

  \<^bold>\<open>How it is modelled.\<close> Every handler is one HOL function from an environment, the request and the state
  to a reply and the new state. A table is the list of its rows (records named after the Go structs), a
  query is \<open>find\<close> or \<open>filter\<close>, an update \<open>upd_rows\<close>. The environment is a record: configuration, clock,
  generated ids, the third-party functions the code calls, and \<open>fault op\<close>, which makes the database call
  that the code reports under \<open>op\<close> fail; so every error path of the code is a branch of the model. Replies
  are the values of the datatype \<open>resp\<close>, one constructor per way the handlers answer. A transaction under a
  lock is one step; where the code works in several unprotected steps, these are separate definitions,
  composed by the handler's definition and interleaved by an inductive step relation. \<open>int64\<close> arithmetic
  is on \<open>int\<close> with the wrap-around written out (\<open>i64\<close>, \<open>u64\<close>); \<open>float64\<close> quantities are rationals with an
  explicit rounding parameter.

  \<^bold>\<open>Theories.\<close>
  \<^item> \<open>Prelude\<close>: integers, JSON, replies, row tables, Go string functions.
  \<^item> \<open>Ledger\<close> (internal/ledger/ledger.go): the in-memory ledger, the TigerBeetle wrapper over an abstract
    client, and the locale \<open>ledger_contract\<close>, the interface every payer relies on, interpreted on the
    in-memory ledger; conservation of money; a transfer id moves money at most once in any sequence of calls.
  \<^item> \<open>Auth\<close> (packages/go-auth/jwt.go): verification of tokens, key refresh, roles; soundness of the guard.
  \<^item> \<open>Permify\<close> (packages/go-auth/permify.go): protobuf over 64-bit words, the permission check and its guard.
  \<^item> \<open>Toggles\<close> (toggle-service, packages/toggle-client, gate.go): toggles, their two caches and the route gate.
    Reading the row, filling the Redis cache, delivering the answer and filling the client's cache are separate
    steps; how long an answer may be under way (\<open>D\<close>) is a parameter of the bound on stale answers.
  \<^item> \<open>Store\<close>: the commerce tables and the request environment (handlers/common.go and the row structs).
  \<^item> \<open>Wallets\<close> (wallets.go and riderAccount of payments.go): sequential wallet allocation, top-ups.
  \<^item> \<open>Entitlements\<close> (entitlements.go, resolveEntitlement): products, grants, the best entitlement.
  \<^item> \<open>Loyalty\<close> (loyalty.go): accrual, clawback, redemption as interleaved steps; balances against the audit
    trail.
  \<^item> \<open>Ilp\<close>, \<open>Mojaloop\<close> (internal/mojaloop): packets and conditions; the three-leg transfer flow with its
    retry loop, which terminates because every retry starts later than the one before; error classes.
  \<^item> \<open>Payments\<close>, \<open>Refunds\<close> (payments.go): pricing under the daily cap, the ledger and Mojaloop legs,
    idempotent replay, refunds in their three unprotected steps, tallied against the accepted requests.
  \<^item> \<open>Billing\<close> (billing.go): corporate accounts, the invoice sweep, invoice payment; the books balance.
  \<^item> \<open>Trading\<close> (trading.go): energy trades, surplus draw-down and compensation, cancellation.
  \<^item> \<open>Advertising\<close> (advertising.go): campaigns, slots, placements; budgets and overlaps.
  \<^item> \<open>Carbon\<close> (consumers/carbon.go): the carbon fund posting and the consumed batch.
  \<^item> \<open>Timestamps\<close>, \<open>AuditLog\<close> (audit-log): RFC 3339 texts and their round trip; chain hash, append, verify,
    handlers, anomaly detector; two trails that the verifier accepts and that end in the same hash are equal.
  \<^item> \<open>Emission\<close> (auditclient, mirror, event publishers): the audit middleware joined to the ingest endpoint.
  \<^item> \<open>Queue\<close> (infra-api, handlers/queue.go): joining, serving and leaving a station queue, as interleaved
    statements.
  \<^item> \<open>Index\<close>: the locale \<open>partial_unique\<close>, what a partial unique index of the schema guarantees,
    interpreted on the indexes of dispatch jobs, onboarding requests and work orders.
  \<^item> \<open>Dispatch\<close>, \<open>Charters\<close> (infra-api, handlers/dispatch.go, drivers.go, charters.go): jobs under
    hours-of-service limits, drivers, block bookings; the check of the limits (on the state before) and the insertion
    (on a later one) are separate definitions; no double booking under any interleaving.
  \<^item> \<open>Depot\<close> (infra-api, handlers/depot.go, consumers/maintenance.go): bays, work orders and predictions.
  \<^item> \<open>Webhooks\<close>, \<open>Incidents\<close>, \<open>Evidence\<close> (infra-api, handlers/webhooks.go, incidents.go, stations.go, evidence.go,
    workflow/activities.go): incident rows and signed partner notifications; stations, incidents from opening
    to resolution and the closing of stations, with \<open>safety_run\<close> as the requests and activities one after another; the
    evidence pack over the audit trail.
  \<^item> \<open>Workflows\<close> (infra-api, workflow/workflows.go): the incident and dispatch workflows as moves, timers and
    retried activities among the handlers; the locale \<open>countdown\<close>, their progress argument, interpreted on both.
  \<^item> \<open>Compliance\<close> (infra-api, handlers/compliance.go, chargers.go): compliance reports, maps from keys to values as in
    the code, whose sections degrade one by one, and the listings of charge points.
  \<^item> \<open>Fleet\<close>, \<open>Drt\<close> (fleet-api, handlers; citizen-api, handlers/drt.go, consumers/drt.go): vehicles, telemetry, fuel
    levels; demand-responsive rides and their assignment, as interleaved statements.
  \<^item> \<open>Passenger\<close> (citizen-api, handlers/passenger.go): the stop network, timetables and the journey planner; the loop
    over departures is a \<open>partial_function\<close>, which ends for every positive headway and hangs for zero.
  \<^item> \<open>Opendata\<close> (citizen-api, handlers/gtfs.go, opendata.go): the GTFS feed as CSV, which reads back, and its agreement
    with the arrivals endpoint on a server that runs in UTC.
  \<^item> \<open>Gdpr\<close> (citizen-api, handlers/me.go): export and erasure of a rider's data, the erasure as a transaction that
    nothing interrupts.
  \<^item> \<open>Identity\<close> (admin-api, internal/keycloak, internal/users): the directory interface as a record of
    operations, the simulated client, user management; the locale \<open>admin_directory\<close> is what its guards
    rely on, interpreted on the simulated client with at most a thousand administrators, calls one after another.
  \<^item> \<open>Keycloak\<close> (admin-api, internal/keycloak/keycloak.go): the HTTP client of the identity server, its token cache and
    the escaping of addresses; every use of the clock is a reading of its own, and the trace of a call shows them.
  \<^item> \<open>Operations\<close> (admin-api, internal/kpi, ops, modules; commerce-api, handlers/dashboard.go; citizen-api,
    handlers/carbon.go): dashboards; concurrent collection gives the same answer in every order.
  \<^item> \<open>Onboarding\<close> (admin-api, internal/onboarding): requests from intake to decision, provisioning, expiry
    and reconciliation.

  \<^bold>\<open>What is shown.\<close> Invariants of the state over every reachable interleaving (points, refunds, advertising,
  corporate books, the daily cap, the ledger); exact effects of single operations with all their branches;
  idempotence of retries; equivalence of the sliding-window detector with its full-history specification;
  round trips of encoders; bounds of the retry loop; and, where the code does not do what its comments say,
  theorems that exhibit it.

  \<^bold>\<open>Bounds and fuel.\<close> The allocation loops run their three attempts by recursion on the number left; the
  Mojaloop loop is a terminating \<open>function\<close>. Fares are assumed below \<open>2 ^ 63 / 100\<close> where a percentage is
  taken, because the product overflows beyond; advertising budgets and costs below \<open>2 ^ 62\<close>, and the
  counterexample for larger ones is a theorem. Money properties are stated over the in-memory ledger, the
  one whose code is here; TigerBeetle itself is a parameter with the same contract. Token lifetimes are assumed between
  0 and nine thousand million seconds, so that the subtraction and the product of the expiry do not wrap; dispatch times are
  whole microseconds and shifts shorter than \<open>2 ^ 63\<close> nanoseconds.

  \<^bold>\<open>Not modelled.\<close> Configuration, metrics, connection pools, route registration and process start-up: they
  only pass values to a library. The Python, Rust and
  TypeScript services, the apps, the SQL migrations beyond the constraints used, and deployment files.
  Network, Kafka and Postgres themselves appear only through the environment.
\<close>

end
